(* ===== verification/Prelude.thy ===== *)
theory Prelude
  imports Complex_Main "HOL-Library.Product_Lexorder" "HOL-Library.Char_ord"
begin

section \<open>Shared vocabulary of the model\<close>

text \<open>
  What every component theory uses: results of fallible code, the JavaScript number and
  date values the code tests for (\<open>Number.isSafeInteger\<close>, \<open>getTime\<close>), the string
  operations of the standard library (\<open>trim\<close>, \<open>split\<close>, \<open>join\<close>, \<open>padStart\<close>, decimal
  printing and parsing), the identifier pattern, database tables as lists of rows, and the
  generic lemmas about them. A string is a list of code units below 256; dates are counts
  of milliseconds.
\<close>

named_theorems row_simps \<open>reading a table after an update\<close>
named_theorems str_simps \<open>decimal and separator strings\<close>

subsection \<open>Results of fallible code\<close>

text \<open>A thrown error is \<open>Inl\<close>, a returned value \<open>Inr\<close>.\<close>

definition bind_result :: "'e + 'a \<Rightarrow> ('a \<Rightarrow> 'e + 'b) \<Rightarrow> 'e + 'b" where
  "bind_result m f = (case m of Inl e \<Rightarrow> Inl e | Inr x \<Rightarrow> f x)"

definition require :: "bool \<Rightarrow> 'e \<Rightarrow> 'e + unit" where
  "require b e = (if b then Inr () else Inl e)"

fun map_result :: "('a \<Rightarrow> 'e + 'b) \<Rightarrow> 'a list \<Rightarrow> 'e + 'b list" where
  "map_result f [] = Inr []"
| "map_result f (x # xs) =
     bind_result (f x) (\<lambda>y. bind_result (map_result f xs) (\<lambda>ys. Inr (y # ys)))"

lemma bind_result_simps [simp]:
  "bind_result (Inl e) f = Inl e"
  "bind_result (Inr x) f = f x"
  by (simp_all add: bind_result_def)

lemma bind_result_Inr [simp]:
  "bind_result m f = Inr y \<longleftrightarrow> (\<exists>x. m = Inr x \<and> f x = Inr y)"
  by (cases m) auto

lemma bind_result_Inl:
  "bind_result m f = Inl e \<longleftrightarrow> m = Inl e \<or> (\<exists>x. m = Inr x \<and> f x = Inl e)"
  by (cases m) auto

lemma require_simps [simp]:
  "require b e = Inr u \<longleftrightarrow> b"
  "require b e = Inl e' \<longleftrightarrow> \<not> b \<and> e' = e"
  "require True e = Inr ()"
  by (auto simp: require_def)

lemma map_result_Inr:
  "map_result f xs = Inr ys \<longleftrightarrow> list_all2 (\<lambda>x y. f x = Inr y) xs ys"
  by (induction xs arbitrary: ys) (auto simp: list_all2_Cons1)

lemma map_result_Inr_length: "map_result f xs = Inr ys \<Longrightarrow> length ys = length xs"
  by (auto simp: map_result_Inr dest: list_all2_lengthD)

lemma map_result_Inr_nth:
  "map_result f xs = Inr ys \<Longrightarrow> i < length ys \<Longrightarrow> f (xs ! i) = Inr (ys ! i)"
  by (auto simp: map_result_Inr dest: list_all2_nthD2)

lemma map_result_total: "(\<And>x. x \<in> set xs \<Longrightarrow> \<exists>y. f x = Inr y) \<Longrightarrow> \<exists>ys. map_result f xs = Inr ys"
proof (induction xs)
  case Nil
  show ?case by simp
next
  case (Cons x xs)
  then obtain y ys where "f x = Inr y" and "map_result f xs = Inr ys" by fastforce
  then show ?case by simp
qed

text \<open>The \<open>details\<close> an error of the domain packages carries: named numbers and strings.\<close>

datatype detail = DNum int | DStr string

type_synonym details = "(string \<times> detail) list"

subsection \<open>JavaScript numbers and dates\<close>

definition max_safe_integer :: int where
  "max_safe_integer = 9007199254740991"

definition is_safe_integer :: "int \<Rightarrow> bool" where
  "is_safe_integer n \<longleftrightarrow> - max_safe_integer \<le> n \<and> n \<le> max_safe_integer"

text \<open>A number that may be \<open>NaN\<close> or infinite, where the code asks \<open>Number.isFinite\<close>.\<close>

datatype js_number = Finite rat | Not_Finite

text \<open>\<open>Date.getTime()\<close>: \<open>None\<close> is the \<open>NaN\<close> of an invalid date.\<close>

type_synonym js_date = "int option"

text \<open>\<open>new Date (ms)\<close> is invalid beyond 8.64e15 milliseconds from the epoch.\<close>

definition make_date :: "int \<Rightarrow> js_date" where
  "make_date ms = (if \<bar>ms\<bar> \<le> 8640000000000000 then Some ms else None)"

text \<open>\<open>Math.round\<close>: half towards plus infinity. \<open>Math.ceil (n / 2)\<close> on integers.\<close>

definition js_round :: "rat \<Rightarrow> int" where
  "js_round x = \<lfloor>x + 1/2\<rfloor>"

definition ceil_half :: "int \<Rightarrow> int" where
  "ceil_half n = (n + 1) div 2"

lemma ceil_half_bounds: "n \<le> 2 * ceil_half n" "2 * ceil_half n \<le> n + 1"
  by (auto simp: ceil_half_def)

subsection \<open>Characters and strings\<close>

definition code :: "char \<Rightarrow> nat" where
  "code c = of_char c"

definition is_space :: "char \<Rightarrow> bool" where
  "is_space c \<longleftrightarrow> code c \<in> {9, 10, 11, 12, 13, 32, 160}"

definition is_digit :: "char \<Rightarrow> bool" where
  "is_digit c \<longleftrightarrow> 48 \<le> code c \<and> code c \<le> 57"

definition is_hex_lower :: "char \<Rightarrow> bool" where
  "is_hex_lower c \<longleftrightarrow> is_digit c \<or> (97 \<le> code c \<and> code c \<le> 102)"

definition is_hex :: "char \<Rightarrow> bool" where
  "is_hex c \<longleftrightarrow> is_hex_lower c \<or> (65 \<le> code c \<and> code c \<le> 70)"

definition lower_char :: "char \<Rightarrow> char" where
  "lower_char c =
     (if 65 \<le> code c \<and> code c \<le> 90 \<or> 192 \<le> code c \<and> code c \<le> 222 \<and> code c \<noteq> 215
      then char_of (code c + 32) else c)"

definition js_lower :: "string \<Rightarrow> string" where
  "js_lower = map lower_char"

definition js_trim :: "string \<Rightarrow> string" where
  "js_trim s = rev (dropWhile is_space (rev (dropWhile is_space s)))"

fun starts_with :: "string \<Rightarrow> string \<Rightarrow> bool" where
  "starts_with [] s = True"
| "starts_with (p # ps) [] = False"
| "starts_with (p # ps) (c # cs) = (p = c \<and> starts_with ps cs)"

fun split_on :: "char \<Rightarrow> string \<Rightarrow> string list" where
  "split_on sep [] = [[]]"
| "split_on sep (c # cs) =
     (if c = sep then [] # split_on sep cs
      else (case split_on sep cs of [] \<Rightarrow> [[c]] | w # ws \<Rightarrow> (c # w) # ws))"

fun join_with :: "char \<Rightarrow> string list \<Rightarrow> string" where
  "join_with sep [] = []"
| "join_with sep [w] = w"
| "join_with sep (w # ws) = w @ sep # join_with sep ws"

lemma starts_with_append [simp]: "starts_with p (p @ s)"
  by (induction p) auto

lemma starts_with_iff: "starts_with p s \<longleftrightarrow> (\<exists>t. s = p @ t)"
  by (induction p s rule: starts_with.induct) auto

lemma split_on_not_Nil [simp]: "split_on sep s \<noteq> []"
  by (induction s) (auto split: list.splits)

lemma split_on_no_sep [str_simps]: "sep \<notin> set s \<Longrightarrow> split_on sep s = [s]"
  by (induction s) auto

lemma split_on_append [str_simps]:
  "sep \<notin> set w \<Longrightarrow> split_on sep (w @ sep # s) = w # split_on sep s"
  by (induction w) auto

lemma split_on_words: "w \<in> set (split_on sep s) \<Longrightarrow> sep \<notin> set w"
  by (induction s arbitrary: w) (auto split: list.splits if_splits)

lemma join_split [simp]: "join_with sep (split_on sep s) = s"
proof (induction s)
  case Nil
  show ?case by simp
next
  case (Cons c cs)
  obtain w ws where s: "split_on sep cs = w # ws"
    using split_on_not_Nil [of sep cs] by (cases "split_on sep cs") auto
  with Cons show ?case by (cases ws) auto
qed

lemma split_join:
  assumes "ws \<noteq> []" and "\<forall>w \<in> set ws. sep \<notin> set w"
  shows "split_on sep (join_with sep ws) = ws"
  using assms by (induction sep ws rule: join_with.induct) (auto simp: str_simps)

lemma dropWhile_no_space [simp]: "\<forall>c \<in> set s. \<not> is_space c \<Longrightarrow> dropWhile is_space s = s"
  by (cases s) auto

lemma js_trim_no_space [str_simps]: "\<forall>c \<in> set s. \<not> is_space c \<Longrightarrow> js_trim s = s"
  by (simp add: js_trim_def)

subsection \<open>Decimal numerals\<close>

definition digit_char :: "nat \<Rightarrow> char" where
  "digit_char d = char_of (48 + d)"

definition digit_value :: "char \<Rightarrow> nat" where
  "digit_value c = code c - 48"

fun show_nat :: "nat \<Rightarrow> string" where
  "show_nat n = (if n < 10 then [digit_char n] else show_nat (n div 10) @ [digit_char (n mod 10)])"

declare show_nat.simps [simp del]

definition read_digits :: "string \<Rightarrow> nat" where
  "read_digits = foldl (\<lambda>acc c. 10 * acc + digit_value c) 0"

definition show_int :: "int \<Rightarrow> string" where
  "show_int n = (if n < 0 then CHR ''-'' # show_nat (nat (- n)) else show_nat (nat n))"

text \<open>\<open>String (value).padStart (3, "0")\<close>.\<close>

definition pad3 :: "int \<Rightarrow> string" where
  "pad3 n = (let s = show_int n in replicate (3 - length s) (CHR ''0'') @ s)"

lemma code_digit_char: "d < 10 \<Longrightarrow> code (digit_char d) = 48 + d"
  by (simp add: code_def digit_char_def)

lemma digit_char_is_digit [simp]: "d < 10 \<Longrightarrow> is_digit (digit_char d)"
  by (simp add: is_digit_def code_digit_char)

lemma digit_value_digit_char [simp]: "d < 10 \<Longrightarrow> digit_value (digit_char d) = d"
  by (simp add: digit_value_def code_digit_char)

lemma show_nat_digits [str_simps]: "c \<in> set (show_nat n) \<Longrightarrow> is_digit c"
  by (induction n rule: show_nat.induct) (subst (asm) (2) show_nat.simps, auto split: if_splits)

lemma show_nat_not_Nil [simp]: "show_nat n \<noteq> []"
  by (subst show_nat.simps) simp

lemma read_digits_snoc: "read_digits (s @ [c]) = 10 * read_digits s + digit_value c"
  by (simp add: read_digits_def)

lemma read_digits_show_nat [simp]: "read_digits (show_nat n) = n"
proof (induction n rule: show_nat.induct)
  case (1 n)
  then show ?case
    by (cases "n < 10") (auto simp: show_nat.simps [of n] read_digits_snoc, simp add: read_digits_def)
qed

lemma length_show_nat_less: "n < 10 ^ k \<Longrightarrow> 0 < k \<Longrightarrow> length (show_nat n) \<le> k"
proof (induction n arbitrary: k rule: show_nat.induct)
  case (1 n)
  show ?case
  proof (cases "n < 10")
    case True
    with 1 show ?thesis by (simp add: show_nat.simps [of n])
  next
    case False
    with 1(2,3) obtain k' where k: "k = Suc k'" "0 < k'"
      by (cases k) (auto, metis False gr0I power_0 power_one_right mult.right_neutral)
    have "n div 10 < 10 ^ k'" using 1(2) k by (simp add: less_mult_imp_div_less mult.commute)
    from 1(1) [OF False this k(2)] False k show ?thesis by (simp add: show_nat.simps [of n])
  qed
qed

lemma read_digits_pad [simp]: "read_digits (replicate m (CHR ''0'') @ s) = read_digits s"
proof -
  have "foldl (\<lambda>acc c. 10 * acc + digit_value c) 0 (replicate m (CHR ''0'')) = 0"
    by (induction m) (auto simp: digit_value_def code_def)
  then show ?thesis by (simp add: read_digits_def)
qed

lemma digit_not_space: "is_digit c \<Longrightarrow> \<not> is_space c"
  by (auto simp: is_digit_def is_space_def)

lemma is_digit_CHR [simp]:
  "\<not> is_digit (CHR '','')" "\<not> is_digit (CHR ''-'')" "\<not> is_digit (CHR ''#'')"
  "\<not> is_digit (CHR ''o'')" "\<not> is_digit (CHR ''.'')" "is_digit (CHR ''0'')"
  by (simp_all add: is_digit_def code_def)

lemma is_space_CHR [simp]: "\<not> is_space (CHR ''-'')" "\<not> is_space (CHR '','')"
  "\<not> is_space (CHR ''#'')" "\<not> is_space (CHR ''o'')" "\<not> is_space (CHR ''f'')"
  by (simp_all add: is_space_def code_def)

subsection \<open>Identifiers\<close>

text \<open>
  The UUID patterns of the source, position by position:
  \<open>[0-9a-f]{8}-[0-9a-f]{4}-[1-8][0-9a-f]{3}-[89ab][0-9a-f]{3}-[0-9a-f]{12}\<close>.
\<close>

definition uuid_classes :: "(char \<Rightarrow> bool) \<Rightarrow> (char \<Rightarrow> bool) \<Rightarrow> (char \<Rightarrow> bool) list" where
  "uuid_classes h variant =
     replicate 8 h @ [(=) (CHR ''-'')] @ replicate 4 h @ [(=) (CHR ''-'')]
     @ [(\<lambda>c. 49 \<le> code c \<and> code c \<le> 56)] @ replicate 3 h @ [(=) (CHR ''-'')]
     @ [variant] @ replicate 3 h @ [(=) (CHR ''-'')] @ replicate 12 h"

definition matches_classes :: "(char \<Rightarrow> bool) list \<Rightarrow> string \<Rightarrow> bool" where
  "matches_classes ps s = list_all2 (\<lambda>p c. p c) ps s"

definition is_uuid_lower :: "string \<Rightarrow> bool" where
  "is_uuid_lower = matches_classes (uuid_classes is_hex_lower (\<lambda>c. c \<in> set ''89ab''))"

definition is_uuid :: "string \<Rightarrow> bool" where
  "is_uuid = matches_classes (uuid_classes is_hex (\<lambda>c. c \<in> set ''89abAB''))"

lemma matches_classes_set:
  assumes "matches_classes ps s" and "\<And>p c. p \<in> set ps \<Longrightarrow> p c \<Longrightarrow> Q c" and "c \<in> set s"
  shows "Q c"
proof -
  obtain i where "i < length s" and "s ! i = c"
    using assms(3) by (auto simp: in_set_conv_nth)
  moreover from this assms(1) have "(ps ! i) c" and "ps ! i \<in> set ps"
    by (auto simp: matches_classes_def list_all2_conv_all_nth)
  ultimately show ?thesis using assms(2) by blast
qed

lemma length_uuid: "is_uuid s \<Longrightarrow> length s = 36" "is_uuid_lower s \<Longrightarrow> length s = 36"
  by (auto simp: is_uuid_def is_uuid_lower_def matches_classes_def uuid_classes_def
      dest!: list_all2_lengthD)

definition is_uuid_char :: "char \<Rightarrow> bool" where
  "is_uuid_char c \<longleftrightarrow> is_hex c \<or> c = CHR ''-''"

lemma uuid_chars: "is_uuid s \<Longrightarrow> c \<in> set s \<Longrightarrow> is_uuid_char c"
  unfolding is_uuid_def
  by (erule matches_classes_set)
    (auto simp: uuid_classes_def is_uuid_char_def is_hex_def is_hex_lower_def is_digit_def code_def)

lemma uuid_lower_chars: "is_uuid_lower s \<Longrightarrow> c \<in> set s \<Longrightarrow> is_hex_lower c \<or> c = CHR ''-''"
  unfolding is_uuid_lower_def
  by (erule matches_classes_set)
    (auto simp: uuid_classes_def is_hex_lower_def is_digit_def code_def)

subsection \<open>Database tables\<close>

text \<open>
  A table is the list of its rows in insertion order. \<open>findFirst\<close> without an ordering and
  \<open>updateMany\<close> with its count, as the code reads them.
\<close>

definition update_many :: "('r \<Rightarrow> bool) \<Rightarrow> ('r \<Rightarrow> 'r) \<Rightarrow> 'r list \<Rightarrow> nat \<times> 'r list" where
  "update_many p f rows = (length (filter p rows), map (\<lambda>r. if p r then f r else r) rows)"

definition updated :: "('r \<Rightarrow> bool) \<Rightarrow> ('r \<Rightarrow> 'r) \<Rightarrow> 'r list \<Rightarrow> 'r list" where
  "updated p f rows = map (\<lambda>r. if p r then f r else r) rows"

lemma update_many_simps [simp]:
  "fst (update_many p f rows) = length (filter p rows)"
  "snd (update_many p f rows) = updated p f rows"
  by (simp_all add: update_many_def updated_def)

lemma length_updated [simp]: "length (updated p f rows) = length rows"
  by (simp add: updated_def)

lemma set_updated: "set (updated p f rows) = f ` {r \<in> set rows. p r} \<union> {r \<in> set rows. \<not> p r}"
  by (auto simp: updated_def)

lemma updated_Nil [simp]: "updated p f [] = []"
  by (simp add: updated_def)

lemma updated_Cons [simp]: "updated p f (r # rows) = (if p r then f r else r) # updated p f rows"
  by (simp add: updated_def)

lemma updated_append [simp]: "updated p f (rs @ rows) = updated p f rs @ updated p f rows"
  by (simp add: updated_def)

lemma updated_none [row_simps]: "\<forall>r \<in> set rows. \<not> p r \<Longrightarrow> updated p f rows = rows"
  by (induction rows) auto

lemma map_updated [row_simps]: "(\<And>r. p r \<Longrightarrow> g (f r) = g r) \<Longrightarrow> map g (updated p f rows) = map g rows"
  by (induction rows) auto

lemma find_Some_set: "List.find p xs = Some x \<Longrightarrow> x \<in> set xs \<and> p x"
  by (auto simp: find_Some_iff)

lemma map_eq_transfer:
  assumes "map f xs = map f ys" and "\<And>x y. f x = f y \<Longrightarrow> g x = g y"
  shows "map g xs = map g ys"
proof -
  have "length xs = length ys" using assms(1) by (metis length_map)
  moreover have "g (xs ! i) = g (ys ! i)" if "i < length xs" for i
    using assms that calculation by (metis nth_map)
  ultimately show ?thesis by (simp add: list_eq_iff_nth_eq)
qed

lemma find_map: "List.find p (map f xs) = map_option f (List.find (\<lambda>x. p (f x)) xs)"
  by (induction xs) auto

lemma find_filter_head: "filter p xs = y # ys \<Longrightarrow> List.find p xs = Some y"
  by (induction xs) (auto split: if_splits)

lemma find_key_unique [row_simps]:
  "distinct (map key rows) \<Longrightarrow> r \<in> set rows \<Longrightarrow> List.find (\<lambda>x. key x = key r) rows = Some r"
  by (induction rows) (auto simp: image_iff)

lemma filter_key_unique [row_simps]:
  "distinct (map key rows) \<Longrightarrow> r \<in> set rows \<Longrightarrow> q r \<Longrightarrow>
    filter (\<lambda>x. key x = key r \<and> q x) rows = [r]"
proof (induction rows)
  case (Cons x rows)
  show ?case
  proof (cases "x = r")
    case True
    with Cons.prems have "\<forall>y \<in> set rows. key y \<noteq> key r"
      by (auto simp: image_iff)
    with True Cons.prems show ?thesis by (simp add: filter_empty_conv)
  next
    case False
    with Cons.prems have "r \<in> set rows" and "key x \<noteq> key r" by auto
    with Cons show ?thesis by simp
  qed
qed simp

lemma key_unique: "distinct (map key rows) \<Longrightarrow> r \<in> set rows \<Longrightarrow> r' \<in> set rows \<Longrightarrow> key r = key r' \<Longrightarrow> r = r'"
  by (auto simp: distinct_map dest: inj_onD)

subsection \<open>Systems that run operations\<close>

text \<open>
  A component that is driven by a sequence of requests. A client that knows an invariant of
  one request has it for every history (of the requests that satisfy its guard, where it has
  one); one that also knows a preorder every request respects has it between any two moments
  of a history.
\<close>

locale guarded_stepping =
  fixes step :: "'e \<Rightarrow> 's \<Rightarrow> 's" and inv :: "'s \<Rightarrow> bool" and ok :: "'e \<Rightarrow> bool"
  assumes guarded_step_inv: "ok e \<Longrightarrow> inv s \<Longrightarrow> inv (step e s)"
begin

lemma guarded_run_inv: "list_all ok es \<Longrightarrow> inv s \<Longrightarrow> inv (fold step es s)"
  by (induction es arbitrary: s) (auto intro: guarded_step_inv)

end

locale stepping =
  fixes step :: "'e \<Rightarrow> 's \<Rightarrow> 's" and inv :: "'s \<Rightarrow> bool"
  assumes step_inv: "inv s \<Longrightarrow> inv (step e s)"

sublocale stepping \<subseteq> guarded_stepping step inv "\<lambda>_. True"
  by unfold_locales (rule step_inv)

context stepping begin

lemma run_inv: "inv s \<Longrightarrow> inv (fold step es s)"
  by (rule guarded_run_inv) (simp_all add: list_all_iff)

end

locale monotone_stepping = stepping step inv
  for step :: "'e \<Rightarrow> 's \<Rightarrow> 's" and inv :: "'s \<Rightarrow> bool" +
  fixes le :: "'s \<Rightarrow> 's \<Rightarrow> bool"
  assumes le_refl: "le s s"
    and le_trans: "le s t \<Longrightarrow> le t u \<Longrightarrow> le s u"
    and step_le: "inv s \<Longrightarrow> le s (step e s)"
begin

lemma run_le: "inv s \<Longrightarrow> le s (fold step es s)"
proof (induction es arbitrary: s)
  case Nil
  then show ?case by (simp add: le_refl)
next
  case (Cons e es)
  then have "le s (step e s)" and "le (step e s) (fold step es (step e s))"
    by (auto intro: step_le step_inv)
  then show ?case by (auto intro: le_trans)
qed

lemma run_le_later: "inv s \<Longrightarrow> le (fold step es s) (fold step (es @ fs) s)"
  using run_le [of "fold step es s" fs] by (simp add: run_inv)

end

end
