(* ===== verification/Session_State.thy ===== *)
theory Session_State
  imports Prelude
begin

text \<open>
  \<^verbatim>\<open>packages/domain/src/session.ts\<close>: the states of a print session, the transition table,
  the versioned transition every service goes through, and expiry. The lemmas show which
  lifecycles the table allows: payment is a point of no return, nothing is printed without
  it, and a version counts the transitions made.
\<close>

section \<open>Session states and transitions\<close>

datatype session_state =
    S_CREATED | S_WAITING_FOR_UPLOAD | S_FILES_UPLOADED | S_CONFIGURING | S_AWAITING_PAYMENT
  | S_PAID | S_PRINTING | S_COMPLETED | S_FAILED | S_RECOVERY_REQUIRED | S_EXPIRED | S_CANCELED

definition SESSION_STATES :: "session_state list" where
  "SESSION_STATES =
     [S_CREATED, S_WAITING_FOR_UPLOAD, S_FILES_UPLOADED, S_CONFIGURING, S_AWAITING_PAYMENT,
      S_PAID, S_PRINTING, S_COMPLETED, S_FAILED, S_RECOVERY_REQUIRED, S_EXPIRED, S_CANCELED]"

fun session_state_name :: "session_state \<Rightarrow> string" where
  "session_state_name S_CREATED = ''CREATED''"
| "session_state_name S_WAITING_FOR_UPLOAD = ''WAITING_FOR_UPLOAD''"
| "session_state_name S_FILES_UPLOADED = ''FILES_UPLOADED''"
| "session_state_name S_CONFIGURING = ''CONFIGURING''"
| "session_state_name S_AWAITING_PAYMENT = ''AWAITING_PAYMENT''"
| "session_state_name S_PAID = ''PAID''"
| "session_state_name S_PRINTING = ''PRINTING''"
| "session_state_name S_COMPLETED = ''COMPLETED''"
| "session_state_name S_FAILED = ''FAILED''"
| "session_state_name S_RECOVERY_REQUIRED = ''RECOVERY_REQUIRED''"
| "session_state_name S_EXPIRED = ''EXPIRED''"
| "session_state_name S_CANCELED = ''CANCELED''"

definition UPLOADABLE_SESSION_STATES :: "session_state list" where
  "UPLOADABLE_SESSION_STATES = [S_WAITING_FOR_UPLOAD, S_FILES_UPLOADED, S_CONFIGURING]"

definition isUploadableSessionState :: "string \<Rightarrow> bool" where
  "isUploadableSessionState state =
     (state \<in> set (map session_state_name UPLOADABLE_SESSION_STATES))"

record versioned_session_state =
  vs_state :: session_state
  vs_version :: int

datatype session_error =
    STALE_SESSION_VERSION int int \<comment> \<open>expected, current\<close>
  | INVALID_SESSION_TRANSITION session_state session_state \<comment> \<open>current, target\<close>

fun allowedTransitions :: "session_state \<Rightarrow> session_state list" where
  "allowedTransitions S_CREATED = [S_WAITING_FOR_UPLOAD, S_CANCELED, S_EXPIRED]"
| "allowedTransitions S_WAITING_FOR_UPLOAD = [S_FILES_UPLOADED, S_CANCELED, S_EXPIRED]"
| "allowedTransitions S_FILES_UPLOADED =
     [S_WAITING_FOR_UPLOAD, S_CONFIGURING, S_AWAITING_PAYMENT, S_CANCELED, S_EXPIRED]"
| "allowedTransitions S_CONFIGURING =
     [S_FILES_UPLOADED, S_WAITING_FOR_UPLOAD, S_AWAITING_PAYMENT, S_CANCELED, S_EXPIRED]"
| "allowedTransitions S_AWAITING_PAYMENT = [S_CONFIGURING, S_PAID, S_CANCELED, S_EXPIRED]"
| "allowedTransitions S_PAID = [S_PRINTING]"
| "allowedTransitions S_PRINTING = [S_COMPLETED, S_FAILED, S_RECOVERY_REQUIRED]"
| "allowedTransitions S_COMPLETED = []"
| "allowedTransitions S_FAILED = []"
| "allowedTransitions S_RECOVERY_REQUIRED = []"
| "allowedTransitions S_EXPIRED = []"
| "allowedTransitions S_CANCELED = []"

definition canTransitionSession :: "session_state \<Rightarrow> session_state \<Rightarrow> bool" where
  "canTransitionSession from_state to_state = (to_state \<in> set (allowedTransitions from_state))"

definition transitionSession ::
  "versioned_session_state \<Rightarrow> session_state \<Rightarrow> int \<Rightarrow> session_error + versioned_session_state" where
  "transitionSession current target expectedVersion =
     (if vs_version current \<noteq> expectedVersion
      then Inl (STALE_SESSION_VERSION expectedVersion (vs_version current))
      else if \<not> canTransitionSession (vs_state current) target
      then Inl (INVALID_SESSION_TRANSITION (vs_state current) target)
      else Inr \<lparr>vs_state = target, vs_version = vs_version current + 1\<rparr>)"

text \<open>\<open>Math.min\<close> of an invalid date is \<open>NaN\<close>, and no date is at or after \<open>NaN\<close>.\<close>

definition isSessionExpired :: "js_date \<Rightarrow> js_date \<Rightarrow> js_date \<Rightarrow> bool" where
  "isSessionExpired now idleExpiresAt hardExpiresAt =
     (case (now, idleExpiresAt, hardExpiresAt) of
        (Some n, Some i, Some h) \<Rightarrow> min i h \<le> n
      | _ \<Rightarrow> False)"

subsection \<open>Lifecycles\<close>

text \<open>A caller that follows a list of targets, each from the version it last read.\<close>

fun followTargets ::
  "versioned_session_state \<Rightarrow> session_state list \<Rightarrow> session_error + versioned_session_state" where
  "followTargets s [] = Inr s"
| "followTargets s (t # ts) =
     bind_result (transitionSession s t (vs_version s)) (\<lambda>s'. followTargets s' ts)"

definition terminal_states :: "session_state set" where
  "terminal_states = {S_COMPLETED, S_FAILED, S_RECOVERY_REQUIRED, S_EXPIRED, S_CANCELED}"

definition paid_states :: "session_state set" where
  "paid_states = {S_PAID, S_PRINTING, S_COMPLETED, S_FAILED, S_RECOVERY_REQUIRED}"

lemma transitionSession_Inr [simp]:
  "transitionSession s t v = Inr s' \<longleftrightarrow>
     v = vs_version s \<and> canTransitionSession (vs_state s) t \<and>
     s' = \<lparr>vs_state = t, vs_version = vs_version s + 1\<rparr>"
  by (auto simp: transitionSession_def)

lemma terminal_iff_no_transition: "s \<in> terminal_states \<longleftrightarrow> allowedTransitions s = []"
  by (cases s) (auto simp: terminal_states_def)

lemma paid_states_closed: "s \<in> paid_states \<Longrightarrow> canTransitionSession s t \<Longrightarrow> t \<in> paid_states"
  by (cases s) (auto simp: paid_states_def canTransitionSession_def)

lemma enter_paid: "s \<notin> paid_states \<Longrightarrow> canTransitionSession s t \<Longrightarrow> t \<in> paid_states \<Longrightarrow>
    s = S_AWAITING_PAYMENT \<and> t = S_PAID"
  by (cases s) (auto simp: paid_states_def canTransitionSession_def)

lemma enter_awaiting: "canTransitionSession s S_AWAITING_PAYMENT \<Longrightarrow> s \<in> {S_FILES_UPLOADED, S_CONFIGURING}"
  by (cases s) (auto simp: canTransitionSession_def)

lemma followTargets_version:
  "followTargets s ts = Inr s' \<Longrightarrow> vs_version s' = vs_version s + int (length ts)"
  by (induction ts arbitrary: s) auto

lemma followTargets_paid:
  "followTargets s ts = Inr s' \<Longrightarrow> vs_state s \<in> paid_states \<Longrightarrow> vs_state s' \<in> paid_states"
proof (induction ts arbitrary: s)
  case (Cons t ts)
  then have "t \<in> paid_states" by (auto intro: paid_states_closed)
  with Cons.prems Cons.IH [of "\<lparr>vs_state = t, vs_version = vs_version s + 1\<rparr>"]
  show ?case by simp
qed simp

text \<open>How many transitions a paid session still has ahead of it.\<close>

fun remaining :: "session_state \<Rightarrow> nat" where
  "remaining S_PAID = 2"
| "remaining S_PRINTING = 1"
| "remaining _ = 0"

lemma remaining_step: "s \<in> paid_states \<Longrightarrow> canTransitionSession s t \<Longrightarrow> remaining s = Suc (remaining t)"
  by (cases s) (auto simp: paid_states_def canTransitionSession_def)

lemma followTargets_remaining:
  "followTargets s ts = Inr s' \<Longrightarrow> vs_state s \<in> paid_states \<Longrightarrow>
    length ts + remaining (vs_state s') = remaining (vs_state s)"
proof (induction ts arbitrary: s)
  case (Cons t ts)
  then have "canTransitionSession (vs_state s) t" by simp
  with Cons.prems have "t \<in> paid_states" and "remaining (vs_state s) = Suc (remaining t)"
    by (simp_all add: paid_states_closed remaining_step)
  with Cons.prems Cons.IH [of "\<lparr>vs_state = t, vs_version = vs_version s + 1\<rparr>"]
  show ?case by simp
qed simp

text \<open>
  C25. Payment is a point of no return: from PAID every lifecycle the transition table
  allows has at most two transitions, never leaves the paid states (so the session can be
  neither canceled nor expired), and its version counts the transitions made.
\<close>

theorem paid_session_is_committed:
  assumes "followTargets \<lparr>vs_state = S_PAID, vs_version = v\<rparr> ts = Inr s'"
  shows "length ts \<le> 2 \<and> vs_state s' \<in> paid_states \<and> vs_state s' \<noteq> S_CANCELED
    \<and> vs_state s' \<noteq> S_EXPIRED \<and> vs_version s' = v + int (length ts)"
  using followTargets_remaining [OF assms] followTargets_paid [OF assms]
    followTargets_version [OF assms]
  by (auto simp: paid_states_def)

theorem paid_session_is_committed_witness:
  "length [S_PRINTING, S_COMPLETED] \<le> 2 \<and>
   followTargets \<lparr>vs_state = S_PAID, vs_version = 7\<rparr> [S_PRINTING, S_COMPLETED]
     = Inr \<lparr>vs_state = S_COMPLETED, vs_version = 9\<rparr>"
proof -
  have run: "followTargets \<lparr>vs_state = S_PAID, vs_version = 7\<rparr> [S_PRINTING, S_COMPLETED]
     = Inr \<lparr>vs_state = S_COMPLETED, vs_version = 9\<rparr>"
    by (simp add: canTransitionSession_def)
  show ?thesis using paid_session_is_committed [OF run] run by simp
qed

lemma followTargets_enters_paid:
  "followTargets s ts = Inr s' \<Longrightarrow> vs_state s \<notin> paid_states \<Longrightarrow> vs_state s' \<in> paid_states \<Longrightarrow>
    S_PAID \<in> set ts \<and> (vs_state s = S_AWAITING_PAYMENT \<or> S_AWAITING_PAYMENT \<in> set ts)"
proof (induction ts arbitrary: s)
  case Nil
  then show ?case by simp
next
  case (Cons t ts)
  define u where "u = \<lparr>vs_state = t, vs_version = vs_version s + 1\<rparr>"
  from Cons.prems have step: "canTransitionSession (vs_state s) t"
    and rest: "followTargets u ts = Inr s'" by (auto simp: u_def)
  show ?case
  proof (cases "t \<in> paid_states")
    case True
    with enter_paid [OF Cons.prems(2) step] show ?thesis by auto
  next
    case False
    with Cons.IH [OF rest] Cons.prems(3) show ?thesis by (auto simp: u_def)
  qed
qed

text \<open>
  Nothing is printed unpaid: a lifecycle that starts at CREATED and ends in PRINTING or
  in any state only a print can end in has passed AWAITING_PAYMENT and then PAID.
\<close>

theorem printing_requires_payment:
  assumes "followTargets \<lparr>vs_state = S_CREATED, vs_version = v\<rparr> ts = Inr s'"
    and "vs_state s' \<in> {S_PRINTING, S_COMPLETED, S_FAILED, S_RECOVERY_REQUIRED}"
  shows "S_AWAITING_PAYMENT \<in> set ts \<and> S_PAID \<in> set ts"
  using followTargets_enters_paid [OF assms(1)] assms(2) by (auto simp: paid_states_def)

theorem printing_requires_payment_witness:
  "S_AWAITING_PAYMENT \<in> set [S_WAITING_FOR_UPLOAD, S_FILES_UPLOADED, S_CONFIGURING,
     S_AWAITING_PAYMENT, S_PAID, S_PRINTING]"
proof -
  let ?ts = "[S_WAITING_FOR_UPLOAD, S_FILES_UPLOADED, S_CONFIGURING,
     S_AWAITING_PAYMENT, S_PAID, S_PRINTING]"
  have "followTargets \<lparr>vs_state = S_CREATED, vs_version = 0\<rparr> ?ts
      = Inr \<lparr>vs_state = S_PRINTING, vs_version = 6\<rparr>"
    by (simp add: canTransitionSession_def)
  from printing_requires_payment [OF this] show ?thesis by simp
qed

end
