(* ===== verification/Print_Outcome.thy ===== *)
theory Print_Outcome
  imports Session_State
begin

text \<open>
  \<^verbatim>\<open>packages/domain/src/print-job.ts\<close>: the pure reducer from what a device reported to what
  it means for the job, the session and the money; and the result types of
  \<^verbatim>\<open>packages/printer-adapters/src/types.ts\<close> and \<^verbatim>\<open>submission.ts\<close> (\<open>operationStatus\<close>,
  \<open>withHonestConfidence\<close>, \<open>unknownStatus\<close>) that feed it. The lemmas give the exact
  conditions for a success and for money owed back, and show that the adapters'
  downgrading never changes what the reducer decides.
\<close>

section \<open>Device results\<close>

datatype device_state =
  D_NOT_SUBMITTED | D_SUBMITTED | D_PRINTING | D_COMPLETED | D_FAILED | D_CANCELED | D_UNKNOWN

datatype confidence = CONFIRMED | UNCONFIRMED

record print_device_result =
  dr_state :: device_state
  dr_confidence :: confidence
  dr_failureCode :: "string option"
  dr_warningCode :: "string option"
  dr_sheetsProduced :: "int option"

datatype settled_status = ST_COMPLETED | ST_FAILED | ST_CANCELED | ST_RECOVERY_REQUIRED

text \<open>The three session states a print can end in are states of the session machine.\<close>

record print_job_settlement =
  st_status :: settled_status
  st_resultConfidence :: confidence
  st_failureCode :: "string option"
  st_warningCode :: "string option"
  st_sheetsProduced :: "int option"
  st_sessionState :: session_state
  st_refundObligation :: bool

definition or_else :: "'a option \<Rightarrow> 'a \<Rightarrow> 'a" where
  "or_else x d = (case x of None \<Rightarrow> d | Some v \<Rightarrow> v)"

definition definiteFailure ::
  "settled_status \<Rightarrow> print_device_result \<Rightarrow> string \<Rightarrow> string option \<Rightarrow> int \<Rightarrow> print_job_settlement"
where
  "definiteFailure status result fallbackCode warningCode sheetsProduced =
     \<lparr>st_status = status, st_resultConfidence = CONFIRMED,
      st_failureCode = Some (or_else (dr_failureCode result) fallbackCode),
      st_warningCode = warningCode, st_sheetsProduced = Some sheetsProduced,
      st_sessionState = S_FAILED, st_refundObligation = True\<rparr>"

definition recovery ::
  "print_device_result \<Rightarrow> string \<Rightarrow> string option \<Rightarrow> print_job_settlement" where
  "recovery result fallbackCode warningCode =
     \<lparr>st_status = ST_RECOVERY_REQUIRED, st_resultConfidence = UNCONFIRMED,
      st_failureCode = Some (or_else (dr_failureCode result) fallbackCode),
      st_warningCode = warningCode, st_sheetsProduced = dr_sheetsProduced result,
      st_sessionState = S_RECOVERY_REQUIRED, st_refundObligation = False\<rparr>"

definition settlePrintDeviceResult :: "print_device_result \<Rightarrow> print_job_settlement" where
  "settlePrintDeviceResult result =
     (let warningCode = dr_warningCode result;
          produced = dr_sheetsProduced result;
          confirmed = (dr_confidence result = CONFIRMED) in
      case dr_state result of
        D_COMPLETED \<Rightarrow>
          (if confirmed \<and> produced \<noteq> None \<and> 0 < the produced
           then \<lparr>st_status = ST_COMPLETED, st_resultConfidence = CONFIRMED,
                 st_failureCode = None, st_warningCode = warningCode,
                 st_sheetsProduced = produced, st_sessionState = S_COMPLETED,
                 st_refundObligation = False\<rparr>
           else recovery result ''SUBMISSION_UNCONFIRMED'' warningCode)
      | D_NOT_SUBMITTED \<Rightarrow>
          (if confirmed \<and> produced = Some 0
           then definiteFailure ST_FAILED result ''PRINTER_UNAVAILABLE'' warningCode 0
           else recovery result ''SUBMISSION_UNCONFIRMED'' warningCode)
      | D_FAILED \<Rightarrow>
          (if confirmed \<and> produced = Some 0
           then definiteFailure ST_FAILED result ''DEVICE_ERROR'' warningCode 0
           else recovery result ''DEVICE_ERROR'' warningCode)
      | D_CANCELED \<Rightarrow>
          (if confirmed \<and> produced = Some 0
           then definiteFailure ST_CANCELED result ''CANCELED_BEFORE_SUBMIT'' warningCode 0
           else recovery result ''CANCELED_AT_DEVICE'' warningCode)
      | _ \<Rightarrow>
          recovery result
            (if dr_state result = D_UNKNOWN then ''DEVICE_TIMEOUT'' else ''SUBMISSION_UNCONFIRMED'')
            warningCode)"

subsection \<open>The adapters' status values\<close>

datatype marker_unit = IMPRESSIONS | SHEETS | UNIT_UNKNOWN

datatype marker_outcome = MO_SHORTFALL | MO_SUFFICIENT | MO_UNKNOWN

record marker_diagnostics =
  md_outcome :: marker_outcome
  md_unit :: "marker_unit option"
  md_expected :: "int option"
  md_observed :: "int option"
  md_reason :: "string option"

record device_job_evidence =
  je_position :: int
  je_jobId :: int
  je_present :: bool
  je_observed :: bool
  je_completed :: bool
  je_faulted :: bool
  je_status :: "string option"
  je_pagesPrinted :: int
  je_expectedPages :: int
  je_expectedSheets :: int

text \<open>An absent optional field and a null one are the same \<open>None\<close>.\<close>

record device_diagnostics =
  dg_queueName :: "string option"
  dg_stage :: "string option"
  dg_processStartMs :: "int option"
  dg_pollCount :: "int option"
  dg_phaseMs :: "(string \<times> int) list option"
  dg_jobs :: "device_job_evidence list option"
  dg_marker :: "marker_diagnostics option"

definition empty_diagnostics :: device_diagnostics where
  "empty_diagnostics =
     \<lparr>dg_queueName = None, dg_stage = None, dg_processStartMs = None, dg_pollCount = None,
      dg_phaseMs = None, dg_jobs = None, dg_marker = None\<rparr>"

record print_operation_status =
  os_operationId :: string
  os_state :: device_state
  os_confidence :: confidence
  os_failureCode :: "string option"
  os_warningCode :: "string option"
  os_sheetsProduced :: "int option"
  os_deviceDiagnostics :: "device_diagnostics option"

text \<open>\<open>operationStatus\<close>: a missing warning code is null, missing diagnostics stay missing.\<close>

definition operationStatus ::
  "string \<Rightarrow> device_state \<Rightarrow> confidence \<Rightarrow> string option \<Rightarrow> string option \<Rightarrow> int option \<Rightarrow>
   device_diagnostics option \<Rightarrow> print_operation_status" where
  "operationStatus operationId state conf failureCode warningCode sheets diagnostics =
     \<lparr>os_operationId = operationId, os_state = state, os_confidence = conf,
      os_failureCode = failureCode, os_warningCode = warningCode,
      os_sheetsProduced = sheets, os_deviceDiagnostics = diagnostics\<rparr>"

definition withHonestConfidence :: "print_operation_status \<Rightarrow> print_operation_status" where
  "withHonestConfidence status =
     (if os_confidence status \<noteq> CONFIRMED then status
      else
        let confirmable =
          (if os_state status = D_COMPLETED
           then os_sheetsProduced status \<noteq> None \<and> 0 < the (os_sheetsProduced status)
           else os_sheetsProduced status = Some 0 \<and>
                (os_state status = D_FAILED \<or> os_state status = D_CANCELED \<or>
                 os_state status = D_NOT_SUBMITTED))
        in if confirmable then status else status\<lparr>os_confidence := UNCONFIRMED\<rparr>)"

definition unknownStatus :: "string \<Rightarrow> print_operation_status" where
  "unknownStatus operationId =
     operationStatus operationId D_UNKNOWN UNCONFIRMED (Some ''SUBMISSION_UNCONFIRMED'') None None None"

text \<open>What the agent posts and the control plane settles: the status without diagnostics.\<close>

definition device_result_of :: "print_operation_status \<Rightarrow> print_device_result" where
  "device_result_of s =
     \<lparr>dr_state = os_state s, dr_confidence = os_confidence s, dr_failureCode = os_failureCode s,
      dr_warningCode = os_warningCode s, dr_sheetsProduced = os_sheetsProduced s\<rparr>"

subsection \<open>What a settlement says\<close>

lemmas settle_defs = settlePrintDeviceResult_def definiteFailure_def recovery_def Let_def

definition proved_nothing_printed :: "print_device_result \<Rightarrow> bool" where
  "proved_nothing_printed r \<longleftrightarrow>
     dr_confidence r = CONFIRMED \<and> dr_sheetsProduced r = Some 0 \<and>
     dr_state r \<in> {D_NOT_SUBMITTED, D_FAILED, D_CANCELED}"

definition proved_output :: "print_device_result \<Rightarrow> bool" where
  "proved_output r \<longleftrightarrow>
     dr_confidence r = CONFIRMED \<and> dr_state r = D_COMPLETED \<and>
     (\<exists>n. dr_sheetsProduced r = Some n \<and> 0 < n)"

lemma settle_refund [simp]: "st_refundObligation (settlePrintDeviceResult r) \<longleftrightarrow> proved_nothing_printed r"
  by (cases "dr_state r") (auto simp: settle_defs proved_nothing_printed_def)

lemma settle_completed [simp]: "st_status (settlePrintDeviceResult r) = ST_COMPLETED \<longleftrightarrow> proved_output r"
  by (cases "dr_state r") (auto simp: settle_defs proved_output_def)

lemma settle_recovery:
  "st_status (settlePrintDeviceResult r) = ST_RECOVERY_REQUIRED \<longleftrightarrow>
    \<not> proved_output r \<and> \<not> proved_nothing_printed r"
  by (cases "dr_state r") (auto simp: settle_defs proved_output_def proved_nothing_printed_def)

lemma settle_unconfirmed [simp]:
  "dr_confidence r = UNCONFIRMED \<Longrightarrow> st_status (settlePrintDeviceResult r) = ST_RECOVERY_REQUIRED"
  by (simp add: settle_recovery proved_output_def proved_nothing_printed_def)

fun session_state_of_status :: "settled_status \<Rightarrow> session_state" where
  "session_state_of_status ST_COMPLETED = S_COMPLETED"
| "session_state_of_status ST_FAILED = S_FAILED"
| "session_state_of_status ST_CANCELED = S_FAILED"
| "session_state_of_status ST_RECOVERY_REQUIRED = S_RECOVERY_REQUIRED"

lemma settle_session_state [simp]:
  "st_sessionState (settlePrintDeviceResult r) = session_state_of_status (st_status (settlePrintDeviceResult r))"
  by (cases "dr_state r") (auto simp: settle_defs)

lemma settle_legal: "canTransitionSession S_PRINTING (session_state_of_status st)"
  by (cases st) (simp_all add: canTransitionSession_def)

text \<open>
  C26. The settlement of a device result is decided by what the device proved and by
  nothing else: a success exactly when it confirmed a positive sheet count, money owed back
  exactly when it confirmed that no sheet was produced, a person's review in every other
  case; the session state always is one PRINTING may move to.
\<close>

theorem settlement_is_what_was_proved:
  "(st_status (settlePrintDeviceResult r) = ST_COMPLETED \<longleftrightarrow> proved_output r) \<and>
   (st_refundObligation (settlePrintDeviceResult r) \<longleftrightarrow> proved_nothing_printed r) \<and>
   (st_status (settlePrintDeviceResult r) = ST_RECOVERY_REQUIRED \<longleftrightarrow>
      \<not> proved_output r \<and> \<not> proved_nothing_printed r) \<and>
   canTransitionSession S_PRINTING (st_sessionState (settlePrintDeviceResult r))"
  by (simp add: settle_recovery settle_legal)

text \<open>
  Downgrading an adapter's unsupported claim is invisible to the settlement: for every
  status, the reducer decides the same before and after \<open>withHonestConfidence\<close>, and the
  downgraded status is confirmed only where it proves its claim.
\<close>

theorem honest_confidence_settles_alike:
  "settlePrintDeviceResult (device_result_of (withHonestConfidence s)) =
     settlePrintDeviceResult (device_result_of s) \<and>
   (os_confidence (withHonestConfidence s) = CONFIRMED \<longleftrightarrow>
      proved_output (device_result_of s) \<or> proved_nothing_printed (device_result_of s))"
  by (cases "os_state s"; cases "os_confidence s"; cases "os_sheetsProduced s")
    (auto simp: withHonestConfidence_def device_result_of_def settle_defs
      proved_output_def proved_nothing_printed_def)

end
