(* ===== verification/Retention.thy ===== *)
theory Retention
  imports Session_State
begin

text \<open>
  \<^verbatim>\<open>packages/domain/src/retention.ts\<close>: when a finished session's documents may be removed
  (the grace of each terminal state), the ordered checkpoints of a cleanup run, the retry
  backoff, and the object-storage prefixes a bulk delete is given. The lemmas show that
  checkpoints form a chain that writes can only climb, that the backoff stays between half
  and all of a capped exponential, and that the prefixes of two sessions share no object.
\<close>

section \<open>Retention policy\<close>

datatype retention_error =
    RETENTION_CLOCK_INVALID | RETENTION_ATTEMPTS_INVALID | RETENTION_JITTER_INVALID
  | RETENTION_MAX_ATTEMPTS_INVALID | RETENTION_SESSION_ID_INVALID | RETENTION_POLICY_INVALID

datatype terminal_state = T_COMPLETED | T_CANCELED | T_EXPIRED | T_FAILED | T_RECOVERY_REQUIRED

definition TERMINAL_SESSION_STATES :: "string list" where
  "TERMINAL_SESSION_STATES =
     [''COMPLETED'', ''CANCELED'', ''EXPIRED'', ''FAILED'', ''RECOVERY_REQUIRED'']"

definition isTerminalSessionState :: "string \<Rightarrow> bool" where
  "isTerminalSessionState state = (state \<in> set TERMINAL_SESSION_STATES)"

lemma isTerminalSessionState_name [simp]:
  "isTerminalSessionState (session_state_name s) \<longleftrightarrow> s \<in> terminal_states"
  by (cases s) (simp_all add: isTerminalSessionState_def TERMINAL_SESSION_STATES_def terminal_states_def)

subsection \<open>Checkpoints of a cleanup run\<close>

datatype checkpoint =
    CP_SCHEDULED | CP_ACCESS_REVOKED | CP_ARTIFACTS_DELETED | CP_STORAGE_RECONCILED
  | CP_METADATA_SCRUBBED | CP_COMPLETED

definition CLEANUP_CHECKPOINTS :: "checkpoint list" where
  "CLEANUP_CHECKPOINTS =
     [CP_SCHEDULED, CP_ACCESS_REVOKED, CP_ARTIFACTS_DELETED, CP_STORAGE_RECONCILED,
      CP_METADATA_SCRUBBED, CP_COMPLETED]"

fun indexOf :: "'a list \<Rightarrow> 'a \<Rightarrow> int" where
  "indexOf [] y = - 1"
| "indexOf (x # xs) y =
     (if x = y then 0 else (let i = indexOf xs y in if i < 0 then - 1 else i + 1))"

definition checkpointRank :: "checkpoint \<Rightarrow> int" where
  "checkpointRank c = indexOf CLEANUP_CHECKPOINTS c"

definition isCheckpointAtLeast :: "checkpoint \<Rightarrow> checkpoint \<Rightarrow> bool" where
  "isCheckpointAtLeast c required = (checkpointRank required \<le> checkpointRank c)"

definition nextCheckpoint :: "checkpoint \<Rightarrow> checkpoint option" where
  "nextCheckpoint c =
     (let i = checkpointRank c + 1 in
      if 0 \<le> i \<and> i < int (length CLEANUP_CHECKPOINTS)
      then Some (CLEANUP_CHECKPOINTS ! nat i) else None)"

definition advanceCheckpoint :: "checkpoint \<Rightarrow> checkpoint \<Rightarrow> checkpoint" where
  "advanceCheckpoint current candidate =
     (if checkpointRank current < checkpointRank candidate then candidate else current)"

lemma checkpointRank_simps [simp]:
  "checkpointRank CP_SCHEDULED = 0" "checkpointRank CP_ACCESS_REVOKED = 1"
  "checkpointRank CP_ARTIFACTS_DELETED = 2" "checkpointRank CP_STORAGE_RECONCILED = 3"
  "checkpointRank CP_METADATA_SCRUBBED = 4" "checkpointRank CP_COMPLETED = 5"
  by (simp_all add: checkpointRank_def CLEANUP_CHECKPOINTS_def)

lemma checkpointRank_inj: "checkpointRank c = checkpointRank d \<longleftrightarrow> c = d"
  by (cases c; cases d) simp_all

text \<open>The order of the workflow, as the library's order on the type.\<close>

instantiation checkpoint :: linorder
begin

definition less_eq_checkpoint :: "checkpoint \<Rightarrow> checkpoint \<Rightarrow> bool" where
  "less_eq_checkpoint c d \<longleftrightarrow> checkpointRank c \<le> checkpointRank d"

definition less_checkpoint :: "checkpoint \<Rightarrow> checkpoint \<Rightarrow> bool" where
  "less_checkpoint c d \<longleftrightarrow> checkpointRank c < checkpointRank d"

instance
  by standard (auto simp: less_eq_checkpoint_def less_checkpoint_def checkpointRank_inj)

end

lemma advanceCheckpoint_max: "advanceCheckpoint = max"
  by (auto simp: fun_eq_iff advanceCheckpoint_def max_def less_eq_checkpoint_def checkpointRank_inj)

lemma isCheckpointAtLeast_le [simp]: "isCheckpointAtLeast c d \<longleftrightarrow> d \<le> c"
  by (simp add: isCheckpointAtLeast_def less_eq_checkpoint_def)

lemma nextCheckpoint_Some: "nextCheckpoint c = Some d \<longleftrightarrow> checkpointRank d = checkpointRank c + 1"
  by (cases c; cases d) (simp_all add: nextCheckpoint_def CLEANUP_CHECKPOINTS_def)

lemma nextCheckpoint_None: "nextCheckpoint c = None \<longleftrightarrow> c = CP_COMPLETED"
  by (cases c) (simp_all add: nextCheckpoint_def CLEANUP_CHECKPOINTS_def)

interpretation cleanup_run: monotone_stepping
  "\<lambda>candidate current. advanceCheckpoint current candidate" "\<lambda>_. True" "(\<le>)"
  by unfold_locales (auto simp: advanceCheckpoint_max)

lemma fold_advance: "fold (\<lambda>d c. advanceCheckpoint c d) ds c = Max (insert c (set ds))"
proof (induction ds arbitrary: c)
  case (Cons d ds)
  then show ?case
    by (cases "ds = []") (simp_all add: advanceCheckpoint_max max.assoc max.commute max.left_commute)
qed simp

text \<open>
  Workers that write checkpoints in any order and any number of times, stale ones
  included, leave the run at the furthest checkpoint any of them reached: the result
  depends only on the set of writes, and it never falls behind between two writes.
\<close>

theorem checkpoints_only_advance:
  assumes "set writes = set writes'"
  shows "fold (\<lambda>d c. advanceCheckpoint c d) writes start =
           fold (\<lambda>d c. advanceCheckpoint c d) writes' start \<and>
         isCheckpointAtLeast (fold (\<lambda>d c. advanceCheckpoint c d) writes start) start \<and>
         isCheckpointAtLeast (fold (\<lambda>d c. advanceCheckpoint c d) (writes @ later) start)
           (fold (\<lambda>d c. advanceCheckpoint c d) writes start)"
  using cleanup_run.run_le [where s = start and es = writes] cleanup_run.run_le_later [where s = start and es = writes and fs = later] assms
  by (simp add: fold_advance)

theorem checkpoints_only_advance_witness:
  "fold (\<lambda>d c. advanceCheckpoint c d) [CP_STORAGE_RECONCILED, CP_ACCESS_REVOKED] CP_SCHEDULED =
     CP_STORAGE_RECONCILED \<and>
   fold (\<lambda>d c. advanceCheckpoint c d) [CP_ACCESS_REVOKED, CP_STORAGE_RECONCILED, CP_ACCESS_REVOKED]
     CP_SCHEDULED = CP_STORAGE_RECONCILED"
proof -
  have "set [CP_STORAGE_RECONCILED, CP_ACCESS_REVOKED] =
      set [CP_ACCESS_REVOKED, CP_STORAGE_RECONCILED, CP_ACCESS_REVOKED]" by auto
  from checkpoints_only_advance [OF this, of CP_SCHEDULED "[]"] show ?thesis
    by (simp add: advanceCheckpoint_def)
qed

subsection \<open>Grace periods and due times\<close>

record retention_policy =
  rp_settledGraceMilliseconds :: int
  rp_recoveryGraceMilliseconds :: int

definition DEFAULT_RETENTION_POLICY :: retention_policy where
  "DEFAULT_RETENTION_POLICY =
     \<lparr>rp_settledGraceMilliseconds = 300000, rp_recoveryGraceMilliseconds = 900000\<rparr>"

definition assertPolicy :: "retention_policy \<Rightarrow> retention_error + unit" where
  "assertPolicy policy =
     require (is_safe_integer (rp_settledGraceMilliseconds policy)
        \<and> 0 \<le> rp_settledGraceMilliseconds policy
        \<and> is_safe_integer (rp_recoveryGraceMilliseconds policy)
        \<and> 0 \<le> rp_recoveryGraceMilliseconds policy) RETENTION_POLICY_INVALID"

definition retentionGraceMilliseconds ::
  "terminal_state \<Rightarrow> retention_policy \<Rightarrow> retention_error + int" where
  "retentionGraceMilliseconds state policy =
     bind_result (assertPolicy policy) (\<lambda>_.
       Inr (case state of
          T_CANCELED \<Rightarrow> 0
        | T_EXPIRED \<Rightarrow> 0
        | T_COMPLETED \<Rightarrow> rp_settledGraceMilliseconds policy
        | T_FAILED \<Rightarrow> rp_settledGraceMilliseconds policy
        | T_RECOVERY_REQUIRED \<Rightarrow> rp_recoveryGraceMilliseconds policy))"

definition cleanupDueAt ::
  "terminal_state \<Rightarrow> js_date \<Rightarrow> retention_policy \<Rightarrow> retention_error + js_date" where
  "cleanupDueAt state now policy =
     (case now of
        None \<Rightarrow> Inl RETENTION_CLOCK_INVALID
      | Some milliseconds \<Rightarrow>
          bind_result (retentionGraceMilliseconds state policy) (\<lambda>grace.
            Inr (make_date (milliseconds + grace))))"

subsection \<open>Retry backoff\<close>

definition CLEANUP_RETRY_BASE_MILLISECONDS :: int where
  "CLEANUP_RETRY_BASE_MILLISECONDS = 5000"

definition CLEANUP_RETRY_MAX_MILLISECONDS :: int where
  "CLEANUP_RETRY_MAX_MILLISECONDS = 900000"

definition cleanupRetryDelayMilliseconds :: "int \<Rightarrow> js_number \<Rightarrow> retention_error + int" where
  "cleanupRetryDelayMilliseconds attempts jitter =
     (if \<not> is_safe_integer attempts \<or> attempts < 1 then Inl RETENTION_ATTEMPTS_INVALID
      else case jitter of
        Not_Finite \<Rightarrow> Inl RETENTION_JITTER_INVALID
      | Finite j \<Rightarrow>
          if j < 0 \<or> 1 < j then Inl RETENTION_JITTER_INVALID
          else
            let exponential = CLEANUP_RETRY_BASE_MILLISECONDS * 2 ^ nat (min (attempts - 1) 30);
                capped = min exponential CLEANUP_RETRY_MAX_MILLISECONDS
            in Inr (js_round (of_int capped * (1/2 + j * (1/2)))))"

definition nextCleanupAttemptAt :: "js_date \<Rightarrow> int \<Rightarrow> js_number \<Rightarrow> retention_error + js_date" where
  "nextCleanupAttemptAt now attempts jitter =
     (case now of
        None \<Rightarrow> Inl RETENTION_CLOCK_INVALID
      | Some milliseconds \<Rightarrow>
          bind_result (cleanupRetryDelayMilliseconds attempts jitter) (\<lambda>delay.
            Inr (make_date (milliseconds + delay))))"

definition isCleanupDeadLettered :: "int \<Rightarrow> int \<Rightarrow> retention_error + bool" where
  "isCleanupDeadLettered attempts maximumAttempts =
     (if \<not> is_safe_integer maximumAttempts \<or> maximumAttempts < 1
      then Inl RETENTION_MAX_ATTEMPTS_INVALID
      else Inr (maximumAttempts \<le> attempts))"

lemma js_round_between: "of_int a \<le> 2 * x \<Longrightarrow> x \<le> of_int a \<Longrightarrow> a \<le> 2 * js_round x \<and> js_round x \<le> a"
proof -
  assume lo: "of_int a \<le> 2 * x" and hi: "x \<le> of_int a"
  have "x + 1/2 < of_int (a + 1)" using hi by simp
  then have "js_round x \<le> a" unfolding js_round_def by (simp add: floor_le_iff)
  moreover have "x + 1/2 < of_int (js_round x) + 1" unfolding js_round_def by linarith
  then have "of_int a < (of_int (2 * js_round x + 1) :: rat)" using lo by simp
  then have "a < 2 * js_round x + 1" by (simp only: of_int_less_iff)
  ultimately show ?thesis by simp
qed

text \<open>
  The delay before a cleanup retry: for every attempt count and every jitter in
  [0, 1] it lies between half the backoff window and the window itself, and the window is
  5 s doubled per attempt up to 15 minutes, so no retry waits longer than that.
\<close>

theorem cleanup_retry_window:
  assumes "is_safe_integer attempts" and "1 \<le> attempts" and "0 \<le> j" and "j \<le> 1"
  shows "\<exists>delay. cleanupRetryDelayMilliseconds attempts (Finite j) = Inr delay
    \<and> min (5000 * 2 ^ nat (min (attempts - 1) 30)) 900000 \<le> 2 * delay
    \<and> delay \<le> min (5000 * 2 ^ nat (min (attempts - 1) 30)) 900000
    \<and> 2500 \<le> delay"
proof -
  define w where "w = min (5000 * 2 ^ nat (min (attempts - 1) 30)) (900000::int)"
  define x where "x = rat_of_int w * (1/2 + j * (1/2))"
  have one: "1 \<le> (2::int) ^ nat (min (attempts - 1) 30)" by simp
  then have w: "5000 \<le> w" unfolding w_def by linarith
  then have wr: "0 \<le> rat_of_int w" by simp
  have "rat_of_int w * (1/2) \<le> x" and "x \<le> rat_of_int w * 1"
    unfolding x_def using assms wr by (intro mult_left_mono; simp)+
  then have "w \<le> 2 * js_round x \<and> js_round x \<le> w"
    by (intro js_round_between) simp_all
  moreover have "cleanupRetryDelayMilliseconds attempts (Finite j) = Inr (js_round x)"
    using assms by (simp add: cleanupRetryDelayMilliseconds_def x_def w_def Let_def
        CLEANUP_RETRY_BASE_MILLISECONDS_def CLEANUP_RETRY_MAX_MILLISECONDS_def)
  ultimately show ?thesis using w unfolding w_def [symmetric] by auto
qed

theorem cleanup_retry_window_witness:
  "cleanupRetryDelayMilliseconds 3 (Finite (1/2)) = Inr 15000 \<and> (20000::int) \<le> 2 * 15000"
proof -
  have "is_safe_integer 3" by (simp add: is_safe_integer_def max_safe_integer_def)
  from cleanup_retry_window [OF this, of "1/2"]
  show ?thesis
    by (auto simp: cleanupRetryDelayMilliseconds_def Let_def is_safe_integer_def js_round_def floor_eq_iff floor_eq_iff
        max_safe_integer_def CLEANUP_RETRY_BASE_MILLISECONDS_def CLEANUP_RETRY_MAX_MILLISECONDS_def)
qed

subsection \<open>Object-storage prefixes\<close>

definition SESSION_OBJECT_ROOTS :: "string list" where
  "SESSION_OBJECT_ROOTS = [''quarantine/v1/'', ''normalized/v1/'', ''previews/v1/'']"

definition sessionObjectPrefixes :: "string \<Rightarrow> retention_error + string list" where
  "sessionObjectPrefixes sessionId =
     (if \<not> is_uuid_lower (js_lower sessionId) then Inl RETENTION_SESSION_ID_INVALID
      else Inr (map (\<lambda>prefix_root. prefix_root @ js_lower sessionId @ ''/'') SESSION_OBJECT_ROOTS))"

text \<open>\<open>key.slice (prefix_root.length).split ("/", 1)[0]\<close> is the part before the first slash.\<close>

definition sessionIdFromObjectKey :: "string \<Rightarrow> string option" where
  "sessionIdFromObjectKey key =
     (case List.find (\<lambda>candidate. starts_with candidate key) SESSION_OBJECT_ROOTS of
        None \<Rightarrow> None
      | Some prefix_root \<Rightarrow>
          let sessionId = hd (split_on (CHR ''/'') (drop (length prefix_root) key)) in
          if is_uuid_lower sessionId then Some sessionId else None)"

lemma uuid_no_slash: "is_uuid_lower s \<Longrightarrow> CHR ''/'' \<notin> set s"
  by (auto dest!: uuid_lower_chars simp: is_hex_lower_def is_digit_def code_def)

lemma find_root: "prefix_root \<in> set SESSION_OBJECT_ROOTS \<Longrightarrow>
    List.find (\<lambda>candidate. starts_with candidate (prefix_root @ rest)) SESSION_OBJECT_ROOTS = Some prefix_root"
  by (simp add: SESSION_OBJECT_ROOTS_def) (elim disjE; simp)

lemma sessionIdFromObjectKey_prefix:
  assumes "sessionObjectPrefixes sessionId = Inr ps" and "p \<in> set ps" and "starts_with p key"
  shows "sessionIdFromObjectKey key = Some (js_lower sessionId)"
proof -
  obtain prefix_root rest where prefix_root: "prefix_root \<in> set SESSION_OBJECT_ROOTS"
    and key: "key = prefix_root @ js_lower sessionId @ CHR ''/'' # rest"
    and id: "is_uuid_lower (js_lower sessionId)"
    using assms by (auto simp: sessionObjectPrefixes_def starts_with_iff split: if_splits)
  show ?thesis
    using find_root [OF prefix_root] uuid_no_slash [OF id] id
    by (simp add: sessionIdFromObjectKey_def key split_on_append)
qed

text \<open>
  C27. A cleanup sweep never reaches another customer: an object under a prefix computed for
  one session is attributed to exactly that session, so an object under the prefixes of two
  session identifiers has the same (case-folded) identifier in both.
\<close>

theorem session_prefixes_are_private:
  assumes "sessionObjectPrefixes s = Inr ps" and "p \<in> set ps" and "starts_with p key"
    and "sessionObjectPrefixes s' = Inr qs" and "q \<in> set qs" and "starts_with q key"
  shows "js_lower s = js_lower s' \<and> sessionIdFromObjectKey key = Some (js_lower s)"
  using sessionIdFromObjectKey_prefix [OF assms(1-3)] sessionIdFromObjectKey_prefix [OF assms(4-6)]
  by simp

definition sample_session_id :: string where
  "sample_session_id = ''00000000-0000-4000-8000-00000000000a''"

lemma sample_prefixes:
  "sessionObjectPrefixes sample_session_id =
     Inr [''quarantine/v1/00000000-0000-4000-8000-00000000000a/'',
          ''normalized/v1/00000000-0000-4000-8000-00000000000a/'',
          ''previews/v1/00000000-0000-4000-8000-00000000000a/'']"
  by code_simp

theorem session_prefixes_are_private_witness:
  "sessionIdFromObjectKey ''previews/v1/00000000-0000-4000-8000-00000000000a/1.webp'' =
     Some (js_lower sample_session_id)"
proof -
  let ?key = "''previews/v1/00000000-0000-4000-8000-00000000000a/1.webp''"
  let ?p = "''previews/v1/00000000-0000-4000-8000-00000000000a/''"
  have "starts_with ?p ?key" by simp
  with session_prefixes_are_private [OF sample_prefixes, of ?p ?key, OF _ _ sample_prefixes, of ?p]
  show ?thesis by simp
qed

end
