(* ===== verification/Print_Settings.thy ===== *)
theory Print_Settings
  imports Prelude
begin

text \<open>
  \<^verbatim>\<open>packages/domain/src/print-settings.ts\<close>: the page-range parser, the merge into canonical
  ranges, sheet arithmetic and the normalisation of a customer's settings against the
  validated files, the device's capabilities and the deployment's limits, on every error
  path. The lemmas: a merged selection is the sorted, separated list of the chosen pages and
  depends on nothing but the set of pages; canonical text parses back to itself; what a
  successful normalisation guarantees to pricing and printing.
\<close>

section \<open>Settings and their errors\<close>

datatype paper_size = A4
datatype duplex_mode = SIMPLEX | LONG_EDGE | SHORT_EDGE
datatype orientation = O_AUTO | O_PORTRAIT | O_LANDSCAPE
datatype scaling_mode = FIT | ACTUAL_SIZE
datatype color_mode = MONOCHROME

definition PRINT_COLOR_MODE :: color_mode where
  "PRINT_COLOR_MODE = MONOCHROME"

definition MAX_PAGE_RANGE_TEXT_LENGTH :: nat where
  "MAX_PAGE_RANGE_TEXT_LENGTH = 200"

definition MAX_PAGE_RANGE_SEGMENTS :: nat where
  "MAX_PAGE_RANGE_SEGMENTS = 50"

type_synonym page_range = "int \<times> int"

record file_selection_input =
  fi_fileId :: string
  fi_pageRanges :: "string option"
  fi_copies :: int
  fi_duplex :: duplex_mode
  fi_orientation :: orientation

record print_settings_input =
  pi_fileOrder :: "string list"
  pi_fileSelections :: "file_selection_input list"
  pi_paperSize :: paper_size
  pi_scaling :: scaling_mode
  pi_collate :: bool

record selectable_file =
  sf_id :: string
  sf_pageCount :: int
  sf_processingRevision :: int
  sf_contentSha256 :: string

record printer_capabilities =
  pc_version :: int
  pc_paperSizes :: "paper_size list"
  pc_colorModes :: "color_mode list"
  pc_duplexModes :: "duplex_mode list"
  pc_scalingModes :: "scaling_mode list"
  pc_orientations :: "orientation list"
  pc_maxCopies :: int

record print_settings_limits =
  pl_maxCopies :: int
  pl_maxSelectedPages :: int
  pl_maxPrintedSides :: int

record normalize_context =
  nc_files :: "selectable_file list"
  nc_capabilities :: printer_capabilities
  nc_limits :: print_settings_limits

record normalized_file_selection =
  nf_fileId :: string
  nf_position :: int
  nf_pageCount :: int
  nf_processingRevision :: int
  nf_contentSha256 :: string
  nf_pageRanges :: "page_range list"
  nf_pageRangeText :: string
  nf_selectedPages :: int
  nf_copies :: int
  nf_duplex :: duplex_mode
  nf_orientation :: orientation
  nf_printedSidesPerCopy :: int
  nf_physicalSheetsPerCopy :: int
  nf_printedSides :: int
  nf_physicalSheets :: int

record normalized_print_settings =
  np_paperSize :: paper_size
  np_scaling :: scaling_mode
  np_collate :: bool
  np_colorMode :: color_mode
  np_capabilityVersion :: int
  np_files :: "normalized_file_selection list"
  np_selectedPages :: int
  np_printedSides :: int
  np_physicalSheets :: int

datatype print_settings_code =
    FILE_ORDER_INVALID | FILE_SELECTION_INVALID | PAGE_RANGE_INVALID | PAGE_RANGE_OUT_OF_BOUNDS
  | NO_SELECTED_PAGES | COPIES_OUT_OF_RANGE | SELECTED_PAGE_LIMIT_EXCEEDED
  | PRINTED_SIDE_LIMIT_EXCEEDED | UNSUPPORTED_PRINT_SETTING

datatype print_settings_error = PrintSettingsError print_settings_code details

subsection \<open>Page ranges\<close>

definition mergeable :: "page_range \<Rightarrow> int \<Rightarrow> bool" where
  "mergeable lst start = (start \<le> snd lst + 1)"

text \<open>The loop of \<open>mergePageRanges\<close>; \<open>merged\<close> is kept with its last element first.\<close>

fun mergeLoop :: "page_range list \<Rightarrow> page_range list \<Rightarrow> page_range list" where
  "mergeLoop merged [] = rev merged"
| "mergeLoop [] (r # rs) = mergeLoop [r] rs"
| "mergeLoop (lst # merged) ((start, end_page) # rs) =
     (if mergeable lst start
      then mergeLoop ((fst lst, max (snd lst) end_page) # merged) rs
      else mergeLoop ((start, end_page) # lst # merged) rs)"

text \<open>\<open>sort\<close> with the comparator on start, then end, is the lexicographic order on pairs.\<close>

definition mergePageRanges :: "page_range list \<Rightarrow> page_range list" where
  "mergePageRanges ranges = mergeLoop [] (sort ranges)"

definition formatRange :: "page_range \<Rightarrow> string" where
  "formatRange r =
     (if fst r = snd r then show_int (fst r) else show_int (fst r) @ ''-'' @ show_int (snd r))"

definition formatPageRanges :: "page_range list \<Rightarrow> string" where
  "formatPageRanges ranges = join_with (CHR '','') (map formatRange ranges)"

definition countSelectedPages :: "page_range list \<Rightarrow> int" where
  "countSelectedPages ranges =
     foldl (\<lambda>total r. total + (snd r - fst r + 1)) 0 ranges"

text \<open>
  The segment pattern \<open>^\s*(\d{1,6})\s*(?:-\s*(\d{1,6})\s*)?$\<close>: since blanks, digits and the
  hyphen are disjoint, a match takes the longest run of each.
\<close>

definition takeNumber :: "string \<Rightarrow> (string \<times> string) option" where
  "takeNumber s =
     (let ds = takeWhile is_digit s in
      if 1 \<le> length ds \<and> length ds \<le> 6
      then Some (ds, dropWhile is_space (dropWhile is_digit s)) else None)"

definition matchSegment :: "string \<Rightarrow> (string \<times> string option) option" where
  "matchSegment segment =
     (case takeNumber (dropWhile is_space segment) of
        None \<Rightarrow> None
      | Some (m1, []) \<Rightarrow> Some (m1, None)
      | Some (m1, c # rest) \<Rightarrow>
          (if c \<noteq> CHR ''-'' then None
           else case takeNumber (dropWhile is_space rest) of
             Some (m2, []) \<Rightarrow> Some (m1, Some m2)
           | _ \<Rightarrow> None))"

definition parseSegment :: "int \<Rightarrow> string \<Rightarrow> print_settings_error + page_range" where
  "parseSegment pageCount segment =
     (case matchSegment segment of
        None \<Rightarrow> Inl (PrintSettingsError PAGE_RANGE_INVALID [])
      | Some (m1, m2) \<Rightarrow>
          let start = int (read_digits m1);
              end_page = (case m2 of None \<Rightarrow> start | Some ds \<Rightarrow> int (read_digits ds)) in
          if \<not> is_safe_integer start \<or> \<not> is_safe_integer end_page
          then Inl (PrintSettingsError PAGE_RANGE_INVALID [])
          else if start < 1 \<or> end_page < start
          then Inl (PrintSettingsError PAGE_RANGE_INVALID
                      [(''start'', DNum start), (''end'', DNum end_page)])
          else if pageCount < end_page
          then Inl (PrintSettingsError PAGE_RANGE_OUT_OF_BOUNDS
                      [(''end'', DNum end_page), (''pageCount'', DNum pageCount)])
          else Inr (start, end_page))"

definition parsePageRangeText :: "string option \<Rightarrow> int \<Rightarrow> print_settings_error + page_range list" where
  "parsePageRangeText text_in pageCount =
     (if \<not> is_safe_integer pageCount \<or> pageCount < 1
      then Inl (PrintSettingsError PAGE_RANGE_OUT_OF_BOUNDS [(''pageCount'', DNum pageCount)])
      else
        let trimmed = js_trim (case text_in of None \<Rightarrow> [] | Some t \<Rightarrow> t) in
        if trimmed = [] then Inr [(1, pageCount)]
        else if MAX_PAGE_RANGE_TEXT_LENGTH < length trimmed
        then Inl (PrintSettingsError PAGE_RANGE_INVALID [(''length'', DNum (int (length trimmed)))])
        else
          let segments = split_on (CHR '','') trimmed in
          if MAX_PAGE_RANGE_SEGMENTS < length segments
          then Inl (PrintSettingsError PAGE_RANGE_INVALID [(''segments'', DNum (int (length segments)))])
          else bind_result (map_result (parseSegment pageCount) segments)
                 (\<lambda>parsed. Inr (mergePageRanges parsed)))"

subsection \<open>Sheets\<close>

definition calculateSheetUsage :: "int \<Rightarrow> duplex_mode \<Rightarrow> int \<times> int" where
  "calculateSheetUsage selectedPages duplex =
     (let printedSidesPerCopy = selectedPages in
      (printedSidesPerCopy,
       if duplex = SIMPLEX then printedSidesPerCopy else ceil_half printedSidesPerCopy))"

subsection \<open>Normalisation\<close>

definition assertSupported :: "bool \<Rightarrow> string \<Rightarrow> print_settings_error + unit" where
  "assertSupported supported setting =
     require supported (PrintSettingsError UNSUPPORTED_PRINT_SETTING [(''setting'', DStr setting)])"

text \<open>\<open>new Map(files.map (f => [f.id, f]))\<close>: a repeated key keeps its last value.\<close>

definition availableFiles :: "selectable_file list \<Rightarrow> string \<Rightarrow> selectable_file option" where
  "availableFiles files = map_of (rev (map (\<lambda>f. (sf_id f, f)) files))"

definition normalizeFile ::
  "normalize_context \<Rightarrow> print_settings_input \<Rightarrow> int \<Rightarrow> nat \<times> string \<Rightarrow>
   print_settings_error + normalized_file_selection" where
  "normalizeFile ctx input maxCopies entry =
     (case availableFiles (nc_files ctx) (snd entry) of
        None \<Rightarrow> Inl (PrintSettingsError FILE_ORDER_INVALID [(''reason'', DStr ''UNKNOWN_FILE'')])
      | Some file \<Rightarrow>
          (case List.find (\<lambda>s. fi_fileId s = snd entry) (pi_fileSelections input) of
             None \<Rightarrow> Inl (PrintSettingsError FILE_SELECTION_INVALID
                           [(''reason'', DStr ''MISSING_SELECTION'')])
           | Some selection \<Rightarrow>
               bind_result (assertSupported
                 (fi_duplex selection \<in> set (pc_duplexModes (nc_capabilities ctx))) ''duplex'') (\<lambda>_.
               bind_result (assertSupported
                 (fi_orientation selection \<in> set (pc_orientations (nc_capabilities ctx)))
                 ''orientation'') (\<lambda>_.
               bind_result (require
                 (is_safe_integer (fi_copies selection) \<and> 1 \<le> fi_copies selection
                   \<and> fi_copies selection \<le> maxCopies)
                 (PrintSettingsError COPIES_OUT_OF_RANGE
                   [(''fileId'', DStr (snd entry)), (''copies'', DNum (fi_copies selection)),
                    (''maxCopies'', DNum maxCopies)])) (\<lambda>_.
               bind_result (parsePageRangeText (fi_pageRanges selection) (sf_pageCount file))
                 (\<lambda>pageRanges.
                 let selectedPages = countSelectedPages pageRanges;
                     usage = calculateSheetUsage selectedPages (fi_duplex selection) in
                 Inr \<lparr>nf_fileId = snd entry, nf_position = int (fst entry),
                      nf_pageCount = sf_pageCount file,
                      nf_processingRevision = sf_processingRevision file,
                      nf_contentSha256 = sf_contentSha256 file,
                      nf_pageRanges = pageRanges,
                      nf_pageRangeText = formatPageRanges pageRanges,
                      nf_selectedPages = selectedPages,
                      nf_copies = fi_copies selection, nf_duplex = fi_duplex selection,
                      nf_orientation = fi_orientation selection,
                      nf_printedSidesPerCopy = fst usage,
                      nf_physicalSheetsPerCopy = snd usage,
                      nf_printedSides = fst usage * fi_copies selection,
                      nf_physicalSheets = snd usage * fi_copies selection\<rparr>))))))"

definition normalizePrintSettings ::
  "print_settings_input \<Rightarrow> normalize_context \<Rightarrow> print_settings_error + normalized_print_settings"
where
  "normalizePrintSettings input ctx =
    (let caps = nc_capabilities ctx; limits = nc_limits ctx in
     bind_result (assertSupported (pi_paperSize input \<in> set (pc_paperSizes caps)) ''paperSize'') (\<lambda>_.
     bind_result (assertSupported (pi_scaling input \<in> set (pc_scalingModes caps)) ''scaling'') (\<lambda>_.
     bind_result (assertSupported (PRINT_COLOR_MODE \<in> set (pc_colorModes caps)) ''colorMode'') (\<lambda>_.
     let maxCopies = min (pl_maxCopies limits) (pc_maxCopies caps);
         available = length (remdups (map sf_id (nc_files ctx)));
         received = length (pi_fileOrder input) in
     bind_result (require (received = available)
       (PrintSettingsError FILE_ORDER_INVALID
         [(''expected'', DNum (int available)), (''received'', DNum (int received))])) (\<lambda>_.
     bind_result (require (distinct (pi_fileOrder input))
       (PrintSettingsError FILE_ORDER_INVALID [(''reason'', DStr ''DUPLICATE_FILE'')])) (\<lambda>_.
     bind_result (require (length (pi_fileSelections input) = received)
       (PrintSettingsError FILE_SELECTION_INVALID
         [(''expected'', DNum (int received)),
          (''received'', DNum (int (length (pi_fileSelections input))))])) (\<lambda>_.
     bind_result (require (distinct (map fi_fileId (pi_fileSelections input)))
       (PrintSettingsError FILE_SELECTION_INVALID [(''reason'', DStr ''DUPLICATE_SELECTION'')])) (\<lambda>_.
     bind_result (map_result (normalizeFile ctx input maxCopies)
       (List.enumerate 0 (pi_fileOrder input))) (\<lambda>files.
     let selectedPages = sum_list (map nf_selectedPages files);
         printedSides = sum_list (map nf_printedSides files);
         physicalSheets = sum_list (map nf_physicalSheets files) in
     bind_result (require (1 \<le> selectedPages) (PrintSettingsError NO_SELECTED_PAGES [])) (\<lambda>_.
     bind_result (require (selectedPages \<le> pl_maxSelectedPages limits)
       (PrintSettingsError SELECTED_PAGE_LIMIT_EXCEEDED
         [(''selectedPages'', DNum selectedPages),
          (''maxSelectedPages'', DNum (pl_maxSelectedPages limits))])) (\<lambda>_.
     bind_result (require (printedSides \<le> pl_maxPrintedSides limits)
       (PrintSettingsError PRINTED_SIDE_LIMIT_EXCEEDED
         [(''printedSides'', DNum printedSides),
          (''maxPrintedSides'', DNum (pl_maxPrintedSides limits))])) (\<lambda>_.
     Inr \<lparr>np_paperSize = pi_paperSize input, np_scaling = pi_scaling input,
          np_collate = pi_collate input, np_colorMode = PRINT_COLOR_MODE,
          np_capabilityVersion = pc_version caps, np_files = files,
          np_selectedPages = selectedPages, np_printedSides = printedSides,
          np_physicalSheets = physicalSheets\<rparr>))))))))))))"

subsection \<open>Merged ranges are the sorted list of the chosen pages\<close>

definition pagesOf :: "page_range list \<Rightarrow> int set" where
  "pagesOf rs = (\<Union>r \<in> set rs. {fst r..snd r})"

definition nonempty_ranges :: "page_range list \<Rightarrow> bool" where
  "nonempty_ranges rs \<longleftrightarrow> (\<forall>r \<in> set rs. fst r \<le> snd r)"

definition separated :: "page_range list \<Rightarrow> bool" where
  "separated = sorted_wrt (\<lambda>r q. snd r + 1 < fst q)"

definition canonical :: "page_range list \<Rightarrow> bool" where
  "canonical rs \<longleftrightarrow> nonempty_ranges rs \<and> separated rs"

lemma pagesOf_simps [simp]:
  "pagesOf [] = {}" "pagesOf (r # rs) = {fst r..snd r} \<union> pagesOf rs"
  "pagesOf (rs @ qs) = pagesOf rs \<union> pagesOf qs" "pagesOf (rev rs) = pagesOf rs"
  by (auto simp: pagesOf_def)

lemma nonempty_ranges_simps [simp]:
  "nonempty_ranges []" "nonempty_ranges (r # rs) \<longleftrightarrow> fst r \<le> snd r \<and> nonempty_ranges rs"
  "nonempty_ranges (rs @ qs) \<longleftrightarrow> nonempty_ranges rs \<and> nonempty_ranges qs"
  "nonempty_ranges (rev rs) \<longleftrightarrow> nonempty_ranges rs"
  by (auto simp: nonempty_ranges_def)

lemma canonical_Nil [simp]: "canonical []"
  by (simp add: canonical_def separated_def)

lemma canonical_Cons:
  "canonical (r # rs) \<longleftrightarrow> fst r \<le> snd r \<and> (\<forall>q \<in> set rs. snd r + 1 < fst q) \<and> canonical rs"
  by (auto simp: canonical_def separated_def)

lemma canonical_tail_pages: "canonical (r # rs) \<Longrightarrow> p \<in> pagesOf rs \<Longrightarrow> snd r + 1 < p"
  by (fastforce simp: canonical_Cons pagesOf_def)

lemma mergeLoop_correct:
  assumes "nonempty_ranges acc" and "separated (rev acc)" and "nonempty_ranges rs"
    and "sorted (map fst rs)" and "\<forall>r \<in> set rs. acc \<noteq> [] \<longrightarrow> fst (hd acc) \<le> fst r"
  shows "canonical (mergeLoop acc rs) \<and> pagesOf (mergeLoop acc rs) = pagesOf acc \<union> pagesOf rs"
  using assms
proof (induction acc rs rule: mergeLoop.induct)
  case (1 merged)
  then show ?case by (simp add: canonical_def)
next
  case (2 r rs)
  then have "canonical (mergeLoop [r] rs) \<and> pagesOf (mergeLoop [r] rs) = pagesOf [r] \<union> pagesOf rs"
    by (intro "2.IH") (auto simp: separated_def)
  then show ?case by simp
next
  case (3 lst merged start e rs)
  show ?case
  proof (cases "mergeable lst start")
    case True
    have "canonical (mergeLoop ((fst lst, max (snd lst) e) # merged) rs) \<and>
        pagesOf (mergeLoop ((fst lst, max (snd lst) e) # merged) rs) =
        pagesOf ((fst lst, max (snd lst) e) # merged) \<union> pagesOf rs"
      using "3.prems" by (intro "3.IH"(1) [OF True])
        (auto simp: separated_def sorted_wrt_append)
    moreover have "{fst lst..max (snd lst) e} = {fst lst..snd lst} \<union> {start..e}"
      using "3.prems" True by (auto simp: mergeable_def)
    ultimately show ?thesis using True by auto
  next
    case False
    then have gap: "snd lst + 1 < start" by (simp add: mergeable_def)
    have "nonempty_ranges ((start, e) # lst # merged)" and "nonempty_ranges rs"
      and "sorted (map fst rs)" and le: "fst lst \<le> snd lst"
      using "3.prems" by auto
    moreover have sep: "separated (rev ((start, e) # lst # merged))"
      using "3.prems"(2) gap le
      by (fastforce simp: separated_def sorted_wrt_append)
    moreover have "\<forall>r\<in>set rs. (start, e) # lst # merged \<noteq> [] \<longrightarrow>
        fst (hd ((start, e) # lst # merged)) \<le> fst r"
      using "3.prems"(4) by simp
    ultimately have "canonical (mergeLoop ((start, e) # lst # merged) rs) \<and>
        pagesOf (mergeLoop ((start, e) # lst # merged) rs) =
        pagesOf ((start, e) # lst # merged) \<union> pagesOf rs"
      by (intro "3.IH"(2) [OF False])
    then show ?thesis using False by auto
  qed
qed

lemma sorted_map_fst: "sorted (xs :: page_range list) \<Longrightarrow> sorted (map fst xs)"
  by (induction xs) (auto simp: less_eq_prod_def)

lemma mergePageRanges_correct:
  assumes "nonempty_ranges rs"
  shows "canonical (mergePageRanges rs)" and "pagesOf (mergePageRanges rs) = pagesOf rs"
proof -
  have "sorted (map fst (sort rs))" by (rule sorted_map_fst) simp
  with assms mergeLoop_correct [of "[]" "sort rs"]
  show "canonical (mergePageRanges rs)" and "pagesOf (mergePageRanges rs) = pagesOf rs"
    by (auto simp: mergePageRanges_def separated_def nonempty_ranges_def pagesOf_def)
qed

lemma countSelectedPages_sum: "countSelectedPages rs = sum_list (map (\<lambda>r. snd r - fst r + 1) rs)"
proof -
  have "foldl (\<lambda>t r. t + (snd r - fst r + 1)) a rs = a + sum_list (map (\<lambda>r. snd r - fst r + 1) rs)" for a
    by (induction rs arbitrary: a) auto
  then show ?thesis by (simp add: countSelectedPages_def)
qed

lemma finite_pagesOf [simp]: "finite (pagesOf rs)"
  by (simp add: pagesOf_def)

lemma canonical_count: "canonical rs \<Longrightarrow> countSelectedPages rs = int (card (pagesOf rs))"
proof (induction rs)
  case Nil
  show ?case by (simp add: countSelectedPages_sum)
next
  case (Cons r rs)
  have "{fst r..snd r} \<inter> pagesOf rs = {}"
    using canonical_tail_pages [OF Cons.prems] by force
  then have "card (pagesOf (r # rs)) = card {fst r..snd r} + card (pagesOf rs)"
    by (simp add: card_Un_disjoint)
  with Cons show ?case by (simp add: countSelectedPages_sum canonical_Cons)
qed

lemma canonical_tail_eq: "canonical (r # rs) \<Longrightarrow> pagesOf rs = pagesOf (r # rs) - {fst r..snd r}"
  using canonical_tail_pages [of r rs] by force

lemma canonical_first:
  assumes "canonical (r # rs)" and "canonical (q # qs)" and "pagesOf (r # rs) = pagesOf (q # qs)"
  shows "fst q \<le> fst r" and "snd r \<le> snd q"
proof -
  have "fst r \<in> pagesOf (q # qs)" using assms(1,3) by (auto simp: canonical_Cons)
  then show 1: "fst q \<le> fst r"
    using canonical_tail_pages [OF assms(2)] assms(2) by (force simp: canonical_Cons)
  have "fst r \<le> fst q"
  proof -
    have "fst q \<in> pagesOf (r # rs)" using assms(2,3) by (auto simp: canonical_Cons)
    then show ?thesis using canonical_tail_pages [OF assms(1)] assms(1) by (force simp: canonical_Cons)
  qed
  show "snd r \<le> snd q"
  proof (rule ccontr)
    assume "\<not> snd r \<le> snd q"
    with assms(2) \<open>fst r \<le> fst q\<close> have "snd q + 1 \<in> {fst r..snd r}" by (auto simp: canonical_Cons)
    then have "snd q + 1 \<in> pagesOf (r # rs)" by simp
    then have "snd q + 1 \<in> pagesOf (q # qs)" by (simp only: assms(3))
    then show False using canonical_tail_pages [OF assms(2), of "snd q + 1"] by simp
  qed
qed

lemma canonical_unique:
  "canonical rs \<Longrightarrow> canonical qs \<Longrightarrow> pagesOf rs = pagesOf qs \<Longrightarrow> rs = qs"
proof (induction rs arbitrary: qs)
  case Nil
  then show ?case by (cases qs) (auto simp: canonical_Cons)
next
  case (Cons r rs)
  then obtain q qs' where qs: "qs = q # qs'"
    by (cases qs) (auto simp: canonical_Cons)
  have "fst r = fst q \<and> snd r = snd q"
    using canonical_first [of r rs q qs'] canonical_first [of q qs' r rs] Cons.prems qs by force
  then have rq: "r = q" by (simp add: prod_eq_iff)
  have "pagesOf rs = pagesOf (r # rs) - {fst r..snd r}"
    by (rule canonical_tail_eq [OF Cons.prems(1)])
  moreover have "pagesOf qs' = pagesOf (q # qs') - {fst q..snd q}"
    using canonical_tail_eq Cons.prems(2) qs by blast
  ultimately have "pagesOf rs = pagesOf qs'" using Cons.prems(3) unfolding qs rq by simp
  with Cons.IH [of qs'] Cons.prems(1,2) qs rq show ?case by (auto simp: canonical_Cons)
qed

text \<open>
  The canonical selection depends on the chosen pages only: however a customer
  writes, repeats, overlaps or splits ranges, two selections of the same pages merge to the
  same ranges (so they are priced and hashed alike), and the page count charged is the
  number of distinct pages chosen.
\<close>

theorem merged_ranges_canonical:
  assumes "nonempty_ranges rs" and "nonempty_ranges qs"
  shows "(mergePageRanges rs = mergePageRanges qs \<longleftrightarrow> pagesOf rs = pagesOf qs) \<and>
    countSelectedPages (mergePageRanges rs) = int (card (pagesOf rs))"
  using mergePageRanges_correct [OF assms(1)] mergePageRanges_correct [OF assms(2)]
    canonical_unique canonical_count by metis

subsection \<open>Canonical text parses back\<close>

lemma show_int_nonneg: "0 \<le> n \<Longrightarrow> show_int n = show_nat (nat n)"
  by (simp add: show_int_def)

definition number_boundary :: "string \<Rightarrow> bool" where
  "number_boundary s \<longleftrightarrow> s = [] \<or> (\<not> is_digit (hd s) \<and> \<not> is_space (hd s))"

lemma takeNumber_show [str_simps]:
  assumes "n < 1000000" and "number_boundary rest"
  shows "takeNumber (show_nat n @ rest) = Some (show_nat n, rest)"
proof -
  have d: "\<forall>c \<in> set (show_nat n). is_digit c" by (simp add: show_nat_digits)
  have l: "length (show_nat n) \<le> 6" using length_show_nat_less [of n 6] assms(1) by simp
  have "takeWhile is_digit rest = []" and "dropWhile is_digit rest = rest"
    and "dropWhile is_space rest = rest"
    using assms(2) by (cases rest; simp add: number_boundary_def)+
  with d l show ?thesis
    by (simp add: takeNumber_def takeWhile_append2 dropWhile_append2 Suc_le_eq)
qed

lemma dropWhile_space_show [simp]: "dropWhile is_space (show_nat n @ rest) = show_nat n @ rest"
proof (cases "show_nat n")
  case (Cons c cs)
  then have "is_digit c" using show_nat_digits [of c n] by simp
  with Cons show ?thesis by (simp add: digit_not_space)
qed simp

lemma matchSegment_formatRange:
  assumes "1 \<le> fst r" and "fst r \<le> snd r" and "snd r < 1000000"
  shows "matchSegment (formatRange r) =
    Some (show_nat (nat (fst r)), if fst r = snd r then None else Some (show_nat (nat (snd r))))"
proof -
  have b: "nat (fst r) < 1000000" "nat (snd r) < 1000000" using assms by linarith+
  have "takeNumber (show_nat (nat (fst r)) @ CHR ''-'' # show_nat (nat (snd r)))
      = Some (show_nat (nat (fst r)), CHR ''-'' # show_nat (nat (snd r)))"
    by (rule takeNumber_show [OF b(1)]) (simp add: number_boundary_def)
  moreover have "takeNumber (show_nat n) = Some (show_nat n, [])" if "n < 1000000" for n
    using takeNumber_show [OF that, of "[]"] by (simp add: number_boundary_def)
  moreover have "dropWhile is_space (show_nat n) = show_nat n" for n
    using dropWhile_space_show [of n "[]"] by simp
  ultimately show ?thesis
    using assms b by (simp add: matchSegment_def formatRange_def show_int_nonneg)
qed

lemma parseSegment_formatRange:
  assumes "1 \<le> fst r" and "fst r \<le> snd r" and "snd r \<le> pc" and "snd r < 1000000"
  shows "parseSegment pc (formatRange r) = Inr r"
  using assms matchSegment_formatRange [of r]
  by (simp add: parseSegment_def is_safe_integer_def max_safe_integer_def Let_def)
    (auto simp: prod_eq_iff)

lemma formatRange_chars: "c \<in> set (formatRange r) \<Longrightarrow> 1 \<le> fst r \<Longrightarrow> fst r \<le> snd r \<Longrightarrow>
    is_digit c \<or> c = CHR ''-''"
  by (auto simp: formatRange_def show_int_nonneg show_nat_digits split: if_splits)

lemma set_join_with: "c \<in> set (join_with sep ws) \<Longrightarrow> c = sep \<or> (\<exists>w \<in> set ws. c \<in> set w)"
  by (induction sep ws rule: join_with.induct) auto

lemma join_with_Nil: "join_with sep ws = [] \<longleftrightarrow> ws = [] \<or> ws = [[]]"
  by (induction sep ws rule: join_with.induct) auto

lemma mergePageRanges_canonical: "canonical rs \<Longrightarrow> mergePageRanges rs = rs"
  using mergePageRanges_correct [of rs] canonical_unique by (simp add: canonical_def)

definition ranges_within :: "page_range list \<Rightarrow> int \<Rightarrow> bool" where
  "ranges_within rs pc \<longleftrightarrow> (\<forall>r \<in> set rs. 1 \<le> fst r \<and> snd r \<le> pc)"

subsection \<open>What a normalised settings revision guarantees\<close>

lemma parseSegment_Inr:
  "parseSegment pc seg = Inr r \<Longrightarrow> 1 \<le> fst r \<and> fst r \<le> snd r \<and> snd r \<le> pc"
  by (auto simp: parseSegment_def Let_def split: option.splits prod.splits if_splits)

lemma mergePageRanges_within:
  assumes "nonempty_ranges rs" and "ranges_within rs pc"
  shows "ranges_within (mergePageRanges rs) pc"
  unfolding ranges_within_def
proof
  fix r assume r: "r \<in> set (mergePageRanges rs)"
  then have "fst r \<le> snd r"
    using mergePageRanges_correct(1) [OF assms(1)] by (auto simp: canonical_def nonempty_ranges_def)
  with r have "fst r \<in> pagesOf (mergePageRanges rs)" and "snd r \<in> pagesOf (mergePageRanges rs)"
    by (force simp: pagesOf_def)+
  then have "fst r \<in> pagesOf rs" and "snd r \<in> pagesOf rs"
    by (simp_all only: mergePageRanges_correct(2) [OF assms(1)])
  with assms(2) show "1 \<le> fst r \<and> snd r \<le> pc"
    by (force simp: pagesOf_def ranges_within_def)
qed

lemma parsePageRangeText_Inr:
  assumes "parsePageRangeText t pc = Inr rs"
  shows "canonical rs \<and> ranges_within rs pc \<and> rs \<noteq> []"
proof (cases "js_trim (case t of None \<Rightarrow> [] | Some t \<Rightarrow> t) = []")
  case True
  with assms show ?thesis
    by (auto simp: parsePageRangeText_def Let_def canonical_Cons ranges_within_def split: if_splits)
next
  case False
  define segs where "segs = split_on (CHR '','') (js_trim (case t of None \<Rightarrow> [] | Some t \<Rightarrow> t))"
  have segs: "segs \<noteq> []" by (simp add: segs_def)
  obtain parsed where p: "map_result (parseSegment pc) segs = Inr parsed"
    and rs: "rs = mergePageRanges parsed"
    using assms False by (auto simp: parsePageRangeText_def Let_def segs_def split: if_splits)
  have "1 \<le> fst r \<and> fst r \<le> snd r \<and> snd r \<le> pc" if "r \<in> set parsed" for r
    using map_result_Inr_nth [OF p] parseSegment_Inr that by (metis in_set_conv_nth)
  then have n: "nonempty_ranges parsed" "ranges_within parsed pc"
    by (auto simp: nonempty_ranges_def ranges_within_def)
  have "parsed \<noteq> []" using map_result_Inr_length [OF p] segs by auto
  then have "pagesOf parsed \<noteq> {}" using n(1) by (cases parsed) auto
  then have "rs \<noteq> []" using mergePageRanges_correct(2) [OF n(1)] rs by auto
  then show ?thesis
    using mergePageRanges_correct(1) [OF n(1)] mergePageRanges_within [OF n] rs by simp
qed

lemma canonical_count_bounds:
  assumes "canonical rs" and "ranges_within rs pc" and "rs \<noteq> []"
  shows "1 \<le> countSelectedPages rs" and "countSelectedPages rs \<le> pc"
proof -
  have sub: "pagesOf rs \<subseteq> {1..pc}" using assms(2) by (auto simp: pagesOf_def ranges_within_def)
  have "pagesOf rs \<noteq> {}" using assms(1,3) by (cases rs) (auto simp: canonical_Cons)
  then have "0 < card (pagesOf rs)" by (simp add: card_gt_0_iff)
  then show "1 \<le> countSelectedPages rs" using canonical_count [OF assms(1)] by simp
  have "1 \<le> pc" using sub \<open>pagesOf rs \<noteq> {}\<close> by auto
  with card_mono [OF _ sub] show "countSelectedPages rs \<le> pc"
    using canonical_count [OF assms(1)] by simp
qed

definition file_settings_ok :: "normalize_context \<Rightarrow> normalized_file_selection \<Rightarrow> bool" where
  "file_settings_ok ctx f \<longleftrightarrow>
     (\<exists>fl \<in> set (nc_files ctx). sf_id fl = nf_fileId f \<and> sf_pageCount fl = nf_pageCount f
        \<and> sf_contentSha256 fl = nf_contentSha256 f
        \<and> sf_processingRevision fl = nf_processingRevision f) \<and>
     canonical (nf_pageRanges f) \<and> ranges_within (nf_pageRanges f) (nf_pageCount f) \<and>
     nf_selectedPages f = int (card (pagesOf (nf_pageRanges f))) \<and>
     1 \<le> nf_selectedPages f \<and> nf_selectedPages f \<le> nf_pageCount f \<and>
     1 \<le> nf_copies f \<and> nf_copies f \<le> pc_maxCopies (nc_capabilities ctx) \<and>
     nf_copies f \<le> pl_maxCopies (nc_limits ctx) \<and>
     nf_duplex f \<in> set (pc_duplexModes (nc_capabilities ctx)) \<and>
     nf_orientation f \<in> set (pc_orientations (nc_capabilities ctx)) \<and>
     nf_printedSides f = nf_selectedPages f * nf_copies f \<and>
     1 \<le> nf_physicalSheets f \<and> nf_physicalSheets f \<le> nf_printedSides f \<and>
     nf_printedSides f \<le> 2 * nf_physicalSheets f"

lemma calculateSheetUsage_bounds:
  assumes "1 \<le> n"
  shows "fst (calculateSheetUsage n d) = n" and "1 \<le> snd (calculateSheetUsage n d)"
    and "snd (calculateSheetUsage n d) \<le> n" and "n \<le> 2 * snd (calculateSheetUsage n d)"
  using assms ceil_half_bounds [of n] by (auto simp: calculateSheetUsage_def)

lemma normalizeFile_Inr:
  assumes "normalizeFile ctx input (min (pl_maxCopies (nc_limits ctx)) (pc_maxCopies (nc_capabilities ctx))) e
    = Inr f"
  shows "file_settings_ok ctx f \<and> nf_fileId f = snd e \<and> nf_position f = int (fst e)"
proof -
  obtain fl where avail: "availableFiles (nc_files ctx) (snd e) = Some fl"
    using assms by (auto simp: normalizeFile_def split: option.splits)
  obtain sel where sel: "List.find (\<lambda>s. fi_fileId s = snd e) (pi_fileSelections input) = Some sel"
    using assms avail by (auto simp: normalizeFile_def split: option.splits)
  note unfolded = assms avail sel
  have copies: "1 \<le> fi_copies sel" "fi_copies sel \<le> pl_maxCopies (nc_limits ctx)"
      "fi_copies sel \<le> pc_maxCopies (nc_capabilities ctx)"
    and dup: "fi_duplex sel \<in> set (pc_duplexModes (nc_capabilities ctx))"
      "fi_orientation sel \<in> set (pc_orientations (nc_capabilities ctx))"
    and f: "nf_fileId f = snd e" "nf_position f = int (fst e)" "nf_pageCount f = sf_pageCount fl"
      "nf_processingRevision f = sf_processingRevision fl"
      "nf_contentSha256 f = sf_contentSha256 fl" "nf_copies f = fi_copies sel"
      "nf_duplex f = fi_duplex sel" "nf_orientation f = fi_orientation sel"
      "nf_selectedPages f = countSelectedPages (nf_pageRanges f)"
      "nf_printedSides f = fst (calculateSheetUsage (nf_selectedPages f) (fi_duplex sel)) * fi_copies sel"
      "nf_physicalSheets f = snd (calculateSheetUsage (nf_selectedPages f) (fi_duplex sel)) * fi_copies sel"
    and rs: "parsePageRangeText (fi_pageRanges sel) (sf_pageCount fl) = Inr (nf_pageRanges f)"
    using unfolded by (auto simp: normalizeFile_def assertSupported_def Let_def)
  have mem: "fl \<in> set (nc_files ctx)" "sf_id fl = snd e"
    using avail by (auto simp: availableFiles_def dest!: map_of_SomeD)
  note can = parsePageRangeText_Inr [OF rs]
  note bounds = canonical_count_bounds [OF can [THEN conjunct1] can [THEN conjunct2, THEN conjunct1]
      can [THEN conjunct2, THEN conjunct2], folded f(9)]
  note usage = calculateSheetUsage_bounds [OF bounds(1), of "fi_duplex sel"]
  have sheets: "1 \<le> nf_physicalSheets f" "nf_physicalSheets f \<le> nf_printedSides f"
    "nf_printedSides f \<le> 2 * nf_physicalSheets f"
    using usage copies(1) mult_mono [OF usage(2) copies(1)] mult_right_mono [OF usage(3), of "fi_copies sel"]
      mult_right_mono [OF usage(4), of "fi_copies sel"] by (simp_all add: f usage(1))
  show ?thesis
    using mem copies dup f can bounds usage(1) sheets canonical_count
    unfolding file_settings_ok_def by auto
qed

lemma normalizePrintSettings_Inr:
  assumes "normalizePrintSettings input ctx = Inr ns"
  shows "list_all2 (\<lambda>e f. normalizeFile ctx input
          (min (pl_maxCopies (nc_limits ctx)) (pc_maxCopies (nc_capabilities ctx))) e = Inr f)
          (List.enumerate 0 (pi_fileOrder input)) (np_files ns)"
    and "np_selectedPages ns = sum_list (map nf_selectedPages (np_files ns))"
    and "np_printedSides ns = sum_list (map nf_printedSides (np_files ns))"
    and "np_physicalSheets ns = sum_list (map nf_physicalSheets (np_files ns))"
    and "1 \<le> np_selectedPages ns" and "np_selectedPages ns \<le> pl_maxSelectedPages (nc_limits ctx)"
    and "np_printedSides ns \<le> pl_maxPrintedSides (nc_limits ctx)"
    and "distinct (pi_fileOrder input)"
  using assms
  by (auto simp: normalizePrintSettings_def assertSupported_def Let_def map_result_Inr)

lemma normalized_files_ok:
  assumes "normalizePrintSettings input ctx = Inr ns" and "f \<in> set (np_files ns)"
  shows "file_settings_ok ctx f"
  using normalizePrintSettings_Inr(1) [OF assms(1)] assms(2)
  by (auto simp: list_all2_conv_all_nth in_set_conv_nth dest: normalizeFile_Inr)

lemma normalized_file_ids:
  assumes "normalizePrintSettings input ctx = Inr ns"
  shows "map nf_fileId (np_files ns) = pi_fileOrder input"
  using normalizePrintSettings_Inr(1) [OF assms]
  by (auto simp: list_all2_conv_all_nth list_eq_iff_nth_eq nth_enumerate_eq dest!: normalizeFile_Inr)

lemma sum_list_bounds:
  assumes "\<forall>f \<in> set fs. 1 \<le> g f \<and> g f \<le> h f \<and> h f \<le> 2 * (g f :: int)"
  shows "sum_list (map g fs) \<le> sum_list (map h fs)"
    and "sum_list (map h fs) \<le> 2 * sum_list (map g fs)"
    and "int (length fs) \<le> sum_list (map g fs)"
  using assms by (induction fs) auto

subsection \<open>A revision normalises to itself\<close>

lemma canonical_reparses:
  assumes "canonical rs" and "rs \<noteq> []" and "ranges_within rs pc" and "is_safe_integer pc"
    and "\<forall>r \<in> set rs. snd r < 1000000"
    and "length rs \<le> 50" and "length (formatPageRanges rs) \<le> 200"
  shows "parsePageRangeText (Some (formatPageRanges rs)) pc = Inr rs"
proof -
  have r: "1 \<le> fst r \<and> fst r \<le> snd r \<and> snd r \<le> pc" if "r \<in> set rs" for r
    using assms(1,3) that by (auto simp: canonical_def nonempty_ranges_def ranges_within_def)
  then have pc: "1 \<le> pc" using assms(2) by (cases rs) force+
  have chars: "is_digit c \<or> c = CHR ''-''" if "r \<in> set rs" and "c \<in> set (formatRange r)" for r c
    using formatRange_chars [OF that(2)] r [OF that(1)] by simp
  then have "\<forall>w \<in> set (map formatRange rs). CHR '','' \<notin> set w" by force
  then have split: "split_on (CHR '','') (formatPageRanges rs) = map formatRange rs"
    using assms(2) by (simp add: formatPageRanges_def split_join)
  have "\<forall>c \<in> set (formatPageRanges rs). \<not> is_space c"
    using chars digit_not_space by (fastforce simp: formatPageRanges_def dest: set_join_with)
  then have trim: "js_trim (formatPageRanges rs) = formatPageRanges rs" by (rule js_trim_no_space)
  have ne: "formatPageRanges rs \<noteq> []"
    using assms(2) by (auto simp: formatPageRanges_def join_with_Nil formatRange_def show_int_def
        split: if_splits)
  have "parseSegment pc (formatRange x) = Inr x" if "x \<in> set rs" for x
    using r [OF that] assms(5) that by (simp add: parseSegment_formatRange)
  then have "map_result (parseSegment pc) (map formatRange rs) = Inr rs"
    by (auto simp: map_result_Inr list_all2_conv_all_nth)
  then show ?thesis
    using pc split trim ne assms(1,4,6,7)
    by (simp add: parsePageRangeText_def Let_def MAX_PAGE_RANGE_TEXT_LENGTH_def
        MAX_PAGE_RANGE_SEGMENTS_def mergePageRanges_canonical)
qed

text \<open>The characters ranges take, each with the comma after it.\<close>

definition ranges_width :: "page_range list \<Rightarrow> nat" where
  "ranges_width rs = sum_list (map (\<lambda>r. length (formatRange r) + 1) rs)"

lemma ranges_width_simps [simp]:
  "ranges_width [] = 0" "ranges_width (r # rs) = length (formatRange r) + 1 + ranges_width rs"
  "ranges_width (rs @ qs) = ranges_width rs + ranges_width qs"
  by (simp_all add: ranges_width_def)

lemma ranges_width_rev [simp]: "ranges_width (rev rs) = ranges_width rs"
  by (induction rs) auto

lemma ranges_width_insort: "ranges_width (insort r rs) = length (formatRange r) + 1 + ranges_width rs"
  by (induction rs) auto

lemma ranges_width_sort: "ranges_width (sort rs) = ranges_width rs"
  by (induction rs) (auto simp: sort_key_def ranges_width_insort)

lemma length_join_with: "ws \<noteq> [] \<Longrightarrow> length (join_with sep ws) + 1 = sum_list (map (\<lambda>w. length w + 1) ws)"
  by (induction sep ws rule: join_with.induct) auto

lemma formatPageRanges_width: "rs \<noteq> [] \<Longrightarrow> length (formatPageRanges rs) + 1 = ranges_width rs"
  using length_join_with [of "map formatRange rs" "CHR '',''"]
  by (simp add: formatPageRanges_def ranges_width_def comp_def)

lemma formatRange_merge:
  "length (formatRange (a, max b d)) \<le> length (formatRange (a, b)) + length (formatRange (c, d)) + 1"
  by (auto simp: formatRange_def max_def)

lemma mergeLoop_width: "ranges_width (mergeLoop acc rs) \<le> ranges_width acc + ranges_width rs"
proof (induction acc rs rule: mergeLoop.induct)
  case (3 lst merged start e rs)
  then show ?case using formatRange_merge [of "fst lst" "snd lst" e start] by auto
qed auto

lemma mergeLoop_length: "length (mergeLoop acc rs) \<le> length acc + length rs"
  by (induction acc rs rule: mergeLoop.induct) auto

lemma mergePageRanges_size:
  "ranges_width (mergePageRanges rs) \<le> ranges_width rs" "length (mergePageRanges rs) \<le> length rs"
proof -
  show "ranges_width (mergePageRanges rs) \<le> ranges_width rs"
    using mergeLoop_width [of "[]" "sort rs"] by (simp add: mergePageRanges_def ranges_width_sort)
  show "length (mergePageRanges rs) \<le> length rs"
    using mergeLoop_length [of "[]" "sort rs"] by (simp add: mergePageRanges_def)
qed

lemma read_digits_less: "\<forall>c \<in> set ds. is_digit c \<Longrightarrow> read_digits ds < 10 ^ length ds"
proof (induction ds rule: rev_induct)
  case (snoc c cs)
  then have "digit_value c \<le> 9" by (auto simp: is_digit_def digit_value_def)
  with snoc show ?case by (simp add: read_digits_snoc)
qed (simp add: read_digits_def)

lemma read_digits_width: "ds \<noteq> [] \<Longrightarrow> \<forall>c \<in> set ds. is_digit c \<Longrightarrow> length (show_nat (read_digits ds)) \<le> length ds"
  using length_show_nat_less [OF read_digits_less] by simp

lemma takeNumber_Some:
  assumes "takeNumber s = Some (ds, rest)"
  shows "ds \<noteq> [] \<and> (\<forall>c \<in> set ds. is_digit c) \<and> length ds \<le> 6 \<and> length ds + length rest \<le> length s"
proof -
  have "length (takeWhile is_digit s) + length (dropWhile is_digit s) = length s"
    by (simp flip: length_append)
  then show ?thesis
    using assms length_dropWhile_le [of is_space "dropWhile is_digit s"]
    by (auto simp: takeNumber_def Let_def dest: set_takeWhileD split: if_splits)
qed

lemma parseSegment_width:
  assumes "parseSegment pc seg = Inr r"
  shows "length (formatRange r) \<le> length seg \<and> snd r < 1000000"
proof -
  obtain m1 m2 where m: "matchSegment seg = Some (m1, m2)"
    using assms by (auto simp: parseSegment_def split: option.splits)
  define rest where "rest = snd (the (takeNumber (dropWhile is_space seg)))"
  have t1: "takeNumber (dropWhile is_space seg) = Some (m1, rest)"
    using m by (auto simp: matchSegment_def rest_def split: option.splits prod.splits list.splits if_splits)
  note n1 = takeNumber_Some [OF t1]
  have l: "length (dropWhile is_space seg) \<le> length seg" by (rule length_dropWhile_le)
  have less: "int (read_digits ds) < 1000000" if "\<forall>c \<in> set ds. is_digit c" and "length ds \<le> 6" for ds
  proof -
    have "read_digits ds < 10 ^ length ds" by (rule read_digits_less) (rule that(1))
    also have "\<dots> \<le> 10 ^ 6" by (rule power_increasing) (use that(2) in auto)
    finally show ?thesis by simp
  qed
  show ?thesis
  proof (cases m2)
    case None
    then have "r = (int (read_digits m1), int (read_digits m1))"
      using assms m by (auto simp: parseSegment_def Let_def split: if_splits)
    then show ?thesis
      using n1 l less [of m1] read_digits_width [of m1] by (auto simp: formatRange_def show_int_nonneg)
  next
    case (Some ds)
    then have r: "r = (int (read_digits m1), int (read_digits ds))"
      using assms m by (auto simp: parseSegment_def Let_def split: if_splits)
    obtain rest2 where rest: "rest = CHR ''-'' # rest2" and t2: "takeNumber (dropWhile is_space rest2) = Some (ds, [])"
      using m t1 Some by (auto simp: matchSegment_def split: option.splits list.splits if_splits prod.splits)
    have "length (dropWhile is_space rest2) \<le> length rest2" by (rule length_dropWhile_le)
    then show ?thesis
      using n1 l takeNumber_Some [OF t2] rest r less [of ds] read_digits_width [of m1] read_digits_width [of ds]
      by (auto simp: formatRange_def show_int_nonneg)
  qed
qed

lemma parsed_text_width:
  assumes "parsePageRangeText t pc = Inr rs" and "js_trim (case t of None \<Rightarrow> [] | Some t \<Rightarrow> t) \<noteq> []"
  shows "length rs \<le> 50 \<and> length (formatPageRanges rs) \<le> 200 \<and> (\<forall>r \<in> set rs. snd r < 1000000)"
proof -
  define u where "u = js_trim (case t of None \<Rightarrow> [] | Some t \<Rightarrow> t)"
  define segs where "segs = split_on (CHR '','') u"
  obtain parsed where p: "map_result (parseSegment pc) segs = Inr parsed" and rs: "rs = mergePageRanges parsed"
    and bounds: "length u \<le> 200" "length segs \<le> 50"
    using assms by (auto simp: parsePageRangeText_def Let_def segs_def u_def MAX_PAGE_RANGE_TEXT_LENGTH_def
        MAX_PAGE_RANGE_SEGMENTS_def split: if_splits)
  have all: "list_all2 (\<lambda>s r. length (formatRange r) \<le> length s \<and> 1 \<le> fst r \<and> fst r \<le> snd r \<and> snd r < 1000000) segs parsed"
    using p parseSegment_width parseSegment_Inr by (fastforce simp: map_result_Inr elim: list_all2_mono)
  then have "ranges_width parsed \<le> sum_list (map (\<lambda>w. length w + 1) segs)"
    by (induction rule: list_all2_induct) auto
  also have "\<dots> = length u + 1" using length_join_with [of segs "CHR '',''"] by (simp add: segs_def)
  finally have "ranges_width rs \<le> length u + 1" using mergePageRanges_size(1) [of parsed] rs by simp
  moreover have ne: "rs \<noteq> []" using parsePageRangeText_Inr [OF assms(1)] by simp
  ultimately have w: "length (formatPageRanges rs) \<le> 200" using formatPageRanges_width [of rs] bounds(1) by simp
  have l: "length rs \<le> 50" using mergePageRanges_size(2) [of parsed] rs bounds(2) list_all2_lengthD [OF all] by simp
  have "\<forall>r \<in> set parsed. 1 \<le> fst r \<and> fst r \<le> snd r \<and> snd r < 1000000"
    using all by (induction rule: list_all2_induct) auto
  then have "nonempty_ranges parsed \<and> ranges_within parsed 999999"
    by (fastforce simp: nonempty_ranges_def ranges_within_def)
  then have "ranges_within rs 999999" using mergePageRanges_within rs by blast
  then show ?thesis using w l by (auto simp: ranges_within_def)
qed

lemma parsed_text_bounds:
  assumes "parsePageRangeText t pc = Inr rs" and "countSelectedPages rs < 1000000"
  shows "length rs \<le> 50 \<and> length (formatPageRanges rs) \<le> 200 \<and> (\<forall>r \<in> set rs. snd r < 1000000)"
proof (cases "js_trim (case t of None \<Rightarrow> [] | Some t \<Rightarrow> t) = []")
  case True
  then have rs: "rs = [(1, pc)]" and "1 \<le> pc"
    using assms(1) by (auto simp: parsePageRangeText_def Let_def split: if_splits)
  then have pc: "pc < 1000000" using assms(2) by (simp add: countSelectedPages_def)
  moreover have "length (show_nat 1) \<le> 1" by (rule length_show_nat_less) auto
  moreover have "length (show_nat (nat pc)) \<le> 6" by (rule length_show_nat_less) (use pc in auto)
  ultimately show ?thesis using \<open>1 \<le> pc\<close> by (simp add: rs formatPageRanges_def formatRange_def show_int_nonneg)
next
  case False
  then show ?thesis by (rule parsed_text_width [OF assms(1)])
qed

lemma parsed_text_reparses:
  assumes "parsePageRangeText t pc = Inr rs" and "countSelectedPages rs < 1000000"
  shows "parsePageRangeText (Some (formatPageRanges rs)) pc = Inr rs"
proof -
  have "is_safe_integer pc" using assms(1) by (auto simp: parsePageRangeText_def split: if_splits)
  moreover have "canonical rs" "ranges_within rs pc" "rs \<noteq> []" using parsePageRangeText_Inr [OF assms(1)] by auto
  ultimately show ?thesis using canonical_reparses parsed_text_bounds [OF assms] by blast
qed

text \<open>The input a revision stands for, as it is read back when the revision is priced.\<close>

definition selection_again :: "normalized_file_selection \<Rightarrow> file_selection_input" where
  "selection_again f =
     \<lparr>fi_fileId = nf_fileId f, fi_pageRanges = Some (nf_pageRangeText f), fi_copies = nf_copies f,
      fi_duplex = nf_duplex f, fi_orientation = nf_orientation f\<rparr>"

definition input_again :: "normalized_print_settings \<Rightarrow> print_settings_input" where
  "input_again ns =
     \<lparr>pi_fileOrder = map nf_fileId (np_files ns), pi_fileSelections = map selection_again (np_files ns),
      pi_paperSize = np_paperSize ns, pi_scaling = np_scaling ns, pi_collate = np_collate ns\<rparr>"

lemma normalizeFile_again:
  assumes "normalizeFile ctx input mc e = Inr f" and "nf_selectedPages f < 1000000"
    and "List.find (\<lambda>s. fi_fileId s = snd e) (pi_fileSelections again) = Some (selection_again f)"
  shows "normalizeFile ctx again mc e = Inr f"
proof -
  obtain fl where avail: "availableFiles (nc_files ctx) (snd e) = Some fl"
    using assms(1) by (auto simp: normalizeFile_def split: option.splits)
  obtain sel where sel: "List.find (\<lambda>s. fi_fileId s = snd e) (pi_fileSelections input) = Some sel"
    using assms(1) avail by (auto simp: normalizeFile_def split: option.splits)
  obtain rs where rs: "parsePageRangeText (fi_pageRanges sel) (sf_pageCount fl) = Inr rs"
    and "countSelectedPages rs = nf_selectedPages f"
    using assms(1) avail sel by (auto simp: normalizeFile_def assertSupported_def Let_def)
  then have "parsePageRangeText (Some (formatPageRanges rs)) (sf_pageCount fl) = Inr rs"
    using parsed_text_reparses assms(2) by simp
  then show ?thesis
    using assms(1,3) avail sel rs
    by (auto simp: normalizeFile_def assertSupported_def selection_again_def Let_def)
qed

lemma find_selection_again:
  "distinct (map nf_fileId fs) \<Longrightarrow> f \<in> set fs \<Longrightarrow>
   List.find (\<lambda>s. fi_fileId s = nf_fileId f) (map selection_again fs) = Some (selection_again f)"
  by (induction fs) (auto simp: selection_again_def)

lemma selected_pages_member:
  assumes "normalizePrintSettings input ctx = Inr ns" and "f \<in> set (np_files ns)"
  shows "nf_selectedPages f \<le> np_selectedPages ns"
proof -
  have "0 \<le> nf_selectedPages g" if "g \<in> set (np_files ns)" for g
    using normalized_files_ok [OF assms(1) that] by (simp add: file_settings_ok_def)
  then have "nf_selectedPages f \<le> sum_list (map nf_selectedPages (np_files ns))"
    using assms(2) by (intro member_le_sum_list) (auto)
  then show ?thesis using normalizePrintSettings_Inr(2) [OF assms(1)] by simp
qed

lemma normalized_again:
  assumes n: "normalizePrintSettings input ctx = Inr ns" and limit: "pl_maxSelectedPages (nc_limits ctx) < 1000000"
  shows "normalizePrintSettings (input_again ns) ctx = Inr ns"
proof -
  let ?mc = "min (pl_maxCopies (nc_limits ctx)) (pc_maxCopies (nc_capabilities ctx))"
  note ok = normalizePrintSettings_Inr [OF n]
  have ids: "map nf_fileId (np_files ns) = pi_fileOrder input" by (rule normalized_file_ids [OF n])
  have "normalizeFile ctx (input_again ns) ?mc e = Inr f"
    if e: "normalizeFile ctx input ?mc e = Inr f" and f: "f \<in> set (np_files ns)" for e f
  proof (rule normalizeFile_again [OF e])
    show "nf_selectedPages f < 1000000" using selected_pages_member [OF n f] ok(6) limit by simp
    have "nf_fileId f = snd e" using normalizeFile_Inr [OF e] by simp
    then show "List.find (\<lambda>s. fi_fileId s = snd e) (pi_fileSelections (input_again ns)) = Some (selection_again f)"
      using find_selection_again [of "np_files ns" f] f ok(8) ids by (simp add: input_again_def)
  qed
  then have "list_all2 (\<lambda>e f. normalizeFile ctx (input_again ns) ?mc e = Inr f)
      (List.enumerate 0 (pi_fileOrder input)) (np_files ns)"
    by (intro list.rel_mono_strong [OF ok(1)]) auto
  then have files: "map_result (normalizeFile ctx (input_again ns) ?mc)
      (List.enumerate 0 (pi_fileOrder input)) = Inr (np_files ns)"
    by (simp add: map_result_Inr)
  have order: "pi_fileOrder (input_again ns) = pi_fileOrder input" by (simp add: input_again_def ids)
  have sels: "length (pi_fileSelections (input_again ns)) = length (pi_fileOrder input)"
      "map fi_fileId (pi_fileSelections (input_again ns)) = pi_fileOrder input"
    by (simp_all add: input_again_def selection_again_def comp_def flip: ids)
  have rest: "pi_paperSize (input_again ns) = pi_paperSize input" "pi_scaling (input_again ns) = pi_scaling input"
      "pi_collate (input_again ns) = pi_collate input"
    using n by (auto simp: normalizePrintSettings_def input_again_def Let_def assertSupported_def)
  show ?thesis
    unfolding normalizePrintSettings_def Let_def order sels rest files
    using n by (auto simp: normalizePrintSettings_def Let_def assertSupported_def)
qed

text \<open>
  C28. The stored text of a page selection is its name: whatever a customer typed that the parser
  accepts (for less than a million pages), the stored text parses back to exactly the ranges it was
  made from, stays within the parser's own bounds, and is the text of every other way to choose the
  same pages.
\<close>

theorem page_range_text_roundtrip:
  assumes "parsePageRangeText t pc = Inr rs" and "countSelectedPages rs < 1000000"
    and "parsePageRangeText t' pc = Inr rs'" and "pagesOf rs' = pagesOf rs"
  shows "parsePageRangeText (Some (formatPageRanges rs)) pc = Inr rs \<and>
    formatPageRanges rs' = formatPageRanges rs \<and> length (formatPageRanges rs) \<le> MAX_PAGE_RANGE_TEXT_LENGTH"
proof -
  have "rs' = rs"
    using parsePageRangeText_Inr [OF assms(1)] parsePageRangeText_Inr [OF assms(3)] assms(4) canonical_unique by blast
  then show ?thesis
    using parsed_text_reparses [OF assms(1,2)] parsed_text_bounds [OF assms(1,2)]
    by (simp add: MAX_PAGE_RANGE_TEXT_LENGTH_def)
qed

theorem page_range_text_roundtrip_witness:
  "parsePageRangeText (Some (formatPageRanges [(1, 3), (7, 7)])) 9 = Inr [(1, 3), (7, 7)]"
proof -
  have p: "parsePageRangeText (Some '' 7,3, 1-2 '') 9 = Inr [(1, 3), (7, 7)]"
    "parsePageRangeText (Some ''1-3,7'') 9 = Inr [(1, 3), (7, 7)]" by code_simp+
  have c: "countSelectedPages [(1, 3), (7, 7)] < 1000000" by (simp add: countSelectedPages_def)
  show ?thesis using page_range_text_roundtrip [OF p(1) c p(2)] by simp
qed

text \<open>
  C29. A settings revision the normaliser accepts is printable and priceable: it lists
  the validated documents in the customer's order, every document prints a canonical,
  in-bounds selection with its copies, sides and orientation within what the device and the
  deployment allow, and the job totals are the sums of the documents' own sides and sheets,
  with sheets between half the sides and the sides, all within the limits.
\<close>

theorem normalized_settings_printable:
  assumes "normalizePrintSettings input ctx = Inr ns"
  shows "map nf_fileId (np_files ns) = pi_fileOrder input \<and>
    (\<forall>f \<in> set (np_files ns). file_settings_ok ctx f) \<and>
    np_printedSides ns = sum_list (map nf_printedSides (np_files ns)) \<and>
    np_physicalSheets ns = sum_list (map nf_physicalSheets (np_files ns)) \<and>
    1 \<le> np_physicalSheets ns \<and> np_physicalSheets ns \<le> np_printedSides ns \<and>
    np_printedSides ns \<le> 2 * np_physicalSheets ns \<and>
    np_printedSides ns \<le> pl_maxPrintedSides (nc_limits ctx) \<and>
    np_selectedPages ns \<le> pl_maxSelectedPages (nc_limits ctx)"
proof -
  note n = normalizePrintSettings_Inr [OF assms]
  have "\<forall>f \<in> set (np_files ns). 1 \<le> nf_physicalSheets f \<and> nf_physicalSheets f \<le> nf_printedSides f
      \<and> nf_printedSides f \<le> 2 * nf_physicalSheets f"
    using normalized_files_ok [OF assms] unfolding file_settings_ok_def by blast
  note b = sum_list_bounds [OF this]
  have "np_files ns \<noteq> []" using n(2,5) by auto
  then have "1 \<le> int (length (np_files ns))" by (cases "np_files ns") auto
  with b n normalized_file_ids [OF assms] normalized_files_ok [OF assms] show ?thesis by simp
qed

definition sample_settings_context :: normalize_context where
  "sample_settings_context =
     \<lparr>nc_files = [\<lparr>sf_id = ''f1'', sf_pageCount = 5, sf_processingRevision = 1,
                   sf_contentSha256 = ''aa''\<rparr>],
      nc_capabilities = \<lparr>pc_version = 3, pc_paperSizes = [A4], pc_colorModes = [MONOCHROME],
        pc_duplexModes = [SIMPLEX, LONG_EDGE], pc_scalingModes = [FIT],
        pc_orientations = [O_AUTO], pc_maxCopies = 10\<rparr>,
      nc_limits = \<lparr>pl_maxCopies = 20, pl_maxSelectedPages = 100, pl_maxPrintedSides = 200\<rparr>\<rparr>"

definition sample_settings_input :: print_settings_input where
  "sample_settings_input =
     \<lparr>pi_fileOrder = [''f1''],
      pi_fileSelections = [\<lparr>fi_fileId = ''f1'', fi_pageRanges = Some ''3, 1-2'', fi_copies = 2,
        fi_duplex = LONG_EDGE, fi_orientation = O_AUTO\<rparr>],
      pi_paperSize = A4, pi_scaling = FIT, pi_collate = True\<rparr>"

definition sample_settings :: normalized_print_settings where
  "sample_settings =
     \<lparr>np_paperSize = A4, np_scaling = FIT, np_collate = True, np_colorMode = MONOCHROME,
      np_capabilityVersion = 3,
      np_files = [\<lparr>nf_fileId = ''f1'', nf_position = 0, nf_pageCount = 5,
        nf_processingRevision = 1, nf_contentSha256 = ''aa'', nf_pageRanges = [(1, 3)],
        nf_pageRangeText = ''1-3'', nf_selectedPages = 3, nf_copies = 2, nf_duplex = LONG_EDGE,
        nf_orientation = O_AUTO, nf_printedSidesPerCopy = 3, nf_physicalSheetsPerCopy = 2,
        nf_printedSides = 6, nf_physicalSheets = 4\<rparr>],
      np_selectedPages = 3, np_printedSides = 6, np_physicalSheets = 4\<rparr>"

lemma sample_settings_normalized:
  "normalizePrintSettings sample_settings_input sample_settings_context = Inr sample_settings"
  by code_simp

theorem normalized_settings_printable_witness:
  "np_physicalSheets sample_settings = 4 \<and> np_physicalSheets sample_settings \<le> np_printedSides sample_settings"
proof -
  show ?thesis using normalized_settings_printable [OF sample_settings_normalized]
    by (simp add: sample_settings_def)
qed

end
