(* ===== verification/Pricing.thy ===== *)
theory Pricing
  imports Prelude
begin

text \<open>
  \<^verbatim>\<open>packages/pricing/src/index.ts\<close>: money as integer minor units. The model computes with
  exact integers; every product and every amount the code hands on is tested with
  \<open>Number.isSafeInteger\<close> first, and a sum of safe integers that leaves the safe range stays
  outside it in both arithmetics, so the tests decide alike. The rounding, tax and minimum
  modes are enumerations, so the membership tests of \<open>assertRuleSet\<close> on them always pass.

  The lemmas characterise the one rounded division, the chosen rule, and the total: what
  the customer pays is the subtotal, its tax and the minimum's adjustment, is at least the
  published minimum, and is never negative nor above the limit.
\<close>

section \<open>Rules, usage and breakdown\<close>

datatype rounding_mode = HALF_UP | HALF_EVEN | AWAY_FROM_ZERO | TOWARD_ZERO
datatype tax_mode = EXCLUSIVE
datatype minimum_application = BEFORE_TAX | AFTER_TAX

definition BASIS_POINT_SCALE :: int where
  "BASIS_POINT_SCALE = 10000"

definition MAX_QUOTE_AMOUNT_MINOR :: int where
  "MAX_QUOTE_AMOUNT_MINOR = 100000000"

record pricing_rule =
  pr_service :: string
  pr_paperSize :: string
  pr_colorMode :: string
  pr_unitAmountMinor :: int
  pr_duplexAdjustmentBasisPoints :: int
  pr_serviceFeeMinor :: int
  pr_minimumAmountMinor :: int
  pr_taxBasisPoints :: int
  pr_priority :: int

record pricing_rule_set =
  rs_id :: string
  rs_version :: string
  rs_currency :: string
  rs_currencyExponent :: int
  rs_rounding :: rounding_mode
  rs_taxMode :: tax_mode
  rs_minimumApplication :: minimum_application
  rs_rules :: "pricing_rule list"

record pricing_document_usage =
  du_duplex :: bool
  du_printedSides :: int

record pricing_usage =
  us_service :: string
  us_paperSize :: string
  us_colorMode :: string
  us_documents :: "pricing_document_usage list"
  us_selectedPages :: int
  us_printedSides :: int
  us_physicalSheets :: int

record quote_breakdown =
  qb_pricingVersion :: string
  qb_ruleSetId :: string
  qb_currency :: string
  qb_currencyExponent :: int
  qb_selectedPages :: int
  qb_printedSides :: int
  qb_physicalSheets :: int
  qb_printAmountMinor :: int
  qb_duplexAdjustmentMinor :: int
  qb_serviceFeeMinor :: int
  qb_minimumAdjustmentMinor :: int
  qb_subtotalMinor :: int
  qb_taxMinor :: int
  qb_totalMinor :: int

datatype pricing_code =
  PRICING_RULE_NOT_FOUND | PRICING_RULE_SET_INVALID | PRICING_USAGE_INVALID | PRICING_AMOUNT_LIMIT_EXCEEDED

datatype pricing_error = PricingError pricing_code details

section \<open>Operations\<close>

definition assertSafeInteger :: "int \<Rightarrow> string \<Rightarrow> pricing_error + unit" where
  "assertSafeInteger v name =
     require (is_safe_integer v) (PricingError PRICING_USAGE_INVALID [(name, DStr (show_int v))])"

definition assertWithinLimit :: "int \<Rightarrow> pricing_error + unit" where
  "assertWithinLimit amountMinor =
     require (is_safe_integer amountMinor \<and> amountMinor \<le> MAX_QUOTE_AMOUNT_MINOR)
       (PricingError PRICING_AMOUNT_LIMIT_EXCEEDED [(''amountMinor'', DNum amountMinor)])"

definition boundedProduct :: "int \<Rightarrow> int \<Rightarrow> pricing_error + int" where
  "boundedProduct left right =
     (let product = left * right in
      bind_result (require (is_safe_integer product)
          (PricingError PRICING_AMOUNT_LIMIT_EXCEEDED [(''left'', DNum left), (''right'', DNum right)]))
        (\<lambda>_. bind_result (assertWithinLimit product) (\<lambda>_. Inr product)))"

text \<open>The part of \<open>applyBasisPoints\<close> after its checks: one division, rounded once.\<close>

definition roundedDivision :: "int \<Rightarrow> rounding_mode \<Rightarrow> int" where
  "roundedDivision product rounding =
     (let sign = (if product < 0 then - 1 else 1);
          magnitude = \<bar>product\<bar>;
          quotient = magnitude div BASIS_POINT_SCALE;
          remainder = magnitude mod BASIS_POINT_SCALE;
          twiceRemainder = remainder * 2 in
      if remainder = 0 then sign * quotient
      else case rounding of
        TOWARD_ZERO \<Rightarrow> sign * quotient
      | AWAY_FROM_ZERO \<Rightarrow> sign * (quotient + 1)
      | HALF_UP \<Rightarrow> sign * (if BASIS_POINT_SCALE \<le> twiceRemainder then quotient + 1 else quotient)
      | HALF_EVEN \<Rightarrow>
          (if BASIS_POINT_SCALE < twiceRemainder then sign * (quotient + 1)
           else if twiceRemainder < BASIS_POINT_SCALE then sign * quotient
           else sign * (if quotient mod 2 = 0 then quotient else quotient + 1)))"

definition applyBasisPoints :: "int \<Rightarrow> int \<Rightarrow> rounding_mode \<Rightarrow> pricing_error + int" where
  "applyBasisPoints amountMinor basisPoints rounding =
     bind_result (assertSafeInteger amountMinor ''amountMinor'') (\<lambda>_.
     bind_result (assertSafeInteger basisPoints ''basisPoints'') (\<lambda>_.
     (let product = amountMinor * basisPoints in
      bind_result (require (is_safe_integer product)
          (PricingError PRICING_AMOUNT_LIMIT_EXCEEDED
            [(''amountMinor'', DNum amountMinor), (''basisPoints'', DNum basisPoints)]))
        (\<lambda>_. Inr (roundedDivision product rounding)))))"

definition matchingRules :: "pricing_rule_set \<Rightarrow> pricing_usage \<Rightarrow> pricing_rule list" where
  "matchingRules ruleSet usage =
     filter (\<lambda>r. pr_service r = us_service usage \<and> pr_paperSize r = us_paperSize usage \<and>
                 pr_colorMode r = us_colorMode usage) (rs_rules ruleSet)"

text \<open>\<open>Array.sort\<close> is stable, as \<open>sort_key\<close> is.\<close>

definition selectPricingRule :: "pricing_rule_set \<Rightarrow> pricing_usage \<Rightarrow> pricing_error + pricing_rule" where
  "selectPricingRule ruleSet usage =
     (case sort_key (\<lambda>r. - pr_priority r) (matchingRules ruleSet usage) of
        [] \<Rightarrow> Inl (PricingError PRICING_RULE_NOT_FOUND
               [(''service'', DStr (us_service usage)), (''paperSize'', DStr (us_paperSize usage)),
                (''colorMode'', DStr (us_colorMode usage))])
      | selected # _ \<Rightarrow> Inr selected)"

definition is_currency :: "string \<Rightarrow> bool" where
  "is_currency s \<longleftrightarrow> length s = 3 \<and> (\<forall>c \<in> set s. 65 \<le> code c \<and> code c \<le> 90)"

definition assertRuleSet :: "pricing_rule_set \<Rightarrow> pricing_error + unit" where
  "assertRuleSet ruleSet =
     bind_result (require (is_currency (rs_currency ruleSet))
       (PricingError PRICING_RULE_SET_INVALID [(''currency'', DStr (rs_currency ruleSet))])) (\<lambda>_.
     require (is_safe_integer (rs_currencyExponent ruleSet) \<and> 0 \<le> rs_currencyExponent ruleSet)
       (PricingError PRICING_RULE_SET_INVALID [(''currencyExponent'', DNum (rs_currencyExponent ruleSet))]))"

text \<open>The loops \<open>for (const [name, value] of ...)\<close> that test each value against a bound.\<close>

fun assertAtLeast :: "pricing_code \<Rightarrow> int \<Rightarrow> (string \<times> int) list \<Rightarrow> pricing_error + unit" where
  "assertAtLeast c bound [] = Inr ()"
| "assertAtLeast c bound ((name, v) # rest) =
     bind_result (require (is_safe_integer v \<and> bound \<le> v) (PricingError c [(name, DNum v)]))
       (\<lambda>_. assertAtLeast c bound rest)"

definition assertRule :: "pricing_rule \<Rightarrow> pricing_error + unit" where
  "assertRule rule =
     bind_result (assertAtLeast PRICING_RULE_SET_INVALID 0
       [(''unitAmountMinor'', pr_unitAmountMinor rule), (''serviceFeeMinor'', pr_serviceFeeMinor rule),
        (''minimumAmountMinor'', pr_minimumAmountMinor rule), (''taxBasisPoints'', pr_taxBasisPoints rule)])
     (\<lambda>_. require
       (is_safe_integer (pr_duplexAdjustmentBasisPoints rule) \<and>
        - BASIS_POINT_SCALE \<le> pr_duplexAdjustmentBasisPoints rule \<and>
        pr_duplexAdjustmentBasisPoints rule \<le> BASIS_POINT_SCALE)
       (PricingError PRICING_RULE_SET_INVALID
         [(''duplexAdjustmentBasisPoints'', DNum (pr_duplexAdjustmentBasisPoints rule))]))"

definition assertUsage :: "pricing_usage \<Rightarrow> pricing_error + unit" where
  "assertUsage usage =
     bind_result (assertAtLeast PRICING_USAGE_INVALID 1
       [(''selectedPages'', us_selectedPages usage), (''printedSides'', us_printedSides usage),
        (''physicalSheets'', us_physicalSheets usage)]) (\<lambda>_.
     bind_result (require (us_physicalSheets usage \<le> us_printedSides usage)
       (PricingError PRICING_USAGE_INVALID
         [(''printedSides'', DNum (us_printedSides usage)),
          (''physicalSheets'', DNum (us_physicalSheets usage))])) (\<lambda>_.
     bind_result (require (us_documents usage \<noteq> [])
       (PricingError PRICING_USAGE_INVALID [(''documents'', DNum 0)])) (\<lambda>_.
     bind_result (assertAtLeast PRICING_USAGE_INVALID 1
       (map (\<lambda>d. (''printedSides'', du_printedSides d)) (us_documents usage))) (\<lambda>_.
     (let documentSides = sum_list (map du_printedSides (us_documents usage)) in
      require (documentSides = us_printedSides usage)
        (PricingError PRICING_USAGE_INVALID
          [(''printedSides'', DNum (us_printedSides usage)), (''documentSides'', DNum documentSides)]))))))"

text \<open>The callback of \<open>documents.reduce\<close>, and the reduction from 0.\<close>

fun duplexAdjustment ::
  "pricing_rule \<Rightarrow> rounding_mode \<Rightarrow> int \<Rightarrow> pricing_document_usage list \<Rightarrow> pricing_error + int" where
  "duplexAdjustment rule rounding acc [] = Inr acc"
| "duplexAdjustment rule rounding acc (d # ds) =
     (if \<not> du_duplex d then duplexAdjustment rule rounding acc ds
      else bind_result (boundedProduct (du_printedSides d) (pr_unitAmountMinor rule)) (\<lambda>amount.
        bind_result (applyBasisPoints amount (pr_duplexAdjustmentBasisPoints rule) rounding) (\<lambda>adj.
        duplexAdjustment rule rounding (acc + adj) ds)))"

definition calculateQuote :: "pricing_rule_set \<Rightarrow> pricing_usage \<Rightarrow> pricing_error + quote_breakdown" where
  "calculateQuote ruleSet usage =
     bind_result (assertRuleSet ruleSet) (\<lambda>_.
     bind_result (assertUsage usage) (\<lambda>_.
     bind_result (selectPricingRule ruleSet usage) (\<lambda>rule.
     bind_result (assertRule rule) (\<lambda>_.
     bind_result (boundedProduct (us_printedSides usage) (pr_unitAmountMinor rule)) (\<lambda>printAmount.
     bind_result (duplexAdjustment rule (rs_rounding ruleSet) 0 (us_documents usage)) (\<lambda>duplexAdj.
     (let adjusted = printAmount + duplexAdj + pr_serviceFeeMinor rule;
          floored = max adjusted 0;
          beforeTaxFirst = (rs_minimumApplication ruleSet = BEFORE_TAX);
          beforeTax = (if beforeTaxFirst then max floored (pr_minimumAmountMinor rule) else floored) in
      bind_result (applyBasisPoints beforeTax (pr_taxBasisPoints rule) (rs_rounding ruleSet)) (\<lambda>tax.
      (let gross = beforeTax + tax;
           total = (if beforeTaxFirst then gross else max gross (pr_minimumAmountMinor rule));
           minimumAdj = (if beforeTaxFirst then beforeTax - floored else total - gross) in
       bind_result (assertWithinLimit total) (\<lambda>_.
       Inr \<lparr>qb_pricingVersion = rs_version ruleSet, qb_ruleSetId = rs_id ruleSet,
            qb_currency = rs_currency ruleSet, qb_currencyExponent = rs_currencyExponent ruleSet,
            qb_selectedPages = us_selectedPages usage, qb_printedSides = us_printedSides usage,
            qb_physicalSheets = us_physicalSheets usage, qb_printAmountMinor = printAmount,
            qb_duplexAdjustmentMinor = duplexAdj, qb_serviceFeeMinor = pr_serviceFeeMinor rule,
            qb_minimumAdjustmentMinor = minimumAdj, qb_subtotalMinor = beforeTax,
            qb_taxMinor = tax, qb_totalMinor = total\<rparr>))))))))))"

section \<open>Rounding\<close>

lemma roundedDivision_quotient:
  "\<bar>roundedDivision p m\<bar> = \<bar>p\<bar> div BASIS_POINT_SCALE \<or>
   \<bar>roundedDivision p m\<bar> = \<bar>p\<bar> div BASIS_POINT_SCALE + 1 \<and> \<bar>p\<bar> mod BASIS_POINT_SCALE \<noteq> 0"
proof -
  define q where "q = \<bar>p\<bar> div BASIS_POINT_SCALE"
  have "0 \<le> q" by (simp add: q_def BASIS_POINT_SCALE_def)
  then have sgn: "\<bar>(if p < 0 then - 1 else 1) * q\<bar> = q" "\<bar>(if p < 0 then - 1 else 1) * (q + 1)\<bar> = q + 1"
    by auto
  have "roundedDivision p m = (if p < 0 then - 1 else 1) * q \<or>
    roundedDivision p m = (if p < 0 then - 1 else 1) * (q + 1) \<and> \<bar>p\<bar> mod BASIS_POINT_SCALE \<noteq> 0"
    unfolding roundedDivision_def Let_def q_def by (simp split: rounding_mode.split)
  then show ?thesis unfolding q_def [symmetric] by (elim disjE conjE) (simp_all only: sgn, simp_all)
qed

lemma roundedDivision_minus: "roundedDivision (- p) m = - roundedDivision p m"
proof (cases "p = 0")
  case True
  then show ?thesis by (simp add: roundedDivision_def)
next
  case False
  then show ?thesis by (cases m) (auto simp: roundedDivision_def Let_def)
qed

lemma roundedDivision_nonneg: "0 \<le> p \<Longrightarrow> 0 \<le> roundedDivision p m"
  by (cases m) (auto simp: roundedDivision_def Let_def BASIS_POINT_SCALE_def)

lemma roundedDivision_within:
  assumes "\<bar>p\<bar> \<le> BASIS_POINT_SCALE * n"
  shows "\<bar>roundedDivision p m\<bar> \<le> n"
proof -
  define q r where "q = \<bar>p\<bar> div 10000" and "r = \<bar>p\<bar> mod 10000"
  have "\<bar>p\<bar> = 10000 * q + r" and r: "0 \<le> r" "r < 10000" by (simp_all add: q_def r_def)
  then have n: "10000 * q + r \<le> 10000 * n" using assms by (simp add: BASIS_POINT_SCALE_def)
  consider "\<bar>roundedDivision p m\<bar> = q" | "\<bar>roundedDivision p m\<bar> = q + 1" "r \<noteq> 0"
    using roundedDivision_quotient [of p m] by (auto simp: q_def r_def BASIS_POINT_SCALE_def)
  then show ?thesis by cases (use n r in linarith)+
qed

lemma roundedDivision_error_pos:
  assumes "0 \<le> p"
  shows "\<bar>BASIS_POINT_SCALE * roundedDivision p m - p\<bar> < BASIS_POINT_SCALE"
    and "m = HALF_UP \<or> m = HALF_EVEN \<Longrightarrow> 2 * \<bar>BASIS_POINT_SCALE * roundedDivision p m - p\<bar> \<le> BASIS_POINT_SCALE"
    and "BASIS_POINT_SCALE * roundedDivision p TOWARD_ZERO \<le> p"
    and "p \<le> BASIS_POINT_SCALE * roundedDivision p AWAY_FROM_ZERO"
    and "2 * \<bar>BASIS_POINT_SCALE * roundedDivision p HALF_EVEN - p\<bar> = BASIS_POINT_SCALE \<Longrightarrow>
      even (roundedDivision p HALF_EVEN)"
proof -
  define q r where "q = p div 10000" and "r = p mod 10000"
  have p: "p = 10000 * q + r" and r: "0 \<le> r" "r < 10000" by (simp_all add: q_def r_def)
  have *: "\<bar>p\<bar> div 10000 = q" "\<bar>p\<bar> mod 10000 = r" "\<not> p < 0"
    using assms by (simp_all add: q_def r_def)
  note defs = roundedDivision_def Let_def BASIS_POINT_SCALE_def *
  show "\<bar>BASIS_POINT_SCALE * roundedDivision p m - p\<bar> < BASIS_POINT_SCALE"
    using r by (cases m) (simp_all add: defs, simp_all add: p)
  show "2 * \<bar>BASIS_POINT_SCALE * roundedDivision p m - p\<bar> \<le> BASIS_POINT_SCALE"
    if "m = HALF_UP \<or> m = HALF_EVEN"
    using r that by (cases m) (simp_all add: defs, simp_all add: p)
  show "BASIS_POINT_SCALE * roundedDivision p TOWARD_ZERO \<le> p"
    using r by (simp add: defs, simp add: p)
  show "p \<le> BASIS_POINT_SCALE * roundedDivision p AWAY_FROM_ZERO"
    using r by (simp add: defs, simp add: p)
  have tie: "roundedDivision p HALF_EVEN =
      (if r = 0 then q else if 10000 < r * 2 then q + 1 else if r * 2 < 10000 then q
       else if q mod 2 = 0 then q else q + 1)"
    by (simp add: defs)
  show "even (roundedDivision p HALF_EVEN)"
    if "2 * \<bar>BASIS_POINT_SCALE * roundedDivision p HALF_EVEN - p\<bar> = BASIS_POINT_SCALE"
  proof -
    have "r * 2 = 10000"
    proof (rule ccontr)
      assume "r * 2 \<noteq> 10000"
      moreover have "2 * \<bar>10000 * roundedDivision p HALF_EVEN - (10000 * q + r)\<bar> = 10000"
        using that p by (simp add: BASIS_POINT_SCALE_def)
      ultimately show False using r unfolding tie by (auto split: if_splits)
    qed
    then show ?thesis unfolding tie by (cases "even q") (simp_all add: even_iff_mod_2_eq_zero [symmetric] odd_iff_mod_2_eq_one [symmetric])
  qed
qed

lemma roundedDivision_error:
  shows "\<bar>BASIS_POINT_SCALE * roundedDivision p m - p\<bar> < BASIS_POINT_SCALE"
    and "m = HALF_UP \<or> m = HALF_EVEN \<Longrightarrow> 2 * \<bar>BASIS_POINT_SCALE * roundedDivision p m - p\<bar> \<le> BASIS_POINT_SCALE"
    and "BASIS_POINT_SCALE * \<bar>roundedDivision p TOWARD_ZERO\<bar> \<le> \<bar>p\<bar>"
    and "\<bar>p\<bar> \<le> BASIS_POINT_SCALE * \<bar>roundedDivision p AWAY_FROM_ZERO\<bar>"
    and "2 * \<bar>BASIS_POINT_SCALE * roundedDivision p HALF_EVEN - p\<bar> = BASIS_POINT_SCALE \<Longrightarrow>
      even (roundedDivision p HALF_EVEN)"
proof -
  have flip: "\<bar>BASIS_POINT_SCALE * roundedDivision \<bar>p\<bar> m - \<bar>p\<bar>\<bar> = \<bar>BASIS_POINT_SCALE * roundedDivision p m - p\<bar>"
    "\<bar>roundedDivision \<bar>p\<bar> m\<bar> = \<bar>roundedDivision p m\<bar>" for m
    using roundedDivision_minus [of p m] by (cases "0 \<le> p"; simp)+
  note pos = roundedDivision_error_pos [of "\<bar>p\<bar>", simplified, unfolded flip]
  note nonneg = roundedDivision_nonneg [of "\<bar>p\<bar>", simplified]
  show "\<bar>BASIS_POINT_SCALE * roundedDivision p m - p\<bar> < BASIS_POINT_SCALE" by (rule pos(1))
  show "2 * \<bar>BASIS_POINT_SCALE * roundedDivision p m - p\<bar> \<le> BASIS_POINT_SCALE"
    if "m = HALF_UP \<or> m = HALF_EVEN" using pos(2) [OF that] .
  show "BASIS_POINT_SCALE * \<bar>roundedDivision p TOWARD_ZERO\<bar> \<le> \<bar>p\<bar>"
    using pos(3) nonneg [of TOWARD_ZERO] flip(2) [of TOWARD_ZERO] by simp
  show "\<bar>p\<bar> \<le> BASIS_POINT_SCALE * \<bar>roundedDivision p AWAY_FROM_ZERO\<bar>"
    using pos(4) nonneg [of AWAY_FROM_ZERO] flip(2) [of AWAY_FROM_ZERO] by simp
  show "even (roundedDivision p HALF_EVEN)"
    if "2 * \<bar>BASIS_POINT_SCALE * roundedDivision p HALF_EVEN - p\<bar> = BASIS_POINT_SCALE"
    using pos(5) [OF that] flip(2) [of HALF_EVEN] by (metis even_abs_add_iff add_0 abs_0 dvd_abs_iff)
qed

lemma applyBasisPoints_Inr:
  "applyBasisPoints amount bps mode = Inr r \<Longrightarrow>
    is_safe_integer amount \<and> is_safe_integer bps \<and> is_safe_integer (amount * bps) \<and>
    r = roundedDivision (amount * bps) mode"
  by (auto simp: applyBasisPoints_def assertSafeInteger_def Let_def)

lemma is_safe_integer_minus [simp]: "is_safe_integer (- n) = is_safe_integer n"
  by (auto simp: is_safe_integer_def)

lemma applyBasisPoints_minus:
  "applyBasisPoints amount bps mode = Inr r \<Longrightarrow> applyBasisPoints (- amount) bps mode = Inr (- r)"
  by (frule applyBasisPoints_Inr)
    (simp add: applyBasisPoints_def assertSafeInteger_def Let_def require_def roundedDivision_minus)

text \<open>
  A percentage is rounded once and by its stated rule: the result is an exact multiple
  of the product up to less than one minor unit, by at most half a unit for the half modes,
  towards zero or away from it as named, with ties going to the even unit under HALF_EVEN,
  and a credit is rounded as the negative of the charge.
\<close>

theorem basis_points_rounding:
  assumes "applyBasisPoints amount bps mode = Inr r"
  shows "\<bar>BASIS_POINT_SCALE * r - amount * bps\<bar> < BASIS_POINT_SCALE \<and>
    (mode = HALF_UP \<or> mode = HALF_EVEN \<longrightarrow> 2 * \<bar>BASIS_POINT_SCALE * r - amount * bps\<bar> \<le> BASIS_POINT_SCALE) \<and>
    (mode = TOWARD_ZERO \<longrightarrow> BASIS_POINT_SCALE * \<bar>r\<bar> \<le> \<bar>amount * bps\<bar>) \<and>
    (mode = AWAY_FROM_ZERO \<longrightarrow> \<bar>amount * bps\<bar> \<le> BASIS_POINT_SCALE * \<bar>r\<bar>) \<and>
    (mode = HALF_EVEN \<and> 2 * \<bar>BASIS_POINT_SCALE * r - amount * bps\<bar> = BASIS_POINT_SCALE \<longrightarrow> even r) \<and>
    applyBasisPoints (- amount) bps mode = Inr (- r)"
proof -
  have r: "r = roundedDivision (amount * bps) mode" using applyBasisPoints_Inr [OF assms] by blast
  note e = roundedDivision_error [where p = "amount * bps"]
  have "mode = HALF_UP \<or> mode = HALF_EVEN \<longrightarrow> 2 * \<bar>BASIS_POINT_SCALE * r - amount * bps\<bar> \<le> BASIS_POINT_SCALE"
    unfolding r by (rule impI, rule e(2))
  moreover have "mode = TOWARD_ZERO \<longrightarrow> BASIS_POINT_SCALE * \<bar>r\<bar> \<le> \<bar>amount * bps\<bar>"
    unfolding r by (rule impI) (simp only: e(3))
  moreover have "mode = AWAY_FROM_ZERO \<longrightarrow> \<bar>amount * bps\<bar> \<le> BASIS_POINT_SCALE * \<bar>r\<bar>"
    unfolding r by (rule impI) (simp only: e(4))
  moreover have "mode = HALF_EVEN \<and> 2 * \<bar>BASIS_POINT_SCALE * r - amount * bps\<bar> = BASIS_POINT_SCALE \<longrightarrow> even r"
    unfolding r by (rule impI, elim conjE, hypsubst, rule e(5))
  ultimately show ?thesis
    using e(1) [where m = mode, folded r] applyBasisPoints_minus [OF assms] by (intro conjI)
qed

theorem basis_points_rounding_witness:
  "applyBasisPoints (- 25) 1000 HALF_EVEN = Inr (- 2) \<and> \<bar>BASIS_POINT_SCALE * - 2 - - 25 * 1000\<bar> < BASIS_POINT_SCALE"
proof -
  have "applyBasisPoints (- 25) 1000 HALF_EVEN = Inr (- 2)"
    by (simp add: applyBasisPoints_def assertSafeInteger_def is_safe_integer_def max_safe_integer_def
        Let_def roundedDivision_def BASIS_POINT_SCALE_def)
  with basis_points_rounding [OF this] show ?thesis by blast
qed

section \<open>The chosen rule\<close>

lemma sort_key_head:
  assumes "sort_key f xs = y # ys"
  shows "y \<in> set xs" and "\<forall>x \<in> set xs. f y \<le> f x"
    and "List.find (\<lambda>x. f x = f y) xs = Some y"
proof -
  have s: "set xs = insert y (set ys)" using assms by (metis list.simps(15) set_sort)
  then show "y \<in> set xs" by simp
  have "sorted (map f (y # ys))" using sorted_sort_key [of f xs] assms by simp
  then show "\<forall>x \<in> set xs. f y \<le> f x" using s by auto
  have "filter (\<lambda>x. f x = f y) (sort_key f xs) = filter (\<lambda>x. f x = f y) xs"
    using filter_sort [of "\<lambda>x. f x = f y" f xs] by (metis (mono_tags, lifting) filter_cong sort_key_stable)
  then have "\<exists>zs. filter (\<lambda>x. f x = f y) xs = y # zs" by (auto simp: assms dest: sym)
  then show "List.find (\<lambda>x. f x = f y) xs = Some y"
    by (auto dest: find_filter_head)
qed

text \<open>
  The tariff rule that prices a job is the first published one of the highest priority
  among those for its service, paper and colour, and pricing reports that no rule was found
  exactly when none matches.
\<close>

theorem selected_rule_is_first_of_highest_priority:
  "case selectPricingRule ruleSet usage of
     Inl e \<Rightarrow> matchingRules ruleSet usage = [] \<and> (\<exists>d. e = PricingError PRICING_RULE_NOT_FOUND d)
   | Inr rule \<Rightarrow>
       rule \<in> set (matchingRules ruleSet usage) \<and>
       (\<forall>r \<in> set (matchingRules ruleSet usage). pr_priority r \<le> pr_priority rule) \<and>
       List.find (\<lambda>r. pr_priority r = pr_priority rule) (matchingRules ruleSet usage) = Some rule"
proof (cases "sort_key (\<lambda>r. - pr_priority r) (matchingRules ruleSet usage)")
  case Nil
  then have "matchingRules ruleSet usage = []" by (metis length_0_conv length_sort)
  with Nil show ?thesis by (simp add: selectPricingRule_def)
next
  case (Cons rule rest)
  with sort_key_head [OF Cons] show ?thesis by (simp add: selectPricingRule_def)
qed

section \<open>The quote\<close>

definition duplexSides :: "pricing_document_usage list \<Rightarrow> int" where
  "duplexSides ds = sum_list (map du_printedSides (filter du_duplex ds))"

lemma assertAtLeast_Inr [simp]:
  "assertAtLeast c b xs = Inr u \<longleftrightarrow> (\<forall>x \<in> set xs. is_safe_integer (snd x) \<and> b \<le> snd x)"
  by (induction c b xs rule: assertAtLeast.induct) auto

lemma boundedProduct_Inr [simp]:
  "boundedProduct a b = Inr p \<longleftrightarrow> is_safe_integer (a * b) \<and> a * b \<le> MAX_QUOTE_AMOUNT_MINOR \<and> p = a * b"
  by (auto simp: boundedProduct_def assertWithinLimit_def Let_def)

lemma duplexAdjustment_bounds:
  assumes "duplexAdjustment rule mode acc ds = Inr adj"
    and "\<forall>d \<in> set ds. 1 \<le> du_printedSides d" and "0 \<le> pr_unitAmountMinor rule"
    and "\<bar>pr_duplexAdjustmentBasisPoints rule\<bar> \<le> BASIS_POINT_SCALE"
  shows "\<bar>adj - acc\<bar> \<le> duplexSides ds * pr_unitAmountMinor rule"
  using assms
proof (induction ds arbitrary: acc)
  case Nil
  then show ?case by (simp add: duplexSides_def)
next
  case (Cons d ds)
  show ?case
  proof (cases "du_duplex d")
    case False
    with Cons.prems show ?thesis using Cons.IH [of acc] by (simp add: duplexSides_def)
  next
    case True
    let ?a = "du_printedSides d * pr_unitAmountMinor rule"
    from Cons.prems True obtain r where
      r: "applyBasisPoints ?a (pr_duplexAdjustmentBasisPoints rule) mode = Inr r"
      and rest: "duplexAdjustment rule mode (acc + r) ds = Inr adj"
      by auto
    have a: "0 \<le> ?a" using Cons.prems by simp
    have "\<bar>x * y\<bar> = \<bar>y\<bar> * x" if "0 \<le> x" for x y :: int using that by (simp add: abs_mult)
    from this [OF a] have "\<bar>?a * pr_duplexAdjustmentBasisPoints rule\<bar> \<le> BASIS_POINT_SCALE * ?a"
      using mult_right_mono [OF Cons.prems(4), of ?a] a by simp
    then have "\<bar>r\<bar> \<le> ?a" using applyBasisPoints_Inr [OF r] roundedDivision_within by blast
    moreover have "\<bar>adj - (acc + r)\<bar> \<le> duplexSides ds * pr_unitAmountMinor rule"
      using Cons.IH [OF rest] Cons.prems by simp
    ultimately show ?thesis using True by (simp add: duplexSides_def algebra_simps)
  qed
qed

lemma duplexSides_le:
  "\<forall>d \<in> set ds. 1 \<le> du_printedSides d \<Longrightarrow> duplexSides ds \<le> sum_list (map du_printedSides ds)"
  by (induction ds) (auto simp: duplexSides_def)

lemma calculateQuote_Inr:
  assumes "calculateQuote ruleSet usage = Inr q"
  obtains rule where "selectPricingRule ruleSet usage = Inr rule" and "assertRule rule = Inr ()"
    and "assertUsage usage = Inr ()"
    and "qb_printAmountMinor q = us_printedSides usage * pr_unitAmountMinor rule"
    and "duplexAdjustment rule (rs_rounding ruleSet) 0 (us_documents usage) = Inr (qb_duplexAdjustmentMinor q)"
    and "qb_serviceFeeMinor q = pr_serviceFeeMinor rule"
    and "applyBasisPoints (qb_subtotalMinor q) (pr_taxBasisPoints rule) (rs_rounding ruleSet) = Inr (qb_taxMinor q)"
    and "qb_totalMinor q \<le> MAX_QUOTE_AMOUNT_MINOR"
    and "let floored = max (qb_printAmountMinor q + qb_duplexAdjustmentMinor q + qb_serviceFeeMinor q) 0 in
      if rs_minimumApplication ruleSet = BEFORE_TAX
      then qb_subtotalMinor q = max floored (pr_minimumAmountMinor rule)
        \<and> qb_minimumAdjustmentMinor q = qb_subtotalMinor q - floored
        \<and> qb_totalMinor q = qb_subtotalMinor q + qb_taxMinor q
      else qb_subtotalMinor q = floored
        \<and> qb_totalMinor q = max (qb_subtotalMinor q + qb_taxMinor q) (pr_minimumAmountMinor rule)
        \<and> qb_minimumAdjustmentMinor q = qb_totalMinor q - (qb_subtotalMinor q + qb_taxMinor q)"
proof -
  from assms obtain rule where r: "selectPricingRule ruleSet usage = Inr rule" "assertRule rule = Inr ()"
    "assertUsage usage = Inr ()"
    unfolding calculateQuote_def bind_result_Inr by auto
  note q = assms [unfolded calculateQuote_def r bind_result_simps, unfolded bind_result_Inr Let_def]
  show thesis
    using q by (elim exE conjE, unfold sum.inject, hypsubst, intro that [OF r])
      (simp_all add: assertWithinLimit_def Let_def)
qed

lemma quote_amounts:
  assumes "calculateQuote ruleSet usage = Inr q"
  obtains rule where "selectPricingRule ruleSet usage = Inr rule"
    and "qb_printAmountMinor q = us_printedSides usage * pr_unitAmountMinor rule"
    and "\<bar>qb_duplexAdjustmentMinor q\<bar> \<le> duplexSides (us_documents usage) * pr_unitAmountMinor rule"
    and "0 \<le> qb_printAmountMinor q + qb_duplexAdjustmentMinor q" and "0 \<le> qb_serviceFeeMinor q"
    and "0 \<le> qb_taxMinor q" and "0 \<le> qb_minimumAdjustmentMinor q"
    and "pr_minimumAmountMinor rule \<le> qb_totalMinor q"
    and "qb_totalMinor q = qb_printAmountMinor q + qb_duplexAdjustmentMinor q + qb_serviceFeeMinor q
      + qb_minimumAdjustmentMinor q + qb_taxMinor q"
    and "qb_totalMinor q \<le> MAX_QUOTE_AMOUNT_MINOR"
proof -
  obtain rule where sel: "selectPricingRule ruleSet usage = Inr rule" and ar: "assertRule rule = Inr ()"
    and au: "assertUsage usage = Inr ()"
    and print: "qb_printAmountMinor q = us_printedSides usage * pr_unitAmountMinor rule"
    and adj: "duplexAdjustment rule (rs_rounding ruleSet) 0 (us_documents usage) = Inr (qb_duplexAdjustmentMinor q)"
    and fee: "qb_serviceFeeMinor q = pr_serviceFeeMinor rule"
    and tax: "applyBasisPoints (qb_subtotalMinor q) (pr_taxBasisPoints rule) (rs_rounding ruleSet) = Inr (qb_taxMinor q)"
    and limit: "qb_totalMinor q \<le> MAX_QUOTE_AMOUNT_MINOR"
    and sums: "let floored = max (qb_printAmountMinor q + qb_duplexAdjustmentMinor q + qb_serviceFeeMinor q) 0 in
      if rs_minimumApplication ruleSet = BEFORE_TAX
      then qb_subtotalMinor q = max floored (pr_minimumAmountMinor rule)
        \<and> qb_minimumAdjustmentMinor q = qb_subtotalMinor q - floored
        \<and> qb_totalMinor q = qb_subtotalMinor q + qb_taxMinor q
      else qb_subtotalMinor q = floored
        \<and> qb_totalMinor q = max (qb_subtotalMinor q + qb_taxMinor q) (pr_minimumAmountMinor rule)
        \<and> qb_minimumAdjustmentMinor q = qb_totalMinor q - (qb_subtotalMinor q + qb_taxMinor q)"
    by (rule calculateQuote_Inr [OF assms])
  have unit: "0 \<le> pr_unitAmountMinor rule" "0 \<le> pr_taxBasisPoints rule" "0 \<le> pr_serviceFeeMinor rule"
    and bps: "\<bar>pr_duplexAdjustmentBasisPoints rule\<bar> \<le> BASIS_POINT_SCALE"
    using ar by (auto simp: assertRule_def)
  have sides: "\<forall>d \<in> set (us_documents usage). 1 \<le> du_printedSides d"
    "sum_list (map du_printedSides (us_documents usage)) = us_printedSides usage"
    using au by (auto simp: assertUsage_def Let_def)
  have d: "\<bar>qb_duplexAdjustmentMinor q\<bar> \<le> duplexSides (us_documents usage) * pr_unitAmountMinor rule"
    using duplexAdjustment_bounds [OF adj sides(1) unit(1) bps] by simp
  also have "\<dots> \<le> qb_printAmountMinor q"
    using duplexSides_le [OF sides(1)] sides(2) unit(1) by (simp add: print mult_right_mono)
  finally have nonneg: "0 \<le> qb_printAmountMinor q + qb_duplexAdjustmentMinor q" by simp
  have "0 \<le> qb_subtotalMinor q" using sums by (auto simp: Let_def split: if_splits)
  then have t: "0 \<le> qb_taxMinor q"
    using applyBasisPoints_Inr [OF tax] unit(2) roundedDivision_nonneg by simp
  show thesis
  proof (rule that [OF sel print d nonneg _ t _ _ _ limit])
    show "0 \<le> qb_serviceFeeMinor q" using unit fee by simp
    then have fl: "max (qb_printAmountMinor q + qb_duplexAdjustmentMinor q + qb_serviceFeeMinor q) 0 =
        qb_printAmountMinor q + qb_duplexAdjustmentMinor q + qb_serviceFeeMinor q" using nonneg by simp
    show "0 \<le> qb_minimumAdjustmentMinor q" "pr_minimumAmountMinor rule \<le> qb_totalMinor q"
      "qb_totalMinor q = qb_printAmountMinor q + qb_duplexAdjustmentMinor q + qb_serviceFeeMinor q
        + qb_minimumAdjustmentMinor q + qb_taxMinor q"
      using sums t unfolding fl Let_def by (auto split: if_splits)
  qed
qed

text \<open>
  C30. What the customer is charged adds up: the total is exactly the print charge, the
  duplex adjustment, the service fee, the minimum's top-up and the tax. The floor at zero
  never hides a loss, because the adjustment is at most the charge of the double-sided
  documents; the total reaches the published minimum and stays within the quote limit.
\<close>

theorem quote_total_adds_up:
  assumes "calculateQuote ruleSet usage = Inr q"
  shows "qb_totalMinor q = qb_printAmountMinor q + qb_duplexAdjustmentMinor q + qb_serviceFeeMinor q
      + qb_minimumAdjustmentMinor q + qb_taxMinor q \<and>
    0 \<le> qb_printAmountMinor q + qb_duplexAdjustmentMinor q \<and> 0 \<le> qb_taxMinor q \<and>
    0 \<le> qb_minimumAdjustmentMinor q \<and> 0 \<le> qb_totalMinor q \<and> qb_totalMinor q \<le> MAX_QUOTE_AMOUNT_MINOR \<and>
    (\<exists>rule \<in> set (matchingRules ruleSet usage).
       pr_minimumAmountMinor rule \<le> qb_totalMinor q \<and>
       qb_printAmountMinor q = us_printedSides usage * pr_unitAmountMinor rule \<and>
       \<bar>qb_duplexAdjustmentMinor q\<bar> \<le> duplexSides (us_documents usage) * pr_unitAmountMinor rule)"
proof (rule quote_amounts [OF assms])
  fix rule
  assume "selectPricingRule ruleSet usage = Inr rule"
  then have "rule \<in> set (matchingRules ruleSet usage)"
    by (auto simp: selectPricingRule_def split: list.splits dest: sort_key_head(1))
  moreover assume "qb_printAmountMinor q = us_printedSides usage * pr_unitAmountMinor rule"
    "\<bar>qb_duplexAdjustmentMinor q\<bar> \<le> duplexSides (us_documents usage) * pr_unitAmountMinor rule"
    "0 \<le> qb_printAmountMinor q + qb_duplexAdjustmentMinor q" "0 \<le> qb_serviceFeeMinor q"
    "0 \<le> qb_taxMinor q" "0 \<le> qb_minimumAdjustmentMinor q" "pr_minimumAmountMinor rule \<le> qb_totalMinor q"
    "qb_totalMinor q = qb_printAmountMinor q + qb_duplexAdjustmentMinor q + qb_serviceFeeMinor q
      + qb_minimumAdjustmentMinor q + qb_taxMinor q" "qb_totalMinor q \<le> MAX_QUOTE_AMOUNT_MINOR"
  ultimately show ?thesis by (intro conjI bexI [of _ rule]) linarith+
qed

definition sample_rule_set :: pricing_rule_set where
  "sample_rule_set =
     \<lparr>rs_id = ''r'', rs_version = ''v1'', rs_currency = ''PKR'', rs_currencyExponent = 2,
      rs_rounding = HALF_UP, rs_taxMode = EXCLUSIVE, rs_minimumApplication = AFTER_TAX,
      rs_rules = [\<lparr>pr_service = ''PRINT'', pr_paperSize = ''A4'', pr_colorMode = ''MONOCHROME'',
        pr_unitAmountMinor = 1500, pr_duplexAdjustmentBasisPoints = - 1000, pr_serviceFeeMinor = 500,
        pr_minimumAmountMinor = 2000, pr_taxBasisPoints = 1600, pr_priority = 1\<rparr>]\<rparr>"

definition sample_usage :: pricing_usage where
  "sample_usage =
     \<lparr>us_service = ''PRINT'', us_paperSize = ''A4'', us_colorMode = ''MONOCHROME'',
      us_documents = [\<lparr>du_duplex = True, du_printedSides = 6\<rparr>, \<lparr>du_duplex = False, du_printedSides = 1\<rparr>],
      us_selectedPages = 7, us_printedSides = 7, us_physicalSheets = 4\<rparr>"

definition sample_quote :: quote_breakdown where
  "sample_quote =
     \<lparr>qb_pricingVersion = ''v1'', qb_ruleSetId = ''r'', qb_currency = ''PKR'', qb_currencyExponent = 2,
      qb_selectedPages = 7, qb_printedSides = 7, qb_physicalSheets = 4, qb_printAmountMinor = 10500,
      qb_duplexAdjustmentMinor = - 900, qb_serviceFeeMinor = 500, qb_minimumAdjustmentMinor = 0,
      qb_subtotalMinor = 10100, qb_taxMinor = 1616, qb_totalMinor = 11716\<rparr>"

lemma sample_quoted: "calculateQuote sample_rule_set sample_usage = Inr sample_quote"
  by code_simp

theorem selected_rule_is_first_of_highest_priority_witness:
  "List.find (\<lambda>r. pr_priority r = 1) (matchingRules sample_rule_set sample_usage) =
    Some (hd (rs_rules sample_rule_set))"
proof -
  have "selectPricingRule sample_rule_set sample_usage = Inr (hd (rs_rules sample_rule_set))"
    by code_simp
  moreover have "pr_priority (hd (rs_rules sample_rule_set)) = 1" by (simp add: sample_rule_set_def)
  ultimately show ?thesis
    using selected_rule_is_first_of_highest_priority [of sample_rule_set sample_usage] by simp
qed

theorem quote_total_adds_up_witness:
  "qb_totalMinor sample_quote = 11716 \<and> qb_totalMinor sample_quote \<le> MAX_QUOTE_AMOUNT_MINOR"
  using quote_total_adds_up [OF sample_quoted] by (simp add: sample_quote_def)

end
