(* ===== verification/Json.thy ===== *)
theory Json
  imports Print_Settings "HOL-Library.List_Lexorder" "HOL-Library.Multiset"
begin

text \<open>
  The key-sorted JSON that the control plane hashes: \<open>buildSettingsManifest\<close>,
  \<open>canonicalManifestJson\<close> and \<open>canonicalJson\<close> of
  \<^verbatim>\<open>packages/domain/src/print-settings.ts\<close>, and its copy in
  \<^verbatim>\<open>packages/printer-adapters/src/types.ts\<close>. A JSON value holds integers (every number of
  a manifest is one, below the size where JavaScript prints exponents) and no
  \<open>undefined\<close> entry. Strings compare by code unit, as the library's order on lists of
  characters does.

  The lemmas show that the text does not depend on how an object was built, and that two
  values with the same text are the same up to the order of their keys: the hash of the text
  binds everything that was priced.
\<close>

section \<open>JSON text\<close>

datatype json =
    JNull | JBool bool | JNum int | JStr string | JArr "json list" | JObj "(string \<times> json) list"

definition hex_digit :: "nat \<Rightarrow> char" where
  "hex_digit n = (if n < 10 then digit_char n else char_of (87 + n))"

text \<open>\<open>JSON.stringify\<close> of a string: the short escapes, \<open>\u00xx\<close> for other controls.\<close>

definition escape_char :: "char \<Rightarrow> string" where
  "escape_char c =
     (if c = CHR 0x22 then [CHR 0x5C, CHR 0x22]
      else if c = CHR 0x5C then [CHR 0x5C, CHR 0x5C]
      else if code c = 8 then [CHR 0x5C, CHR ''b'']
      else if code c = 9 then [CHR 0x5C, CHR ''t'']
      else if code c = 10 then [CHR 0x5C, CHR ''n'']
      else if code c = 12 then [CHR 0x5C, CHR ''f'']
      else if code c = 13 then [CHR 0x5C, CHR ''r'']
      else if code c < 32
      then [CHR 0x5C, CHR ''u'', CHR ''0'', CHR ''0'', hex_digit (code c div 16), hex_digit (code c mod 16)]
      else [c])"

definition quote_json :: "string \<Rightarrow> string" where
  "quote_json s = CHR 0x22 # concat (map escape_char s) @ [CHR 0x22]"

definition render_entry :: "string \<times> string \<Rightarrow> string" where
  "render_entry e = quote_json (fst e) @ CHR '':'' # snd e"

text \<open>
  The entries are rendered and then sorted by key, which is the code's sort by key (it is
  stable and looks at the keys only) followed by rendering.
\<close>

primrec canonicalJson :: "json \<Rightarrow> string" where
  "canonicalJson JNull = ''null''"
| "canonicalJson (JBool b) = (if b then ''true'' else ''false'')"
| "canonicalJson (JNum n) = show_int n"
| "canonicalJson (JStr s) = quote_json s"
| "canonicalJson (JArr vs) = CHR ''['' # join_with (CHR '','') (map canonicalJson vs) @ '']''"
| "canonicalJson (JObj es) =
     CHR ''{'' # join_with (CHR '','')
       (map render_entry (sort_key fst (map (map_prod id canonicalJson) es))) @ ''}''"

subsection \<open>The settings manifest\<close>

definition SETTINGS_MANIFEST_VERSION :: int where
  "SETTINGS_MANIFEST_VERSION = 3"

fun duplex_name :: "duplex_mode \<Rightarrow> string" where
  "duplex_name SIMPLEX = ''SIMPLEX''"
| "duplex_name LONG_EDGE = ''LONG_EDGE''"
| "duplex_name SHORT_EDGE = ''SHORT_EDGE''"

fun orientation_name :: "orientation \<Rightarrow> string" where
  "orientation_name O_AUTO = ''AUTO''"
| "orientation_name O_PORTRAIT = ''PORTRAIT''"
| "orientation_name O_LANDSCAPE = ''LANDSCAPE''"

fun scaling_name :: "scaling_mode \<Rightarrow> string" where
  "scaling_name FIT = ''FIT''"
| "scaling_name ACTUAL_SIZE = ''ACTUAL_SIZE''"

fun paper_name :: "paper_size \<Rightarrow> string" where
  "paper_name A4 = ''A4''"

fun color_name :: "color_mode \<Rightarrow> string" where
  "color_name MONOCHROME = ''MONOCHROME''"

definition manifestFile :: "normalized_file_selection \<Rightarrow> json" where
  "manifestFile f =
     JObj [(''fileId'', JStr (nf_fileId f)), (''position'', JNum (nf_position f)),
       (''processingRevision'', JNum (nf_processingRevision f)),
       (''contentSha256'', JStr (nf_contentSha256 f)), (''pageCount'', JNum (nf_pageCount f)),
       (''pageRanges'', JArr (map (\<lambda>r. JArr [JNum (fst r), JNum (snd r)]) (nf_pageRanges f))),
       (''selectedPages'', JNum (nf_selectedPages f)), (''copies'', JNum (nf_copies f)),
       (''duplex'', JStr (duplex_name (nf_duplex f))),
       (''orientation'', JStr (orientation_name (nf_orientation f)))]"

definition buildSettingsManifest :: "normalized_print_settings \<Rightarrow> json" where
  "buildSettingsManifest settings =
     JObj [(''manifestVersion'', JNum SETTINGS_MANIFEST_VERSION),
       (''colorMode'', JStr (color_name (np_colorMode settings))),
       (''paperSize'', JStr (paper_name (np_paperSize settings))),
       (''scaling'', JStr (scaling_name (np_scaling settings))),
       (''collate'', JBool (np_collate settings)),
       (''capabilityVersion'', JNum (np_capabilityVersion settings)),
       (''files'', JArr (map manifestFile (np_files settings)))]"

definition canonicalManifestJson :: "normalized_print_settings \<Rightarrow> string" where
  "canonicalManifestJson settings = canonicalJson (buildSettingsManifest settings)"

section \<open>Values up to key order\<close>

primrec sort_keys :: "json \<Rightarrow> json" where
  "sort_keys JNull = JNull"
| "sort_keys (JBool b) = JBool b"
| "sort_keys (JNum n) = JNum n"
| "sort_keys (JStr s) = JStr s"
| "sort_keys (JArr vs) = JArr (map sort_keys vs)"
| "sort_keys (JObj es) = JObj (sort_key fst (map (map_prod id sort_keys) es))"

lemma insort_key_map_prod:
  "insort_key fst (map_prod id f x) (map (map_prod id f) xs) = map (map_prod id f) (insort_key fst x xs)"
  by (induction xs) auto

lemma sort_key_map_prod: "sort_key fst (map (map_prod id f) es) = map (map_prod id f) (sort_key fst es)"
  by (induction es) (simp_all add: insort_key_map_prod [unfolded id_def])

lemma sort_key_idem [simp]: "sort_key f (sort_key f xs) = sort_key f xs"
  by (simp add: sort_key_id_if_sorted)

lemma canonicalJson_sort_keys [simp]: "canonicalJson (sort_keys v) = canonicalJson v"
proof (induction v)
  case (JArr vs)
  then show ?case by (simp cong: map_cong)
next
  case (JObj es)
  have "map (map_prod id canonicalJson) (map (map_prod id sort_keys) xs) = map (map_prod id canonicalJson) xs"
    if "set xs \<subseteq> set es" for xs
    using that JObj by (force simp: map_prod_def split: prod.splits)
  from this [of "sort_key fst es"] show ?case
    by (simp add: sort_key_map_prod del: map_map)
qed simp_all

section \<open>The text determines the value\<close>

lemma hex_digit_inj:
  assumes "hex_digit m = hex_digit n" and "m < 16" and "n < 16"
  shows "m = n"
proof -
  have "code (hex_digit k) = (if k < 10 then 48 + k else 87 + k)" if "k < 16" for k
    using that by (simp add: hex_digit_def code_digit_char) (simp add: code_def)
  from this [OF assms(2)] this [OF assms(3)] assms(1)
  have "(if m < 10 then 48 + m else 87 + m) = (if n < 10 then 48 + n else 87 + n)" by simp
  then show ?thesis by (simp split: if_splits)
qed

lemma code_inj: "code c = code d \<Longrightarrow> c = d"
  by (simp add: code_def)

lemma code_CHR: "code (CHR 0x22) = 34" "code (CHR 0x5C) = 92"
  by (simp_all add: code_def)

lemma control_codes:
  assumes "code c < 32" and "code d < 32" and "hex_digit (code c div 16) = hex_digit (code d div 16)"
    and "hex_digit (code c mod 16) = hex_digit (code d mod 16)"
  shows "c = d"
proof -
  have "code c div 16 = code d div 16" "code c mod 16 = code d mod 16"
    using hex_digit_inj assms by force+
  then show ?thesis by (metis code_inj div_mod_decomp)
qed

definition short_escape :: "char \<Rightarrow> char option" where
  "short_escape c =
     (if c = CHR 0x22 then Some (CHR 0x22) else if c = CHR 0x5C then Some (CHR 0x5C)
      else if code c = 8 then Some (CHR ''b'') else if code c = 9 then Some (CHR ''t'')
      else if code c = 10 then Some (CHR ''n'') else if code c = 12 then Some (CHR ''f'')
      else if code c = 13 then Some (CHR ''r'') else None)"

lemma escape_char_cases:
  "escape_char c =
    (case short_escape c of
       Some e \<Rightarrow> [CHR 0x5C, e]
     | None \<Rightarrow> if code c < 32
         then [CHR 0x5C, CHR ''u'', CHR ''0'', CHR ''0'', hex_digit (code c div 16), hex_digit (code c mod 16)]
         else [c])"
  by (simp add: escape_char_def short_escape_def)

lemma short_escape_inj: "short_escape c = Some e \<Longrightarrow> short_escape d = Some e \<Longrightarrow> c = d"
  by (auto simp: short_escape_def split: if_splits intro: code_inj)

lemma short_escape_not_u: "short_escape c \<noteq> Some (CHR ''u'')"
  by (simp add: short_escape_def)

lemma short_escape_backslash: "short_escape (CHR 0x5C) \<noteq> None"
  by (simp add: short_escape_def)

lemma escape_char_append:
  assumes "escape_char c @ r = escape_char d @ s"
  shows "c = d \<and> r = s"
proof (cases "short_escape c"; cases "short_escape d")
  assume "short_escape c = None" "short_escape d = None"
  moreover from this have "c \<noteq> CHR 0x5C" "d \<noteq> CHR 0x5C" using short_escape_backslash by auto
  ultimately show ?thesis
    using assms control_codes [of c d] by (simp add: escape_char_cases split: if_splits)
next
  fix e assume "short_escape c = None" "short_escape d = Some e"
  then show ?thesis
    using assms short_escape_not_u [of d] short_escape_backslash by (auto simp: escape_char_cases split: if_splits)
next
  fix e assume "short_escape c = Some e" "short_escape d = None"
  then show ?thesis
    using assms short_escape_not_u [of c] short_escape_backslash by (auto simp: escape_char_cases split: if_splits)
next
  fix e e' assume "short_escape c = Some e" "short_escape d = Some e'"
  then show ?thesis using assms short_escape_inj by (simp add: escape_char_cases)
qed

lemma escape_char_not_quote: "escape_char c @ r \<noteq> CHR 0x22 # s"
  by (auto simp: escape_char_def code_def split: if_splits)

lemma escapes_append:
  "concat (map escape_char a) @ CHR 0x22 # r = concat (map escape_char b) @ CHR 0x22 # s \<Longrightarrow> a = b \<and> r = s"
proof (induction a arbitrary: b)
  case Nil
  then show ?case
  proof (cases b)
    case (Cons d b')
    with Nil have "escape_char d @ (concat (map escape_char b') @ CHR 0x22 # s) = CHR 0x22 # r" by simp
    then show ?thesis using escape_char_not_quote by blast
  qed simp
next
  case (Cons c a)
  have "escape_char c @ (concat (map escape_char a) @ CHR 0x22 # r) \<noteq> CHR 0x22 # s"
    by (rule escape_char_not_quote)
  with Cons.prems obtain d b' where b: "b = d # b'" by (cases b) simp_all
  from Cons.prems have "escape_char c @ (concat (map escape_char a) @ CHR 0x22 # r) =
      escape_char d @ (concat (map escape_char b') @ CHR 0x22 # s)" by (simp add: b)
  from escape_char_append [OF this] Cons.IH show ?case by (simp add: b)
qed

lemma quote_json_append: "quote_json a @ r = quote_json b @ s \<Longrightarrow> a = b \<and> r = s"
  by (rule escapes_append) (simp add: quote_json_def)

text \<open>What may follow a value: nothing, or a character that no value continues with.\<close>

definition delimited :: "string \<Rightarrow> bool" where
  "delimited r \<longleftrightarrow> r = [] \<or> hd r \<in> set '',]}''"

lemma delimited_simps [simp]:
  "delimited []" "delimited (CHR '','' # r)" "delimited (CHR '']'' # r)" "delimited (CHR ''}'' # r)"
  by (simp_all add: delimited_def)

lemma delimited_not_digit: "delimited (c # r) \<Longrightarrow> \<not> is_digit c"
  by (auto simp: delimited_def is_digit_def code_def)

lemma takeWhile_digits:
  assumes "\<forall>c \<in> set ds. is_digit c" and "delimited r"
  shows "takeWhile is_digit (ds @ r) = ds"
proof -
  have "takeWhile is_digit r = []"
    using assms(2) delimited_not_digit by (cases r) auto
  with assms(1) show ?thesis by (simp add: takeWhile_append)
qed

lemma show_nat_append:
  assumes "show_nat m @ r = show_nat n @ s" and "delimited r" and "delimited s"
  shows "m = n \<and> r = s"
proof -
  have "show_nat m = show_nat n"
    using takeWhile_digits [of "show_nat m" r] takeWhile_digits [of "show_nat n" s] assms
    by (simp add: show_nat_digits)
  then show ?thesis using assms(1) by (metis read_digits_show_nat same_append_eq)
qed

lemma show_nat_hd: "show_nat n @ r \<noteq> CHR ''-'' # s"
  using show_nat_digits [of "CHR ''-''" n] show_nat_not_Nil [of n]
  by (cases "show_nat n") auto

lemma show_int_append:
  assumes "show_int m @ r = show_int n @ s" and "delimited r" and "delimited s"
  shows "m = n \<and> r = s"
proof (cases "m < 0 \<longleftrightarrow> n < 0")
  case True
  then have "show_nat (nat \<bar>m\<bar>) @ r = show_nat (nat \<bar>n\<bar>) @ s"
    using assms(1) by (cases "m < 0") (simp_all add: show_int_def)
  from show_nat_append [OF this assms(2,3)] True show ?thesis by (cases "m < 0") auto
next
  case False
  with assms(1) have "show_nat (nat m) @ r = CHR ''-'' # (show_nat (nat (- n)) @ s) \<or>
      show_nat (nat n) @ s = CHR ''-'' # (show_nat (nat (- m)) @ r)"
    by (cases "m < 0") (simp_all add: show_int_def)
  then show ?thesis using show_nat_hd by blast
qed

text \<open>Lists of rendered items, separated by commas and closed by a bracket.\<close>

lemma join_with_Cons: "join_with sep (w # ws) = w @ (if ws = [] then [] else sep # join_with sep ws)"
  by (cases ws) simp_all

lemma joined_items:
  assumes "\<And>x y r s. x \<in> set xs \<Longrightarrow> f x @ r = f y @ s \<Longrightarrow> delimited r \<Longrightarrow> delimited s \<Longrightarrow> g x = g y \<and> r = s"
    and "\<And>x r s. f x @ r \<noteq> e # s"
    and "join_with (CHR '','') (map f xs) @ e # r = join_with (CHR '','') (map f ys) @ e # s"
    and "e \<in> set '']}''"
  shows "map g xs = map g ys \<and> r = s"
  using assms(1,3)
proof (induction xs arbitrary: ys)
  case Nil
  have "ys = []"
  proof (rule ccontr)
    assume "ys \<noteq> []"
    then obtain y ys' where "ys = y # ys'" by (cases ys) auto
    with Nil.prems(2) have "f y @ ((if ys' = [] then [] else CHR '','' # join_with (CHR '','') (map f ys')) @ e # s)
        = e # r" by (simp add: join_with_Cons split: if_splits)
    with assms(2) show False by blast
  qed
  with Nil.prems(2) show ?case by simp
next
  case (Cons x xs)
  let ?rest = "\<lambda>zs t. (if zs = [] then e # t else CHR '','' # join_with (CHR '','') (map f zs) @ e # t)"
  have "ys \<noteq> []"
  proof
    assume "ys = []"
    with Cons.prems(2) have "f x @ ?rest xs r = e # s" by (simp add: join_with_Cons split: if_splits)
    with assms(2) show False by blast
  qed
  then obtain y ys' where ys: "ys = y # ys'" by (cases ys) auto
  have d: "delimited (?rest zs t)" for zs t using assms(4) by auto
  from Cons.prems(2) have "f x @ ?rest xs r = f y @ ?rest ys' s"
    by (simp add: ys join_with_Cons split: if_splits)
  from Cons.prems(1) [OF _ this d d] have gx: "g x = g y" and rest: "?rest xs r = ?rest ys' s" by auto
  have "e \<noteq> CHR '',''" using assms(4) by auto
  with rest have "join_with (CHR '','') (map f xs) @ e # r = join_with (CHR '','') (map f ys') @ e # s"
    by (auto split: if_splits)
  then have "map g xs = map g ys' \<and> r = s"
    by (rule Cons.IH [rotated]) (rule Cons.prems(1), simp_all)
  with gx show ?case by (simp add: ys)
qed

fun first_char :: "json \<Rightarrow> char" where
  "first_char JNull = CHR ''n''"
| "first_char (JBool b) = (if b then CHR ''t'' else CHR ''f'')"
| "first_char (JNum n) = hd (show_int n)"
| "first_char (JStr s) = CHR 0x22"
| "first_char (JArr vs) = CHR ''[''"
| "first_char (JObj es) = CHR ''{''"

lemma show_int_not_Nil [simp]: "show_int n \<noteq> []"
  by (simp add: show_int_def)

lemma canonicalJson_hd: "\<exists>t. canonicalJson v = first_char v # t"
proof (cases v)
  case (JNum n)
  then show ?thesis by (cases "show_int n") auto
qed (auto simp: quote_json_def)

lemma show_int_hd: "hd (show_int n) = CHR ''-'' \<or> is_digit (hd (show_int n))"
proof (cases "show_nat (nat n)")
  case (Cons c t)
  then have "is_digit c" using show_nat_digits [of c "nat n"] by simp
  with Cons show ?thesis by (simp add: show_int_def)
qed simp

lemma number_start: "hd (show_int n) \<notin> set ''ntf[{]}'' \<and> hd (show_int n) \<noteq> CHR 0x22"
  using show_int_hd [of n] by (auto simp: is_digit_def code_def)

lemma same_first_char:
  assumes "canonicalJson a @ r = canonicalJson b @ s"
  shows "first_char a = first_char b"
  using canonicalJson_hd [of a] canonicalJson_hd [of b] assms by auto

lemma first_char_not_bracket: "first_char v \<notin> set '']}''"
  using number_start by (cases v) auto

lemma canonicalJson_not_bracket: "e \<in> set '']}'' \<Longrightarrow> canonicalJson v @ r \<noteq> e # s"
  using canonicalJson_hd [of v] first_char_not_bracket [of v] by auto

lemma render_entry_not_bracket: "e \<in> set '']}'' \<Longrightarrow> render_entry x @ r \<noteq> e # s"
  by (auto simp: render_entry_def quote_json_def)

lemma canonicalJson_append:
  "canonicalJson a @ r = canonicalJson b @ s \<Longrightarrow> delimited r \<Longrightarrow> delimited s \<Longrightarrow>
    sort_keys a = sort_keys b \<and> r = s"
proof (induction a arbitrary: b r s)
  case JNull
  with same_first_char [OF JNull(1)] number_start show ?case
    by (cases b) (auto simp: quote_json_def split: if_splits)
next
  case (JBool x)
  with same_first_char [OF JBool(1)] number_start show ?case
    by (cases b) (auto simp: quote_json_def split: if_splits)
next
  case (JNum n)
  with same_first_char [OF JNum(1)] number_start [of n] obtain m where "b = JNum m"
    by (cases b) (auto split: if_splits)
  with JNum show_int_append [of n r m s] show ?case by simp
next
  case (JStr x)
  with same_first_char [OF JStr(1)] number_start obtain y where "b = JStr y"
    by (cases b) (auto split: if_splits)
  with JStr quote_json_append [of x r y s] show ?case by simp
next
  case (JArr vs)
  with same_first_char [OF JArr(2)] number_start obtain ws where b: "b = JArr ws"
    by (cases b) (auto split: if_splits)
  have "map sort_keys vs = map sort_keys ws \<and> r = s"
  proof (rule joined_items [where f = canonicalJson and e = "CHR '']''"])
    show "join_with (CHR '','') (map canonicalJson vs) @ CHR '']'' # r =
        join_with (CHR '','') (map canonicalJson ws) @ CHR '']'' # s"
      using JArr(2) by (simp add: b)
    show "sort_keys x = sort_keys y \<and> r' = s'"
      if "x \<in> set vs" "canonicalJson x @ r' = canonicalJson y @ s'" "delimited r'" "delimited s'" for x y r' s'
      using JArr(1) that .
  qed (rule canonicalJson_not_bracket, simp_all)
  then show ?case by (simp add: b)
next
  case (JObj es)
  with same_first_char [OF JObj(2)] number_start obtain fs where b: "b = JObj fs"
    by (cases b) (auto split: if_splits)
  let ?f = "\<lambda>e. render_entry (map_prod id canonicalJson e)"
  have item: "map_prod id sort_keys x = map_prod id sort_keys y \<and> r' = s'"
    if x: "x \<in> set (sort_key fst es)" and eq: "?f x @ r' = ?f y @ s'" and d: "delimited r'" "delimited s'"
    for x y r' s'
  proof -
    obtain k v k' v' where xy: "x = (k, v)" "y = (k', v')" by (cases x; cases y)
    from eq have "quote_json k @ (CHR '':'' # canonicalJson v @ r') = quote_json k' @ (CHR '':'' # canonicalJson v' @ s')"
      by (simp add: xy render_entry_def)
    from quote_json_append [OF this] have k: "k = k'" and v: "canonicalJson v @ r' = canonicalJson v' @ s'" by auto
    have "v \<in> Basic_BNFs.snds x" by (simp add: xy prod_set_simps)
    from JObj(1) [OF _ this v d] x k show ?thesis by (simp add: xy)
  qed
  have "map (map_prod id sort_keys) (sort_key fst es) = map (map_prod id sort_keys) (sort_key fst fs) \<and> r = s"
  proof (rule joined_items [where f = ?f and e = "CHR ''}''"])
    show "join_with (CHR '','') (map ?f (sort_key fst es)) @ CHR ''}'' # r =
        join_with (CHR '','') (map ?f (sort_key fst fs)) @ CHR ''}'' # s"
      using JObj(2) by (simp add: b sort_key_map_prod comp_def)
  qed (rule item, assumption+, rule render_entry_not_bracket, simp_all)
  then show ?case by (simp add: b sort_key_map_prod)
qed

lemma canonicalJson_inj: "canonicalJson a = canonicalJson b \<Longrightarrow> sort_keys a = sort_keys b"
  using canonicalJson_append [of a "[]" b "[]"] by simp

lemma sort_key_permute:
  assumes "set xs = set ys" and "distinct (map f xs)" and "distinct (map f ys)"
  shows "sort_key f xs = sort_key f ys"
proof -
  have "distinct xs" "distinct ys" using assms(2,3) by (auto simp: distinct_map)
  then have "mset xs = mset ys" using assms(1) by (simp add: set_eq_iff_mset_eq_distinct)
  moreover have "inj_on f (set xs)" using assms(2) by (simp add: distinct_map)
  ultimately show ?thesis
    using sort_key_inj_key_eq [of xs "sort_key f ys" f] by simp
qed

text \<open>
  The canonical text identifies a JSON value: building an object with its entries in
  another order gives the same text at every level, and two values with the same text are
  the same up to such reordering, so no two different manifests share a hash input.
\<close>

theorem canonical_text_identifies_value:
  "canonicalJson a = canonicalJson b \<longleftrightarrow> sort_keys a = sort_keys b"
  by (metis canonicalJson_inj canonicalJson_sort_keys)

lemma map_of_map_prod_id: "map_of (map (map_prod id f) xs) k = map_option f (map_of xs k)"
  by (induction xs) auto

lemma sort_keys_field:
  assumes "sort_keys (JObj es) = sort_keys (JObj fs)" and "distinct (map fst es)" and "distinct (map fst fs)"
  shows "map_option sort_keys (map_of es k) = map_option sort_keys (map_of fs k)"
proof -
  have "set (map (map_prod id sort_keys) es) = set (map (map_prod id sort_keys) fs)"
    using arg_cong [OF assms(1) [unfolded sort_keys.simps json.inject], of set] by (simp only: set_sort)
  then have "map_of (map (map_prod id sort_keys) es) = map_of (map (map_prod id sort_keys) fs)"
    using assms(2,3) by (subst map_of_inject_set) simp_all
  from fun_cong [OF this, of k] show ?thesis by (simp only: map_of_map_prod_id)
qed

text \<open>What a settings manifest says: everything but what follows from it.\<close>

definition file_view :: "normalized_file_selection \<Rightarrow>
    string \<times> int \<times> int \<times> string \<times> int \<times> page_range list \<times> int \<times> int \<times> duplex_mode \<times> orientation" where
  "file_view f =
     (nf_fileId f, nf_position f, nf_processingRevision f, nf_contentSha256 f, nf_pageCount f,
      nf_pageRanges f, nf_selectedPages f, nf_copies f, nf_duplex f, nf_orientation f)"

definition manifest_view where
  "manifest_view s =
     (np_colorMode s, np_paperSize s, np_scaling s, np_collate s, np_capabilityVersion s,
      map file_view (np_files s))"

lemma duplex_name_inj [simp]: "duplex_name d = duplex_name d' \<longleftrightarrow> d = d'"
  by (cases d; cases d') simp_all

lemma orientation_name_inj [simp]: "orientation_name d = orientation_name d' \<longleftrightarrow> d = d'"
  by (cases d; cases d') simp_all

lemma scaling_name_inj [simp]: "scaling_name d = scaling_name d' \<longleftrightarrow> d = d'"
  by (cases d; cases d') simp_all

lemma only_color [simp]: "color_name c = ''MONOCHROME''" "paper_name p = ''A4''"
  by (cases c, simp) (cases p, simp)

lemma single_valued_names [simp]: "(d :: color_mode) = d'" "(p :: paper_size) = p'"
  by (cases d; cases d', simp) (cases p; cases p', simp)

lemma sort_keys_ranges [simp]:
  "map (sort_keys \<circ> (\<lambda>r. JArr [JNum (fst r), JNum (snd r)])) xs = map (\<lambda>r. JArr [JNum (fst r), JNum (snd r)]) xs"
  by simp

lemma ranges_json_inj [simp]:
  "map (\<lambda>r. JArr [JNum (fst r), JNum (snd r)]) xs = map (\<lambda>r. JArr [JNum (fst r), JNum (snd r)]) ys \<longleftrightarrow> xs = ys"
  by (rule inj_map_eq_map) (auto simp: inj_def prod_eq_iff)

lemma manifestFile_inj:
  assumes "sort_keys (manifestFile f) = sort_keys (manifestFile g)"
  shows "nf_fileId f = nf_fileId g \<and> nf_position f = nf_position g \<and>
    nf_processingRevision f = nf_processingRevision g \<and> nf_contentSha256 f = nf_contentSha256 g \<and>
    nf_pageCount f = nf_pageCount g \<and> nf_pageRanges f = nf_pageRanges g \<and>
    nf_selectedPages f = nf_selectedPages g \<and> nf_copies f = nf_copies g \<and>
    nf_duplex f = nf_duplex g \<and> nf_orientation f = nf_orientation g"
proof -
  note field = sort_keys_field [OF assms [unfolded manifestFile_def], simplified]
  show ?thesis
    using field [of "''fileId''"] field [of "''position''"] field [of "''processingRevision''"]
      field [of "''contentSha256''"] field [of "''pageCount''"] field [of "''pageRanges''"]
      field [of "''selectedPages''"] field [of "''copies''"] field [of "''duplex''"] field [of "''orientation''"]
    by simp
qed

lemma buildSettingsManifest_inj:
  assumes "sort_keys (buildSettingsManifest s) = sort_keys (buildSettingsManifest t)"
  shows "np_scaling s = np_scaling t \<and> np_collate s = np_collate t \<and>
    np_capabilityVersion s = np_capabilityVersion t \<and>
    map (sort_keys \<circ> manifestFile) (np_files s) = map (sort_keys \<circ> manifestFile) (np_files t)"
proof -
  note field = sort_keys_field [OF assms [unfolded buildSettingsManifest_def], simplified]
  show ?thesis
    using field [of "''scaling''"] field [of "''collate''"] field [of "''capabilityVersion''"]
      field [of "''files''"] by simp
qed

text \<open>
  The settings manifest binds the print: two settings revisions have the same canonical
  manifest text, which is what a quote and a payment store the hash of, exactly when they
  print the same documents, bytes, pages, copies, sides and orientations in the same order
  on the same paper with the same capability version.
\<close>

theorem manifest_text_binds_settings:
  "canonicalManifestJson s = canonicalManifestJson t \<longleftrightarrow> manifest_view s = manifest_view t"
proof
  assume "canonicalManifestJson s = canonicalManifestJson t"
  then have "sort_keys (buildSettingsManifest s) = sort_keys (buildSettingsManifest t)"
    unfolding canonicalManifestJson_def by (rule canonicalJson_inj)
  note eq = buildSettingsManifest_inj [OF this]
  from eq have "map (sort_keys \<circ> manifestFile) (np_files s) = map (sort_keys \<circ> manifestFile) (np_files t)"
    by blast
  then have "map file_view (np_files s) = map file_view (np_files t)"
  proof (rule map_eq_transfer)
    show "file_view x = file_view y" if "(sort_keys \<circ> manifestFile) x = (sort_keys \<circ> manifestFile) y" for x y
      using manifestFile_inj [OF that [unfolded comp_def]] by (simp add: file_view_def)
  qed
  with eq show "manifest_view s = manifest_view t" unfolding manifest_view_def by simp
next
  assume eq: "manifest_view s = manifest_view t"
  then have "map file_view (np_files s) = map file_view (np_files t)" by (simp add: manifest_view_def)
  then have "map manifestFile (np_files s) = map manifestFile (np_files t)"
    by (rule map_eq_transfer) (simp add: file_view_def manifestFile_def)
  with eq have "buildSettingsManifest s = buildSettingsManifest t"
    unfolding manifest_view_def buildSettingsManifest_def by simp
  then show "canonicalManifestJson s = canonicalManifestJson t"
    by (simp only: canonicalManifestJson_def)
qed

end
