(* ===== verification/Print_Submission.thy ===== *)
theory Print_Submission
  imports Print_Outcome
begin

text \<open>
  The boundary to a printing device: the job manifest, the submission and the adapter
  errors of \<^verbatim>\<open>packages/printer-adapters/src/types.ts\<close>, and \<open>assertSubmittable\<close> of
  \<^verbatim>\<open>submission.ts\<close>, the last check before bytes leave for hardware. Its lemmas say exactly
  which submissions pass: the artifacts are the manifest's documents, each once, with the
  digest, size and position the manifest froze.
\<close>

section \<open>Manifests, artifacts and adapter errors\<close>

record print_job_document =
  pd_documentId :: string
  pd_position :: int
  pd_sha256 :: string
  pd_sizeBytes :: int
  pd_pageCount :: int
  pd_pageRanges :: "(int \<times> int) list"
  pd_selectedPages :: int
  pd_copies :: int
  pd_duplex :: string
  pd_orientation :: string
  pd_printedSides :: int
  pd_physicalSheets :: int

record print_job_manifest =
  pm_manifestVersion :: int
  pm_printJobId :: string
  pm_sessionId :: string
  pm_settingsRevision :: int
  pm_settingsManifestHash :: string
  pm_quoteId :: string
  pm_paymentId :: string
  pm_paperSize :: string
  pm_scaling :: string
  pm_collate :: bool
  pm_colorMode :: string
  pm_selectedPages :: int
  pm_printedSides :: int
  pm_physicalSheets :: int
  pm_documents :: "print_job_document list"

record print_operation_artifact =
  pa_documentId :: string
  pa_position :: int
  pa_path :: string
  pa_sha256 :: string
  pa_sizeBytes :: int

record print_submission =
  ps_operationId :: string
  ps_manifest :: print_job_manifest
  ps_artifacts :: "print_operation_artifact list"
  ps_deviceScenario :: "string option"

datatype adapter_error_code =
    PRINTER_OFFLINE | OPERATION_ID_INVALID | MANIFEST_INVALID | ARTIFACT_UNAVAILABLE
  | OUTPUT_WRITE_FAILED | SUBMISSION_UNCONFIRMED | QUEUE_NOT_FOUND | QUEUE_NOT_APPROVED
  | DEVICE_UNREACHABLE | DEVICE_ERROR

record adapter_error =
  ae_code :: adapter_error_code
  ae_submissionAmbiguous :: bool
  ae_deviceStage :: "string option"

text \<open>\<open>new PrinterAdapterError (code)\<close> with its defaults.\<close>

definition adapterError :: "adapter_error_code \<Rightarrow> adapter_error" where
  "adapterError c = \<lparr>ae_code = c, ae_submissionAmbiguous = False, ae_deviceStage = None\<rparr>"

definition ambiguousAdapterError :: "adapter_error_code \<Rightarrow> adapter_error" where
  "ambiguousAdapterError c = \<lparr>ae_code = c, ae_submissionAmbiguous = True, ae_deviceStage = None\<rparr>"

section \<open>The last check before a device\<close>

datatype platform = POSIX | WINDOWS

text \<open>\<open>isAbsolute\<close> of Node's \<open>path\<close> module, on the platform the agent runs on.\<close>

definition is_letter :: "char \<Rightarrow> bool" where
  "is_letter c \<longleftrightarrow> 65 \<le> code c \<and> code c \<le> 90 \<or> 97 \<le> code c \<and> code c \<le> 122"

definition is_path_separator :: "char \<Rightarrow> bool" where
  "is_path_separator c \<longleftrightarrow> c = CHR ''/'' \<or> c = CHR 0x5C"

fun isAbsolute :: "platform \<Rightarrow> string \<Rightarrow> bool" where
  "isAbsolute POSIX p = (case p of [] \<Rightarrow> False | c # _ \<Rightarrow> c = CHR ''/'')"
| "isAbsolute WINDOWS p =
     (case p of [] \<Rightarrow> False
      | c # rest \<Rightarrow> is_path_separator c \<or>
          (is_letter c \<and> (case rest of d # s # _ \<Rightarrow> d = CHR '':'' \<and> is_path_separator s | _ \<Rightarrow> False)))"

definition is_sha256 :: "string \<Rightarrow> bool" where
  "is_sha256 s \<longleftrightarrow> length s = 64 \<and> list_all is_hex_lower s"

text \<open>The \<open>Map\<close> of documents by identifier: the last document of an identifier wins.\<close>

definition expectedByDocument :: "print_job_manifest \<Rightarrow> string \<Rightarrow> print_job_document option" where
  "expectedByDocument m i =
     map_of (rev (map (\<lambda>d. (pd_documentId d, d)) (pm_documents m))) i"

definition artifactMatches :: "platform \<Rightarrow> print_job_document \<Rightarrow> print_operation_artifact \<Rightarrow> bool" where
  "artifactMatches plat expected a \<longleftrightarrow>
     pd_position expected = pa_position a \<and> pd_sha256 expected = pa_sha256 a \<and>
     pd_sizeBytes expected = pa_sizeBytes a \<and> isAbsolute plat (pa_path a) \<and>
     1 \<le> pa_sizeBytes a \<and> is_sha256 (pa_sha256 a) \<and> is_safe_integer (pa_position a) \<and>
     0 \<le> pa_position a \<and> pa_position a \<le> 999"

fun checkArtifacts ::
  "platform \<Rightarrow> print_job_manifest \<Rightarrow> string list \<Rightarrow> int list \<Rightarrow> print_operation_artifact list
   \<Rightarrow> adapter_error + unit" where
  "checkArtifacts plat m seenDocuments seenPositions [] = Inr ()"
| "checkArtifacts plat m seenDocuments seenPositions (a # rest) =
     bind_result
       (require
         (case expectedByDocument m (pa_documentId a) of
            None \<Rightarrow> False
          | Some expected \<Rightarrow>
              pa_documentId a \<notin> set seenDocuments \<and> pa_position a \<notin> set seenPositions \<and>
              artifactMatches plat expected a)
         (adapterError ARTIFACT_UNAVAILABLE))
       (\<lambda>_. checkArtifacts plat m (pa_documentId a # seenDocuments) (pa_position a # seenPositions) rest)"

definition assertSubmittable :: "platform \<Rightarrow> print_submission \<Rightarrow> adapter_error + unit" where
  "assertSubmittable plat s =
     bind_result (require (is_uuid (ps_operationId s)) (adapterError OPERATION_ID_INVALID)) (\<lambda>_.
     (let m = ps_manifest s in
      bind_result (require
        (\<not> (length (pm_documents m) \<noteq> length (ps_artifacts s) \<or> ps_artifacts s = [] \<or>
            pm_physicalSheets m < 1 \<or> list_ex (\<lambda>d. pd_copies d < 1) (pm_documents m)))
        (adapterError MANIFEST_INVALID)) (\<lambda>_.
      bind_result (require (distinct (map pd_documentId (pm_documents m))) (adapterError MANIFEST_INVALID))
        (\<lambda>_. checkArtifacts plat m [] [] (ps_artifacts s)))))"

subsection \<open>What passes the check\<close>

definition documentOf :: "print_operation_artifact \<Rightarrow> print_job_document \<Rightarrow> bool" where
  "documentOf a d \<longleftrightarrow>
     pd_documentId d = pa_documentId a \<and> pd_position d = pa_position a \<and>
     pd_sha256 d = pa_sha256 a \<and> pd_sizeBytes d = pa_sizeBytes a"

lemma expectedByDocument_Some:
  "expectedByDocument m i = Some d \<Longrightarrow> d \<in> set (pm_documents m) \<and> pd_documentId d = i"
  by (auto simp: expectedByDocument_def dest!: map_of_SomeD)

lemma checkArtifacts_Inr:
  "checkArtifacts plat m ds ps as = Inr () \<longleftrightarrow>
     distinct (map pa_documentId as) \<and> distinct (map pa_position as) \<and>
     set (map pa_documentId as) \<inter> set ds = {} \<and> set (map pa_position as) \<inter> set ps = {} \<and>
     (\<forall>a \<in> set as. \<exists>d. expectedByDocument m (pa_documentId a) = Some d \<and> artifactMatches plat d a)"
proof (induction plat m ds ps as rule: checkArtifacts.induct)
  case (2 plat m ds ps a rest)
  show ?case
    by (cases "expectedByDocument m (pa_documentId a)") (auto simp: 2)
qed simp

text \<open>
  C31. A submission that passes the last check prints what was frozen: the artifacts are,
  one for one and each exactly once, the documents of the manifest, at distinct positions,
  each an absolute path with the digest, the size and the position the manifest recorded,
  and at least one sheet and one copy of everything is asked for.
\<close>

theorem submittable_prints_the_manifest:
  assumes "assertSubmittable plat s = Inr ()"
  shows "(\<exists>f. bij_betw f (set (ps_artifacts s)) (set (pm_documents (ps_manifest s))) \<and>
        (\<forall>a \<in> set (ps_artifacts s). documentOf a (f a) \<and> isAbsolute plat (pa_path a))) \<and>
    distinct (map pa_position (ps_artifacts s)) \<and> is_uuid (ps_operationId s) \<and>
    1 \<le> pm_physicalSheets (ps_manifest s) \<and> (\<forall>d \<in> set (pm_documents (ps_manifest s)). 1 \<le> pd_copies d)"
proof -
  let ?as = "ps_artifacts s" and ?m = "ps_manifest s"
  have len: "length (pm_documents ?m) = length ?as" and sheets: "1 \<le> pm_physicalSheets ?m"
    and copies: "\<forall>d \<in> set (pm_documents ?m). 1 \<le> pd_copies d"
    and dd: "distinct (map pd_documentId (pm_documents ?m))" and u: "is_uuid (ps_operationId s)"
    and chk: "checkArtifacts plat ?m [] [] ?as = Inr ()"
    using assms by (auto simp: assertSubmittable_def Let_def list_ex_iff not_less)
  note ok = chk [unfolded checkArtifacts_Inr]
  define f :: "print_operation_artifact \<Rightarrow> print_job_document" where "f a = the (expectedByDocument ?m (pa_documentId a))" for a
  have f: "f a \<in> set (pm_documents ?m) \<and> pd_documentId (f a) = pa_documentId a \<and> artifactMatches plat (f a) a"
    if "a \<in> set ?as" for a
    using ok that expectedByDocument_Some unfolding f_def by force
  have inj: "inj_on f (set ?as)"
  proof (rule inj_onI)
    fix a b assume ab: "a \<in> set ?as" "b \<in> set ?as" "f a = f b"
    then have "pa_documentId a = pa_documentId b" using f [of a] f [of b] by metis
    then show "a = b" using key_unique [of pa_documentId ?as a b] ok ab by auto
  qed
  have "distinct ?as" "distinct (pm_documents ?m)" using ok dd by (auto simp: distinct_map)
  then have "card (f ` set ?as) = card (set (pm_documents ?m))"
    using card_image [OF inj] len by (simp add: distinct_card)
  then have "f ` set ?as = set (pm_documents ?m)"
    using f by (intro card_subset_eq) auto
  then have "bij_betw f (set ?as) (set (pm_documents ?m))" using inj by (simp add: bij_betw_def)
  moreover have "\<forall>a \<in> set ?as. documentOf a (f a) \<and> isAbsolute plat (pa_path a)"
    using f by (auto simp: documentOf_def artifactMatches_def)
  ultimately show ?thesis using ok sheets copies u by blast
qed

definition sample_document :: print_job_document where
  "sample_document =
     \<lparr>pd_documentId = ''d'', pd_position = 0, pd_sha256 = replicate 64 (CHR ''a''), pd_sizeBytes = 10,
      pd_pageCount = 2, pd_pageRanges = [(1, 2)], pd_selectedPages = 2, pd_copies = 1,
      pd_duplex = ''SIMPLEX'', pd_orientation = ''AUTO'', pd_printedSides = 2, pd_physicalSheets = 2\<rparr>"

definition sample_manifest :: print_job_manifest where
  "sample_manifest =
     \<lparr>pm_manifestVersion = 2, pm_printJobId = ''j'', pm_sessionId = ''s'', pm_settingsRevision = 1,
      pm_settingsManifestHash = ''h'', pm_quoteId = ''q'', pm_paymentId = ''p'', pm_paperSize = ''A4'',
      pm_scaling = ''FIT'', pm_collate = True, pm_colorMode = ''MONOCHROME'', pm_selectedPages = 2,
      pm_printedSides = 2, pm_physicalSheets = 2, pm_documents = [sample_document]\<rparr>"

definition sample_operation_id :: string where
  "sample_operation_id = ''0b0e7c1e-1a2b-4c3d-8e4f-5a6b7c8d9e0f''"

definition sample_submission :: print_submission where
  "sample_submission =
     \<lparr>ps_operationId = sample_operation_id, ps_manifest = sample_manifest,
      ps_artifacts = [\<lparr>pa_documentId = ''d'', pa_position = 0, pa_path = ''/spool/d'',
        pa_sha256 = replicate 64 (CHR ''a''), pa_sizeBytes = 10\<rparr>],
      ps_deviceScenario = None\<rparr>"

lemma sample_operation_id_uuid [simp]: "is_uuid sample_operation_id"
  by code_simp

lemma sample_submittable: "assertSubmittable POSIX sample_submission = Inr ()"
  by code_simp

theorem submittable_prints_the_manifest_witness:
  "is_uuid (ps_operationId sample_submission) \<and> 1 \<le> pm_physicalSheets (ps_manifest sample_submission)"
  using submittable_prints_the_manifest [OF sample_submittable] by blast

end
