(* ===== verification/Queue_Approval.thy ===== *)
theory Queue_Approval
  imports Print_Submission
begin

text \<open>
  \<^verbatim>\<open>packages/printer-adapters/src/queues.ts\<close>: which print queue a kiosk may use, and
  \<^verbatim>\<open>capabilities.ts\<close>: what a device's own words become in the snapshot a customer is
  offered. Both are allowlists. The lemmas show that an approved queue is one an operator
  named (and never a shared one unless allowed), that readiness plays no part, and that a
  device can only narrow what the deployment offers and is not judged on its punctuation.
\<close>

section \<open>Queues\<close>

datatype queue_state = Q_READY | Q_PAUSED | Q_OFFLINE | Q_ERROR

record printer_queue =
  pq_queueName :: string
  pq_deviceUri :: "string option"
  pq_driverName :: "string option"
  pq_portName :: "string option"
  pq_state :: queue_state
  pq_isDefault :: bool
  pq_shared :: bool

record queue_policy =
  qp_allowlist :: "string list"
  qp_preferred :: "string option"
  qp_allowShared :: bool

datatype queue_rejection = NO_QUEUES | NOT_APPROVED | SHARED | AMBIGUOUS

datatype queue_selection = Approved printer_queue | Rejected queue_rejection

definition normalizeQueueName :: "string \<Rightarrow> string" where
  "normalizeQueueName v = js_lower (js_trim v)"

definition isApprovedQueueName :: "string \<Rightarrow> string list \<Rightarrow> bool" where
  "isApprovedQueueName queueName allowlist =
     (let normalized = normalizeQueueName queueName in
      if normalized = [] then False
      else list_ex (\<lambda>entry. normalizeQueueName entry = normalized) allowlist)"

definition parseQueueAllowlist :: "string option \<Rightarrow> string list" where
  "parseQueueAllowlist v =
     (case v of None \<Rightarrow> []
      | Some v \<Rightarrow> if v = [] then []
                 else filter (\<lambda>e. e \<noteq> []) (map js_trim (split_on (CHR '','') v)))"

definition selectApprovedQueue :: "printer_queue list \<Rightarrow> queue_policy \<Rightarrow> queue_selection" where
  "selectApprovedQueue queues policy =
     (if queues = [] then Rejected NO_QUEUES
      else
        let allowed = filter (\<lambda>n. n \<noteq> []) (map normalizeQueueName (qp_allowlist policy)) in
        if allowed = [] then Rejected NOT_APPROVED
        else
          let matches = filter (\<lambda>q. normalizeQueueName (pq_queueName q) \<in> set allowed) queues in
          if matches = [] then Rejected NOT_APPROVED
          else
            let usable = (if qp_allowShared policy then matches
                          else filter (\<lambda>q. \<not> pq_shared q) matches) in
            if usable = [] then Rejected SHARED
            else
              let preferred = normalizeQueueName (case qp_preferred policy of None \<Rightarrow> [] | Some p \<Rightarrow> p) in
              if preferred \<noteq> []
              then (case List.find (\<lambda>q. normalizeQueueName (pq_queueName q) = preferred) usable of
                      Some chosen \<Rightarrow> Approved chosen | None \<Rightarrow> Rejected NOT_APPROVED)
              else if 1 < length usable then Rejected AMBIGUOUS
              else Approved (hd usable))"

definition usableQueues :: "printer_queue list \<Rightarrow> queue_policy \<Rightarrow> printer_queue list" where
  "usableQueues queues policy =
     filter (\<lambda>q. isApprovedQueueName (pq_queueName q) (qp_allowlist policy) \<and>
                 (qp_allowShared policy \<or> \<not> pq_shared q)) queues"

definition withState :: "(printer_queue \<Rightarrow> queue_state) \<Rightarrow> printer_queue \<Rightarrow> printer_queue" where
  "withState f q = q\<lparr>pq_state := f q\<rparr>"

definition preferredName :: "queue_policy \<Rightarrow> string" where
  "preferredName policy = normalizeQueueName (case qp_preferred policy of None \<Rightarrow> [] | Some p \<Rightarrow> p)"

lemma approved_name_iff:
  "isApprovedQueueName n allowlist \<longleftrightarrow>
     normalizeQueueName n \<noteq> [] \<and> normalizeQueueName n \<in> normalizeQueueName ` set allowlist"
  by (auto simp: isApprovedQueueName_def Let_def list_ex_iff image_iff) metis

lemma select_usable:
  "selectApprovedQueue queues policy =
    (let usable = usableQueues queues policy in
     if usable = [] then selectApprovedQueue queues policy
     else if preferredName policy \<noteq> []
     then (case List.find (\<lambda>q. normalizeQueueName (pq_queueName q) = preferredName policy) usable of
             Some chosen \<Rightarrow> Approved chosen | None \<Rightarrow> Rejected NOT_APPROVED)
     else if 1 < length usable then Rejected AMBIGUOUS else Approved (hd usable))"
proof -
  define allowed where "allowed = filter (\<lambda>n. n \<noteq> []) (map normalizeQueueName (qp_allowlist policy))"
  define matches where "matches = filter (\<lambda>q. normalizeQueueName (pq_queueName q) \<in> set allowed) queues"
  have m: "isApprovedQueueName (pq_queueName q) (qp_allowlist policy) \<longleftrightarrow>
      normalizeQueueName (pq_queueName q) \<in> set allowed" for q
    by (auto simp: approved_name_iff allowed_def)
  have u: "usableQueues queues policy =
      (if qp_allowShared policy then matches else filter (\<lambda>q. \<not> pq_shared q) matches)"
    unfolding usableQueues_def matches_def m by (simp add: conj_commute)
  show ?thesis
  proof (cases "usableQueues queues policy = []")
    case False
    then have "matches \<noteq> []" unfolding u by (auto split: if_splits)
    then have "queues \<noteq> []" "allowed \<noteq> []" by (auto simp: matches_def)
    with False \<open>matches \<noteq> []\<close> show ?thesis
      unfolding selectApprovedQueue_def Let_def preferredName_def [symmetric]
        allowed_def [symmetric] matches_def [symmetric] u [symmetric] by simp
  qed simp
qed

lemma select_none_usable:
  assumes "usableQueues queues policy = []"
  shows "selectApprovedQueue queues policy \<noteq> Approved q"
proof -
  define allowed where "allowed = filter (\<lambda>n. n \<noteq> []) (map normalizeQueueName (qp_allowlist policy))"
  define matches where "matches = filter (\<lambda>q. normalizeQueueName (pq_queueName q) \<in> set allowed) queues"
  have "(if qp_allowShared policy then matches else filter (\<lambda>q. \<not> pq_shared q) matches) = []"
    using assms by (auto simp: usableQueues_def approved_name_iff allowed_def matches_def filter_empty_conv)
  then show ?thesis
    unfolding selectApprovedQueue_def Let_def allowed_def [symmetric] matches_def [symmetric] by simp
qed

lemma usable_withState: "usableQueues (map (withState f) queues) policy = map (withState f) (usableQueues queues policy)"
  by (induction queues) (auto simp: usableQueues_def withState_def)

lemma select_iff:
  "selectApprovedQueue queues policy = Approved q \<longleftrightarrow>
     (if preferredName policy = [] then usableQueues queues policy = [q]
      else List.find (\<lambda>q. normalizeQueueName (pq_queueName q) = preferredName policy)
             (usableQueues queues policy) = Some q)"
proof (cases "usableQueues queues policy")
  case Nil
  then show ?thesis by (simp add: select_none_usable)
next
  case (Cons x xs)
  show ?thesis
    by (subst select_usable) (auto simp: Let_def Cons split: option.splits)
qed

text \<open>
  A kiosk prints to a queue exactly when an operator named it: the approved queue is
  the only usable one, or the first usable one of the preferred name, where usable means
  named on the allowlist and not shared unless sharing is allowed. Whether a queue is ready,
  paused or offline never changes the choice.
\<close>

theorem queue_approval_by_name:
  "(selectApprovedQueue queues policy = Approved q \<longleftrightarrow>
     (if preferredName policy = [] then usableQueues queues policy = [q]
      else List.find (\<lambda>q. normalizeQueueName (pq_queueName q) = preferredName policy)
             (usableQueues queues policy) = Some q)) \<and>
   (selectApprovedQueue queues policy = Approved q \<longrightarrow>
     selectApprovedQueue (map (withState f) queues) policy = Approved (withState f q))"
proof -
  have "preferredName policy = [] \<Longrightarrow> usableQueues queues policy = [q] \<Longrightarrow>
      usableQueues (map (withState f) queues) policy = [withState f q]"
    by (simp add: usable_withState)
  moreover have "pq_queueName (withState f q) = pq_queueName q" for q by (simp add: withState_def)
  ultimately show ?thesis
    by (simp add: select_iff usable_withState find_map)
qed

definition sample_queue :: printer_queue where
  "sample_queue =
     \<lparr>pq_queueName = ''Front Desk'', pq_deviceUri = None, pq_driverName = None, pq_portName = None,
      pq_state = Q_READY, pq_isDefault = False, pq_shared = False\<rparr>"

definition sample_policy :: queue_policy where
  "sample_policy = \<lparr>qp_allowlist = ['' front desk ''], qp_preferred = None, qp_allowShared = False\<rparr>"

theorem queue_approval_by_name_witness:
  "selectApprovedQueue (map (withState (\<lambda>_. Q_OFFLINE)) [sample_queue]) sample_policy =
    Approved (withState (\<lambda>_. Q_OFFLINE) sample_queue)"
proof -
  have "selectApprovedQueue [sample_queue] sample_policy = Approved sample_queue" by code_simp
  then show ?thesis using queue_approval_by_name [of "[sample_queue]" sample_policy sample_queue] by blast
qed

section \<open>Capabilities\<close>

record capability_declaration =
  cd_mediaSizes :: "string list option"
  cd_sides :: "string list option"
  cd_colorModes :: "string list option"
  cd_maxCopies :: "int option"
  cd_duplexSupported :: bool

record capabilities_snapshot =
  cs_version :: int
  cs_paperSizes :: "string list"
  cs_duplexModes :: "string list"
  cs_colorModes :: "string list"
  cs_orientations :: "string list"
  cs_scalingModes :: "string list"
  cs_maxCopies :: int

definition PRINT_CAPABILITY_SNAPSHOT_VERSION :: int where
  "PRINT_CAPABILITY_SNAPSHOT_VERSION = 3"

type_synonym vocabulary = "(string \<times> string) list"

definition PAPER_SIZE_TERMS :: vocabulary where
  "PAPER_SIZE_TERMS =
     [(''a4'', ''A4''), (''isoa4'', ''A4''), (''isoa4210x297mm'', ''A4''), (''a4210x297mm'', ''A4''),
      (''iso_a4'', ''A4'')]"

definition DUPLEX_TERMS :: vocabulary where
  "DUPLEX_TERMS =
     [(''onesided'', ''SIMPLEX''), (''simplex'', ''SIMPLEX''), (''twosidedlongedge'', ''LONG_EDGE''),
      (''duplextumblelong'', ''LONG_EDGE''), (''longedgebinding'', ''LONG_EDGE'')]"

definition COLOR_TERMS :: vocabulary where
  "COLOR_TERMS =
     map (\<lambda>t. (t, ''MONOCHROME''))
       [''monochrome'', ''automonochrome'', ''processmonochrome'', ''bilevel'', ''processbilevel'',
        ''grayscale'', ''greyscale'']"

text \<open>The characters \<open>[\s._-]\<close> are dropped, then case.\<close>

definition normalizeTerm :: "string \<Rightarrow> string" where
  "normalizeTerm v = js_lower (filter (\<lambda>c. \<not> (is_space c \<or> c \<in> set ''._-'')) v)"

definition mapTerms :: "string list option \<Rightarrow> vocabulary \<Rightarrow> string list \<Rightarrow> string list" where
  "mapTerms declared vocabulary order =
     (case declared of None \<Rightarrow> []
      | Some entries \<Rightarrow>
          let mapped = List.map_filter (\<lambda>e. map_of vocabulary (normalizeTerm e)) entries in
          filter (\<lambda>option. option \<in> set mapped) order)"

definition mapDeviceCapabilities :: "capability_declaration \<Rightarrow> int \<Rightarrow> capabilities_snapshot" where
  "mapDeviceCapabilities declaration maxCopiesLimit =
     (let paperSizes = mapTerms (cd_mediaSizes declaration) PAPER_SIZE_TERMS [''A4''];
          colorModes = mapTerms (cd_colorModes declaration) COLOR_TERMS [''MONOCHROME''];
          declaredDuplex = mapTerms (cd_sides declaration) DUPLEX_TERMS [''SIMPLEX'', ''LONG_EDGE''];
          duplexModes = (if declaredDuplex \<noteq> [] then declaredDuplex
                         else if cd_duplexSupported declaration then [''SIMPLEX'', ''LONG_EDGE'']
                         else [''SIMPLEX'']);
          declaredCopies =
            (case cd_maxCopies declaration of
               Some n \<Rightarrow> if is_safe_integer n \<and> 0 < n then n else maxCopiesLimit
             | None \<Rightarrow> maxCopiesLimit) in
      \<lparr>cs_version = PRINT_CAPABILITY_SNAPSHOT_VERSION, cs_paperSizes = paperSizes,
       cs_duplexModes = duplexModes, cs_colorModes = colorModes, cs_orientations = [''AUTO''],
       cs_scalingModes = [''FIT''], cs_maxCopies = min declaredCopies maxCopiesLimit\<rparr>)"

definition same_terms :: "string list option \<Rightarrow> string list option \<Rightarrow> bool" where
  "same_terms a b \<longleftrightarrow>
     map_option (\<lambda>ts. set (map normalizeTerm ts)) a = map_option (\<lambda>ts. set (map normalizeTerm ts)) b"

lemma mapTerms_same:
  assumes "same_terms a b"
  shows "mapTerms a v order = mapTerms b v order"
proof -
  have *: "set (List.map_filter (\<lambda>e. map_of v (normalizeTerm e)) xs) =
      {o'. \<exists>t \<in> set (map normalizeTerm xs). map_of v t = Some o'}" for xs
    by (induction xs) (auto simp: map_filter_simps split: option.splits)
  show ?thesis
    using assms by (cases a; cases b) (simp_all add: mapTerms_def same_terms_def * del: set_map)
qed

text \<open>
  A device is offered for what it says, not for how it says it: two declarations that
  name the same terms up to order, case, spacing and punctuation give the same snapshot; and
  no declaration raises the deployment's copy ceiling or adds an option the product does
  not offer, while every device prints at least one-sided or on some declared side.
\<close>

theorem capabilities_follow_the_declaration:
  assumes "same_terms (cd_mediaSizes d) (cd_mediaSizes d')" and "same_terms (cd_sides d) (cd_sides d')"
    and "same_terms (cd_colorModes d) (cd_colorModes d')" and "cd_maxCopies d = cd_maxCopies d'"
    and "cd_duplexSupported d = cd_duplexSupported d'"
  shows "mapDeviceCapabilities d limit = mapDeviceCapabilities d' limit \<and>
    cs_maxCopies (mapDeviceCapabilities d limit) \<le> limit \<and>
    (1 \<le> limit \<longrightarrow> 1 \<le> cs_maxCopies (mapDeviceCapabilities d limit)) \<and>
    cs_duplexModes (mapDeviceCapabilities d limit) \<noteq> [] \<and>
    set (cs_duplexModes (mapDeviceCapabilities d limit)) \<subseteq> {''SIMPLEX'', ''LONG_EDGE''} \<and>
    set (cs_paperSizes (mapDeviceCapabilities d limit)) \<subseteq> {''A4''} \<and>
    set (cs_colorModes (mapDeviceCapabilities d limit)) \<subseteq> {''MONOCHROME''}"
proof -
  have sub: "set (mapTerms t v order) \<subseteq> set order" for t v order
    by (auto simp: mapTerms_def Let_def split: option.splits)
  have "mapDeviceCapabilities d limit = mapDeviceCapabilities d' limit"
    unfolding mapDeviceCapabilities_def
    by (simp only: mapTerms_same [OF assms(1)] mapTerms_same [OF assms(2)] mapTerms_same [OF assms(3)] assms(4,5))
  moreover have "cs_duplexModes (mapDeviceCapabilities d limit) \<noteq> []"
    by (simp add: mapDeviceCapabilities_def Let_def)
  moreover have "set (cs_duplexModes (mapDeviceCapabilities d limit)) \<subseteq> {''SIMPLEX'', ''LONG_EDGE''}"
    using sub [of "cd_sides d" DUPLEX_TERMS "[''SIMPLEX'', ''LONG_EDGE'']"]
    by (simp add: mapDeviceCapabilities_def Let_def)
  moreover have "set (cs_paperSizes (mapDeviceCapabilities d limit)) \<subseteq> {''A4''}"
    "set (cs_colorModes (mapDeviceCapabilities d limit)) \<subseteq> {''MONOCHROME''}"
    using sub [of "cd_mediaSizes d" PAPER_SIZE_TERMS "[''A4'']"]
      sub [of "cd_colorModes d" COLOR_TERMS "[''MONOCHROME'']"]
    by (simp_all add: mapDeviceCapabilities_def Let_def)
  moreover have "cs_maxCopies (mapDeviceCapabilities d limit) \<le> limit \<and>
    (1 \<le> limit \<longrightarrow> 1 \<le> cs_maxCopies (mapDeviceCapabilities d limit))"
    by (auto simp: mapDeviceCapabilities_def Let_def split: option.splits)
  ultimately show ?thesis by blast
qed

definition sample_declaration :: "string list \<Rightarrow> capability_declaration" where
  "sample_declaration sides =
     \<lparr>cd_mediaSizes = Some [''iso_a4_210x297mm''], cd_sides = Some sides, cd_colorModes = None,
      cd_maxCopies = Some 99, cd_duplexSupported = False\<rparr>"

theorem capabilities_follow_the_declaration_witness:
  "mapDeviceCapabilities (sample_declaration [''two-sided-long-edge'', ''one-sided'']) 10 =
     mapDeviceCapabilities (sample_declaration [''OneSided'', ''Two Sided Long Edge'', ''two-sided-long-edge'']) 10"
proof -
  have n: "normalizeTerm ''two-sided-long-edge'' = ''twosidedlongedge''" "normalizeTerm ''one-sided'' = ''onesided''"
    "normalizeTerm ''OneSided'' = ''onesided''" "normalizeTerm ''Two Sided Long Edge'' = ''twosidedlongedge''"
    by code_simp+
  show ?thesis
    by (rule capabilities_follow_the_declaration [THEN conjunct1])
      (auto simp: sample_declaration_def same_terms_def n)
qed

end
