(* ===== verification/Operation_Journal.thy ===== *)
theory Operation_Journal
  imports Print_Submission Json
begin

text \<open>
  \<^verbatim>\<open>packages/printer-adapters/src/operation-journal.ts\<close>: the record, kept before any device
  call, of what this machine handed to a device, and the job names a queue listing is read
  back from. The directory is the list of its entries; a file's contents are the JSON value
  they parse to, or nothing when they do not parse. \<open>childPath\<close> cannot fail on a name made
  of an identifier that passed the pattern, which has no separator and no dots.

  The lemmas show that a job name carries its operation through any queue and back, that a
  record reads as it was written, and that evidence once written stays until it is
  discarded on purpose or by an age cutoff.
\<close>

section \<open>Job names\<close>

definition deviceJobName :: "string \<Rightarrow> int \<Rightarrow> int \<Rightarrow> string" where
  "deviceJobName operationId position documentCount =
     operationId @ CHR ''#'' # pad3 position @ ''of'' @ pad3 documentCount"

record parsed_job_name =
  pj_operationId :: string
  pj_position :: int
  pj_documentCount :: int

text \<open>\<open>JOB_NAME_PATTERN\<close> (case-insensitive), position by position; its three groups.\<close>

definition job_name_classes :: "(char \<Rightarrow> bool) list" where
  "job_name_classes =
     replicate 36 (\<lambda>c. is_hex c \<or> c = CHR ''-'') @ [(=) (CHR ''#'')] @ replicate 3 is_digit
     @ [(\<lambda>c. c \<in> set ''oO''), (\<lambda>c. c \<in> set ''fF'')] @ replicate 3 is_digit"

definition matchJobName :: "string \<Rightarrow> (string \<times> string \<times> string) option" where
  "matchJobName s =
     (if matches_classes job_name_classes s
      then Some (take 36 s, take 3 (drop 37 s), drop 42 s) else None)"

definition parseDeviceJobName :: "string \<Rightarrow> parsed_job_name option" where
  "parseDeviceJobName v =
     (case matchJobName (js_trim v) of
        None \<Rightarrow> None
      | Some (operationId, position, documentCount) \<Rightarrow>
          if \<not> is_uuid operationId then None
          else
            let parsedCount = int (read_digits documentCount);
                parsedPosition = int (read_digits position) in
            if parsedCount < 1 \<or> parsedCount \<le> parsedPosition then None
            else Some \<lparr>pj_operationId = js_lower operationId, pj_position = parsedPosition,
                       pj_documentCount = parsedCount\<rparr>)"

lemma pad3_digits:
  assumes "0 \<le> n" and "n \<le> 999"
  shows "length (pad3 n) = 3" and "list_all is_digit (pad3 n)" and "read_digits (pad3 n) = nat n"
proof -
  have s: "show_int n = show_nat (nat n)" using assms by (simp add: show_int_def)
  have "length (show_nat (nat n)) \<le> 3"
    by (rule length_show_nat_less) (use assms in auto)
  then show "length (pad3 n) = 3" by (simp add: pad3_def Let_def s)
  show "list_all is_digit (pad3 n)"
    by (auto simp: pad3_def Let_def s list_all_iff show_nat_digits)
  show "read_digits (pad3 n) = nat n" by (simp add: pad3_def Let_def s)
qed

lemma matches_classes_append:
  "length ps = length s \<Longrightarrow> matches_classes (ps @ qs) (s @ t) \<longleftrightarrow> matches_classes ps s \<and> matches_classes qs t"
  by (simp add: matches_classes_def list_all2_append)

lemma matches_classes_replicate: "matches_classes (replicate n p) s \<longleftrightarrow> length s = n \<and> list_all p s"
  by (auto simp: matches_classes_def list_all2_conv_all_nth list_all_length)

lemma uuid_char_not_space: "is_uuid_char c \<Longrightarrow> \<not> is_space c"
  by (auto simp: is_uuid_char_def is_hex_def is_hex_lower_def is_digit_def is_space_def code_def)

lemma matchJobName_deviceJobName:
  assumes "is_uuid u" and "0 \<le> p" "p \<le> 999" and "0 \<le> n" "n \<le> 999"
  shows "matchJobName (deviceJobName u p n) = Some (u, pad3 p, pad3 n)"
proof -
  note p = pad3_digits [OF assms(2,3)] and n = pad3_digits [OF assms(4,5)]
  have u: "length u = 36" "list_all (\<lambda>c. is_hex c \<or> c = CHR ''-'') u"
    using length_uuid(1) [OF assms(1)] uuid_chars [OF assms(1)] by (auto simp: list_all_iff is_uuid_char_def)
  have "deviceJobName u p n = u @ [CHR ''#''] @ pad3 p @ ''of'' @ pad3 n"
    by (simp add: deviceJobName_def)
  moreover have "matches_classes job_name_classes (u @ [CHR ''#''] @ pad3 p @ ''of'' @ pad3 n)"
    unfolding job_name_classes_def using u p n
    by (simp add: matches_classes_append matches_classes_replicate del: append_Cons append.simps)
      (simp add: matches_classes_def)
  ultimately show ?thesis using u p n by (simp add: matchJobName_def)
qed

lemma trim_deviceJobName:
  assumes "is_uuid u" and "0 \<le> p" "p \<le> 999" and "0 \<le> n" "n \<le> 999"
  shows "js_trim (deviceJobName u p n) = deviceJobName u p n"
proof (rule js_trim_no_space, rule ballI)
  fix c assume "c \<in> set (deviceJobName u p n)"
  then consider "is_uuid_char c" | "is_digit c" | "c \<in> set ''#of''"
    using uuid_chars [OF assms(1)] pad3_digits(2) [OF assms(2,3)] pad3_digits(2) [OF assms(4,5)]
    by (auto simp: deviceJobName_def list_all_iff)
  then show "\<not> is_space c"
    by cases (auto simp: uuid_char_not_space digit_not_space)
qed

text \<open>
  C32. A document's job name survives the device's queue: for every operation identifier
  and every position below the count of at most 999 documents, reading the name back gives
  the operation (in lower case), the position and the count.
\<close>

theorem job_name_roundtrip:
  assumes "is_uuid operationId" and "0 \<le> position" and "position < total_documents" and "total_documents \<le> 999"
  shows "parseDeviceJobName (deviceJobName operationId position total_documents) =
    Some \<lparr>pj_operationId = js_lower operationId, pj_position = position, pj_documentCount = total_documents\<rparr>"
proof -
  have r: "position \<le> 999" "0 \<le> total_documents" using assms by auto
  show ?thesis
    using trim_deviceJobName [OF assms(1,2) r assms(4)] matchJobName_deviceJobName [OF assms(1,2) r assms(4)]
      pad3_digits(3) [OF assms(2) r(1)] pad3_digits(3) [OF r(2) assms(4)] assms
    by (simp add: parseDeviceJobName_def Let_def)
qed

theorem job_name_roundtrip_witness:
  "parseDeviceJobName (deviceJobName sample_operation_id 4 12) =
    Some \<lparr>pj_operationId = js_lower sample_operation_id, pj_position = 4, pj_documentCount = 12\<rparr>"
  by (rule job_name_roundtrip) simp_all

section \<open>Records\<close>

record device_operation_document =
  dd_position :: int
  dd_jobId :: "string option"
  dd_jobName :: string

record device_operation_record =
  do_operationId :: string
  do_queueName :: string
  do_submittedAt :: string
  do_documentCount :: int
  do_documents :: "device_operation_document list"

text \<open>The JSON value \<open>JSON.stringify\<close> writes and \<open>JSON.parse\<close> reads back.\<close>

definition documentJson :: "device_operation_document \<Rightarrow> json" where
  "documentJson d =
     JObj [(''position'', JNum (dd_position d)),
       (''jobId'', case dd_jobId d of None \<Rightarrow> JNull | Some j \<Rightarrow> JStr j),
       (''jobName'', JStr (dd_jobName d))]"

definition recordJson :: "device_operation_record \<Rightarrow> json" where
  "recordJson r =
     JObj [(''operationId'', JStr (do_operationId r)), (''queueName'', JStr (do_queueName r)),
       (''submittedAt'', JStr (do_submittedAt r)), (''documentCount'', JNum (do_documentCount r)),
       (''documents'', JArr (map documentJson (do_documents r)))]"

text \<open>Property access on a parsed value: \<open>None\<close> is \<open>undefined\<close>; a later duplicate key wins.\<close>

definition field :: "json \<Rightarrow> string \<Rightarrow> json option" where
  "field v k = (case v of JObj es \<Rightarrow> map_of (rev es) k | _ \<Rightarrow> None)"

fun string_or :: "string \<Rightarrow> json option \<Rightarrow> string" where
  "string_or d (Some (JStr s)) = s"
| "string_or d v = d"

definition asDocument :: "json \<Rightarrow> device_operation_document list" where
  "asDocument entry =
     (case field entry ''position'' of
        Some (JNum n) \<Rightarrow>
          if is_safe_integer n
          then [\<lparr>dd_position = n,
                 dd_jobId = (case field entry ''jobId'' of Some (JStr j) \<Rightarrow> Some j | _ \<Rightarrow> None),
                 dd_jobName = string_or [] (field entry ''jobName'')\<rparr>]
          else []
      | _ \<Rightarrow> [])"

definition asRecord :: "string \<Rightarrow> json \<Rightarrow> device_operation_record" where
  "asRecord operationId source =
     (let documents = (case field source ''documents'' of Some (JArr ds) \<Rightarrow> ds | _ \<Rightarrow> []) in
      \<lparr>do_operationId = operationId,
       do_queueName = string_or [] (field source ''queueName''),
       do_submittedAt = string_or [] (field source ''submittedAt''),
       do_documentCount =
         (case field source ''documentCount'' of
            Some (JNum n) \<Rightarrow> if is_safe_integer n then n else int (length documents)
          | _ \<Rightarrow> int (length documents)),
       do_documents = concat (map asDocument documents)\<rparr>)"

definition safe_record :: "device_operation_record \<Rightarrow> bool" where
  "safe_record r \<longleftrightarrow>
     is_safe_integer (do_documentCount r) \<and> (\<forall>d \<in> set (do_documents r). is_safe_integer (dd_position d))"

lemma asDocument_documentJson: "is_safe_integer (dd_position d) \<Longrightarrow> asDocument (documentJson d) = [d]"
  by (cases "dd_jobId d") (simp_all add: asDocument_def documentJson_def field_def)

lemma asRecord_recordJson: "safe_record r \<Longrightarrow> asRecord (do_operationId r) (recordJson r) = r"
proof -
  assume r: "safe_record r"
  have "concat (map (asDocument \<circ> documentJson) ds) = ds"
    if "\<forall>d \<in> set ds. is_safe_integer (dd_position d)" for ds
    using that by (induction ds) (simp_all add: asDocument_documentJson)
  from this [of "do_documents r"] show ?thesis
    using r by (simp add: asRecord_def recordJson_def field_def safe_record_def Let_def)
qed

section \<open>The journal directory\<close>

record journal_entry =
  je_name :: string
  je_isFile :: bool
  je_mtimeMs :: int
  je_contents :: "json option"

datatype journal_error = J_OPERATION_ID_INVALID | J_IO_ERROR

type_synonym journal = "journal_entry list"

definition RECORD_SUFFIX :: string where
  "RECORD_SUFFIX = ''.json''"

definition recordName :: "string \<Rightarrow> journal_error + string" where
  "recordName operationId =
     (if is_uuid operationId then Inr (operationId @ RECORD_SUFFIX) else Inl J_OPERATION_ID_INVALID)"

definition lookup_entry :: "string \<Rightarrow> journal \<Rightarrow> journal_entry option" where
  "lookup_entry name dir = List.find (\<lambda>e. je_name e = name) dir"

text \<open>\<open>writeFile\<close>: create or overwrite; writing to a directory fails.\<close>

definition write_file :: "int \<Rightarrow> string \<Rightarrow> json \<Rightarrow> journal \<Rightarrow> journal_error + journal" where
  "write_file now name v dir =
     (case lookup_entry name dir of
        None \<Rightarrow> Inr (dir @ [\<lparr>je_name = name, je_isFile = True, je_mtimeMs = now, je_contents = Some v\<rparr>])
      | Some e \<Rightarrow>
          if \<not> je_isFile e then Inl J_IO_ERROR
          else Inr (updated (\<lambda>e. je_name e = name) (\<lambda>e. e\<lparr>je_mtimeMs := now, je_contents := Some v\<rparr>) dir))"

definition journalWrite :: "int \<Rightarrow> device_operation_record \<Rightarrow> journal \<Rightarrow> journal_error + journal" where
  "journalWrite now r dir =
     bind_result (recordName (do_operationId r)) (\<lambda>name. write_file now name (recordJson r) dir)"

definition journalOpen :: "int \<Rightarrow> device_operation_record \<Rightarrow> journal \<Rightarrow> journal_error + journal" where
  "journalOpen now r dir = journalWrite now r dir"

definition journalRead :: "string \<Rightarrow> journal \<Rightarrow> journal_error + device_operation_record option" where
  "journalRead operationId dir =
     bind_result (recordName operationId) (\<lambda>name.
       case lookup_entry name dir of
         None \<Rightarrow> Inr None
       | Some e \<Rightarrow>
           if \<not> je_isFile e then Inl J_IO_ERROR
           else (case je_contents e of
                   None \<Rightarrow> Inr (Some \<lparr>do_operationId = operationId, do_queueName = [], do_submittedAt = [],
                                     do_documentCount = 0, do_documents = []\<rparr>)
                 | Some v \<Rightarrow> Inr (Some (asRecord operationId v))))"

text \<open>\<open>find\<close> returns the first document of the position and the assignment changes it.\<close>

fun setJobId :: "int \<Rightarrow> string \<Rightarrow> device_operation_document list \<Rightarrow> device_operation_document list option" where
  "setJobId position jobId [] = None"
| "setJobId position jobId (d # ds) =
     (if dd_position d = position then Some (d\<lparr>dd_jobId := Some jobId\<rparr> # ds)
      else map_option (\<lambda>ds. d # ds) (setJobId position jobId ds))"

definition journalRecordJobId ::
  "int \<Rightarrow> string \<Rightarrow> int \<Rightarrow> string \<Rightarrow> journal \<Rightarrow> journal_error + journal" where
  "journalRecordJobId now operationId position jobId dir =
     bind_result (journalRead operationId dir) (\<lambda>r.
       case r of None \<Rightarrow> Inr dir
       | Some r \<Rightarrow>
           (case setJobId position jobId (do_documents r) of
              None \<Rightarrow> Inr dir
            | Some ds \<Rightarrow> journalWrite now (r\<lparr>do_documents := ds\<rparr>) dir))"

text \<open>\<open>rm\<close> with \<open>force\<close> and without \<open>recursive\<close>: a missing entry is fine, a directory is not.\<close>

definition journalDiscard :: "string \<Rightarrow> journal \<Rightarrow> journal_error + journal" where
  "journalDiscard operationId dir =
     bind_result (recordName operationId) (\<lambda>name.
       case lookup_entry name dir of
         None \<Rightarrow> Inr dir
       | Some e \<Rightarrow> if \<not> je_isFile e then Inl J_IO_ERROR else Inr (filter (\<lambda>e. je_name e \<noteq> name) dir))"

definition ends_with :: "string \<Rightarrow> string \<Rightarrow> bool" where
  "ends_with suffix s = starts_with (rev suffix) (rev s)"

definition staleEntry :: "int \<Rightarrow> journal_entry \<Rightarrow> bool" where
  "staleEntry cutoff e \<longleftrightarrow>
     je_isFile e \<and> ends_with RECORD_SUFFIX (je_name e) \<and>
     is_uuid (take (length (je_name e) - length RECORD_SUFFIX) (je_name e)) \<and>
     \<not> (cutoff \<le> je_mtimeMs e)"

definition journalDiscardBefore :: "int \<Rightarrow> journal \<Rightarrow> nat \<times> journal" where
  "journalDiscardBefore cutoff dir =
     (length (filter (staleEntry cutoff) dir), filter (\<lambda>e. \<not> staleEntry cutoff e) dir)"

section \<open>Evidence is never lost\<close>

text \<open>
  What may happen to the journal of a running kiosk. A process killed while it writes may
  leave a file that does not parse.
\<close>

datatype journal_event =
    JE_Open int device_operation_record | JE_JobId int string int string | JE_Discard string
  | JE_DiscardBefore int | JE_Truncated string

definition applied :: "journal \<Rightarrow> journal_error + journal \<Rightarrow> journal" where
  "applied dir result = (case result of Inl _ \<Rightarrow> dir | Inr dir' \<Rightarrow> dir')"

fun journalStep :: "journal_event \<Rightarrow> journal \<Rightarrow> journal" where
  "journalStep (JE_Open now r) dir = applied dir (journalOpen now r dir)"
| "journalStep (JE_JobId now op position jobId) dir = applied dir (journalRecordJobId now op position jobId dir)"
| "journalStep (JE_Discard op) dir = applied dir (journalDiscard op dir)"
| "journalStep (JE_DiscardBefore cutoff) dir = snd (journalDiscardBefore cutoff dir)"
| "journalStep (JE_Truncated name) dir = updated (\<lambda>e. je_name e = name) (\<lambda>e. e\<lparr>je_contents := None\<rparr>) dir"

definition evidence :: "string \<Rightarrow> int \<Rightarrow> journal \<Rightarrow> bool" where
  "evidence op t dir \<longleftrightarrow>
     (\<exists>e. lookup_entry (op @ RECORD_SUFFIX) dir = Some e \<and> je_isFile e \<and> t \<le> je_mtimeMs e)"

fun keeps_evidence :: "string \<Rightarrow> int \<Rightarrow> journal_event \<Rightarrow> bool" where
  "keeps_evidence op t (JE_Open now r) = (t \<le> now)"
| "keeps_evidence op t (JE_JobId now op' position jobId) = (t \<le> now)"
| "keeps_evidence op t (JE_Discard op') = (op' \<noteq> op)"
| "keeps_evidence op t (JE_DiscardBefore cutoff) = (cutoff \<le> t)"
| "keeps_evidence op t (JE_Truncated name) = True"

lemma lookup_updated:
  assumes "\<And>e. je_name (f e) = je_name e"
  shows "lookup_entry n (updated (\<lambda>e. je_name e = m) f dir) =
    (if n = m then map_option f (lookup_entry n dir) else lookup_entry n dir)"
  using assms by (induction dir) (auto simp: lookup_entry_def)

lemma lookup_append:
  "lookup_entry n (dir @ [e]) =
    (case lookup_entry n dir of Some x \<Rightarrow> Some x | None \<Rightarrow> if je_name e = n then Some e else None)"
  by (induction dir) (auto simp: lookup_entry_def)

lemma lookup_filter:
  "lookup_entry n dir = Some e \<Longrightarrow> p e \<Longrightarrow> lookup_entry n (filter p dir) = Some e"
  by (induction dir) (auto simp: lookup_entry_def split: if_splits)

lemma lookup_name: "lookup_entry n dir = Some e \<Longrightarrow> je_name e = n"
  by (auto simp: lookup_entry_def dest: find_Some_set)

lemma write_file_lookup:
  assumes "write_file now name v dir = Inr dir'"
  shows "lookup_entry name dir' \<noteq> None \<and> je_isFile (the (lookup_entry name dir')) \<and>
    je_mtimeMs (the (lookup_entry name dir')) = now \<and> je_contents (the (lookup_entry name dir')) = Some v"
    and "n \<noteq> name \<Longrightarrow> lookup_entry n dir' = lookup_entry n dir"
  using assms
  by (auto simp: write_file_def lookup_append lookup_updated split: option.splits if_splits)

lemma write_keeps_evidence:
  assumes "write_file now name v dir = Inr dir'" and "t \<le> now" and "evidence op t dir"
  shows "evidence op t dir'"
  using write_file_lookup [OF assms(1)] assms(2,3)
  by (cases "op @ RECORD_SUFFIX = name") (auto simp: evidence_def)

lemma journalWrite_evidence:
  assumes "journalWrite now r dir = Inr dir'" and "t \<le> now"
  shows "evidence op t dir \<Longrightarrow> evidence op t dir'" and "evidence (do_operationId r) now dir'"
proof -
  from assms(1) have w: "write_file now (do_operationId r @ RECORD_SUFFIX) (recordJson r) dir = Inr dir'"
    by (auto simp: journalWrite_def recordName_def split: if_splits)
  show "evidence op t dir'" if "evidence op t dir" by (rule write_keeps_evidence [OF w assms(2) that])
  show "evidence (do_operationId r) now dir'"
    using write_file_lookup(1) [OF w] by (auto simp: evidence_def)
qed

lemma journalStep_evidence: "keeps_evidence op t e \<Longrightarrow> evidence op t dir \<Longrightarrow> evidence op t (journalStep e dir)"
proof (cases e)
  case (JE_Open now r)
  assume "keeps_evidence op t e" "evidence op t dir"
  with JE_Open journalWrite_evidence(1) [of now r dir _ t op] show ?thesis
    by (auto simp: journalOpen_def applied_def split: sum.splits)
next
  case (JE_JobId now op' position jobId)
  assume *: "keeps_evidence op t e" "evidence op t dir"
  then have "evidence op t dir'" if "journalRecordJobId now op' position jobId dir = Inr dir'" for dir'
    using that JE_JobId journalWrite_evidence(1) [of now _ dir dir' t op]
    by (auto simp: journalRecordJobId_def split: option.splits)
  with * JE_JobId show ?thesis by (auto simp: applied_def split: sum.splits)
next
  case (JE_Discard op')
  assume *: "keeps_evidence op t e" "evidence op t dir"
  have "evidence op t dir'" if d: "journalDiscard op' dir = Inr dir'" for dir'
  proof -
    obtain e' where e': "lookup_entry (op @ RECORD_SUFFIX) dir = Some e'" "je_isFile e'" "t \<le> je_mtimeMs e'"
      using * by (auto simp: evidence_def)
    consider "dir' = dir" | "dir' = filter (\<lambda>e. je_name e \<noteq> op' @ RECORD_SUFFIX) dir"
      using d by (auto simp: journalDiscard_def recordName_def split: option.splits if_splits)
    then show ?thesis
    proof cases
      case 2
      have "je_name e' \<noteq> op' @ RECORD_SUFFIX" using lookup_name [OF e'(1)] * JE_Discard by simp
      then have "lookup_entry (op @ RECORD_SUFFIX) dir' = Some e'" unfolding 2 by (rule lookup_filter [OF e'(1)])
      with e' show ?thesis by (simp add: evidence_def)
    qed (use * in simp)
  qed
  with * JE_Discard show ?thesis by (auto simp: applied_def split: sum.splits)
next
  case (JE_DiscardBefore cutoff)
  assume "keeps_evidence op t e" "evidence op t dir"
  with JE_DiscardBefore show ?thesis
    by (auto simp: evidence_def journalDiscardBefore_def staleEntry_def intro!: lookup_filter)
next
  case (JE_Truncated name)
  assume "evidence op t dir"
  with JE_Truncated show ?thesis
    by (auto simp: evidence_def lookup_updated)
qed

interpretation journal_evidence: guarded_stepping journalStep "evidence op t" "keeps_evidence op t" for op t
  by unfold_locales (rule journalStep_evidence)

lemma evidence_read: "is_uuid op \<Longrightarrow> evidence op t dir \<Longrightarrow> \<exists>r. journalRead op dir = Inr (Some r)"
  by (auto simp: evidence_def journalRead_def recordName_def split: option.splits)

lemma journalOpen_read:
  assumes "journalOpen now r dir = Inr dir'" and "safe_record r"
  shows "journalRead (do_operationId r) dir' = Inr (Some r)"
  using assms write_file_lookup(1) [of now "do_operationId r @ RECORD_SUFFIX" "recordJson r" dir dir']
  by (auto simp: journalOpen_def journalWrite_def journalRead_def recordName_def asRecord_recordJson
      split: if_splits)

text \<open>
  C35. The journal does not forget: a record opened before a device call reads back as it
  was written, and whatever happens to the journal afterwards (other records, job
  identifiers, sweeps whose cutoff is not later than the opening, discarding of other
  operations, a write cut short) the operation is never reported as one that was not
  handed over.
\<close>

theorem journal_remembers_submissions:
  assumes "journalOpen now r dir = Inr dir'" and "list_all (keeps_evidence (do_operationId r) now) es"
  shows "(safe_record r \<longrightarrow> journalRead (do_operationId r) dir' = Inr (Some r)) \<and>
    (\<exists>r'. journalRead (do_operationId r) (fold journalStep es dir') = Inr (Some r'))"
proof -
  have w: "journalWrite now r dir = Inr dir'" using assms(1) by (simp add: journalOpen_def)
  then have "is_uuid (do_operationId r)"
    by (auto simp: journalWrite_def recordName_def split: if_splits)
  moreover have "evidence (do_operationId r) now dir'" using journalWrite_evidence(2) [OF w order_refl] .
  then have "evidence (do_operationId r) now (fold journalStep es dir')"
    using journal_evidence.guarded_run_inv assms(2) by blast
  ultimately show ?thesis using evidence_read journalOpen_read [OF assms(1)] by blast
qed

definition sample_record :: device_operation_record where
  "sample_record =
     \<lparr>do_operationId = sample_operation_id, do_queueName = ''q'', do_submittedAt = ''t'',
      do_documentCount = 1, do_documents = [\<lparr>dd_position = 0, dd_jobId = None, dd_jobName = ''n''\<rparr>]\<rparr>"

theorem journal_remembers_submissions_witness:
  "\<exists>r'. journalRead sample_operation_id
    (fold journalStep [JE_Truncated (sample_operation_id @ RECORD_SUFFIX), JE_DiscardBefore 5]
      [\<lparr>je_name = sample_operation_id @ RECORD_SUFFIX, je_isFile = True, je_mtimeMs = 7,
        je_contents = Some (recordJson sample_record)\<rparr>]) = Inr (Some r')"
proof -
  have "journalOpen 7 sample_record [] =
      Inr [\<lparr>je_name = sample_operation_id @ RECORD_SUFFIX, je_isFile = True, je_mtimeMs = 7,
        je_contents = Some (recordJson sample_record)\<rparr>]"
    by (simp add: journalOpen_def journalWrite_def recordName_def sample_record_def write_file_def lookup_entry_def)
  from journal_remembers_submissions [OF this,
      of "[JE_Truncated (sample_operation_id @ RECORD_SUFFIX), JE_DiscardBefore 5]"]
  have "\<exists>r'. journalRead (do_operationId sample_record)
    (fold journalStep [JE_Truncated (sample_operation_id @ RECORD_SUFFIX), JE_DiscardBefore 5]
      [\<lparr>je_name = sample_operation_id @ RECORD_SUFFIX, je_isFile = True, je_mtimeMs = 7,
        je_contents = Some (recordJson sample_record)\<rparr>]) = Inr (Some r')"
    unfolding list.pred_inject keeps_evidence.simps by simp
  moreover have "do_operationId sample_record = sample_operation_id" by (simp add: sample_record_def)
  ultimately show ?thesis by simp
qed

end
