(* ===== verification/Printer_Adapter.thy ===== *)
theory Printer_Adapter
  imports Print_Submission
begin

text \<open>
  The interface of a printing device (\<open>PrinterAdapter\<close> of
  \<^verbatim>\<open>packages/printer-adapters/src/types.ts\<close>): what a caller may call, and the contract its
  comments state, as a locale. The contract is about two questions: whether the device holds
  evidence that an operation reached it, and whether it produced output for it. A process
  killed inside a call leaves the state the call had reached.
\<close>

section \<open>Calls that may throw or never return\<close>

text \<open>
  What a caller may catch: an adapter error, an error of a second instance of the adapters'
  module (its code, its ambiguity flag and its stage), or any other error (its message).
\<close>

datatype thrown =
    Thrown_adapter adapter_error
  | Thrown_foreign string bool "string option"
  | Thrown_other string

datatype 'a outcome = Done 'a | Killed

record ('o, 's) adapter =
  ad_submit :: "'o \<Rightarrow> print_submission \<Rightarrow> 's \<Rightarrow> (thrown + print_operation_status) outcome \<times> 's"
  ad_status :: "nat \<Rightarrow> string \<Rightarrow> 's \<Rightarrow> thrown + print_operation_status"

definition unambiguous :: "thrown \<Rightarrow> bool" where
  "unambiguous e =
     (case e of Thrown_adapter a \<Rightarrow> \<not> ae_submissionAmbiguous a
      | Thrown_foreign c amb st \<Rightarrow> \<not> amb | Thrown_other m \<Rightarrow> False)"

definition nothing_printed :: "print_operation_status \<Rightarrow> bool" where
  "nothing_printed st = proved_nothing_printed (device_result_of st)"

text \<open>
  The first argument of \<open>ad_submit\<close> is everything the device and its host decide (faults,
  where the process is killed); that of \<open>ad_status\<close> numbers the polls, whose answers may
  differ while a device works. \<open>takes\<close> is what the caller may hand over at all; what is promised of a
  submission is promised of one the device holds no evidence of.
\<close>

locale printer_adapter =
  fixes ad :: "('o, 's) adapter"
    and takes :: "print_submission \<Rightarrow> bool"
    and well :: "'s \<Rightarrow> bool"
    and evidence_of :: "'s \<Rightarrow> string \<Rightarrow> bool"
    and output_of :: "'s \<Rightarrow> string \<Rightarrow> bool"
  assumes output_needs_evidence: "well s \<Longrightarrow> output_of s op \<Longrightarrow> evidence_of s op"
    and submit_well: "well s \<Longrightarrow> takes sub \<Longrightarrow> \<not> evidence_of s (ps_operationId sub) \<Longrightarrow>
      ad_submit ad d sub s = (r, s') \<Longrightarrow> well s'"
    and submit_others: "well s \<Longrightarrow> takes sub \<Longrightarrow> \<not> evidence_of s (ps_operationId sub) \<Longrightarrow>
      ad_submit ad d sub s = (r, s') \<Longrightarrow> op \<noteq> ps_operationId sub \<Longrightarrow> evidence_of s' op = evidence_of s op"
    and submit_refused: "well s \<Longrightarrow> takes sub \<Longrightarrow> \<not> evidence_of s (ps_operationId sub) \<Longrightarrow>
      ad_submit ad d sub s = (Done (Inl e), s') \<Longrightarrow> unambiguous e \<Longrightarrow> \<not> output_of s' (ps_operationId sub)"
    and submit_accepted: "well s \<Longrightarrow> takes sub \<Longrightarrow> \<not> evidence_of s (ps_operationId sub) \<Longrightarrow>
      ad_submit ad d sub s = (Done (Inr st), s') \<Longrightarrow> evidence_of s' (ps_operationId sub)"
    and submit_nothing: "well s \<Longrightarrow> takes sub \<Longrightarrow> \<not> evidence_of s (ps_operationId sub) \<Longrightarrow>
      ad_submit ad d sub s = (Done (Inr st), s') \<Longrightarrow> nothing_printed st \<Longrightarrow> \<not> output_of s' (ps_operationId sub)"
    and status_not_submitted: "well s \<Longrightarrow> ad_status ad n op s = Inr st \<Longrightarrow> os_state st = D_NOT_SUBMITTED \<Longrightarrow>
      \<not> evidence_of s op"
    and status_nothing: "well s \<Longrightarrow> ad_status ad n op s = Inr st \<Longrightarrow> nothing_printed st \<Longrightarrow> \<not> output_of s op"

end
