(* ===== verification/Mock_Printer.thy ===== *)
theory Mock_Printer
  imports Printer_Adapter "HOL-Library.AList"
begin

text \<open>
  \<^verbatim>\<open>packages/printer-adapters/src/mock/adapter.ts\<close>: the printer that writes files. The output
  directory is the list of its entries; an operation's directory holds the two markers and
  the copied documents. Every file operation may fail or be the moment the process is
  killed, as an oracle says. \<open>access\<close> is taken to fail only on a missing path.

  The lemmas interpret the adapter contract on this model: evidence is written before any
  output, a refusal leaves nothing behind, what it confirms is true.
\<close>

section \<open>Scenarios and the output directory\<close>

datatype mock_scenario =
    SC_SUCCESS | SC_WARNING | SC_OFFLINE | SC_PAPER_JAM | SC_OUT_OF_PAPER | SC_CANCELED | SC_TIMEOUT
  | SC_UNKNOWN_AFTER_SUBMIT

fun scenario_name :: "mock_scenario \<Rightarrow> string" where
  "scenario_name SC_SUCCESS = ''SUCCESS''"
| "scenario_name SC_WARNING = ''WARNING''"
| "scenario_name SC_OFFLINE = ''OFFLINE''"
| "scenario_name SC_PAPER_JAM = ''PAPER_JAM''"
| "scenario_name SC_OUT_OF_PAPER = ''OUT_OF_PAPER''"
| "scenario_name SC_CANCELED = ''CANCELED''"
| "scenario_name SC_TIMEOUT = ''TIMEOUT''"
| "scenario_name SC_UNKNOWN_AFTER_SUBMIT = ''UNKNOWN_AFTER_SUBMIT''"

definition MOCK_PRINTER_SCENARIOS :: "mock_scenario list" where
  "MOCK_PRINTER_SCENARIOS =
     [SC_SUCCESS, SC_WARNING, SC_OFFLINE, SC_PAPER_JAM, SC_OUT_OF_PAPER, SC_CANCELED, SC_TIMEOUT,
      SC_UNKNOWN_AFTER_SUBMIT]"

definition resolveScenario :: "string option \<Rightarrow> mock_scenario option \<Rightarrow> mock_scenario" where
  "resolveScenario requested fallback =
     (case List.find (\<lambda>s. Some (scenario_name s) = requested) MOCK_PRINTER_SCENARIOS of
        Some known \<Rightarrow> known
      | None \<Rightarrow> (case fallback of Some f \<Rightarrow> f | None \<Rightarrow> SC_SUCCESS))"

record mock_operation =
  mo_name :: string
  mo_isDirectory :: bool
  mo_mtimeMs :: int
  mo_submissionMarker :: bool
  mo_completionMarker :: bool
  mo_documents :: "(string \<times> string) list" \<comment> \<open>output name, source path\<close>

type_synonym mock_output = "mock_operation list"

definition find_operation :: "string \<Rightarrow> mock_output \<Rightarrow> mock_operation option" where
  "find_operation op out = List.find (\<lambda>o'. mo_name o' = op) out"

definition change_operation :: "string \<Rightarrow> (mock_operation \<Rightarrow> mock_operation) \<Rightarrow> mock_output \<Rightarrow> mock_output" where
  "change_operation op f out = updated (\<lambda>o'. mo_name o' = op) f out"

text \<open>
  How one file operation goes: it happens, it fails (leaving the file or not), or the
  process dies (before it or after the file exists). The oracle of a submission gives the
  fate of each of its steps.
\<close>

datatype io = Io_ok | Io_failed bool | Io_killed bool

record mock_oracle =
  mk_nowMs :: int
  mk_mkdir :: io
  mk_submissionMarker :: io
  mk_copies :: "io list"
  mk_completionMarker :: io

definition padPosition :: "int \<Rightarrow> string" where
  "padPosition position = pad3 position"

definition outputName :: "print_operation_artifact \<Rightarrow> string" where
  "outputName a = ''document-'' @ padPosition (pa_position a) @ ''.pdf''"

datatype step_end = Go_on | Throw thrown | Die

text \<open>\<open>mkdir\<close> with \<open>recursive\<close>: an existing directory is fine, an existing file is not.\<close>

definition makeDirectory :: "io \<Rightarrow> int \<Rightarrow> string \<Rightarrow> mock_output \<Rightarrow> step_end \<times> mock_output" where
  "makeDirectory i now op out =
     (let created =
        (case find_operation op out of
           Some _ \<Rightarrow> out
         | None \<Rightarrow> out @ [\<lparr>mo_name = op, mo_isDirectory = True, mo_mtimeMs = now, mo_submissionMarker = False,
                          mo_completionMarker = False, mo_documents = []\<rparr>]) in
      case i of
        Io_ok \<Rightarrow>
          (case find_operation op out of
             Some e \<Rightarrow> if mo_isDirectory e then (Go_on, out) else (Throw (Thrown_other ''EEXIST''), out)
           | None \<Rightarrow> (Go_on, created))
      | Io_failed _ \<Rightarrow> (Throw (Thrown_other ''EIO''), out)
      | Io_killed done \<Rightarrow> (Die, if done then created else out))"

text \<open>\<open>writeJson\<close> and \<open>copyFile\<close>: a failure is reported as an ambiguous submission.\<close>

definition writeStep ::
  "io \<Rightarrow> string \<Rightarrow> (mock_operation \<Rightarrow> mock_operation) \<Rightarrow> mock_output \<Rightarrow> step_end \<times> mock_output" where
  "writeStep i op f out =
     (case i of
        Io_ok \<Rightarrow> (Go_on, change_operation op f out)
      | Io_failed left \<Rightarrow>
          (Throw (Thrown_adapter (ambiguousAdapterError OUTPUT_WRITE_FAILED)),
           if left then change_operation op f out else out)
      | Io_killed left \<Rightarrow> (Die, if left then change_operation op f out else out))"

definition recordSubmission :: "mock_oracle \<Rightarrow> string \<Rightarrow> mock_output \<Rightarrow> step_end \<times> mock_output" where
  "recordSubmission k op out =
     (case makeDirectory (mk_mkdir k) (mk_nowMs k) op out of
        (Go_on, out') \<Rightarrow>
          writeStep (mk_submissionMarker k) op
            (\<lambda>o'. o'\<lparr>mo_submissionMarker := True, mo_mtimeMs := max (mo_mtimeMs o') (mk_nowMs k)\<rparr>) out'
      | r \<Rightarrow> r)"

definition addDocument :: "print_operation_artifact \<Rightarrow> mock_operation \<Rightarrow> mock_operation" where
  "addDocument a o' = o'\<lparr>mo_documents := AList.update (outputName a) (pa_path a) (mo_documents o')\<rparr>"

fun writeArtifacts ::
  "io list \<Rightarrow> string \<Rightarrow> print_operation_artifact list \<Rightarrow> mock_output \<Rightarrow> step_end \<times> mock_output" where
  "writeArtifacts is op [] out = (Go_on, out)"
| "writeArtifacts is op (a # as) out =
     (let (i, rest) = (case is of [] \<Rightarrow> (Io_ok, []) | i # is' \<Rightarrow> (i, is')) in
      case writeStep i op (addDocument a) out of
        (Go_on, out') \<Rightarrow> writeArtifacts rest op as out'
      | r \<Rightarrow> r)"

section \<open>The operations of the adapter\<close>

definition mockSubmit ::
  "platform \<Rightarrow> mock_scenario option \<Rightarrow> mock_oracle \<Rightarrow> print_submission \<Rightarrow> mock_output
   \<Rightarrow> (thrown + print_operation_status) outcome \<times> mock_output" where
  "mockSubmit plat defaultScenario k sub out =
     (let op = ps_operationId sub;
          sheets = pm_physicalSheets (ps_manifest sub);
          answer = (\<lambda>st conf code warn n out.
             (Done (Inr (operationStatus op st conf code warn n None)), out)) in
      if \<not> is_uuid op then (Done (Inl (Thrown_adapter (adapterError OPERATION_ID_INVALID))), out)
      else
      (case assertSubmittable plat sub of
         Inl e \<Rightarrow> (Done (Inl (Thrown_adapter e)), out)
       | Inr _ \<Rightarrow>
         (let behaviour = resolveScenario (ps_deviceScenario sub) defaultScenario in
          if behaviour = SC_OFFLINE then (Done (Inl (Thrown_adapter (adapterError PRINTER_OFFLINE))), out)
          else
          (case recordSubmission k op out of
             (Throw e, out1) \<Rightarrow> (Done (Inl e), out1)
           | (Die, out1) \<Rightarrow> (Killed, out1)
           | (Go_on, out1) \<Rightarrow>
             if behaviour = SC_OUT_OF_PAPER
             then answer D_FAILED CONFIRMED (Some ''OUT_OF_PAPER'') None (Some 0) out1
             else if behaviour = SC_CANCELED
             then answer D_CANCELED UNCONFIRMED (Some ''CANCELED_AT_DEVICE'') None (Some 0) out1
             else if behaviour = SC_TIMEOUT
             then answer D_UNKNOWN UNCONFIRMED (Some ''DEVICE_TIMEOUT'') None None out1
             else if behaviour = SC_PAPER_JAM
             then (case writeArtifacts (mk_copies k) op (take 1 (ps_artifacts sub)) out1 of
                     (Throw e, out2) \<Rightarrow> (Done (Inl e), out2)
                   | (Die, out2) \<Rightarrow> (Killed, out2)
                   | (Go_on, out2) \<Rightarrow>
                       answer D_FAILED UNCONFIRMED (Some ''PAPER_JAM'') None (Some (sheets div 2)) out2)
             else
             (case writeArtifacts (mk_copies k) op (ps_artifacts sub) out1 of
                (Throw e, out2) \<Rightarrow> (Done (Inl e), out2)
              | (Die, out2) \<Rightarrow> (Killed, out2)
              | (Go_on, out2) \<Rightarrow>
                (case writeStep (mk_completionMarker k) op (\<lambda>o'. o'\<lparr>mo_completionMarker := True\<rparr>) out2 of
                   (Throw e, out3) \<Rightarrow> (Done (Inl e), out3)
                 | (Die, out3) \<Rightarrow> (Killed, out3)
                 | (Go_on, out3) \<Rightarrow>
                   if behaviour = SC_UNKNOWN_AFTER_SUBMIT
                   then (Done (Inl (Thrown_adapter (ambiguousAdapterError SUBMISSION_UNCONFIRMED))), out3)
                   else answer D_COMPLETED CONFIRMED None
                     (if behaviour = SC_WARNING then Some ''TONER_LOW'' else None) (Some sheets) out3))))))"

definition hasMarker :: "(mock_operation \<Rightarrow> bool) \<Rightarrow> string \<Rightarrow> mock_output \<Rightarrow> bool" where
  "hasMarker marker op out =
     (case find_operation op out of None \<Rightarrow> False | Some e \<Rightarrow> mo_isDirectory e \<and> marker e)"

definition mockStatus :: "string \<Rightarrow> mock_output \<Rightarrow> thrown + print_operation_status" where
  "mockStatus op out =
     (if \<not> is_uuid op then Inl (Thrown_adapter (adapterError OPERATION_ID_INVALID))
      else if hasMarker mo_completionMarker op out
      then Inr (operationStatus op D_COMPLETED UNCONFIRMED None None None None)
      else if hasMarker mo_submissionMarker op out
      then Inr (operationStatus op D_UNKNOWN UNCONFIRMED (Some ''SUBMISSION_UNCONFIRMED'') None None None)
      else Inr (operationStatus op D_NOT_SUBMITTED CONFIRMED None None (Some 0) None))"

definition mockCancel :: "string \<Rightarrow> mock_output \<Rightarrow> thrown + print_operation_status" where
  "mockCancel op out =
     bind_result (mockStatus op out) (\<lambda>current.
       if os_state current = D_COMPLETED then Inr current
       else if os_state current = D_NOT_SUBMITTED
       then Inr (operationStatus op D_CANCELED CONFIRMED (Some ''CANCELED_BEFORE_SUBMIT'') None (Some 0) None)
       else Inr (operationStatus op D_CANCELED UNCONFIRMED (Some ''CANCELED_AT_DEVICE'') None None None))"

definition mockDiscardOutput :: "string \<Rightarrow> mock_output \<Rightarrow> thrown + mock_output" where
  "mockDiscardOutput op out =
     (if \<not> is_uuid op then Inl (Thrown_adapter (adapterError OPERATION_ID_INVALID))
      else Inr (filter (\<lambda>o'. mo_name o' \<noteq> op) out))"

definition staleOutput :: "int \<Rightarrow> mock_operation \<Rightarrow> bool" where
  "staleOutput cutoff o' \<longleftrightarrow> mo_isDirectory o' \<and> is_uuid (mo_name o') \<and> \<not> (cutoff \<le> mo_mtimeMs o')"

definition mockDiscardOutputsBefore :: "int \<Rightarrow> mock_output \<Rightarrow> nat \<times> mock_output" where
  "mockDiscardOutputsBefore cutoff out =
     (length (filter (staleOutput cutoff) out), filter (\<lambda>o'. \<not> staleOutput cutoff o') out)"

definition mock_adapter :: "platform \<Rightarrow> mock_scenario option \<Rightarrow> (mock_oracle, mock_output) adapter" where
  "mock_adapter plat defaultScenario =
     \<lparr>ad_submit = mockSubmit plat defaultScenario, ad_status = (\<lambda>n. mockStatus)\<rparr>"

section \<open>The contract of the mock printer\<close>

definition mock_evidence :: "mock_output \<Rightarrow> string \<Rightarrow> bool" where
  "mock_evidence out op = hasMarker mo_submissionMarker op out"

definition mock_output_of :: "mock_output \<Rightarrow> string \<Rightarrow> bool" where
  "mock_output_of out op = hasMarker (\<lambda>e. mo_documents e \<noteq> []) op out"

text \<open>Documents and completion come after the submission marker.\<close>

definition marked_first :: "mock_operation \<Rightarrow> bool" where
  "marked_first e \<longleftrightarrow> (mo_documents e \<noteq> [] \<or> mo_completionMarker e \<longrightarrow> mo_submissionMarker e)"

definition mock_well :: "mock_output \<Rightarrow> bool" where
  "mock_well out \<longleftrightarrow> (\<forall>op e. find_operation op out = Some e \<longrightarrow> marked_first e)"

text \<open>What every step of a submission respects.\<close>

definition mock_progress :: "string \<Rightarrow> mock_output \<Rightarrow> mock_output \<Rightarrow> bool" where
  "mock_progress op out out' \<longleftrightarrow>
     (\<forall>n. n \<noteq> op \<longrightarrow> find_operation n out' = find_operation n out) \<and>
     (mock_evidence out op \<longrightarrow> mock_evidence out' op) \<and> (mock_well out \<longrightarrow> mock_well out')"

lemma mock_progress_refl [simp]: "mock_progress op out out"
  by (simp add: mock_progress_def)

lemma mock_progress_trans: "mock_progress op a b \<Longrightarrow> mock_progress op b c \<Longrightarrow> mock_progress op a c"
  by (simp add: mock_progress_def)

lemma find_change:
  assumes "\<And>e. mo_name (f e) = mo_name e"
  shows "find_operation n (change_operation op f out) =
    (if n = op then map_option f (find_operation n out) else find_operation n out)"
  using assms by (induction out) (auto simp: find_operation_def change_operation_def)

lemma find_append:
  "find_operation n (out @ [e]) =
    (case find_operation n out of Some x \<Rightarrow> Some x | None \<Rightarrow> if mo_name e = n then Some e else None)"
  by (induction out) (auto simp: find_operation_def)

lemma change_progress:
  assumes "\<And>e. mo_name (f e) = mo_name e \<and> mo_isDirectory (f e) = mo_isDirectory e"
    and "\<And>e. mo_submissionMarker e \<Longrightarrow> mo_submissionMarker (f e)"
    and "\<And>e. find_operation op out = Some e \<Longrightarrow> marked_first e \<Longrightarrow> marked_first (f e)"
  shows "mock_progress op out (change_operation op f out)"
  using assms
  by (auto simp: mock_progress_def find_change mock_evidence_def hasMarker_def mock_well_def
      split: option.splits if_splits)

lemma writeStep_progress:
  assumes "writeStep i op f out = (r, out')" and "mock_progress op out (change_operation op f out)"
  shows "mock_progress op out out' \<and> (r = Go_on \<longrightarrow> out' = change_operation op f out)
    \<and> (\<forall>e. r = Throw e \<longrightarrow> \<not> unambiguous e)"
  using assms
  by (cases i) (auto simp: writeStep_def unambiguous_def ambiguousAdapterError_def split: if_splits)

lemma makeDirectory_progress:
  assumes "makeDirectory i now op out = (r, out')"
  shows "mock_progress op out out' \<and> (\<forall>e. r = Throw e \<longrightarrow> \<not> unambiguous e) \<and>
    (r = Go_on \<longrightarrow> (\<exists>e. find_operation op out' = Some e \<and> mo_isDirectory e)) \<and>
    (\<not> mock_output_of out op \<longrightarrow> \<not> mock_output_of out' op)"
proof -
  let ?new = "\<lparr>mo_name = op, mo_isDirectory = True, mo_mtimeMs = now, mo_submissionMarker = False,
    mo_completionMarker = False, mo_documents = []\<rparr>"
  have new: "mock_progress op out (out @ [?new]) \<and> find_operation op (out @ [?new]) = Some ?new"
    if "find_operation op out = None"
    using that by (auto simp: mock_progress_def find_append mock_evidence_def hasMarker_def mock_well_def
        marked_first_def split: option.splits)
  show ?thesis
    using assms new
    by (cases i; cases "find_operation op out")
      (auto simp: makeDirectory_def unambiguous_def mock_output_of_def hasMarker_def split: if_splits)
qed

lemma recordSubmission_progress:
  assumes "recordSubmission k op out = (r, out')"
  shows "mock_progress op out out' \<and> (\<forall>e. r = Throw e \<longrightarrow> \<not> unambiguous e) \<and>
    (r = Go_on \<longrightarrow> mock_evidence out' op) \<and> (\<not> mock_output_of out op \<longrightarrow> \<not> mock_output_of out' op)"
proof -
  let ?f = "\<lambda>o'. o'\<lparr>mo_submissionMarker := True, mo_mtimeMs := max (mo_mtimeMs o') (mk_nowMs k)\<rparr>"
  obtain r1 out1 where m: "makeDirectory (mk_mkdir k) (mk_nowMs k) op out = (r1, out1)" by force
  note m' = makeDirectory_progress [OF m]
  show ?thesis
  proof (cases "r1 = Go_on")
    case False
    with assms m have "r = r1 \<and> out' = out1" by (cases r1) (simp_all add: recordSubmission_def)
    with m' False show ?thesis by blast
  next
    case True
    with assms m have w: "writeStep (mk_submissionMarker k) op ?f out1 = (r, out')"
      by (simp add: recordSubmission_def)
    have "mock_progress op out1 (change_operation op ?f out1)"
      by (rule change_progress) (simp_all add: marked_first_def)
    note w' = writeStep_progress [OF w this]
    have "out' = out1 \<or> out' = change_operation op ?f out1"
      using w by (cases "mk_submissionMarker k") (auto simp: writeStep_def split: if_splits)
    then have "mock_output_of out' op = mock_output_of out1 op"
      by (auto simp: mock_output_of_def hasMarker_def find_change split: option.splits)
    moreover obtain e where "find_operation op out1 = Some e" "mo_isDirectory e" using m' True by blast
    then have "mock_evidence (change_operation op ?f out1) op"
      by (simp add: mock_evidence_def hasMarker_def find_change)
    ultimately show ?thesis using m' w' mock_progress_trans by auto
  qed
qed

lemma addDocument_progress:
  assumes "mock_evidence out op"
  shows "mock_progress op out (change_operation op (addDocument a) out)"
  using assms
  by (intro change_progress) (auto simp: addDocument_def marked_first_def mock_evidence_def hasMarker_def)

lemma writeArtifacts_progress:
  "writeArtifacts is op as out = (r, out') \<Longrightarrow> mock_evidence out op \<Longrightarrow>
    mock_progress op out out' \<and> (\<forall>e. r = Throw e \<longrightarrow> \<not> unambiguous e)"
proof (induction "is" op as out arbitrary: r out' rule: writeArtifacts.induct)
  case (2 "is" op a as out)
  define i rest where "i = (case is of [] \<Rightarrow> Io_ok | i # is' \<Rightarrow> i)"
    and "rest = (case is of [] \<Rightarrow> [] | i # is' \<Rightarrow> is')"
  have split: "(case is of [] \<Rightarrow> (Io_ok, []) | i # is' \<Rightarrow> (i, is')) = (i, rest)"
    by (cases "is") (simp_all add: i_def rest_def)
  obtain r1 out1 where w: "writeStep i op (addDocument a) out = (r1, out1)" by force
  note w' = writeStep_progress [OF w addDocument_progress [OF 2(3)]]
  show ?case
  proof (cases "r1 = Go_on")
    case False
    with 2(2) w have "r = r1 \<and> out' = out1" by (cases r1) (simp_all add: split)
    with w' show ?thesis by blast
  next
    case True
    with 2(2) w have rest: "writeArtifacts rest op as out1 = (r, out')" by (simp add: split)
    have "mock_evidence out1 op" using w' 2(3) by (auto simp: mock_progress_def)
    with 2(1) [OF split [symmetric] refl w [symmetric] True rest] w' show ?thesis
      using mock_progress_trans by blast
  qed
qed simp

definition document_names :: "string \<Rightarrow> mock_output \<Rightarrow> string set" where
  "document_names op out =
     (case find_operation op out of None \<Rightarrow> {} | Some e \<Rightarrow> fst ` set (mo_documents e))"

lemma addDocument_names:
  assumes "mock_evidence out op"
  shows "document_names op (change_operation op (addDocument a) out) = insert (outputName a) (document_names op out)"
  using assms
  by (auto simp: document_names_def find_change addDocument_def mock_evidence_def hasMarker_def
      AList.dom_update image_iff split: option.splits)

lemma writeArtifacts_names:
  "writeArtifacts is op as out = (Go_on, out') \<Longrightarrow> mock_evidence out op \<Longrightarrow>
    document_names op out' = outputName ` set as \<union> document_names op out"
proof (induction "is" op as out arbitrary: out' rule: writeArtifacts.induct)
  case (2 "is" op a as out)
  define i rest where "i = (case is of [] \<Rightarrow> Io_ok | i # is' \<Rightarrow> i)"
    and "rest = (case is of [] \<Rightarrow> [] | i # is' \<Rightarrow> is')"
  have split: "(case is of [] \<Rightarrow> (Io_ok, []) | i # is' \<Rightarrow> (i, is')) = (i, rest)"
    by (cases "is") (simp_all add: i_def rest_def)
  obtain r1 out1 where w: "writeStep i op (addDocument a) out = (r1, out1)" by force
  note w' = writeStep_progress [OF w addDocument_progress [OF 2(3)]]
  from 2(2) w have go: "r1 = Go_on" by (cases r1) (simp_all add: split)
  with 2(2) w have rest: "writeArtifacts rest op as out1 = (Go_on, out')" by (simp add: split)
  have "mock_evidence out1 op" using w' 2(3) by (auto simp: mock_progress_def)
  from 2(1) [OF split [symmetric] refl w [symmetric] go rest this] w' go
  show ?case using addDocument_names [OF 2(3)] by simp
qed simp

lemma completion_progress:
  "mock_evidence out op \<Longrightarrow> mock_progress op out (change_operation op (\<lambda>o'. o'\<lparr>mo_completionMarker := True\<rparr>) out)"
  by (intro change_progress) (auto simp: marked_first_def mock_evidence_def hasMarker_def)

lemma completion_names:
  "document_names op (change_operation op (\<lambda>o'. o'\<lparr>mo_completionMarker := True\<rparr>) out) = document_names op out"
  by (simp add: document_names_def find_change split: option.splits)

lemma completion_marked:
  "mock_evidence out op \<Longrightarrow>
    hasMarker mo_completionMarker op (change_operation op (\<lambda>o'. o'\<lparr>mo_completionMarker := True\<rparr>) out)"
  by (auto simp: mock_evidence_def hasMarker_def find_change split: option.splits)

text \<open>Everything a submission may do, from its first step to its answer.\<close>

lemma mockSubmit_cases:
  assumes "mockSubmit plat dflt k sub out = (r, out')"
  shows "mock_progress (ps_operationId sub) out out' \<and>
    (\<forall>e. r = Done (Inl e) \<longrightarrow> unambiguous e \<longrightarrow> out' = out) \<and>
    (\<forall>st. r = Done (Inr st) \<longrightarrow> mock_evidence out' (ps_operationId sub) \<and>
       (nothing_printed st \<longrightarrow> \<not> mock_output_of out (ps_operationId sub) \<longrightarrow> \<not> mock_output_of out' (ps_operationId sub)) \<and>
       (proved_output (device_result_of st) \<longrightarrow> os_sheetsProduced st = Some (pm_physicalSheets (ps_manifest sub)) \<and>
          hasMarker mo_completionMarker (ps_operationId sub) out' \<and>
          outputName ` set (ps_artifacts sub) \<subseteq> document_names (ps_operationId sub) out'))"
proof -
  let ?op = "ps_operationId sub" and ?b = "resolveScenario (ps_deviceScenario sub) dflt"
  note defs = nothing_printed_def proved_nothing_printed_def proved_output_def device_result_of_def operationStatus_def
  show ?thesis
  proof (cases "is_uuid ?op \<and> assertSubmittable plat sub = Inr () \<and> ?b \<noteq> SC_OFFLINE")
    case False
    with assms show ?thesis by (auto simp: mockSubmit_def Let_def split: if_splits sum.splits)
  next
    case True
    obtain r1 out1 where rs: "recordSubmission k ?op out = (r1, out1)" by force
    note rs' = recordSubmission_progress [OF rs]
    show ?thesis
    proof (cases "r1 = Go_on")
      case False
      with assms True rs rs' show ?thesis by (cases r1) (auto simp: mockSubmit_def Let_def)
    next
      case go1: True
      then have ev: "mock_evidence out1 ?op" using rs' by blast
      let ?count = "if ?b = SC_PAPER_JAM then take 1 (ps_artifacts sub) else ps_artifacts sub"
      obtain r2 out2 where wa: "writeArtifacts (mk_copies k) ?op ?count out1 = (r2, out2)" by force
      note wa' = writeArtifacts_progress [OF wa ev]
      have p2: "mock_progress ?op out out2" using rs' wa' mock_progress_trans by blast
      show ?thesis
      proof (cases "?b \<in> {SC_OUT_OF_PAPER, SC_CANCELED, SC_TIMEOUT}")
        case True
        with assms \<open>is_uuid ?op \<and> _\<close> rs go1 rs' ev show ?thesis
          by (auto simp: mockSubmit_def Let_def defs)
      next
        case notEarly: False
        have ev2: "mock_evidence out2 ?op" using wa' ev by (simp add: mock_progress_def)
        obtain r3 out3 where ws: "writeStep (mk_completionMarker k) ?op (\<lambda>o'. o'\<lparr>mo_completionMarker := True\<rparr>) out2 = (r3, out3)"
          by force
        note ws' = writeStep_progress [OF ws completion_progress [OF ev2]]
        have p3: "mock_progress ?op out out3" using p2 ws' mock_progress_trans by blast
        have ev3: "mock_evidence out3 ?op" using ws' ev2 by (simp add: mock_progress_def)
        have done3: "hasMarker mo_completionMarker ?op out3 \<and> outputName ` set (ps_artifacts sub) \<subseteq> document_names ?op out3"
          if "r2 = Go_on" "r3 = Go_on" "?b \<noteq> SC_PAPER_JAM"
          using ws' that completion_marked [OF ev2] completion_names [of ?op out2]
            writeArtifacts_names [OF _ ev, of "mk_copies k" "ps_artifacts sub" out2] wa by auto
        show ?thesis
        proof (cases "?b = SC_PAPER_JAM")
          case jam: True
          with assms True rs go1 wa p2 ev2 wa' show ?thesis
            by (cases r2) (auto simp: mockSubmit_def Let_def defs)
        next
          case noJam: False
          show ?thesis
          proof (cases "r2 = Go_on")
            case False
            with assms True rs go1 wa p2 wa' notEarly noJam show ?thesis
              by (cases r2) (auto simp: mockSubmit_def Let_def)
          next
            case go2: True
            show ?thesis
            proof (cases "r3 = Go_on")
              case False
              with assms True rs go1 wa go2 p3 ws ws' notEarly noJam show ?thesis
                by (cases r3) (auto simp: mockSubmit_def Let_def)
            next
              case go3: True
              with assms True rs go1 wa go2 p3 ws notEarly noJam ev3 done3 [OF go2 go3 noJam] show ?thesis
                by (auto simp: mockSubmit_def Let_def defs unambiguous_def ambiguousAdapterError_def split: if_splits)
            qed
          qed
        qed
      qed
    qed
  qed
qed

lemma mock_output_evidence: "mock_well out \<Longrightarrow> mock_output_of out op \<Longrightarrow> mock_evidence out op"
  by (auto simp: mock_well_def mock_output_of_def mock_evidence_def hasMarker_def marked_first_def
      split: option.splits)

lemma mockStatus_cases:
  assumes "mockStatus op out = Inr st"
  shows "(os_state st = D_NOT_SUBMITTED \<longrightarrow> \<not> mock_evidence out op) \<and>
    (nothing_printed st \<longrightarrow> \<not> mock_evidence out op) \<and> \<not> proved_output (device_result_of st)"
  using assms
  by (auto simp: mockStatus_def operationStatus_def mock_evidence_def nothing_printed_def
      proved_nothing_printed_def proved_output_def device_result_of_def split: if_splits)

interpretation mock: printer_adapter "mock_adapter plat dflt" "\<lambda>_. True" mock_well mock_evidence mock_output_of
  for plat dflt
proof (unfold_locales, unfold mock_adapter_def adapter.simps)
  fix out out' op k sub r assume *: "mockSubmit plat dflt k sub out = (r, out')" "mock_well out"
  note c = mockSubmit_cases [OF *(1)]
  show "mock_well out'" using c * by (simp add: mock_progress_def)
  show "op \<noteq> ps_operationId sub \<Longrightarrow> mock_evidence out' op = mock_evidence out op"
    using c by (auto simp: mock_progress_def mock_evidence_def hasMarker_def)
qed (use mock_output_evidence mockStatus_cases mockSubmit_cases in \<open>blast+\<close>)

text \<open>
  What the mock printer confirms is true, whatever fails while it works: a confirmed
  success reports the manifest's sheets and left every document of the submission and the
  completion marker behind; a confirmed refusal or failure of an operation it held no
  evidence of left no document; an error that is not ambiguous changed nothing; and once it
  accepted an operation it never again answers that the operation was not submitted.
\<close>

theorem mock_printer_confirms_truthfully:
  assumes "mock_well out" and "mockSubmit plat dflt k sub out = (r, out')"
  shows "(\<forall>st. r = Done (Inr st) \<longrightarrow>
      (proved_output (device_result_of st) \<longrightarrow>
         os_sheetsProduced st = Some (pm_physicalSheets (ps_manifest sub)) \<and>
         hasMarker mo_completionMarker (ps_operationId sub) out' \<and>
         outputName ` set (ps_artifacts sub) \<subseteq> document_names (ps_operationId sub) out') \<and>
      (nothing_printed st \<longrightarrow> \<not> mock_evidence out (ps_operationId sub) \<longrightarrow>
         \<not> mock_output_of out' (ps_operationId sub)) \<and>
      (\<forall>known. mockStatus (ps_operationId sub) out' = Inr known \<longrightarrow> os_state known \<noteq> D_NOT_SUBMITTED)) \<and>
    (\<forall>e. r = Done (Inl e) \<longrightarrow> unambiguous e \<longrightarrow> out' = out) \<and> mock_well out'"
  using mockSubmit_cases [OF assms(2)] mock_output_evidence [OF assms(1)] mockStatus_cases assms(1)
  by (auto simp: mock_progress_def)

definition all_io_ok :: mock_oracle where
  "all_io_ok = \<lparr>mk_nowMs = 0, mk_mkdir = Io_ok, mk_submissionMarker = Io_ok, mk_copies = [], mk_completionMarker = Io_ok\<rparr>"

theorem mock_printer_confirms_truthfully_witness:
  "hasMarker mo_completionMarker sample_operation_id (snd (mockSubmit POSIX None all_io_ok sample_submission []))"
proof -
  let ?st = "operationStatus sample_operation_id D_COMPLETED CONFIRMED None None (Some 2) None"
  obtain out' where out': "mockSubmit POSIX None all_io_ok sample_submission [] = (Done (Inr ?st), out')"
  proof -
    have "fst (mockSubmit POSIX None all_io_ok sample_submission []) = Done (Inr ?st)" by code_simp
    then show thesis using that by (cases "mockSubmit POSIX None all_io_ok sample_submission []") auto
  qed
  have "mock_well []" by (simp add: mock_well_def find_operation_def)
  from mock_printer_confirms_truthfully [OF this out'] show ?thesis
    unfolding out' by (simp add: proved_output_def device_result_of_def operationStatus_def sample_submission_def)
qed

end
