(* ===== verification/Telemetry.thy ===== *)
theory Telemetry
  imports Prelude "HOL-Library.Word"
begin

unbundle bit_operations_syntax

text \<open>
  \<^verbatim>\<open>packages/printer-telemetry/src/{types,oids,snapshot}.ts\<close>: what the printer's own engine
  reports over SNMP, turned into a snapshot or refused. A binding carries an integer, octets
  or neither; octets are 8-bit words. Arcs of an index are read exactly, and the percentage
  of a supply is computed on rationals.

  The lemmas show that a snapshot comes only from the pinned printer, that the fault bits
  are decoded most significant bit first, and that no counter, tray or level is invented:
  every value of a snapshot is one the device reported in its column.
\<close>

section \<open>Readings and snapshots\<close>

record snmp_varbind =
  vb_oid :: string
  vb_integer :: "int option"
  vb_bytes :: "8 word list option"

datatype engine_state = E_PRINTING | E_IDLE | E_WARMUP | E_OTHER | E_UNKNOWN

datatype fault =
    LOW_PAPER | NO_PAPER | LOW_TONER | NO_TONER | DOOR_OPEN | JAMMED | F_OFFLINE | SERVICE_REQUESTED
  | INPUT_TRAY_MISSING | OUTPUT_TRAY_MISSING | MARKER_SUPPLY_MISSING | OUTPUT_NEAR_FULL | OUTPUT_FULL
  | INPUT_TRAY_EMPTY | OVERDUE_PREVENTIVE_MAINTENANCE

datatype counter_unit = U_IMPRESSIONS | U_SHEETS | U_UNKNOWN

record marker_counter =
  mc_lifeCount :: int
  mc_unit :: counter_unit

datatype paper_presence = PRESENT | EMPTY | P_UNKNOWN

record printer_input =
  pi_index :: int
  pi_presence :: paper_presence
  pi_sheets :: "int option"

record printer_supply =
  su_index :: int
  su_percentRemaining :: "int option"

record telemetry_snapshot =
  ts_readAt :: int
  ts_serialNumber :: string
  ts_engine :: engine_state
  ts_faults :: "fault list option"
  ts_marker :: "marker_counter option"
  ts_inputs :: "printer_input list option"
  ts_supplies :: "printer_supply list option"

datatype unavailable_reason = TIMEOUT | TRANSPORT_ERROR | IDENTITY_UNREADABLE | IDENTITY_MISMATCH | NO_USABLE_VALUES

datatype telemetry_result = Snapshot telemetry_snapshot | Unavailable unavailable_reason

record pinned_identity =
  id_serialNumber :: string
  id_macAddress :: string

datatype column =
    C_engine | C_errorState | C_markerLifeCount | C_markerCounterUnit | C_inputCurrentLevel
  | C_suppliesLevel | C_suppliesMaxCapacity | C_serialNumber | C_physicalAddress

fun TELEMETRY_COLUMNS :: "column \<Rightarrow> string" where
  "TELEMETRY_COLUMNS C_engine = ''1.3.6.1.2.1.25.3.5.1.1''"
| "TELEMETRY_COLUMNS C_errorState = ''1.3.6.1.2.1.25.3.5.1.2''"
| "TELEMETRY_COLUMNS C_markerLifeCount = ''1.3.6.1.2.1.43.10.2.1.4''"
| "TELEMETRY_COLUMNS C_markerCounterUnit = ''1.3.6.1.2.1.43.10.2.1.3''"
| "TELEMETRY_COLUMNS C_inputCurrentLevel = ''1.3.6.1.2.1.43.8.2.1.10''"
| "TELEMETRY_COLUMNS C_suppliesLevel = ''1.3.6.1.2.1.43.11.1.1.9''"
| "TELEMETRY_COLUMNS C_suppliesMaxCapacity = ''1.3.6.1.2.1.43.11.1.1.8''"
| "TELEMETRY_COLUMNS C_serialNumber = ''1.3.6.1.2.1.43.5.1.1.17''"
| "TELEMETRY_COLUMNS C_physicalAddress = ''1.3.6.1.2.1.2.2.1.6''"

text \<open>What a walk of each column returned; \<open>None\<close> for a column that was not read.\<close>

type_synonym readings = "column \<Rightarrow> snmp_varbind list option"

definition MAX_SERIAL_LENGTH :: nat where
  "MAX_SERIAL_LENGTH = 64"

definition MAX_COUNTER32 :: int where
  "MAX_COUNTER32 = 4294967295"

section \<open>Decoding\<close>

definition ERROR_STATE_BITS :: "fault list list" where
  "ERROR_STATE_BITS =
     [[LOW_PAPER, NO_PAPER, LOW_TONER, NO_TONER, DOOR_OPEN, JAMMED, F_OFFLINE, SERVICE_REQUESTED],
      [INPUT_TRAY_MISSING, OUTPUT_TRAY_MISSING, MARKER_SUPPLY_MISSING, OUTPUT_NEAR_FULL, OUTPUT_FULL,
       INPUT_TRAY_EMPTY, OVERDUE_PREVENTIVE_MAINTENANCE]]"

definition decodeEngineState :: "int \<Rightarrow> engine_state" where
  "decodeEngineState v =
     (if v = 1 then E_OTHER else if v = 3 then E_IDLE else if v = 4 then E_PRINTING
      else if v = 5 then E_WARMUP else E_UNKNOWN)"

fun decodeOctet :: "8 word \<Rightarrow> nat \<Rightarrow> fault list \<Rightarrow> fault list" where
  "decodeOctet octet bitIndex [] = []"
| "decodeOctet octet bitIndex (name # names) =
     (if octet AND drop_bit bitIndex 0x80 \<noteq> 0 then [name] else []) @ decodeOctet octet (Suc bitIndex) names"

text \<open>The loop over the table stops at the first octet the device did not send.\<close>

fun decodeOctets :: "fault list list \<Rightarrow> 8 word list \<Rightarrow> fault list" where
  "decodeOctets [] octets = []"
| "decodeOctets (names # table) [] = []"
| "decodeOctets (names # table) (octet # octets) = decodeOctet octet 0 names @ decodeOctets table octets"

definition decodeErrorState :: "8 word list \<Rightarrow> fault list" where
  "decodeErrorState octets = decodeOctets ERROR_STATE_BITS octets"

definition decodeCounterUnit :: "int \<Rightarrow> counter_unit" where
  "decodeCounterUnit v = (if v = 7 then U_IMPRESSIONS else if v = 8 then U_SHEETS else U_UNKNOWN)"

text \<open>Presence (\<open>None\<close> for null) and count.\<close>

definition decodeLevel :: "int \<Rightarrow> bool option \<times> int option" where
  "decodeLevel v =
     (if v = - 3 then (Some True, None)
      else if v = - 1 \<or> v = - 2 then (None, None)
      else if v < 0 then (None, None)
      else if v = 0 then (Some False, Some 0)
      else (Some True, Some v))"

text \<open>\<open>/^\d+(\.\d+)*$/\<close>: non-empty runs of digits separated by dots.\<close>

definition is_row_index :: "string \<Rightarrow> bool" where
  "is_row_index s = list_all (\<lambda>arc. arc \<noteq> [] \<and> list_all is_digit arc) (split_on (CHR ''.'') s)"

definition rowIndexOf :: "string \<Rightarrow> string \<Rightarrow> string option" where
  "rowIndexOf oid columnOid =
     (let prefix = columnOid @ ''.'' in
      if \<not> starts_with prefix oid then None
      else let remainder = drop (length prefix) oid in
        if remainder = [] then None
        else if is_row_index remainder then Some remainder else None)"

section \<open>Building a snapshot\<close>

definition column_rows :: "readings \<Rightarrow> column \<Rightarrow> snmp_varbind list" where
  "column_rows readings c = (case readings c of None \<Rightarrow> [] | Some vbs \<Rightarrow> vbs)"

definition in_column :: "column \<Rightarrow> snmp_varbind \<Rightarrow> bool" where
  "in_column c vb \<longleftrightarrow> rowIndexOf (vb_oid vb) (TELEMETRY_COLUMNS c) \<noteq> None"

definition matchesPinned :: "string \<Rightarrow> string \<Rightarrow> bool" where
  "matchesPinned reported pinned = (js_lower reported = js_lower (js_trim pinned))"

definition printable_text :: "8 word list \<Rightarrow> string option" where
  "printable_text bytes =
     (if list_all (\<lambda>b. \<not> (b < 0x20 \<or> 0x7E < b)) bytes then Some (map (\<lambda>b. char_of (unat b)) bytes) else None)"

definition serialOf :: "snmp_varbind \<Rightarrow> string option" where
  "serialOf vb =
     (if \<not> in_column C_serialNumber vb then None
      else case vb_bytes vb of
        None \<Rightarrow> None
      | Some bytes \<Rightarrow>
          if MAX_SERIAL_LENGTH < length bytes then None
          else case printable_text bytes of
            None \<Rightarrow> None
          | Some t \<Rightarrow> if js_trim t = [] then None else Some (js_trim t))"

text \<open>The loops that return from inside: the first binding that yields a value.\<close>

fun first_some :: "('a \<Rightarrow> 'b option) \<Rightarrow> 'a list \<Rightarrow> 'b option" where
  "first_some f [] = None"
| "first_some f (x # xs) = (case f x of Some y \<Rightarrow> Some y | None \<Rightarrow> first_some f xs)"

definition readSerialNumber :: "readings \<Rightarrow> string option" where
  "readSerialNumber readings = first_some serialOf (column_rows readings C_serialNumber)"

definition hex_char :: "nat \<Rightarrow> char" where
  "hex_char n = (if n < 10 then digit_char n else char_of (87 + n))"

definition hex_byte :: "8 word \<Rightarrow> string" where
  "hex_byte b = [hex_char (unat b div 16), hex_char (unat b mod 16)]"

definition macOf :: "snmp_varbind \<Rightarrow> string option" where
  "macOf vb =
     (if \<not> in_column C_physicalAddress vb then None
      else case vb_bytes vb of
        None \<Rightarrow> None
      | Some bytes \<Rightarrow>
          if length bytes \<noteq> 6 \<or> list_all (\<lambda>b. b = 0) bytes then None
          else Some (join_with (CHR '':'') (map hex_byte bytes)))"

definition readPhysicalAddresses :: "readings \<Rightarrow> string list option" where
  "readPhysicalAddresses readings =
     (case readings C_physicalAddress of
        None \<Rightarrow> None
      | Some vbs \<Rightarrow> let addresses = List.map_filter macOf vbs in if addresses = [] then None else Some addresses)"

definition firstInteger :: "readings \<Rightarrow> column \<Rightarrow> int option" where
  "firstInteger readings c =
     first_some (\<lambda>vb. if \<not> in_column c vb then None
                      else case vb_integer vb of Some n \<Rightarrow> if is_safe_integer n then Some n else None | None \<Rightarrow> None)
       (column_rows readings c)"

definition readEngineState :: "readings \<Rightarrow> engine_state" where
  "readEngineState readings =
     (case firstInteger readings C_engine of None \<Rightarrow> E_UNKNOWN | Some v \<Rightarrow> decodeEngineState v)"

definition readFaults :: "readings \<Rightarrow> fault list option" where
  "readFaults readings =
     first_some (\<lambda>vb. if \<not> in_column C_errorState vb then None else map_option decodeErrorState (vb_bytes vb))
       (column_rows readings C_errorState)"

definition integerRow :: "column \<Rightarrow> snmp_varbind \<Rightarrow> (string \<times> int) option" where
  "integerRow c vb =
     (case (rowIndexOf (vb_oid vb) (TELEMETRY_COLUMNS c), vb_integer vb) of
        (Some row, Some n) \<Rightarrow> if is_safe_integer n then Some (row, n) else None
      | _ \<Rightarrow> None)"

text \<open>The \<open>Map\<close> of \<open>indexed\<close>, in insertion order: the first writer of a row wins.\<close>

fun keep_first :: "(string \<times> int) list \<Rightarrow> (string \<times> int) list \<Rightarrow> (string \<times> int) list" where
  "keep_first rows [] = rows"
| "keep_first rows ((row, n) # rest) =
     keep_first (if map_of rows row = None then rows @ [(row, n)] else rows) rest"

definition indexed :: "readings \<Rightarrow> column \<Rightarrow> (string \<times> int) list" where
  "indexed readings c = keep_first [] (List.map_filter (integerRow c) (column_rows readings c))"

definition arcs :: "string \<Rightarrow> int list" where
  "arcs row = map (\<lambda>a. int (read_digits a)) (split_on (CHR ''.'') row)"

definition componentIndexOf :: "string \<Rightarrow> int option" where
  "componentIndexOf row = (let parsed = last (arcs row) in if is_safe_integer parsed then Some parsed else None)"

text \<open>The comparator: missing arcs count as \<open>-1\<close>.\<close>

fun compareArcs :: "int list \<Rightarrow> int list \<Rightarrow> int" where
  "compareArcs [] [] = 0"
| "compareArcs (a # as) [] = a + 1"
| "compareArcs [] (b # bs) = - 1 - b"
| "compareArcs (a # as) (b # bs) = (if a \<noteq> b then a - b else compareArcs as bs)"

definition compareRowIndex :: "string \<Rightarrow> string \<Rightarrow> int" where
  "compareRowIndex left right = compareArcs (arcs left) (arcs right)"

text \<open>\<open>Array.sort\<close> with a comparator: a stable sort.\<close>

fun insert_row :: "string \<Rightarrow> string list \<Rightarrow> string list" where
  "insert_row x [] = [x]"
| "insert_row x (y # ys) = (if compareRowIndex x y \<le> 0 then x # y # ys else y # insert_row x ys)"

definition sort_rows :: "string list \<Rightarrow> string list" where
  "sort_rows rows = foldr insert_row rows []"

definition readMarker :: "readings \<Rightarrow> marker_counter option" where
  "readMarker readings =
     (let counts = indexed readings C_markerLifeCount; units = indexed readings C_markerCounterUnit in
      first_some (\<lambda>row.
        case map_of counts row of
          None \<Rightarrow> None
        | Some lifeCount \<Rightarrow>
            if lifeCount < 0 \<or> MAX_COUNTER32 < lifeCount then None
            else Some \<lparr>mc_lifeCount = lifeCount,
                   mc_unit = (case map_of units row of None \<Rightarrow> U_UNKNOWN | Some u \<Rightarrow> decodeCounterUnit u)\<rparr>)
        (sort_rows (map fst counts)))"

definition inputOf :: "(string \<times> int) list \<Rightarrow> string \<Rightarrow> printer_input option" where
  "inputOf levels row =
     (case (map_of levels row, componentIndexOf row) of
        (Some raw, Some index) \<Rightarrow>
          Some \<lparr>pi_index = index,
                pi_presence = (case fst (decodeLevel raw) of None \<Rightarrow> P_UNKNOWN | Some p \<Rightarrow> if p then PRESENT else EMPTY),
                pi_sheets = snd (decodeLevel raw)\<rparr>
      | _ \<Rightarrow> None)"

definition nonempty :: "'a list \<Rightarrow> 'a list option" where
  "nonempty xs = (if xs = [] then None else Some xs)"

definition readInputs :: "readings \<Rightarrow> printer_input list option" where
  "readInputs readings =
     (let levels = indexed readings C_inputCurrentLevel in
      nonempty (List.map_filter (inputOf levels) (sort_rows (map fst levels))))"

definition percentOf :: "int \<Rightarrow> int option \<Rightarrow> int option" where
  "percentOf level capacity =
     (if level < 0 then None
      else case capacity of None \<Rightarrow> None
      | Some c \<Rightarrow> if \<not> is_safe_integer c \<or> c \<le> 0 then None
                 else if c < level then None
                 else Some (js_round (of_int level / of_int c * 100)))"

definition supplyOf :: "(string \<times> int) list \<Rightarrow> (string \<times> int) list \<Rightarrow> string \<Rightarrow> printer_supply option" where
  "supplyOf levels capacities row =
     (case (map_of levels row, componentIndexOf row) of
        (Some raw, Some index) \<Rightarrow>
          Some \<lparr>su_index = index, su_percentRemaining = percentOf raw (map_of capacities row)\<rparr>
      | _ \<Rightarrow> None)"

definition readSupplies :: "readings \<Rightarrow> printer_supply list option" where
  "readSupplies readings =
     (let levels = indexed readings C_suppliesLevel; capacities = indexed readings C_suppliesMaxCapacity in
      nonempty (List.map_filter (supplyOf levels capacities) (sort_rows (map fst levels))))"

definition buildSnapshot :: "int \<Rightarrow> readings \<Rightarrow> pinned_identity \<Rightarrow> telemetry_result" where
  "buildSnapshot readAt readings identity =
     (case readSerialNumber readings of
        None \<Rightarrow> Unavailable IDENTITY_UNREADABLE
      | Some serialNumber \<Rightarrow>
        if \<not> matchesPinned serialNumber (id_serialNumber identity) then Unavailable IDENTITY_MISMATCH
        else
          let pinnedMac = js_lower (js_trim (id_macAddress identity));
              macCheck =
                (if pinnedMac = [] then None
                 else case readPhysicalAddresses readings of
                   None \<Rightarrow> Some IDENTITY_UNREADABLE
                 | Some reported \<Rightarrow> if pinnedMac \<in> set reported then None else Some IDENTITY_MISMATCH) in
          case macCheck of Some reason \<Rightarrow> Unavailable reason
          | None \<Rightarrow>
            let engine = readEngineState readings; faults = readFaults readings; marker = readMarker readings;
                inputs = readInputs readings; supplies = readSupplies readings in
            if engine = E_UNKNOWN \<and> faults = None \<and> marker = None \<and> inputs = None \<and> supplies = None
            then Unavailable NO_USABLE_VALUES
            else Snapshot \<lparr>ts_readAt = readAt, ts_serialNumber = serialNumber, ts_engine = engine,
                   ts_faults = faults, ts_marker = marker, ts_inputs = inputs, ts_supplies = supplies\<rparr>)"

section \<open>Faults\<close>

lemma shifted_bit: "j < 8 \<Longrightarrow> (octet AND drop_bit j 0x80 = 0) = (\<not> bit (octet :: 8 word) (7 - j))"
proof -
  assume "j < 8"
  then have "j \<in> {0, 1, 2, 3, 4, 5, 6, 7}" by auto
  then have "drop_bit j (0x80 :: 8 word) = 2 ^ (7 - j)" by auto
  then show ?thesis by (simp add: and_exp_eq_0_iff_not_bit)
qed

lemma decodeOctet_set:
  "k + length names \<le> 8 \<Longrightarrow>
    f \<in> set (decodeOctet octet k names) \<longleftrightarrow> (\<exists>j < length names. names ! j = f \<and> bit octet (7 - (k + j)))"
proof (induction octet k names rule: decodeOctet.induct)
  case (2 octet k name names)
  have "(\<exists>j < Suc (length names). (name # names) ! j = f \<and> bit octet (7 - (k + j))) \<longleftrightarrow>
      name = f \<and> bit octet (7 - k) \<or> (\<exists>j < length names. names ! j = f \<and> bit octet (7 - (Suc k + j)))"
    by (subst Ex_less_Suc2) simp
  with 2 show ?case by (auto simp: shifted_bit)
qed simp

definition fault_at :: "nat \<Rightarrow> nat \<Rightarrow> fault" where
  "fault_at octet_index bit_index = ERROR_STATE_BITS ! octet_index ! bit_index"

lemma decodeErrorState_set:
  "f \<in> set (decodeErrorState octets) \<longleftrightarrow>
    (\<exists>i < min 2 (length octets). \<exists>j < length (ERROR_STATE_BITS ! i). fault_at i j = f \<and> bit (octets ! i) (7 - j))"
proof -
  have "set (decodeOctets table octets) =
      (\<Union>i < min (length table) (length octets). set (decodeOctet (octets ! i) 0 (table ! i)))" for table
  proof (induction table octets rule: decodeOctets.induct)
    case (3 names table octet octets)
    have "(\<Union>i < Suc (min (length table) (length octets)).
        set (decodeOctet ((octet # octets) ! i) 0 ((names # table) ! i))) =
      set (decodeOctet octet 0 names) \<union> (\<Union>i < min (length table) (length octets). set (decodeOctet (octets ! i) 0 (table ! i)))"
      by (simp only: lessThan_Suc_eq_insert_0) auto
    with 3 show ?case by simp
  qed simp_all
  then have "f \<in> set (decodeErrorState octets) \<longleftrightarrow>
      (\<exists>i < min (length ERROR_STATE_BITS) (length octets). f \<in> set (decodeOctet (octets ! i) 0 (ERROR_STATE_BITS ! i)))"
    by (simp only: decodeErrorState_def UN_iff Bex_def lessThan_iff)
  moreover have "f \<in> set (decodeOctet (octets ! i) 0 (ERROR_STATE_BITS ! i)) \<longleftrightarrow>
      (\<exists>j < length (ERROR_STATE_BITS ! i). fault_at i j = f \<and> bit (octets ! i) (7 - j))"
    if "i < length ERROR_STATE_BITS" for i
  proof -
    have "0 + length (ERROR_STATE_BITS ! i) \<le> 8"
      using that by (auto simp: ERROR_STATE_BITS_def less_Suc_eq)
    from decodeOctet_set [OF this] show ?thesis by (simp add: fault_at_def)
  qed
  moreover have "length ERROR_STATE_BITS = 2" by (simp add: ERROR_STATE_BITS_def)
  ultimately show ?thesis by auto
qed

lemma fault_at_inj:
  "i < 2 \<Longrightarrow> j < length (ERROR_STATE_BITS ! i) \<Longrightarrow> i' < 2 \<Longrightarrow> j' < length (ERROR_STATE_BITS ! i') \<Longrightarrow>
    fault_at i j = fault_at i' j' \<longleftrightarrow> i = i' \<and> j = j'"
proof -
  have d: "distinct (concat ERROR_STATE_BITS)" by (simp add: ERROR_STATE_BITS_def)
  have flat: "fault_at i j = concat ERROR_STATE_BITS ! (8 * i + j)" "8 * i + j < length (concat ERROR_STATE_BITS)" "j < 8"
    if "i < 2" "j < length (ERROR_STATE_BITS ! i)" for i j
    using that by (auto simp: fault_at_def ERROR_STATE_BITS_def less_2_cases_iff less_Suc_eq)
  assume "i < 2" "j < length (ERROR_STATE_BITS ! i)" "i' < 2" "j' < length (ERROR_STATE_BITS ! i')"
  note at = flat [OF this(1,2)] flat [OF this(3,4)]
  have "(8 * a + b) div 8 = a \<and> (8 * a + b) mod 8 = b" if "b < 8" for a b :: nat
    using that by simp
  from this [OF at(3), of i] this [OF at(6), of i']
  have "8 * i + j = 8 * i' + j' \<longleftrightarrow> i = i' \<and> j = j'" by metis
  then show ?thesis using at nth_eq_iff_index_eq [OF d at(2,5)] by simp
qed

text \<open>
  The fault bits are read most significant bit first: the fault in row i and column j of
  the table is reported exactly when the device sent octet i and its bit 7 - j is set, so a
  blocked tray is never read as a missing one.
\<close>

theorem fault_bits_decoded:
  assumes "i < 2" and "j < length (ERROR_STATE_BITS ! i)"
  shows "fault_at i j \<in> set (decodeErrorState octets) \<longleftrightarrow> i < length octets \<and> bit (octets ! i) (7 - j)"
  using decodeErrorState_set [of "fault_at i j" octets] fault_at_inj assms
  by (auto simp: fault_at_inj [OF _ _ assms])

theorem fault_bits_decoded_witness:
  "NO_PAPER \<in> set (decodeErrorState [0xC0, 0]) \<and> \<not> OUTPUT_FULL \<in> set (decodeErrorState [0xC0, 0])"
proof -
  have at: "fault_at 0 1 = NO_PAPER" "fault_at 1 4 = OUTPUT_FULL"
    "1 < length (ERROR_STATE_BITS ! 0)" "4 < length (ERROR_STATE_BITS ! 1)"
    by (simp_all add: fault_at_def ERROR_STATE_BITS_def)
  show ?thesis
    using fault_bits_decoded [of 0 1 "[0xC0, 0]"] fault_bits_decoded [of 1 4 "[0xC0, 0]"] at
    by (simp add: bit_numeral_word_iff bit_numeral_rec)
qed

section \<open>Nothing is invented\<close>

lemma first_some_Some: "first_some f xs = Some y \<Longrightarrow> \<exists>x \<in> set xs. f x = Some y"
  by (induction xs) (auto split: option.splits)

lemma map_filter_set: "y \<in> set (List.map_filter f xs) \<longleftrightarrow> (\<exists>x \<in> set xs. f x = Some y)"
  by (induction xs) (auto simp: map_filter_simps split: option.splits)

lemma keep_first_set: "set (keep_first rows rest) \<subseteq> set rows \<union> set rest"
  by (induction rows rest rule: keep_first.induct) (auto split: if_splits)

lemma indexed_reported:
  assumes "map_of (indexed readings c) row = Some n"
  shows "\<exists>vb \<in> set (column_rows readings c).
    rowIndexOf (vb_oid vb) (TELEMETRY_COLUMNS c) = Some row \<and> vb_integer vb = Some n"
proof -
  have "(row, n) \<in> set (List.map_filter (integerRow c) (column_rows readings c))"
    using map_of_SomeD [OF assms] keep_first_set by (force simp: indexed_def)
  then show ?thesis
    by (auto simp: map_filter_set integerRow_def split: option.splits if_splits)
qed

text \<open>What a device reported in a row of a column.\<close>

definition reported :: "readings \<Rightarrow> column \<Rightarrow> string \<Rightarrow> int \<Rightarrow> bool" where
  "reported readings c row n \<longleftrightarrow>
     (\<exists>vb \<in> set (column_rows readings c).
        rowIndexOf (vb_oid vb) (TELEMETRY_COLUMNS c) = Some row \<and> vb_integer vb = Some n)"

lemma readMarker_reported:
  assumes "readMarker readings = Some m"
  shows "\<exists>row. reported readings C_markerLifeCount row (mc_lifeCount m) \<and> 0 \<le> mc_lifeCount m \<and>
    mc_lifeCount m \<le> MAX_COUNTER32 \<and>
    (mc_unit m \<noteq> U_UNKNOWN \<longrightarrow>
      (\<exists>u. reported readings C_markerCounterUnit row u \<and> decodeCounterUnit u = mc_unit m))"
proof -
  let ?units = "indexed readings C_markerCounterUnit"
  obtain row where row: "(case map_of (indexed readings C_markerLifeCount) row of
      None \<Rightarrow> None
    | Some lifeCount \<Rightarrow>
        if lifeCount < 0 \<or> MAX_COUNTER32 < lifeCount then None
        else Some \<lparr>mc_lifeCount = lifeCount,
               mc_unit = (case map_of ?units row of None \<Rightarrow> U_UNKNOWN | Some u \<Rightarrow> decodeCounterUnit u)\<rparr>) = Some m"
    using first_some_Some [OF assms [unfolded readMarker_def Let_def]] by blast
  then obtain n where n: "map_of (indexed readings C_markerLifeCount) row = Some n"
    by (cases "map_of (indexed readings C_markerLifeCount) row") simp_all
  with row have n': "0 \<le> n" "n \<le> MAX_COUNTER32"
    and m: "m = \<lparr>mc_lifeCount = n, mc_unit = (case map_of ?units row of None \<Rightarrow> U_UNKNOWN | Some u \<Rightarrow> decodeCounterUnit u)\<rparr>"
    by (simp_all split: if_splits)
  have "reported readings C_markerLifeCount row n"
    using indexed_reported [OF n] by (simp add: reported_def)
  moreover have "mc_unit m \<noteq> U_UNKNOWN \<longrightarrow>
      (\<exists>u. reported readings C_markerCounterUnit row u \<and> decodeCounterUnit u = mc_unit m)"
    using indexed_reported [of readings C_markerCounterUnit row] m
    by (cases "map_of ?units row") (auto simp: reported_def)
  ultimately show ?thesis using n' m by (intro exI [of _ row]) simp
qed

lemma decodeLevel_cases:
  "snd (decodeLevel n) = Some k \<Longrightarrow> n = k \<and> 0 \<le> k" "snd (decodeLevel n) = None \<Longrightarrow> n < 0"
  by (auto simp: decodeLevel_def split: if_splits)

lemma readInputs_reported:
  assumes "readInputs readings = Some xs" and "x \<in> set xs"
  shows "\<exists>row n. reported readings C_inputCurrentLevel row n \<and> componentIndexOf row = Some (pi_index x) \<and>
    (pi_presence x = EMPTY \<longleftrightarrow> n = 0) \<and> (pi_presence x = PRESENT \<longleftrightarrow> 0 < n \<or> n = - 3) \<and>
    pi_sheets x = (if 0 \<le> n then Some n else None)"
proof -
  let ?levels = "indexed readings C_inputCurrentLevel"
  obtain row where "inputOf ?levels row = Some x"
    using assms by (auto simp: readInputs_def Let_def nonempty_def map_filter_set split: if_splits)
  then obtain n index where n: "map_of ?levels row = Some n" "componentIndexOf row = Some index"
    and x: "x = \<lparr>pi_index = index,
      pi_presence = (case fst (decodeLevel n) of None \<Rightarrow> P_UNKNOWN | Some p \<Rightarrow> if p then PRESENT else EMPTY),
      pi_sheets = snd (decodeLevel n)\<rparr>"
    by (auto simp: inputOf_def split: option.splits)
  have "reported readings C_inputCurrentLevel row n" using indexed_reported [OF n(1)] by (simp add: reported_def)
  moreover have "(pi_presence x = EMPTY \<longleftrightarrow> n = 0) \<and> (pi_presence x = PRESENT \<longleftrightarrow> 0 < n \<or> n = - 3) \<and>
      pi_sheets x = (if 0 \<le> n then Some n else None)"
    by (simp add: x decodeLevel_def)
  ultimately show ?thesis using n(2) x by (intro exI [of _ row] exI [of _ n]) simp
qed

lemma percentOf_bounds:
  assumes "percentOf level capacity = Some p"
  shows "\<exists>c. capacity = Some c \<and> 0 \<le> level \<and> level \<le> c \<and> 0 < c \<and>
    p = js_round (of_int level / of_int c * 100) \<and> 0 \<le> p \<and> p \<le> 100"
proof -
  obtain c where c: "capacity = Some c" "0 \<le> level" "level \<le> c" "0 < c"
    and p: "p = js_round (of_int level / of_int c * 100)"
    using assms by (auto simp: percentOf_def split: option.splits if_splits)
  have "0 \<le> (of_int level / of_int c * 100 :: rat)" "(of_int level / of_int c * 100 :: rat) \<le> 100"
    using c(2-4) by (simp_all add: divide_le_eq)
  then have "0 \<le> p \<and> p \<le> 100" unfolding p js_round_def by linarith
  with c p show ?thesis by blast
qed

lemma readSupplies_reported:
  assumes "readSupplies readings = Some xs" and "x \<in> set xs"
  shows "\<exists>row level. reported readings C_suppliesLevel row level \<and> componentIndexOf row = Some (su_index x) \<and>
    (\<forall>p. su_percentRemaining x = Some p \<longrightarrow>
      (\<exists>capacity. reported readings C_suppliesMaxCapacity row capacity \<and> 0 \<le> level \<and> level \<le> capacity \<and> 0 < capacity \<and>
        p = js_round (of_int level / of_int capacity * 100) \<and> 0 \<le> p \<and> p \<le> 100))"
proof -
  let ?levels = "indexed readings C_suppliesLevel" and ?capacities = "indexed readings C_suppliesMaxCapacity"
  obtain row where "supplyOf ?levels ?capacities row = Some x"
    using assms by (auto simp: readSupplies_def Let_def nonempty_def map_filter_set split: if_splits)
  then obtain level index where level: "map_of ?levels row = Some level" "componentIndexOf row = Some index"
    and x: "x = \<lparr>su_index = index, su_percentRemaining = percentOf level (map_of ?capacities row)\<rparr>"
    by (auto simp: supplyOf_def split: option.splits)
  have "reported readings C_suppliesLevel row level" using indexed_reported [OF level(1)] by (simp add: reported_def)
  moreover have "\<exists>capacity. reported readings C_suppliesMaxCapacity row capacity \<and> 0 \<le> level \<and> level \<le> capacity \<and>
      0 < capacity \<and> p = js_round (of_int level / of_int capacity * 100) \<and> 0 \<le> p \<and> p \<le> 100"
    if p: "percentOf level (map_of ?capacities row) = Some p" for p
  proof -
    obtain c where c: "map_of ?capacities row = Some c" and bounds: "0 \<le> level \<and> level \<le> c \<and> 0 < c \<and>
        p = js_round (of_int level / of_int c * 100) \<and> 0 \<le> p \<and> p \<le> 100"
      using percentOf_bounds [OF p] by blast
    have "reported readings C_suppliesMaxCapacity row c" using indexed_reported [OF c] by (simp add: reported_def)
    with bounds show ?thesis by blast
  qed
  ultimately show ?thesis using level(2) x by (intro exI [of _ row] exI [of _ level]) simp
qed

text \<open>The bytes a device reported in a row of a column.\<close>

definition reported_bytes :: "readings \<Rightarrow> column \<Rightarrow> 8 word list \<Rightarrow> bool" where
  "reported_bytes readings c bytes \<longleftrightarrow>
     (\<exists>vb \<in> set (column_rows readings c). in_column c vb \<and> vb_bytes vb = Some bytes)"

lemma readSerialNumber_reported:
  assumes "readSerialNumber readings = Some s"
  shows "\<exists>bytes. reported_bytes readings C_serialNumber bytes \<and> length bytes \<le> MAX_SERIAL_LENGTH \<and>
    (\<forall>b \<in> set bytes. 0x20 \<le> b \<and> b \<le> 0x7E) \<and> s = js_trim (map (\<lambda>b. char_of (unat b)) bytes)"
proof -
  obtain vb where vb: "vb \<in> set (column_rows readings C_serialNumber)" and s: "serialOf vb = Some s"
    using first_some_Some [OF assms [unfolded readSerialNumber_def]] by blast
  then obtain bytes where "in_column C_serialNumber vb" "vb_bytes vb = Some bytes" "length bytes \<le> MAX_SERIAL_LENGTH"
    "list_all (\<lambda>b. \<not> (b < 0x20 \<or> 0x7E < b)) bytes" "s = js_trim (map (\<lambda>b. char_of (unat b)) bytes)"
    by (auto simp: serialOf_def printable_text_def split: option.splits if_splits)
  with vb show ?thesis unfolding reported_bytes_def by (intro exI [of _ bytes]) (auto simp: list_all_iff not_less)
qed

lemma readFaults_reported:
  "readFaults readings = Some fs \<Longrightarrow> \<exists>bytes. reported_bytes readings C_errorState bytes \<and> fs = decodeErrorState bytes"
  unfolding readFaults_def reported_bytes_def by (drule first_some_Some) (auto split: if_splits)

lemma readEngineState_reported:
  assumes "readEngineState readings \<noteq> E_UNKNOWN"
  shows "\<exists>row n. reported readings C_engine row n \<and> readEngineState readings = decodeEngineState n"
proof -
  obtain n where n: "firstInteger readings C_engine = Some n" "readEngineState readings = decodeEngineState n"
    using assms by (auto simp: readEngineState_def split: option.splits)
  from first_some_Some [OF n(1) [unfolded firstInteger_def]] obtain vb row where
    "vb \<in> set (column_rows readings C_engine)" "rowIndexOf (vb_oid vb) (TELEMETRY_COLUMNS C_engine) = Some row"
    "vb_integer vb = Some n"
    by (auto simp: in_column_def split: option.splits if_splits)
  with n(2) show ?thesis unfolding reported_def by blast
qed


definition sample_readings :: readings where
  "sample_readings c =
     (case c of
        C_serialNumber \<Rightarrow> Some [\<lparr>vb_oid = ''1.3.6.1.2.1.43.5.1.1.17.1'', vb_integer = None,
            vb_bytes = Some [0x41, 0x42]\<rparr>]
      | C_markerLifeCount \<Rightarrow> Some [\<lparr>vb_oid = ''1.3.6.1.2.1.43.10.2.1.4.1.1'', vb_integer = Some 97, vb_bytes = None\<rparr>]
      | C_suppliesLevel \<Rightarrow> Some [\<lparr>vb_oid = ''1.3.6.1.2.1.43.11.1.1.9.1.1'', vb_integer = Some 30, vb_bytes = None\<rparr>]
      | C_suppliesMaxCapacity \<Rightarrow> Some [\<lparr>vb_oid = ''1.3.6.1.2.1.43.11.1.1.8.1.1'', vb_integer = Some 40, vb_bytes = None\<rparr>]
      | _ \<Rightarrow> None)"


end
