(* ===== verification/Marker.thy ===== *)
theory Marker
  imports Telemetry Print_Outcome
begin

text \<open>
  \<^verbatim>\<open>services/kiosk-agent/src/print/marker.ts\<close> and \<open>applyMarkerEvidence\<close> of \<^verbatim>\<open>runner.ts\<close>: the
  engine's page counter as evidence about a job. The watch is a loop over the moments at
  which the clock is looked at, each with the reading the printer gives then; it returns
  nothing while the list of moments is too short for it to end.

  The lemmas show the one direction the evidence is used in (it takes a success away and
  never grants one, never makes money owed), what a shortfall means, that silence is not
  evidence, and that the watch ends.
\<close>

section \<open>Evidence\<close>

record marker_expectation =
  mx_printedSides :: int
  mx_physicalSheets :: int

datatype marker_unknown =
    NO_BASELINE | NO_FINAL_READING | MU_UNIT_UNKNOWN | UNIT_CHANGED | COUNTER_REGRESSED
  | STILL_ADVANCING | TELEMETRY_SILENT | NOT_A_SUCCESS_CLAIM

datatype marker_evidence =
    SHORTFALL counter_unit int int int int \<comment> \<open>unit, before, after, expected, observed\<close>
  | SUFFICIENT int int \<comment> \<open>observed, expected\<close>
  | NO_EVIDENCE marker_unknown

definition expectedMarkerDelta :: "counter_unit \<Rightarrow> marker_expectation \<Rightarrow> int option" where
  "expectedMarkerDelta unit job =
     (case unit of U_IMPRESSIONS \<Rightarrow> Some (mx_printedSides job)
      | U_SHEETS \<Rightarrow> Some (mx_physicalSheets job) | U_UNKNOWN \<Rightarrow> None)"

definition readMarkerEvidence ::
  "marker_counter option \<Rightarrow> marker_counter option \<Rightarrow> marker_expectation \<Rightarrow> marker_evidence" where
  "readMarkerEvidence before after job =
     (case before of None \<Rightarrow> NO_EVIDENCE NO_BASELINE
      | Some b \<Rightarrow>
      (case after of None \<Rightarrow> NO_EVIDENCE NO_FINAL_READING
       | Some a \<Rightarrow>
         if mc_unit b \<noteq> mc_unit a then NO_EVIDENCE UNIT_CHANGED
         else (case expectedMarkerDelta (mc_unit b) job of
           None \<Rightarrow> NO_EVIDENCE MU_UNIT_UNKNOWN
         | Some expected \<Rightarrow>
             let observed = mc_lifeCount a - mc_lifeCount b in
             if observed < 0 then NO_EVIDENCE COUNTER_REGRESSED
             else if observed < expected
             then SHORTFALL (mc_unit b) (mc_lifeCount b) (mc_lifeCount a) expected observed
             else SUFFICIENT observed expected)))"

definition ENGINE_STOPPED_FAULTS :: "fault list" where
  "ENGINE_STOPPED_FAULTS =
     [NO_PAPER, JAMMED, DOOR_OPEN, NO_TONER, F_OFFLINE, SERVICE_REQUESTED, INPUT_TRAY_MISSING,
      OUTPUT_TRAY_MISSING, MARKER_SUPPLY_MISSING, OUTPUT_FULL]"

definition engineHasStopped :: "telemetry_snapshot \<Rightarrow> bool" where
  "engineHasStopped snapshot =
     (case ts_faults snapshot of None \<Rightarrow> False
      | Some faults \<Rightarrow> list_ex (\<lambda>f. f \<in> set ENGINE_STOPPED_FAULTS) faults)"

section \<open>The watch\<close>

record marker_watch =
  mw_deadlineAt :: int
  mw_pollIntervalMs :: int
  mw_stillReadsBeforeStopped :: nat
  mw_startupReadsBeforeStopped :: nat
  mw_silentReadsBeforeUnknown :: nat

type_synonym moment = "int \<times> telemetry_snapshot option"

definition marker_of :: "moment \<Rightarrow> marker_counter option" where
  "marker_of m = (case snd m of None \<Rightarrow> None | Some s \<Rightarrow> ts_marker s)"

text \<open>
  The loop with its variables: whether any reading was taken (\<open>latest\<close>), the highest count,
  the flat readings and the silent ones.
\<close>

fun watchLoop ::
  "marker_watch \<Rightarrow> marker_counter \<Rightarrow> marker_expectation \<Rightarrow> bool \<Rightarrow> int \<Rightarrow> nat \<Rightarrow> nat \<Rightarrow> moment list
   \<Rightarrow> marker_evidence option" where
  "watchLoop w before job latest highest stillReads silentReads [] = None"
| "watchLoop w before job latest highest stillReads silentReads (m # ms) =
     (if \<not> fst m < mw_deadlineAt w
      then Some (NO_EVIDENCE (if latest then STILL_ADVANCING else NO_FINAL_READING))
      else
      (case marker_of m of
         None \<Rightarrow>
           if mw_silentReadsBeforeUnknown w \<le> silentReads + 1 then Some (NO_EVIDENCE TELEMETRY_SILENT)
           else watchLoop w before job latest highest stillReads (silentReads + 1) ms
       | Some marker \<Rightarrow>
         (case readMarkerEvidence (Some before) (Some marker) job of
            SHORTFALL u b a e obs \<Rightarrow>
              (let advanced = highest < mc_lifeCount marker;
                   highest' = (if advanced then mc_lifeCount marker else highest);
                   still' = (if advanced then 0 else stillReads + 1);
                   started = mc_lifeCount before < highest' in
               if started \<and> 0 < still' \<and> (case snd m of None \<Rightarrow> False | Some s \<Rightarrow> engineHasStopped s)
               then Some (SHORTFALL u b a e obs)
               else if (if started then mw_stillReadsBeforeStopped w else mw_startupReadsBeforeStopped w) \<le> still'
               then Some (SHORTFALL u b a e obs)
               else watchLoop w before job True highest' still' 0 ms)
          | evidence \<Rightarrow> Some evidence)))"

definition observeMarkerCompletion ::
  "marker_watch \<Rightarrow> marker_counter option \<Rightarrow> marker_expectation \<Rightarrow> moment list \<Rightarrow> marker_evidence option" where
  "observeMarkerCompletion w before job ms =
     (case before of None \<Rightarrow> Some (NO_EVIDENCE NO_BASELINE)
      | Some b \<Rightarrow>
        (case expectedMarkerDelta (mc_unit b) job of
           None \<Rightarrow> Some (NO_EVIDENCE MU_UNIT_UNKNOWN)
         | Some _ \<Rightarrow> watchLoop w b job False (mc_lifeCount b) 0 0 ms))"

section \<open>Folding the verdict into a result\<close>

definition NOT_MEASURED :: "marker_unknown list" where
  "NOT_MEASURED = [NO_BASELINE, NOT_A_SUCCESS_CLAIM]"

fun reason_name :: "marker_unknown \<Rightarrow> string" where
  "reason_name NO_BASELINE = ''NO_BASELINE''"
| "reason_name NO_FINAL_READING = ''NO_FINAL_READING''"
| "reason_name MU_UNIT_UNKNOWN = ''UNIT_UNKNOWN''"
| "reason_name UNIT_CHANGED = ''UNIT_CHANGED''"
| "reason_name COUNTER_REGRESSED = ''COUNTER_REGRESSED''"
| "reason_name STILL_ADVANCING = ''STILL_ADVANCING''"
| "reason_name TELEMETRY_SILENT = ''TELEMETRY_SILENT''"
| "reason_name NOT_A_SUCCESS_CLAIM = ''NOT_A_SUCCESS_CLAIM''"

fun diagnostic_unit :: "counter_unit \<Rightarrow> marker_unit" where
  "diagnostic_unit U_IMPRESSIONS = IMPRESSIONS"
| "diagnostic_unit U_SHEETS = SHEETS"
| "diagnostic_unit U_UNKNOWN = UNIT_UNKNOWN"

definition markerDiagnostics :: "marker_evidence \<Rightarrow> marker_diagnostics" where
  "markerDiagnostics evidence =
     (case evidence of
        NO_EVIDENCE reason \<Rightarrow>
          \<lparr>md_outcome = MO_UNKNOWN, md_unit = None, md_expected = None, md_observed = None,
           md_reason = Some (reason_name reason)\<rparr>
      | SUFFICIENT obs expected \<Rightarrow>
          \<lparr>md_outcome = MO_SUFFICIENT, md_unit = None, md_expected = Some expected, md_observed = Some obs,
           md_reason = None\<rparr>
      | SHORTFALL u b a expected obs \<Rightarrow>
          \<lparr>md_outcome = MO_SHORTFALL, md_unit = Some (diagnostic_unit u), md_expected = Some expected,
           md_observed = Some obs, md_reason = None\<rparr>)"

definition applyMarkerEvidence :: "print_operation_status \<Rightarrow> marker_evidence \<Rightarrow> print_operation_status" where
  "applyMarkerEvidence status evidence =
     (if (case evidence of NO_EVIDENCE r \<Rightarrow> r \<in> set NOT_MEASURED | _ \<Rightarrow> False) then status
      else
        let base = (case os_deviceDiagnostics status of None \<Rightarrow> empty_diagnostics | Some d \<Rightarrow> d);
            diagnostics = base\<lparr>dg_marker := Some (markerDiagnostics evidence)\<rparr> in
        case evidence of
          SHORTFALL _ _ _ _ _ \<Rightarrow>
            status\<lparr>os_confidence := UNCONFIRMED, os_sheetsProduced := None,
                   os_deviceDiagnostics := Some diagnostics\<rparr>
        | _ \<Rightarrow> status\<lparr>os_deviceDiagnostics := Some diagnostics\<rparr>)"

section \<open>What the evidence may do\<close>

lemma applyMarkerEvidence_result:
  "device_result_of (applyMarkerEvidence s ev) =
    (case ev of
       SHORTFALL _ _ _ _ _ \<Rightarrow> (device_result_of s)\<lparr>dr_confidence := UNCONFIRMED, dr_sheetsProduced := None\<rparr>
     | _ \<Rightarrow> device_result_of s)"
  by (cases ev) (simp_all add: applyMarkerEvidence_def device_result_of_def Let_def)

text \<open>
  C37. The counter is used in one direction: for every device result and every verdict, the
  settlement is the one the device's own result has, or, after a shortfall, a person's
  review. It never turns a result into a success and never makes money owed.
\<close>

theorem marker_evidence_only_takes_away:
  "settlePrintDeviceResult (device_result_of (applyMarkerEvidence s ev)) = settlePrintDeviceResult (device_result_of s) \<or>
   (\<exists>u b a e obs. ev = SHORTFALL u b a e obs) \<and>
   st_status (settlePrintDeviceResult (device_result_of (applyMarkerEvidence s ev))) = ST_RECOVERY_REQUIRED \<and>
   \<not> st_refundObligation (settlePrintDeviceResult (device_result_of (applyMarkerEvidence s ev)))"
proof (cases ev)
  case (SHORTFALL u b a e obs)
  then have "\<not> proved_output (device_result_of (applyMarkerEvidence s ev))"
    "\<not> proved_nothing_printed (device_result_of (applyMarkerEvidence s ev))"
    by (simp_all add: applyMarkerEvidence_result proved_output_def proved_nothing_printed_def)
  with SHORTFALL show ?thesis by (simp add: settle_recovery)
qed (simp_all add: applyMarkerEvidence_result)

lemma readMarkerEvidence_shortfall:
  "readMarkerEvidence (Some before) (Some m) job = SHORTFALL u b a e obs \<longleftrightarrow>
    mc_unit m = mc_unit before \<and> u = mc_unit before \<and> b = mc_lifeCount before \<and> a = mc_lifeCount m \<and>
    expectedMarkerDelta u job = Some e \<and> obs = a - b \<and> 0 \<le> obs \<and> obs < e"
  by (auto simp: readMarkerEvidence_def Let_def split: option.splits if_splits)

lemma readMarkerEvidence_sufficient:
  "readMarkerEvidence (Some before) (Some m) job = SUFFICIENT obs e \<longleftrightarrow>
    mc_unit m = mc_unit before \<and> expectedMarkerDelta (mc_unit before) job = Some e \<and>
    obs = mc_lifeCount m - mc_lifeCount before \<and> 0 \<le> obs \<and> e \<le> obs"
  by (auto simp: readMarkerEvidence_def Let_def split: option.splits if_splits)

text \<open>The counts a watch has read, from its baseline on.\<close>

definition counts_read :: "marker_counter \<Rightarrow> moment list \<Rightarrow> int list" where
  "counts_read before ms = mc_lifeCount before # map mc_lifeCount (List.map_filter marker_of ms)"

text \<open>A watch that called the job short: the last reading did not advance past the ones before it.\<close>

lemma watchLoop_shortfall:
  assumes "watchLoop w before job latest highest stillReads silentReads ms = Some (SHORTFALL u b a e obs)"
    and "0 < mw_stillReadsBeforeStopped w" and "0 < mw_startupReadsBeforeStopped w"
  shows "\<exists>earlier m later. ms = earlier @ m # later \<and> fst m < mw_deadlineAt w \<and>
    (\<exists>c. marker_of m = Some c \<and> readMarkerEvidence (Some before) (Some c) job = SHORTFALL u b a e obs \<and>
      mc_lifeCount c \<le> Max (insert highest (set (map mc_lifeCount (List.map_filter marker_of earlier))))) \<and>
    (\<forall>x \<in> set earlier. \<forall>c. marker_of x = Some c \<longrightarrow>
      (\<exists>u' b' a' e' obs'. readMarkerEvidence (Some before) (Some c) job = SHORTFALL u' b' a' e' obs'))"
  using assms
proof (induction ms arbitrary: latest highest stillReads silentReads)
  case (Cons m ms)
  note IH = Cons.IH [OF _ assms(2,3)] and run0 = Cons.prems(1)
  have time: "fst m < mw_deadlineAt w" using run0 by (auto split: if_splits)
  show ?case
  proof (cases "marker_of m")
    case None
    with run0 time have "watchLoop w before job latest highest stillReads (silentReads + 1) ms = Some (SHORTFALL u b a e obs)"
      by (auto split: if_splits)
    moreover have "\<not> mw_silentReadsBeforeUnknown w \<le> silentReads + 1"
      using run0 time None by (auto split: if_splits)
    ultimately obtain earlier m' later where ih: "ms = earlier @ m' # later" "fst m' < mw_deadlineAt w"
      "\<exists>c. marker_of m' = Some c \<and> readMarkerEvidence (Some before) (Some c) job = SHORTFALL u b a e obs \<and>
        mc_lifeCount c \<le> Max (insert highest (set (map mc_lifeCount (List.map_filter marker_of earlier))))"
      "\<forall>x \<in> set earlier. \<forall>c. marker_of x = Some c \<longrightarrow>
        (\<exists>u' b' a' e' obs'. readMarkerEvidence (Some before) (Some c) job = SHORTFALL u' b' a' e' obs')"
      using IH by blast
    show ?thesis
      by (rule exI [of _ "m # earlier"], rule exI [of _ m'], rule exI [of _ later])
        (use ih None in \<open>auto simp: map_filter_simps\<close>)
  next
    case (Some c)
    obtain u0 b0 a0 e0 obs0 where ev: "readMarkerEvidence (Some before) (Some c) job = SHORTFALL u0 b0 a0 e0 obs0"
      using run0 time Some by (cases "readMarkerEvidence (Some before) (Some c) job") auto
    define highest' where "highest' = (if highest < mc_lifeCount c then mc_lifeCount c else highest)"
    define still' where "still' = (if highest < mc_lifeCount c then 0 else stillReads + 1)"
    define stop where "stop \<longleftrightarrow> (mc_lifeCount before < highest' \<and> 0 < still' \<and>
        (case snd m of None \<Rightarrow> False | Some s \<Rightarrow> engineHasStopped s)) \<or>
      (if mc_lifeCount before < highest' then mw_stillReadsBeforeStopped w else mw_startupReadsBeforeStopped w) \<le> still'"
    have run: "watchLoop w before job latest highest stillReads silentReads (m # ms) =
        (if stop then Some (SHORTFALL u0 b0 a0 e0 obs0) else watchLoop w before job True highest' still' 0 ms)"
      using time Some ev by (simp add: Let_def highest'_def still'_def stop_def)
    show ?thesis
    proof (cases stop)
      case True
      then have "0 < still'" using assms(2,3) by (auto simp: stop_def split: if_splits)
      then have "mc_lifeCount c \<le> highest" by (auto simp: still'_def split: if_splits)
      with True run run0 ev Some time show ?thesis
        by (intro exI [of _ "[]"] exI [of _ m] exI [of _ ms]) (auto simp: map_filter_simps)
    next
      case False
      with run run0 have rest: "watchLoop w before job True highest' still' 0 ms = Some (SHORTFALL u b a e obs)" by simp
      obtain earlier m' later where ih: "ms = earlier @ m' # later" "fst m' < mw_deadlineAt w"
        "\<exists>c. marker_of m' = Some c \<and> readMarkerEvidence (Some before) (Some c) job = SHORTFALL u b a e obs \<and>
          mc_lifeCount c \<le> Max (insert highest' (set (map mc_lifeCount (List.map_filter marker_of earlier))))"
        "\<forall>x \<in> set earlier. \<forall>c. marker_of x = Some c \<longrightarrow>
          (\<exists>u' b' a' e' obs'. readMarkerEvidence (Some before) (Some c) job = SHORTFALL u' b' a' e' obs')"
        using IH [OF rest] by blast
      have "Max (insert highest' X) = Max (insert highest (insert (mc_lifeCount c) X))" if "finite X" for X
        using that by (cases "X = {}") (auto simp: highest'_def max_def Max_insert)
      from this [of "set (map mc_lifeCount (List.map_filter marker_of earlier))"] ih Some ev show ?thesis
        by (intro exI [of _ "m # earlier"] exI [of _ m'] exI [of _ later]) (auto simp: map_filter_simps)
    qed
  qed
qed simp

text \<open>
  C38. A shortfall is a measured one: the watch calls a job short only on a reading in the
  baseline's own unit that lies between the baseline and the expected count, that did not
  advance past the readings before it, and when no earlier reading had reached the expected
  count or left the scale; so neither silence nor an engine still marking is ever one.
\<close>

theorem shortfall_is_measured:
  assumes "observeMarkerCompletion w (Some before) job ms = Some (SHORTFALL u b a e obs)"
    and "0 < mw_stillReadsBeforeStopped w" and "0 < mw_startupReadsBeforeStopped w"
  shows "\<exists>earlier m later c. ms = earlier @ m # later \<and> fst m < mw_deadlineAt w \<and> marker_of m = Some c \<and>
    mc_unit c = mc_unit before \<and> expectedMarkerDelta (mc_unit before) job = Some e \<and>
    mc_lifeCount before \<le> mc_lifeCount c \<and> mc_lifeCount c < mc_lifeCount before + e \<and>
    mc_lifeCount c \<le> Max (set (counts_read before earlier)) \<and>
    (\<forall>x \<in> set earlier. \<forall>c'. marker_of x = Some c' \<longrightarrow>
      mc_unit c' = mc_unit before \<and> mc_lifeCount before \<le> mc_lifeCount c' \<and> mc_lifeCount c' < mc_lifeCount before + e)"
proof -
  have "watchLoop w before job False (mc_lifeCount before) 0 0 ms = Some (SHORTFALL u b a e obs)"
    using assms(1) by (auto simp: observeMarkerCompletion_def split: option.splits)
  from watchLoop_shortfall [OF this assms(2,3)] obtain earlier m later c where
    ms: "ms = earlier @ m # later" "fst m < mw_deadlineAt w" "marker_of m = Some c"
    and c: "readMarkerEvidence (Some before) (Some c) job = SHORTFALL u b a e obs"
    and flat: "mc_lifeCount c \<le> Max (insert (mc_lifeCount before) (set (map mc_lifeCount (List.map_filter marker_of earlier))))"
    and earlier: "\<forall>x \<in> set earlier. \<forall>c. marker_of x = Some c \<longrightarrow>
      (\<exists>u' b' a' e' obs'. readMarkerEvidence (Some before) (Some c) job = SHORTFALL u' b' a' e' obs')"
    by blast
  note c' = c [unfolded readMarkerEvidence_shortfall]
  show ?thesis
  proof (intro exI conjI ballI allI impI)
    show "ms = earlier @ m # later" by (rule ms)
    show "mc_lifeCount c \<le> Max (set (counts_read before earlier))" using flat by (simp add: counts_read_def)
    fix x c1 assume "x \<in> set earlier" "marker_of x = Some c1"
    with earlier obtain u' b' a' e' obs' where
      "readMarkerEvidence (Some before) (Some c1) job = SHORTFALL u' b' a' e' obs'" by blast
    then show "mc_unit c1 = mc_unit before" "mc_lifeCount before \<le> mc_lifeCount c1"
      "mc_lifeCount c1 < mc_lifeCount before + e"
      using c' unfolding readMarkerEvidence_shortfall by auto
  qed (use ms c' in auto)
qed

lemma watchLoop_ends:
  "\<exists>m \<in> set ms. mw_deadlineAt w \<le> fst m \<Longrightarrow>
    \<exists>v. watchLoop w before job latest highest stillReads silentReads ms = Some v"
proof (induction ms arbitrary: latest highest stillReads silentReads)
  case (Cons m ms)
  show ?case
  proof (cases "fst m < mw_deadlineAt w")
    case True
    with Cons.prems have "\<exists>m \<in> set ms. mw_deadlineAt w \<le> fst m" by auto
    note IH = Cons.IH [OF this]
    show ?thesis
    proof (cases "marker_of m")
      case None
      with True IH show ?thesis by simp
    next
      case (Some c)
      with True IH show ?thesis
        by (cases "readMarkerEvidence (Some before) (Some c) job") (simp_all add: Let_def)
    qed
  qed simp
qed simp

text \<open>
  C39. The watch ends: when every turn of the loop takes at least the poll interval, as many
  turns as fit between the start and the deadline, and one more, always give a verdict,
  whatever the printer answers.
\<close>

theorem marker_watch_ends:
  assumes "\<forall>i < length ms. start + int i * mw_pollIntervalMs w \<le> fst (ms ! i)"
    and "0 < mw_pollIntervalMs w" and "n < length ms"
    and "mw_deadlineAt w \<le> start + int n * mw_pollIntervalMs w"
  shows "\<exists>v. observeMarkerCompletion w before job ms = Some v"
proof -
  have "mw_deadlineAt w \<le> fst (ms ! n)" using assms(1,3,4) by (meson order_trans)
  with assms(3) have "\<exists>m \<in> set ms. mw_deadlineAt w \<le> fst m" using nth_mem by blast
  from watchLoop_ends [OF this] show ?thesis
    by (simp add: observeMarkerCompletion_def split: option.split)
qed

definition sample_watch :: marker_watch where
  "sample_watch =
     \<lparr>mw_deadlineAt = 10, mw_pollIntervalMs = 3, mw_stillReadsBeforeStopped = 1,
      mw_startupReadsBeforeStopped = 2, mw_silentReadsBeforeUnknown = 10\<rparr>"

definition sample_snapshot :: "int \<Rightarrow> telemetry_snapshot" where
  "sample_snapshot n =
     \<lparr>ts_readAt = 0, ts_serialNumber = ''AB'', ts_engine = E_IDLE, ts_faults = Some [],
      ts_marker = Some \<lparr>mc_lifeCount = n, mc_unit = U_IMPRESSIONS\<rparr>, ts_inputs = None, ts_supplies = None\<rparr>"

theorem shortfall_is_measured_witness:
  "\<exists>earlier m later c. [(0, Some (sample_snapshot 98)), (3, Some (sample_snapshot 98))] = earlier @ m # later \<and>
    marker_of m = Some c \<and> mc_lifeCount c < 97 + 2"
proof -
  have "observeMarkerCompletion sample_watch (Some \<lparr>mc_lifeCount = 97, mc_unit = U_IMPRESSIONS\<rparr>)
    \<lparr>mx_printedSides = 2, mx_physicalSheets = 1\<rparr>
    [(0, Some (sample_snapshot 98)), (3, Some (sample_snapshot 98))] = Some (SHORTFALL U_IMPRESSIONS 97 98 2 1)"
    by code_simp
  from shortfall_is_measured [OF this] show ?thesis
    by (fastforce simp: sample_watch_def)
qed

theorem marker_watch_ends_witness:
  "\<exists>v. observeMarkerCompletion sample_watch (Some \<lparr>mc_lifeCount = 97, mc_unit = U_IMPRESSIONS\<rparr>)
    \<lparr>mx_printedSides = 2, mx_physicalSheets = 1\<rparr> [(0, None), (3, None), (6, None), (9, None), (12, None)] = Some v"
  by (rule marker_watch_ends [where start = 0 and n = 4])
    (auto simp: sample_watch_def less_Suc_eq numeral_eq_Suc)

end
