(* ===== verification/Print_Runner.thy ===== *)
theory Print_Runner
  imports Marker Mock_Printer Json
begin

text \<open>
  \<^verbatim>\<open>services/kiosk-agent/src/print/runner.ts\<close> and \<^verbatim>\<open>ledger.ts\<close>: one pass of the kiosk agent over
  a leased print operation. The agent's world is its local ledger, the device, the spool and
  what it posted; every effect may be the last one before the process dies, which a budget of
  effects decides. What the network, the document fetch, the clock, the telemetry and the
  device answer is the environment of the run. Lease renewal only renews and is left out, as
  is logging. Two ghost lists record every submit call with the device state around it and
  every posted result with the device state it was posted in.

  For every printer that keeps the adapter's contract, and every history of runs, crashes and
  redeliveries: an operation is handed to it at most once with effect, and a result that makes money owed
  is posted only when it produced nothing. The properties here are those of the simulated printer of
  Mock_Printer, which a production configuration refuses; Ipp_Kiosk has those of one reached over IPP.
\<close>

section \<open>Commands, environment and world\<close>

definition documentManifestJson :: "print_job_document \<Rightarrow> json" where
  "documentManifestJson d =
     JObj [(''documentId'', JStr (pd_documentId d)), (''position'', JNum (pd_position d)),
       (''sha256'', JStr (pd_sha256 d)), (''sizeBytes'', JNum (pd_sizeBytes d)),
       (''pageCount'', JNum (pd_pageCount d)),
       (''pageRanges'', JArr (map (\<lambda>r. JArr [JNum (fst r), JNum (snd r)]) (pd_pageRanges d))),
       (''selectedPages'', JNum (pd_selectedPages d)), (''copies'', JNum (pd_copies d)),
       (''duplex'', JStr (pd_duplex d)), (''orientation'', JStr (pd_orientation d)),
       (''printedSides'', JNum (pd_printedSides d)), (''physicalSheets'', JNum (pd_physicalSheets d))]"

definition printManifestJson :: "print_job_manifest \<Rightarrow> json" where
  "printManifestJson m =
     JObj [(''manifestVersion'', JNum (pm_manifestVersion m)), (''printJobId'', JStr (pm_printJobId m)),
       (''sessionId'', JStr (pm_sessionId m)), (''settingsRevision'', JNum (pm_settingsRevision m)),
       (''settingsManifestHash'', JStr (pm_settingsManifestHash m)), (''quoteId'', JStr (pm_quoteId m)),
       (''paymentId'', JStr (pm_paymentId m)), (''paperSize'', JStr (pm_paperSize m)),
       (''scaling'', JStr (pm_scaling m)), (''collate'', JBool (pm_collate m)),
       (''colorMode'', JStr (pm_colorMode m)), (''selectedPages'', JNum (pm_selectedPages m)),
       (''printedSides'', JNum (pm_printedSides m)), (''physicalSheets'', JNum (pm_physicalSheets m)),
       (''documents'', JArr (map documentManifestJson (pm_documents m)))]"

definition canonicalPrintManifestJson :: "print_job_manifest \<Rightarrow> string" where
  "canonicalPrintManifestJson m = canonicalJson (printManifestJson m)"

record agent_command =
  cm_operationId :: string
  cm_manifest :: print_job_manifest
  cm_manifestHash :: string
  cm_redelivered :: bool
  cm_deadlineAt :: js_date
  cm_simulatedOutcome :: "string option"

datatype ledger_entry = CLAIMED | SUBMITTING | RESULT_REPORTED

datatype report_outcome = Acked bool | Not_ok | Report_threw

text \<open>A step that throws is the message of its error.\<close>

record 'o run_env =
  rn_ledgerError :: "ledger_entry \<Rightarrow> string option"
  rn_ledgerReadable :: bool
  rn_preparing :: "string option"
  rn_fetch :: "string + print_operation_artifact list"
  rn_submitted :: "string option"
  rn_hasTelemetry :: bool
  rn_baseline :: "marker_counter option"
  rn_device :: 'o
  rn_clock :: "int list"
  rn_watchStart :: int
  rn_watch :: "moment list"
  rn_report :: report_outcome

record runner_config =
  rc_devicePollIntervalMs :: int
  rc_markerPollIntervalMs :: int

record 's kiosk =
  kw_life :: nat
  kw_ledger :: "(string \<times> ledger_entry) list"
  kw_device :: 's
  kw_spool :: "string list"
  kw_submits :: "(string \<times> 's \<times> 's) list"
  kw_reports :: "(string \<times> print_operation_status \<times> 's) list"

section \<open>A process that may die\<close>

type_synonym ('a, 's) run = "'s kiosk \<Rightarrow> 'a option \<times> 's kiosk"

definition return_run :: "'a \<Rightarrow> ('a, 's) run" where
  "return_run x w = (Some x, w)"

definition bind_run :: "('a, 's) run \<Rightarrow> ('a \<Rightarrow> ('b, 's) run) \<Rightarrow> ('b, 's) run" where
  "bind_run m f w = (case m w of (None, w') \<Rightarrow> (None, w') | (Some x, w') \<Rightarrow> f x w')"

definition read_run :: "('s kiosk \<Rightarrow> 'a) \<Rightarrow> ('a, 's) run" where
  "read_run f w = (Some (f w), w)"

definition die_run :: "('a, 's) run" where
  "die_run w = (None, w)"

definition effect :: "('s kiosk \<Rightarrow> 's kiosk) \<Rightarrow> (unit, 's) run" where
  "effect f w = (case kw_life w of 0 \<Rightarrow> (None, w) | Suc n \<Rightarrow> (Some (), f (w\<lparr>kw_life := n\<rparr>)))"

section \<open>The operations of the runner\<close>

definition ledgerRecord :: "string \<Rightarrow> ledger_entry \<Rightarrow> (unit, 's) run" where
  "ledgerRecord op e = effect (\<lambda>w. w\<lparr>kw_ledger := kw_ledger w @ [(op, e)]\<rparr>)"

definition hasSubmitted :: "string \<Rightarrow> bool \<Rightarrow> 's kiosk \<Rightarrow> bool" where
  "hasSubmitted op readable w = (readable \<and> (op, SUBMITTING) \<in> set (kw_ledger w))"

definition askDevice :: "('o, 's) adapter \<Rightarrow> nat \<Rightarrow> string \<Rightarrow> 's \<Rightarrow> print_operation_status" where
  "askDevice ad n op s =
     (case ad_status ad n op s of
        Inr st \<Rightarrow> st
      | Inl _ \<Rightarrow> operationStatus op D_UNKNOWN UNCONFIRMED (Some ''SUBMISSION_UNCONFIRMED'') None None None)"

definition report :: "'o run_env \<Rightarrow> string \<Rightarrow> print_operation_status \<Rightarrow> (bool, 's) run" where
  "report env op st =
     bind_run (effect (\<lambda>w. w\<lparr>kw_reports := kw_reports w @ [(op, st, kw_device w)]\<rparr>))
       (\<lambda>_. return_run (rn_report env = Acked True))"

definition reportAndRecord :: "'o run_env \<Rightarrow> string \<Rightarrow> print_operation_status \<Rightarrow> (unit, 's) run" where
  "reportAndRecord env op st =
     bind_run (report env op st) (\<lambda>accepted.
       if accepted \<and> rn_ledgerError env RESULT_REPORTED = None then ledgerRecord op RESULT_REPORTED
       else return_run ())"

definition discardSpool :: "string \<Rightarrow> (unit, 's) run" where
  "discardSpool op = effect (\<lambda>w. w\<lparr>kw_spool := filter (\<lambda>o'. o' \<noteq> op) (kw_spool w)\<rparr>)"

definition notSubmitted :: "string \<Rightarrow> string \<Rightarrow> print_operation_status" where
  "notSubmitted op message =
     operationStatus op D_NOT_SUBMITTED CONFIRMED
       (Some (if starts_with ''PRINT_COMMAND_'' message then ''CANCELED_BEFORE_SUBMIT'' else ''ARTIFACT_UNAVAILABLE''))
       None (Some 0) None"

fun adapter_code_name :: "adapter_error_code \<Rightarrow> string" where
  "adapter_code_name PRINTER_OFFLINE = ''PRINTER_OFFLINE''"
| "adapter_code_name OPERATION_ID_INVALID = ''OPERATION_ID_INVALID''"
| "adapter_code_name MANIFEST_INVALID = ''MANIFEST_INVALID''"
| "adapter_code_name ARTIFACT_UNAVAILABLE = ''ARTIFACT_UNAVAILABLE''"
| "adapter_code_name OUTPUT_WRITE_FAILED = ''OUTPUT_WRITE_FAILED''"
| "adapter_code_name SUBMISSION_UNCONFIRMED = ''SUBMISSION_UNCONFIRMED''"
| "adapter_code_name QUEUE_NOT_FOUND = ''QUEUE_NOT_FOUND''"
| "adapter_code_name QUEUE_NOT_APPROVED = ''QUEUE_NOT_APPROVED''"
| "adapter_code_name DEVICE_UNREACHABLE = ''DEVICE_UNREACHABLE''"
| "adapter_code_name DEVICE_ERROR = ''DEVICE_ERROR''"

definition PRINTER_ADAPTER_ERROR_CODES :: "string list" where
  "PRINTER_ADAPTER_ERROR_CODES =
     [''PRINTER_OFFLINE'', ''OPERATION_ID_INVALID'', ''MANIFEST_INVALID'', ''ARTIFACT_UNAVAILABLE'',
      ''OUTPUT_WRITE_FAILED'', ''SUBMISSION_UNCONFIRMED'', ''DEVICE_ERROR'']"

text \<open>An adapter error's code, ambiguity and stage, where the error is one.\<close>

definition asPrinterAdapterError :: "thrown \<Rightarrow> (string \<times> bool \<times> string option) option" where
  "asPrinterAdapterError e =
     (case e of
        Thrown_adapter a \<Rightarrow> Some (adapter_code_name (ae_code a), ae_submissionAmbiguous a, ae_deviceStage a)
      | Thrown_foreign c amb stage \<Rightarrow>
          if c \<in> set PRINTER_ADAPTER_ERROR_CODES then Some (c, amb, stage) else None
      | Thrown_other _ \<Rightarrow> None)"

definition adapterFailureCode :: "thrown \<Rightarrow> string" where
  "adapterFailureCode e =
     (case asPrinterAdapterError e of
        Some (c, _, _) \<Rightarrow>
          if c \<in> {''PRINTER_OFFLINE'', ''ARTIFACT_UNAVAILABLE'', ''OUTPUT_WRITE_FAILED''} then c else ''DEVICE_ERROR''
      | None \<Rightarrow> ''ARTIFACT_UNAVAILABLE'')"

definition resolveAdapterFailure ::
  "('o, 's) adapter \<Rightarrow> string \<Rightarrow> thrown \<Rightarrow> 's \<Rightarrow> print_operation_status" where
  "resolveAdapterFailure ad op e s =
     (let adapterError = asPrinterAdapterError e;
          ambiguous = (case adapterError of Some (_, amb, _) \<Rightarrow> amb | None \<Rightarrow> True) in
      if ambiguous
      then (let known = askDevice ad 1 op s in
            if os_state known \<noteq> D_NOT_SUBMITTED then known
            else operationStatus op D_UNKNOWN UNCONFIRMED (Some ''SUBMISSION_UNCONFIRMED'') None None None)
      else operationStatus op D_NOT_SUBMITTED CONFIRMED (Some (adapterFailureCode e)) None (Some 0)
             (case adapterError of
                Some (_, _, Some stage) \<Rightarrow> Some (empty_diagnostics\<lparr>dg_stage := Some stage\<rparr>)
              | _ \<Rightarrow> None))"

definition OPEN_DEVICE_STATES :: "device_state list" where
  "OPEN_DEVICE_STATES = [D_SUBMITTED, D_PRINTING]"

text \<open>The polling loop; \<open>None\<close> while the clock readings do not suffice for it to end.\<close>

fun awaitDeviceOutcome ::
  "runner_config \<Rightarrow> ('o, 's) adapter \<Rightarrow> agent_command \<Rightarrow> nat \<Rightarrow> int list \<Rightarrow> print_operation_status \<Rightarrow> 's
   \<Rightarrow> print_operation_status option" where
  "awaitDeviceOutcome cfg ad cmd n [] status s =
     (if os_state status \<notin> set OPEN_DEVICE_STATES then Some status else None)"
| "awaitDeviceOutcome cfg ad cmd n (now # clock) status s =
     (if os_state status \<notin> set OPEN_DEVICE_STATES then Some status
      else if (case cm_deadlineAt cmd of None \<Rightarrow> True
               | Some deadline \<Rightarrow> deadline \<le> now + rc_devicePollIntervalMs cfg)
      then Some (operationStatus (cm_operationId cmd) D_UNKNOWN UNCONFIRMED (Some ''SUBMISSION_UNCONFIRMED'')
                   (os_warningCode status) None None)
      else awaitDeviceOutcome cfg ad cmd (Suc n) clock (askDevice ad n (cm_operationId cmd) s) s)"

definition confirmAgainstMarker ::
  "runner_config \<Rightarrow> 'o run_env \<Rightarrow> agent_command \<Rightarrow> print_operation_status \<Rightarrow> marker_evidence option" where
  "confirmAgainstMarker cfg env cmd status =
     (if os_state status \<noteq> D_COMPLETED \<or> os_confidence status \<noteq> CONFIRMED
      then Some (NO_EVIDENCE NOT_A_SUCCESS_CLAIM)
      else if \<not> rn_hasTelemetry env then Some (NO_EVIDENCE NO_BASELINE)
      else observeMarkerCompletion
        \<lparr>mw_deadlineAt = (case cm_deadlineAt cmd of Some d \<Rightarrow> d - 15000 | None \<Rightarrow> rn_watchStart env),
         mw_pollIntervalMs = rc_markerPollIntervalMs cfg, mw_stillReadsBeforeStopped = 3,
         mw_startupReadsBeforeStopped = 10, mw_silentReadsBeforeUnknown = 10\<rparr>
        (rn_baseline env)
        \<lparr>mx_printedSides = pm_printedSides (cm_manifest cmd), mx_physicalSheets = pm_physicalSheets (cm_manifest cmd)\<rparr>
        (rn_watch env))"

definition submissionOf :: "agent_command \<Rightarrow> print_operation_artifact list \<Rightarrow> print_submission" where
  "submissionOf cmd artifacts =
     \<lparr>ps_operationId = cm_operationId cmd, ps_manifest = cm_manifest cmd, ps_artifacts = artifacts,
      ps_deviceScenario = cm_simulatedOutcome cmd\<rparr>"

text \<open>The call into the device: the process may die before it, inside it, or get its answer.\<close>

definition callSubmit ::
  "('o, 's) adapter \<Rightarrow> 'o \<Rightarrow> print_submission \<Rightarrow> (thrown + print_operation_status, 's) run" where
  "callSubmit ad d sub w =
     (case kw_life w of 0 \<Rightarrow> (None, w)
      | Suc n \<Rightarrow>
        (case ad_submit ad d sub (kw_device w) of (r, s') \<Rightarrow>
          (let w' = w\<lparr>kw_life := n, kw_device := s',
                      kw_submits := kw_submits w @ [(ps_operationId sub, kw_device w, s')]\<rparr> in
           case r of Done a \<Rightarrow> (Some a, w') | Killed \<Rightarrow> (None, w'))))"

definition abandon :: "'o run_env \<Rightarrow> string \<Rightarrow> string \<Rightarrow> (unit, 's) run" where
  "abandon env op message =
     bind_run (discardSpool op) (\<lambda>_. reportAndRecord env op (notSubmitted op message))"

text \<open>From the handover on: submit, wait, discard the spool, watch the counter, report.\<close>

definition handOver ::
  "runner_config \<Rightarrow> ('o, 's) adapter \<Rightarrow> 'o run_env \<Rightarrow> agent_command \<Rightarrow> print_operation_artifact list \<Rightarrow> (unit, 's) run"
where
  "handOver cfg ad env cmd artifacts =
     bind_run (callSubmit ad (rn_device env) (submissionOf cmd artifacts)) (\<lambda>answer.
     bind_run (read_run (\<lambda>w. case answer of
         Inr submitted \<Rightarrow> awaitDeviceOutcome cfg ad cmd 1 (rn_clock env) submitted (kw_device w)
       | Inl e \<Rightarrow> Some (resolveAdapterFailure ad (cm_operationId cmd) e (kw_device w)))) (\<lambda>outcome.
     case outcome of None \<Rightarrow> die_run
     | Some status \<Rightarrow>
       bind_run (discardSpool (cm_operationId cmd)) (\<lambda>_.
       (case confirmAgainstMarker cfg env cmd status of None \<Rightarrow> die_run
        | Some evidence \<Rightarrow>
          reportAndRecord env (cm_operationId cmd) (applyMarkerEvidence status evidence)))))"

definition prepareAndSubmit ::
  "runner_config \<Rightarrow> ('o, 's) adapter \<Rightarrow> 'o run_env \<Rightarrow> agent_command \<Rightarrow> (unit, 's) run" where
  "prepareAndSubmit cfg ad env cmd =
     (let op = cm_operationId cmd in
      case rn_preparing env of Some m \<Rightarrow> abandon env op m
      | None \<Rightarrow>
        bind_run (effect (\<lambda>w. w\<lparr>kw_spool := op # kw_spool w\<rparr>)) (\<lambda>_.
        (case rn_fetch env of Inl m \<Rightarrow> abandon env op m
         | Inr artifacts \<Rightarrow>
           (case rn_ledgerError env SUBMITTING of Some m \<Rightarrow> abandon env op m
            | None \<Rightarrow>
              bind_run (ledgerRecord op SUBMITTING) (\<lambda>_.
              (case rn_submitted env of Some m \<Rightarrow> abandon env op m
               | None \<Rightarrow> handOver cfg ad env cmd artifacts))))))"

definition runOperation ::
  "(string \<Rightarrow> string) \<Rightarrow> runner_config \<Rightarrow> ('o, 's) adapter \<Rightarrow> 'o run_env \<Rightarrow> agent_command \<Rightarrow> (unit, 's) run" where
  "runOperation sha256 cfg ad env cmd =
     (let op = cm_operationId cmd in
      if rn_ledgerError env CLAIMED \<noteq> None then return_run ()
      else
      bind_run (ledgerRecord op CLAIMED) (\<lambda>_.
      if sha256 (canonicalPrintManifestJson (cm_manifest cmd)) \<noteq> cm_manifestHash cmd
      then reportAndRecord env op
             (operationStatus op D_NOT_SUBMITTED CONFIRMED (Some ''ARTIFACT_UNAVAILABLE'') None (Some 0) None)
      else
      bind_run (read_run (\<lambda>w. if cm_redelivered cmd \<or> hasSubmitted op (rn_ledgerReadable env) w
                              then Some (askDevice ad 0 op (kw_device w)) else None)) (\<lambda>known.
      case known of
        Some st \<Rightarrow> if os_state st \<noteq> D_NOT_SUBMITTED then reportAndRecord env op st
                   else prepareAndSubmit cfg ad env cmd
      | None \<Rightarrow> prepareAndSubmit cfg ad env cmd)))"

text \<open>\<open>execute\<close>: whatever way the operation ends, the spooled documents go.\<close>

definition execute ::
  "(string \<Rightarrow> string) \<Rightarrow> runner_config \<Rightarrow> ('o, 's) adapter \<Rightarrow> 'o run_env \<Rightarrow> agent_command \<Rightarrow> (unit, 's) run" where
  "execute sha256 cfg ad env cmd =
     bind_run (runOperation sha256 cfg ad env cmd) (\<lambda>_. discardSpool (cm_operationId cmd))"

definition kioskRun ::
  "(string \<Rightarrow> string) \<Rightarrow> runner_config \<Rightarrow> ('o, 's) adapter \<Rightarrow> nat \<times> 'o run_env \<times> agent_command \<Rightarrow> 's kiosk \<Rightarrow> 's kiosk" where
  "kioskRun sha256 cfg ad e w =
     snd (execute sha256 cfg ad (fst (snd e)) (snd (snd e)) (w\<lparr>kw_life := fst e\<rparr>))"

section \<open>What holds at every moment\<close>

text \<open>
  A run from a state where \<open>P\<close> holds ends with a value in a state where \<open>Q\<close> holds, or dies
  in one where \<open>I\<close> holds.
\<close>

definition triple ::
  "('s kiosk \<Rightarrow> bool) \<Rightarrow> ('a, 's) run \<Rightarrow> ('a \<Rightarrow> 's kiosk \<Rightarrow> bool) \<Rightarrow> ('s kiosk \<Rightarrow> bool) \<Rightarrow> bool" where
  "triple P m Q I \<longleftrightarrow> (\<forall>w. P w \<longrightarrow> (case m w of (Some x, w') \<Rightarrow> Q x w' | (None, w') \<Rightarrow> I w'))"

lemma triple_weaken: "triple P m Q I \<Longrightarrow> (\<And>w. P' w \<Longrightarrow> P w) \<Longrightarrow> (\<And>x w. Q x w \<Longrightarrow> Q' x w) \<Longrightarrow> triple P' m Q' I"
  unfolding triple_def by (fastforce split: prod.splits option.splits)

lemma triple_bind: "triple P m R I \<Longrightarrow> (\<And>x. triple (R x) (f x) Q I) \<Longrightarrow> triple P (bind_run m f) Q I"
  unfolding triple_def bind_run_def by (fastforce split: prod.splits option.splits)

lemma triple_return: "(\<And>w. P w \<Longrightarrow> Q x w) \<Longrightarrow> triple P (return_run x) Q I"
  by (simp add: triple_def return_run_def)

lemma triple_read: "(\<And>w. P w \<Longrightarrow> Q (f w) w) \<Longrightarrow> triple P (read_run f) Q I"
  by (simp add: triple_def read_run_def)

lemma triple_die: "(\<And>w. P w \<Longrightarrow> I w) \<Longrightarrow> triple P die_run Q I"
  by (simp add: triple_def die_run_def)

lemma triple_effect:
  "(\<And>w. P w \<Longrightarrow> I w) \<Longrightarrow> (\<And>w n. P w \<Longrightarrow> Q () (f (w\<lparr>kw_life := n\<rparr>))) \<Longrightarrow> triple P (effect f) Q I"
  by (auto simp: triple_def effect_def split: nat.split)

definition effective :: "('s \<Rightarrow> string \<Rightarrow> bool) \<Rightarrow> string \<Rightarrow> (string \<times> 's \<times> 's) list \<Rightarrow> nat" where
  "effective ev op submits = length (filter (\<lambda>(o', s, s'). o' = op \<and> ev s' op) submits)"

definition honest_report :: "('s \<Rightarrow> string \<Rightarrow> bool) \<Rightarrow> string \<times> print_operation_status \<times> 's \<Rightarrow> bool" where
  "honest_report out r = (nothing_printed (fst (snd r)) \<longrightarrow> \<not> out (snd (snd r)) (fst r))"

definition kiosk_inv ::
  "('s \<Rightarrow> bool) \<Rightarrow> ('s \<Rightarrow> string \<Rightarrow> bool) \<Rightarrow> ('s \<Rightarrow> string \<Rightarrow> bool) \<Rightarrow> (string \<Rightarrow> bool) \<Rightarrow> 's kiosk \<Rightarrow> bool" where
  "kiosk_inv well ev out authentic w \<longleftrightarrow>
     well (kw_device w) \<and>
     (\<forall>op. ev (kw_device w) op \<longrightarrow> authentic op \<and> (op, SUBMITTING) \<in> set (kw_ledger w)) \<and>
     list_all (honest_report out) (kw_reports w) \<and>
     (\<forall>op. effective ev op (kw_submits w) \<le> 1 \<and>
        (0 < effective ev op (kw_submits w) \<longrightarrow> ev (kw_device w) op))"

lemma kiosk_inv_life [simp]:
  "kiosk_inv well ev out authentic (w\<lparr>kw_life := n\<rparr>) = kiosk_inv well ev out authentic w"
  by (simp add: kiosk_inv_def)

lemma kiosk_inv_spool [simp]:
  "kiosk_inv well ev out authentic (w\<lparr>kw_spool := xs\<rparr>) = kiosk_inv well ev out authentic w"
  by (simp add: kiosk_inv_def)

lemma kiosk_inv_ledger:
  "kiosk_inv well ev out authentic w \<Longrightarrow> kiosk_inv well ev out authentic (w\<lparr>kw_ledger := kw_ledger w @ es\<rparr>)"
  by (auto simp: kiosk_inv_def)

lemma kiosk_inv_report:
  "kiosk_inv well ev out authentic w \<Longrightarrow> (nothing_printed st \<longrightarrow> \<not> out (kw_device w) op) \<Longrightarrow>
    kiosk_inv well ev out authentic (w\<lparr>kw_reports := kw_reports w @ [(op, st, kw_device w)]\<rparr>)"
  by (auto simp: kiosk_inv_def honest_report_def)

lemma unconfirmed_not_nothing [simp]: "\<not> nothing_printed (operationStatus op st UNCONFIRMED c wn n d)"
  by (simp add: nothing_printed_def proved_nothing_printed_def device_result_of_def operationStatus_def)

lemma marker_nothing_printed: "nothing_printed (applyMarkerEvidence st ev) \<Longrightarrow> nothing_printed st"
  by (cases ev) (auto simp: nothing_printed_def applyMarkerEvidence_result proved_nothing_printed_def)

text \<open>The submission a run may come to is one the device's side takes.\<close>

definition hands_over :: "(print_submission \<Rightarrow> bool) \<Rightarrow> 'o run_env \<Rightarrow> agent_command \<Rightarrow> bool" where
  "hands_over takes env cmd \<longleftrightarrow>
     (case rn_fetch env of Inl m \<Rightarrow> True | Inr artifacts \<Rightarrow> takes (submissionOf cmd artifacts))"

lemma hands_over_anything: "hands_over (\<lambda>_. True) env cmd"
  by (simp add: hands_over_def split: sum.split)

context printer_adapter begin

lemma askDevice_honest: "well s \<Longrightarrow> nothing_printed (askDevice ad n op s) \<Longrightarrow> \<not> output_of s op"
  using status_nothing by (auto simp: askDevice_def split: sum.splits)

lemma askDevice_not_submitted: "well s \<Longrightarrow> os_state (askDevice ad n op s) = D_NOT_SUBMITTED \<Longrightarrow> \<not> evidence_of s op"
  using status_not_submitted by (auto simp: askDevice_def operationStatus_def split: sum.splits)

lemma resolve_honest:
  assumes "well s" and "unambiguous e \<longrightarrow> \<not> output_of s op"
  shows "nothing_printed (resolveAdapterFailure ad op e s) \<longrightarrow> \<not> output_of s op"
proof (cases e)
  case (Thrown_adapter a)
  then show ?thesis
    using assms askDevice_honest
    by (auto simp: resolveAdapterFailure_def asPrinterAdapterError_def Let_def unambiguous_def)
next
  case (Thrown_foreign c amb st)
  then show ?thesis
    using assms askDevice_honest
    by (auto simp: resolveAdapterFailure_def asPrinterAdapterError_def Let_def unambiguous_def split: if_splits)
next
  case (Thrown_other m)
  then show ?thesis
    using assms askDevice_honest
    by (auto simp: resolveAdapterFailure_def asPrinterAdapterError_def Let_def)
qed

lemma await_honest:
  "awaitDeviceOutcome cfg ad cmd n clock status s = Some st \<Longrightarrow> well s \<Longrightarrow>
    (nothing_printed status \<longrightarrow> \<not> output_of s (cm_operationId cmd)) \<Longrightarrow>
    nothing_printed st \<longrightarrow> \<not> output_of s (cm_operationId cmd)"
proof (induction clock arbitrary: n status)
  case Nil
  then show ?case by (auto split: if_splits)
next
  case (Cons now clock)
  have "awaitDeviceOutcome cfg ad cmd (Suc n) clock (askDevice ad n (cm_operationId cmd) s) s = Some st \<or>
      st = status \<or> \<not> nothing_printed st"
    using Cons.prems(1) by (auto split: if_splits option.splits)
  with Cons.IH [of "Suc n"] Cons.prems(2,3) askDevice_honest [OF Cons.prems(2)] show ?case by blast
qed

lemma reportAndRecord_good:
  "triple (\<lambda>w. kiosk_inv well evidence_of output_of authentic w \<and> (nothing_printed st \<longrightarrow> \<not> output_of (kw_device w) op))
     (reportAndRecord env op st) (\<lambda>_. kiosk_inv well evidence_of output_of authentic) (kiosk_inv well evidence_of output_of authentic)"
  unfolding reportAndRecord_def report_def ledgerRecord_def
  by (intro triple_bind [where R = "\<lambda>_. kiosk_inv well evidence_of output_of authentic"])
    (auto intro!: triple_effect triple_return kiosk_inv_ledger
      intro: kiosk_inv_report [where w = "w\<lparr>kw_life := n\<rparr>" for w n, simplified])

lemma abandon_good:
  "triple (\<lambda>w. kiosk_inv well evidence_of output_of authentic w \<and> \<not> output_of (kw_device w) op) (abandon env op m) (\<lambda>_. kiosk_inv well evidence_of output_of authentic) (kiosk_inv well evidence_of output_of authentic)"
  unfolding abandon_def discardSpool_def
  by (rule triple_bind [OF _ reportAndRecord_good]) (rule triple_effect; simp)

lemma callSubmit_good:
  assumes handed: "takes sub"
  shows "triple (\<lambda>w. kiosk_inv well evidence_of output_of authentic w \<and> authentic (ps_operationId sub) \<and>
       (ps_operationId sub, SUBMITTING) \<in> set (kw_ledger w) \<and> \<not> evidence_of (kw_device w) (ps_operationId sub))
     (callSubmit ad d sub)
     (\<lambda>answer w. kiosk_inv well evidence_of output_of authentic w \<and>
       (case answer of Inr st \<Rightarrow> nothing_printed st \<longrightarrow> \<not> output_of (kw_device w) (ps_operationId sub)
        | Inl e \<Rightarrow> unambiguous e \<longrightarrow> \<not> output_of (kw_device w) (ps_operationId sub)))
     (kiosk_inv well evidence_of output_of authentic)"
  unfolding triple_def
proof (intro allI impI)
  fix w
  let ?op = "ps_operationId sub"
  assume pre: "kiosk_inv well evidence_of output_of authentic w \<and> authentic ?op \<and> (?op, SUBMITTING) \<in> set (kw_ledger w) \<and> \<not> evidence_of (kw_device w) ?op"
  show "case callSubmit ad d sub w of
      (Some answer, w') \<Rightarrow> kiosk_inv well evidence_of output_of authentic w' \<and>
        (case answer of Inr st \<Rightarrow> nothing_printed st \<longrightarrow> \<not> output_of (kw_device w') ?op
         | Inl e \<Rightarrow> unambiguous e \<longrightarrow> \<not> output_of (kw_device w') ?op)
    | (None, w') \<Rightarrow> kiosk_inv well evidence_of output_of authentic w'"
  proof (cases "kw_life w")
    case 0
    with pre show ?thesis by (simp add: callSubmit_def)
  next
    case (Suc n)
    obtain r s' where r: "ad_submit ad d sub (kw_device w) = (r, s')" by force
    let ?w = "w\<lparr>kw_life := n, kw_device := s', kw_submits := kw_submits w @ [(?op, kw_device w, s')]\<rparr>"
    have well: "well (kw_device w)" and inv: "kiosk_inv well evidence_of output_of authentic w" using pre by (auto simp: kiosk_inv_def)
    have "effective evidence_of o' (kw_submits w @ [(?op, kw_device w, s')]) \<le> 1 \<and>
        (0 < effective evidence_of o' (kw_submits w @ [(?op, kw_device w, s')]) \<longrightarrow> evidence_of s' o')" for o'
    proof (cases "o' = ?op")
      case True
      have "effective evidence_of ?op (kw_submits w) = 0" using pre by (auto simp: kiosk_inv_def)
      with True show ?thesis by (simp add: effective_def)
    next
      case False
      then have "evidence_of s' o' = evidence_of (kw_device w) o'" using submit_others [OF well handed _ r] pre by blast
      with False inv show ?thesis by (simp add: kiosk_inv_def effective_def)
    qed
    moreover have "authentic o' \<and> (o', SUBMITTING) \<in> set (kw_ledger w)" if "evidence_of s' o'" for o'
      using that pre submit_others [OF well handed _ r, of o'] by (cases "o' = ?op") (auto simp: kiosk_inv_def)
    ultimately have good: "kiosk_inv well evidence_of output_of authentic ?w"
      using inv submit_well [OF well handed _ r] pre by (simp add: kiosk_inv_def)
    show ?thesis
    proof (cases r)
      case (Done answer)
      have "case answer of Inr st \<Rightarrow> nothing_printed st \<longrightarrow> \<not> output_of s' ?op | Inl e \<Rightarrow> unambiguous e \<longrightarrow> \<not> output_of s' ?op"
      proof (cases answer)
        case (Inl e)
        with submit_refused [OF well handed, of d e s'] r Done pre show ?thesis by auto
      next
        case (Inr st)
        with submit_nothing [OF well handed, of d st s'] r Done pre show ?thesis by auto
      qed
      with good Suc r Done show ?thesis by (cases answer) (simp_all add: callSubmit_def Let_def)
    next
      case Killed
      with good Suc r show ?thesis by (simp add: callSubmit_def Let_def)
    qed
  qed
qed

lemma handOver_good:
  assumes handed: "takes (submissionOf cmd artifacts)"
  shows "triple (\<lambda>w. kiosk_inv well evidence_of output_of authentic w \<and> authentic (cm_operationId cmd) \<and>
       (cm_operationId cmd, SUBMITTING) \<in> set (kw_ledger w) \<and> \<not> evidence_of (kw_device w) (cm_operationId cmd))
     (handOver cfg ad env cmd artifacts) (\<lambda>_. kiosk_inv well evidence_of output_of authentic) (kiosk_inv well evidence_of output_of authentic)"
proof -
  let ?op = "cm_operationId cmd"
  have op: "ps_operationId (submissionOf cmd artifacts) = ?op" by (simp add: submissionOf_def)
  have last: "triple (\<lambda>w. kiosk_inv well evidence_of output_of authentic w \<and> (\<forall>st. outcome = Some st \<longrightarrow> nothing_printed st \<longrightarrow> \<not> output_of (kw_device w) ?op))
      (case outcome of None \<Rightarrow> die_run
       | Some status \<Rightarrow> bind_run (discardSpool ?op) (\<lambda>_.
           (case confirmAgainstMarker cfg env cmd status of None \<Rightarrow> die_run
            | Some evidence \<Rightarrow> reportAndRecord env ?op (applyMarkerEvidence status evidence))))
      (\<lambda>_. kiosk_inv well evidence_of output_of authentic) (kiosk_inv well evidence_of output_of authentic)" for outcome
  proof (cases outcome)
    case None
    then show ?thesis by (auto intro: triple_die)
  next
    case (Some st)
    let ?P = "\<lambda>w. kiosk_inv well evidence_of output_of authentic w \<and> (nothing_printed st \<longrightarrow> \<not> output_of (kw_device w) ?op)"
    have "triple ?P (case confirmAgainstMarker cfg env cmd st of None \<Rightarrow> die_run
        | Some evidence \<Rightarrow> reportAndRecord env ?op (applyMarkerEvidence st evidence)) (\<lambda>_. kiosk_inv well evidence_of output_of authentic) (kiosk_inv well evidence_of output_of authentic)"
      by (cases "confirmAgainstMarker cfg env cmd st")
        (auto intro: triple_die triple_weaken [OF reportAndRecord_good] dest: marker_nothing_printed)
    then have "triple ?P (bind_run (discardSpool ?op) (\<lambda>_. case confirmAgainstMarker cfg env cmd st of None \<Rightarrow> die_run
        | Some evidence \<Rightarrow> reportAndRecord env ?op (applyMarkerEvidence st evidence))) (\<lambda>_. kiosk_inv well evidence_of output_of authentic) (kiosk_inv well evidence_of output_of authentic)"
      unfolding discardSpool_def by (intro triple_bind [where R = "\<lambda>_. ?P"] triple_effect) auto
    then show ?thesis unfolding Some option.case by (rule triple_weaken) auto
  qed
  show ?thesis
    unfolding handOver_def
    by (rule triple_bind [OF callSubmit_good [OF handed, of authentic, unfolded op]],
        rule triple_bind [OF _ last], rule triple_read)
      (auto simp: kiosk_inv_def split: sum.splits dest: await_honest resolve_honest)
qed

lemma prepare_good:
  assumes handed: "hands_over takes env cmd"
  shows "triple (\<lambda>w. kiosk_inv well evidence_of output_of authentic w \<and> authentic (cm_operationId cmd) \<and> \<not> evidence_of (kw_device w) (cm_operationId cmd))
     (prepareAndSubmit cfg ad env cmd) (\<lambda>_. kiosk_inv well evidence_of output_of authentic) (kiosk_inv well evidence_of output_of authentic)"
proof -
  let ?op = "cm_operationId cmd"
  let ?fresh = "\<lambda>w. kiosk_inv well evidence_of output_of authentic w \<and> authentic ?op \<and> \<not> evidence_of (kw_device w) ?op"
  have quit: "triple ?fresh (abandon env ?op m) (\<lambda>_. kiosk_inv well evidence_of output_of authentic) (kiosk_inv well evidence_of output_of authentic)" for m
    by (rule triple_weaken [OF abandon_good]) (auto simp: kiosk_inv_def dest: output_needs_evidence)
  have submitted: "triple (\<lambda>w. ?fresh w \<and> (?op, SUBMITTING) \<in> set (kw_ledger w))
      (case rn_submitted env of Some m \<Rightarrow> abandon env ?op m | None \<Rightarrow> handOver cfg ad env cmd artifacts)
      (\<lambda>_. kiosk_inv well evidence_of output_of authentic) (kiosk_inv well evidence_of output_of authentic)"
    if "rn_fetch env = Inr artifacts" for artifacts
    using handed that
    by (cases "rn_submitted env") (auto simp: hands_over_def intro: triple_weaken [OF quit] triple_weaken [OF handOver_good])
  have recorded: "triple ?fresh (bind_run (ledgerRecord ?op SUBMITTING)
      (\<lambda>_. case rn_submitted env of Some m \<Rightarrow> abandon env ?op m | None \<Rightarrow> handOver cfg ad env cmd artifacts))
      (\<lambda>_. kiosk_inv well evidence_of output_of authentic) (kiosk_inv well evidence_of output_of authentic)"
    if "rn_fetch env = Inr artifacts" for artifacts
    unfolding ledgerRecord_def
    by (rule triple_bind [OF _ submitted [OF that]], rule triple_effect) (auto intro: kiosk_inv_ledger [where w = "w\<lparr>kw_life := n\<rparr>" for w n, simplified])
  show ?thesis
    unfolding prepareAndSubmit_def Let_def
    by (cases "rn_preparing env"; cases "rn_fetch env"; cases "rn_ledgerError env SUBMITTING")
      (auto intro!: triple_bind [where R = "\<lambda>_. ?fresh"] triple_effect quit recorded)
qed

lemma runOperation_good:
  assumes "(sha256 (canonicalPrintManifestJson (cm_manifest cmd)) = cm_manifestHash cmd) = authentic (cm_operationId cmd)"
    and "cm_redelivered cmd \<or> rn_ledgerReadable env" and handed: "hands_over takes env cmd"
  shows "triple (kiosk_inv well evidence_of output_of authentic) (runOperation sha256 cfg ad env cmd) (\<lambda>_. kiosk_inv well evidence_of output_of authentic) (kiosk_inv well evidence_of output_of authentic)"
proof (cases "rn_ledgerError env CLAIMED")
  case None
  let ?op = "cm_operationId cmd"
  have claim: "triple (kiosk_inv well evidence_of output_of authentic) (ledgerRecord ?op CLAIMED) (\<lambda>_. kiosk_inv well evidence_of output_of authentic) (kiosk_inv well evidence_of output_of authentic)"
    unfolding ledgerRecord_def
    by (rule triple_effect) (auto intro: kiosk_inv_ledger [where w = "w\<lparr>kw_life := n\<rparr>" for w n, simplified])
  let ?known = "\<lambda>w. if cm_redelivered cmd \<or> hasSubmitted ?op (rn_ledgerReadable env) w
    then Some (askDevice ad 0 ?op (kw_device w)) else None"
  have asked: "triple (kiosk_inv well evidence_of output_of authentic) (read_run ?known)
      (\<lambda>known w. kiosk_inv well evidence_of output_of authentic w \<and> (case known of
         Some st \<Rightarrow> (os_state st = D_NOT_SUBMITTED \<longrightarrow> \<not> evidence_of (kw_device w) ?op) \<and>
           (nothing_printed st \<longrightarrow> \<not> output_of (kw_device w) ?op)
       | None \<Rightarrow> \<not> evidence_of (kw_device w) ?op)) (kiosk_inv well evidence_of output_of authentic)"
    using assms(2)
    by (intro triple_read)
      (auto simp: kiosk_inv_def hasSubmitted_def dest: askDevice_honest askDevice_not_submitted)
  show ?thesis
  proof (cases "authentic ?op")
    case True
    have rest: "triple (\<lambda>w. kiosk_inv well evidence_of output_of authentic w \<and> (case known of
          Some st \<Rightarrow> (os_state st = D_NOT_SUBMITTED \<longrightarrow> \<not> evidence_of (kw_device w) ?op) \<and>
            (nothing_printed st \<longrightarrow> \<not> output_of (kw_device w) ?op)
        | None \<Rightarrow> \<not> evidence_of (kw_device w) ?op))
        (case known of
           Some st \<Rightarrow> if os_state st \<noteq> D_NOT_SUBMITTED then reportAndRecord env ?op st
                      else prepareAndSubmit cfg ad env cmd
         | None \<Rightarrow> prepareAndSubmit cfg ad env cmd) (\<lambda>_. kiosk_inv well evidence_of output_of authentic) (kiosk_inv well evidence_of output_of authentic)" for known
      using True
      by (cases known) (auto intro: triple_weaken [OF reportAndRecord_good] triple_weaken [OF prepare_good [OF handed]])
    show ?thesis
      unfolding runOperation_def Let_def
      using None True assms(1) triple_bind [OF claim triple_bind [OF asked rest]] by simp
  next
    case False
    have "triple (kiosk_inv well evidence_of output_of authentic) (reportAndRecord env ?op
        (operationStatus ?op D_NOT_SUBMITTED CONFIRMED (Some ''ARTIFACT_UNAVAILABLE'') None (Some 0) None)) (\<lambda>_. kiosk_inv well evidence_of output_of authentic) (kiosk_inv well evidence_of output_of authentic)"
      by (rule triple_weaken [OF reportAndRecord_good]) (use False in \<open>auto simp: kiosk_inv_def dest: output_needs_evidence\<close>)
    from triple_bind [OF claim this] show ?thesis
      unfolding runOperation_def Let_def using None False assms(1) by simp
  qed
qed (simp add: runOperation_def Let_def triple_return)

lemma execute_good:
  assumes "(sha256 (canonicalPrintManifestJson (cm_manifest cmd)) = cm_manifestHash cmd) = authentic (cm_operationId cmd)"
    and "cm_redelivered cmd \<or> rn_ledgerReadable env" and handed: "hands_over takes env cmd"
  shows "triple (kiosk_inv well evidence_of output_of authentic) (execute sha256 cfg ad env cmd) (\<lambda>_. kiosk_inv well evidence_of output_of authentic) (kiosk_inv well evidence_of output_of authentic)"
  unfolding execute_def discardSpool_def
  by (rule triple_bind, rule runOperation_good, rule assms(1), rule assms(2), rule assms(3), rule triple_effect) simp_all

end

text \<open>
  What the control plane guarantees of the commands it leases: an operation always travels
  with the manifest it was issued with, so whether the hash matches is a matter of the
  operation; and an operation that was leased before is marked as redelivered, which is
  relied on only where the local ledger cannot be read.
\<close>

definition sound_command ::
  "(string \<Rightarrow> string) \<Rightarrow> (string \<Rightarrow> bool) \<Rightarrow> nat \<times> 'o run_env \<times> agent_command \<Rightarrow> bool" where
  "sound_command sha256 authentic e \<longleftrightarrow>
     (case e of (life, env, cmd) \<Rightarrow>
       (sha256 (canonicalPrintManifestJson (cm_manifest cmd)) = cm_manifestHash cmd) = authentic (cm_operationId cmd) \<and>
       (cm_redelivered cmd \<or> rn_ledgerReadable env))"

sublocale printer_adapter \<subseteq> runs: guarded_stepping "kioskRun sha256 cfg ad"
  "kiosk_inv well evidence_of output_of authentic"
  "\<lambda>e. sound_command sha256 authentic e \<and> hands_over takes (fst (snd e)) (snd (snd e))"
  for sha256 cfg authentic
proof
  fix e :: "nat \<times> 'o run_env \<times> agent_command" and w :: "'s kiosk"
  assume ok: "sound_command sha256 authentic e \<and> hands_over takes (fst (snd e)) (snd (snd e))" and inv: "kiosk_inv well evidence_of output_of authentic w"
  obtain life env cmd where e: "e = (life, env, cmd)" by (cases e)
  have "triple (kiosk_inv well evidence_of output_of authentic) (execute sha256 cfg ad env cmd)
      (\<lambda>_. kiosk_inv well evidence_of output_of authentic) (kiosk_inv well evidence_of output_of authentic)"
    using ok by (intro execute_good) (auto simp: sound_command_def e)
  with inv show "kiosk_inv well evidence_of output_of authentic (kioskRun sha256 cfg ad e w)"
    unfolding triple_def kioskRun_def e
    by (cases "execute sha256 cfg ad env cmd (w\<lparr>kw_life := life\<rparr>)")
      (auto split: option.splits dest!: spec [where x = "w\<lparr>kw_life := life\<rparr>"])
qed

definition fresh_kiosk :: "'s \<Rightarrow> 's kiosk" where
  "fresh_kiosk device =
     \<lparr>kw_life = 0, kw_ledger = [], kw_device = device, kw_spool = [], kw_submits = [], kw_reports = []\<rparr>"

lemma fresh_kiosk_inv: "well device \<Longrightarrow> (\<And>op. \<not> ev device op) \<Longrightarrow> kiosk_inv well ev out authentic (fresh_kiosk device)"
  by (simp add: kiosk_inv_def fresh_kiosk_def effective_def)

context printer_adapter begin

lemma kiosk_history:
  assumes "list_all (\<lambda>e. sound_command sha256 authentic e \<and> hands_over takes (fst (snd e)) (snd (snd e))) es"
    and "well device" and "\<And>op. \<not> evidence_of device op"
  shows "kiosk_inv well evidence_of output_of authentic (fold (kioskRun sha256 cfg ad) es (fresh_kiosk device))"
  by (rule runs.guarded_run_inv [OF assms(1)]) (intro fresh_kiosk_inv assms(2,3))

end

section \<open>The kiosk with the mock printer\<close>

lemma mock_kiosk_inv:
  assumes "list_all (sound_command sha256 authentic) es" and "mock_well out" and "\<forall>op. \<not> mock_evidence out op"
  shows "kiosk_inv mock_well mock_evidence mock_output_of authentic
    (fold (kioskRun sha256 cfg (mock_adapter plat dflt)) es (fresh_kiosk out))"
proof (rule mock.kiosk_history)
  show "list_all (\<lambda>e. sound_command sha256 authentic e \<and> hands_over (\<lambda>_. True) (fst (snd e)) (snd (snd e))) es"
    using assms(1) by (simp add: hands_over_anything)
qed (use assms in auto)

text \<open>
  C10. The simulated printer, the one that writes files and that a production configuration refuses, is never
  given again what it was given: over every history of runs of the agent, with the process dying at any
  effect or inside the device call, with commands redelivered in any order, with every file operation of
  the simulator failing or not, at most one submission of an operation left anything at it. (The printer
  reached over IPP is the subject of Ipp_Kiosk.)
\<close>

theorem operation_reaches_the_device_once:
  assumes "list_all (sound_command sha256 authentic) es" and "mock_well out" and "\<forall>op. \<not> mock_evidence out op"
  shows "effective mock_evidence op
    (kw_submits (fold (kioskRun sha256 cfg (mock_adapter plat dflt)) es (fresh_kiosk out))) \<le> 1"
  using mock_kiosk_inv [OF assms, of cfg plat dflt] by (simp add: kiosk_inv_def)

text \<open>
  C15. With the simulated printer, money is promised back only for output that was never made: over every
  such history, each result the agent posts whose settlement owes a refund was posted while the simulator
  held no output of that operation.
\<close>

theorem refund_results_are_honest:
  assumes "list_all (sound_command sha256 authentic) es" and "mock_well out" and "\<forall>op. \<not> mock_evidence out op"
    and "(op, st, device) \<in> set (kw_reports (fold (kioskRun sha256 cfg (mock_adapter plat dflt)) es (fresh_kiosk out)))"
    and "st_refundObligation (settlePrintDeviceResult (device_result_of st))"
  shows "\<not> mock_output_of device op"
  using mock_kiosk_inv [OF assms(1-3), of cfg plat dflt] assms(4,5)
  by (auto simp: kiosk_inv_def list_all_iff honest_report_def nothing_printed_def)

definition sample_command :: "bool \<Rightarrow> agent_command" where
  "sample_command redelivered =
     \<lparr>cm_operationId = sample_operation_id, cm_manifest = sample_manifest, cm_manifestHash = ''h'',
      cm_redelivered = redelivered, cm_deadlineAt = Some 300000, cm_simulatedOutcome = None\<rparr>"

definition sample_env :: "mock_oracle run_env" where
  "sample_env =
     \<lparr>rn_ledgerError = (\<lambda>_. None), rn_ledgerReadable = True, rn_preparing = None,
      rn_fetch = Inr (ps_artifacts sample_submission), rn_submitted = None, rn_hasTelemetry = False,
      rn_baseline = None, rn_device = all_io_ok, rn_clock = [], rn_watchStart = 0, rn_watch = [],
      rn_report = Acked True\<rparr>"

text \<open>The process dies after the device call; the redelivered command is resolved, not printed.\<close>

definition sample_history :: "(nat \<times> mock_oracle run_env \<times> agent_command) list" where
  "sample_history = [(4, sample_env, sample_command False), (20, sample_env, sample_command True)]"

definition sample_runner :: runner_config where
  "sample_runner = \<lparr>rc_devicePollIntervalMs = 5000, rc_markerPollIntervalMs = 3000\<rparr>"

lemma sample_history_sound: "list_all (sound_command (\<lambda>_. ''h'') (\<lambda>_. True)) sample_history"
  by (simp add: sample_history_def sound_command_def sample_command_def sample_env_def)

lemma empty_output: "mock_well []" "\<forall>op. \<not> mock_evidence [] op"
  by (simp_all add: mock_well_def mock_evidence_def hasMarker_def find_operation_def)

theorem operation_reaches_the_device_once_witness:
  "effective mock_evidence sample_operation_id
    (kw_submits (fold (kioskRun (\<lambda>_. ''h'') sample_runner (mock_adapter POSIX None)) sample_history (fresh_kiosk []))) \<le> 1"
  by (rule operation_reaches_the_device_once [OF sample_history_sound empty_output])

definition offline_history :: "(nat \<times> mock_oracle run_env \<times> agent_command) list" where
  "offline_history = [(20, sample_env, (sample_command False)\<lparr>cm_simulatedOutcome := Some ''OFFLINE''\<rparr>)]"

theorem refund_results_are_honest_witness:
  "\<not> mock_output_of [] sample_operation_id"
proof -
  let ?st = "operationStatus sample_operation_id D_NOT_SUBMITTED CONFIRMED (Some ''PRINTER_OFFLINE'') None (Some 0) None"
  have "list_all (sound_command (\<lambda>_. ''h'') (\<lambda>_. True)) offline_history"
    by (simp add: offline_history_def sound_command_def sample_command_def sample_env_def)
  moreover have "kw_reports (fold (kioskRun (\<lambda>_. ''h'') sample_runner (mock_adapter POSIX None)) offline_history
      (fresh_kiosk [])) = [(sample_operation_id, ?st, [])]"
    by code_simp
  then have "(sample_operation_id, ?st, []) \<in> set (kw_reports
      (fold (kioskRun (\<lambda>_. ''h'') sample_runner (mock_adapter POSIX None)) offline_history (fresh_kiosk [])))"
    by simp
  moreover have "st_refundObligation (settlePrintDeviceResult (device_result_of ?st))"
    by (simp add: proved_nothing_printed_def device_result_of_def operationStatus_def)
  ultimately show ?thesis using refund_results_are_honest [OF _ empty_output] by blast
qed

end
