(* ===== verification/Kiosk_Database.thy ===== *)
theory Kiosk_Database
  imports Print_Submission Retention Json Pricing
begin

text \<open>
  The control plane's database as its transactions see it: the rows of
  \<^verbatim>\<open>packages/database/prisma/schema.prisma\<close> that sessions, prices, payments and prints read or write, and the shared
  writes of \<^verbatim>\<open>packages/database/src/session-cleanup.ts\<close> and \<^verbatim>\<open>kiosk-paper.ts\<close>. A table is the
  list of its rows in insertion order; a transaction is a function on the whole database that
  either commits or is aborted with an error, because the code runs each at the serializable
  level. On a conflict the services of the API run it again, which is modelled where they do; the
  worker's dispatcher and reconciler do not: there a conflict leaves the database as it was and the row
  to the next pass, and the dispatcher's pass ends with an error. Such a pass is not modelled. The columns \<open>updatedAt\<close>, which nothing reads, are
  left out.

  The lemmas show that the paper estimate stays between zero and its ceiling and takes out
  exactly what it reports, and that ending a session leaves no reachable credential.
\<close>

section \<open>Rows\<close>

type_synonym db_time = int

datatype job_status =
    JS_QUEUED | JS_DISPATCHED | JS_PRINTING
  | JS_COMPLETED | JS_FAILED | JS_CANCELED | JS_RECOVERY_REQUIRED

datatype result_confidence = RC_UNKNOWN | RC_CONFIRMED | RC_UNCONFIRMED

record print_job_row =
  pj_id :: string
  pj_sessionId :: string
  pj_kioskId :: string
  pj_quoteId :: string
  pj_paymentId :: string
  pj_settingsRevision :: int
  pj_settingsManifestHash :: string
  pj_jobManifest :: print_job_manifest
  pj_jobManifestHash :: string
  pj_status :: job_status
  pj_resultConfidence :: result_confidence
  pj_failureCode :: "string option"
  pj_warningCode :: "string option"
  pj_simulatedOutcome :: "string option"
  pj_copies :: int
  pj_printedSides :: int
  pj_physicalSheets :: int
  pj_sheetsProduced :: "int option"
  pj_dispatchAttempts :: int
  pj_availableAt :: db_time
  pj_deadlineAt :: db_time
  pj_cancelRequestedAt :: "db_time option"
  pj_createdAt :: db_time
  pj_dispatchedAt :: "db_time option"
  pj_startedAt :: "db_time option"
  pj_completedAt :: "db_time option"
  pj_failedAt :: "db_time option"

datatype ledger_type =
    L_CREATED | L_DISPATCHED | L_CLAIMED | L_SUBMITTED | L_PROGRESS | L_COMPLETED | L_FAILED
  | L_CANCEL_REQUESTED | L_CANCELED | L_RECOVERY_REQUIRED | L_LEASE_EXPIRED | L_DEADLINE_EXCEEDED

record print_job_event =
  pe_id :: string
  pe_printJobId :: string
  pe_sequence :: int
  pe_type :: ledger_type
  pe_status :: job_status
  pe_operationId :: "string option"
  pe_confidence :: "confidence option"
  pe_failureCode :: "string option"
  pe_warningCode :: "string option"
  pe_detail :: "json option"
  pe_deviceDetail :: "device_diagnostics option"
  pe_createdAt :: db_time

datatype command_status = CS_PENDING | CS_CLAIMED | CS_COMPLETED | CS_FAILED

text \<open>The payload the dispatcher stores; the type column always holds \<open>PRINT\<close>.\<close>

record command_payload =
  cp_manifest :: print_job_manifest
  cp_manifestHash :: string
  cp_simulatedOutcome :: "string option"

record command_row =
  ac_id :: string
  ac_kioskId :: string
  ac_sessionId :: "string option"
  ac_printJobId :: "string option"
  ac_operationId :: string
  ac_status :: command_status
  ac_payload :: command_payload
  ac_attempts :: nat
  ac_availableAt :: db_time
  ac_claimToken :: "string option"
  ac_claimedAt :: "db_time option"
  ac_leaseExpiresAt :: "db_time option"
  ac_expiresAt :: db_time
  ac_resultCode :: "string option"
  ac_completedAt :: "db_time option"
  ac_createdAt :: db_time

datatype payment_status =
  PS_PENDING | PS_AUTHORIZED | PS_CAPTURED | PS_DECLINED | PS_CANCELED | PS_TIMED_OUT

record payment_row =
  py_id :: string
  py_sessionId :: string
  py_quoteId :: string
  py_provider :: string
  py_status :: payment_status
  py_appliedToSession :: bool
  py_amountMinor :: int
  py_currency :: string
  py_currencyExponent :: int
  py_settingsRevision :: int
  py_manifestHash :: string
  py_providerIntentId :: string
  py_failureCode :: "string option"
  py_expiresAt :: db_time
  py_createdAt :: db_time
  py_authorizedAt :: "db_time option"
  py_capturedAt :: "db_time option"
  py_failedAt :: "db_time option"

text \<open>One row per exchange with the provider, and one per verified callback.\<close>

record attempt_row =
  at_id :: string
  at_paymentId :: string
  at_attempt :: int
  at_action :: string
  at_status :: payment_status
  at_providerReference :: "string option"
  at_failureCode :: "string option"
  at_idempotencyKeyDigest :: "string option"
  at_createdAt :: db_time

record inbox_row =
  ib_id :: string
  ib_provider :: string
  ib_providerEventId :: string
  ib_providerIntentId :: string
  ib_paymentId :: "string option"
  ib_eventType :: string
  ib_payloadDigest :: string
  ib_result :: string
  ib_receivedAt :: db_time

datatype quote_status = Q_ACTIVE | Q_EXPIRED | Q_INVALIDATED | Q_CONSUMED

record quote_row =
  qr_id :: string
  qr_sessionId :: string
  qr_settingsRevision :: int
  qr_manifestHash :: string
  qr_status :: quote_status
  qr_breakdown :: quote_breakdown
  qr_expiresAt :: db_time
  qr_createdAt :: db_time
  qr_invalidatedAt :: "db_time option"
  qr_invalidationReason :: "string option"

text \<open>A tariff and the columns that decide whether it is in force.\<close>

record rule_set_row =
  ru_status :: string
  ru_scope :: string
  ru_scopeRef :: string
  ru_validFrom :: db_time
  ru_validUntil :: "db_time option"
  ru_set :: pricing_rule_set

record kiosk_row =
  kk_id :: string
  kk_capabilities :: json
  kk_capabilitiesVersion :: int

datatype refund_reason = LATE_CAPTURE | AMOUNT_MISMATCH | PRINT_FAILED | OPERATOR_REQUESTED

record refund_row =
  rf_id :: string
  rf_paymentId :: string
  rf_sessionId :: string
  rf_provider :: string
  rf_reason :: refund_reason
  rf_amountMinor :: int
  rf_currency :: string
  rf_currencyExponent :: int
  rf_status :: string
  rf_createdAt :: db_time

datatype cleanup_status = CL_NOT_DUE | CL_PENDING | CL_IN_PROGRESS | CL_DONE | CL_DEAD_LETTER

record session_row =
  se_id :: string
  se_kioskId :: string
  se_state :: session_state
  se_stateVersion :: int
  se_eventSequence :: int
  se_terminalReason :: "string option"
  se_cleanupStatus :: cleanup_status
  se_cleanupDueAt :: "db_time option"
  se_completedAt :: "db_time option"
  se_currentSettingsRevision :: "int option"
  se_activeQuoteId :: "string option"
  se_idleExpiresAt :: db_time
  se_hardExpiresAt :: db_time
  se_canceledAt :: "db_time option"
  se_expiredAt :: "db_time option"
  se_publicId :: string
  se_locale :: string
  se_createdAt :: db_time

datatype file_status =
    F_UPLOADING | F_QUARANTINED | F_VALIDATING | F_READY | F_REJECTED
  | F_DELETING | F_DELETE_PENDING | F_DELETED

record file_row =
  fr_id :: string
  fr_sessionId :: string
  fr_status :: file_status
  fr_contentSha256 :: "string option"
  fr_pageCount :: "int option"
  fr_processingRevision :: int
  fr_processingGeneration :: int
  fr_processingClaimToken :: "string option"
  fr_processingLeaseExpiresAt :: "db_time option"
  fr_processingEnqueuedAt :: "db_time option"
  fr_deleteRequestedAt :: "db_time option"
  fr_cleanupDueAt :: "db_time option"
  fr_cleanupErrorCode :: "string option"
  fr_ordinal :: int

record derivative_row =
  dv_fileId :: string
  dv_processingRevision :: int
  dv_type :: string
  dv_status :: string
  dv_sha256 :: string
  dv_sizeBytes :: int
  dv_mimeType :: string

datatype access_status = A_ACTIVE | A_CLAIMED | A_REVOKED | A_EXPIRED

record grant_row =
  ug_id :: string
  ug_sessionId :: string
  ug_tokenDigest :: string
  ug_shortCodeDigest :: string
  ug_status :: access_status
  ug_expiresAt :: db_time
  ug_createdAt :: db_time
  ug_claimedClientId :: "string option"
  ug_claimedAt :: "db_time option"
  ug_revokedAt :: "db_time option"

record client_row =
  mc_id :: string
  mc_sessionId :: string
  mc_cookieDigest :: string
  mc_clientNonceDigest :: string
  mc_status :: access_status
  mc_expiresAt :: db_time
  mc_lastSeenAt :: "db_time option"
  mc_createdAt :: db_time
  mc_revokedAt :: "db_time option"

record paper_row =
  ki_kioskId :: string
  ki_estimatedSheets :: int

record setting_revision_row =
  sr_id :: string
  sr_sessionId :: string
  sr_revision :: int
  sr_manifestHash :: string
  sr_paperSize :: string
  sr_scaling :: string
  sr_collate :: bool
  sr_colorMode :: string
  sr_selectedPages :: int
  sr_printedSides :: int
  sr_physicalSheets :: int
  sr_selections :: json
  sr_capabilityVersion :: int
  sr_createdAt :: db_time

text \<open>
  \<open>responseBody\<close> is kept for the services that answer a replay from it; the print jobs and the payments
  read the resource again, so what they store there is left out.
\<close>

record idempotency_row =
  ir_id :: string
  ir_actorId :: string
  ir_action :: string
  ir_keyDigest :: string
  ir_requestHash :: string
  ir_responseBody :: "json option"
  ir_resourceId :: "string option"
  ir_createdAt :: db_time
  ir_expiresAt :: db_time

record audit_row =
  au_id :: string
  au_occurredAt :: db_time
  au_actorType :: string
  au_actorId :: string
  au_kioskId :: "string option"
  au_sessionId :: string
  au_action :: string
  au_outcome :: string
  au_requestId :: "string option"
  au_metadata :: json

text \<open>Every outbox row here has the aggregate type \<open>PRINT_SESSION\<close>.\<close>

record outbox_row =
  ob_id :: string
  ob_aggregateId :: string
  ob_sequence :: int
  ob_type :: string
  ob_payload :: json

record kiosk_db =
  db_jobs :: "print_job_row list"
  db_events :: "print_job_event list"
  db_commands :: "command_row list"
  db_payments :: "payment_row list"
  db_refunds :: "refund_row list"
  db_sessions :: "session_row list"
  db_files :: "file_row list"
  db_derivatives :: "derivative_row list"
  db_grants :: "grant_row list"
  db_clients :: "client_row list"
  db_paper :: "paper_row list"
  db_settings :: "setting_revision_row list"
  db_idempotency :: "idempotency_row list"
  db_audit :: "audit_row list"
  db_outbox :: "outbox_row list"
  db_quotes :: "quote_row list"
  db_attempts :: "attempt_row list"
  db_inbox :: "inbox_row list"
  db_ruleSets :: "rule_set_row list"
  db_kiosks :: "kiosk_row list"

text \<open>What aborts a transaction: an error of the service, of a library function, of the database.\<close>

datatype tx_error =
    ApiError nat string
  | TX_RETENTION retention_error
  | TX_INVALID_DATE
  | TX_UNIQUE_VIOLATION
  | TX_NOT_FOUND
  | TX_SESSION session_error
  | TX_SCHEMA
  | TX_PRICING pricing_error
  | TX_SETTINGS print_settings_error
  | TX_PROVIDER string
  | TX_LOST_RACE string

definition db_date :: "int \<Rightarrow> tx_error + db_time" where
  "db_date ms = (case make_date ms of None \<Rightarrow> Inl TX_INVALID_DATE | Some t \<Rightarrow> Inr t)"

section \<open>The paper estimate\<close>

definition PAPER_INVENTORY_MAX_SHEETS :: int where
  "PAPER_INVENTORY_MAX_SHEETS = 100000"

definition readKioskPaperEstimate :: "string \<Rightarrow> kiosk_db \<Rightarrow> int option" where
  "readKioskPaperEstimate kioskId db =
     map_option ki_estimatedSheets (List.find (\<lambda>r. ki_kioskId r = kioskId) (db_paper db))"

text \<open>The same read, under the row's lock.\<close>

definition lockKioskPaperEstimate :: "string \<Rightarrow> kiosk_db \<Rightarrow> int option" where
  "lockKioskPaperEstimate kioskId db =
     map_option ki_estimatedSheets (List.find (\<lambda>r. ki_kioskId r = kioskId) (db_paper db))"

record paper_deduction =
  kd_consumedSheets :: int
  kd_estimateDeltaSheets :: int
  kd_estimateAffected :: bool
  kd_estimatedSheets :: "int option"

definition applyKioskPaperDeduction :: "string \<Rightarrow> int \<Rightarrow> kiosk_db \<Rightarrow> paper_deduction \<times> kiosk_db" where
  "applyKioskPaperDeduction kioskId sheetsProduced db =
     (case lockKioskPaperEstimate kioskId db of
        None \<Rightarrow>
          (\<lparr>kd_consumedSheets = sheetsProduced, kd_estimateDeltaSheets = 0, kd_estimateAffected = False,
            kd_estimatedSheets = None\<rparr>, db)
      | Some current \<Rightarrow>
          (let applied = min current (max 0 sheetsProduced);
               remaining = current - applied in
           (\<lparr>kd_consumedSheets = sheetsProduced, kd_estimateDeltaSheets = - applied,
             kd_estimateAffected = True, kd_estimatedSheets = Some remaining\<rparr>,
            db\<lparr>db_paper := updated (\<lambda>r. ki_kioskId r = kioskId) (\<lambda>r. r\<lparr>ki_estimatedSheets := remaining\<rparr>)
                            (db_paper db)\<rparr>)))"

section \<open>The end of a session\<close>

definition PROCESSING_ARTIFACT_SETTLE_MILLISECONDS :: int where
  "PROCESSING_ARTIFACT_SETTLE_MILLISECONDS = 35000"

definition MAX_UPLOAD_ARTIFACT_SETTLE_MILLISECONDS :: int where
  "MAX_UPLOAD_ARTIFACT_SETTLE_MILLISECONDS = 330000"

definition UPLOAD_ARTIFACT_SETTLE_PADDING_MILLISECONDS :: int where
  "UPLOAD_ARTIFACT_SETTLE_PADDING_MILLISECONDS = 30000"

definition processingArtifactCleanupDueAt :: "db_time \<Rightarrow> js_date" where
  "processingArtifactCleanupDueAt now = make_date (now + PROCESSING_ARTIFACT_SETTLE_MILLISECONDS)"

text \<open>\<open>None\<close> on the left is the error \<open>UPLOAD_CLEANUP_BARRIER_INVALID\<close>.\<close>

definition uploadArtifactCleanupDueAt :: "js_date \<Rightarrow> int \<Rightarrow> unit + js_date" where
  "uploadArtifactCleanupDueAt now uploadTimeoutMilliseconds =
     (case now of
        None \<Rightarrow> Inl ()
      | Some milliseconds \<Rightarrow>
          if \<not> is_safe_integer uploadTimeoutMilliseconds \<or> uploadTimeoutMilliseconds < 1 then Inl ()
          else Inr (make_date (milliseconds + uploadTimeoutMilliseconds + UPLOAD_ARTIFACT_SETTLE_PADDING_MILLISECONDS)))"

text \<open>The data every branch of the schedule writes.\<close>

definition delete_common :: "db_time \<Rightarrow> file_row \<Rightarrow> file_row" where
  "delete_common now f =
     f\<lparr>fr_status := F_DELETE_PENDING, fr_processingGeneration := fr_processingGeneration f + 1,
       fr_processingClaimToken := None, fr_processingLeaseExpiresAt := None,
       fr_processingEnqueuedAt := None, fr_deleteRequestedAt := Some now, fr_cleanupErrorCode := None\<rparr>"

definition schedule_files :: "string \<Rightarrow> db_time \<Rightarrow> db_time \<Rightarrow> db_time \<Rightarrow> db_time \<Rightarrow> file_row list \<Rightarrow> file_row list" where
  "schedule_files sessionId now uploadDue scheduledDueAt validatingDue files =
     updated (\<lambda>f. fr_sessionId f = sessionId \<and> fr_status f = F_VALIDATING)
       (\<lambda>f. (delete_common now f)\<lparr>fr_cleanupDueAt := Some validatingDue\<rparr>)
     (updated (\<lambda>f. fr_sessionId f = sessionId \<and> fr_status f \<in> {F_QUARANTINED, F_READY})
       (\<lambda>f. (delete_common now f)\<lparr>fr_cleanupDueAt := Some scheduledDueAt\<rparr>)
     (updated (\<lambda>f. fr_sessionId f = sessionId \<and> fr_status f \<in> {F_DELETE_PENDING, F_DELETING}) (delete_common now)
     (updated (\<lambda>f. fr_sessionId f = sessionId \<and> fr_status f = F_UPLOADING \<and> fr_cleanupDueAt f = None)
       (\<lambda>f. f\<lparr>fr_cleanupDueAt := Some uploadDue, fr_cleanupErrorCode := None\<rparr>)
      files)))"

definition scheduleSessionFilesForCleanup ::
  "string \<Rightarrow> db_time \<Rightarrow> (terminal_state \<times> retention_policy option) option \<Rightarrow> kiosk_db \<Rightarrow> tx_error + kiosk_db" where
  "scheduleSessionFilesForCleanup sessionId now schedule db =
     bind_result
       (case schedule of
          None \<Rightarrow> Inr now
        | Some (terminalState, policy) \<Rightarrow>
            (case cleanupDueAt terminalState (Some now) (or_else policy DEFAULT_RETENTION_POLICY) of
               Inl e \<Rightarrow> Inl (TX_RETENTION e)
             | Inr None \<Rightarrow> Inl TX_INVALID_DATE
             | Inr (Some t) \<Rightarrow> Inr t))
       (\<lambda>scheduledDueAt.
     bind_result (db_date (now + MAX_UPLOAD_ARTIFACT_SETTLE_MILLISECONDS)) (\<lambda>uploadDue.
     bind_result (db_date (max scheduledDueAt (now + PROCESSING_ARTIFACT_SETTLE_MILLISECONDS))) (\<lambda>validatingDue.
       let db' = db\<lparr>db_files := schedule_files sessionId now uploadDue scheduledDueAt validatingDue (db_files db)\<rparr> in
       Inr (if schedule = None then db'
            else db'\<lparr>db_sessions :=
              updated (\<lambda>s. se_id s = sessionId \<and> se_cleanupStatus s = CL_NOT_DUE)
                (\<lambda>s. s\<lparr>se_cleanupStatus := CL_PENDING, se_cleanupDueAt := Some scheduledDueAt\<rparr>)
                (db_sessions db')\<rparr>))))"

definition revokeSessionAccess :: "string \<Rightarrow> db_time \<Rightarrow> kiosk_db \<Rightarrow> kiosk_db" where
  "revokeSessionAccess sessionId now db =
     db\<lparr>db_grants := updated (\<lambda>g. ug_sessionId g = sessionId \<and> ug_status g \<in> {A_ACTIVE, A_CLAIMED})
                      (\<lambda>g. g\<lparr>ug_status := A_REVOKED, ug_revokedAt := Some now\<rparr>) (db_grants db),
        db_clients := updated (\<lambda>c. mc_sessionId c = sessionId \<and> mc_status c = A_ACTIVE)
                       (\<lambda>c. c\<lparr>mc_status := A_REVOKED, mc_revokedAt := Some now\<rparr>) (db_clients db)\<rparr>"

section \<open>What these writes do\<close>

text \<open>What the four updates, one after the other, make of one document.\<close>

fun scheduled_file :: "string \<Rightarrow> db_time \<Rightarrow> db_time \<Rightarrow> db_time \<Rightarrow> db_time \<Rightarrow> file_row \<Rightarrow> file_row" where
  "scheduled_file sessionId now uploadDue scheduledDueAt validatingDue f =
     (if fr_sessionId f \<noteq> sessionId then f
      else case fr_status f of
        F_UPLOADING \<Rightarrow>
          (if fr_cleanupDueAt f = None then f\<lparr>fr_cleanupDueAt := Some uploadDue, fr_cleanupErrorCode := None\<rparr> else f)
      | F_QUARANTINED \<Rightarrow> (delete_common now f)\<lparr>fr_cleanupDueAt := Some scheduledDueAt\<rparr>
      | F_READY \<Rightarrow> (delete_common now f)\<lparr>fr_cleanupDueAt := Some scheduledDueAt\<rparr>
      | F_VALIDATING \<Rightarrow> (delete_common now f)\<lparr>fr_cleanupDueAt := Some validatingDue\<rparr>
      | F_DELETE_PENDING \<Rightarrow> delete_common now f
      | F_DELETING \<Rightarrow> delete_common now f
      | F_REJECTED \<Rightarrow> f
      | F_DELETED \<Rightarrow> f)"

lemma schedule_files_map:
  "schedule_files sessionId now u s v files = map (scheduled_file sessionId now u s v) files"
proof (induction files)
  case (Cons f files)
  then show ?case
    by (cases "fr_status f") (simp_all add: schedule_files_def delete_common_def)
qed (simp add: schedule_files_def)

lemma schedule_due_at:
  assumes "scheduleSessionFilesForCleanup sessionId now (Some (st, policy)) db = Inr db'"
  shows "\<exists>u s v. cleanupDueAt st (Some now) (or_else policy DEFAULT_RETENTION_POLICY) = Inr (Some s) \<and>
      u = now + MAX_UPLOAD_ARTIFACT_SETTLE_MILLISECONDS \<and>
      v = max s (now + PROCESSING_ARTIFACT_SETTLE_MILLISECONDS) \<and>
      db' = db\<lparr>db_files := map (scheduled_file sessionId now u s v) (db_files db),
               db_sessions := updated (\<lambda>x. se_id x = sessionId \<and> se_cleanupStatus x = CL_NOT_DUE)
                 (\<lambda>x. x\<lparr>se_cleanupStatus := CL_PENDING, se_cleanupDueAt := Some s\<rparr>) (db_sessions db)\<rparr>"
  using assms
  by (auto simp: scheduleSessionFilesForCleanup_def db_date_def make_date_def Let_def schedule_files_map
      split: sum.splits option.splits if_splits)

lemma grace_nonnegative:
  "cleanupDueAt st (Some now) policy = Inr (Some t) \<Longrightarrow> now \<le> t"
  by (cases st) (auto simp: cleanupDueAt_def retentionGraceMilliseconds_def assertPolicy_def make_date_def
      split: if_splits)

definition may_hold_bytes :: "file_row \<Rightarrow> bool" where
  "may_hold_bytes f \<longleftrightarrow> fr_status f \<notin> {F_DELETED, F_REJECTED}"

text \<open>
  C40. A document of an ended session is never deleted under a running writer and never
  forgotten: after the schedule every document of the session is either waiting for its
  deletion with its processing claim revoked, or still uploading with a due time; one that was
  being processed is not due before its worker's storage deadline, nothing becomes due before
  now, and other sessions' documents are untouched, as are those rejected or deleted before, which hold
  no bytes any more.
\<close>

theorem ended_session_documents_are_scheduled:
  assumes "scheduleSessionFilesForCleanup sessionId now (Some (st, policy)) db = Inr db'"
    and "i < length (db_files db)" and "f = db_files db ! i" and "f' = db_files db' ! i"
  shows "length (db_files db') = length (db_files db) \<and>
    (if fr_sessionId f \<noteq> sessionId \<or> \<not> may_hold_bytes f then f' = f
     else if fr_status f = F_UPLOADING
     then fr_status f' = F_UPLOADING \<and> fr_cleanupDueAt f' = Some (or_else (fr_cleanupDueAt f)
            (now + MAX_UPLOAD_ARTIFACT_SETTLE_MILLISECONDS))
     else fr_status f' = F_DELETE_PENDING \<and> fr_processingClaimToken f' = None \<and>
       fr_processingGeneration f' = fr_processingGeneration f + 1 \<and>
       (if fr_status f \<in> {F_DELETE_PENDING, F_DELETING} then fr_cleanupDueAt f' = fr_cleanupDueAt f
        else case fr_cleanupDueAt f' of None \<Rightarrow> False
          | Some due \<Rightarrow> now \<le> due \<and>
              (fr_status f = F_VALIDATING \<longrightarrow> now + PROCESSING_ARTIFACT_SETTLE_MILLISECONDS \<le> due)))"
proof -
  obtain u s v where s: "cleanupDueAt st (Some now) (or_else policy DEFAULT_RETENTION_POLICY) = Inr (Some s)"
    and uv: "u = now + MAX_UPLOAD_ARTIFACT_SETTLE_MILLISECONDS" "v = max s (now + PROCESSING_ARTIFACT_SETTLE_MILLISECONDS)"
    and files: "db_files db' = map (scheduled_file sessionId now u s v) (db_files db)"
    using schedule_due_at [OF assms(1)] by auto
  have f': "f' = scheduled_file sessionId now u s v f" using assms(2-4) files by simp
  have "now \<le> s" by (rule grace_nonnegative [OF s])
  then show ?thesis unfolding f'
    by (cases "fr_status f") (simp_all add: files may_hold_bytes_def delete_common_def uv or_else_def le_max_iff_disj split: option.split)
qed

definition sample_file :: "file_status \<Rightarrow> file_row" where
  "sample_file status =
     \<lparr>fr_id = ''f1'', fr_sessionId = ''s1'', fr_status = status, fr_contentSha256 = None, fr_pageCount = None,
      fr_processingRevision = 1, fr_processingGeneration = 0, fr_processingClaimToken = Some ''t'',
      fr_processingLeaseExpiresAt = None, fr_processingEnqueuedAt = None, fr_deleteRequestedAt = None,
      fr_cleanupDueAt = None, fr_cleanupErrorCode = None, fr_ordinal = 0\<rparr>"

definition empty_db :: kiosk_db where
  "empty_db =
     \<lparr>db_jobs = [], db_events = [], db_commands = [], db_payments = [], db_refunds = [], db_sessions = [],
      db_files = [], db_derivatives = [], db_grants = [], db_clients = [], db_paper = [], db_settings = [],
      db_idempotency = [], db_audit = [],
      db_outbox = [], db_quotes = [], db_attempts = [], db_inbox = [], db_ruleSets = [], db_kiosks = []\<rparr>"

definition sample_ended :: kiosk_db where
  "sample_ended =
     (case scheduleSessionFilesForCleanup ''s1'' 1000 (Some (T_COMPLETED, None))
             (empty_db\<lparr>db_files := [sample_file F_VALIDATING]\<rparr>) of
        Inr db \<Rightarrow> db | Inl _ \<Rightarrow> empty_db)"

theorem ended_session_documents_are_scheduled_witness:
  "fr_status (db_files sample_ended ! 0) = F_DELETE_PENDING \<and>
   fr_cleanupDueAt (db_files sample_ended ! 0) = Some 301000"
proof -
  have run: "scheduleSessionFilesForCleanup ''s1'' 1000 (Some (T_COMPLETED, None))
      (empty_db\<lparr>db_files := [sample_file F_VALIDATING]\<rparr>) = Inr sample_ended" by code_simp
  have "fr_cleanupDueAt (db_files sample_ended ! 0) = Some 301000" by code_simp
  with ended_session_documents_are_scheduled [OF run _ refl refl, of 0] show ?thesis
    by (simp add: sample_file_def may_hold_bytes_def)
qed

lemma deduction_simps:
  "snd (applyKioskPaperDeduction k n db) = db\<lparr>db_paper := db_paper (snd (applyKioskPaperDeduction k n db))\<rparr>"
  by (simp add: applyKioskPaperDeduction_def Let_def split: option.split)

definition paper_ok :: "kiosk_db \<Rightarrow> bool" where
  "paper_ok db \<longleftrightarrow> list_all (\<lambda>r. 0 \<le> ki_estimatedSheets r \<and> ki_estimatedSheets r \<le> PAPER_INVENTORY_MAX_SHEETS) (db_paper db)"

lemma find_updated:
  assumes "\<And>r. p (f r) = p r"
  shows "List.find p (updated p f rows) = map_option f (List.find p rows)"
  by (induction rows) (use assms in auto)

lemma deduction_paper_ok:
  assumes "paper_ok db"
  shows "paper_ok (snd (applyKioskPaperDeduction k n db))"
proof (cases "List.find (\<lambda>r. ki_kioskId r = k) (db_paper db)")
  case None
  with assms show ?thesis by (simp add: applyKioskPaperDeduction_def lockKioskPaperEstimate_def)
next
  case (Some row)
  then have "0 \<le> ki_estimatedSheets row \<and> ki_estimatedSheets row \<le> PAPER_INVENTORY_MAX_SHEETS"
    using assms find_Some_set [OF Some] by (auto simp: paper_ok_def list_all_iff)
  with Some assms show ?thesis
    by (auto simp: applyKioskPaperDeduction_def lockKioskPaperEstimate_def Let_def paper_ok_def list_all_iff set_updated)
qed

text \<open>
  The paper estimate never becomes a debt: after any number of confirmed prints at any
  kiosks every estimate is within its bounds, an untracked kiosk stays untracked, and each
  deduction reports exactly the change it made.
\<close>

theorem paper_estimate_bounded:
  assumes "paper_ok db" and "db1 = fold (\<lambda>(k, n) d. snd (applyKioskPaperDeduction k n d)) prints db"
    and "applyKioskPaperDeduction kiosk n db1 = (d, db2)"
  shows "paper_ok db2 \<and>
    (case readKioskPaperEstimate kiosk db1 of
       None \<Rightarrow> readKioskPaperEstimate kiosk db2 = None \<and> \<not> kd_estimateAffected d \<and> kd_estimateDeltaSheets d = 0
     | Some before \<Rightarrow>
         readKioskPaperEstimate kiosk db2 = Some (before + kd_estimateDeltaSheets d) \<and>
         kd_estimatedSheets d = readKioskPaperEstimate kiosk db2 \<and>
         - max 0 n \<le> kd_estimateDeltaSheets d \<and>
         (max 0 n \<le> before \<longrightarrow> kd_estimateDeltaSheets d = - max 0 n))"
proof -
  have "paper_ok db1"
    unfolding assms(2) using assms(1)
    by (induction prints arbitrary: db) (auto intro: deduction_paper_ok split: prod.splits)
  then have "paper_ok db2" using deduction_paper_ok [of db1 kiosk n] assms(3) by simp
  moreover have "case readKioskPaperEstimate kiosk db1 of
       None \<Rightarrow> readKioskPaperEstimate kiosk db2 = None \<and> \<not> kd_estimateAffected d \<and> kd_estimateDeltaSheets d = 0
     | Some before \<Rightarrow>
         readKioskPaperEstimate kiosk db2 = Some (before + kd_estimateDeltaSheets d) \<and>
         kd_estimatedSheets d = readKioskPaperEstimate kiosk db2 \<and>
         - max 0 n \<le> kd_estimateDeltaSheets d \<and>
         (max 0 n \<le> before \<longrightarrow> kd_estimateDeltaSheets d = - max 0 n)"
    using assms(3)
    by (cases "List.find (\<lambda>r. ki_kioskId r = kiosk) (db_paper db1)")
      (auto simp: readKioskPaperEstimate_def applyKioskPaperDeduction_def lockKioskPaperEstimate_def Let_def find_updated)
  ultimately show ?thesis ..
qed

definition sample_papers :: kiosk_db where
  "sample_papers = empty_db\<lparr>db_paper := [\<lparr>ki_kioskId = ''k1'', ki_estimatedSheets = 5\<rparr>]\<rparr>"

theorem paper_estimate_bounded_witness:
  "readKioskPaperEstimate ''k1'' (snd (applyKioskPaperDeduction ''k1'' 9 sample_papers)) = Some 0 \<and>
   kd_estimateDeltaSheets (fst (applyKioskPaperDeduction ''k1'' 9 sample_papers)) = - 5"
proof -
  have ok: "paper_ok sample_papers" by code_simp
  have d: "kd_estimateDeltaSheets (fst (applyKioskPaperDeduction ''k1'' 9 sample_papers)) = - 5" by code_simp
  have r: "readKioskPaperEstimate ''k1'' sample_papers = Some 5" by code_simp
  show ?thesis
    using paper_estimate_bounded [OF ok, where prints = "[]" and kiosk = "''k1''" and n = 9, OF _ surjective_pairing]
      d r by simp
qed

end
