(* ===== verification/Print_Contracts.thy ===== *)
theory Print_Contracts
  imports Print_Submission
begin

text \<open>
  \<^verbatim>\<open>packages/contracts/src/print-jobs.ts\<close>: what the schemas of the print path accept. The
  control plane and the agent both parse with them, so a predicate here is a guard of the
  operations that parse. The identifier format is the schema library's and is an argument.

  The lemmas relate the manifest schema to the agent's own checks and to the sheet arithmetic.
\<close>

definition zod_int :: "int \<Rightarrow> bool" where
  "zod_int n = is_safe_integer n"

definition positive_int :: "int \<Rightarrow> bool" where
  "positive_int n \<longleftrightarrow> zod_int n \<and> 0 < n"

definition sheetCountSchema :: "int \<Rightarrow> bool" where
  "sheetCountSchema n \<longleftrightarrow> zod_int n \<and> 0 \<le> n \<and> n \<le> 100000"

definition printFailureCodes :: "string list" where
  "printFailureCodes =
     [''PRINTER_OFFLINE'', ''PAPER_JAM'', ''OUT_OF_PAPER'', ''COVER_OPEN'', ''DEVICE_TIMEOUT'', ''DEVICE_ERROR'',
      ''CANCELED_AT_DEVICE'', ''CANCELED_BEFORE_SUBMIT'', ''CANCELED_BY_CUSTOMER'', ''SUBMISSION_UNCONFIRMED'',
      ''OUTPUT_WRITE_FAILED'', ''ARTIFACT_UNAVAILABLE'', ''PRINTER_UNAVAILABLE'', ''JOB_DEADLINE_EXCEEDED'']"

definition printWarningCodes :: "string list" where
  "printWarningCodes = [''TONER_LOW'', ''PAPER_LOW'', ''OUTPUT_TRAY_FULL'']"

definition simulatedPrintOutcomes :: "string list" where
  "simulatedPrintOutcomes =
     [''SUCCESS'', ''WARNING'', ''OFFLINE'', ''PAPER_JAM'', ''OUT_OF_PAPER'', ''CANCELED'', ''TIMEOUT'',
      ''UNKNOWN_AFTER_SUBMIT'']"

section \<open>Manifests\<close>

definition sheetsOfDocument :: "print_job_document \<Rightarrow> int" where
  "sheetsOfDocument d =
     (if pd_duplex d = ''SIMPLEX'' then pd_selectedPages d else ceil_half (pd_selectedPages d)) * pd_copies d"

definition printJobDocumentSchema :: "(string \<Rightarrow> bool) \<Rightarrow> print_job_document \<Rightarrow> bool" where
  "printJobDocumentSchema uuid d \<longleftrightarrow>
     uuid (pd_documentId d) \<and>
     zod_int (pd_position d) \<and> 0 \<le> pd_position d \<and> pd_position d \<le> 999 \<and>
     is_sha256 (pd_sha256 d) \<and> positive_int (pd_sizeBytes d) \<and> positive_int (pd_pageCount d) \<and>
     1 \<le> length (pd_pageRanges d) \<and> length (pd_pageRanges d) \<le> 50 \<and>
     list_all (\<lambda>r. positive_int (fst r) \<and> positive_int (snd r)) (pd_pageRanges d) \<and>
     positive_int (pd_selectedPages d) \<and> positive_int (pd_copies d) \<and> pd_copies d \<le> 100 \<and>
     pd_duplex d \<in> set [''SIMPLEX'', ''LONG_EDGE'', ''SHORT_EDGE''] \<and>
     pd_orientation d \<in> set [''AUTO'', ''PORTRAIT'', ''LANDSCAPE''] \<and>
     positive_int (pd_printedSides d) \<and> positive_int (pd_physicalSheets d) \<and>
     pd_printedSides d = pd_selectedPages d * pd_copies d \<and>
     pd_physicalSheets d = sheetsOfDocument d"

definition printJobManifestSchema :: "(string \<Rightarrow> bool) \<Rightarrow> print_job_manifest \<Rightarrow> bool" where
  "printJobManifestSchema uuid m \<longleftrightarrow>
     pm_manifestVersion m = 2 \<and> uuid (pm_printJobId m) \<and> uuid (pm_sessionId m) \<and>
     positive_int (pm_settingsRevision m) \<and> is_sha256 (pm_settingsManifestHash m) \<and>
     uuid (pm_quoteId m) \<and> uuid (pm_paymentId m) \<and> pm_paperSize m = ''A4'' \<and>
     pm_scaling m \<in> set [''FIT'', ''ACTUAL_SIZE''] \<and> pm_colorMode m = ''MONOCHROME'' \<and>
     positive_int (pm_selectedPages m) \<and> positive_int (pm_printedSides m) \<and> positive_int (pm_physicalSheets m) \<and>
     1 \<le> length (pm_documents m) \<and> length (pm_documents m) \<le> 10 \<and>
     list_all (printJobDocumentSchema uuid) (pm_documents m) \<and>
     distinct (map pd_documentId (pm_documents m)) \<and> distinct (map pd_position (pm_documents m)) \<and>
     sum_list (map pd_selectedPages (pm_documents m)) = pm_selectedPages m \<and>
     sum_list (map pd_printedSides (pm_documents m)) = pm_printedSides m \<and>
     sum_list (map pd_physicalSheets (pm_documents m)) = pm_physicalSheets m"

section \<open>Results\<close>

text \<open>The format of the device's diagnostics is checked by the schema and read by no decision;
it is not part of the predicate.\<close>

definition reportAgentCommandResultBodySchema :: "(string \<Rightarrow> bool) \<Rightarrow> string \<Rightarrow> print_device_result \<Rightarrow> bool" where
  "reportAgentCommandResultBodySchema uuid claimToken r \<longleftrightarrow>
     uuid claimToken \<and>
     (case dr_failureCode r of None \<Rightarrow> True | Some c \<Rightarrow> c \<in> set printFailureCodes) \<and>
     (case dr_warningCode r of None \<Rightarrow> True | Some c \<Rightarrow> c \<in> set printWarningCodes) \<and>
     (case dr_sheetsProduced r of None \<Rightarrow> True | Some n \<Rightarrow> sheetCountSchema n) \<and>
     \<not> (dr_state r = D_NOT_SUBMITTED \<and> (dr_confidence r \<noteq> CONFIRMED \<or> dr_sheetsProduced r \<noteq> Some 0)) \<and>
     \<not> (dr_state r = D_CANCELED \<and> dr_confidence r = CONFIRMED \<and> dr_sheetsProduced r \<noteq> Some 0) \<and>
     \<not> (dr_state r = D_COMPLETED \<and>
        (dr_failureCode r \<noteq> None \<or>
         dr_confidence r = CONFIRMED \<and> (dr_sheetsProduced r = None \<or> dr_sheetsProduced r = Some 0)))"

section \<open>What the manifest schema gives the agent\<close>

lemma document_schema_sheets:
  assumes "printJobDocumentSchema uuid d"
  shows "1 \<le> pd_copies d" "1 \<le> pd_physicalSheets d" "pd_physicalSheets d \<le> pd_printedSides d"
    "pd_printedSides d \<le> 2 * pd_physicalSheets d"
proof -
  have c: "1 \<le> pd_copies d" and p: "1 \<le> pd_selectedPages d" and s: "1 \<le> pd_physicalSheets d"
    and e: "pd_printedSides d = pd_selectedPages d * pd_copies d" "pd_physicalSheets d = sheetsOfDocument d"
    using assms by (auto simp: printJobDocumentSchema_def positive_int_def)
  show "1 \<le> pd_copies d" "1 \<le> pd_physicalSheets d" by (fact c, fact s)
  have b: "pd_selectedPages d \<le> 2 * ceil_half (pd_selectedPages d)" "ceil_half (pd_selectedPages d) \<le> pd_selectedPages d"
    using p ceil_half_bounds [of "pd_selectedPages d"] by linarith+
  show "pd_physicalSheets d \<le> pd_printedSides d"
    using b c p by (simp add: e sheetsOfDocument_def mult_right_mono)
  have "pd_selectedPages d * pd_copies d \<le> 2 * ceil_half (pd_selectedPages d) * pd_copies d"
    using b c by (intro mult_right_mono) simp_all
  moreover have "pd_selectedPages d * pd_copies d \<le> 2 * pd_selectedPages d * pd_copies d"
    using c p by (intro mult_right_mono) simp_all
  ultimately show "pd_printedSides d \<le> 2 * pd_physicalSheets d"
    by (simp add: e sheetsOfDocument_def)
qed

definition artifact_of :: "(string \<Rightarrow> string) \<Rightarrow> print_job_document \<Rightarrow> print_operation_artifact" where
  "artifact_of path d =
     \<lparr>pa_documentId = pd_documentId d, pa_position = pd_position d, pa_path = path (pd_documentId d),
      pa_sha256 = pd_sha256 d, pa_sizeBytes = pd_sizeBytes d\<rparr>"

lemma expectedByDocument_distinct:
  assumes "distinct (map pd_documentId (pm_documents m))" and "d \<in> set (pm_documents m)"
  shows "expectedByDocument m (pd_documentId d) = Some d"
proof -
  have "map fst (rev (map (\<lambda>d. (pd_documentId d, d)) (pm_documents m))) = rev (map pd_documentId (pm_documents m))"
    by (simp add: rev_map comp_def)
  then have "distinct (map fst (rev (map (\<lambda>d. (pd_documentId d, d)) (pm_documents m))))"
    using assms(1) by (simp only: distinct_rev)
  then show ?thesis
    unfolding expectedByDocument_def by (rule map_of_is_SomeI) (use assms(2) in auto)
qed

lemma checkArtifacts_of_documents:
  assumes "distinct (map pd_documentId (pm_documents m))" and "set ds \<subseteq> set (pm_documents m)"
    and "distinct (map pd_documentId ds)" and "distinct (map pd_position ds)"
    and "pd_documentId ` set ds \<inter> set seen = {}" and "pd_position ` set ds \<inter> set positions = {}"
    and "list_all (printJobDocumentSchema uuid) ds" and "\<And>i. isAbsolute plat (path i)"
  shows "checkArtifacts plat m seen positions (map (artifact_of path) ds) = Inr ()"
  using assms(2-7)
proof (induction ds arbitrary: seen positions)
  case (Cons d ds)
  then have "artifactMatches plat d (artifact_of path d)"
    by (auto simp: artifactMatches_def artifact_of_def printJobDocumentSchema_def positive_int_def zod_int_def assms(8))
  moreover have "expectedByDocument m (pd_documentId d) = Some d"
    using Cons.prems(1) by (intro expectedByDocument_distinct [OF assms(1)]) simp
  moreover have "checkArtifacts plat m (pd_documentId d # seen) (pd_position d # positions)
      (map (artifact_of path) ds) = Inr ()"
    using Cons.prems by (intro Cons.IH) auto
  ultimately show ?case using Cons.prems by (simp add: artifact_of_def [of path d])
qed simp

text \<open>
  What the control plane accepts, the agent can submit: with a manifest the schema accepts,
  an operation identifier and artifacts that are the manifest's documents, each with its digest,
  size and position, at an absolute path, the agent's last check never refuses.
\<close>

theorem accepted_manifest_is_submittable:
  assumes "printJobManifestSchema uuid m" and "is_uuid operationId" and "\<And>i. isAbsolute plat (path i)"
  shows "assertSubmittable plat
    \<lparr>ps_operationId = operationId, ps_manifest = m, ps_artifacts = map (artifact_of path) (pm_documents m),
     ps_deviceScenario = scenario\<rparr> = Inr ()"
proof -
  have "checkArtifacts plat m [] [] (map (artifact_of path) (pm_documents m)) = Inr ()"
    using assms by (intro checkArtifacts_of_documents) (auto simp: printJobManifestSchema_def)
  moreover have "\<not> list_ex (\<lambda>d. pd_copies d < 1) (pm_documents m)"
    using assms(1) document_schema_sheets(1)
    by (fastforce simp: printJobManifestSchema_def list_all_iff list_ex_iff)
  moreover have "0 < length (pm_documents m)" "1 \<le> pm_physicalSheets m" "distinct (map pd_documentId (pm_documents m))"
    using assms(1) by (auto simp: printJobManifestSchema_def positive_int_def)
  ultimately show ?thesis
    using assms(2) by (simp add: assertSubmittable_def)
qed


definition accepted_manifest :: print_job_manifest where
  "accepted_manifest = sample_manifest\<lparr>pm_settingsManifestHash := replicate 64 (CHR ''b'')\<rparr>"

lemma accepted_manifest_schema: "printJobManifestSchema (\<lambda>_. True) accepted_manifest"
  by code_simp

theorem accepted_manifest_is_submittable_witness:
  "assertSubmittable POSIX
    \<lparr>ps_operationId = sample_operation_id, ps_manifest = accepted_manifest,
     ps_artifacts = map (artifact_of (\<lambda>i. ''/spool/'' @ i)) (pm_documents accepted_manifest),
     ps_deviceScenario = None\<rparr> = Inr ()"
  by (rule accepted_manifest_is_submittable [OF accepted_manifest_schema sample_operation_id_uuid]) simp

end
