(* ===== verification/Print_Jobs.thy ===== *)
theory Print_Jobs
  imports Kiosk_Database
begin

text \<open>
  \<^verbatim>\<open>packages/database/src/print-jobs.ts\<close>: the operation ledger of a print job, the refund a
  failed print owes, and \<open>applyPrintJobSettlement\<close>, the one place that writes an outcome. The
  supply of fresh identifiers is an argument, numbered in the order the code draws them.

  The lemmas give the settlement's effect on every table: a job that is not open is left alone,
  an open one is closed together with its commands and its refund, and every row of the other
  tables that changes is one the code names.
\<close>

section \<open>The ledger and the refund\<close>

definition OPEN_PRINT_JOB_STATUSES :: "job_status list" where
  "OPEN_PRINT_JOB_STATUSES = [JS_QUEUED, JS_DISPATCHED, JS_PRINTING]"

definition isOpenPrintJobStatus :: "job_status \<Rightarrow> bool" where
  "isOpenPrintJobStatus status = (status \<in> set OPEN_PRINT_JOB_STATUSES)"

definition nextPrintJobEventSequence :: "string \<Rightarrow> kiosk_db \<Rightarrow> int" where
  "nextPrintJobEventSequence printJobId db =
     (case map pe_sequence (filter (\<lambda>e. pe_printJobId e = printJobId) (db_events db)) of
        [] \<Rightarrow> 0
      | s # ss \<Rightarrow> fold max ss s) + 1"

text \<open>An entry with the optional fields missing, as the callers build it.\<close>

definition ledger_entry_row :: "string \<Rightarrow> string \<Rightarrow> ledger_type \<Rightarrow> job_status \<Rightarrow> db_time \<Rightarrow> print_job_event" where
  "ledger_entry_row eid printJobId type status now =
     \<lparr>pe_id = eid, pe_printJobId = printJobId, pe_sequence = 0, pe_type = type, pe_status = status,
      pe_operationId = None, pe_confidence = None, pe_failureCode = None, pe_warningCode = None,
      pe_detail = None, pe_deviceDetail = None, pe_createdAt = now\<rparr>"

definition recordPrintJobEvent :: "print_job_event \<Rightarrow> kiosk_db \<Rightarrow> kiosk_db" where
  "recordPrintJobEvent e db =
     db\<lparr>db_events := db_events db @ [e\<lparr>pe_sequence := nextPrintJobEventSequence (pe_printJobId e) db\<rparr>]\<rparr>"

definition recordPrintFailureCompensation ::
  "string \<Rightarrow> string \<Rightarrow> string \<Rightarrow> db_time \<Rightarrow> kiosk_db \<Rightarrow> string option \<times> kiosk_db" where
  "recordPrintFailureCompensation paymentId sessionId newId now db =
     (case List.find (\<lambda>p. py_id p = paymentId \<and> py_sessionId p = sessionId \<and> py_status p = PS_CAPTURED
                       \<and> py_appliedToSession p) (db_payments db) of
        None \<Rightarrow> (None, db)
      | Some payment \<Rightarrow>
          if py_amountMinor payment = 0 then (None, db)
          else
            (case List.find (\<lambda>r. rf_paymentId r = py_id payment \<and> rf_reason r = PRINT_FAILED) (db_refunds db) of
               Some refund \<Rightarrow> (Some (rf_id refund), db)
             | None \<Rightarrow>
                 (Some newId,
                  db\<lparr>db_refunds := db_refunds db @
                    [\<lparr>rf_id = newId, rf_paymentId = py_id payment, rf_sessionId = sessionId,
                      rf_provider = py_provider payment, rf_reason = PRINT_FAILED,
                      rf_amountMinor = py_amountMinor payment, rf_currency = js_trim (py_currency payment),
                      rf_currencyExponent = py_currencyExponent payment, rf_status = ''PENDING'',
                      rf_createdAt = now\<rparr>]\<rparr>)))"

section \<open>The settlement\<close>

record settlement_input =
  si_printJobId :: string
  si_settlement :: print_job_settlement
  si_operationId :: "string option"
  si_ledgerType :: ledger_type
  si_actorType :: string
  si_actorId :: string
  si_requestId :: "string option"
  si_now :: db_time
  si_newId :: "nat \<Rightarrow> string"
  si_retentionPolicy :: retention_policy
  si_deviceDiagnostics :: "device_diagnostics option"

record settlement_outcome =
  so_applied :: bool
  so_refundId :: "string option"
  so_sessionState :: "session_state option"
  so_sessionVersion :: "int option"

fun job_status_of :: "settled_status \<Rightarrow> job_status" where
  "job_status_of ST_COMPLETED = JS_COMPLETED"
| "job_status_of ST_FAILED = JS_FAILED"
| "job_status_of ST_CANCELED = JS_CANCELED"
| "job_status_of ST_RECOVERY_REQUIRED = JS_RECOVERY_REQUIRED"

fun result_confidence_of :: "confidence \<Rightarrow> result_confidence" where
  "result_confidence_of CONFIRMED = RC_CONFIRMED"
| "result_confidence_of UNCONFIRMED = RC_UNCONFIRMED"

fun settled_name :: "settled_status \<Rightarrow> string" where
  "settled_name ST_COMPLETED = ''COMPLETED''"
| "settled_name ST_FAILED = ''FAILED''"
| "settled_name ST_CANCELED = ''CANCELED''"
| "settled_name ST_RECOVERY_REQUIRED = ''RECOVERY_REQUIRED''"

fun confidence_name :: "confidence \<Rightarrow> string" where
  "confidence_name CONFIRMED = ''CONFIRMED''"
| "confidence_name UNCONFIRMED = ''UNCONFIRMED''"

fun printAuditOutcome :: "settled_status \<Rightarrow> string" where
  "printAuditOutcome ST_COMPLETED = ''SUCCESS''"
| "printAuditOutcome ST_RECOVERY_REQUIRED = ''RECOVERY_REQUIRED''"
| "printAuditOutcome ST_FAILED = ''FAILURE''"
| "printAuditOutcome ST_CANCELED = ''FAILURE''"

definition sessionEventTypeFor :: "session_state \<Rightarrow> string" where
  "sessionEventTypeFor state =
     (if state = S_COMPLETED then ''session.completed''
      else if state = S_FAILED then ''print.failed'' else ''print.recovery_required'')"

definition terminalReasonFor :: "session_state \<Rightarrow> string option \<Rightarrow> string" where
  "terminalReasonFor state failureCode =
     (if state = S_COMPLETED then ''PRINT_COMPLETED''
      else take 80 (or_else failureCode ''DEVICE_ERROR''))"

definition terminal_state_of :: "session_state \<Rightarrow> terminal_state" where
  "terminal_state_of s =
     (if s = S_COMPLETED then T_COMPLETED else if s = S_FAILED then T_FAILED else T_RECOVERY_REQUIRED)"

definition settle_job :: "print_job_settlement \<Rightarrow> db_time \<Rightarrow> print_job_row \<Rightarrow> print_job_row" where
  "settle_job st now j =
     j\<lparr>pj_status := job_status_of (st_status st),
       pj_resultConfidence := result_confidence_of (st_resultConfidence st),
       pj_failureCode := st_failureCode st, pj_warningCode := st_warningCode st,
       pj_sheetsProduced := st_sheetsProduced st,
       pj_completedAt := (if st_status st = ST_COMPLETED then Some now else pj_completedAt j),
       pj_failedAt := (if st_status st = ST_COMPLETED then pj_failedAt j else Some now)\<rparr>"

definition close_command :: "print_job_settlement \<Rightarrow> db_time \<Rightarrow> command_row \<Rightarrow> command_row" where
  "close_command st now c =
     c\<lparr>ac_status := (if st_status st = ST_COMPLETED then CS_COMPLETED else CS_FAILED),
       ac_claimToken := None, ac_leaseExpiresAt := None,
       ac_resultCode := Some (or_else (st_failureCode st) (settled_name (st_status st))),
       ac_completedAt := Some now\<rparr>"

text \<open>An outbox or audit document: absent members are left out.\<close>

definition json_member :: "string \<Rightarrow> string option \<Rightarrow> (string \<times> json) list" where
  "json_member name v = (case v of None \<Rightarrow> [] | Some s \<Rightarrow> [(name, JStr s)])"

text \<open>A truthiness test on an optional string: the empty string counts as absent.\<close>

definition truthy :: "string option \<Rightarrow> string option" where
  "truthy v = (case v of Some s \<Rightarrow> if s = [] then None else Some s | None \<Rightarrow> None)"

definition session_payload :: "settlement_input \<Rightarrow> session_row \<Rightarrow> int \<Rightarrow> string \<Rightarrow> json" where
  "session_payload i s nextVersion jobId =
     (let st = si_settlement i in
      JObj ([(''sessionId'', JStr (se_id s)), (''state'', JStr (session_state_name (st_sessionState st))),
             (''version'', JNum nextVersion)] @
            (if st_sessionState st = S_COMPLETED then []
             else [(''printJobId'', JStr jobId),
                   (''failureCode'', JStr (or_else (st_failureCode st) ''DEVICE_ERROR'')),
                   (''resultConfidence'', JStr (confidence_name (st_resultConfidence st)))])))"

definition audit_metadata :: "settlement_input \<Rightarrow> string \<Rightarrow> paper_deduction option \<Rightarrow> string option \<Rightarrow> json" where
  "audit_metadata i jobId paper refundId =
     JObj ([(''printJobId'', JStr jobId),
            (''resultConfidence'', JStr (confidence_name (st_resultConfidence (si_settlement i))))] @
           (case paper of None \<Rightarrow> []
            | Some d \<Rightarrow> [(''paperSheetsConsumed'', JNum (kd_consumedSheets d)),
                        (''paperEstimateDelta'', JNum (kd_estimateDeltaSheets d)),
                        (''paperEstimateAffected'', JBool (kd_estimateAffected d))]) @
           json_member ''failureCode'' (truthy (st_failureCode (si_settlement i))) @
           json_member ''refundId'' (truthy refundId))"

definition audit_action :: "settled_status \<Rightarrow> string" where
  "audit_action st = ''print.'' @ js_lower (settled_name st)"

text \<open>The part that moves the session, when it is still printing.\<close>

definition settleSession ::
  "settlement_input \<Rightarrow> print_job_row \<Rightarrow> string option \<Rightarrow> kiosk_db \<Rightarrow> tx_error + (settlement_outcome \<times> kiosk_db)" where
  "settleSession i job refundId db =
     (let st = si_settlement i in
      case List.find (\<lambda>s. se_id s = pj_sessionId job) (db_sessions db) of
        None \<Rightarrow> Inr (\<lparr>so_applied = True, so_refundId = refundId, so_sessionState = None, so_sessionVersion = None\<rparr>, db)
      | Some session \<Rightarrow>
          if se_state session \<noteq> S_PRINTING
          then Inr (\<lparr>so_applied = True, so_refundId = refundId, so_sessionState = Some (se_state session),
                     so_sessionVersion = None\<rparr>, db)
          else
            let nextVersion = se_stateVersion session + 1;
                nextSequence = se_eventSequence session + 1;
                moved = update_many (\<lambda>s. se_id s = se_id session \<and> se_stateVersion s = se_stateVersion session)
                  (\<lambda>s. s\<lparr>se_state := st_sessionState st, se_stateVersion := nextVersion,
                         se_eventSequence := nextSequence,
                         se_terminalReason := Some (terminalReasonFor (st_sessionState st) (st_failureCode st)),
                         se_completedAt := (if st_sessionState st = S_COMPLETED then Some (si_now i)
                                            else se_completedAt s)\<rparr>) (db_sessions db) in
            if fst moved \<noteq> 1
            then Inr (\<lparr>so_applied = True, so_refundId = refundId, so_sessionState = Some (se_state session),
                       so_sessionVersion = None\<rparr>, db\<lparr>db_sessions := snd moved\<rparr>)
            else
              let event = \<lparr>ob_id = si_newId i 3, ob_aggregateId = se_id session, ob_sequence = nextSequence,
                           ob_type = sessionEventTypeFor (st_sessionState st),
                           ob_payload = session_payload i session nextVersion (pj_id job)\<rparr>;
                  db1 = revokeSessionAccess (se_id session) (si_now i)
                          (db\<lparr>db_sessions := snd moved, db_outbox := db_outbox db @ [event]\<rparr>) in
              bind_result
                (scheduleSessionFilesForCleanup (se_id session) (si_now i)
                  (Some (terminal_state_of (st_sessionState st), Some (si_retentionPolicy i))) db1)
                (\<lambda>db2. Inr (\<lparr>so_applied = True, so_refundId = refundId, so_sessionState = Some (st_sessionState st),
                             so_sessionVersion = Some nextVersion\<rparr>, db2)))"

definition not_applied :: settlement_outcome where
  "not_applied = \<lparr>so_applied = False, so_refundId = None, so_sessionState = None, so_sessionVersion = None\<rparr>"

definition settlement_event :: "settlement_input \<Rightarrow> print_job_row \<Rightarrow> string option \<Rightarrow> print_job_event" where
  "settlement_event i job refundId =
     (let st = si_settlement i in
      (ledger_entry_row (si_newId i 1) (pj_id job) (si_ledgerType i) (job_status_of (st_status st)) (si_now i))
        \<lparr>pe_operationId := si_operationId i, pe_confidence := Some (st_resultConfidence st),
         pe_failureCode := st_failureCode st, pe_warningCode := st_warningCode st,
         pe_detail := Some (JObj ([(''sheetsProduced'', case st_sheetsProduced st of None \<Rightarrow> JNull | Some n \<Rightarrow> JNum n)] @
            (if truthy refundId = None then [] else [(''refundRecorded'', JBool True)]))),
         pe_deviceDetail := si_deviceDiagnostics i\<rparr>)"

definition settlement_audit :: "settlement_input \<Rightarrow> print_job_row \<Rightarrow> paper_deduction option \<Rightarrow> string option \<Rightarrow> audit_row" where
  "settlement_audit i job paper refundId =
     \<lparr>au_id = si_newId i 2, au_occurredAt = si_now i, au_actorType = si_actorType i, au_actorId = si_actorId i,
      au_kioskId = Some (pj_kioskId job), au_sessionId = pj_sessionId job,
      au_action = audit_action (st_status (si_settlement i)),
      au_outcome = printAuditOutcome (st_status (si_settlement i)),
      au_requestId = truthy (si_requestId i), au_metadata = audit_metadata i (pj_id job) paper refundId\<rparr>"

definition applyPrintJobSettlement ::
  "settlement_input \<Rightarrow> kiosk_db \<Rightarrow> tx_error + (settlement_outcome \<times> kiosk_db)" where
  "applyPrintJobSettlement i db =
     (let st = si_settlement i in
      case List.find (\<lambda>j. pj_id j = si_printJobId i) (db_jobs db) of
        None \<Rightarrow> Inr (not_applied, db)
      | Some job \<Rightarrow>
          if \<not> isOpenPrintJobStatus (pj_status job) then Inr (not_applied, db)
          else
            let settled = update_many (\<lambda>j. pj_id j = pj_id job \<and> pj_status j = pj_status job)
                            (settle_job st (si_now i)) (db_jobs db) in
            if fst settled \<noteq> 1 then Inr (not_applied, db\<lparr>db_jobs := snd settled\<rparr>)
            else
              let db1 = db\<lparr>db_jobs := snd settled,
                           db_commands := updated (\<lambda>c. ac_printJobId c = Some (pj_id job)
                               \<and> ac_status c \<in> {CS_PENDING, CS_CLAIMED})
                             (close_command st (si_now i)) (db_commands db)\<rparr> in
              case (if st_refundObligation st
                    then recordPrintFailureCompensation (pj_paymentId job) (pj_sessionId job) (si_newId i 0) (si_now i) db1
                    else (None, db1)) of (refundId, db2) \<Rightarrow>
              let db3 = recordPrintJobEvent (settlement_event i job refundId) db2 in
              case (if st_status st = ST_COMPLETED \<and> st_resultConfidence st = CONFIRMED \<and>
                       (case st_sheetsProduced st of None \<Rightarrow> False | Some n \<Rightarrow> 0 < n)
                    then (case applyKioskPaperDeduction (pj_kioskId job) (the (st_sheetsProduced st)) db3 of
                            (d, db') \<Rightarrow> (Some d, db'))
                    else (None, db3)) of (paper, db4) \<Rightarrow>
              settleSession i job refundId
                (db4\<lparr>db_audit := db_audit db4 @ [settlement_audit i job paper refundId]\<rparr>))"

section \<open>The settlement, table by table\<close>

lemma schedule_frame:
  assumes "scheduleSessionFilesForCleanup sid now sch db = Inr db'"
  shows "db_jobs db' = db_jobs db \<and> db_commands db' = db_commands db \<and> db_events db' = db_events db \<and>
    db_refunds db' = db_refunds db \<and> db_payments db' = db_payments db \<and> db_paper db' = db_paper db \<and>
    db_grants db' = db_grants db \<and> db_clients db' = db_clients db"
  using assms by (auto simp: scheduleSessionFilesForCleanup_def Let_def)

lemma revoke_frame [simp]:
  "db_jobs (revokeSessionAccess sid now db) = db_jobs db"
  "db_commands (revokeSessionAccess sid now db) = db_commands db"
  "db_events (revokeSessionAccess sid now db) = db_events db"
  "db_refunds (revokeSessionAccess sid now db) = db_refunds db"
  "db_payments (revokeSessionAccess sid now db) = db_payments db"
  "db_paper (revokeSessionAccess sid now db) = db_paper db"
  "db_sessions (revokeSessionAccess sid now db) = db_sessions db"
  "db_files (revokeSessionAccess sid now db) = db_files db"
  by (simp_all add: revokeSessionAccess_def)

lemma settleSession_frame:
  assumes "settleSession i job r db = Inr (out, db')"
  shows "db_jobs db' = db_jobs db \<and> db_commands db' = db_commands db \<and> db_events db' = db_events db \<and>
    db_refunds db' = db_refunds db \<and> db_payments db' = db_payments db \<and> db_paper db' = db_paper db \<and>
    so_applied out \<and> so_refundId out = r"
  using assms
  by (auto simp: settleSession_def Let_def split: option.splits if_splits dest!: schedule_frame)

lemma record_event_frame [simp]:
  "db_jobs (recordPrintJobEvent e db) = db_jobs db"
  "db_commands (recordPrintJobEvent e db) = db_commands db"
  "db_refunds (recordPrintJobEvent e db) = db_refunds db"
  "db_payments (recordPrintJobEvent e db) = db_payments db"
  "db_paper (recordPrintJobEvent e db) = db_paper db"
  "db_sessions (recordPrintJobEvent e db) = db_sessions db"
  "db_events (recordPrintJobEvent e db) =
     db_events db @ [e\<lparr>pe_sequence := nextPrintJobEventSequence (pe_printJobId e) db\<rparr>]"
  by (simp_all add: recordPrintJobEvent_def)

lemma deduction_frame [simp]:
  "db_jobs (snd (applyKioskPaperDeduction k n db)) = db_jobs db"
  "db_commands (snd (applyKioskPaperDeduction k n db)) = db_commands db"
  "db_events (snd (applyKioskPaperDeduction k n db)) = db_events db"
  "db_refunds (snd (applyKioskPaperDeduction k n db)) = db_refunds db"
  "db_payments (snd (applyKioskPaperDeduction k n db)) = db_payments db"
  "db_sessions (snd (applyKioskPaperDeduction k n db)) = db_sessions db"
  by (subst deduction_simps, simp)+

lemma compensation_frame [simp]:
  "db_jobs (snd (recordPrintFailureCompensation p s i now db)) = db_jobs db"
  "db_commands (snd (recordPrintFailureCompensation p s i now db)) = db_commands db"
  "db_events (snd (recordPrintFailureCompensation p s i now db)) = db_events db"
  "db_payments (snd (recordPrintFailureCompensation p s i now db)) = db_payments db"
  "db_paper (snd (recordPrintFailureCompensation p s i now db)) = db_paper db"
  "db_sessions (snd (recordPrintFailureCompensation p s i now db)) = db_sessions db"
  by (simp_all add: recordPrintFailureCompensation_def split: option.split)

lemma compensation_refunds_cong:
  "db_payments db1 = db_payments db2 \<Longrightarrow> db_refunds db1 = db_refunds db2 \<Longrightarrow>
    db_refunds (snd (recordPrintFailureCompensation p s i now db1)) =
    db_refunds (snd (recordPrintFailureCompensation p s i now db2))"
  by (simp add: recordPrintFailureCompensation_def split: option.split)

lemma deduction_paper_cong:
  "db_paper db1 = db_paper db2 \<Longrightarrow>
    db_paper (snd (applyKioskPaperDeduction k n db1)) = db_paper (snd (applyKioskPaperDeduction k n db2))"
  by (simp add: applyKioskPaperDeduction_def lockKioskPaperEstimate_def Let_def split: option.split)

text \<open>The tables an outcome writes, as one relation over the database before and after.\<close>

definition paper_consumed :: "print_job_settlement \<Rightarrow> bool" where
  "paper_consumed st \<longleftrightarrow>
     st_status st = ST_COMPLETED \<and> st_resultConfidence st = CONFIRMED \<and>
     (case st_sheetsProduced st of None \<Rightarrow> False | Some n \<Rightarrow> 0 < n)"

definition settled_tables :: "settlement_input \<Rightarrow> print_job_row \<Rightarrow> kiosk_db \<Rightarrow> kiosk_db \<Rightarrow> bool" where
  "settled_tables i job db db' \<longleftrightarrow>
     (let st = si_settlement i in
      db_jobs db' = updated (\<lambda>j. pj_id j = pj_id job) (settle_job st (si_now i)) (db_jobs db) \<and>
      db_commands db' = updated (\<lambda>c. ac_printJobId c = Some (pj_id job) \<and> ac_status c \<in> {CS_PENDING, CS_CLAIMED})
                          (close_command st (si_now i)) (db_commands db) \<and>
      db_refunds db' =
        (if st_refundObligation st
         then db_refunds (snd (recordPrintFailureCompensation (pj_paymentId job) (pj_sessionId job)
                                 (si_newId i 0) (si_now i) db))
         else db_refunds db) \<and>
      (\<exists>r. db_events db' = db_events db @
             [(settlement_event i job r)\<lparr>pe_sequence := nextPrintJobEventSequence (pj_id job) db\<rparr>]) \<and>
      db_payments db' = db_payments db \<and>
      db_paper db' =
        (if paper_consumed st
         then db_paper (snd (applyKioskPaperDeduction (pj_kioskId job) (the (st_sheetsProduced st)) db))
         else db_paper db))"

lemma settlement_event_job [simp]: "pe_printJobId (settlement_event i job r) = pj_id job"
  by (simp add: settlement_event_def ledger_entry_row_def Let_def)

lemma next_sequence_cong:
  "db_events db1 = db_events db2 \<Longrightarrow> nextPrintJobEventSequence j db1 = nextPrintJobEventSequence j db2"
  by (simp add: nextPrintJobEventSequence_def)

lemma updated_cong: "(\<And>r. r \<in> set rows \<Longrightarrow> p r = q r) \<Longrightarrow> updated p f rows = updated q f rows"
  by (induction rows) auto

lemma settle_job_rows:
  assumes "distinct (map pj_id rows)" and "job \<in> set rows"
  shows "updated (\<lambda>j. pj_id j = pj_id job \<and> pj_status j = pj_status job) f rows =
      updated (\<lambda>j. pj_id j = pj_id job) f rows"
    and "length (filter (\<lambda>j. pj_id j = pj_id job \<and> pj_status j = pj_status job) rows) = 1"
  using assms
  by (auto intro!: updated_cong dest: key_unique [OF assms(1)] simp: filter_key_unique [OF assms, where q = "\<lambda>j. pj_status j = pj_status job"])

lemma settlement_cases:
  assumes run: "applyPrintJobSettlement i db = Inr (out, db')" and ids: "distinct (map pj_id (db_jobs db))"
  obtains (ignored) "out = not_applied" "db' = db"
      "\<And>j. j \<in> set (db_jobs db) \<Longrightarrow> pj_id j = si_printJobId i \<Longrightarrow> \<not> isOpenPrintJobStatus (pj_status j)"
  | (settled) job db4 r where "job \<in> set (db_jobs db)" "pj_id job = si_printJobId i"
      "isOpenPrintJobStatus (pj_status job)" "so_applied out" "settled_tables i job db db'"
      "db_sessions db4 = db_sessions db" "settleSession i job r db4 = Inr (out, db')"
proof (cases "List.find (\<lambda>j. pj_id j = si_printJobId i) (db_jobs db)")
  case None
  then have "\<And>j. j \<in> set (db_jobs db) \<Longrightarrow> pj_id j \<noteq> si_printJobId i" by (auto simp: find_None_iff)
  then show ?thesis using None run by (intro ignored) (auto simp: applyPrintJobSettlement_def)
next
  case (Some job)
  then have job: "job \<in> set (db_jobs db)" "pj_id job = si_printJobId i" by (auto dest: find_Some_set)
  show ?thesis
  proof (cases "isOpenPrintJobStatus (pj_status job)")
    case False
    have "\<And>j. j \<in> set (db_jobs db) \<Longrightarrow> pj_id j = si_printJobId i \<Longrightarrow> j = job"
      using key_unique [OF ids] job by metis
    then show ?thesis using False Some run by (intro ignored) (auto simp: applyPrintJobSettlement_def)
  next
    case True
    let ?st = "si_settlement i"
    define db1 where "db1 = db\<lparr>db_jobs := updated (\<lambda>j. pj_id j = pj_id job) (settle_job ?st (si_now i)) (db_jobs db),
        db_commands := updated (\<lambda>c. ac_printJobId c = Some (pj_id job) \<and> ac_status c \<in> {CS_PENDING, CS_CLAIMED})
                          (close_command ?st (si_now i)) (db_commands db)\<rparr>"
    define comp where "comp = (if st_refundObligation ?st
        then recordPrintFailureCompensation (pj_paymentId job) (pj_sessionId job) (si_newId i 0) (si_now i) db1
        else (None, db1))"
    define db3 where "db3 = recordPrintJobEvent (settlement_event i job (fst comp)) (snd comp)"
    define ded where "ded = (if paper_consumed ?st
        then map_prod Some id (applyKioskPaperDeduction (pj_kioskId job) (the (st_sheetsProduced ?st)) db3)
        else (None, db3))"
    define db4 where "db4 = (snd ded)\<lparr>db_audit := db_audit (snd ded) @ [settlement_audit i job (fst ded) (fst comp)]\<rparr>"
    have "applyPrintJobSettlement i db = settleSession i job (fst comp) db4"
      using Some True settle_job_rows(2) [OF ids job(1)]
      by (simp add: applyPrintJobSettlement_def Let_def settle_job_rows(1) [OF ids job(1)] split_beta
          db4_def ded_def db3_def comp_def db1_def paper_consumed_def)
    with run have go: "settleSession i job (fst comp) db4 = Inr (out, db')" by simp
    note frame = settleSession_frame [OF go]
    have comp_frame: "db_jobs (snd comp) = db_jobs db1" "db_commands (snd comp) = db_commands db1"
        "db_events (snd comp) = db_events db" "db_payments (snd comp) = db_payments db"
        "db_paper (snd comp) = db_paper db" "db_sessions (snd comp) = db_sessions db"
      by (simp_all add: comp_def db1_def)
    have ded_frame: "db_jobs (snd ded) = db_jobs db3" "db_commands (snd ded) = db_commands db3"
        "db_events (snd ded) = db_events db3" "db_payments (snd ded) = db_payments db3"
        "db_refunds (snd ded) = db_refunds db3" "db_sessions (snd ded) = db_sessions db3"
      by (simp_all add: ded_def)
    have refunds: "db_refunds (snd comp) = (if st_refundObligation ?st
         then db_refunds (snd (recordPrintFailureCompensation (pj_paymentId job) (pj_sessionId job)
                                 (si_newId i 0) (si_now i) db)) else db_refunds db)"
      by (auto simp: comp_def db1_def intro: compensation_refunds_cong)
    have paper: "db_paper (snd ded) = (if paper_consumed ?st
         then db_paper (snd (applyKioskPaperDeduction (pj_kioskId job) (the (st_sheetsProduced ?st)) db))
         else db_paper db)"
      using comp_frame(5) by (auto simp: ded_def db3_def intro: deduction_paper_cong)
    have "nextPrintJobEventSequence (pj_id job) (snd comp) = nextPrintJobEventSequence (pj_id job) db"
      by (rule next_sequence_cong [OF comp_frame(3)])
    then have "settled_tables i job db db'"
      unfolding settled_tables_def Let_def
      using frame refunds paper comp_frame ded_frame
      by (auto simp: db4_def db3_def db1_def)
    moreover have "db_sessions db4 = db_sessions db"
      by (simp add: db4_def ded_frame db3_def comp_frame)
    ultimately show ?thesis using job True frame go by (intro settled) auto
  qed
qed

end
