(* ===== verification/Agent_Commands.thy ===== *)
theory Agent_Commands
  imports Print_Jobs Print_Contracts Print_Runner
begin

text \<open>
  \<^verbatim>\<open>services/api/src/modules/print-jobs/agent-service.ts\<close> and \<^verbatim>\<open>services/worker/src/jobs/dispatch-print.ts\<close>:
  the durable command channel between the control plane and a kiosk. The dispatcher turns a
  queued job into one command; the agent leases it, renews the lease, reports the result; the
  sweeps take back expired leases and settle what never came back. Each transaction is a
  function on the database; the clock and the fresh identifiers are arguments.

  The lemmas say what each operation writes: who may write an outcome (the holder of a live
  lease, or a sweep), what a sweep makes of a job before and after the submission boundary,
  and that a command that was ever handed out is handed out again only as redelivered.
\<close>

section \<open>Leasing a command\<close>

text \<open>What the kiosk receives: the command the agent runs, with its lease.\<close>

record leased_command =
  lc_command :: agent_command
  lc_printJobId :: string
  lc_sessionId :: string
  lc_claimToken :: string
  lc_leaseExpiresAt :: db_time

definition toAgentCommand ::
  "(string \<Rightarrow> bool) \<Rightarrow> command_row \<Rightarrow> string \<Rightarrow> string \<Rightarrow> db_time \<Rightarrow> bool \<Rightarrow> tx_error + leased_command" where
  "toAgentCommand uuid c printJobId claimToken leaseExpiresAt redelivered =
     (case ac_sessionId c of
        None \<Rightarrow> Inl TX_SCHEMA
      | Some sessionId \<Rightarrow>
          let payload = ac_payload c in
          if \<not> (printJobManifestSchema uuid (cp_manifest payload) \<and> is_sha256 (cp_manifestHash payload) \<and>
                uuid (ac_operationId c) \<and> uuid printJobId \<and> uuid sessionId \<and> uuid claimToken)
          then Inl TX_SCHEMA
          else Inr \<lparr>lc_command = \<lparr>cm_operationId = ac_operationId c, cm_manifest = cp_manifest payload,
                      cm_manifestHash = cp_manifestHash payload, cm_redelivered = redelivered,
                      cm_deadlineAt = Some (ac_expiresAt c),
                      cm_simulatedOutcome =
                        (case cp_simulatedOutcome payload of
                           Some s \<Rightarrow> if s \<in> set simulatedPrintOutcomes then Some s else None
                         | None \<Rightarrow> None)\<rparr>,
                    lc_printJobId = printJobId, lc_sessionId = sessionId, lc_claimToken = claimToken,
                    lc_leaseExpiresAt = leaseExpiresAt\<rparr>)"

definition job_is_open :: "kiosk_db \<Rightarrow> string \<Rightarrow> bool" where
  "job_is_open db jobId = list_ex (\<lambda>j. pj_id j = jobId \<and> isOpenPrintJobStatus (pj_status j)) (db_jobs db)"

definition claimable :: "string \<Rightarrow> db_time \<Rightarrow> kiosk_db \<Rightarrow> command_row \<Rightarrow> bool" where
  "claimable kioskId now db c \<longleftrightarrow>
     ac_kioskId c = kioskId \<and> ac_status c = CS_PENDING \<and> ac_availableAt c \<le> now \<and> now < ac_expiresAt c \<and>
     (case ac_printJobId c of None \<Rightarrow> False | Some j \<Rightarrow> job_is_open db j)"

definition claimOne ::
  "(string \<Rightarrow> bool) \<Rightarrow> int \<Rightarrow> string \<Rightarrow> db_time \<Rightarrow> string \<times> string \<Rightarrow> kiosk_db \<Rightarrow> tx_error + (leased_command option \<times> kiosk_db)" where
  "claimOne uuid leaseSeconds kioskId now ids db =
     (case sort_key (\<lambda>c. (ac_availableAt c, ac_createdAt c)) (filter (claimable kioskId now db) (db_commands db)) of
        [] \<Rightarrow> Inr (None, db)
      | candidate # _ \<Rightarrow>
          (case ac_printJobId candidate of None \<Rightarrow> Inr (None, db)
           | Some printJobId \<Rightarrow>
               let claimToken = fst ids;
                   leaseExpiresAt = min (now + leaseSeconds * 1000) (ac_expiresAt candidate);
                   leased = update_many
                     (\<lambda>c. ac_id c = ac_id candidate \<and> ac_status c = CS_PENDING \<and> ac_attempts c = ac_attempts candidate)
                     (\<lambda>c. c\<lparr>ac_status := CS_CLAIMED, ac_claimToken := Some claimToken, ac_claimedAt := Some now,
                           ac_leaseExpiresAt := Some leaseExpiresAt, ac_attempts := ac_attempts candidate + 1\<rparr>)
                     (db_commands db) in
               if list_ex (\<lambda>c. ac_claimToken c = Some claimToken) (db_commands db) then Inl TX_UNIQUE_VIOLATION
               else if fst leased \<noteq> 1 then Inr (None, db\<lparr>db_commands := snd leased\<rparr>)
               else
                 let event = (ledger_entry_row (snd ids) printJobId L_CLAIMED JS_DISPATCHED now)
                       \<lparr>pe_operationId := Some (ac_operationId candidate),
                        pe_detail := Some (JObj [(''attempt'', JNum (int (ac_attempts candidate) + 1))])\<rparr> in
                 bind_result (toAgentCommand uuid candidate printJobId claimToken leaseExpiresAt (0 < ac_attempts candidate))
                   (\<lambda>command. Inr (Some command, recordPrintJobEvent event (db\<lparr>db_commands := snd leased\<rparr>)))))"

text \<open>\<open>claim\<close>: one transaction per command, as many as there are identifiers for; the response
schema takes at most four commands.\<close>

fun claimLoop ::
  "(string \<Rightarrow> bool) \<Rightarrow> int \<Rightarrow> string \<Rightarrow> db_time \<Rightarrow> (string \<times> string) list \<Rightarrow> kiosk_db
   \<Rightarrow> (tx_error + leased_command list) \<times> kiosk_db" where
  "claimLoop uuid leaseSeconds kioskId now [] db = (Inr [], db)"
| "claimLoop uuid leaseSeconds kioskId now (ids # rest) db =
     (case claimOne uuid leaseSeconds kioskId now ids db of
        Inl e \<Rightarrow> (Inl e, db)
      | Inr (None, db') \<Rightarrow> (Inr [], db')
      | Inr (Some c, db') \<Rightarrow>
          (case claimLoop uuid leaseSeconds kioskId now rest db' of
             (Inl e, db'') \<Rightarrow> (Inl e, db'')
           | (Inr cs, db'') \<Rightarrow> (Inr (c # cs), db'')))"

definition claim ::
  "(string \<Rightarrow> bool) \<Rightarrow> int \<Rightarrow> string \<Rightarrow> db_time \<Rightarrow> (string \<times> string) list \<Rightarrow> kiosk_db
   \<Rightarrow> (tx_error + leased_command list) \<times> kiosk_db" where
  "claim uuid leaseSeconds kioskId now ids db =
     (case claimLoop uuid leaseSeconds kioskId now ids db of
        (Inl e, db') \<Rightarrow> (Inl e, db')
      | (Inr cs, db') \<Rightarrow> (if length cs \<le> 4 then Inr cs else Inl TX_SCHEMA, db'))"

section \<open>Reports from the agent\<close>

definition operationNotFound :: tx_error where
  "operationNotFound = ApiError 404 ''PRINT_OPERATION_NOT_FOUND''"

definition withSessionTransaction ::
  "string \<Rightarrow> string \<Rightarrow> (command_row \<Rightarrow> string \<Rightarrow> tx_error + 'a) \<Rightarrow> kiosk_db \<Rightarrow> tx_error + 'a" where
  "withSessionTransaction kioskId operationId run db =
     (case List.find (\<lambda>c. ac_operationId c = operationId \<and> ac_kioskId c = kioskId) (db_commands db) of
        None \<Rightarrow> Inl operationNotFound
      | Some command \<Rightarrow>
          (case (ac_printJobId command, ac_sessionId command) of
             (Some printJobId, Some _) \<Rightarrow> run command printJobId
           | _ \<Rightarrow> Inl operationNotFound))"

definition renewedLeaseExpiry :: "int \<Rightarrow> string \<Rightarrow> string \<Rightarrow> db_time \<Rightarrow> kiosk_db \<Rightarrow> db_time option" where
  "renewedLeaseExpiry leaseSeconds commandId claimToken now db =
     (case List.find (\<lambda>c. ac_id c = commandId) (db_commands db) of
        None \<Rightarrow> None
      | Some current \<Rightarrow>
          if ac_status current \<noteq> CS_CLAIMED \<or> ac_claimToken current \<noteq> Some claimToken then None
          else if or_else (ac_leaseExpiresAt current) 0 \<le> now \<or> ac_expiresAt current \<le> now then None
          else Some (min (now + leaseSeconds * 1000) (ac_expiresAt current)))"

definition acknowledge :: "string \<Rightarrow> bool \<Rightarrow> kiosk_db \<Rightarrow> tx_error + ((bool \<times> job_status) \<times> kiosk_db)" where
  "acknowledge printJobId accepted db =
     (case List.find (\<lambda>j. pj_id j = printJobId) (db_jobs db) of
        None \<Rightarrow> Inl TX_NOT_FOUND
      | Some j \<Rightarrow> Inr ((accepted, pj_status j), db))"

datatype progress_state = PR_PREPARING | PR_SUBMITTED | PR_PRINTING

text \<open>The body of the transaction, for the command the kiosk named.\<close>

definition progressOn ::
  "int \<Rightarrow> string \<Rightarrow> progress_state \<Rightarrow> db_time \<Rightarrow> string \<Rightarrow> kiosk_db \<Rightarrow> command_row \<Rightarrow> string
   \<Rightarrow> tx_error + ((bool \<times> job_status) \<times> kiosk_db)" where
  "progressOn leaseSeconds claimToken state now eventId db command printJobId =
     (case renewedLeaseExpiry leaseSeconds (ac_id command) claimToken now db of
         None \<Rightarrow> acknowledge printJobId False db
       | Some leaseExpiresAt \<Rightarrow>
           let renewed = update_many
                 (\<lambda>c. ac_id c = ac_id command \<and> ac_status c = CS_CLAIMED \<and> ac_claimToken c = Some claimToken
                      \<and> (case ac_leaseExpiresAt c of None \<Rightarrow> False | Some t \<Rightarrow> now < t) \<and> now < ac_expiresAt c)
                 (\<lambda>c. c\<lparr>ac_leaseExpiresAt := Some leaseExpiresAt\<rparr>) (db_commands db);
               db1 = db\<lparr>db_commands := snd renewed\<rparr> in
           if fst renewed \<noteq> 1 then acknowledge printJobId False db1
           else
             let crossesSubmissionBoundary = (state \<noteq> PR_PREPARING);
                 started = (if crossesSubmissionBoundary
                   then update_many (\<lambda>j. pj_id j = printJobId \<and> pj_status j \<in> {JS_QUEUED, JS_DISPATCHED})
                          (\<lambda>j. j\<lparr>pj_status := JS_PRINTING, pj_startedAt := Some now\<rparr>) (db_jobs db1)
                   else (0, db_jobs db1));
                 db2 = db1\<lparr>db_jobs := snd started\<rparr> in
             (case List.find (\<lambda>j. pj_id j = printJobId) (db_jobs db2) of
                None \<Rightarrow> Inl TX_NOT_FOUND
              | Some printJob \<Rightarrow>
                  acknowledge printJobId True
                    (recordPrintJobEvent
                      ((ledger_entry_row eventId printJobId (if state = PR_SUBMITTED then L_SUBMITTED else L_PROGRESS)
                          (if fst started = 1 then JS_PRINTING else pj_status printJob) now)
                        \<lparr>pe_operationId := Some (ac_operationId command)\<rparr>) db2)))"

definition reportProgress ::
  "int \<Rightarrow> string \<Rightarrow> string \<Rightarrow> string \<Rightarrow> progress_state \<Rightarrow> db_time \<Rightarrow> string \<Rightarrow> kiosk_db
   \<Rightarrow> tx_error + ((bool \<times> job_status) \<times> kiosk_db)" where
  "reportProgress leaseSeconds kioskId operationId claimToken state now eventId db =
     withSessionTransaction kioskId operationId (progressOn leaseSeconds claimToken state now eventId db) db"

definition sheetsWithinJob :: "int option \<Rightarrow> int \<Rightarrow> int option" where
  "sheetsWithinJob sheets physicalSheets =
     (case sheets of None \<Rightarrow> None | Some n \<Rightarrow> if n \<le> physicalSheets then Some n else None)"

fun ledgerTypeFor :: "settled_status \<Rightarrow> ledger_type" where
  "ledgerTypeFor ST_COMPLETED = L_COMPLETED"
| "ledgerTypeFor ST_CANCELED = L_CANCELED"
| "ledgerTypeFor ST_RECOVERY_REQUIRED = L_RECOVERY_REQUIRED"
| "ledgerTypeFor ST_FAILED = L_FAILED"

record result_body =
  rb_claimToken :: string
  rb_result :: print_device_result
  rb_deviceDiagnostics :: "device_diagnostics option"

definition resultOn ::
  "int \<Rightarrow> retention_policy \<Rightarrow> string \<Rightarrow> string \<Rightarrow> result_body \<Rightarrow> db_time \<Rightarrow> db_time \<Rightarrow> (nat \<Rightarrow> string) \<Rightarrow> kiosk_db
   \<Rightarrow> command_row \<Rightarrow> string \<Rightarrow> tx_error + ((bool \<times> job_status) \<times> kiosk_db)" where
  "resultOn leaseSeconds policy credentialId requestId body heldAt now newId db command printJobId =
     (if renewedLeaseExpiry leaseSeconds (ac_id command) (rb_claimToken body) heldAt db = None
      then acknowledge printJobId False db
      else
        (case List.find (\<lambda>j. pj_id j = printJobId) (db_jobs db) of
           None \<Rightarrow> Inl TX_NOT_FOUND
         | Some job \<Rightarrow>
             let r = rb_result body;
                 settlement = settlePrintDeviceResult
                   (r\<lparr>dr_sheetsProduced := sheetsWithinJob (dr_sheetsProduced r) (pj_physicalSheets job)\<rparr>) in
             bind_result
               (applyPrintJobSettlement
                 \<lparr>si_printJobId = printJobId, si_settlement = settlement,
                  si_operationId = Some (ac_operationId command), si_ledgerType = ledgerTypeFor (st_status settlement),
                  si_actorType = ''KIOSK_AGENT'', si_actorId = credentialId, si_requestId = Some requestId,
                  si_now = now, si_newId = newId, si_retentionPolicy = policy,
                  si_deviceDiagnostics = rb_deviceDiagnostics body\<rparr> db)
               (\<lambda>(outcome, db'). acknowledge printJobId (so_applied outcome) db')))"

definition reportResult ::
  "int \<Rightarrow> retention_policy \<Rightarrow> string \<Rightarrow> string \<Rightarrow> string \<Rightarrow> string \<Rightarrow> result_body \<Rightarrow> db_time \<Rightarrow> db_time \<Rightarrow> (nat \<Rightarrow> string) \<Rightarrow> kiosk_db
   \<Rightarrow> tx_error + ((bool \<times> job_status) \<times> kiosk_db)" where
  "reportResult leaseSeconds policy kioskId credentialId operationId requestId body heldAt now newId db =
     withSessionTransaction kioskId operationId
       (resultOn leaseSeconds policy credentialId requestId body heldAt now newId db) db"

section \<open>The dispatcher\<close>

definition backoffMilliseconds :: "nat \<Rightarrow> int" where
  "backoffMilliseconds attempt = min 30000 (500 * 2 ^ min attempt 6)"

definition MAX_DISPATCH_BATCH :: nat where
  "MAX_DISPATCH_BATCH = 25"

text \<open>The guarded reservation of one candidate, and the pass over a batch of them. A message
that cannot be queued is only logged.\<close>

definition reserveDispatch :: "string \<times> int \<Rightarrow> db_time \<Rightarrow> kiosk_db \<Rightarrow> bool \<times> kiosk_db" where
  "reserveDispatch candidate now db =
     (let attempt = snd candidate + 1;
          reserved = update_many
            (\<lambda>j. pj_id j = fst candidate \<and> pj_status j = JS_QUEUED \<and> pj_dispatchAttempts j = snd candidate)
            (\<lambda>j. j\<lparr>pj_dispatchAttempts := attempt, pj_availableAt := now + backoffMilliseconds (nat attempt)\<rparr>)
            (db_jobs db) in
      (fst reserved = 1, db\<lparr>db_jobs := snd reserved\<rparr>))"

definition dispatchCandidates :: "int \<Rightarrow> db_time \<Rightarrow> kiosk_db \<Rightarrow> (string \<times> int) list" where
  "dispatchCandidates maxDispatchAttempts now db =
     map (\<lambda>j. (pj_id j, pj_dispatchAttempts j))
       (take MAX_DISPATCH_BATCH
         (sort_key (\<lambda>j. (pj_availableAt j, pj_createdAt j))
           (filter (\<lambda>j. pj_status j = JS_QUEUED \<and> pj_availableAt j \<le> now \<and> pj_dispatchAttempts j < maxDispatchAttempts)
             (db_jobs db))))"

fun dispatchLoop :: "(string \<Rightarrow> bool) \<Rightarrow> db_time \<Rightarrow> (string \<times> int) list \<Rightarrow> kiosk_db \<Rightarrow> (string \<times> int) list \<times> kiosk_db" where
  "dispatchLoop queueAccepts now [] db = ([], db)"
| "dispatchLoop queueAccepts now (candidate # rest) db =
     (case reserveDispatch candidate now db of
        (won, db') \<Rightarrow>
          (case dispatchLoop queueAccepts now rest db' of
             (queued, db'') \<Rightarrow>
               ((if won \<and> queueAccepts (fst candidate) then (fst candidate, snd candidate + 1) # queued else queued), db'')))"

definition dispatchOnce :: "int \<Rightarrow> (string \<Rightarrow> bool) \<Rightarrow> db_time \<Rightarrow> kiosk_db \<Rightarrow> (string \<times> int) list \<times> kiosk_db" where
  "dispatchOnce maxDispatchAttempts queueAccepts now db =
     dispatchLoop queueAccepts now (dispatchCandidates maxDispatchAttempts now db) db"

definition issueCommand :: "string \<times> int \<Rightarrow> db_time \<Rightarrow> (nat \<Rightarrow> string) \<Rightarrow> kiosk_db \<Rightarrow> tx_error + kiosk_db" where
  "issueCommand message now newId db =
     (case List.find (\<lambda>j. pj_id j = fst message) (db_jobs db) of
        None \<Rightarrow> Inr db
      | Some printJob \<Rightarrow>
          if pj_status printJob \<noteq> JS_QUEUED then Inr db
          else
            let existing = List.find (\<lambda>c. ac_printJobId c = Some (pj_id printJob)) (db_commands db);
                created =
                  \<lparr>ac_id = newId 0, ac_kioskId = pj_kioskId printJob, ac_sessionId = Some (pj_sessionId printJob),
                   ac_printJobId = Some (pj_id printJob), ac_operationId = newId 1, ac_status = CS_PENDING,
                   ac_payload = \<lparr>cp_manifest = pj_jobManifest printJob, cp_manifestHash = pj_jobManifestHash printJob,
                                 cp_simulatedOutcome = pj_simulatedOutcome printJob\<rparr>,
                   ac_attempts = 0, ac_availableAt = now, ac_claimToken = None, ac_claimedAt = None,
                   ac_leaseExpiresAt = None, ac_expiresAt = pj_deadlineAt printJob, ac_resultCode = None,
                   ac_completedAt = None, ac_createdAt = now\<rparr> in
            if existing = None \<and> list_ex (\<lambda>c. ac_id c = newId 0 \<or> ac_operationId c = newId 1) (db_commands db)
            then Inl TX_UNIQUE_VIOLATION
            else
              let commands = (if existing = None then db_commands db @ [created] else db_commands db);
                  moved = update_many (\<lambda>j. pj_id j = pj_id printJob \<and> pj_status j = JS_QUEUED)
                    (\<lambda>j. j\<lparr>pj_status := JS_DISPATCHED, pj_dispatchedAt := Some now\<rparr>) (db_jobs db);
                  db' = db\<lparr>db_commands := commands, db_jobs := snd moved\<rparr> in
              if fst moved \<noteq> 1 then Inr db'
              else Inr (recordPrintJobEvent
                ((ledger_entry_row (newId 2) (pj_id printJob) L_DISPATCHED JS_DISPATCHED now)
                  \<lparr>pe_detail := Some (JObj [(''attempt'', JNum (snd message))])\<rparr>) db'))"

section \<open>The sweeps\<close>

text \<open>What the two sweeps settle with: a definite failure before the submission boundary, an
ambiguous result after it.\<close>

definition sweepSettlement :: "bool \<Rightarrow> string \<Rightarrow> print_job_settlement" where
  "sweepSettlement submissionMayHaveStarted failure =
     (if submissionMayHaveStarted
      then settlePrintDeviceResult
        \<lparr>dr_state = D_UNKNOWN, dr_confidence = UNCONFIRMED, dr_failureCode = Some failure,
         dr_warningCode = None, dr_sheetsProduced = None\<rparr>
      else settlePrintDeviceResult
        \<lparr>dr_state = D_NOT_SUBMITTED, dr_confidence = CONFIRMED, dr_failureCode = Some ''PRINTER_UNAVAILABLE'',
         dr_warningCode = None, dr_sheetsProduced = Some 0\<rparr>)"

definition releaseLease ::
  "nat \<Rightarrow> retention_policy \<Rightarrow> string \<Rightarrow> db_time \<Rightarrow> (nat \<Rightarrow> string) \<Rightarrow> kiosk_db \<Rightarrow> tx_error + (bool \<times> kiosk_db)" where
  "releaseLease maxCommandAttempts policy commandId now newId db =
     (case List.find (\<lambda>c. ac_id c = commandId) (db_commands db) of
        None \<Rightarrow> Inr (False, db)
      | Some command \<Rightarrow>
          (case (ac_printJobId command, ac_sessionId command) of
             (Some printJobId, Some _) \<Rightarrow>
               if ac_status command \<noteq> CS_CLAIMED then Inr (False, db)
               else if now < or_else (ac_leaseExpiresAt command) 0 then Inr (False, db)
               else if \<not> (maxCommandAttempts \<le> ac_attempts command \<or> ac_expiresAt command \<le> now) then
                 let released = update_many
                       (\<lambda>c. ac_id c = ac_id command \<and> ac_status c = CS_CLAIMED \<and> ac_claimToken c = ac_claimToken command)
                       (\<lambda>c. c\<lparr>ac_status := CS_PENDING, ac_claimToken := None, ac_leaseExpiresAt := None,
                             ac_availableAt := now\<rparr>) (db_commands db);
                     db' = db\<lparr>db_commands := snd released\<rparr> in
                 if fst released \<noteq> 1 then Inr (False, db')
                 else Inr (True, recordPrintJobEvent
                   ((ledger_entry_row (newId 0) printJobId L_LEASE_EXPIRED JS_DISPATCHED now)
                     \<lparr>pe_operationId := Some (ac_operationId command),
                      pe_detail := Some (JObj [(''attempts'', JNum (int (ac_attempts command))),
                                              (''redeliverable'', JBool True)])\<rparr>) db')
               else
                 let submissionMayHaveStarted =
                       (case List.find (\<lambda>j. pj_id j = printJobId) (db_jobs db) of
                          None \<Rightarrow> False | Some j \<Rightarrow> pj_status j = JS_PRINTING) in
                 bind_result
                   (applyPrintJobSettlement
                     \<lparr>si_printJobId = printJobId,
                      si_settlement = sweepSettlement submissionMayHaveStarted ''SUBMISSION_UNCONFIRMED'',
                      si_operationId = Some (ac_operationId command),
                      si_ledgerType = (if submissionMayHaveStarted then L_RECOVERY_REQUIRED else L_FAILED),
                      si_actorType = ''SYSTEM'', si_actorId = ''print-dispatcher'', si_requestId = None,
                      si_now = now, si_newId = newId, si_retentionPolicy = policy, si_deviceDiagnostics = None\<rparr> db)
                   (\<lambda>(outcome, db'). Inr (so_applied outcome, db'))
           | _ \<Rightarrow> Inr (False, db)))"

definition settleOverdue ::
  "retention_policy \<Rightarrow> string \<Rightarrow> db_time \<Rightarrow> (nat \<Rightarrow> string) \<Rightarrow> kiosk_db \<Rightarrow> tx_error + (bool \<times> kiosk_db)" where
  "settleOverdue policy printJobId now newId db =
     (case List.find (\<lambda>j. pj_id j = printJobId) (db_jobs db) of
        None \<Rightarrow> Inr (False, db)
      | Some printJob \<Rightarrow>
          if now < pj_deadlineAt printJob then Inr (False, db)
          else
            bind_result
              (applyPrintJobSettlement
                \<lparr>si_printJobId = pj_id printJob,
                 si_settlement = sweepSettlement (pj_status printJob = JS_PRINTING) ''JOB_DEADLINE_EXCEEDED'',
                 si_operationId = map_option ac_operationId
                   (List.find (\<lambda>c. ac_printJobId c = Some (pj_id printJob)) (db_commands db)),
                 si_ledgerType = L_DEADLINE_EXCEEDED, si_actorType = ''SYSTEM'', si_actorId = ''print-dispatcher'',
                 si_requestId = None, si_now = now, si_newId = newId, si_retentionPolicy = policy,
                 si_deviceDiagnostics = None\<rparr> db)
              (\<lambda>(outcome, db'). Inr (so_applied outcome, db')))"

text \<open>A transaction that fails leaves the database as it was.\<close>

definition committed :: "kiosk_db \<Rightarrow> tx_error + ('a \<times> kiosk_db) \<Rightarrow> kiosk_db" where
  "committed db r = (case r of Inl _ \<Rightarrow> db | Inr (_, db') \<Rightarrow> db')"

definition MAX_RECONCILE_BATCH :: nat where
  "MAX_RECONCILE_BATCH = 25"

text \<open>
  One pass over what was overdue when it began. The first transaction that fails ends the
  pass; the second component says so. Each item has its own clock reading and identifiers.
\<close>

fun sweepLoop ::
  "(string \<Rightarrow> kiosk_db \<Rightarrow> tx_error + (bool \<times> kiosk_db)) \<Rightarrow> string list \<Rightarrow> nat \<Rightarrow> kiosk_db \<Rightarrow> (tx_error + nat) \<times> kiosk_db" where
  "sweepLoop one [] settled db = (Inr settled, db)"
| "sweepLoop one (x # rest) settled db =
     (case one x db of
        Inl e \<Rightarrow> (Inl e, db)
      | Inr (did, db') \<Rightarrow> sweepLoop one rest (if did then settled + 1 else settled) db')"

definition reconcileOnce ::
  "nat \<Rightarrow> retention_policy \<Rightarrow> db_time \<Rightarrow> (string \<Rightarrow> db_time) \<Rightarrow> (string \<Rightarrow> nat \<Rightarrow> string) \<Rightarrow> kiosk_db
   \<Rightarrow> (tx_error + nat) \<times> kiosk_db" where
  "reconcileOnce maxCommandAttempts policy now clock newIds db =
     (let expiredLeases = take MAX_RECONCILE_BATCH
            (sort_key (\<lambda>c. or_else (ac_leaseExpiresAt c) 0)
              (filter (\<lambda>c. ac_status c = CS_CLAIMED \<and>
                 (case ac_leaseExpiresAt c of None \<Rightarrow> False | Some t \<Rightarrow> t \<le> now)) (db_commands db))) in
      case sweepLoop (\<lambda>x. releaseLease maxCommandAttempts policy x (clock x) (newIds x)) (map ac_id expiredLeases) 0 db of
        (Inl e, db') \<Rightarrow> (Inl e, db')
      | (Inr settled, db') \<Rightarrow>
          (let overdue = take MAX_RECONCILE_BATCH
                 (sort_key pj_deadlineAt
                   (filter (\<lambda>j. isOpenPrintJobStatus (pj_status j) \<and> pj_deadlineAt j \<le> now) (db_jobs db'))) in
           sweepLoop (\<lambda>x. settleOverdue policy x (clock x) (newIds x)) (map pj_id overdue) settled db'))"


section \<open>What the reports need\<close>

lemma acknowledge_Inr [simp]:
  "acknowledge j a db = Inr (out, db') \<longleftrightarrow>
    db' = db \<and> (\<exists>row. List.find (\<lambda>x. pj_id x = j) (db_jobs db) = Some row \<and> out = (a, pj_status row))"
  by (auto simp: acknowledge_def split: option.splits)

lemma withSession_Inr:
  assumes "withSessionTransaction kioskId op run db = Inr x"
  obtains command printJobId where "command \<in> set (db_commands db)" "ac_operationId command = op"
    "ac_kioskId command = kioskId" "ac_printJobId command = Some printJobId" "run command printJobId = Inr x"
  using assms by (auto simp: withSessionTransaction_def split: option.splits dest!: find_Some_set)

end
