(* ===== verification/Print_Job_Service.thy ===== *)
theory Print_Job_Service
  imports Agent_Commands
begin

text \<open>
  \<^verbatim>\<open>services/api/src/modules/print-jobs/service.ts\<close>: \<open>PrintJobService\<close>, the kiosk's side of a print
  job. A job is created from the settings revision an applied capture paid for, once per session,
  and is cancelled for certain only while no device may have seen it. Requests are replayed by
  their idempotency key. The digests and the hash of a request are arguments; the audit rows and
  identifiers follow the order the code draws them in.

  The lemmas give what a created job is bound to, and that a request that is repeated, or one
  that fails, changes nothing.
\<close>

section \<open>Snapshots and stored selections\<close>

record print_job_snapshot =
  sn_id :: string
  sn_sessionId :: string
  sn_quoteId :: string
  sn_paymentId :: string
  sn_settingsRevision :: int
  sn_status :: job_status
  sn_resultConfidence :: result_confidence
  sn_failureCode :: "string option"
  sn_warningCode :: "string option"
  sn_copies :: int
  sn_printedSides :: int
  sn_physicalSheets :: int
  sn_sheetsProduced :: "int option"
  sn_createdAt :: db_time
  sn_deadlineAt :: db_time
  sn_completedAt :: "db_time option"

definition known_code :: "string list \<Rightarrow> string option \<Rightarrow> string option" where
  "known_code codes v = (case v of None \<Rightarrow> None | Some c \<Rightarrow> if c \<in> set codes then Some c else None)"

definition toPrintJobSnapshot :: "print_job_row \<Rightarrow> print_job_snapshot" where
  "toPrintJobSnapshot j =
     \<lparr>sn_id = pj_id j, sn_sessionId = pj_sessionId j, sn_quoteId = pj_quoteId j, sn_paymentId = pj_paymentId j,
      sn_settingsRevision = pj_settingsRevision j, sn_status = pj_status j,
      sn_resultConfidence = pj_resultConfidence j, sn_failureCode = known_code printFailureCodes (pj_failureCode j),
      sn_warningCode = known_code printWarningCodes (pj_warningCode j), sn_copies = pj_copies j,
      sn_printedSides = pj_printedSides j, sn_physicalSheets = pj_physicalSheets j,
      sn_sheetsProduced = pj_sheetsProduced j, sn_createdAt = pj_createdAt j, sn_deadlineAt = pj_deadlineAt j,
      sn_completedAt = pj_completedAt j\<rparr>"

record stored_selection =
  ss_fileId :: string
  ss_position :: int
  ss_pageCount :: int
  ss_processingRevision :: int
  ss_contentSha256 :: string
  ss_pageRanges :: "(int \<times> int) list"
  ss_selectedPages :: int
  ss_copies :: int
  ss_duplex :: string
  ss_orientation :: string
  ss_printedSides :: int
  ss_physicalSheets :: int

text \<open>A member of an object; of several members with one name the last is the one JSON keeps.\<close>

definition json_field :: "json \<Rightarrow> string \<Rightarrow> json option" where
  "json_field v k = (case v of JObj es \<Rightarrow> map_of (rev es) k | _ \<Rightarrow> None)"

definition int_field :: "json \<Rightarrow> string \<Rightarrow> int option" where
  "int_field v k = (case json_field v k of Some (JNum n) \<Rightarrow> if is_safe_integer n then Some n else None | _ \<Rightarrow> None)"

definition str_field :: "json \<Rightarrow> string \<Rightarrow> string option" where
  "str_field v k = (case json_field v k of Some (JStr s) \<Rightarrow> Some s | _ \<Rightarrow> None)"

fun read_range :: "json \<Rightarrow> (int \<times> int) list" where
  "read_range (JArr [JNum a, JNum b]) = (if is_safe_integer a \<and> is_safe_integer b then [(a, b)] else [])"
| "read_range v = []"

definition read_ranges :: "json \<Rightarrow> (int \<times> int) list" where
  "read_ranges v = (case json_field v ''pageRanges'' of Some (JArr rs) \<Rightarrow> concat (map read_range rs) | _ \<Rightarrow> [])"

text \<open>The tests of one entry, in the order of the record's fields.\<close>

definition readSelection :: "json \<Rightarrow> stored_selection option" where
  "readSelection entry =
     (case (str_field entry ''fileId'', int_field entry ''position'', int_field entry ''pageCount'',
            int_field entry ''processingRevision'', str_field entry ''contentSha256'') of
        (Some f, Some pos, Some pages, Some rev', Some sha) \<Rightarrow>
          (case (int_field entry ''selectedPages'', int_field entry ''copies'', str_field entry ''duplex'',
                 str_field entry ''orientation'', int_field entry ''printedSides'', int_field entry ''physicalSheets'') of
             (Some sel, Some cop, Some dup, Some ori, Some sides, Some sheets) \<Rightarrow>
               if read_ranges entry = [] then None
               else Some \<lparr>ss_fileId = f, ss_position = pos, ss_pageCount = pages, ss_processingRevision = rev',
                          ss_contentSha256 = sha, ss_pageRanges = read_ranges entry, ss_selectedPages = sel,
                          ss_copies = cop, ss_duplex = dup, ss_orientation = ori, ss_printedSides = sides,
                          ss_physicalSheets = sheets\<rparr>
           | _ \<Rightarrow> None)
      | _ \<Rightarrow> None)"

text \<open>One entry that cannot be read empties the whole list.\<close>

definition readSelections :: "json \<Rightarrow> stored_selection list" where
  "readSelections v =
     (case v of
        JArr entries \<Rightarrow>
          if list_all (\<lambda>e. readSelection e \<noteq> None) entries then List.map_filter readSelection entries else []
      | _ \<Rightarrow> [])"

section \<open>Creating a job\<close>

record print_service =
  sv_uuid :: "string \<Rightarrow> bool"
  sv_sha256 :: "string \<Rightarrow> string"
  sv_hashRequest :: "(string \<times> string) list \<Rightarrow> string"
  sv_digestIdempotencyKey :: "string \<Rightarrow> string \<Rightarrow> string \<Rightarrow> string"
  sv_idempotencyTtlHours :: int
  sv_printJobTimeoutSeconds :: int
  sv_testOutcomesEnabled :: bool
  sv_retentionPolicy :: retention_policy

record create_input =
  ci_kioskId :: string
  ci_credentialId :: string
  ci_sessionId :: string
  ci_paymentId :: string
  ci_simulatedOutcome :: "string option"
  ci_idempotencyKey :: string
  ci_requestId :: string

definition lockSession :: "string \<Rightarrow> string \<Rightarrow> kiosk_db \<Rightarrow> tx_error + unit" where
  "lockSession sessionId kioskId db =
     require (list_ex (\<lambda>s. se_id s = sessionId \<and> se_kioskId s = kioskId) (db_sessions db))
       (ApiError 404 ''SESSION_NOT_FOUND'')"

definition findIdempotency ::
  "print_service \<Rightarrow> string \<Rightarrow> string \<Rightarrow> string \<Rightarrow> db_time \<Rightarrow> kiosk_db \<Rightarrow> idempotency_row option \<times> kiosk_db" where
  "findIdempotency sv actorId action key now db =
     (let keyDigest = sv_digestIdempotencyKey sv actorId action key in
      case List.find (\<lambda>r. ir_actorId r = actorId \<and> ir_action r = action \<and> ir_keyDigest r = keyDigest) (db_idempotency db) of
        None \<Rightarrow> (None, db)
      | Some record \<Rightarrow>
          if now < ir_expiresAt record then (Some record, db)
          else (None, db\<lparr>db_idempotency :=
            filter (\<lambda>r. \<not> (ir_id r = ir_id record \<and> ir_expiresAt r \<le> now)) (db_idempotency db)\<rparr>))"

definition assertMatchingRequest :: "string \<Rightarrow> string \<Rightarrow> tx_error + unit" where
  "assertMatchingRequest stored current = require (stored = current) (ApiError 409 ''IDEMPOTENCY_KEY_REUSED'')"

definition storeReplay ::
  "print_service \<Rightarrow> string \<Rightarrow> string \<Rightarrow> string \<Rightarrow> string \<Rightarrow> string \<Rightarrow> db_time \<Rightarrow> string \<Rightarrow> kiosk_db \<Rightarrow> tx_error + kiosk_db" where
  "storeReplay sv actorId action key requestHash resourceId now newId db =
     (let keyDigest = sv_digestIdempotencyKey sv actorId action key in
      if list_ex (\<lambda>r. ir_actorId r = actorId \<and> ir_action r = action \<and> ir_keyDigest r = keyDigest) (db_idempotency db)
      then Inl TX_UNIQUE_VIOLATION
      else Inr (db\<lparr>db_idempotency := db_idempotency db @
        [\<lparr>ir_id = newId, ir_actorId = actorId, ir_action = action, ir_keyDigest = keyDigest,
          ir_requestHash = requestHash, ir_responseBody = None, ir_resourceId = Some resourceId, ir_createdAt = now,
          ir_expiresAt = now + sv_idempotencyTtlHours sv * 3600000\<rparr>]\<rparr>))"

definition replayJob :: "string option \<Rightarrow> string \<Rightarrow> kiosk_db \<Rightarrow> tx_error + print_job_snapshot" where
  "replayJob resourceId sessionId db =
     (case (case truthy resourceId of None \<Rightarrow> None
            | Some i \<Rightarrow> List.find (\<lambda>j. pj_id j = i \<and> pj_sessionId j = sessionId) (db_jobs db)) of
        None \<Rightarrow> Inl (ApiError 409 ''PRINT_JOB_REPLAY_UNAVAILABLE'')
      | Some j \<Rightarrow> Inr (toPrintJobSnapshot j))"

definition assertSessionPrintable :: "session_state \<Rightarrow> tx_error + unit" where
  "assertSessionPrintable state =
     (if state = S_PAID \<or> state = S_PRINTING then Inr ()
      else if state \<in> {S_COMPLETED, S_FAILED, S_RECOVERY_REQUIRED} then Inl (ApiError 409 ''PRINT_SESSION_SETTLED'')
      else if state \<in> {S_EXPIRED, S_CANCELED} then Inl (ApiError 410 ''SESSION_EXPIRED'')
      else Inl (ApiError 409 ''PRINT_PAYMENT_REQUIRED''))"

definition resolveDocument :: "string \<Rightarrow> kiosk_db \<Rightarrow> stored_selection \<Rightarrow> tx_error + print_job_document" where
  "resolveDocument sessionId db sel =
     (let f = List.find (\<lambda>f. fr_id f = ss_fileId sel \<and> fr_sessionId f = sessionId \<and> fr_status f = F_READY
                \<and> fr_processingRevision f = ss_processingRevision sel) (db_files db);
          derivative = (case f of None \<Rightarrow> None
            | Some fr \<Rightarrow> List.find (\<lambda>d. dv_fileId d = fr_id fr \<and> dv_processingRevision d = ss_processingRevision sel
                \<and> dv_type d = ''NORMALIZED_PDF'' \<and> dv_status d = ''AVAILABLE'') (db_derivatives db)) in
      case (f, derivative) of
        (Some fr, Some d) \<Rightarrow>
          if fr_contentSha256 fr \<noteq> Some (ss_contentSha256 sel) \<or> fr_pageCount fr \<noteq> Some (ss_pageCount sel) \<or>
             dv_mimeType d \<noteq> ''application/pdf'' \<or> dv_sizeBytes d < 1
          then Inl (ApiError 409 ''PRINT_ARTIFACT_UNAVAILABLE'')
          else Inr \<lparr>pd_documentId = fr_id fr, pd_position = ss_position sel, pd_sha256 = dv_sha256 d,
                    pd_sizeBytes = dv_sizeBytes d, pd_pageCount = ss_pageCount sel, pd_pageRanges = ss_pageRanges sel,
                    pd_selectedPages = ss_selectedPages sel, pd_copies = ss_copies sel, pd_duplex = ss_duplex sel,
                    pd_orientation = ss_orientation sel, pd_printedSides = ss_printedSides sel,
                    pd_physicalSheets = ss_physicalSheets sel\<rparr>
      | _ \<Rightarrow> Inl (ApiError 409 ''PRINT_ARTIFACT_UNAVAILABLE''))"

definition resolveDocuments :: "string \<Rightarrow> json \<Rightarrow> kiosk_db \<Rightarrow> tx_error + print_job_document list" where
  "resolveDocuments sessionId selections db =
     (let sels = readSelections selections in
      if sels = [] then Inl (ApiError 409 ''PRINT_SETTINGS_UNAVAILABLE'')
      else bind_result (map_result (resolveDocument sessionId db) sels) (\<lambda>docs. Inr (sort_key pd_position docs)))"

definition startPrinting ::
  "session_row \<Rightarrow> string \<Rightarrow> string \<Rightarrow> kiosk_db \<Rightarrow> tx_error + (int \<times> kiosk_db)" where
  "startPrinting session printJobId newId db =
     (if se_state session = S_PRINTING then Inr (se_eventSequence session, db)
      else case transitionSession \<lparr>vs_state = se_state session, vs_version = se_stateVersion session\<rparr>
                  S_PRINTING (se_stateVersion session) of
        Inl e \<Rightarrow> Inl (TX_SESSION e)
      | Inr next_state \<Rightarrow>
          let nextSequence = se_eventSequence session + 1;
              moved = update_many (\<lambda>s. se_id s = se_id session \<and> se_stateVersion s = se_stateVersion session)
                (\<lambda>s. s\<lparr>se_state := vs_state next_state, se_stateVersion := vs_version next_state,
                       se_eventSequence := nextSequence\<rparr>) (db_sessions db) in
          if fst moved \<noteq> 1 then Inl (ApiError 409 ''CONCURRENT_SESSION_UPDATE'')
          else Inr (nextSequence, db\<lparr>db_sessions := snd moved,
            db_outbox := db_outbox db @
              [\<lparr>ob_id = newId, ob_aggregateId = se_id session, ob_sequence = nextSequence, ob_type = ''print.started'',
                ob_payload = JObj [(''sessionId'', JStr (se_id session)),
                  (''state'', JStr (session_state_name (vs_state next_state))),
                  (''version'', JNum (vs_version next_state)), (''printJobId'', JStr printJobId)]\<rparr>]\<rparr>))"

definition jobManifest ::
  "string \<Rightarrow> string \<Rightarrow> payment_row \<Rightarrow> setting_revision_row \<Rightarrow> print_job_document list \<Rightarrow> print_job_manifest" where
  "jobManifest printJobId sessionId payment settings documents =
     \<lparr>pm_manifestVersion = 2, pm_printJobId = printJobId, pm_sessionId = sessionId,
      pm_settingsRevision = sr_revision settings, pm_settingsManifestHash = sr_manifestHash settings,
      pm_quoteId = py_quoteId payment, pm_paymentId = py_id payment, pm_paperSize = sr_paperSize settings,
      pm_scaling = sr_scaling settings, pm_collate = sr_collate settings, pm_colorMode = sr_colorMode settings,
      pm_selectedPages = sr_selectedPages settings, pm_printedSides = sr_printedSides settings,
      pm_physicalSheets = sr_physicalSheets settings, pm_documents = documents\<rparr>"

definition hashPrintManifest :: "print_service \<Rightarrow> print_job_manifest \<Rightarrow> string" where
  "hashPrintManifest sv manifest = sv_sha256 sv (canonicalJson (printManifestJson manifest))"

definition newJob ::
  "print_service \<Rightarrow> create_input \<Rightarrow> payment_row \<Rightarrow> setting_revision_row \<Rightarrow> print_job_manifest \<Rightarrow> db_time \<Rightarrow> print_job_row" where
  "newJob sv input payment settings manifest now =
     \<lparr>pj_id = pm_printJobId manifest, pj_sessionId = pm_sessionId manifest, pj_kioskId = ci_kioskId input,
      pj_quoteId = py_quoteId payment, pj_paymentId = py_id payment, pj_settingsRevision = sr_revision settings,
      pj_settingsManifestHash = sr_manifestHash settings, pj_jobManifest = manifest,
      pj_jobManifestHash = hashPrintManifest sv manifest, pj_status = JS_QUEUED, pj_resultConfidence = RC_UNKNOWN,
      pj_failureCode = None, pj_warningCode = None,
      pj_simulatedOutcome = (if sv_testOutcomesEnabled sv then ci_simulatedOutcome input else None),
      pj_copies = sum_list (map pd_copies (pm_documents manifest)), pj_printedSides = sr_printedSides settings,
      pj_physicalSheets = sr_physicalSheets settings, pj_sheetsProduced = None, pj_dispatchAttempts = 0,
      pj_availableAt = now, pj_deadlineAt = now + sv_printJobTimeoutSeconds sv * 1000, pj_cancelRequestedAt = None,
      pj_createdAt = now, pj_dispatchedAt = None, pj_startedAt = None, pj_completedAt = None, pj_failedAt = None\<rparr>"

text \<open>From the session's first job on: the capture, its settings, the documents, the row.\<close>

definition insertJob ::
  "print_service \<Rightarrow> create_input \<Rightarrow> session_row \<Rightarrow> db_time \<Rightarrow> (nat \<Rightarrow> string) \<Rightarrow> string \<Rightarrow> string \<Rightarrow> kiosk_db
   \<Rightarrow> tx_error + (print_job_snapshot \<times> kiosk_db)" where
  "insertJob sv input session now newId action requestHash db =
     bind_result (assertSessionPrintable (se_state session)) (\<lambda>_.
     case List.find (\<lambda>p. py_id p = ci_paymentId input \<and> py_sessionId p = se_id session \<and> py_status p = PS_CAPTURED
                     \<and> py_appliedToSession p) (db_payments db) of
       None \<Rightarrow> Inl (ApiError 409 ''PRINT_PAYMENT_REQUIRED'')
     | Some payment \<Rightarrow>
         (case List.find (\<lambda>s. sr_sessionId s = se_id session \<and> sr_revision s = py_settingsRevision payment) (db_settings db) of
            None \<Rightarrow> Inl (ApiError 409 ''PRINT_SETTINGS_UNAVAILABLE'')
          | Some settings \<Rightarrow>
              if sr_manifestHash settings \<noteq> py_manifestHash payment then Inl (ApiError 409 ''PRINT_SETTINGS_UNAVAILABLE'')
              else bind_result (resolveDocuments (se_id session) (sr_selections settings) db) (\<lambda>documents.
                let manifest = jobManifest (newId 0) (se_id session) payment settings documents;
                    job = newJob sv input payment settings manifest now in
                if \<not> printJobManifestSchema (sv_uuid sv) manifest then Inl TX_SCHEMA
                else if list_ex (\<lambda>j. pj_id j = pj_id job \<or> pj_sessionId j = pj_sessionId job) (db_jobs db)
                then Inl TX_UNIQUE_VIOLATION
                else
                bind_result (startPrinting session (pj_id job) (newId 1) (db\<lparr>db_jobs := db_jobs db @ [job]\<rparr>))
                  (\<lambda>(nextSequence, db1).
                let db2 = recordPrintJobEvent
                      ((ledger_entry_row (newId 2) (pj_id job) L_CREATED JS_QUEUED now)
                        \<lparr>pe_detail := Some (JObj [(''settingsRevision'', JNum (sr_revision settings)),
                           (''documents'', JNum (int (length documents)))])\<rparr>) db1;
                    audit = \<lparr>au_id = newId 3, au_occurredAt = now, au_actorType = ''KIOSK'',
                      au_actorId = ci_credentialId input, au_kioskId = Some (ci_kioskId input), au_sessionId = se_id session,
                      au_action = ''print.created'', au_outcome = ''SUCCESS'', au_requestId = Some (ci_requestId input),
                      au_metadata = JObj [(''printJobId'', JStr (pj_id job)), (''paymentId'', JStr (py_id payment)),
                        (''physicalSheets'', JNum (sr_physicalSheets settings)), (''sequence'', JNum nextSequence)]\<rparr> in
                bind_result
                  (storeReplay sv (ci_kioskId input) action (ci_idempotencyKey input) requestHash (pj_id job) now (newId 4)
                    (db2\<lparr>db_audit := db_audit db2 @ [audit]\<rparr>))
                  (\<lambda>db3. Inr (toPrintJobSnapshot job, db3))))))"

definition mapPrintJobError :: "tx_error \<Rightarrow> tx_error" where
  "mapPrintJobError e =
     (case e of
        TX_SESSION (STALE_SESSION_VERSION _ _) \<Rightarrow> ApiError 409 ''STALE_SESSION_VERSION''
      | TX_SESSION (INVALID_SESSION_TRANSITION _ _) \<Rightarrow> ApiError 409 ''INVALID_SESSION_TRANSITION''
      | TX_NOT_FOUND \<Rightarrow> ApiError 404 ''SESSION_NOT_FOUND''
      | TX_UNIQUE_VIOLATION \<Rightarrow> ApiError 409 ''PRINT_JOB_EXISTS''
      | other \<Rightarrow> other)"

definition mapped :: "tx_error + 'a \<Rightarrow> tx_error + 'a" where
  "mapped r = (case r of Inl e \<Rightarrow> Inl (mapPrintJobError e) | Inr v \<Rightarrow> Inr v)"

definition createPrintJob ::
  "print_service \<Rightarrow> create_input \<Rightarrow> db_time \<Rightarrow> (nat \<Rightarrow> string) \<Rightarrow> kiosk_db \<Rightarrow> tx_error + (print_job_snapshot \<times> kiosk_db)" where
  "createPrintJob sv input now newId db =
     (let action = ''print-jobs.create:'' @ ci_sessionId input;
          requestHash = sv_hashRequest sv [(''sessionId'', ci_sessionId input), (''paymentId'', ci_paymentId input),
            (''simulatedOutcome'', or_else (ci_simulatedOutcome input) [])] in
      mapped (bind_result (lockSession (ci_sessionId input) (ci_kioskId input) db) (\<lambda>_.
        case findIdempotency sv (ci_kioskId input) action (ci_idempotencyKey input) now db of
          (Some replay, db1) \<Rightarrow>
            bind_result (assertMatchingRequest (ir_requestHash replay) requestHash) (\<lambda>_.
            bind_result (replayJob (ir_resourceId replay) (ci_sessionId input) db1) (\<lambda>snapshot. Inr (snapshot, db1)))
        | (None, db1) \<Rightarrow>
            (case List.find (\<lambda>s. se_id s = ci_sessionId input \<and> se_kioskId s = ci_kioskId input) (db_sessions db1) of
               None \<Rightarrow> Inl TX_NOT_FOUND
             | Some session \<Rightarrow>
                 (case List.find (\<lambda>j. pj_sessionId j = se_id session) (db_jobs db1) of
                    Some existing \<Rightarrow>
                      if pj_paymentId existing \<noteq> ci_paymentId input then Inl (ApiError 409 ''PRINT_JOB_EXISTS'')
                      else Inr (toPrintJobSnapshot existing, db1)
                  | None \<Rightarrow> insertJob sv input session now newId action requestHash db1)))))"

section \<open>Cancelling and reading a job\<close>

definition getPrintJob :: "string \<Rightarrow> string \<Rightarrow> kiosk_db \<Rightarrow> tx_error + print_job_snapshot" where
  "getPrintJob kioskId printJobId db =
     (case List.find (\<lambda>j. pj_id j = printJobId \<and> pj_kioskId j = kioskId) (db_jobs db) of
        None \<Rightarrow> Inl (ApiError 404 ''PRINT_JOB_NOT_FOUND'')
      | Some j \<Rightarrow> Inr (toPrintJobSnapshot j))"

record cancel_input =
  cn_kioskId :: string
  cn_credentialId :: string
  cn_printJobId :: string
  cn_idempotencyKey :: string
  cn_requestId :: string

text \<open>What a cancellation writes on an open job: a request, or a settlement.\<close>

definition cancelOpenJob ::
  "print_service \<Rightarrow> cancel_input \<Rightarrow> print_job_row \<Rightarrow> db_time \<Rightarrow> (nat \<Rightarrow> string) \<Rightarrow> kiosk_db \<Rightarrow> tx_error + kiosk_db" where
  "cancelOpenJob sv input printJob now newId db =
     (if pj_status printJob = JS_PRINTING
      then Inr (recordPrintJobEvent
        (ledger_entry_row (newId 0) (pj_id printJob) L_CANCEL_REQUESTED (pj_status printJob) now)
        (db\<lparr>db_jobs := updated (\<lambda>j. pj_id j = pj_id printJob \<and> pj_status j = pj_status printJob)
            (\<lambda>j. j\<lparr>pj_cancelRequestedAt := Some now\<rparr>) (db_jobs db)\<rparr>))
      else bind_result
        (applyPrintJobSettlement
          \<lparr>si_printJobId = pj_id printJob,
           si_settlement = settlePrintDeviceResult
             \<lparr>dr_state = D_CANCELED, dr_confidence = CONFIRMED, dr_failureCode = Some ''CANCELED_BY_CUSTOMER'',
              dr_warningCode = None, dr_sheetsProduced = Some 0\<rparr>,
           si_operationId = None, si_ledgerType = L_CANCELED, si_actorType = ''KIOSK'',
           si_actorId = cn_credentialId input, si_requestId = Some (cn_requestId input), si_now = now,
           si_newId = newId, si_retentionPolicy = sv_retentionPolicy sv, si_deviceDiagnostics = None\<rparr> db)
        (\<lambda>(outcome, db'). Inr db'))"

text \<open>A cancellation that is not a replay.\<close>

definition cancelFresh ::
  "print_service \<Rightarrow> cancel_input \<Rightarrow> string \<Rightarrow> string \<Rightarrow> string \<Rightarrow> db_time \<Rightarrow> (nat \<Rightarrow> string) \<Rightarrow> kiosk_db
   \<Rightarrow> tx_error + (print_job_snapshot \<times> kiosk_db)" where
  "cancelFresh sv input ownedId action requestHash now newId db =
     (case List.find (\<lambda>j. pj_id j = ownedId) (db_jobs db) of
        None \<Rightarrow> Inl TX_NOT_FOUND
      | Some printJob \<Rightarrow>
          if pj_status printJob = JS_COMPLETED then Inl (ApiError 409 ''PRINT_ALREADY_COMPLETED'')
          else if \<not> isOpenPrintJobStatus (pj_status printJob) then Inr (toPrintJobSnapshot printJob, db)
          else bind_result (cancelOpenJob sv input printJob now newId db) (\<lambda>db2.
            case List.find (\<lambda>j. pj_id j = pj_id printJob) (db_jobs db2) of
              None \<Rightarrow> Inl TX_NOT_FOUND
            | Some current \<Rightarrow>
                bind_result
                  (storeReplay sv (cn_kioskId input) action (cn_idempotencyKey input) requestHash
                    (pj_id current) now (newId 4) db2)
                  (\<lambda>db3. Inr (toPrintJobSnapshot current, db3))))"

definition cancelPrintJob ::
  "print_service \<Rightarrow> cancel_input \<Rightarrow> db_time \<Rightarrow> (nat \<Rightarrow> string) \<Rightarrow> kiosk_db \<Rightarrow> tx_error + (print_job_snapshot \<times> kiosk_db)" where
  "cancelPrintJob sv input now newId db =
     (let action = ''print-jobs.cancel:'' @ cn_printJobId input;
          requestHash = sv_hashRequest sv [(''printJobId'', cn_printJobId input)] in
      mapped (case List.find (\<lambda>j. pj_id j = cn_printJobId input \<and> pj_kioskId j = cn_kioskId input) (db_jobs db) of
        None \<Rightarrow> Inl (ApiError 404 ''PRINT_JOB_NOT_FOUND'')
      | Some owned \<Rightarrow>
          bind_result (lockSession (pj_sessionId owned) (cn_kioskId input) db) (\<lambda>_.
          case findIdempotency sv (cn_kioskId input) action (cn_idempotencyKey input) now db of
            (Some replay, db1) \<Rightarrow>
              bind_result (assertMatchingRequest (ir_requestHash replay) requestHash) (\<lambda>_.
              bind_result (replayJob (ir_resourceId replay) (pj_sessionId owned) db1) (\<lambda>snapshot. Inr (snapshot, db1)))
          | (None, db1) \<Rightarrow> cancelFresh sv input (pj_id owned) action requestHash now newId db1)))"

end
