(* ===== verification/Print_Job_Lifecycle.thy ===== *)
theory Print_Job_Lifecycle
  imports Print_Job_Service
begin

text \<open>
  The control plane's print path as one system: every transaction of \<^verbatim>\<open>print-jobs/service.ts\<close>,
  \<^verbatim>\<open>agent-service.ts\<close> and \<^verbatim>\<open>dispatch-print.ts\<close> is an event, in any order and with any arguments.
  \<open>job_step\<close> is the abstract specification of what one event may do to a job, its refund and the
  paper: move an open job on, settle an open job with the outcome of the reducer, or create one
  bound to an applied capture. Every transaction refines it, and the invariants are proved once,
  over it.
\<close>

section \<open>The system\<close>

record control_config =
  cc_service :: print_service
  cc_leaseSeconds :: int
  cc_maxCommandAttempts :: nat

datatype control_event =
    EvCreate create_input db_time "nat \<Rightarrow> string"
  | EvCancel cancel_input db_time "nat \<Rightarrow> string"
  | EvReserve "string \<times> int" db_time
  | EvIssue "string \<times> int" db_time "nat \<Rightarrow> string"
  | EvClaim string db_time "string \<times> string"
  | EvProgress string string string progress_state db_time string
  | EvResult string string string string result_body db_time db_time "nat \<Rightarrow> string"
  | EvRelease string db_time "nat \<Rightarrow> string"
  | EvOverdue string db_time "nat \<Rightarrow> string"

definition committed_db :: "kiosk_db \<Rightarrow> tx_error + kiosk_db \<Rightarrow> kiosk_db" where
  "committed_db db r = (case r of Inl _ \<Rightarrow> db | Inr db' \<Rightarrow> db')"

fun controlStep :: "control_config \<Rightarrow> control_event \<Rightarrow> kiosk_db \<Rightarrow> kiosk_db" where
  "controlStep cfg (EvCreate input now newId) db = committed db (createPrintJob (cc_service cfg) input now newId db)"
| "controlStep cfg (EvCancel input now newId) db = committed db (cancelPrintJob (cc_service cfg) input now newId db)"
| "controlStep cfg (EvReserve candidate now) db = snd (reserveDispatch candidate now db)"
| "controlStep cfg (EvIssue message now newId) db = committed_db db (issueCommand message now newId db)"
| "controlStep cfg (EvClaim kioskId now ids) db =
     committed db (claimOne (sv_uuid (cc_service cfg)) (cc_leaseSeconds cfg) kioskId now ids db)"
| "controlStep cfg (EvProgress kioskId op token state now eventId) db =
     committed db (reportProgress (cc_leaseSeconds cfg) kioskId op token state now eventId db)"
| "controlStep cfg (EvResult kioskId cred op requestId body heldAt now newId) db =
     committed db (reportResult (cc_leaseSeconds cfg) (sv_retentionPolicy (cc_service cfg)) kioskId cred op requestId
       body heldAt now newId db)"
| "controlStep cfg (EvRelease commandId now newId) db =
     committed db (releaseLease (cc_maxCommandAttempts cfg) (sv_retentionPolicy (cc_service cfg)) commandId now newId db)"
| "controlStep cfg (EvOverdue jobId now newId) db =
     committed db (settleOverdue (sv_retentionPolicy (cc_service cfg)) jobId now newId db)"

text \<open>The one thing the routes check before a transaction begins: the shape of a result.\<close>

fun accepted_event :: "control_config \<Rightarrow> control_event \<Rightarrow> bool" where
  "accepted_event cfg (EvResult kioskId cred op requestId body heldAt now newId) \<longleftrightarrow>
     reportAgentCommandResultBodySchema (sv_uuid (cc_service cfg)) (rb_claimToken body) (rb_result body)"
| "accepted_event cfg _ \<longleftrightarrow> True"

section \<open>What one event may do to a job\<close>

text \<open>How far a job has come; the submission boundary is the step to \<open>PRINTING\<close>.\<close>

fun status_rank :: "job_status \<Rightarrow> nat" where
  "status_rank JS_QUEUED = 0"
| "status_rank JS_DISPATCHED = 1"
| "status_rank JS_PRINTING = 2"
| "status_rank JS_COMPLETED = 3"
| "status_rank JS_FAILED = 3"
| "status_rank JS_CANCELED = 3"
| "status_rank JS_RECOVERY_REQUIRED = 3"

definition open_update :: "print_job_row \<Rightarrow> print_job_row \<Rightarrow> bool" where
  "open_update j j' \<longleftrightarrow>
     isOpenPrintJobStatus (pj_status j') \<and> status_rank (pj_status j) \<le> status_rank (pj_status j') \<and>
     j' = j\<lparr>pj_status := pj_status j', pj_dispatchAttempts := pj_dispatchAttempts j',
            pj_availableAt := pj_availableAt j', pj_cancelRequestedAt := pj_cancelRequestedAt j',
            pj_dispatchedAt := pj_dispatchedAt j', pj_startedAt := pj_startedAt j'\<rparr>"

definition reducer_settlement :: "print_job_settlement \<Rightarrow> int \<Rightarrow> bool" where
  "reducer_settlement st sheets \<longleftrightarrow>
     (\<exists>r. st = settlePrintDeviceResult r \<and>
        (case dr_sheetsProduced r of None \<Rightarrow> True | Some n \<Rightarrow> 0 \<le> n \<and> n \<le> sheets))"

definition bound_to_capture :: "kiosk_db \<Rightarrow> print_job_row \<Rightarrow> bool" where
  "bound_to_capture db j \<longleftrightarrow>
     (\<exists>p \<in> set (db_payments db). py_id p = pj_paymentId j \<and> py_sessionId p = pj_sessionId j \<and>
        py_status p = PS_CAPTURED \<and> py_appliedToSession p \<and> py_quoteId p = pj_quoteId j \<and>
        py_settingsRevision p = pj_settingsRevision j \<and> py_manifestHash p = pj_settingsManifestHash j)"

definition fresh_job :: "print_job_row \<Rightarrow> bool" where
  "fresh_job j \<longleftrightarrow> pj_status j = JS_QUEUED \<and> pj_resultConfidence j = RC_UNKNOWN \<and> pj_failureCode j = None \<and>
     pj_sheetsProduced j = None \<and> pj_completedAt j = None \<and> pj_failedAt j = None \<and> 0 < pj_physicalSheets j"

definition job_money_kept :: "kiosk_db \<Rightarrow> kiosk_db \<Rightarrow> bool" where
  "job_money_kept db db' \<longleftrightarrow>
     db_refunds db' = db_refunds db \<and> db_payments db' = db_payments db \<and> db_paper db' = db_paper db"

inductive job_step :: "kiosk_db \<Rightarrow> kiosk_db \<Rightarrow> bool" where
  moved: "db_jobs db' = updated p f (db_jobs db) \<Longrightarrow>
     (\<forall>j. p j \<longrightarrow> isOpenPrintJobStatus (pj_status j) \<and> open_update j (f j)) \<Longrightarrow>
     job_money_kept db db' \<Longrightarrow> job_step db db'"
| settled: "job \<in> set (db_jobs db) \<Longrightarrow> isOpenPrintJobStatus (pj_status job) \<Longrightarrow>
     reducer_settlement (si_settlement i) (pj_physicalSheets job) \<Longrightarrow>
     settled_tables i job db db' \<Longrightarrow> job_step db db'"
| created: "db_jobs db' = db_jobs db @ [job] \<Longrightarrow> fresh_job job \<Longrightarrow> bound_to_capture db job \<Longrightarrow>
     (\<forall>j \<in> set (db_jobs db). pj_id j \<noteq> pj_id job \<and> pj_sessionId j \<noteq> pj_sessionId job) \<Longrightarrow>
     job_money_kept db db' \<Longrightarrow> job_step db db'"

lemma job_step_kept:
  assumes "db_jobs db' = db_jobs db" and "job_money_kept db db'"
  shows "job_step db db'"
proof (rule job_step.moved)
  show "db_jobs db' = updated (\<lambda>_. False) id (db_jobs db)" using assms(1) by (simp add: updated_none)
qed (use assms in auto)

lemma job_step_refl: "job_step db db"
  by (rule job_step_kept) (simp_all add: job_money_kept_def)

text \<open>A transaction that errs leaves the database alone; one that commits is a step.\<close>

lemma committed_step: "(\<And>x db'. r = Inr (x, db') \<Longrightarrow> job_step db db') \<Longrightarrow> job_step db (committed db r)"
  by (cases r) (auto simp: committed_def job_step_refl split: prod.splits)

subsection \<open>The invariant of the jobs\<close>

text \<open>The constraint \<open>print_jobs_outcome_consistency_check\<close> of the migrations, with the bounds on sheets.\<close>

definition outcome_consistent :: "print_job_row \<Rightarrow> bool" where
  "outcome_consistent j \<longleftrightarrow>
     0 < pj_physicalSheets j \<and>
     (case pj_sheetsProduced j of None \<Rightarrow> True | Some n \<Rightarrow> 0 \<le> n \<and> n \<le> pj_physicalSheets j) \<and>
     (case pj_status j of
        JS_COMPLETED \<Rightarrow> pj_resultConfidence j = RC_CONFIRMED \<and> pj_failureCode j = None \<and>
          (case pj_sheetsProduced j of None \<Rightarrow> False | Some n \<Rightarrow> 0 < n) \<and> pj_completedAt j \<noteq> None \<and> pj_failedAt j = None
      | JS_FAILED \<Rightarrow> pj_resultConfidence j = RC_CONFIRMED \<and> pj_failureCode j \<noteq> None \<and> pj_sheetsProduced j = Some 0 \<and>
          pj_completedAt j = None \<and> pj_failedAt j \<noteq> None
      | JS_CANCELED \<Rightarrow> pj_resultConfidence j = RC_CONFIRMED \<and> pj_failureCode j \<noteq> None \<and> pj_sheetsProduced j = Some 0 \<and>
          pj_completedAt j = None \<and> pj_failedAt j \<noteq> None
      | JS_RECOVERY_REQUIRED \<Rightarrow> pj_resultConfidence j = RC_UNCONFIRMED \<and> pj_failureCode j \<noteq> None \<and>
          pj_completedAt j = None \<and> pj_failedAt j \<noteq> None
      | _ \<Rightarrow> pj_resultConfidence j = RC_UNKNOWN \<and> pj_failureCode j = None \<and> pj_sheetsProduced j = None \<and>
          pj_completedAt j = None \<and> pj_failedAt j = None)"

definition definitely_failed :: "print_job_row \<Rightarrow> bool" where
  "definitely_failed j \<longleftrightarrow> pj_status j = JS_FAILED \<or> pj_status j = JS_CANCELED"

definition refund_for :: "kiosk_db \<Rightarrow> print_job_row \<Rightarrow> refund_row \<Rightarrow> bool" where
  "refund_for db j r \<longleftrightarrow>
     rf_reason r = PRINT_FAILED \<and> rf_paymentId r = pj_paymentId j \<and> rf_sessionId r = pj_sessionId j \<and>
     (\<exists>p \<in> set (db_payments db). py_id p = pj_paymentId j \<and> rf_amountMinor r = py_amountMinor p \<and> py_amountMinor p \<noteq> 0)"

definition job_amount :: "kiosk_db \<Rightarrow> print_job_row \<Rightarrow> int" where
  "job_amount db j = (case List.find (\<lambda>p. py_id p = pj_paymentId j) (db_payments db) of
     None \<Rightarrow> 0 | Some p \<Rightarrow> py_amountMinor p)"

definition jobs_inv :: "kiosk_db \<Rightarrow> bool" where
  "jobs_inv db \<longleftrightarrow>
     distinct (map pj_id (db_jobs db)) \<and> distinct (map pj_sessionId (db_jobs db)) \<and>
     distinct (map py_id (db_payments db)) \<and>
     (\<forall>j \<in> set (db_jobs db). outcome_consistent j \<and> bound_to_capture db j) \<and>
     distinct (map (\<lambda>r. (rf_paymentId r, rf_reason r)) (db_refunds db)) \<and>
     (\<forall>j \<in> set (db_jobs db). definitely_failed j \<and> job_amount db j \<noteq> 0 \<longrightarrow> (\<exists>r \<in> set (db_refunds db). refund_for db j r)) \<and>
     (\<forall>r \<in> set (db_refunds db). rf_reason r = PRINT_FAILED \<longrightarrow>
        (\<exists>j \<in> set (db_jobs db). definitely_failed j \<and> refund_for db j r)) \<and>
     paper_ok db"


lemma jobs_invD:
  assumes "jobs_inv db"
  shows "distinct (map pj_id (db_jobs db))" "distinct (map pj_sessionId (db_jobs db))"
    "distinct (map py_id (db_payments db))" "distinct (map (\<lambda>r. (rf_paymentId r, rf_reason r)) (db_refunds db))"
    "paper_ok db"
    "j \<in> set (db_jobs db) \<Longrightarrow> outcome_consistent j" "j \<in> set (db_jobs db) \<Longrightarrow> bound_to_capture db j"
    "j \<in> set (db_jobs db) \<Longrightarrow> definitely_failed j \<Longrightarrow> job_amount db j \<noteq> 0 \<Longrightarrow> \<exists>r \<in> set (db_refunds db). refund_for db j r"
    "r \<in> set (db_refunds db) \<Longrightarrow> rf_reason r = PRINT_FAILED \<Longrightarrow>
      \<exists>j \<in> set (db_jobs db). definitely_failed j \<and> refund_for db j r"
  using assms unfolding jobs_inv_def by blast+

text \<open>How the invariant is established when the payments have not changed.\<close>

lemma jobs_invI:
  assumes "db_payments db' = db_payments db" and "distinct (map py_id (db_payments db))"
    and "distinct (map pj_id (db_jobs db'))" and "distinct (map pj_sessionId (db_jobs db'))"
    and "\<And>j. j \<in> set (db_jobs db') \<Longrightarrow> outcome_consistent j \<and> bound_to_capture db j"
    and "distinct (map (\<lambda>r. (rf_paymentId r, rf_reason r)) (db_refunds db'))"
    and "\<And>j. j \<in> set (db_jobs db') \<Longrightarrow> definitely_failed j \<Longrightarrow> job_amount db j \<noteq> 0 \<Longrightarrow>
      \<exists>r \<in> set (db_refunds db'). refund_for db j r"
    and "\<And>r. r \<in> set (db_refunds db') \<Longrightarrow> rf_reason r = PRINT_FAILED \<Longrightarrow>
      \<exists>j \<in> set (db_jobs db'). definitely_failed j \<and> refund_for db j r"
    and "paper_ok db'"
  shows "jobs_inv db'"
proof -
  have "refund_for db' = refund_for db" "job_amount db' = job_amount db" "bound_to_capture db' = bound_to_capture db"
    using assms(1) by (auto simp: refund_for_def job_amount_def bound_to_capture_def fun_eq_iff)
  then show ?thesis unfolding jobs_inv_def using assms by (simp only: HOL.simp_thms) blast
qed

lemma bound_to_captureE:
  assumes "bound_to_capture db j"
  obtains p where "p \<in> set (db_payments db)" "py_id p = pj_paymentId j" "py_sessionId p = pj_sessionId j"
    "py_status p = PS_CAPTURED" "py_appliedToSession p"
  using assms unfolding bound_to_capture_def by blast

lemmas open_defs = isOpenPrintJobStatus_def OPEN_PRINT_JOB_STATUSES_def

lemma open_not_failed: "isOpenPrintJobStatus (pj_status j) \<Longrightarrow> \<not> definitely_failed j"
  by (auto simp: open_defs definitely_failed_def)

lemma open_updateE:
  assumes "open_update j j'"
  obtains s a v c d t where "isOpenPrintJobStatus s"
    "j' = j\<lparr>pj_status := s, pj_dispatchAttempts := a, pj_availableAt := v, pj_cancelRequestedAt := c,
           pj_dispatchedAt := d, pj_startedAt := t\<rparr>"
  using assms unfolding open_update_def by blast

lemma open_update_simps:
  assumes "open_update j j'"
  shows "pj_id j' = pj_id j" "pj_sessionId j' = pj_sessionId j" "pj_paymentId j' = pj_paymentId j"
    "isOpenPrintJobStatus (pj_status j')" "pj_physicalSheets j' = pj_physicalSheets j"
    "bound_to_capture db j' = bound_to_capture db j" "\<not> definitely_failed j'"
    "pj_jobManifest j' = pj_jobManifest j" "pj_jobManifestHash j' = pj_jobManifestHash j"
  using assms by (auto elim!: open_updateE simp: bound_to_capture_def open_defs definitely_failed_def)

lemma open_update_consistent:
  "outcome_consistent j \<Longrightarrow> isOpenPrintJobStatus (pj_status j) \<Longrightarrow> open_update j j' \<Longrightarrow> outcome_consistent j'"
  by (auto elim!: open_updateE simp: outcome_consistent_def open_defs)

lemma settle_job_simps [simp]:
  "pj_id (settle_job st now j) = pj_id j" "pj_sessionId (settle_job st now j) = pj_sessionId j"
  "pj_paymentId (settle_job st now j) = pj_paymentId j" "pj_physicalSheets (settle_job st now j) = pj_physicalSheets j"
  "pj_status (settle_job st now j) = job_status_of (st_status st)"
  "pj_jobManifest (settle_job st now j) = pj_jobManifest j"
  "pj_jobManifestHash (settle_job st now j) = pj_jobManifestHash j"
  by (simp_all add: settle_job_def)

lemma settle_job_bound [simp]: "bound_to_capture db (settle_job st now j) = bound_to_capture db j"
  by (simp add: bound_to_capture_def settle_job_def)

lemma job_status_of_closed [simp]: "\<not> isOpenPrintJobStatus (job_status_of st)"
  by (cases st) (simp_all add: open_defs)

lemma reducer_failed:
  assumes "reducer_settlement st n"
  shows "definitely_failed (settle_job st now j) \<longleftrightarrow> st_refundObligation st"
proof -
  obtain r where "st = settlePrintDeviceResult r" using assms by (auto simp: reducer_settlement_def)
  then show ?thesis
    by (cases "dr_state r") (auto simp: settle_defs definitely_failed_def)
qed

lemma settle_job_consistent:
  assumes "outcome_consistent j" and "isOpenPrintJobStatus (pj_status j)"
    and "reducer_settlement st (pj_physicalSheets j)"
  shows "outcome_consistent (settle_job st now j)"
proof -
  obtain r where r: "st = settlePrintDeviceResult r"
    and b: "case dr_sheetsProduced r of None \<Rightarrow> True | Some n \<Rightarrow> 0 \<le> n \<and> n \<le> pj_physicalSheets j"
    using assms(3) by (auto simp: reducer_settlement_def)
  have j: "0 < pj_physicalSheets j" "pj_completedAt j = None" "pj_failedAt j = None"
    using assms(1,2) by (auto simp: outcome_consistent_def open_defs)
  show ?thesis
    using b j unfolding r
    by (cases "dr_state r"; cases "dr_sheetsProduced r")
      (auto simp: settle_defs outcome_consistent_def settle_job_def)
qed

subsection \<open>The refund of a failed print\<close>

lemma bound_unique:
  assumes "jobs_inv db" and "j \<in> set (db_jobs db)" and "j' \<in> set (db_jobs db)" and "pj_paymentId j = pj_paymentId j'"
  shows "j = j'"
proof -
  obtain p where p: "p \<in> set (db_payments db)" "py_id p = pj_paymentId j" "py_sessionId p = pj_sessionId j"
    using jobs_invD(7) [OF assms(1,2)] by (rule bound_to_captureE)
  obtain p' where p': "p' \<in> set (db_payments db)" "py_id p' = pj_paymentId j'" "py_sessionId p' = pj_sessionId j'"
    using jobs_invD(7) [OF assms(1,3)] by (rule bound_to_captureE)
  have "p = p'" using key_unique [OF jobs_invD(3) [OF assms(1)] p(1) p'(1)] assms(4) p p' by simp
  then have "pj_sessionId j = pj_sessionId j'" using p p' by simp
  with key_unique [OF jobs_invD(2) [OF assms(1)] assms(2,3)] show ?thesis by simp
qed

text \<open>An open job has no print refund yet.\<close>

lemma open_job_unrefunded:
  assumes "jobs_inv db" and "j \<in> set (db_jobs db)" and "isOpenPrintJobStatus (pj_status j)"
    and "r \<in> set (db_refunds db)" and "rf_reason r = PRINT_FAILED"
  shows "rf_paymentId r \<noteq> pj_paymentId j"
proof
  assume eq: "rf_paymentId r = pj_paymentId j"
  obtain j' where j': "j' \<in> set (db_jobs db)" "definitely_failed j'" "refund_for db j' r"
    using jobs_invD(9) [OF assms(1,4,5)] by blast
  have "pj_paymentId j' = pj_paymentId j" using j'(3) eq by (simp add: refund_for_def)
  then have "j' = j" by (rule bound_unique [OF assms(1) j'(1) assms(2)])
  with j'(2) open_not_failed [OF assms(3)] show False by simp
qed

lemma captured_payment:
  assumes "jobs_inv db" and "j \<in> set (db_jobs db)"
  obtains p where "p \<in> set (db_payments db)" "py_id p = pj_paymentId j" "py_sessionId p = pj_sessionId j"
    "List.find (\<lambda>p. py_id p = pj_paymentId j \<and> py_sessionId p = pj_sessionId j \<and> py_status p = PS_CAPTURED
       \<and> py_appliedToSession p) (db_payments db) = Some p"
    "job_amount db j = py_amountMinor p"
proof -
  have d: "distinct (map py_id (db_payments db))" by (rule jobs_invD(3) [OF assms(1)])
  obtain p where p: "p \<in> set (db_payments db)" "py_id p = pj_paymentId j" "py_sessionId p = pj_sessionId j"
    "py_status p = PS_CAPTURED" "py_appliedToSession p"
    using jobs_invD(7) [OF assms] by (rule bound_to_captureE)
  have f: "List.find (\<lambda>p. py_id p = pj_paymentId j \<and> py_sessionId p = pj_sessionId j \<and> py_status p = PS_CAPTURED
       \<and> py_appliedToSession p) (db_payments db) = Some p"
  proof -
    have "filter (\<lambda>x. py_id x = py_id p \<and> (py_sessionId x = pj_sessionId j \<and> py_status x = PS_CAPTURED
        \<and> py_appliedToSession x)) (db_payments db) = [p]"
      by (rule filter_key_unique [OF d p(1)]) (use p in simp)
    then show ?thesis unfolding p(2) by (rule find_filter_head)
  qed
  have "job_amount db j = py_amountMinor p"
    using find_key_unique [OF d p(1)] by (simp add: job_amount_def p(2))
  with p f show ?thesis by (intro that) auto
qed

lemma compensation_new:
  assumes "jobs_inv db" and "j \<in> set (db_jobs db)" and "isOpenPrintJobStatus (pj_status j)"
  shows "\<exists>rs. db_refunds (snd (recordPrintFailureCompensation (pj_paymentId j) (pj_sessionId j) i now db)) = db_refunds db @ rs \<and>
    (if job_amount db j = 0 then rs = [] else \<exists>r. rs = [r] \<and> refund_for db j r)"
proof -
  obtain p where p: "p \<in> set (db_payments db)" "py_id p = pj_paymentId j" "py_sessionId p = pj_sessionId j"
    "List.find (\<lambda>p. py_id p = pj_paymentId j \<and> py_sessionId p = pj_sessionId j \<and> py_status p = PS_CAPTURED
       \<and> py_appliedToSession p) (db_payments db) = Some p"
    "job_amount db j = py_amountMinor p"
    using captured_payment [OF assms(1,2)] .
  have none: "List.find (\<lambda>r. rf_paymentId r = py_id p \<and> rf_reason r = PRINT_FAILED) (db_refunds db) = None"
    using open_job_unrefunded [OF assms] p(2) by (auto simp: find_None_iff)
  show ?thesis
    using p none by (auto simp: recordPrintFailureCompensation_def refund_for_def)
qed

subsection \<open>The invariant is kept\<close>

lemma refund_for_open_update: "open_update j j' \<Longrightarrow> refund_for db j' r = refund_for db j r"
  by (simp add: refund_for_def open_update_simps)

lemma jobs_inv_moved:
  assumes inv: "jobs_inv db" and rows: "db_jobs db' = updated p f (db_jobs db)"
    and upd: "\<forall>j. p j \<longrightarrow> isOpenPrintJobStatus (pj_status j) \<and> open_update j (f j)" and kept: "job_money_kept db db'"
  shows "jobs_inv db'"
proof -
  have k: "db_refunds db' = db_refunds db" "db_payments db' = db_payments db" "db_paper db' = db_paper db"
    using kept by (simp_all add: job_money_kept_def)
  have ids: "map pj_id (db_jobs db') = map pj_id (db_jobs db)"
    "map pj_sessionId (db_jobs db') = map pj_sessionId (db_jobs db)"
    unfolding rows by (rule map_updated, use upd in \<open>auto simp: open_update_simps\<close>)+
  have cases: "\<exists>j \<in> set (db_jobs db). j' = j \<or> p j \<and> j' = f j" if "j' \<in> set (db_jobs db')" for j'
    using that unfolding rows set_updated by auto
  have stays: "j \<in> set (db_jobs db')" if "j \<in> set (db_jobs db)" "definitely_failed j" for j
    using that upd open_not_failed unfolding rows set_updated by auto
  have good: "outcome_consistent j' \<and> bound_to_capture db j'" if j': "j' \<in> set (db_jobs db')" for j'
  proof -
    obtain j where j: "j \<in> set (db_jobs db)" "j' = j \<or> p j \<and> j' = f j" using cases [OF j'] by blast
    note old = jobs_invD(6,7) [OF inv j(1)]
    from j(2) show ?thesis
    proof
      assume "p j \<and> j' = f j"
      then have "isOpenPrintJobStatus (pj_status j)" "open_update j j'" using upd by auto
      with old show ?thesis by (simp add: open_update_consistent open_update_simps)
    qed (use old in simp)
  qed
  have failed: "j' \<in> set (db_jobs db)" if "j' \<in> set (db_jobs db')" "definitely_failed j'" for j'
    using cases [OF that(1)] that(2) upd open_update_simps(7) by blast
  show ?thesis
  proof (rule jobs_invI [OF k(2) jobs_invD(3) [OF inv]])
    show "\<exists>r \<in> set (db_refunds db'). refund_for db j r"
      if "j \<in> set (db_jobs db')" "definitely_failed j" "job_amount db j \<noteq> 0" for j
      using jobs_invD(8) [OF inv failed [OF that(1,2)] that(2,3)] by (simp add: k)
    show "\<exists>j \<in> set (db_jobs db'). definitely_failed j \<and> refund_for db j r"
      if "r \<in> set (db_refunds db')" "rf_reason r = PRINT_FAILED" for r
      using jobs_invD(9) [OF inv _ that(2)] that(1) stays unfolding k by blast
  qed (use jobs_invD(1-5) [OF inv] good in \<open>simp_all add: ids k paper_ok_def\<close>)
qed

lemma jobs_inv_created:
  assumes inv: "jobs_inv db" and rows: "db_jobs db' = db_jobs db @ [job]" and new: "fresh_job job" "bound_to_capture db job"
    and ids: "\<forall>j \<in> set (db_jobs db). pj_id j \<noteq> pj_id job \<and> pj_sessionId j \<noteq> pj_sessionId job"
    and kept: "job_money_kept db db'"
  shows "jobs_inv db'"
proof -
  have k: "db_refunds db' = db_refunds db" "db_payments db' = db_payments db" "db_paper db' = db_paper db"
    using kept by (simp_all add: job_money_kept_def)
  have job: "outcome_consistent job" "\<not> definitely_failed job"
    using new(1) by (auto simp: fresh_job_def outcome_consistent_def definitely_failed_def)
  have distinct: "distinct (map pj_id (db_jobs db'))" "distinct (map pj_sessionId (db_jobs db'))"
    using jobs_invD(1,2) [OF inv] ids by (auto simp: rows)
  show ?thesis
  proof (rule jobs_invI [OF k(2) jobs_invD(3) [OF inv] distinct])
    show "\<exists>r \<in> set (db_refunds db'). refund_for db j r"
      if "j \<in> set (db_jobs db')" "definitely_failed j" "job_amount db j \<noteq> 0" for j
      using jobs_invD(8) [OF inv _ that(2,3)] that(1,2) job(2) by (auto simp: rows k)
    show "\<exists>j \<in> set (db_jobs db'). definitely_failed j \<and> refund_for db j r"
      if "r \<in> set (db_refunds db')" "rf_reason r = PRINT_FAILED" for r
      using jobs_invD(9) [OF inv _ that(2)] that(1) by (auto simp: rows k)
  qed (use jobs_invD(4-7) [OF inv] job(1) new(2) in \<open>auto simp: k paper_ok_def rows\<close>)
qed

lemma jobs_inv_settled:
  assumes inv: "jobs_inv db" and job: "job \<in> set (db_jobs db)" and opn: "isOpenPrintJobStatus (pj_status job)"
    and red: "reducer_settlement (si_settlement i) (pj_physicalSheets job)" and tabs: "settled_tables i job db db'"
  shows "jobs_inv db'"
proof -
  let ?st = "si_settlement i"
  have rows: "db_jobs db' = updated (\<lambda>j. pj_id j = pj_id job) (settle_job ?st (si_now i)) (db_jobs db)"
    and pay: "db_payments db' = db_payments db"
    and refunds: "db_refunds db' = (if st_refundObligation ?st
       then db_refunds (snd (recordPrintFailureCompensation (pj_paymentId job) (pj_sessionId job) (si_newId i 0) (si_now i) db))
       else db_refunds db)"
    and paper: "db_paper db' = (if paper_consumed ?st
         then db_paper (snd (applyKioskPaperDeduction (pj_kioskId job) (the (st_sheetsProduced ?st)) db)) else db_paper db)"
    using tabs unfolding settled_tables_def Let_def by blast+
  obtain rs where rs: "db_refunds db' = db_refunds db @ rs"
    "if st_refundObligation ?st \<and> job_amount db job \<noteq> 0 then \<exists>r. rs = [r] \<and> refund_for db job r else rs = []"
    using compensation_new [OF inv job opn, of "si_newId i 0" "si_now i"] refunds by (cases "st_refundObligation ?st") (auto split: if_splits)
  have ids: "map pj_id (db_jobs db') = map pj_id (db_jobs db)"
    "map pj_sessionId (db_jobs db') = map pj_sessionId (db_jobs db)"
    unfolding rows by (rule map_updated, simp)+
  let ?job' = "settle_job ?st (si_now i) job"
  have job': "?job' \<in> set (db_jobs db')" using job unfolding rows set_updated by blast
  have cases: "j' = ?job' \<or> j' \<in> set (db_jobs db) \<and> pj_id j' \<noteq> pj_id job" if "j' \<in> set (db_jobs db')" for j'
    using that key_unique [OF jobs_invD(1) [OF inv] _ job] unfolding rows set_updated by auto
  have stays: "j \<in> set (db_jobs db')" if "j \<in> set (db_jobs db)" "definitely_failed j" for j
  proof -
    have "pj_id j \<noteq> pj_id job" using key_unique [OF jobs_invD(1) [OF inv] that(1) job] that(2) open_not_failed [OF opn] by blast
    then show ?thesis using that(1) unfolding rows set_updated by auto
  qed
  have failed': "definitely_failed ?job' = st_refundObligation ?st" by (rule reducer_failed [OF red])
  have amount': "job_amount db ?job' = job_amount db job" and refund': "refund_for db ?job' = refund_for db job"
    by (simp_all add: job_amount_def refund_for_def fun_eq_iff)
  have fresh: "distinct (map (\<lambda>r. (rf_paymentId r, rf_reason r)) (db_refunds db'))"
    using jobs_invD(4) [OF inv] rs open_job_unrefunded [OF inv job opn]
    by (auto simp: refund_for_def split: if_splits)
  have good: "outcome_consistent j \<and> bound_to_capture db j" if "j \<in> set (db_jobs db')" for j
    using cases [OF that] jobs_invD(6,7) [OF inv job] settle_job_consistent [OF jobs_invD(6) [OF inv job] opn red]
      jobs_invD(6,7) [OF inv] by auto
  have owed: "\<exists>r \<in> set (db_refunds db'). refund_for db j r"
    if "j \<in> set (db_jobs db')" "definitely_failed j" "job_amount db j \<noteq> 0" for j
    using cases [OF that(1)]
  proof
    assume "j = ?job'"
    then show ?thesis using that(2,3) rs by (auto simp: failed' amount' refund')
  next
    assume "j \<in> set (db_jobs db) \<and> pj_id j \<noteq> pj_id job"
    then show ?thesis using jobs_invD(8) [OF inv _ that(2,3)] rs(1) by auto
  qed
  have backed: "\<exists>j \<in> set (db_jobs db'). definitely_failed j \<and> refund_for db j r"
    if "r \<in> set (db_refunds db')" "rf_reason r = PRINT_FAILED" for r
  proof (cases "r \<in> set (db_refunds db)")
    case True
    with jobs_invD(9) [OF inv _ that(2)] stays show ?thesis by blast
  next
    case False
    with that(1) rs have "refund_for db job r" "st_refundObligation ?st" by (auto split: if_splits)
    then show ?thesis using job' failed' by (intro bexI [where x = ?job']) (simp_all add: refund')
  qed
  have "paper_ok db'"
    using deduction_paper_ok [OF jobs_invD(5) [OF inv]] jobs_invD(5) [OF inv] by (simp add: paper_ok_def paper)
  show ?thesis
  proof (rule jobs_invI [OF pay jobs_invD(3) [OF inv]])
    show "distinct (map pj_id (db_jobs db'))" "distinct (map pj_sessionId (db_jobs db'))"
      using jobs_invD(1,2) [OF inv] by (simp_all only: ids)
  qed (fact good fresh owed backed \<open>paper_ok db'\<close>)+
qed

lemma job_step_inv:
  assumes "job_step db db'" and "jobs_inv db"
  shows "jobs_inv db'"
  using assms(1)
proof cases
  case (moved p f)
  then show ?thesis by (rule jobs_inv_moved [OF assms(2)])
next
  case (settled job i)
  then show ?thesis by (rule jobs_inv_settled [OF assms(2)])
next
  case (created job)
  then show ?thesis by (rule jobs_inv_created [OF assms(2)])
qed

section \<open>Every transaction refines the specification\<close>

definition same_core :: "kiosk_db \<Rightarrow> kiosk_db \<Rightarrow> bool" where
  "same_core a b \<longleftrightarrow>
     db_jobs a = db_jobs b \<and> db_commands a = db_commands b \<and> db_events a = db_events b \<and>
     db_refunds a = db_refunds b \<and> db_payments a = db_payments b \<and> db_paper a = db_paper b"

lemma settled_tables_core:
  assumes "settled_tables i job db db'" and "same_core db d" and "same_core db' d'"
  shows "settled_tables i job d d'"
proof -
  have r: "db_refunds (snd (recordPrintFailureCompensation p s n now db)) =
      db_refunds (snd (recordPrintFailureCompensation p s n now d))" for p s n now
    using assms(2) by (intro compensation_refunds_cong) (simp_all add: same_core_def)
  have p: "db_paper (snd (applyKioskPaperDeduction k n db)) = db_paper (snd (applyKioskPaperDeduction k n d))" for k n
    using assms(2) by (intro deduction_paper_cong) (simp add: same_core_def)
  have s: "nextPrintJobEventSequence j db = nextPrintJobEventSequence j d" for j
    using assms(2) by (intro next_sequence_cong) (simp add: same_core_def)
  show ?thesis
    using assms unfolding settled_tables_def Let_def same_core_def r p s by simp
qed

lemma job_step_core:
  assumes "job_step db db'" and a: "same_core db d" and b: "same_core db' d'"
  shows "job_step d d'"
  using assms(1)
proof cases
  case (moved p f)
  then show ?thesis using a b by (intro job_step.moved [of d' p f d]) (auto simp: same_core_def job_money_kept_def)
next
  case (settled job i)
  from settled_tables_core [OF settled(4) a b] settled(1-3) a show ?thesis
    by (intro job_step.settled [of job d i d']) (simp_all add: same_core_def)
next
  case (created job)
  then show ?thesis using a b
    by (intro job_step.created [of d' d job]) (auto simp: same_core_def job_money_kept_def bound_to_capture_def)
qed

lemma same_core_refl [simp]: "same_core db db"
  by (simp add: same_core_def)

lemma settlement_step:
  assumes inv: "jobs_inv db" and run: "applyPrintJobSettlement i db = Inr (out, db')"
    and red: "\<And>j. j \<in> set (db_jobs db) \<Longrightarrow> pj_id j = si_printJobId i \<Longrightarrow>
      reducer_settlement (si_settlement i) (pj_physicalSheets j)"
  shows "job_step db db'"
  using run jobs_invD(1) [OF inv]
proof (cases rule: settlement_cases)
  case ignored
  then show ?thesis by (simp add: job_step_refl)
next
  case (settled job db4 r)
  from settled(1,2) have "reducer_settlement (si_settlement i) (pj_physicalSheets job)" by (rule red)
  with settled show ?thesis by (intro job_step.settled [of job db i db'])
qed

lemma reducer_settlementI:
  "(case dr_sheetsProduced r of None \<Rightarrow> True | Some m \<Rightarrow> 0 \<le> m \<and> m \<le> n) \<Longrightarrow>
    reducer_settlement (settlePrintDeviceResult r) n"
  unfolding reducer_settlement_def by blast

lemma sweep_reducer [simp]: "0 < n \<Longrightarrow> reducer_settlement (sweepSettlement b f) n"
  by (simp add: sweepSettlement_def reducer_settlementI)

lemma job_sheets_positive: "jobs_inv db \<Longrightarrow> j \<in> set (db_jobs db) \<Longrightarrow> 0 < pj_physicalSheets j"
  using jobs_invD(6) [of db j] by (auto simp: outcome_consistent_def)

lemma reserve_step: "job_step db (snd (reserveDispatch candidate now db))"
proof (rule job_step.moved)
  show "db_jobs (snd (reserveDispatch candidate now db)) =
      updated (\<lambda>j. pj_id j = fst candidate \<and> pj_status j = JS_QUEUED \<and> pj_dispatchAttempts j = snd candidate)
        (\<lambda>j. j\<lparr>pj_dispatchAttempts := snd candidate + 1,
               pj_availableAt := now + backoffMilliseconds (nat (snd candidate + 1))\<rparr>) (db_jobs db)"
    by (simp add: reserveDispatch_def Let_def)
qed (auto simp: open_update_def open_defs reserveDispatch_def Let_def job_money_kept_def)

lemma issue_jobs:
  assumes "issueCommand message now newId db = Inr db'"
  shows "job_money_kept db db' \<and> (db_jobs db' = db_jobs db \<or>
    db_jobs db' = updated (\<lambda>j. pj_id j = fst message \<and> pj_status j = JS_QUEUED)
      (\<lambda>j. j\<lparr>pj_status := JS_DISPATCHED, pj_dispatchedAt := Some now\<rparr>) (db_jobs db))"
proof (cases "List.find (\<lambda>j. pj_id j = fst message) (db_jobs db)")
  case (Some printJob)
  then have "pj_id printJob = fst message" by (auto dest: find_Some_set)
  with Some assms show ?thesis
    by (auto simp: issueCommand_def Let_def job_money_kept_def split: if_splits)
qed (use assms in \<open>simp add: issueCommand_def job_money_kept_def\<close>)

lemma issue_step:
  assumes "issueCommand message now newId db = Inr db'"
  shows "job_step db db'"
  using issue_jobs [OF assms]
proof (elim conjE disjE)
  assume "db_jobs db' = db_jobs db" and "job_money_kept db db'"
  then show ?thesis by (rule job_step_kept)
next
  assume money: "job_money_kept db db'" and "db_jobs db' = updated (\<lambda>j. pj_id j = fst message \<and> pj_status j = JS_QUEUED)
      (\<lambda>j. j\<lparr>pj_status := JS_DISPATCHED, pj_dispatchedAt := Some now\<rparr>) (db_jobs db)"
  from this(2) show ?thesis
    by (rule job_step.moved) (use money in \<open>auto simp: open_update_def open_defs\<close>)
qed

lemma claim_step:
  assumes "claimOne uuid lease kioskId now ids db = Inr (c, db')"
  shows "job_step db db'"
  using assms by (auto simp: claimOne_def Let_def job_money_kept_def intro!: job_step_kept split: list.splits option.splits if_splits)

lemma progress_step:
  assumes "reportProgress lease kioskId op token state now eventId db = Inr (out, db')"
  shows "job_step db db'"
proof -
  obtain command printJobId where run: "progressOn lease token state now eventId db command printJobId = Inr (out, db')"
    using assms unfolding reportProgress_def by (rule withSession_Inr)
  then have money: "job_money_kept db db'"
    by (auto simp: progressOn_def Let_def job_money_kept_def split: option.splits if_splits)
  show ?thesis
  proof (cases "db_jobs db' = db_jobs db")
    case True
    from this money show ?thesis by (rule job_step_kept)
  next
    case False
    with run have "db_jobs db' = updated (\<lambda>j. pj_id j = printJobId \<and> pj_status j \<in> {JS_QUEUED, JS_DISPATCHED})
                          (\<lambda>j. j\<lparr>pj_status := JS_PRINTING, pj_startedAt := Some now\<rparr>) (db_jobs db)"
      by (auto simp: progressOn_def Let_def split: option.splits if_splits)
    then show ?thesis
      by (rule job_step.moved) (use money in \<open>auto simp: open_update_def open_defs\<close>)
  qed
qed


lemma find_job:
  assumes "jobs_inv db" and "List.find (\<lambda>j. pj_id j = i) (db_jobs db) = Some job" and "j \<in> set (db_jobs db)" and "pj_id j = i"
  shows "j = job"
proof (rule key_unique [OF jobs_invD(1) [OF assms(1)] assms(3)])
  show "job \<in> set (db_jobs db)" "pj_id j = pj_id job" using find_Some_set [OF assms(2)] assms(4) by simp_all
qed

lemma within_job:
  "(case dr_sheetsProduced r of None \<Rightarrow> True | Some n \<Rightarrow> 0 \<le> n) \<Longrightarrow>
    reducer_settlement (settlePrintDeviceResult (r\<lparr>dr_sheetsProduced := sheetsWithinJob (dr_sheetsProduced r) n\<rparr>)) n"
  by (rule reducer_settlementI) (simp add: sheetsWithinJob_def split: option.splits)

lemma result_step:
  assumes inv: "jobs_inv db" and body: "reportAgentCommandResultBodySchema uuid (rb_claimToken body) (rb_result body)"
    and run: "reportResult lease policy kioskId cred op requestId body heldAt now newId db = Inr (out, db')"
  shows "job_step db db'"
proof -
  obtain command printJobId where run': "resultOn lease policy cred requestId body heldAt now newId db command printJobId = Inr (out, db')"
    using run unfolding reportResult_def by (rule withSession_Inr)
  show ?thesis
  proof (cases "renewedLeaseExpiry lease (ac_id command) (rb_claimToken body) heldAt db = None")
    case True
    with run' show ?thesis by (auto simp: resultOn_def job_step_refl)
  next
    case False
    then obtain job where job: "List.find (\<lambda>j. pj_id j = printJobId) (db_jobs db) = Some job"
      using run' by (auto simp: resultOn_def split: option.splits)
    have sheets: "case dr_sheetsProduced (rb_result body) of None \<Rightarrow> True | Some n \<Rightarrow> 0 \<le> n"
      using body by (auto simp: reportAgentCommandResultBodySchema_def sheetCountSchema_def split: option.splits)
    obtain i outcome where i: "applyPrintJobSettlement i db = Inr (outcome, db')" "si_printJobId i = printJobId"
      "si_settlement i = settlePrintDeviceResult ((rb_result body)\<lparr>dr_sheetsProduced :=
         sheetsWithinJob (dr_sheetsProduced (rb_result body)) (pj_physicalSheets job)\<rparr>)"
      using run' False job by (auto simp: resultOn_def Let_def)
    show ?thesis
    proof (rule settlement_step [OF inv i(1)])
      fix j assume "j \<in> set (db_jobs db)" and "pj_id j = si_printJobId i"
      then have "j = job" using find_job [OF inv job] i(2) by simp
      then show "reducer_settlement (si_settlement i) (pj_physicalSheets j)"
        unfolding i(3) using within_job [OF sheets] by simp
    qed
  qed
qed

lemma overdue_step:
  assumes inv: "jobs_inv db" and run: "settleOverdue policy jobId now newId db = Inr (out, db')"
  shows "job_step db db'"
proof (cases "db' = db")
  case False
  then obtain i outcome b f where i: "applyPrintJobSettlement i db = Inr (outcome, db')" "si_settlement i = sweepSettlement b f"
    using run by (auto simp: settleOverdue_def split: option.splits if_splits)
  then show ?thesis
    by (intro settlement_step [OF inv i(1)]) (simp add: job_sheets_positive [OF inv])
qed (simp add: job_step_refl)

text \<open>A lease that is released is written back; one that is exhausted settles the job.\<close>

lemma release_cases:
  assumes "releaseLease maxAttempts policy commandId now newId db = Inr (out, db')"
  shows "(db_jobs db' = db_jobs db \<and> job_money_kept db db') \<or>
    (\<exists>i outcome b f. applyPrintJobSettlement i db = Inr (outcome, db') \<and> si_settlement i = sweepSettlement b f)"
proof (cases "List.find (\<lambda>c. ac_id c = commandId) (db_commands db)")
  case (Some command)
  show ?thesis
  proof (cases "maxAttempts \<le> ac_attempts command \<or> ac_expiresAt command \<le> now")
    case True
    with Some assms show ?thesis
      by (fastforce simp: releaseLease_def Let_def job_money_kept_def split: option.splits if_splits)
  next
    case False
    with Some assms show ?thesis
      by (auto simp: releaseLease_def Let_def job_money_kept_def split: option.splits if_splits)
  qed
qed (use assms in \<open>simp add: releaseLease_def job_money_kept_def\<close>)

lemma release_step:
  assumes inv: "jobs_inv db" and run: "releaseLease maxAttempts policy commandId now newId db = Inr (out, db')"
  shows "job_step db db'"
  using release_cases [OF run]
proof
  assume "db_jobs db' = db_jobs db \<and> job_money_kept db db'"
  then show ?thesis by (intro job_step_kept) simp_all
next
  assume "\<exists>i outcome b f. applyPrintJobSettlement i db = Inr (outcome, db') \<and> si_settlement i = sweepSettlement b f"
  then obtain i outcome b f where i: "applyPrintJobSettlement i db = Inr (outcome, db')" "si_settlement i = sweepSettlement b f"
    by blast
  then show ?thesis
    by (intro settlement_step [OF inv i(1)]) (simp add: job_sheets_positive [OF inv])
qed

subsection \<open>The kiosk's requests\<close>

lemma findIdempotency_core: "same_core db (snd (findIdempotency sv a act k now db))"
  by (simp add: findIdempotency_def Let_def same_core_def split: option.split)

lemma storeReplay_core: "storeReplay sv a act k h rid now n db = Inr db' \<Longrightarrow> same_core db db'"
  by (auto simp: storeReplay_def Let_def same_core_def split: if_splits)

lemma mapped_Inr [simp]: "mapped r = Inr x \<longleftrightarrow> r = Inr x"
  by (cases r) (simp_all add: mapped_def)

lemma same_core_inv: "same_core db d \<Longrightarrow> jobs_inv db \<Longrightarrow> jobs_inv d"
  unfolding jobs_inv_def same_core_def bound_to_capture_def refund_for_def job_amount_def paper_ok_def by simp

lemma same_core_sym: "same_core a b \<Longrightarrow> same_core b a"
  by (simp add: same_core_def)

lemma startPrinting_core:
  "startPrinting session jobId n db = Inr (q, db') \<Longrightarrow> same_core db db'"
  by (auto simp: startPrinting_def Let_def same_core_def split: sum.splits if_splits)

lemma cancelOpen_step:
  assumes inv: "jobs_inv db" and job: "printJob \<in> set (db_jobs db)" and opn: "isOpenPrintJobStatus (pj_status printJob)"
    and run: "cancelOpenJob sv input printJob now newId db = Inr db'"
  shows "job_step db db'"
proof (cases "pj_status printJob = JS_PRINTING")
  case True
  then have "db_jobs db' = updated (\<lambda>j. pj_id j = pj_id printJob \<and> pj_status j = pj_status printJob)
            (\<lambda>j. j\<lparr>pj_cancelRequestedAt := Some now\<rparr>) (db_jobs db)" "job_money_kept db db'"
    using run by (auto simp: cancelOpenJob_def job_money_kept_def)
  then show ?thesis
    by (intro job_step.moved) (auto simp: open_update_def opn)
next
  case False
  then obtain i outcome where i: "applyPrintJobSettlement i db = Inr (outcome, db')"
    "si_settlement i = settlePrintDeviceResult
       \<lparr>dr_state = D_CANCELED, dr_confidence = CONFIRMED, dr_failureCode = Some ''CANCELED_BY_CUSTOMER'',
        dr_warningCode = None, dr_sheetsProduced = Some 0\<rparr>"
    using run by (auto simp: cancelOpenJob_def)
  show ?thesis
  proof (rule settlement_step [OF inv i(1)])
    fix j assume "j \<in> set (db_jobs db)"
    then have "0 < pj_physicalSheets j" by (rule job_sheets_positive [OF inv])
    then show "reducer_settlement (si_settlement i) (pj_physicalSheets j)"
      unfolding i(2) by (intro reducer_settlementI) simp
  qed
qed


text \<open>A cancellation is a replay, a refusal to change a closed job, or a change of an open one.\<close>

lemma cancelFresh_shape:
  assumes run: "cancelFresh sv input ownedId action h now newId db = Inr (out, db')"
  shows "db' = db \<or> (\<exists>printJob db2. printJob \<in> set (db_jobs db) \<and> isOpenPrintJobStatus (pj_status printJob) \<and>
    cancelOpenJob sv input printJob now newId db = Inr db2 \<and> same_core db2 db')"
proof -
  obtain printJob where job: "List.find (\<lambda>j. pj_id j = ownedId) (db_jobs db) = Some printJob"
    using run by (auto simp: cancelFresh_def split: option.splits)
  show ?thesis
  proof (cases "isOpenPrintJobStatus (pj_status printJob)")
    case False
    with run job show ?thesis by (auto simp: cancelFresh_def split: if_splits)
  next
    case True
    then have "pj_status printJob \<noteq> JS_COMPLETED" by (auto simp: open_defs)
    with run job True obtain db2 where "cancelOpenJob sv input printJob now newId db = Inr db2" "same_core db2 db'"
      by (auto simp: cancelFresh_def dest!: storeReplay_core split: option.splits)
    with True find_Some_set [OF job] show ?thesis by blast
  qed
qed

lemma cancel_shape:
  assumes run: "cancelPrintJob sv input now newId db = Inr (out, db')"
  shows "same_core db db' \<or> (\<exists>db1 printJob db2. same_core db db1 \<and> printJob \<in> set (db_jobs db1) \<and>
    isOpenPrintJobStatus (pj_status printJob) \<and>
    cancelOpenJob sv input printJob now newId db1 = Inr db2 \<and> same_core db2 db')"
proof -
  define action where "action = ''print-jobs.cancel:'' @ cn_printJobId input"
  define h where "h = sv_hashRequest sv [(''printJobId'', cn_printJobId input)]"
  obtain found db1 where idem: "findIdempotency sv (cn_kioskId input) action (cn_idempotencyKey input) now db = (found, db1)"
    by fastforce
  then have core: "same_core db db1"
    using findIdempotency_core [of db sv "cn_kioskId input" action "cn_idempotencyKey input" now] by simp
  have "db' = db1 \<or> (\<exists>ownedId. cancelFresh sv input ownedId action h now newId db1 = Inr (out, db'))"
    using run idem unfolding cancelPrintJob_def Let_def action_def [symmetric] h_def [symmetric]
    by (auto split: option.splits)
  then show ?thesis using core cancelFresh_shape by blast
qed

lemma cancel_step:
  assumes inv: "jobs_inv db" and run: "cancelPrintJob sv input now newId db = Inr (out, db')"
  shows "job_step db db'"
  using cancel_shape [OF run]
proof (elim disjE exE conjE)
  assume "same_core db db'"
  then show ?thesis by (rule job_step_core [OF job_step_refl same_core_refl])
next
  fix db1 printJob db2
  assume a: "same_core db db1" "printJob \<in> set (db_jobs db1)" "isOpenPrintJobStatus (pj_status printJob)"
    "cancelOpenJob sv input printJob now newId db1 = Inr db2" "same_core db2 db'"
  from cancelOpen_step [OF same_core_inv [OF a(1) inv] a(2-4)] show ?thesis
    by (rule job_step_core [OF _ same_core_sym [OF a(1)] a(5)])
qed

lemma insert_step:
  assumes run: "insertJob sv input session now newId action requestHash db = Inr (out, db')"
  shows "job_step db db'"
proof -
  obtain payment settings documents job where
    pay: "List.find (\<lambda>p. py_id p = ci_paymentId input \<and> py_sessionId p = se_id session \<and> py_status p = PS_CAPTURED
             \<and> py_appliedToSession p) (db_payments db) = Some payment"
    and set: "List.find (\<lambda>s. sr_sessionId s = se_id session \<and> sr_revision s = py_settingsRevision payment) (db_settings db) = Some settings"
    and hash: "sr_manifestHash settings = py_manifestHash payment"
    and job: "job = newJob sv input payment settings (jobManifest (newId 0) (se_id session) payment settings documents) now"
    and ok: "printJobManifestSchema (sv_uuid sv) (jobManifest (newId 0) (se_id session) payment settings documents)"
    and new: "\<not> list_ex (\<lambda>j. pj_id j = pj_id job \<or> pj_sessionId j = pj_sessionId job) (db_jobs db)"
    and rows: "db_jobs db' = db_jobs db @ [job]" and money: "job_money_kept db db'"
    using run
    by (auto simp: insertJob_def Let_def same_core_def job_money_kept_def
        dest!: startPrinting_core storeReplay_core split: option.splits if_splits)
  have "fresh_job job"
    using ok by (simp add: job newJob_def fresh_job_def printJobManifestSchema_def positive_int_def jobManifest_def)
  moreover have "bound_to_capture db job"
    using find_Some_set [OF pay] find_Some_set [OF set] hash
    by (auto simp: bound_to_capture_def job newJob_def jobManifest_def)
  ultimately show ?thesis
    using new by (intro job_step.created [OF rows _ _ _ money]) (auto simp: list_ex_iff)
qed

lemma create_shape:
  assumes run: "createPrintJob sv input now newId db = Inr (out, db')"
  shows "same_core db db' \<or> (\<exists>db1 session h. same_core db db1 \<and>
    insertJob sv input session now newId (''print-jobs.create:'' @ ci_sessionId input) h db1 = Inr (out, db'))"
proof -
  define action where "action = ''print-jobs.create:'' @ ci_sessionId input"
  obtain found db1 where idem: "findIdempotency sv (ci_kioskId input) action (ci_idempotencyKey input) now db = (found, db1)"
    by fastforce
  then have core: "same_core db db1"
    using findIdempotency_core [of db sv "ci_kioskId input" action "ci_idempotencyKey input" now] by simp
  have "db' = db1 \<or> (\<exists>session h. insertJob sv input session now newId action h db1 = Inr (out, db'))"
    using run idem unfolding createPrintJob_def Let_def action_def [symmetric]
    by (auto split: option.splits if_splits)
  then show ?thesis using core unfolding action_def by blast
qed

lemma create_step:
  assumes run: "createPrintJob sv input now newId db = Inr (out, db')"
  shows "job_step db db'"
  using create_shape [OF run]
proof (elim disjE exE conjE)
  assume "same_core db db'"
  then show ?thesis by (rule job_step_core [OF job_step_refl same_core_refl])
next
  fix db1 session h
  assume a: "same_core db db1" "insertJob sv input session now newId (''print-jobs.create:'' @ ci_sessionId input) h db1 = Inr (out, db')"
  from insert_step [OF a(2)] show ?thesis by (rule job_step_core [OF _ same_core_sym [OF a(1)] same_core_refl])
qed

text \<open>Every event that its route accepts is a step of the specification.\<close>

lemma control_refines:
  assumes "jobs_inv db" and "accepted_event cfg e"
  shows "job_step db (controlStep cfg e db)"
proof (cases e)
  case (EvIssue message now newId)
  then show ?thesis
    by (cases "issueCommand message now newId db") (simp_all add: committed_db_def job_step_refl issue_step)
next
  case (EvResult kioskId cred op requestId body heldAt now newId)
  then have "reportAgentCommandResultBodySchema (sv_uuid (cc_service cfg)) (rb_claimToken body) (rb_result body)"
    using assms(2) by simp
  from result_step [OF assms(1) this] show ?thesis unfolding EvResult by (simp add: committed_step)
qed (use assms(1) in \<open>auto intro: committed_step create_step cancel_step reserve_step claim_step progress_step release_step overdue_step\<close>)

interpretation control: guarded_stepping "controlStep cfg" jobs_inv "accepted_event cfg" for cfg
  by unfold_locales (rule job_step_inv [OF control_refines])


section \<open>Outcomes are final\<close>

lemma closed_rank [simp]: "\<not> isOpenPrintJobStatus s \<Longrightarrow> status_rank s = 3"
  by (cases s) (simp_all add: open_defs)

lemma rank_le_closed [simp]: "status_rank s \<le> 3"
  by (cases s) simp_all

definition later_row :: "print_job_row \<Rightarrow> print_job_row \<Rightarrow> bool" where
  "later_row j j' \<longleftrightarrow>
     pj_id j' = pj_id j \<and> pj_jobManifest j' = pj_jobManifest j \<and> pj_jobManifestHash j' = pj_jobManifestHash j \<and>
     status_rank (pj_status j) \<le> status_rank (pj_status j') \<and> (isOpenPrintJobStatus (pj_status j) \<or> j' = j)"

lemma later_row_refl [simp, intro]: "later_row j j"
  by (simp add: later_row_def)

lemma later_row_trans: "later_row i j \<Longrightarrow> later_row j k \<Longrightarrow> later_row i k"
  by (auto simp: later_row_def)

lemma open_update_later:
  assumes "isOpenPrintJobStatus (pj_status j)" and "open_update j j'"
  shows "later_row j j'"
proof -
  have "status_rank (pj_status j) \<le> status_rank (pj_status j')" using assms(2) unfolding open_update_def by blast
  then show ?thesis using assms(1) open_update_simps [OF assms(2)] unfolding later_row_def by blast
qed

lemma settle_job_later: "isOpenPrintJobStatus (pj_status j) \<Longrightarrow> later_row j (settle_job st now j)"
  by (simp add: later_row_def)

definition outcomes_kept :: "kiosk_db \<Rightarrow> kiosk_db \<Rightarrow> bool" where
  "outcomes_kept db db' \<longleftrightarrow>
     (\<forall>j \<in> set (db_jobs db). \<exists>j' \<in> set (db_jobs db'). later_row j j') \<and>
     (\<exists>rs. db_refunds db' = db_refunds db @ rs)"

lemma outcomes_kept_refl: "outcomes_kept db db"
  by (auto simp: outcomes_kept_def)

lemma outcomes_kept_trans:
  assumes "outcomes_kept a b" and "outcomes_kept b c"
  shows "outcomes_kept a c"
  unfolding outcomes_kept_def
proof
  show "\<forall>j \<in> set (db_jobs a). \<exists>j' \<in> set (db_jobs c). later_row j j'"
    using assms later_row_trans unfolding outcomes_kept_def by meson
  obtain rs ss where "db_refunds b = db_refunds a @ rs" "db_refunds c = db_refunds b @ ss"
    using assms unfolding outcomes_kept_def by blast
  then show "\<exists>rs. db_refunds c = db_refunds a @ rs" by simp
qed

lemma job_step_keeps:
  assumes inv: "jobs_inv db" and step: "job_step db db'"
  shows "outcomes_kept db db'"
  using step
proof cases
  case (moved p f)
  have "\<exists>j' \<in> set (db_jobs db'). later_row j j'" if j: "j \<in> set (db_jobs db)" for j
  proof (cases "p j")
    case True
    then have "f j \<in> set (db_jobs db')" using j by (auto simp: moved(1) set_updated)
    moreover have "later_row j (f j)" using moved(2) True open_update_later by simp
    ultimately show ?thesis by blast
  qed (use j in \<open>auto simp: moved(1) set_updated\<close>)
  with moved(3) show ?thesis by (simp add: outcomes_kept_def job_money_kept_def)
next
  case (settled job i)
  have rows: "db_jobs db' = updated (\<lambda>j. pj_id j = pj_id job) (settle_job (si_settlement i) (si_now i)) (db_jobs db)"
    using settled(4) by (simp add: settled_tables_def Let_def)
  have "\<exists>j' \<in> set (db_jobs db'). later_row j j'" if j: "j \<in> set (db_jobs db)" for j
  proof (cases "pj_id j = pj_id job")
    case True
    then have "j = job" by (rule key_unique [OF jobs_invD(1) [OF inv] j settled(1)])
    then show ?thesis using settled(1) settle_job_later [OF settled(2)] by (auto simp: rows set_updated)
  qed (use j in \<open>auto simp: rows set_updated\<close>)
  moreover have "\<exists>rs. db_refunds db' = db_refunds db @ rs"
    using settled(4) compensation_new [OF inv settled(1,2), of "si_newId i 0" "si_now i"]
    by (auto simp: settled_tables_def Let_def split: if_splits)
  ultimately show ?thesis by (simp add: outcomes_kept_def)
qed (auto simp: outcomes_kept_def job_money_kept_def)

interpretation outcomes: monotone_stepping "\<lambda>e db. if accepted_event cfg e then controlStep cfg e db else db" jobs_inv outcomes_kept
  for cfg
proof
  fix e :: control_event and db :: kiosk_db
  assume inv: "jobs_inv db"
  show "jobs_inv (if accepted_event cfg e then controlStep cfg e db else db)"
    using control.guarded_step_inv inv by simp
  show "outcomes_kept db (if accepted_event cfg e then controlStep cfg e db else db)"
    using job_step_keeps [OF inv control_refines [OF inv]] outcomes_kept_refl by simp
qed (fact outcomes_kept_refl, fact outcomes_kept_trans)

text \<open>A request the route refuses never begins a transaction.\<close>

definition controlRun :: "control_config \<Rightarrow> control_event list \<Rightarrow> kiosk_db \<Rightarrow> kiosk_db" where
  "controlRun cfg es db = fold (\<lambda>e db. if accepted_event cfg e then controlStep cfg e db else db) es db"

lemma controlRun_inv: "jobs_inv db \<Longrightarrow> jobs_inv (controlRun cfg es db)"
  unfolding controlRun_def by (rule outcomes.run_inv)

lemma controlRun_kept: "jobs_inv db \<Longrightarrow> outcomes_kept (controlRun cfg es db) (controlRun cfg (es @ fs) db)"
  unfolding controlRun_def by (rule outcomes.run_le_later)


lemma refund_amount:
  assumes inv: "jobs_inv db" and r: "refund_for db j r"
  shows "rf_amountMinor r = job_amount db j \<and> job_amount db j \<noteq> 0"
proof -
  obtain p where p: "p \<in> set (db_payments db)" "py_id p = pj_paymentId j" "rf_amountMinor r = py_amountMinor p" "py_amountMinor p \<noteq> 0"
    using r by (auto simp: refund_for_def)
  have "job_amount db j = py_amountMinor p"
    using find_key_unique [OF jobs_invD(3) [OF inv] p(1)] by (simp add: job_amount_def p(2))
  with p show ?thesis by simp
qed

lemma print_refunds:
  assumes inv: "jobs_inv db" and j: "j \<in> set (db_jobs db)"
  shows "map rf_amountMinor (filter (\<lambda>r. rf_paymentId r = pj_paymentId j \<and> rf_reason r = PRINT_FAILED) (db_refunds db)) =
    (if definitely_failed j \<and> job_amount db j \<noteq> 0 then [job_amount db j] else [])"
proof (cases "definitely_failed j \<and> job_amount db j \<noteq> 0")
  case True
  then obtain r where r: "r \<in> set (db_refunds db)" "refund_for db j r" using jobs_invD(8) [OF inv j] by blast
  have "filter (\<lambda>x. (rf_paymentId x, rf_reason x) = (rf_paymentId r, rf_reason r) \<and> True) (db_refunds db) = [r]"
    by (rule filter_key_unique [OF jobs_invD(4) [OF inv] r(1)]) simp
  then have "filter (\<lambda>r. rf_paymentId r = pj_paymentId j \<and> rf_reason r = PRINT_FAILED) (db_refunds db) = [r]"
    using r(2) by (simp add: refund_for_def)
  with True refund_amount [OF inv r(2)] show ?thesis by simp
next
  case False
  have "\<not> (rf_paymentId r = pj_paymentId j \<and> rf_reason r = PRINT_FAILED)" if r: "r \<in> set (db_refunds db)" for r
  proof
    assume eq: "rf_paymentId r = pj_paymentId j \<and> rf_reason r = PRINT_FAILED"
    obtain k where k: "k \<in> set (db_jobs db)" "definitely_failed k" "refund_for db k r"
      using jobs_invD(9) [OF inv r] eq by blast
    have "k = j" using eq k(3) by (intro bound_unique [OF inv k(1) j]) (simp add: refund_for_def)
    with k refund_amount [OF inv k(3)] False show False by simp
  qed
  then have "filter (\<lambda>r. rf_paymentId r = pj_paymentId j \<and> rf_reason r = PRINT_FAILED) (db_refunds db) = []"
    by (simp add: filter_empty_conv)
  with False show ?thesis by auto
qed

subsection \<open>A small control plane\<close>

definition sample_service :: print_service where
  "sample_service =
     \<lparr>sv_uuid = (\<lambda>_. True), sv_sha256 = (\<lambda>_. replicate 64 (CHR ''c'')),
      sv_hashRequest = (\<lambda>fields. concat (map snd fields)), sv_digestIdempotencyKey = (\<lambda>a b k. k),
      sv_idempotencyTtlHours = 24, sv_printJobTimeoutSeconds = 600, sv_testOutcomesEnabled = False,
      sv_retentionPolicy = DEFAULT_RETENTION_POLICY\<rparr>"

definition sample_config :: control_config where
  "sample_config = \<lparr>cc_service = sample_service, cc_leaseSeconds = 60, cc_maxCommandAttempts = 3\<rparr>"

definition sample_selection :: json where
  "sample_selection =
     JObj [(''fileId'', JStr ''f''), (''position'', JNum 0), (''pageCount'', JNum 2), (''processingRevision'', JNum 1),
       (''contentSha256'', JStr ''x''), (''pageRanges'', JArr [JArr [JNum 1, JNum 2]]), (''selectedPages'', JNum 2),
       (''copies'', JNum 1), (''duplex'', JStr ''SIMPLEX''), (''orientation'', JStr ''AUTO''),
       (''printedSides'', JNum 2), (''physicalSheets'', JNum 2)]"

definition paid_db :: kiosk_db where
  "paid_db = empty_db
     \<lparr>db_payments := [\<lparr>py_id = ''p'', py_sessionId = ''s'', py_quoteId = ''q'', py_provider = ''mock'',
        py_status = PS_CAPTURED, py_appliedToSession = True, py_amountMinor = 500, py_currency = ''TRY'',
        py_currencyExponent = 2, py_settingsRevision = 1, py_manifestHash = replicate 64 (CHR ''b''),
        py_providerIntentId = ''i'', py_failureCode = None, py_expiresAt = 900, py_createdAt = 100,
        py_authorizedAt = None, py_capturedAt = Some 500, py_failedAt = None\<rparr>],
      db_sessions := [\<lparr>se_id = ''s'', se_kioskId = ''k'', se_state = S_PAID, se_stateVersion = 5, se_eventSequence = 5,
        se_terminalReason = None, se_cleanupStatus = CL_NOT_DUE, se_cleanupDueAt = None, se_completedAt = None,
        se_currentSettingsRevision = Some 1, se_activeQuoteId = Some ''q'', se_idleExpiresAt = 900000, se_hardExpiresAt = 900000,
        se_canceledAt = None, se_expiredAt = None, se_publicId = ''ps_1'', se_locale = ''hy'', se_createdAt = 0\<rparr>],
      db_files := [\<lparr>fr_id = ''f'', fr_sessionId = ''s'', fr_status = F_READY, fr_contentSha256 = Some ''x'',
        fr_pageCount = Some 2, fr_processingRevision = 1, fr_processingGeneration = 0, fr_processingClaimToken = None,
        fr_processingLeaseExpiresAt = None, fr_processingEnqueuedAt = None, fr_deleteRequestedAt = None,
        fr_cleanupDueAt = None, fr_cleanupErrorCode = None, fr_ordinal = 0\<rparr>],
      db_derivatives := [\<lparr>dv_fileId = ''f'', dv_processingRevision = 1, dv_type = ''NORMALIZED_PDF'',
        dv_status = ''AVAILABLE'', dv_sha256 = replicate 64 (CHR ''a''), dv_sizeBytes = 10, dv_mimeType = ''application/pdf''\<rparr>],
      db_settings := [\<lparr>sr_id = ''sr1'', sr_sessionId = ''s'', sr_revision = 1, sr_manifestHash = replicate 64 (CHR ''b''),
        sr_paperSize = ''A4'', sr_scaling = ''FIT'', sr_collate = True, sr_colorMode = ''MONOCHROME'', sr_selectedPages = 2,
        sr_printedSides = 2, sr_physicalSheets = 2, sr_selections = JArr [sample_selection],
        sr_capabilityVersion = 1, sr_createdAt = 0\<rparr>],
      db_paper := [\<lparr>ki_kioskId = ''k'', ki_estimatedSheets = 100\<rparr>]\<rparr>"

definition ids_from :: "string \<Rightarrow> nat \<Rightarrow> string" where
  "ids_from p n = p @ show_nat n"

definition create_event :: control_event where
  "create_event = EvCreate
     \<lparr>ci_kioskId = ''k'', ci_credentialId = ''c'', ci_sessionId = ''s'', ci_paymentId = ''p'',
      ci_simulatedOutcome = None, ci_idempotencyKey = ''key'', ci_requestId = ''r''\<rparr> 1000 (ids_from ''a'')"

definition cancel_event :: control_event where
  "cancel_event = EvCancel
     \<lparr>cn_kioskId = ''k'', cn_credentialId = ''c'', cn_printJobId = ''a0'', cn_idempotencyKey = ''key2'', cn_requestId = ''r''\<rparr>
     2000 (ids_from ''b'')"

definition queued_job :: print_job_row where
  "queued_job =
     \<lparr>pj_id = ''a0'', pj_sessionId = ''s'', pj_kioskId = ''k'', pj_quoteId = ''q'', pj_paymentId = ''p'',
      pj_settingsRevision = 1, pj_settingsManifestHash = replicate 64 (CHR ''b''), pj_jobManifest = accepted_manifest,
      pj_jobManifestHash = replicate 64 (CHR ''c''), pj_status = JS_QUEUED, pj_resultConfidence = RC_UNKNOWN,
      pj_failureCode = None, pj_warningCode = None, pj_simulatedOutcome = None, pj_copies = 1, pj_printedSides = 2,
      pj_physicalSheets = 2, pj_sheetsProduced = None, pj_dispatchAttempts = 0, pj_availableAt = 1000,
      pj_deadlineAt = 601000, pj_cancelRequestedAt = None, pj_createdAt = 1000, pj_dispatchedAt = None,
      pj_startedAt = None, pj_completedAt = None, pj_failedAt = None\<rparr>"

definition queued_db :: kiosk_db where
  "queued_db = paid_db
     \<lparr>db_jobs := [queued_job],
      db_sessions := map (\<lambda>s. s\<lparr>se_state := S_PRINTING, se_stateVersion := 6, se_eventSequence := 6\<rparr>) (db_sessions paid_db),
      db_events := [(ledger_entry_row ''a2'' ''a0'' L_CREATED JS_QUEUED 1000)\<lparr>pe_sequence := 1\<rparr>]\<rparr>"

definition printed_events :: "control_event list" where
  "printed_events =
     [EvReserve (''a0'', 0) 1100, EvIssue (''a0'', 1) 1200 (ids_from ''c''),
      EvClaim ''k'' 1300 (''t'', ''e1''), EvProgress ''k'' ''c1'' ''t'' PR_SUBMITTED 1400 ''e2'',
      EvResult ''k'' ''c'' ''c1'' ''r'' \<lparr>rb_claimToken = ''t'', rb_result =
          \<lparr>dr_state = D_COMPLETED, dr_confidence = CONFIRMED, dr_failureCode = None, dr_warningCode = None,
           dr_sheetsProduced = Some 2\<rparr>, rb_deviceDiagnostics = None\<rparr> 1500 1500 (ids_from ''d'')]"

lemma queued_db_inv: "jobs_inv queued_db"
  by (simp add: jobs_inv_def queued_db_def paid_db_def empty_db_def paper_ok_def PAPER_INVENTORY_MAX_SHEETS_def
      queued_job_def outcome_consistent_def bound_to_capture_def definitely_failed_def)

definition cancelled_db :: kiosk_db where
  "cancelled_db = controlRun sample_config [cancel_event] queued_db"

definition printed_db :: kiosk_db where
  "printed_db = controlRun sample_config printed_events queued_db"

text \<open>The tables of a small database at a glance.\<close>

definition overview :: "kiosk_db \<Rightarrow> job_status list \<times> int list \<times> int list \<times> session_state list" where
  "overview db = (map pj_status (db_jobs db), map rf_amountMinor (db_refunds db),
     map ki_estimatedSheets (db_paper db), map se_state (db_sessions db))"

lemma cancelled_overview: "overview cancelled_db = ([JS_CANCELED], [500], [100], [S_FAILED])"
  by code_simp

lemma printed_overview: "overview printed_db = ([JS_COMPLETED], [], [98], [S_COMPLETED])"
  by code_simp


lemma cancelled_job: "\<exists>j. db_jobs cancelled_db = [j] \<and> pj_status j = JS_CANCELED"
  using cancelled_overview by (auto simp: overview_def map_eq_Cons_conv)

lemma printed_job: "\<exists>j. db_jobs printed_db = [j] \<and> pj_status j = JS_COMPLETED"
  using printed_overview by (auto simp: overview_def map_eq_Cons_conv)

section \<open>The properties of the print path\<close>

text \<open>
  C3. Money is owed back exactly for prints that failed: after every history of requests, leases,
  reports and sweeps, the print refunds recorded for a job's payment are one refund of the full
  captured amount when the job is failed or cancelled and something was paid, and none otherwise.
\<close>

theorem refund_exactly_for_failed_prints:
  assumes "jobs_inv db" and "db' = controlRun cfg es db" and "j \<in> set (db_jobs db')"
  shows "map rf_amountMinor (filter (\<lambda>r. rf_paymentId r = pj_paymentId j \<and> rf_reason r = PRINT_FAILED) (db_refunds db')) =
    (if (pj_status j = JS_FAILED \<or> pj_status j = JS_CANCELED) \<and> job_amount db' j \<noteq> 0 then [job_amount db' j] else [])"
proof -
  have "jobs_inv db'" unfolding assms(2) by (rule controlRun_inv [OF assms(1)])
  from print_refunds [OF this assms(3)] show ?thesis by (simp add: definitely_failed_def)
qed

theorem refund_exactly_for_failed_prints_witness:
  "\<exists>j. db_jobs cancelled_db = [j] \<and> pj_status j = JS_CANCELED \<and>
    map rf_amountMinor (filter (\<lambda>r. rf_paymentId r = pj_paymentId j \<and> rf_reason r = PRINT_FAILED) (db_refunds cancelled_db)) =
    (if job_amount cancelled_db j \<noteq> 0 then [job_amount cancelled_db j] else [])"
proof -
  obtain j where j: "db_jobs cancelled_db = [j]" "pj_status j = JS_CANCELED" using cancelled_job by blast
  then show ?thesis
    using refund_exactly_for_failed_prints [OF queued_db_inv cancelled_db_def, of j] by simp
qed

text \<open>
  C21. Every stored outcome is one the database's constraint allows: after every history each job
  is bound to a capture applied to its own session and to the settings that capture paid for, and
  its status, confidence, failure code, sheet count and timestamps agree; a success has a
  confirmed positive sheet count within the job, a definite failure a confirmed zero.
\<close>

theorem stored_outcomes_are_consistent:
  assumes "jobs_inv db" and "db' = controlRun cfg es db" and "j \<in> set (db_jobs db')"
  shows "outcome_consistent j \<and> bound_to_capture db' j"
proof -
  have "jobs_inv db'" unfolding assms(2) by (rule controlRun_inv [OF assms(1)])
  from jobs_invD(6,7) [OF this assms(3)] show ?thesis ..
qed

theorem stored_outcomes_are_consistent_witness:
  "\<exists>j. db_jobs printed_db = [j] \<and> pj_status j = JS_COMPLETED \<and> outcome_consistent j \<and> bound_to_capture printed_db j"
proof -
  obtain j where j: "db_jobs printed_db = [j]" "pj_status j = JS_COMPLETED" using printed_job by blast
  then show ?thesis
    using stored_outcomes_are_consistent [OF queued_db_inv printed_db_def, of j] by simp
qed

text \<open>
  C20. An outcome is final on the print path: whatever its requests, leases, reports and sweeps do between two
  moments, a job that is settled at the first has the very same row at the second; a job never moves
  backwards and keeps the manifest it was created with; and refunds are only ever appended. The one later
  write to a settled job, by which the clean-up of its session replaces the manifest with a count of its
  documents, is not a transaction of the print path.
\<close>

theorem outcomes_are_final:
  assumes "jobs_inv db" and "j \<in> set (db_jobs (controlRun cfg es db))"
  shows "\<exists>j' \<in> set (db_jobs (controlRun cfg (es @ fs) db)). pj_id j' = pj_id j \<and>
      pj_jobManifest j' = pj_jobManifest j \<and> pj_jobManifestHash j' = pj_jobManifestHash j \<and>
      status_rank (pj_status j) \<le> status_rank (pj_status j') \<and>
      (pj_status j \<in> {JS_COMPLETED, JS_FAILED, JS_CANCELED, JS_RECOVERY_REQUIRED} \<longrightarrow> j' = j) \<and>
      (\<exists>rs. db_refunds (controlRun cfg (es @ fs) db) = db_refunds (controlRun cfg es db) @ rs)"
proof -
  have "outcomes_kept (controlRun cfg es db) (controlRun cfg (es @ fs) db)" by (rule controlRun_kept [OF assms(1)])
  with assms(2) obtain j' rs where "j' \<in> set (db_jobs (controlRun cfg (es @ fs) db))" "later_row j j'"
    "db_refunds (controlRun cfg (es @ fs) db) = db_refunds (controlRun cfg es db) @ rs"
    unfolding outcomes_kept_def by blast
  then show ?thesis by (intro bexI [where x = j']) (auto simp: open_defs later_row_def)
qed

theorem outcomes_are_final_witness:
  "\<exists>j. db_jobs cancelled_db = [j] \<and> j \<in> set (db_jobs (controlRun sample_config ([cancel_event] @ printed_events) queued_db))"
proof -
  obtain j where j: "db_jobs cancelled_db = [j]" "pj_status j = JS_CANCELED" using cancelled_job by blast
  then have "j \<in> set (db_jobs (controlRun sample_config [cancel_event] queued_db))" by (simp add: cancelled_db_def)
  from outcomes_are_final [OF queued_db_inv this, of printed_events] j show ?thesis by auto
qed

text \<open>
  C9. Every transaction implements the lifecycle of a job: whatever it is asked, one transaction
  of the service, the agent's channel or the dispatcher either leaves the jobs' rows, refunds and
  paper as they were or makes one move the specification allows, that is it moves open jobs
  forward, settles one open job with an outcome of the reducer together with its commands, refund
  and paper, or creates one fresh job bound to an applied capture.
\<close>

theorem transactions_refine_the_lifecycle:
  assumes "jobs_inv db" and "accepted_event cfg e"
  shows "job_step db (controlStep cfg e db) \<and> jobs_inv (controlStep cfg e db)"
  using control_refines [OF assms] job_step_inv [OF control_refines [OF assms] assms(1)] by blast

theorem transactions_refine_the_lifecycle_witness:
  "job_step queued_db cancelled_db"
proof -
  have "accepted_event sample_config cancel_event" by (simp add: cancel_event_def)
  from transactions_refine_the_lifecycle [OF queued_db_inv this] this show ?thesis
    by (simp add: cancelled_db_def controlRun_def)
qed

end
