(* ===== verification/Submission_Boundary.thy ===== *)
theory Submission_Boundary
  imports Print_Job_Lifecycle
begin

text \<open>
  The boundary the print path is built around: once a job is \<open>PRINTING\<close>, bytes may have reached a
  device. Over the system of Print_Job_Lifecycle, nothing but the agent's own result can turn such
  a job into a success, a failure or a cancellation; the sweeps and the customer can at most send
  it to a person. And what the agent reports counts only under the lease it was given.
\<close>

section \<open>Who may conclude a submitted print\<close>

fun from_agent :: "control_event \<Rightarrow> bool" where
  "from_agent (EvResult kioskId cred op requestId body heldAt now newId) \<longleftrightarrow> True"
| "from_agent _ \<longleftrightarrow> False"

definition past_boundary :: "print_job_row \<Rightarrow> bool" where
  "past_boundary j \<longleftrightarrow> pj_status j = JS_PRINTING \<or> pj_status j = JS_RECOVERY_REQUIRED"

definition boundary_kept :: "kiosk_db \<Rightarrow> kiosk_db \<Rightarrow> bool" where
  "boundary_kept db db' \<longleftrightarrow>
     (\<forall>j \<in> set (db_jobs db). past_boundary j \<longrightarrow>
        (\<exists>j' \<in> set (db_jobs db'). pj_id j' = pj_id j \<and> pj_paymentId j' = pj_paymentId j \<and> past_boundary j'))"

lemma boundary_kept_trans: "boundary_kept a b \<Longrightarrow> boundary_kept b c \<Longrightarrow> boundary_kept a c"
  unfolding boundary_kept_def by (metis (no_types, lifting))

lemma kept_same: "db_jobs db' = db_jobs db \<Longrightarrow> boundary_kept db db'"
  by (auto simp: boundary_kept_def)

lemma kept_appended: "db_jobs db' = db_jobs db @ js \<Longrightarrow> boundary_kept db db'"
  by (auto simp: boundary_kept_def)

lemma kept_updated:
  assumes rows: "db_jobs db' = updated p f (db_jobs db)"
    and f: "\<And>j. j \<in> set (db_jobs db) \<Longrightarrow> p j \<Longrightarrow> past_boundary j \<Longrightarrow>
      pj_id (f j) = pj_id j \<and> pj_paymentId (f j) = pj_paymentId j \<and> past_boundary (f j)"
  shows "boundary_kept db db'"
  unfolding boundary_kept_def
proof (intro ballI impI)
  fix j assume j: "j \<in> set (db_jobs db)" "past_boundary j"
  show "\<exists>j' \<in> set (db_jobs db'). pj_id j' = pj_id j \<and> pj_paymentId j' = pj_paymentId j \<and> past_boundary j'"
  proof (cases "p j")
    case True
    then have "f j \<in> set (db_jobs db')" using j(1) by (auto simp: rows set_updated)
    with f [OF j(1) True j(2)] show ?thesis by blast
  next
    case False
    then have "j \<in> set (db_jobs db')" using j(1) by (auto simp: rows set_updated)
    with j(2) show ?thesis by blast
  qed
qed

lemma kept_settled:
  assumes run: "applyPrintJobSettlement i db = Inr (out, db')" and ids: "distinct (map pj_id (db_jobs db))"
    and review: "\<And>j. j \<in> set (db_jobs db) \<Longrightarrow> pj_id j = si_printJobId i \<Longrightarrow> pj_status j = JS_PRINTING \<Longrightarrow>
      st_status (si_settlement i) = ST_RECOVERY_REQUIRED"
  shows "boundary_kept db db'"
  using run ids
proof (cases rule: settlement_cases)
  case (settled job db4 r)
  then have "db_jobs db' = updated (\<lambda>j. pj_id j = pj_id job) (settle_job (si_settlement i) (si_now i)) (db_jobs db)"
    by (simp add: settled_tables_def Let_def)
  then show ?thesis
  proof (rule kept_updated)
    fix j assume j: "j \<in> set (db_jobs db)" "pj_id j = pj_id job" "past_boundary j"
    then have "j = job" using key_unique [OF ids j(1) settled(1)] by blast
    with j(3) settled(3) have "pj_status j = JS_PRINTING" by (auto simp: past_boundary_def open_defs)
    with review j settled(2) have "st_status (si_settlement i) = ST_RECOVERY_REQUIRED" by simp
    then show "pj_id (settle_job (si_settlement i) (si_now i) j) = pj_id j \<and>
        pj_paymentId (settle_job (si_settlement i) (si_now i) j) = pj_paymentId j \<and>
        past_boundary (settle_job (si_settlement i) (si_now i) j)"
      by (simp add: past_boundary_def)
  qed
qed (simp add: kept_same)

lemma sweep_review [simp]: "st_status (sweepSettlement True f) = ST_RECOVERY_REQUIRED"
  by (simp add: sweepSettlement_def settlePrintDeviceResult_def recovery_def Let_def)

lemma find_key:
  "distinct (map k xs) \<Longrightarrow> x \<in> set xs \<Longrightarrow> List.find (\<lambda>y. k y = k x) xs = Some x"
  using find_key_unique [of k xs x] by simp

lemma overdue_boundary:
  assumes ids: "distinct (map pj_id (db_jobs db))" and run: "settleOverdue policy jobId now newId db = Inr (out, db')"
  shows "boundary_kept db db'"
proof (cases "db' = db")
  case False
  then obtain job i outcome where i: "List.find (\<lambda>j. pj_id j = jobId) (db_jobs db) = Some job"
    "applyPrintJobSettlement i db = Inr (outcome, db')" "si_printJobId i = pj_id job"
    "si_settlement i = sweepSettlement (pj_status job = JS_PRINTING) ''JOB_DEADLINE_EXCEEDED''"
    using run by (auto simp: settleOverdue_def split: option.splits if_splits)
  show ?thesis
  proof (rule kept_settled [OF i(2) ids])
    fix j assume "j \<in> set (db_jobs db)" "pj_id j = si_printJobId i" "pj_status j = JS_PRINTING"
    moreover then have "j = job" using key_unique [OF ids, of j job] find_Some_set [OF i(1)] i(3) by simp
    ultimately show "st_status (si_settlement i) = ST_RECOVERY_REQUIRED" by (simp add: i(4))
  qed
qed (simp add: kept_same)

lemma release_boundary:
  assumes ids: "distinct (map pj_id (db_jobs db))" and run: "releaseLease maxAttempts policy commandId now newId db = Inr (out, db')"
  shows "boundary_kept db db'"
proof (cases "db_jobs db' = db_jobs db")
  case False
  obtain command where c: "List.find (\<lambda>c. ac_id c = commandId) (db_commands db) = Some command"
    using run False by (auto simp: releaseLease_def split: option.splits)
  have last: "maxAttempts \<le> ac_attempts command \<or> ac_expiresAt command \<le> now"
    using run False c by (auto simp: releaseLease_def Let_def split: option.splits if_splits)
  obtain i outcome where i: "applyPrintJobSettlement i db = Inr (outcome, db')"
    "si_settlement i = sweepSettlement (case List.find (\<lambda>j. pj_id j = si_printJobId i) (db_jobs db) of
        None \<Rightarrow> False | Some j \<Rightarrow> pj_status j = JS_PRINTING) ''SUBMISSION_UNCONFIRMED''"
    using run False c last by (auto simp: releaseLease_def Let_def split: option.splits if_splits)
  show ?thesis
  proof (rule kept_settled [OF i(1) ids])
    fix j assume j: "j \<in> set (db_jobs db)" "pj_id j = si_printJobId i" "pj_status j = JS_PRINTING"
    then show "st_status (si_settlement i) = ST_RECOVERY_REQUIRED"
      using find_key [OF ids j(1)] by (simp add: i(2))
  qed
qed (simp add: kept_same)

lemma cancelOpen_boundary:
  assumes ids: "distinct (map pj_id (db_jobs db))" and job: "printJob \<in> set (db_jobs db)"
    and run: "cancelOpenJob sv input printJob now newId db = Inr db'"
  shows "boundary_kept db db'"
proof (cases "pj_status printJob = JS_PRINTING")
  case True
  then have "db_jobs db' = updated (\<lambda>j. pj_id j = pj_id printJob \<and> pj_status j = pj_status printJob)
            (\<lambda>j. j\<lparr>pj_cancelRequestedAt := Some now\<rparr>) (db_jobs db)"
    using run by (auto simp: cancelOpenJob_def)
  then show ?thesis by (rule kept_updated) (simp add: past_boundary_def)
next
  case False
  then obtain i outcome where i: "applyPrintJobSettlement i db = Inr (outcome, db')" "si_printJobId i = pj_id printJob"
    using run by (auto simp: cancelOpenJob_def)
  show ?thesis
    by (rule kept_settled [OF i(1) ids]) (use False key_unique [OF ids _ job] i(2) in auto)
qed

lemma kept_core: "boundary_kept a b \<Longrightarrow> same_core a a' \<Longrightarrow> same_core b b' \<Longrightarrow> boundary_kept a' b'"
  by (simp add: boundary_kept_def same_core_def)

lemma cancel_boundary:
  assumes ids: "distinct (map pj_id (db_jobs db))" and run: "cancelPrintJob sv input now newId db = Inr (out, db')"
  shows "boundary_kept db db'"
  using cancel_shape [OF run]
proof (elim disjE exE conjE)
  fix db1 printJob db2
  assume a: "same_core db db1" "printJob \<in> set (db_jobs db1)" "cancelOpenJob sv input printJob now newId db1 = Inr db2"
    "same_core db2 db'"
  have "distinct (map pj_id (db_jobs db1))" using ids a(1) by (simp add: same_core_def)
  from cancelOpen_boundary [OF this a(2,3)] show ?thesis by (rule kept_core [OF _ same_core_sym [OF a(1)] a(4)])
qed (simp add: kept_same same_core_def)

text \<open>Creating a job adds its row and one ledger entry to the tables of the print path.\<close>

lemma insert_shape:
  assumes "insertJob sv input session now newId action h db = Inr (out, db')"
  shows "\<exists>job d e. db_jobs db' = db_jobs db @ [job] \<and> db_events d = db_events db \<and>
    db_events db' = db_events (recordPrintJobEvent e d) \<and> db_commands db' = db_commands db \<and> pe_type e = L_CREATED \<and>
    pj_jobManifestHash job = hashPrintManifest sv (pj_jobManifest job) \<and>
    printJobManifestSchema (sv_uuid sv) (pj_jobManifest job)"
proof -
  obtain job d d2 e where "same_core (db\<lparr>db_jobs := db_jobs db @ [job]\<rparr>) d" "same_core d2 db'"
    "db_events d2 = db_events (recordPrintJobEvent e d)" "db_jobs d2 = db_jobs d" "db_commands d2 = db_commands d"
    "pe_type e = L_CREATED" "pj_jobManifestHash job = hashPrintManifest sv (pj_jobManifest job)"
    "printJobManifestSchema (sv_uuid sv) (pj_jobManifest job)"
    using assms
    by (auto simp: insertJob_def Let_def newJob_def ledger_entry_row_def simp del: record_event_frame(7)
        dest!: startPrinting_core storeReplay_core split: option.splits if_splits)
  then show ?thesis by (intro exI [where x = job] exI [where x = d] exI [where x = e]) (simp add: same_core_def)
qed

lemma create_boundary:
  assumes run: "createPrintJob sv input now newId db = Inr (out, db')"
  shows "boundary_kept db db'"
  using create_shape [OF run]
proof (elim disjE exE conjE)
  fix db1 session h
  assume a: "same_core db db1" "insertJob sv input session now newId (''print-jobs.create:'' @ ci_sessionId input) h db1 = Inr (out, db')"
  obtain job where "db_jobs db' = db_jobs db1 @ [job]" using insert_shape [OF a(2)] by blast
  then show ?thesis using a(1) by (simp add: same_core_def kept_appended)
qed (simp add: kept_same same_core_def)

lemma issue_boundary:
  assumes "issueCommand message now newId db = Inr db'"
  shows "boundary_kept db db'"
  using conjunct2 [OF issue_jobs [OF assms]]
proof
  assume "db_jobs db' = updated (\<lambda>j. pj_id j = fst message \<and> pj_status j = JS_QUEUED)
      (\<lambda>j. j\<lparr>pj_status := JS_DISPATCHED, pj_dispatchedAt := Some now\<rparr>) (db_jobs db)"
  then show ?thesis by (rule kept_updated) (simp add: past_boundary_def)
qed (rule kept_same)

lemma progress_boundary:
  assumes "reportProgress lease kioskId op token st now eventId db = Inr (out, db')"
  shows "boundary_kept db db'"
proof -
  obtain command printJobId where run: "progressOn lease token st now eventId db command printJobId = Inr (out, db')"
    using assms unfolding reportProgress_def by (rule withSession_Inr)
  then have "db_jobs db' = db_jobs db \<or>
      db_jobs db' = updated (\<lambda>j. pj_id j = printJobId \<and> pj_status j \<in> {JS_QUEUED, JS_DISPATCHED})
                          (\<lambda>j. j\<lparr>pj_status := JS_PRINTING, pj_startedAt := Some now\<rparr>) (db_jobs db)"
    by (auto simp: progressOn_def Let_def split: option.splits if_splits)
  then show ?thesis
  proof
    assume "db_jobs db' = updated (\<lambda>j. pj_id j = printJobId \<and> pj_status j \<in> {JS_QUEUED, JS_DISPATCHED})
                          (\<lambda>j. j\<lparr>pj_status := JS_PRINTING, pj_startedAt := Some now\<rparr>) (db_jobs db)"
    then show ?thesis by (rule kept_updated) (auto simp: past_boundary_def)
  qed (rule kept_same)
qed

lemma claim_jobs: "claimOne uuid lease kioskId now ids db = Inr (c, db') \<Longrightarrow> db_jobs db' = db_jobs db"
  by (auto simp: claimOne_def Let_def split: list.splits option.splits if_splits)

lemma committed_kept: "(\<And>x db'. r = Inr (x, db') \<Longrightarrow> boundary_kept db db') \<Longrightarrow> boundary_kept db (committed db r)"
  by (cases r) (auto simp: committed_def kept_same split: prod.splits)

lemma control_boundary:
  assumes inv: "jobs_inv db" and "\<not> from_agent e"
  shows "boundary_kept db (controlStep cfg e db)"
proof (cases e)
  case (EvReserve candidate now)
  have "db_jobs (snd (reserveDispatch candidate now db)) =
      updated (\<lambda>j. pj_id j = fst candidate \<and> pj_status j = JS_QUEUED \<and> pj_dispatchAttempts j = snd candidate)
        (\<lambda>j. j\<lparr>pj_dispatchAttempts := snd candidate + 1,
               pj_availableAt := now + backoffMilliseconds (nat (snd candidate + 1))\<rparr>) (db_jobs db)"
    by (simp add: reserveDispatch_def Let_def)
  then have "boundary_kept db (snd (reserveDispatch candidate now db))"
    by (rule kept_updated) (simp add: past_boundary_def)
  with EvReserve show ?thesis by simp
next
  case (EvIssue message now newId)
  then show ?thesis
    by (cases "issueCommand message now newId db") (simp_all add: committed_db_def kept_same issue_boundary)
next
  case (EvResult kioskId cred op requestId body heldAt now newId)
  with assms(2) show ?thesis by simp
qed (use jobs_invD(1) [OF inv] in \<open>auto intro!: committed_kept intro: create_boundary cancel_boundary kept_same claim_jobs
      progress_boundary release_boundary overdue_boundary\<close>)

interpretation boundary: monotone_stepping
  "\<lambda>e db. if accepted_event cfg e \<and> \<not> from_agent e then controlStep cfg e db else db" jobs_inv boundary_kept
  for cfg
proof
  fix e :: control_event and db :: kiosk_db
  assume inv: "jobs_inv db"
  show "jobs_inv (if accepted_event cfg e \<and> \<not> from_agent e then controlStep cfg e db else db)"
    using control.guarded_step_inv inv by simp
  show "boundary_kept db (if accepted_event cfg e \<and> \<not> from_agent e then controlStep cfg e db else db)"
    using control_boundary [OF inv] by (simp add: kept_same)
qed (simp add: kept_same, fact boundary_kept_trans)

lemma controlRun_silent:
  "list_all (\<lambda>e. \<not> from_agent e) es \<Longrightarrow>
    controlRun cfg es db = fold (\<lambda>e db. if accepted_event cfg e \<and> \<not> from_agent e then controlStep cfg e db else db) es db"
  unfolding controlRun_def by (induction es arbitrary: db) auto

lemma silent_run:
  assumes inv: "jobs_inv db" and j: "j \<in> set (db_jobs db)" "past_boundary j" and "list_all (\<lambda>e. \<not> from_agent e) es"
  shows "\<exists>j' \<in> set (db_jobs (controlRun cfg es db)). pj_id j' = pj_id j \<and> pj_paymentId j' = pj_paymentId j \<and> past_boundary j'"
  using boundary.run_le [OF inv, of cfg es] j unfolding controlRun_silent [OF assms(4)] boundary_kept_def by blast

definition submitted_db :: kiosk_db where
  "submitted_db = controlRun sample_config (take 4 printed_events) queued_db"

definition silence :: "control_event list" where
  "silence = [cancel_event, EvRelease ''c0'' 70000 (ids_from ''x''), EvOverdue ''a0'' 700000 (ids_from ''y'')]"

lemma submitted_overview: "overview submitted_db = ([JS_PRINTING], [], [100], [S_PRINTING])"
  by code_simp

lemma submitted_inv: "jobs_inv submitted_db"
  unfolding submitted_db_def by (rule controlRun_inv [OF queued_db_inv])

text \<open>
  C12. Only the agent can conclude a submitted print: whatever customers cancel, leases expire and
  deadlines pass, a job that was \<open>PRINTING\<close> is still printing or waits for a person, as long as
  no result of the agent arrives; it is never reported a success or a failure, and no refund is
  recorded for it.
\<close>

theorem only_the_agent_concludes_a_submitted_print:
  assumes "jobs_inv db" and "j \<in> set (db_jobs db)" and "pj_status j = JS_PRINTING"
    and "list_all (\<lambda>e. \<not> from_agent e) es"
  shows "\<exists>j'. j' \<in> set (db_jobs (controlRun cfg es db)) \<and> pj_id j' = pj_id j \<and>
    (pj_status j' = JS_PRINTING \<or> pj_status j' = JS_RECOVERY_REQUIRED) \<and>
    filter (\<lambda>r. rf_paymentId r = pj_paymentId j \<and> rf_reason r = PRINT_FAILED) (db_refunds (controlRun cfg es db)) = []"
proof -
  obtain j' where j': "j' \<in> set (db_jobs (controlRun cfg es db))" "pj_id j' = pj_id j" "pj_paymentId j' = pj_paymentId j"
    "past_boundary j'"
    using silent_run [OF assms(1,2) _ assms(4), of cfg] assms(3) by (auto simp: past_boundary_def)
  have "\<not> definitely_failed j'" using j'(4) by (auto simp: past_boundary_def definitely_failed_def)
  then have "map rf_amountMinor (filter (\<lambda>r. rf_paymentId r = pj_paymentId j \<and> rf_reason r = PRINT_FAILED)
      (db_refunds (controlRun cfg es db))) = []"
    using print_refunds [OF controlRun_inv [OF assms(1)] j'(1)] j'(3) by simp
  with j' show ?thesis unfolding past_boundary_def by blast
qed

theorem only_the_agent_concludes_a_submitted_print_witness:
  "\<exists>j j'. db_jobs submitted_db = [j] \<and> pj_status j = JS_PRINTING \<and> pj_id j' = pj_id j \<and>
    j' \<in> set (db_jobs (controlRun sample_config silence submitted_db)) \<and>
    filter (\<lambda>r. rf_paymentId r = pj_paymentId j \<and> rf_reason r = PRINT_FAILED)
      (db_refunds (controlRun sample_config silence submitted_db)) = []"
proof -
  obtain j where j: "db_jobs submitted_db = [j]" "pj_status j = JS_PRINTING"
    using submitted_overview by (auto simp: overview_def map_eq_Cons_conv)
  have "list_all (\<lambda>e. \<not> from_agent e) silence" by (simp add: silence_def cancel_event_def)
  from only_the_agent_concludes_a_submitted_print [OF submitted_inv _ j(2) this, of sample_config] j show ?thesis by auto
qed

end
