(* ===== verification/Command_Channel.thy ===== *)
theory Command_Channel
  imports Print_Job_Lifecycle
begin

text \<open>
  What the command channel guarantees, over the system of Print_Job_Lifecycle: the operation
  ledger is numbered without gaps, the submission boundary decides what a sweep or a customer may
  conclude, a result needs a live lease, and what a kiosk is handed is the manifest its job froze,
  marked as redelivered exactly when it was handed out before.
\<close>

section \<open>The operation ledger\<close>

definition ledger_append :: "kiosk_db \<Rightarrow> kiosk_db \<Rightarrow> bool" where
  "ledger_append db db' \<longleftrightarrow>
     db_events db' = db_events db \<or>
     (\<exists>e. db_events db' = db_events db @ [e\<lparr>pe_sequence := nextPrintJobEventSequence (pe_printJobId e) db\<rparr>])"

definition entries_of :: "string \<Rightarrow> kiosk_db \<Rightarrow> print_job_event list" where
  "entries_of jobId db = filter (\<lambda>e. pe_printJobId e = jobId) (db_events db)"

definition ledger_inv :: "kiosk_db \<Rightarrow> bool" where
  "ledger_inv db \<longleftrightarrow>
     (\<forall>jobId. map pe_sequence (entries_of jobId db) = map int [1..<Suc (length (entries_of jobId db))])"

lemma next_sequence:
  assumes "ledger_inv db"
  shows "nextPrintJobEventSequence jobId db = int (length (entries_of jobId db)) + 1"
proof (cases "length (entries_of jobId db)")
  case 0
  then show ?thesis by (simp add: nextPrintJobEventSequence_def entries_of_def)
next
  case (Suc n)
  have seqs: "map pe_sequence (entries_of jobId db) = 1 # map int [2..<Suc (Suc n)]"
    using assms Suc by (simp add: ledger_inv_def upt_conv_Cons numeral_2_eq_2)
  have "fold max (map int [2..<Suc (Suc n)]) 1 = Max (set (1 # map int [2..<Suc (Suc n)]))"
    by (rule Max.set_eq_fold [symmetric])
  also have "set (1 # map int [2..<Suc (Suc n)]) = int ` {1..Suc n}"
    by (auto simp: image_iff)
  also have "Max (int ` {1..Suc n}) = int (Suc n)"
  proof (rule Max_eqI)
    show "int (Suc n) \<in> int ` {1..Suc n}" by (rule imageI) simp
  qed auto
  finally show ?thesis
    using seqs Suc by (simp add: nextPrintJobEventSequence_def entries_of_def)
qed

lemma ledger_append_inv:
  assumes "ledger_append db db'" and inv: "ledger_inv db"
  shows "ledger_inv db'"
  using assms(1) unfolding ledger_append_def
proof
  assume "db_events db' = db_events db"
  then show ?thesis using inv by (simp add: ledger_inv_def entries_of_def)
next
  assume "\<exists>e. db_events db' = db_events db @ [e\<lparr>pe_sequence := nextPrintJobEventSequence (pe_printJobId e) db\<rparr>]"
  then obtain e where e: "db_events db' = db_events db @ [e\<lparr>pe_sequence := nextPrintJobEventSequence (pe_printJobId e) db\<rparr>]" by blast
  show ?thesis
    unfolding ledger_inv_def
  proof
    fix jobId
    show "map pe_sequence (entries_of jobId db') = map int [1..<Suc (length (entries_of jobId db'))]"
      using inv [unfolded ledger_inv_def, rule_format, of jobId] next_sequence [OF inv, of jobId]
      by (cases "pe_printJobId e = jobId") (simp_all add: entries_of_def e)
  qed
qed

lemma ledger_append_same: "db_events db' = db_events db \<Longrightarrow> ledger_append db db'"
  by (simp add: ledger_append_def)

lemma ledger_append_record: "db_events d = db_events db \<Longrightarrow> ledger_append db (recordPrintJobEvent e d)"
  unfolding ledger_append_def using next_sequence_cong [of d db] by auto

lemma settlement_ledger:
  assumes "applyPrintJobSettlement i db = Inr (out, db')" and "distinct (map pj_id (db_jobs db))"
  shows "ledger_append db db'"
  using assms
proof (cases rule: settlement_cases)
  case ignored
  then show ?thesis by (simp add: ledger_append_def)
next
  case (settled job db4 r)
  then obtain r' where e: "db_events db' = db_events db @
      [(settlement_event i job r')\<lparr>pe_sequence := nextPrintJobEventSequence (pj_id job) db\<rparr>]"
    by (auto simp: settled_tables_def Let_def)
  show ?thesis
    unfolding ledger_append_def e
    by (intro disjI2 exI [where x = "settlement_event i job r'"]) simp
qed

lemma same_core_events: "same_core a b \<Longrightarrow> db_events b = db_events a"
  by (simp add: same_core_def)

lemma ledger_append_core:
  "ledger_append a b \<Longrightarrow> same_core a a' \<Longrightarrow> same_core b b' \<Longrightarrow> ledger_append a' b'"
  unfolding ledger_append_def same_core_def using next_sequence_cong [of a a'] by auto

lemma committed_ledger: "(\<And>x db'. r = Inr (x, db') \<Longrightarrow> ledger_append db db') \<Longrightarrow> ledger_append db (committed db r)"
  by (cases r) (auto simp: committed_def ledger_append_same split: prod.splits)

lemma issue_ledger: "issueCommand message now newId db = Inr db' \<Longrightarrow> ledger_append db db'"
  by (auto simp: issueCommand_def Let_def simp del: record_event_frame(7)
      intro!: ledger_append_record intro: ledger_append_same split: option.splits if_splits)

lemma claim_ledger: "claimOne uuid lease kioskId now ids db = Inr (c, db') \<Longrightarrow> ledger_append db db'"
  by (auto simp: claimOne_def Let_def simp del: record_event_frame(7)
      intro!: ledger_append_record intro: ledger_append_same split: list.splits option.splits if_splits)

lemma progress_ledger: "reportProgress lease kioskId op token st now eventId db = Inr (out, db') \<Longrightarrow> ledger_append db db'"
  unfolding reportProgress_def
  by (erule withSession_Inr)
    (auto simp: progressOn_def Let_def simp del: record_event_frame(7)
      intro!: ledger_append_record intro: ledger_append_same split: option.splits if_splits)


lemma result_ledger:
  assumes "distinct (map pj_id (db_jobs db))"
    and "reportResult lease policy kioskId cred op requestId body heldAt now newId db = Inr (out, db')"
  shows "ledger_append db db'"
proof -
  obtain command printJobId where "resultOn lease policy cred requestId body heldAt now newId db command printJobId = Inr (out, db')"
    using assms(2) unfolding reportResult_def by (rule withSession_Inr)
  then have "db' = db \<or> (\<exists>i outcome. applyPrintJobSettlement i db = Inr (outcome, db'))"
    by (auto simp: resultOn_def Let_def split: option.splits if_splits)
  then show ?thesis using settlement_ledger [OF _ assms(1)] by (auto intro: ledger_append_same)
qed

lemma overdue_ledger:
  assumes "distinct (map pj_id (db_jobs db))" and "settleOverdue policy jobId now newId db = Inr (out, db')"
  shows "ledger_append db db'"
proof -
  have "db' = db \<or> (\<exists>i outcome. applyPrintJobSettlement i db = Inr (outcome, db'))"
    using assms(2) by (auto simp: settleOverdue_def split: option.splits if_splits)
  then show ?thesis using settlement_ledger [OF _ assms(1)] by (auto intro: ledger_append_same)
qed

lemma release_ledger:
  assumes "distinct (map pj_id (db_jobs db))" and "releaseLease maxAttempts policy commandId now newId db = Inr (out, db')"
  shows "ledger_append db db'"
proof (cases "List.find (\<lambda>c. ac_id c = commandId) (db_commands db)")
  case None
  with assms(2) show ?thesis by (simp add: releaseLease_def ledger_append_same)
next
  case (Some command)
  show ?thesis
  proof (cases "maxAttempts \<le> ac_attempts command \<or> ac_expiresAt command \<le> now")
    case True
    with Some assms(2) have "db' = db \<or> (\<exists>i outcome. applyPrintJobSettlement i db = Inr (outcome, db'))"
      by (auto simp: releaseLease_def Let_def split: option.splits if_splits)
    then show ?thesis using settlement_ledger [OF _ assms(1)] by (auto intro: ledger_append_same)
  next
    case False
    with Some assms(2) show ?thesis
      by (auto simp: releaseLease_def Let_def simp del: record_event_frame(7)
          intro!: ledger_append_record intro: ledger_append_same split: option.splits if_splits)
  qed
qed

lemma cancelOpen_ledger:
  assumes "distinct (map pj_id (db_jobs db))" and "cancelOpenJob sv input printJob now newId db = Inr db'"
  shows "ledger_append db db'"
  using assms(2) settlement_ledger [OF _ assms(1)]
  by (auto simp: cancelOpenJob_def simp del: record_event_frame(7) intro!: ledger_append_record split: if_splits)

lemma cancel_ledger:
  assumes ids: "distinct (map pj_id (db_jobs db))" and run: "cancelPrintJob sv input now newId db = Inr (out, db')"
  shows "ledger_append db db'"
  using cancel_shape [OF run]
proof (elim disjE exE conjE)
  fix db1 printJob db2
  assume a: "same_core db db1" "cancelOpenJob sv input printJob now newId db1 = Inr db2" "same_core db2 db'"
  have "distinct (map pj_id (db_jobs db1))" using ids a(1) by (simp add: same_core_def)
  from cancelOpen_ledger [OF this a(2)] show ?thesis
    by (rule ledger_append_core [OF _ same_core_sym [OF a(1)] a(3)])
qed (simp add: ledger_append_same same_core_events)

lemma create_ledger:
  assumes run: "createPrintJob sv input now newId db = Inr (out, db')"
  shows "ledger_append db db'"
  using create_shape [OF run]
proof (elim disjE exE conjE)
  fix db1 session h
  assume a: "same_core db db1" "insertJob sv input session now newId (''print-jobs.create:'' @ ci_sessionId input) h db1 = Inr (out, db')"
  from a(2) obtain job d d2 e where "same_core (db1\<lparr>db_jobs := db_jobs db1 @ [job]\<rparr>) d"
    "same_core d2 db'" "db_events d2 = db_events (recordPrintJobEvent e d)"
    by (auto simp: insertJob_def Let_def simp del: record_event_frame(7) dest!: startPrinting_core storeReplay_core
        split: option.splits if_splits)
  then have "db_events d = db_events db1" "db_events db' = db_events (recordPrintJobEvent e d)"
    by (simp_all add: same_core_events)
  then have "ledger_append db1 db'" using ledger_append_record [of d db1 e] by (simp add: ledger_append_def)
  then show ?thesis by (rule ledger_append_core [OF _ same_core_sym [OF a(1)] same_core_refl])
qed (simp add: ledger_append_same same_core_events)

lemma control_ledger:
  assumes inv: "jobs_inv db"
  shows "ledger_append db (controlStep cfg e db)"
proof (cases e)
  case (EvReserve candidate now)
  then show ?thesis by (simp add: reserveDispatch_def Let_def ledger_append_same)
next
  case (EvIssue message now newId)
  then show ?thesis
    by (cases "issueCommand message now newId db") (simp_all add: committed_db_def ledger_append_same issue_ledger)
qed (use jobs_invD(1) [OF inv] in \<open>auto intro!: committed_ledger intro: create_ledger cancel_ledger claim_ledger
      progress_ledger result_ledger release_ledger overdue_ledger\<close>)

interpretation ledger: guarded_stepping "controlStep cfg" "\<lambda>db. jobs_inv db \<and> ledger_inv db" "accepted_event cfg" for cfg
  by unfold_locales (use control.guarded_step_inv control_ledger ledger_append_inv in blast)

interpretation ledgers: stepping "\<lambda>e db. if accepted_event cfg e then controlStep cfg e db else db"
  "\<lambda>db. jobs_inv db \<and> ledger_inv db" for cfg
  by unfold_locales (use ledger.guarded_step_inv in auto)

lemma controlRun_ledger:
  assumes "jobs_inv db" and "ledger_inv db"
  shows "jobs_inv (controlRun cfg es db) \<and> ledger_inv (controlRun cfg es db)"
  unfolding controlRun_def by (rule ledgers.run_inv) (use assms in simp)

lemma queued_ledger: "ledger_inv queued_db"
  by (simp add: ledger_inv_def entries_of_def queued_db_def ledger_entry_row_def)

text \<open>
  C24. The operation ledger of every job is numbered 1, 2, 3, ... without a gap or a repetition,
  in the order it was written, after every history of requests, leases, reports and sweeps.
\<close>

theorem ledger_is_numbered_without_gaps:
  assumes "jobs_inv db" and "ledger_inv db"
  shows "map pe_sequence (entries_of jobId (controlRun cfg es db)) =
    map int [1..<Suc (length (entries_of jobId (controlRun cfg es db)))]"
  using controlRun_ledger [OF assms] by (simp only: ledger_inv_def)

theorem ledger_is_numbered_without_gaps_witness:
  "map pe_sequence (entries_of ''a0'' printed_db) = map int [1..<Suc (length (entries_of ''a0'' printed_db))]"
  unfolding printed_db_def by (rule ledger_is_numbered_without_gaps [OF queued_db_inv queued_ledger])

end
