(* ===== verification/Command_Leases.thy ===== *)
theory Command_Leases
  imports Submission_Boundary
begin

text \<open>
  What the kiosk is handed, over the system of Print_Job_Lifecycle. Every command carries the
  manifest its job froze and the hash of that manifest; its operation identifier is unique; and it
  counts the leases the ledger records, so a second hand-out is always marked as one. A finished command
  stays finished over every history, until the clean-up of its session removes it (\<open>scrubCommands\<close>), so a
  result that has counted never counts again.
\<close>

section \<open>The invariant of the commands\<close>

definition frozen :: "print_job_row \<Rightarrow> string \<times> print_job_manifest \<times> string" where
  "frozen j = (pj_id j, pj_jobManifest j, pj_jobManifestHash j)"

definition op_core :: "command_row \<Rightarrow> string \<times> string \<times> string option \<times> command_payload \<times> nat" where
  "op_core c = (ac_id c, ac_operationId c, ac_printJobId c, ac_payload c, ac_attempts c)"

definition claims :: "string \<Rightarrow> print_job_event list \<Rightarrow> nat" where
  "claims op es = length (filter (\<lambda>e. pe_type e = L_CLAIMED \<and> pe_operationId e = Some op) es)"

definition carries_its_job :: "kiosk_db \<Rightarrow> command_row \<Rightarrow> bool" where
  "carries_its_job db c \<longleftrightarrow>
     (\<exists>i. ac_printJobId c = Some i \<and>
        (i, cp_manifest (ac_payload c), cp_manifestHash (ac_payload c)) \<in> frozen ` set (db_jobs db))"

definition hashed :: "print_service \<Rightarrow> string \<times> print_job_manifest \<times> string \<Rightarrow> bool" where
  "hashed sv f \<longleftrightarrow> (case f of (i, m, h) \<Rightarrow> h = hashPrintManifest sv m \<and> printJobManifestSchema (sv_uuid sv) m)"

definition command_inv :: "print_service \<Rightarrow> kiosk_db \<Rightarrow> bool" where
  "command_inv sv db \<longleftrightarrow>
     (\<forall>j \<in> set (db_jobs db). hashed sv (frozen j)) \<and>
     distinct (map ac_id (db_commands db)) \<and> distinct (map ac_operationId (db_commands db)) \<and>
     (\<forall>c \<in> set (db_commands db). carries_its_job db c \<and> ac_attempts c = claims (ac_operationId c) (db_events db)) \<and>
     (\<forall>e \<in> set (db_events db). pe_type e = L_CLAIMED \<longrightarrow> (\<exists>c \<in> set (db_commands db). pe_operationId e = Some (ac_operationId c)))"

lemma command_invD:
  assumes "command_inv sv db"
  shows "j \<in> set (db_jobs db) \<Longrightarrow> hashed sv (frozen j)"
    "distinct (map ac_id (db_commands db))" "distinct (map ac_operationId (db_commands db))"
    "c \<in> set (db_commands db) \<Longrightarrow> carries_its_job db c"
    "c \<in> set (db_commands db) \<Longrightarrow> ac_attempts c = claims (ac_operationId c) (db_events db)"
    "e \<in> set (db_events db) \<Longrightarrow> pe_type e = L_CLAIMED \<Longrightarrow> \<exists>c \<in> set (db_commands db). pe_operationId e = Some (ac_operationId c)"
  using assms unfolding command_inv_def by blast+

section \<open>Steps that hand nothing out\<close>

text \<open>Most events leave the identity of jobs and commands alone and record no lease.\<close>

definition quiet :: "kiosk_db \<Rightarrow> kiosk_db \<Rightarrow> bool" where
  "quiet db db' \<longleftrightarrow>
     map frozen (db_jobs db') = map frozen (db_jobs db) \<and> map op_core (db_commands db') = map op_core (db_commands db) \<and>
     (\<exists>es. db_events db' = db_events db @ es \<and> list_all (\<lambda>e. pe_type e \<noteq> L_CLAIMED) es)"

lemma claims_append [simp]: "claims op (es @ fs) = claims op es + claims op fs"
  by (simp add: claims_def)

lemma claims_none: "list_all (\<lambda>e. pe_type e \<noteq> L_CLAIMED) es \<Longrightarrow> claims op es = 0"
  by (auto simp: claims_def list_all_iff filter_empty_conv)

lemma quiet_same: "db_jobs db' = db_jobs db \<Longrightarrow> db_commands db' = db_commands db \<Longrightarrow> db_events db' = db_events db \<Longrightarrow> quiet db db'"
  by (auto simp: quiet_def intro: exI [where x = "[]"])

lemma quiet_core: "quiet a b \<Longrightarrow> same_core a a' \<Longrightarrow> same_core b b' \<Longrightarrow> quiet a' b'"
  by (simp add: quiet_def same_core_def)

lemma quiet_record:
  assumes "map frozen (db_jobs d) = map frozen (db_jobs db)" "map op_core (db_commands d) = map op_core (db_commands db)"
    "db_events d = db_events db" "pe_type e \<noteq> L_CLAIMED"
  shows "quiet db (recordPrintJobEvent e d)"
  unfolding quiet_def using assms
  by (auto intro!: exI [where x = "[e\<lparr>pe_sequence := nextPrintJobEventSequence (pe_printJobId e) d\<rparr>]"])

lemma image_map_eq: "map f xs = map g ys \<Longrightarrow> x \<in> set xs \<Longrightarrow> \<exists>y \<in> set ys. g y = f x"
  by (metis (no_types, lifting) image_iff image_set list.set_map)

lemma quiet_inv:
  assumes q: "quiet db db'" and inv: "command_inv sv db"
  shows "command_inv sv db'"
proof -
  obtain es where es: "db_events db' = db_events db @ es" "list_all (\<lambda>e. pe_type e \<noteq> L_CLAIMED) es"
    using q by (auto simp: quiet_def)
  have jobs: "map frozen (db_jobs db') = map frozen (db_jobs db)" and cmds: "map op_core (db_commands db') = map op_core (db_commands db)"
    using q by (simp_all add: quiet_def)
  have rows: "frozen ` set (db_jobs db') = frozen ` set (db_jobs db)"
    using jobs by (metis list.set_map)
  have "map fst (map op_core (db_commands db')) = map fst (map op_core (db_commands db))"
    "map (fst \<circ> snd) (map op_core (db_commands db')) = map (fst \<circ> snd) (map op_core (db_commands db))"
    using cmds by simp_all
  then have ids: "map ac_id (db_commands db') = map ac_id (db_commands db)"
    "map ac_operationId (db_commands db') = map ac_operationId (db_commands db)"
    by (simp_all add: comp_def op_core_def)
  have old: "\<exists>c \<in> set (db_commands db). op_core c = op_core c'" if "c' \<in> set (db_commands db')" for c'
    using image_map_eq [OF cmds that] by blast
  have new: "\<exists>c' \<in> set (db_commands db'). op_core c' = op_core c" if "c \<in> set (db_commands db)" for c
    using image_map_eq [OF cmds [symmetric] that] by blast
  show ?thesis
    unfolding command_inv_def
  proof (intro conjI ballI impI)
    fix j assume "j \<in> set (db_jobs db')"
    from image_map_eq [OF jobs this] show "hashed sv (frozen j)" using command_invD(1) [OF inv] by metis
  next
    fix c' assume "c' \<in> set (db_commands db')"
    then obtain c where c: "c \<in> set (db_commands db)" "op_core c = op_core c'" using old by blast
    then show "carries_its_job db' c'"
      using command_invD(4) [OF inv c(1)] by (simp add: carries_its_job_def op_core_def rows)
    show "ac_attempts c' = claims (ac_operationId c') (db_events db')"
      using command_invD(5) [OF inv c(1)] c(2) by (auto simp: op_core_def es claims_none)
  next
    fix e assume "e \<in> set (db_events db')" "pe_type e = L_CLAIMED"
    then have "e \<in> set (db_events db)" using es by (auto simp: list_all_iff)
    then obtain c where "c \<in> set (db_commands db)" "pe_operationId e = Some (ac_operationId c)"
      using command_invD(6) [OF inv] \<open>pe_type e = L_CLAIMED\<close> by blast
    with new show "\<exists>c \<in> set (db_commands db'). pe_operationId e = Some (ac_operationId c)"
      by (metis Pair_inject op_core_def)
  qed (simp_all add: ids command_invD(2,3) [OF inv])
qed

lemma frozen_updated [simp]: "(\<And>j. frozen (f j) = frozen j) \<Longrightarrow> map frozen (updated p f xs) = map frozen xs"
  by (simp add: map_updated)

lemma op_core_updated [simp]: "(\<And>c. op_core (f c) = op_core c) \<Longrightarrow> map op_core (updated p f xs) = map op_core xs"
  by (simp add: map_updated)

lemma core_simps [simp]:
  "frozen (settle_job st now j) = frozen j" "op_core (close_command st now c) = op_core c"
  by (simp_all add: frozen_def op_core_def settle_job_def close_command_def)

lemma settlement_quiet:
  assumes run: "applyPrintJobSettlement i db = Inr (out, db')" and ids: "distinct (map pj_id (db_jobs db))"
    and type: "si_ledgerType i \<noteq> L_CLAIMED"
  shows "quiet db db'"
  using run ids
proof (cases rule: settlement_cases)
  case (settled job db4 r)
  then obtain r' where "db_events db' = db_events db @ [(settlement_event i job r')\<lparr>pe_sequence := nextPrintJobEventSequence (pj_id job) db\<rparr>]"
    by (auto simp: settled_tables_def Let_def)
  with settled(5) type show ?thesis
    by (simp add: quiet_def settled_tables_def Let_def settlement_event_def ledger_entry_row_def)
qed (simp add: quiet_same)

lemma settlement_or_same_quiet:
  assumes "db' = db \<or> (\<exists>i out. applyPrintJobSettlement i db = Inr (out, db') \<and> si_ledgerType i \<noteq> L_CLAIMED)"
    and "distinct (map pj_id (db_jobs db))"
  shows "quiet db db'"
  using assms settlement_quiet by (auto intro: quiet_same)

lemma ledgerTypeFor_claimed [simp]: "ledgerTypeFor st \<noteq> L_CLAIMED"
  by (cases st) simp_all

lemma entry_type [simp]: "pe_type (ledger_entry_row i j t s n) = t"
  by (simp add: ledger_entry_row_def)

lemma result_quiet:
  assumes ids: "distinct (map pj_id (db_jobs db))"
    and run: "reportResult lease policy kioskId cred op requestId body heldAt now newId db = Inr (out, db')"
  shows "quiet db db'"
proof -
  obtain command printJobId where "resultOn lease policy cred requestId body heldAt now newId db command printJobId = Inr (out, db')"
    using run unfolding reportResult_def by (rule withSession_Inr)
  then have "db' = db \<or> (\<exists>i out. applyPrintJobSettlement i db = Inr (out, db') \<and> si_ledgerType i \<noteq> L_CLAIMED)"
    by (fastforce simp: resultOn_def Let_def split: option.splits if_splits)
  then show ?thesis by (rule settlement_or_same_quiet [OF _ ids])
qed

lemma overdue_quiet:
  assumes ids: "distinct (map pj_id (db_jobs db))" and run: "settleOverdue policy jobId now newId db = Inr (out, db')"
  shows "quiet db db'"
proof -
  have "db' = db \<or> (\<exists>i out. applyPrintJobSettlement i db = Inr (out, db') \<and> si_ledgerType i \<noteq> L_CLAIMED)"
    using run by (fastforce simp: settleOverdue_def split: option.splits if_splits)
  then show ?thesis by (rule settlement_or_same_quiet [OF _ ids])
qed

lemma release_quiet:
  assumes ids: "distinct (map pj_id (db_jobs db))" and run: "releaseLease maxAttempts policy commandId now newId db = Inr (out, db')"
  shows "quiet db db'"
proof (cases "List.find (\<lambda>c. ac_id c = commandId) (db_commands db)")
  case (Some command)
  show ?thesis
  proof (cases "maxAttempts \<le> ac_attempts command \<or> ac_expiresAt command \<le> now")
    case True
    with Some run have "db' = db \<or> (\<exists>i out. applyPrintJobSettlement i db = Inr (out, db') \<and> si_ledgerType i \<noteq> L_CLAIMED)"
      by (fastforce simp: releaseLease_def Let_def split: option.splits if_splits)
    then show ?thesis by (rule settlement_or_same_quiet [OF _ ids])
  next
    case False
    have [simp]: "op_core (c\<lparr>ac_status := a, ac_claimToken := t, ac_leaseExpiresAt := l, ac_availableAt := v\<rparr>) = op_core c" for c a t l v
      by (simp add: op_core_def)
    from False Some run show ?thesis
      by (auto simp: releaseLease_def Let_def simp del: record_event_frame(7)
          intro!: quiet_record split: option.splits if_splits) (auto simp: quiet_def intro: quiet_same)
  qed
qed (use run in \<open>simp add: releaseLease_def quiet_same\<close>)

lemma reserve_quiet: "quiet db (snd (reserveDispatch candidate now db))"
  by (simp add: reserveDispatch_def Let_def quiet_def frozen_def)

lemma progress_quiet:
  assumes "reportProgress lease kioskId op token st now eventId db = Inr (out, db')"
  shows "quiet db db'"
proof -
  obtain command printJobId where run: "progressOn lease token st now eventId db command printJobId = Inr (out, db')"
    using assms unfolding reportProgress_def by (rule withSession_Inr)
  have [simp]: "op_core (c\<lparr>ac_leaseExpiresAt := l\<rparr>) = op_core c" "frozen (j\<lparr>pj_status := s, pj_startedAt := t\<rparr>) = frozen j" for c j l s t
    by (simp_all add: op_core_def frozen_def)
  from run show ?thesis
    by (auto simp: progressOn_def Let_def simp del: record_event_frame(7)
        intro!: quiet_record split: option.splits if_splits) (auto simp: quiet_def intro: quiet_same)
qed

lemma cancelOpen_quiet:
  assumes ids: "distinct (map pj_id (db_jobs db))" and run: "cancelOpenJob sv input printJob now newId db = Inr db'"
  shows "quiet db db'"
proof (cases "pj_status printJob = JS_PRINTING")
  case True
  have [simp]: "frozen (j\<lparr>pj_cancelRequestedAt := t\<rparr>) = frozen j" for j t by (simp add: frozen_def)
  from True run show ?thesis
    by (auto simp: cancelOpenJob_def simp del: record_event_frame(7) intro!: quiet_record)
next
  case False
  then have "db' = db \<or> (\<exists>i out. applyPrintJobSettlement i db = Inr (out, db') \<and> si_ledgerType i \<noteq> L_CLAIMED)"
    using run by (fastforce simp: cancelOpenJob_def)
  then show ?thesis by (rule settlement_or_same_quiet [OF _ ids])
qed

lemma cancel_quiet:
  assumes ids: "distinct (map pj_id (db_jobs db))" and run: "cancelPrintJob sv input now newId db = Inr (out, db')"
  shows "quiet db db'"
  using cancel_shape [OF run]
proof (elim disjE exE conjE)
  fix db1 printJob db2
  assume a: "same_core db db1" "cancelOpenJob sv input printJob now newId db1 = Inr db2" "same_core db2 db'"
  have "distinct (map pj_id (db_jobs db1))" using ids a(1) by (simp add: same_core_def)
  from cancelOpen_quiet [OF this a(2)] show ?thesis by (rule quiet_core [OF _ same_core_sym [OF a(1)] a(3)])
qed (simp add: quiet_same same_core_def)

section \<open>Creating, issuing and leasing\<close>

lemma command_inv_created:
  assumes inv: "command_inv sv db" and "hashed sv (frozen job)"
  shows "command_inv sv (db\<lparr>db_jobs := db_jobs db @ [job]\<rparr>)"
  unfolding command_inv_def
proof (intro conjI ballI impI)
  fix c assume "c \<in> set (db_commands (db\<lparr>db_jobs := db_jobs db @ [job]\<rparr>))"
  then have "c \<in> set (db_commands db)" by simp
  then show "carries_its_job (db\<lparr>db_jobs := db_jobs db @ [job]\<rparr>) c"
    "ac_attempts c = claims (ac_operationId c) (db_events (db\<lparr>db_jobs := db_jobs db @ [job]\<rparr>))"
    using command_invD(4,5) [OF inv, of c] by (auto simp: carries_its_job_def)
qed (use command_invD [OF inv] assms(2) in auto)

lemma create_command_inv:
  assumes inv: "command_inv sv db" and run: "createPrintJob sv input now newId db = Inr (out, db')"
  shows "command_inv sv db'"
  using create_shape [OF run]
proof (elim disjE exE conjE)
  assume "same_core db db'"
  then show ?thesis by (intro quiet_inv [OF quiet_same inv]) (simp_all add: same_core_def)
next
  fix db1 session h
  assume a: "same_core db db1" "insertJob sv input session now newId (''print-jobs.create:'' @ ci_sessionId input) h db1 = Inr (out, db')"
  obtain job d e where j: "db_jobs db' = db_jobs db1 @ [job]" "db_events d = db_events db1"
    "db_events db' = db_events (recordPrintJobEvent e d)" "db_commands db' = db_commands db1" "pe_type e = L_CREATED"
    "pj_jobManifestHash job = hashPrintManifest sv (pj_jobManifest job)"
    "printJobManifestSchema (sv_uuid sv) (pj_jobManifest job)"
    using insert_shape [OF a(2)] by blast
  have "hashed sv (frozen job)" using j(6,7) by (simp add: hashed_def frozen_def)
  then have "command_inv sv (db\<lparr>db_jobs := db_jobs db @ [job]\<rparr>)" by (rule command_inv_created [OF inv])
  moreover have "quiet (db\<lparr>db_jobs := db_jobs db @ [job]\<rparr>) db'"
    using j a(1) by (auto simp: quiet_def same_core_def)
  ultimately show ?thesis by (rule quiet_inv [rotated])
qed

lemma command_inv_issued:
  assumes inv: "command_inv sv db" and c: "carries_its_job db c" "ac_attempts c = 0"
    and new: "ac_id c \<notin> ac_id ` set (db_commands db)" "ac_operationId c \<notin> ac_operationId ` set (db_commands db)"
  shows "command_inv sv (db\<lparr>db_commands := db_commands db @ [c]\<rparr>)"
proof -
  have "claims (ac_operationId c) (db_events db) = 0"
    unfolding claims_def length_0_conv filter_empty_conv
  proof (intro ballI notI)
    fix e assume e: "e \<in> set (db_events db)" "pe_type e = L_CLAIMED \<and> pe_operationId e = Some (ac_operationId c)"
    then obtain c' where "c' \<in> set (db_commands db)" "ac_operationId c' = ac_operationId c"
      using command_invD(6) [OF inv e(1)] by auto
    then show False using new(2) by (metis imageI)
  qed
  then show ?thesis
    unfolding command_inv_def using command_invD [OF inv] c new
    by (auto simp: carries_its_job_def)
qed

lemma issue_command_inv:
  assumes inv: "command_inv sv db" and run: "issueCommand message now newId db = Inr db'"
  shows "command_inv sv db'"
proof (cases "List.find (\<lambda>j. pj_id j = fst message) (db_jobs db)")
  case None
  with run inv show ?thesis by (simp add: issueCommand_def)
next
  case (Some printJob)
  have [simp]: "frozen (j\<lparr>pj_status := s, pj_dispatchedAt := t\<rparr>) = frozen j" for j s t by (simp add: frozen_def)
  define c where "c = \<lparr>ac_id = newId 0, ac_kioskId = pj_kioskId printJob, ac_sessionId = Some (pj_sessionId printJob),
                   ac_printJobId = Some (pj_id printJob), ac_operationId = newId 1, ac_status = CS_PENDING,
                   ac_payload = \<lparr>cp_manifest = pj_jobManifest printJob, cp_manifestHash = pj_jobManifestHash printJob,
                                 cp_simulatedOutcome = pj_simulatedOutcome printJob\<rparr>,
                   ac_attempts = 0, ac_availableAt = now, ac_claimToken = None, ac_claimedAt = None,
                   ac_leaseExpiresAt = None, ac_expiresAt = pj_deadlineAt printJob, ac_resultCode = None,
                   ac_completedAt = None, ac_createdAt = now\<rparr>"
  let ?new = "db\<lparr>db_commands := db_commands db @ [c]\<rparr>"
  have "carries_its_job db c"
    using imageI [of printJob "set (db_jobs db)" frozen] find_Some_set [OF Some]
    by (simp add: carries_its_job_def c_def frozen_def)
  define issuing where "issuing \<longleftrightarrow> pj_status printJob = JS_QUEUED \<and>
    List.find (\<lambda>c. ac_printJobId c = Some (pj_id printJob)) (db_commands db) = None"
  define base where "base = (if issuing then ?new else db)"
  define rows where "rows = updated (\<lambda>j. pj_id j = pj_id printJob \<and> pj_status j = JS_QUEUED)
    (\<lambda>j. j\<lparr>pj_status := JS_DISPATCHED, pj_dispatchedAt := Some now\<rparr>) (db_jobs db)"
  define entry where "entry = (ledger_entry_row (newId 2) (pj_id printJob) L_DISPATCHED JS_DISPATCHED now)
                  \<lparr>pe_detail := Some (JObj [(''attempt'', JNum (snd message))])\<rparr>"
  have shape: "db' = db \<and> \<not> issuing \<or> db' = base\<lparr>db_jobs := rows\<rparr> \<or> db' = recordPrintJobEvent entry (base\<lparr>db_jobs := rows\<rparr>)"
    using run Some
    by (auto simp: issueCommand_def Let_def base_def issuing_def rows_def entry_def c_def split: if_splits)
  have fresh: "issuing \<Longrightarrow> newId 0 \<notin> ac_id ` set (db_commands db) \<and> newId 1 \<notin> ac_operationId ` set (db_commands db)"
    using run Some by (auto simp: issueCommand_def Let_def issuing_def list_ex_iff split: if_splits)
  have base: "map frozen (db_jobs (base\<lparr>db_jobs := rows\<rparr>)) = map frozen (db_jobs base)"
    by (simp add: base_def rows_def)
  have "command_inv sv base"
  proof (cases issuing)
    case True
    have "command_inv sv ?new"
      by (rule command_inv_issued [OF inv \<open>carries_its_job db c\<close>]) (use fresh [OF True] in \<open>simp_all add: c_def\<close>)
    with True show ?thesis by (simp add: base_def)
  qed (simp add: base_def inv)
  moreover have "quiet base db'"
    using shape
  proof (elim disjE conjE)
    assume "db' = base\<lparr>db_jobs := rows\<rparr>"
    then show ?thesis using base by (simp add: quiet_def)
  next
    assume "db' = recordPrintJobEvent entry (base\<lparr>db_jobs := rows\<rparr>)"
    then show ?thesis using base by (simp only:) (rule quiet_record, simp_all add: entry_def)
  qed (simp add: base_def quiet_same)
  ultimately show ?thesis by (rule quiet_inv [rotated])
qed

text \<open>A lease is a hand-out: the command counts one attempt more and the ledger one lease more.\<close>

lemma claim_cases:
  assumes run: "claimOne uuid lease kioskId now ids db = Inr (out, db')" and unique: "distinct (map ac_id (db_commands db))"
  obtains (idle) "out = None" "db' = db"
  | (leased) c i t e lc where "c \<in> set (db_commands db)" "claimable kioskId now db c" "ac_printJobId c = Some i"
      "t = min (now + lease * 1000) (ac_expiresAt c)"
      "db_commands db' = updated (\<lambda>x. ac_id x = ac_id c)
         (\<lambda>x. x\<lparr>ac_status := CS_CLAIMED, ac_claimToken := Some (fst ids), ac_claimedAt := Some now,
               ac_leaseExpiresAt := Some t, ac_attempts := ac_attempts c + 1\<rparr>) (db_commands db)"
      "db_jobs db' = db_jobs db" "db_events db' = db_events db @ [e]" "pe_type e = L_CLAIMED"
      "pe_operationId e = Some (ac_operationId c)"
      "out = Some lc" "toAgentCommand uuid c i (fst ids) t (0 < ac_attempts c) = Inr lc"
proof -
  define cs where "cs = sort_key (\<lambda>c. (ac_availableAt c, ac_createdAt c)) (filter (claimable kioskId now db) (db_commands db))"
  have sub: "set cs = {c \<in> set (db_commands db). claimable kioskId now db c}" by (simp add: cs_def)
  show ?thesis
  proof (cases cs)
    case Nil
    then have none: "out = None" "db' = db" using run by (simp_all add: claimOne_def cs_def)
    show ?thesis by (rule idle [OF none])
  next
    case (Cons c rest)
    then have c: "c \<in> set (db_commands db)" "claimable kioskId now db c" using sub by auto
    then obtain i where i: "ac_printJobId c = Some i" by (auto simp: claimable_def split: option.splits)
    define t where "t = min (now + lease * 1000) (ac_expiresAt c)"
    let ?p = "\<lambda>x. ac_id x = ac_id c \<and> ac_status x = CS_PENDING \<and> ac_attempts x = ac_attempts c"
    have one: "length (filter ?p (db_commands db)) = 1"
      using filter_key_unique [OF unique c(1), of "\<lambda>x. ac_status x = CS_PENDING \<and> ac_attempts x = ac_attempts c"] c(2)
      by (simp add: claimable_def)
    have rows: "updated ?p f (db_commands db) = updated (\<lambda>x. ac_id x = ac_id c) f (db_commands db)" for f
      using key_unique [OF unique _ c(1)] c(2) by (intro updated_cong) (auto simp: claimable_def)
    define e where "e = (ledger_entry_row (snd ids) i L_CLAIMED JS_DISPATCHED now)
      \<lparr>pe_operationId := Some (ac_operationId c),
       pe_detail := Some (JObj [(''attempt'', JNum (int (ac_attempts c) + 1))])\<rparr>"
    define leased_rows where "leased_rows = updated (\<lambda>x. ac_id x = ac_id c)
         (\<lambda>x. x\<lparr>ac_status := CS_CLAIMED, ac_claimToken := Some (fst ids), ac_claimedAt := Some now,
               ac_leaseExpiresAt := Some t, ac_attempts := ac_attempts c + 1\<rparr>) (db_commands db)"
    obtain lc where lc: "toAgentCommand uuid c i (fst ids) t (0 < ac_attempts c) = Inr lc" "out = Some lc"
      "db' = recordPrintJobEvent e (db\<lparr>db_commands := leased_rows\<rparr>)"
      using run Cons one
      by (auto simp: claimOne_def Let_def i rows leased_rows_def e_def t_def cs_def [symmetric]
          simp del: Suc_eq_plus1 split: if_splits)
    show ?thesis
      by (rule leased [OF c i t_def _ _ _ _ _ lc(2,1)])
        (simp_all add: lc(3) leased_rows_def, simp_all add: e_def)
  qed
qed

lemma claim_command_inv:
  assumes inv: "command_inv sv db" and run: "claimOne uuid lease kioskId now ids db = Inr (out, db')"
  shows "command_inv sv db'"
  using run command_invD(2) [OF inv]
proof (cases rule: claim_cases)
  case idle
  then show ?thesis using inv by simp
next
  case (leased c i t e lc)
  define f where "f x = x\<lparr>ac_status := CS_CLAIMED, ac_claimToken := Some (fst ids), ac_claimedAt := Some now,
               ac_leaseExpiresAt := Some t, ac_attempts := ac_attempts c + 1\<rparr>" for x :: command_row
  have f: "ac_id (f x) = ac_id x" "ac_operationId (f x) = ac_operationId x" "carries_its_job db' (f x) = carries_its_job db x" for x
    by (simp_all add: f_def carries_its_job_def leased(6))
  have same: "carries_its_job db' x = carries_its_job db x" for x by (simp add: carries_its_job_def leased(6))
  have rows: "db_commands db' = updated (\<lambda>x. ac_id x = ac_id c) f (db_commands db)"
    using leased(5) by (simp add: f_def [abs_def])
  have claims': "claims op (db_events db') = claims op (db_events db) + (if op = ac_operationId c then 1 else 0)" for op
    by (simp add: leased(7-9) claims_def)
  show ?thesis
    unfolding command_inv_def
  proof (intro conjI ballI impI)
    fix x' assume "x' \<in> set (db_commands db')"
    then consider x where "x \<in> set (db_commands db)" "ac_id x = ac_id c" "x' = f x"
      | "x' \<in> set (db_commands db)" "ac_id x' \<noteq> ac_id c"
      by (auto simp: rows set_updated)
    then have "carries_its_job db' x' \<and> ac_attempts x' = claims (ac_operationId x') (db_events db')"
    proof cases
      case 1
      have "x = c" using key_unique [OF command_invD(2) [OF inv] 1(1) leased(1)] 1(2) by blast
      with 1 command_invD(4,5) [OF inv leased(1)] show ?thesis by (simp add: f claims') (simp add: f_def)
    next
      case 2
      have "ac_operationId x' \<noteq> ac_operationId c"
        using key_unique [OF command_invD(3) [OF inv] 2(1) leased(1)] 2(2) by blast
      with command_invD(4,5) [OF inv 2(1)] show ?thesis by (simp add: same claims')
    qed
    then show "carries_its_job db' x'" "ac_attempts x' = claims (ac_operationId x') (db_events db')" by blast+
  next
    fix e' assume e': "e' \<in> set (db_events db')" "pe_type e' = L_CLAIMED"
    have "\<exists>x \<in> set (db_commands db). pe_operationId e' = Some (ac_operationId x)"
      using e' command_invD(6) [OF inv] leased(1,7,9) by auto
    then obtain x where x: "x \<in> set (db_commands db)" "pe_operationId e' = Some (ac_operationId x)" by blast
    have "(if ac_id x = ac_id c then f x else x) \<in> set (db_commands db')" using x(1) by (auto simp: rows set_updated)
    with x(2) show "\<exists>x \<in> set (db_commands db'). pe_operationId e' = Some (ac_operationId x)"
      by (intro bexI) (auto simp: f)
  qed (use command_invD [OF inv] in \<open>simp_all add: rows leased(6) map_updated f\<close>)
qed

lemma committed_command_inv:
  "command_inv sv db \<Longrightarrow> (\<And>x db'. r = Inr (x, db') \<Longrightarrow> command_inv sv db') \<Longrightarrow> command_inv sv (committed db r)"
  by (cases r) (auto simp: committed_def split: prod.splits)

lemma control_command_inv:
  assumes inv: "jobs_inv db" and cmds: "command_inv (cc_service cfg) db"
  shows "command_inv (cc_service cfg) (controlStep cfg e db)"
proof (cases e)
  case (EvReserve candidate now)
  then show ?thesis using quiet_inv [OF reserve_quiet cmds] by simp
next
  case (EvIssue message now newId)
  then show ?thesis
    using cmds by (cases "issueCommand message now newId db") (simp_all add: committed_db_def issue_command_inv)
qed (use jobs_invD(1) [OF inv] in \<open>auto intro!: committed_command_inv cmds intro: create_command_inv [OF cmds] claim_command_inv [OF cmds]
      quiet_inv [OF _ cmds] cancel_quiet progress_quiet result_quiet release_quiet overdue_quiet\<close>)

interpretation commands: stepping "\<lambda>e db. if accepted_event cfg e then controlStep cfg e db else db"
  "\<lambda>db. jobs_inv db \<and> command_inv (cc_service cfg) db" for cfg
  by unfold_locales (use control_command_inv control.guarded_step_inv in auto)

lemma controlRun_commands:
  assumes "jobs_inv db" and "command_inv (cc_service cfg) db"
  shows "jobs_inv (controlRun cfg es db) \<and> command_inv (cc_service cfg) (controlRun cfg es db)"
  unfolding controlRun_def by (rule commands.run_inv) (use assms in simp)

section \<open>What a kiosk is handed\<close>

lemma leased_command_sound:
  assumes inv: "command_inv sv db" and run: "claimOne (sv_uuid sv) lease kioskId now ids db = Inr (Some lc, db')" and "0 < lease"
  shows "sv_sha256 sv (canonicalPrintManifestJson (cm_manifest (lc_command lc))) = cm_manifestHash (lc_command lc) \<and>
    printJobManifestSchema (sv_uuid sv) (cm_manifest (lc_command lc)) \<and>
    (cm_redelivered (lc_command lc) \<longleftrightarrow> 0 < claims (cm_operationId (lc_command lc)) (db_events db)) \<and>
    claims (cm_operationId (lc_command lc)) (db_events db') = claims (cm_operationId (lc_command lc)) (db_events db) + 1 \<and>
    now < lc_leaseExpiresAt lc \<and> cm_deadlineAt (lc_command lc) \<noteq> None \<and>
    lc_leaseExpiresAt lc \<le> the (cm_deadlineAt (lc_command lc)) \<and> job_is_open db (lc_printJobId lc) \<and>
    (\<exists>j \<in> set (db_jobs db). frozen j = (lc_printJobId lc, cm_manifest (lc_command lc), cm_manifestHash (lc_command lc)))"
  using run command_invD(2) [OF inv]
proof (cases rule: claim_cases)
  case (leased c i t e lc')
  have lc: "toAgentCommand (sv_uuid sv) c i (fst ids) t (0 < ac_attempts c) = Inr lc" using leased(10,11) by simp
  have cl: "now < ac_expiresAt c" "job_is_open db i" using leased(2,3) by (simp_all add: claimable_def)
  obtain j where j: "j \<in> set (db_jobs db)" "frozen j = (i, cp_manifest (ac_payload c), cp_manifestHash (ac_payload c))"
    using command_invD(4) [OF inv leased(1)] leased(3) by (auto simp: carries_its_job_def)
  then have f: "hashed sv (i, cp_manifest (ac_payload c), cp_manifestHash (ac_payload c))"
    using command_invD(1) [OF inv j(1)] by simp
  have "claims (ac_operationId c) (db_events db') = claims (ac_operationId c) (db_events db) + 1"
    by (simp add: leased(7-9) claims_def)
  moreover have "frozen j = (lc_printJobId lc, cm_manifest (lc_command lc), cm_manifestHash (lc_command lc))"
    using lc j(2) by (auto simp: toAgentCommand_def Let_def split: option.splits if_splits)
  ultimately show ?thesis using lc f cl command_invD(5) [OF inv leased(1)] leased(4) assms(3) j(1)
    by (auto simp: toAgentCommand_def Let_def hashed_def hashPrintManifest_def canonicalPrintManifestJson_def
        split: option.splits if_splits)
qed simp

definition interrupted_events :: "control_event list" where
  "interrupted_events =
     [EvReserve (''a0'', 0) 1100, EvIssue (''a0'', 1) 1200 (ids_from ''c''), EvClaim ''k'' 1300 (''t'', ''e1''),
      EvRelease ''c0'' 70000 (ids_from ''d'')]"

definition interrupted_db :: kiosk_db where
  "interrupted_db = controlRun sample_config interrupted_events queued_db"

text \<open>What a claim hands out, at a glance: the operation, whether it is redelivered, and how long it is leased.\<close>

definition handed :: "tx_error + (leased_command option \<times> kiosk_db) \<Rightarrow> (string \<times> bool \<times> db_time) option" where
  "handed r = (case r of Inr (Some lc, _) \<Rightarrow>
       Some (cm_operationId (lc_command lc), cm_redelivered (lc_command lc), lc_leaseExpiresAt lc) | _ \<Rightarrow> None)"

lemma interrupted_handed:
  "handed (claimOne (sv_uuid sample_service) 60 ''k'' 80000 (''t2'', ''e2'') interrupted_db) = Some (''c1'', True, 140000)"
  by code_simp

lemma handed_Some:
  assumes "handed r = Some (op, again, t)"
  obtains lc db' where "r = Inr (Some lc, db')" "cm_operationId (lc_command lc) = op" "cm_redelivered (lc_command lc) = again"
    "lc_leaseExpiresAt lc = t"
  using assms by (auto simp: handed_def split: sum.splits prod.splits option.splits)

lemma queued_commands: "command_inv sample_service queued_db"
proof -
  have "printJobManifestSchema (\<lambda>_. True) accepted_manifest" by code_simp
  then show ?thesis
    by (simp add: command_inv_def queued_db_def paid_db_def empty_db_def queued_job_def hashed_def frozen_def
        hashPrintManifest_def sample_service_def ledger_entry_row_def)
qed

section \<open>A result counts once\<close>

lemma renewed_cases:
  assumes "renewedLeaseExpiry lease commandId token now db \<noteq> None"
  obtains c t where "List.find (\<lambda>c. ac_id c = commandId) (db_commands db) = Some c" "ac_status c = CS_CLAIMED"
    "ac_claimToken c = Some token" "now < or_else (ac_leaseExpiresAt c) 0" "now < ac_expiresAt c"
  using assms by (auto simp: renewedLeaseExpiry_def not_le split: option.splits if_splits)

lemma result_cases:
  assumes run: "reportResult lease policy kioskId cred op requestId body heldAt now newId db = Inr ((accepted, st), db')"
    and ids: "distinct (map pj_id (db_jobs db))" and unique: "distinct (map ac_id (db_commands db))"
  obtains (refused) "\<not> accepted" "db' = db"
  | (counted) c i st' where "accepted" "c \<in> set (db_commands db)"
      "List.find (\<lambda>x. ac_operationId x = op \<and> ac_kioskId x = kioskId) (db_commands db) = Some c"
      "ac_printJobId c = Some i" "ac_sessionId c \<noteq> None"
      "ac_status c = CS_CLAIMED" "ac_claimToken c = Some (rb_claimToken body)"
      "heldAt < or_else (ac_leaseExpiresAt c) 0" "heldAt < ac_expiresAt c"
      "db_commands db' = updated (\<lambda>x. ac_printJobId x = Some i \<and> ac_status x \<in> {CS_PENDING, CS_CLAIMED})
         (close_command st' now) (db_commands db)"
      "\<exists>row. List.find (\<lambda>x. pj_id x = i) (db_jobs db') = Some row \<and> st = pj_status row \<and> \<not> isOpenPrintJobStatus st"
proof -
  obtain c i where c: "List.find (\<lambda>x. ac_operationId x = op \<and> ac_kioskId x = kioskId) (db_commands db) = Some c"
    "ac_printJobId c = Some i" "ac_sessionId c \<noteq> None"
    and on: "resultOn lease policy cred requestId body heldAt now newId db c i = Inr ((accepted, st), db')"
    using run by (auto simp: reportResult_def withSessionTransaction_def split: option.splits)
  have mem: "c \<in> set (db_commands db)" using find_Some_set [OF c(1)] by blast
  show ?thesis
  proof (cases "renewedLeaseExpiry lease (ac_id c) (rb_claimToken body) heldAt db = None")
    case True
    then have "\<not> accepted \<and> db' = db" using on by (auto simp: resultOn_def)
    then show ?thesis using refused by blast
  next
    case False
    then obtain c' where "List.find (\<lambda>x. ac_id x = ac_id c) (db_commands db) = Some c'" and held: "ac_status c' = CS_CLAIMED"
      "ac_claimToken c' = Some (rb_claimToken body)" "heldAt < or_else (ac_leaseExpiresAt c') 0" "heldAt < ac_expiresAt c'"
      by (rule renewed_cases)
    then have "c' = c" using find_key_unique [OF unique mem] by simp
    obtain j where "List.find (\<lambda>j. pj_id j = i) (db_jobs db) = Some j"
      using on False by (auto simp: resultOn_def split: option.splits)
    then obtain inp outcome where s: "applyPrintJobSettlement inp db = Inr (outcome, db')" "accepted = so_applied outcome"
      "si_printJobId inp = i" "si_now inp = now"
      and ack: "\<exists>row. List.find (\<lambda>x. pj_id x = i) (db_jobs db') = Some row \<and> st = pj_status row"
      using on False by (auto simp: resultOn_def Let_def)
    from s(1) ids show ?thesis
    proof (cases rule: settlement_cases)
      case ignored
      then show ?thesis using s(2) refused by (simp add: not_applied_def)
    next
      case (settled job db4 r)
      then have rows: "db_commands db' = updated (\<lambda>x. ac_printJobId x = Some i \<and> ac_status x \<in> {CS_PENDING, CS_CLAIMED})
         (close_command (si_settlement inp) now) (db_commands db)"
        using s(3,4) by (simp add: settled_tables_def Let_def)
      have "db_jobs db' = updated (\<lambda>j. pj_id j = i) (settle_job (si_settlement inp) now) (db_jobs db)"
        using settled s(3,4) by (simp add: settled_tables_def Let_def)
      then have shut: "\<not> isOpenPrintJobStatus (pj_status row)" if "row \<in> set (db_jobs db')" "pj_id row = i" for row
      proof -
        from that(1) obtain x where "row = (if pj_id x = i then settle_job (si_settlement inp) now x else x)"
          unfolding \<open>db_jobs db' = _\<close> updated_def set_map by blast
        with that(2) show ?thesis by (cases "pj_id x = i") simp_all
      qed
      from ack obtain row where row: "List.find (\<lambda>x. pj_id x = i) (db_jobs db') = Some row" "st = pj_status row" by blast
      with shut find_Some_set [OF row(1)]
      have closed: "\<exists>row. List.find (\<lambda>x. pj_id x = i) (db_jobs db') = Some row \<and> st = pj_status row \<and> \<not> isOpenPrintJobStatus st"
        by simp
      show ?thesis
        by (rule counted [OF _ mem c _ _ _ _ rows closed]) (use settled(4) s(2) held \<open>c' = c\<close> in simp_all)
    qed
  qed
qed

section \<open>A command that is finished stays finished\<close>

definition closed_command :: "command_row \<Rightarrow> bool" where
  "closed_command c \<longleftrightarrow> ac_status c \<notin> {CS_PENDING, CS_CLAIMED}"

definition closed_kept :: "kiosk_db \<Rightarrow> kiosk_db \<Rightarrow> bool" where
  "closed_kept db db' \<longleftrightarrow> (\<forall>c \<in> set (db_commands db). closed_command c \<longrightarrow> c \<in> set (db_commands db'))"

lemma closed_kept_refl: "closed_kept db db"
  by (simp add: closed_kept_def)

lemma closed_kept_trans: "closed_kept a b \<Longrightarrow> closed_kept b c \<Longrightarrow> closed_kept a c"
  by (simp add: closed_kept_def)

lemma closed_kept_same: "db_commands db' = db_commands db \<Longrightarrow> closed_kept db db'"
  by (simp add: closed_kept_def)

lemma closed_kept_core: "closed_kept a b \<Longrightarrow> same_core a a' \<Longrightarrow> same_core b b' \<Longrightarrow> closed_kept a' b'"
  by (simp add: closed_kept_def same_core_def)

lemma closed_kept_updated:
  "db_commands db' = updated p f (db_commands db) \<Longrightarrow> (\<And>c. p c \<Longrightarrow> \<not> closed_command c) \<Longrightarrow> closed_kept db db'"
  by (auto simp: closed_kept_def set_updated)

lemma closed_kept_append: "db_commands db' = db_commands db @ [c] \<Longrightarrow> closed_kept db db'"
  by (simp add: closed_kept_def)

lemma settlement_closed:
  assumes "applyPrintJobSettlement i db = Inr (out, db')" and "distinct (map pj_id (db_jobs db))"
  shows "closed_kept db db'"
  using assms
proof (cases rule: settlement_cases)
  case (settled job db4 r)
  then have "db_commands db' = updated (\<lambda>c. ac_printJobId c = Some (pj_id job) \<and> ac_status c \<in> {CS_PENDING, CS_CLAIMED})
      (close_command (si_settlement i) (si_now i)) (db_commands db)"
    by (simp add: settled_tables_def Let_def)
  then show ?thesis by (rule closed_kept_updated) (simp add: closed_command_def)
qed (simp add: closed_kept_same)

lemma result_closed:
  assumes ids: "distinct (map pj_id (db_jobs db))"
    and run: "reportResult lease policy kioskId cred op requestId body heldAt now newId db = Inr (out, db')"
  shows "closed_kept db db'"
proof -
  obtain command printJobId where "resultOn lease policy cred requestId body heldAt now newId db command printJobId = Inr (out, db')"
    using run unfolding reportResult_def by (rule withSession_Inr)
  then have "db' = db \<or> (\<exists>i out. applyPrintJobSettlement i db = Inr (out, db'))"
    by (fastforce simp: resultOn_def Let_def split: option.splits if_splits)
  then show ?thesis using settlement_closed [OF _ ids] closed_kept_refl by blast
qed

lemma overdue_closed:
  assumes ids: "distinct (map pj_id (db_jobs db))" and run: "settleOverdue policy jobId now newId db = Inr (out, db')"
  shows "closed_kept db db'"
proof -
  have "db' = db \<or> (\<exists>i out. applyPrintJobSettlement i db = Inr (out, db'))"
    using run by (fastforce simp: settleOverdue_def split: option.splits if_splits)
  then show ?thesis using settlement_closed [OF _ ids] closed_kept_refl by blast
qed

text \<open>The guarded updates of the channel touch only commands that wait or are leased.\<close>

lemma closed_kept_guarded:
  assumes "db_commands db' = db_commands db \<or> db_commands db' = snd (update_many p f (db_commands db))"
    and "\<And>c. p c \<Longrightarrow> \<not> closed_command c"
  shows "closed_kept db db'"
  using assms by (auto simp: closed_kept_def set_updated)

lemma release_closed:
  assumes ids: "distinct (map pj_id (db_jobs db))" and run: "releaseLease maxAttempts policy commandId now newId db = Inr (out, db')"
  shows "closed_kept db db'"
proof (cases "List.find (\<lambda>c. ac_id c = commandId) (db_commands db)")
  case (Some command)
  show ?thesis
  proof (cases "maxAttempts \<le> ac_attempts command \<or> ac_expiresAt command \<le> now")
    case True
    with Some run have "db' = db \<or> (\<exists>i out. applyPrintJobSettlement i db = Inr (out, db'))"
      by (fastforce simp: releaseLease_def Let_def split: option.splits if_splits)
    then show ?thesis using settlement_closed [OF _ ids] closed_kept_refl by blast
  next
    case False
    with Some run show ?thesis
      by (intro closed_kept_guarded [where p = "\<lambda>c. ac_id c = ac_id command \<and> ac_status c = CS_CLAIMED \<and> ac_claimToken c = ac_claimToken command"
          and f = "\<lambda>c. c\<lparr>ac_status := CS_PENDING, ac_claimToken := None, ac_leaseExpiresAt := None, ac_availableAt := now\<rparr>"])
        (auto simp: releaseLease_def Let_def closed_command_def split: option.splits if_splits)
  qed
qed (use run in \<open>simp add: releaseLease_def closed_kept_same\<close>)

lemma progress_closed:
  assumes "reportProgress lease kioskId op token st now eventId db = Inr (out, db')"
  shows "closed_kept db db'"
proof -
  obtain command printJobId where run: "progressOn lease token st now eventId db command printJobId = Inr (out, db')"
    using assms unfolding reportProgress_def by (rule withSession_Inr)
  show ?thesis
  proof (cases "renewedLeaseExpiry lease (ac_id command) token now db")
    case None
    then show ?thesis using run by (auto simp: progressOn_def acknowledge_def closed_kept_refl split: option.splits)
  next
    case (Some t)
    define p where "p = (\<lambda>c :: command_row. ac_id c = ac_id command \<and> ac_status c = CS_CLAIMED \<and> ac_claimToken c = Some token
      \<and> (case ac_leaseExpiresAt c of None \<Rightarrow> False | Some t \<Rightarrow> now < t) \<and> now < ac_expiresAt c)"
    have "db_commands db' = snd (update_many p (\<lambda>c. c\<lparr>ac_leaseExpiresAt := Some t\<rparr>) (db_commands db))"
      using run unfolding progressOn_def Let_def p_def [symmetric] Some option.case
      by (auto simp: acknowledge_def split: option.splits if_splits)
    then show ?thesis by (intro closed_kept_guarded [of _ _ p, OF disjI2]) (auto simp: p_def closed_command_def)
  qed
qed

lemma claim_closed:
  assumes "claimOne uuid lease kioskId now ids db = Inr (out, db')"
  shows "closed_kept db db'"
proof (cases "sort_key (\<lambda>c. (ac_availableAt c, ac_createdAt c)) (filter (claimable kioskId now db) (db_commands db))")
  case (Cons c rest)
  show ?thesis
    by (rule closed_kept_guarded [where p = "\<lambda>x. ac_id x = ac_id c \<and> ac_status x = CS_PENDING \<and> ac_attempts x = ac_attempts c" and
          f = "\<lambda>x. x\<lparr>ac_status := CS_CLAIMED, ac_claimToken := Some (fst ids), ac_claimedAt := Some now,
            ac_leaseExpiresAt := Some (min (now + lease * 1000) (ac_expiresAt c)), ac_attempts := ac_attempts c + 1\<rparr>"])
      (use assms Cons in \<open>auto simp: claimOne_def Let_def closed_command_def split: option.splits if_splits\<close>)
qed (use assms in \<open>simp add: claimOne_def closed_kept_same\<close>)

lemma issue_closed: "issueCommand message now newId db = Inr db' \<Longrightarrow> closed_kept db db'"
  by (auto simp: issueCommand_def Let_def closed_kept_def split: option.splits if_splits)

lemma cancel_closed:
  assumes ids: "distinct (map pj_id (db_jobs db))" and run: "cancelPrintJob sv input now newId db = Inr (out, db')"
  shows "closed_kept db db'"
  using cancel_shape [OF run]
proof (elim disjE exE conjE)
  fix db1 printJob db2
  assume a: "same_core db db1" "cancelOpenJob sv input printJob now newId db1 = Inr db2" "same_core db2 db'"
  have ids1: "distinct (map pj_id (db_jobs db1))" using ids a(1) by (simp add: same_core_def)
  have "closed_kept db1 db2"
    using a(2) settlement_closed [OF _ ids1]
    by (fastforce simp: cancelOpenJob_def intro: closed_kept_same split: if_splits)
  then show ?thesis by (rule closed_kept_core [OF _ same_core_sym [OF a(1)] a(3)])
qed (simp add: closed_kept_same same_core_def)

lemma create_closed:
  assumes run: "createPrintJob sv input now newId db = Inr (out, db')"
  shows "closed_kept db db'"
  using create_shape [OF run]
proof (elim disjE exE conjE)
  fix db1 session h
  assume a: "same_core db db1" "insertJob sv input session now newId (''print-jobs.create:'' @ ci_sessionId input) h db1 = Inr (out, db')"
  from insert_shape [OF a(2)] a(1) show ?thesis by (auto simp: same_core_def intro: closed_kept_same)
qed (simp add: closed_kept_same same_core_def)

lemma committed_closed: "(\<And>x db'. r = Inr (x, db') \<Longrightarrow> closed_kept db db') \<Longrightarrow> closed_kept db (committed db r)"
  by (cases r) (auto simp: committed_def closed_kept_refl split: prod.splits)

lemma control_closed:
  assumes "jobs_inv db"
  shows "closed_kept db (controlStep cfg e db)"
proof (cases e)
  case (EvReserve candidate now)
  then show ?thesis by (intro closed_kept_same) (simp add: reserveDispatch_def Let_def)
next
  case (EvIssue message now newId)
  then show ?thesis
    by (cases "issueCommand message now newId db") (simp_all add: committed_db_def issue_closed closed_kept_refl)
qed (use jobs_invD(1) [OF assms] in \<open>auto intro!: committed_closed intro: create_closed claim_closed cancel_closed progress_closed
      result_closed release_closed overdue_closed\<close>)

interpretation finished: monotone_stepping "\<lambda>e db. if accepted_event cfg e then controlStep cfg e db else db" jobs_inv closed_kept
  for cfg
proof
  fix e :: control_event and db :: kiosk_db
  assume inv: "jobs_inv db"
  show "closed_kept db (if accepted_event cfg e then controlStep cfg e db else db)"
    using control_closed [OF inv] closed_kept_refl by simp
qed (fact closed_kept_refl, fact closed_kept_trans)

section \<open>The commands of a cleaned session\<close>

text \<open>
  \<^verbatim>\<open>services/worker/src/jobs/cleanup-session.ts\<close>, of \<open>scrubMetadata\<close>: finished commands of the session go
  with its documents. (A third finished status that the code names here, it writes nowhere.)
\<close>

definition scrubCommands :: "string \<Rightarrow> kiosk_db \<Rightarrow> kiosk_db" where
  "scrubCommands sessionId db =
     db\<lparr>db_commands := filter (\<lambda>c. \<not> (ac_sessionId c = Some sessionId \<and> ac_status c \<in> {CS_COMPLETED, CS_FAILED})) (db_commands db)\<rparr>"

text \<open>A report for a finished command changes nothing, and for one that is gone neither.\<close>

lemma closed_refused:
  assumes c: "c \<in> set (db_commands db)" "closed_command c" "ac_operationId c = op" "ac_kioskId c = kioskId"
    "ac_printJobId c = Some i" "ac_sessionId c \<noteq> None"
    and unique: "distinct (map ac_id (db_commands db))" "distinct (map ac_operationId (db_commands db))"
    and job: "List.find (\<lambda>x. pj_id x = i) (db_jobs db) = Some row"
  shows "reportResult lease policy kioskId cred op requestId body heldAt now newId db = Inr ((False, pj_status row), db)"
proof -
  have f: "List.find (\<lambda>x. ac_operationId x = op \<and> ac_kioskId x = kioskId) (db_commands db) = Some c"
  proof (rule find_filter_head)
    show "filter (\<lambda>x. ac_operationId x = op \<and> ac_kioskId x = kioskId) (db_commands db) = [c]"
      using filter_key_unique [OF unique(2) c(1), of "\<lambda>x. ac_kioskId x = kioskId"] c(3,4) by simp
  qed
  have "List.find (\<lambda>x. ac_id x = ac_id c) (db_commands db) = Some c" by (rule find_key_unique [OF unique(1) c(1)])
  then have "renewedLeaseExpiry lease (ac_id c) (rb_claimToken body) heldAt db = None"
    using c(2) by (auto simp: renewedLeaseExpiry_def closed_command_def)
  then have "resultOn lease policy cred requestId body heldAt now newId db c i = Inr ((False, pj_status row), db)"
    by (simp add: resultOn_def acknowledge_def job)
  then show ?thesis using f c(5,6) by (auto simp: reportResult_def withSessionTransaction_def)
qed

lemma gone_refused:
  assumes "\<forall>x \<in> set (db_commands db). ac_operationId x \<noteq> op"
  shows "reportResult lease policy kioskId cred op requestId body heldAt now newId db = Inl operationNotFound"
proof -
  have "List.find (\<lambda>x. ac_operationId x = op \<and> ac_kioskId x = kioskId) (db_commands db) = None"
    using assms by (auto simp: find_None_iff)
  then show ?thesis by (simp add: reportResult_def withSessionTransaction_def)
qed

lemma scrubbed_refused:
  assumes c: "c \<in> set (db_commands db)" "closed_command c" "ac_operationId c = op" "ac_kioskId c = kioskId"
    "ac_printJobId c = Some i" "ac_sessionId c = Some sid"
    and unique: "distinct (map ac_id (db_commands db))" "distinct (map ac_operationId (db_commands db))"
    and job: "List.find (\<lambda>x. pj_id x = i) (db_jobs db) = Some row"
  shows "reportResult lease policy kioskId cred op requestId body heldAt now newId (scrubCommands s db) =
    (if s = sid then Inl operationNotFound else Inr ((False, pj_status row), scrubCommands s db))"
proof (cases "s = sid")
  case True
  have "ac_status c \<in> {CS_COMPLETED, CS_FAILED}" using c(2) by (cases "ac_status c") (simp_all add: closed_command_def)
  then have "\<forall>x \<in> set (db_commands (scrubCommands s db)). ac_operationId x \<noteq> op"
  proof (intro ballI notI)
    fix x assume x: "x \<in> set (db_commands (scrubCommands s db))" "ac_operationId x = op"
    then have "x \<in> set (db_commands db)" "\<not> (ac_sessionId x = Some s \<and> ac_status x \<in> {CS_COMPLETED, CS_FAILED})"
      by (simp_all add: scrubCommands_def)
    moreover from this(1) have "x = c" by (rule key_unique [OF unique(2) _ c(1)]) (simp add: x(2) c(3))
    ultimately show False using \<open>ac_status c \<in> _\<close> c(6) True by simp
  qed
  with True show ?thesis by (simp add: gone_refused)
next
  case False
  have "reportResult lease policy kioskId cred op requestId body heldAt now newId (scrubCommands s db) =
      Inr ((False, pj_status row), scrubCommands s db)"
    by (rule closed_refused [of c]) (use c unique job False in \<open>simp_all add: scrubCommands_def distinct_map_filter\<close>)
  with False show ?thesis by simp
qed

section \<open>The properties of the channel\<close>

text \<open>
  C14. What a kiosk is handed, after every history: a command carries the manifest its own job froze when it was
  created, at whatever earlier moment one looks at that job, and the hash stored with it; the schema accepts
  the manifest and the hash the agent checks is the hash of that very manifest; the job is open, the lease is
  live and ends no later than the deadline; and the command is marked as redelivered exactly when the ledger
  says the operation was handed out before.
\<close>

theorem kiosk_is_handed_what_was_paid_for:
  assumes "jobs_inv db" and "command_inv (cc_service cfg) db" and "0 < lease" and "db1 = controlRun cfg (es @ fs) db"
    and "claimOne (sv_uuid (cc_service cfg)) lease kioskId now ids db1 = Inr (Some lc, db')"
  shows "(\<exists>j \<in> set (db_jobs db1). pj_id j = lc_printJobId lc) \<and>
    (\<forall>j \<in> set (db_jobs (controlRun cfg es db)) \<union> set (db_jobs db1). pj_id j = lc_printJobId lc \<longrightarrow>
       cm_manifest (lc_command lc) = pj_jobManifest j \<and> cm_manifestHash (lc_command lc) = pj_jobManifestHash j) \<and>
    sv_sha256 (cc_service cfg) (canonicalPrintManifestJson (cm_manifest (lc_command lc))) = cm_manifestHash (lc_command lc) \<and>
    printJobManifestSchema (sv_uuid (cc_service cfg)) (cm_manifest (lc_command lc)) \<and>
    (cm_redelivered (lc_command lc) \<longleftrightarrow> 0 < claims (cm_operationId (lc_command lc)) (db_events db1)) \<and>
    claims (cm_operationId (lc_command lc)) (db_events db') = claims (cm_operationId (lc_command lc)) (db_events db1) + 1 \<and>
    now < lc_leaseExpiresAt lc \<and> cm_deadlineAt (lc_command lc) \<noteq> None \<and>
    lc_leaseExpiresAt lc \<le> the (cm_deadlineAt (lc_command lc)) \<and> job_is_open db1 (lc_printJobId lc)"
proof -
  have inv: "jobs_inv db1" "command_inv (cc_service cfg) db1" unfolding assms(4) using controlRun_commands [OF assms(1,2)] by blast+
  note sound = leased_command_sound [OF inv(2) assms(5,3)]
  then obtain j0 where j0: "j0 \<in> set (db_jobs db1)" "pj_id j0 = lc_printJobId lc" "pj_jobManifest j0 = cm_manifest (lc_command lc)"
    "pj_jobManifestHash j0 = cm_manifestHash (lc_command lc)" by (auto simp: frozen_def)
  have now: "j = j0" if "j \<in> set (db_jobs db1)" "pj_id j = lc_printJobId lc" for j
    using key_unique [OF jobs_invD(1) [OF inv(1)] that(1) j0(1)] that(2) j0(2) by simp
  have before: "pj_jobManifest j = pj_jobManifest j0 \<and> pj_jobManifestHash j = pj_jobManifestHash j0"
    if j: "j \<in> set (db_jobs (controlRun cfg es db))" "pj_id j = lc_printJobId lc" for j
  proof -
    obtain j' where "j' \<in> set (db_jobs db1)" "later_row j j'"
      using controlRun_kept [OF assms(1), of cfg es fs] j(1) unfolding assms(4) outcomes_kept_def by blast
    then show ?thesis using now [of j'] j(2) by (auto simp: later_row_def)
  qed
  have "cm_manifest (lc_command lc) = pj_jobManifest j \<and> cm_manifestHash (lc_command lc) = pj_jobManifestHash j"
    if "j \<in> set (db_jobs (controlRun cfg es db)) \<union> set (db_jobs db1)" "pj_id j = lc_printJobId lc" for j
    using that before [of j] now [of j] j0(3,4) unfolding Un_iff by metis
  then show ?thesis using sound j0(1,2) by blast
qed

theorem kiosk_is_handed_what_was_paid_for_witness:
  "\<exists>lc db'. claimOne (sv_uuid sample_service) 60 ''k'' 80000 (''t2'', ''e2'') interrupted_db = Inr (Some lc, db') \<and>
    cm_redelivered (lc_command lc) \<and> 0 < claims ''c1'' (db_events interrupted_db) \<and>
    sv_sha256 sample_service (canonicalPrintManifestJson (cm_manifest (lc_command lc))) = cm_manifestHash (lc_command lc)"
proof -
  have cfg: "cc_service sample_config = sample_service" by (simp add: sample_config_def)
  obtain lc db' where lc: "claimOne (sv_uuid sample_service) 60 ''k'' 80000 (''t2'', ''e2'') interrupted_db = Inr (Some lc, db')"
    "cm_operationId (lc_command lc) = ''c1''" "cm_redelivered (lc_command lc)"
    using interrupted_handed by (rule handed_Some) simp
  have "interrupted_db = controlRun sample_config ([] @ interrupted_events) queued_db" by (simp add: interrupted_db_def)
  from kiosk_is_handed_what_was_paid_for [OF queued_db_inv _ _ this, unfolded cfg, OF queued_commands _ lc(1)] lc
  show ?thesis by auto
qed

text \<open>
  C22. A result counts once, and only under a live lease: a report that is accepted came with the
  token of a lease that had not expired, on a command before its deadline; and once it is accepted, then
  after whatever requests, leases, reports and sweeps follow, every later report for that operation, with
  whatever token and content, is acknowledged as not accepted, with the status the job settled in, and
  changes nothing. When the clean-up of the session has removed the command by then, the report is
  answered as not found instead, and changes nothing either. A report that is not accepted changes nothing.
\<close>

theorem result_counts_once_under_a_live_lease:
  assumes "jobs_inv db" and "command_inv (cc_service cfg) db"
    and "reportResult lease policy kioskId cred op requestId body heldAt now newId db = Inr ((accepted, st), db')"
    and "reportAgentCommandResultBodySchema (sv_uuid (cc_service cfg)) (rb_claimToken body) (rb_result body)"
    and "db2 = controlRun cfg es db'"
  shows "(\<not> accepted \<and> db' = db) \<or>
    (accepted \<and>
      (\<exists>c sid. c \<in> set (db_commands db) \<and> ac_operationId c = op \<and> ac_kioskId c = kioskId \<and> ac_status c = CS_CLAIMED \<and>
         ac_claimToken c = Some (rb_claimToken body) \<and> heldAt < or_else (ac_leaseExpiresAt c) 0 \<and> heldAt < ac_expiresAt c \<and>
         ac_sessionId c = Some sid \<and>
         reportResult lease policy kioskId cred' op requestId' body' heldAt' now' newId' db2 = Inr ((False, st), db2) \<and>
         reportResult lease policy kioskId cred' op requestId' body' heldAt' now' newId' (scrubCommands s db2) =
           (if s = sid then Inl operationNotFound else Inr ((False, st), scrubCommands s db2))))"
  using assms(3) jobs_invD(1) [OF assms(1)] command_invD(2) [OF assms(2)]
proof (cases rule: result_cases)
  case (counted c i st')
  have key: "ac_operationId c = op" "ac_kioskId c = kioskId" using find_Some_set [OF counted(3)] by simp_all
  obtain sid where sid: "ac_sessionId c = Some sid" using counted(5) by blast
  obtain row where row: "List.find (\<lambda>x. pj_id x = i) (db_jobs db') = Some row" "st = pj_status row" "\<not> isOpenPrintJobStatus st"
    using counted(11) by blast
  have start: "jobs_inv db'" "command_inv (cc_service cfg) db'"
    using job_step_inv [OF result_step [OF assms(1,4,3)] assms(1)]
      quiet_inv [OF result_quiet [OF jobs_invD(1) [OF assms(1)] assms(3)] assms(2)] by blast+
  have inv: "jobs_inv db2" "command_inv (cc_service cfg) db2"
    using controlRun_commands [OF start] unfolding assms(5) by blast+
  have "row \<in> set (db_jobs db2)" "pj_id row = i"
    using controlRun_kept [OF start(1), of cfg "[]" es] find_Some_set [OF row(1)] row(2,3)
    unfolding assms(5) by (auto simp: controlRun_def outcomes_kept_def later_row_def)
  then have job: "List.find (\<lambda>x. pj_id x = i) (db_jobs db2) = Some row"
    using find_key_unique [OF jobs_invD(1) [OF inv(1)]] by blast
  define c' where "c' = close_command st' now c"
  have "c' \<in> set (db_commands db')"
    using counted(2,4,6) unfolding c'_def counted(10) set_updated by blast
  moreover have "closed_command c'" by (simp add: c'_def closed_command_def close_command_def)
  ultimately have mem: "c' \<in> set (db_commands db2)" "closed_command c'"
    using finished.run_le [OF start(1), of cfg es] unfolding assms(5) controlRun_def closed_kept_def by blast+
  have fields: "ac_operationId c' = op" "ac_kioskId c' = kioskId" "ac_printJobId c' = Some i" "ac_sessionId c' = Some sid"
    using key counted(4) sid by (simp_all add: c'_def close_command_def)
  note unique = command_invD(2,3) [OF inv(2)]
  have "reportResult lease policy kioskId cred' op requestId' body' heldAt' now' newId' db2 = Inr ((False, st), db2)"
    using closed_refused [OF mem fields(1-3) _ unique job] fields(4) row(2) by simp
  moreover have "reportResult lease policy kioskId cred' op requestId' body' heldAt' now' newId' (scrubCommands s db2) =
      (if s = sid then Inl operationNotFound else Inr ((False, st), scrubCommands s db2))"
    using scrubbed_refused [OF mem fields unique job] row(2) by simp
  ultimately show ?thesis using counted key sid by blast
qed simp

definition sample_body :: result_body where
  "sample_body = \<lparr>rb_claimToken = ''t'', rb_result =
     \<lparr>dr_state = D_COMPLETED, dr_confidence = CONFIRMED, dr_failureCode = None, dr_warningCode = None,
      dr_sheetsProduced = Some 2\<rparr>, rb_deviceDiagnostics = None\<rparr>"

lemma submitted_report:
  "map_option fst (case reportResult 60 DEFAULT_RETENTION_POLICY ''k'' ''c'' ''c1'' ''r'' sample_body 1500 1500 (ids_from ''d'') submitted_db
     of Inr r \<Rightarrow> Some r | Inl _ \<Rightarrow> None) = Some (True, JS_COMPLETED)"
  by code_simp

lemma submitted_commands: "command_inv sample_service submitted_db"
proof -
  have "cc_service sample_config = sample_service" by (simp add: sample_config_def)
  then show ?thesis
    unfolding submitted_db_def using controlRun_commands [OF queued_db_inv, of sample_config] queued_commands by simp
qed

theorem result_counts_once_under_a_live_lease_witness:
  "\<exists>db'. reportResult 60 DEFAULT_RETENTION_POLICY ''k'' ''c'' ''c1'' ''r'' sample_body 1500 1500 (ids_from ''d'') submitted_db =
      Inr ((True, JS_COMPLETED), db') \<and>
    reportResult 60 DEFAULT_RETENTION_POLICY ''k'' ''c'' ''c1'' ''r2'' sample_body 1600 1600 (ids_from ''e'')
      (controlRun sample_config [EvOverdue ''a0'' 1550 (ids_from ''f'')] db') =
      Inr ((False, JS_COMPLETED), controlRun sample_config [EvOverdue ''a0'' 1550 (ids_from ''f'')] db')"
proof -
  have cfg: "cc_service sample_config = sample_service" by (simp add: sample_config_def)
  obtain db' where r: "reportResult 60 DEFAULT_RETENTION_POLICY ''k'' ''c'' ''c1'' ''r'' sample_body 1500 1500 (ids_from ''d'') submitted_db =
      Inr ((True, JS_COMPLETED), db')"
    using submitted_report by (auto split: sum.splits)
  have body: "reportAgentCommandResultBodySchema (sv_uuid sample_service) (rb_claimToken sample_body) (rb_result sample_body)"
    by code_simp
  from result_counts_once_under_a_live_lease [where cfg = sample_config, unfolded cfg, OF submitted_inv submitted_commands r body refl,
      of "''c''" "''r2''" sample_body 1600 1600 "ids_from ''e''" "[EvOverdue ''a0'' 1550 (ids_from ''f'')]" "''s''"]
  have "reportResult 60 DEFAULT_RETENTION_POLICY ''k'' ''c'' ''c1'' ''r2'' sample_body 1600 1600 (ids_from ''e'')
      (controlRun sample_config [EvOverdue ''a0'' 1550 (ids_from ''f'')] db') =
      Inr ((False, JS_COMPLETED), controlRun sample_config [EvOverdue ''a0'' 1550 (ids_from ''f'')] db')" by blast
  with r show ?thesis by blast
qed

end
