(* ===== verification/Overdue_Sweep.thy ===== *)
theory Overdue_Sweep
  imports Submission_Boundary
begin

text \<open>
  Liveness of the sweeps of \<^verbatim>\<open>dispatch-print.ts\<close>: while the clock is within the range of a date and the
  retention policy is valid, no transaction of a pass fails, and a pass leaves no job open past its
  deadline, as long as a batch holds those that are overdue. A paid job therefore never stays open
  because a device is silent.
\<close>

section \<open>Settlements that cannot fail\<close>

definition sweep_clock_ok :: "retention_policy \<Rightarrow> db_time \<Rightarrow> bool" where
  "sweep_clock_ok policy now \<longleftrightarrow>
     assertPolicy policy = Inr () \<and> 0 \<le> now \<and> now + MAX_UPLOAD_ARTIFACT_SETTLE_MILLISECONDS \<le> 8640000000000000 \<and>
     now + rp_settledGraceMilliseconds policy \<le> 8640000000000000 \<and>
     now + rp_recoveryGraceMilliseconds policy \<le> 8640000000000000"

lemma assertPolicy_nonneg:
  "assertPolicy policy = Inr () \<Longrightarrow> 0 \<le> rp_settledGraceMilliseconds policy \<and> 0 \<le> rp_recoveryGraceMilliseconds policy"
  by (simp add: assertPolicy_def require_def split: if_splits)

lemma schedule_succeeds:
  assumes "sweep_clock_ok policy now" and "ts \<in> {T_COMPLETED, T_FAILED, T_RECOVERY_REQUIRED}"
  shows "\<exists>db'. scheduleSessionFilesForCleanup sid now (Some (ts, Some policy)) db = Inr db'"
proof -
  obtain t where t: "cleanupDueAt ts (Some now) policy = Inr (Some t)" "0 \<le> t" "t \<le> 8640000000000000"
    using assms assertPolicy_nonneg [of policy]
    by (auto simp: sweep_clock_ok_def cleanupDueAt_def retentionGraceMilliseconds_def make_date_def)
  have "db_date (now + MAX_UPLOAD_ARTIFACT_SETTLE_MILLISECONDS) = Inr (now + MAX_UPLOAD_ARTIFACT_SETTLE_MILLISECONDS)"
    using assms(1) by (simp add: sweep_clock_ok_def db_date_def make_date_def MAX_UPLOAD_ARTIFACT_SETTLE_MILLISECONDS_def)
  moreover have "\<exists>v. db_date (max t (now + PROCESSING_ARTIFACT_SETTLE_MILLISECONDS)) = Inr v"
    using assms(1) t by (simp add: sweep_clock_ok_def db_date_def make_date_def
        MAX_UPLOAD_ARTIFACT_SETTLE_MILLISECONDS_def PROCESSING_ARTIFACT_SETTLE_MILLISECONDS_def)
  ultimately show ?thesis
    using t(1) by (auto simp: scheduleSessionFilesForCleanup_def or_else_def)
qed

lemma settleSession_succeeds:
  assumes "sweep_clock_ok (si_retentionPolicy i) (si_now i)"
  shows "\<exists>r. settleSession i job refundId db = Inr r"
proof -
  have "\<exists>d'. scheduleSessionFilesForCleanup sid (si_now i)
      (Some (terminal_state_of s, Some (si_retentionPolicy i))) d = Inr d'" for sid s d
    by (rule schedule_succeeds [OF assms]) (simp add: terminal_state_of_def)
  then have "scheduleSessionFilesForCleanup sid (si_now i)
      (Some (terminal_state_of s, Some (si_retentionPolicy i))) d \<noteq> Inl e" for sid s d e
    by (metis Inl_Inr_False)
  then show ?thesis
    by (auto simp: settleSession_def Let_def bind_result_def split: option.split sum.split)
qed

lemma settlement_succeeds:
  assumes "sweep_clock_ok (si_retentionPolicy i) (si_now i)"
  shows "\<exists>out db'. applyPrintJobSettlement i db = Inr (out, db')"
  using settleSession_succeeds [OF assms]
  by (simp add: applyPrintJobSettlement_def Let_def split: option.split prod.split)

section \<open>What a sweep leaves open\<close>

definition sweeps :: "kiosk_db \<Rightarrow> kiosk_db \<Rightarrow> bool" where
  "sweeps db db' \<longleftrightarrow>
     map pj_id (db_jobs db') = map pj_id (db_jobs db) \<and>
     (\<forall>j \<in> set (db_jobs db'). isOpenPrintJobStatus (pj_status j) \<longrightarrow> j \<in> set (db_jobs db))"

lemma sweeps_refl: "sweeps db db"
  by (simp add: sweeps_def)

lemma sweeps_same: "db_jobs db' = db_jobs db \<Longrightarrow> sweeps db db'"
  by (simp add: sweeps_def)

lemma sweeps_trans: "sweeps a b \<Longrightarrow> sweeps b c \<Longrightarrow> sweeps a c"
  by (simp add: sweeps_def)

lemma settled_closed [simp]: "\<not> isOpenPrintJobStatus (job_status_of st)"
  by (cases st) (simp_all add: open_defs)

lemma settlement_sweeps:
  assumes run: "applyPrintJobSettlement i db = Inr (out, db')" and ids: "distinct (map pj_id (db_jobs db))"
  shows "sweeps db db' \<and>
    (\<forall>j \<in> set (db_jobs db'). pj_id j = si_printJobId i \<longrightarrow> \<not> isOpenPrintJobStatus (pj_status j))"
  using run ids
proof (cases rule: settlement_cases)
  case ignored
  then show ?thesis by (auto simp: sweeps_refl)
next
  case (settled job db4 r)
  then have rows: "db_jobs db' = updated (\<lambda>j. pj_id j = pj_id job) (settle_job (si_settlement i) (si_now i)) (db_jobs db)"
    by (simp add: settled_tables_def Let_def)
  then have "map pj_id (db_jobs db') = map pj_id (db_jobs db)" by (simp add: map_updated)
  then show ?thesis using settled(2) by (auto simp: sweeps_def rows set_updated)
qed

lemma overdue_sweeps:
  assumes ids: "distinct (map pj_id (db_jobs db))" and clock: "sweep_clock_ok policy now"
  shows "\<exists>did db'. settleOverdue policy x now newId db = Inr (did, db') \<and> sweeps db db' \<and>
    (\<forall>j \<in> set (db_jobs db'). pj_id j = x \<longrightarrow> isOpenPrintJobStatus (pj_status j) \<longrightarrow> now < pj_deadlineAt j)"
proof (cases "List.find (\<lambda>j. pj_id j = x) (db_jobs db)")
  case None
  then have "settleOverdue policy x now newId db = Inr (False, db)" by (simp add: settleOverdue_def)
  with None show ?thesis by (auto simp: sweeps_refl find_None_iff)
next
  case (Some job)
  show ?thesis
  proof (cases "now < pj_deadlineAt job")
    case True
    have "j = job" if "j \<in> set (db_jobs db)" "pj_id j = x" for j
      using key_unique [OF ids that(1)] find_Some_set [OF Some] that(2) by blast
    with Some True show ?thesis by (auto simp: settleOverdue_def sweeps_refl)
  next
    case False
    define i where "i = \<lparr>si_printJobId = pj_id job,
                 si_settlement = sweepSettlement (pj_status job = JS_PRINTING) ''JOB_DEADLINE_EXCEEDED'',
                 si_operationId = map_option ac_operationId
                   (List.find (\<lambda>c. ac_printJobId c = Some (pj_id job)) (db_commands db)),
                 si_ledgerType = L_DEADLINE_EXCEEDED, si_actorType = ''SYSTEM'', si_actorId = ''print-dispatcher'',
                 si_requestId = None, si_now = now, si_newId = newId, si_retentionPolicy = policy,
                 si_deviceDiagnostics = None\<rparr>"
    obtain out db' where run: "applyPrintJobSettlement i db = Inr (out, db')"
      using settlement_succeeds [of i db] clock by (auto simp: i_def)
    with Some False have "settleOverdue policy x now newId db = Inr (so_applied out, db')"
      by (simp add: settleOverdue_def i_def)
    moreover have "si_printJobId i = x" using find_Some_set [OF Some] by (simp add: i_def)
    ultimately show ?thesis using settlement_sweeps [OF run ids] by auto
  qed
qed

lemma release_sweeps:
  assumes ids: "distinct (map pj_id (db_jobs db))" and clock: "sweep_clock_ok policy now"
  shows "\<exists>did db'. releaseLease maxAttempts policy x now newId db = Inr (did, db') \<and> sweeps db db'"
proof -
  have ok: "\<exists>out db'. applyPrintJobSettlement i db = Inr (out, db')" if "si_retentionPolicy i = policy" "si_now i = now" for i
    using settlement_succeeds [of i db] clock that by simp
  then have "applyPrintJobSettlement i db \<noteq> Inl e" if "si_retentionPolicy i = policy" "si_now i = now" for i e
    using that by (metis Inl_Inr_False)
  then have "\<exists>did db'. releaseLease maxAttempts policy x now newId db = Inr (did, db')"
    by (auto simp: releaseLease_def Let_def bind_result_def split: option.split sum.split prod.split)
  then obtain did db' where run: "releaseLease maxAttempts policy x now newId db = Inr (did, db')" by blast
  from release_cases [OF run] have "sweeps db db'"
    using settlement_sweeps [OF _ ids] by (auto intro: sweeps_same)
  with run show ?thesis by blast
qed

section \<open>One pass\<close>

text \<open>A loop of such steps reaches its end, and every item's own guarantee survives the later items.\<close>

lemma sweepLoop_sweeps:
  assumes step: "\<And>x d. x \<in> set xs \<Longrightarrow> distinct (map pj_id (db_jobs d)) \<Longrightarrow>
      \<exists>did d'. one x d = Inr (did, d') \<and> sweeps d d' \<and> (\<forall>j \<in> set (db_jobs d'). pj_id j = x \<longrightarrow> Q j)"
    and closed: "\<And>j. \<not> isOpenPrintJobStatus (pj_status j) \<Longrightarrow> Q j"
    and "distinct (map pj_id (db_jobs db))"
  shows "\<exists>n' db'. sweepLoop one xs n db = (Inr n', db') \<and> sweeps db db' \<and>
    (\<forall>j \<in> set (db_jobs db'). pj_id j \<in> set xs \<longrightarrow> Q j)"
  using assms(1,3)
proof (induction xs arbitrary: n db)
  case Nil
  then show ?case by (simp add: sweeps_refl)
next
  case (Cons x xs)
  obtain did d where d: "one x db = Inr (did, d)" "sweeps db d" "\<forall>j \<in> set (db_jobs d). pj_id j = x \<longrightarrow> Q j"
    using Cons.prems by (metis list.set_intros(1))
  have "distinct (map pj_id (db_jobs d))" using d(2) Cons.prems(2) by (simp add: sweeps_def)
  then obtain n' db' where r: "sweepLoop one xs (if did then n + 1 else n) d = (Inr n', db')" "sweeps d db'"
    "\<forall>j \<in> set (db_jobs db'). pj_id j \<in> set xs \<longrightarrow> Q j"
    using Cons.IH [of d "if did then n + 1 else n"] Cons.prems(1) by (metis list.set_intros(2))
  have "Q j" if "j \<in> set (db_jobs db')" "pj_id j = x" for j
    using that d(3) r(2) closed [of j] by (cases "isOpenPrintJobStatus (pj_status j)") (auto simp: sweeps_def)
  with d(1,2) r show ?case by (auto intro: sweeps_trans)
qed

definition overdue :: "db_time \<Rightarrow> print_job_row \<Rightarrow> bool" where
  "overdue now j \<longleftrightarrow> isOpenPrintJobStatus (pj_status j) \<and> pj_deadlineAt j \<le> now"

lemma overdue_fewer:
  assumes "sweeps db db'" and "distinct (map pj_id (db_jobs db))"
  shows "length (filter (overdue now) (db_jobs db')) \<le> length (filter (overdue now) (db_jobs db))"
proof -
  have "distinct (map pj_id (db_jobs db'))" using assms by (simp add: sweeps_def)
  then have "distinct (db_jobs db)" "distinct (db_jobs db')" using assms(2) by (simp_all add: distinct_map)
  then have "length (filter (overdue now) (db_jobs db')) = card (set (filter (overdue now) (db_jobs db')))"
    "length (filter (overdue now) (db_jobs db)) = card (set (filter (overdue now) (db_jobs db)))"
    by (metis distinct_card distinct_filter)+
  moreover have "set (filter (overdue now) (db_jobs db')) \<subseteq> set (filter (overdue now) (db_jobs db))"
    using assms(1) by (auto simp: sweeps_def overdue_def)
  ultimately show ?thesis by (simp add: card_mono)
qed

lemma overdue_eq: "(\<lambda>j. isOpenPrintJobStatus (pj_status j) \<and> pj_deadlineAt j \<le> now) = overdue now"
  by (simp add: fun_eq_iff overdue_def)

lemma reconcile_settles:
  assumes ids: "distinct (map pj_id (db_jobs db))"
    and clock: "\<And>x. now \<le> clock x \<and> sweep_clock_ok policy (clock x)"
    and few: "length (filter (overdue now) (db_jobs db)) \<le> MAX_RECONCILE_BATCH"
  shows "\<exists>n db'. reconcileOnce maxAttempts policy now clock newIds db = (Inr n, db') \<and> sweeps db db' \<and>
    filter (overdue now) (db_jobs db') = []"
proof -
  let ?leases = "map ac_id (take MAX_RECONCILE_BATCH (sort_key (\<lambda>c. or_else (ac_leaseExpiresAt c) 0)
              (filter (\<lambda>c. ac_status c = CS_CLAIMED \<and>
                 (case ac_leaseExpiresAt c of None \<Rightarrow> False | Some t \<Rightarrow> t \<le> now)) (db_commands db))))"
  obtain n1 db1 where one: "sweepLoop (\<lambda>x. releaseLease maxAttempts policy x (clock x) (newIds x)) ?leases 0 db = (Inr n1, db1)"
    and s1: "sweeps db db1"
    using sweepLoop_sweeps [where Q = "\<lambda>_. True" and xs = ?leases and n = 0 and db = db
        and one = "\<lambda>x. releaseLease maxAttempts policy x (clock x) (newIds x)"] release_sweeps clock ids by blast
  have ids1: "distinct (map pj_id (db_jobs db1))" using s1 ids by (simp add: sweeps_def)
  let ?late = "map pj_id (take MAX_RECONCILE_BATCH (sort_key pj_deadlineAt (filter (overdue now) (db_jobs db1))))"
  have step: "\<exists>did d'. settleOverdue policy x (clock x) (newIds x) d = Inr (did, d') \<and> sweeps d d' \<and>
      (\<forall>j \<in> set (db_jobs d'). pj_id j = x \<longrightarrow> \<not> overdue now j)"
    if ids: "distinct (map pj_id (db_jobs d))" for x d
  proof -
    obtain did d' where "settleOverdue policy x (clock x) (newIds x) d = Inr (did, d')" "sweeps d d'"
      "\<forall>j \<in> set (db_jobs d'). pj_id j = x \<longrightarrow> isOpenPrintJobStatus (pj_status j) \<longrightarrow> clock x < pj_deadlineAt j"
      using overdue_sweeps [OF ids, of policy "clock x" x "newIds x"] clock by blast
    moreover have "now \<le> clock x" using clock by blast
    ultimately show ?thesis by (fastforce simp: overdue_def)
  qed
  obtain n2 db2 where two: "sweepLoop (\<lambda>x. settleOverdue policy x (clock x) (newIds x)) ?late n1 db1 = (Inr n2, db2)"
    and s2: "sweeps db1 db2" and none: "\<forall>j \<in> set (db_jobs db2). pj_id j \<in> set ?late \<longrightarrow> \<not> overdue now j"
    using sweepLoop_sweeps [where Q = "\<lambda>j. \<not> overdue now j" and xs = ?late and n = n1 and db = db1
        and one = "\<lambda>x. settleOverdue policy x (clock x) (newIds x)", OF step _ ids1] by (auto simp: overdue_def)
  have "length (filter (overdue now) (db_jobs db1)) \<le> MAX_RECONCILE_BATCH"
    using overdue_fewer [OF s1 ids, of now] few by simp
  then have all: "set ?late = pj_id ` set (filter (overdue now) (db_jobs db1))" by simp
  have "\<not> overdue now j" if j: "j \<in> set (db_jobs db2)" for j
  proof
    assume o: "overdue now j"
    then have "j \<in> set (db_jobs db1)" using s2 j by (auto simp: sweeps_def overdue_def)
    with o all have "pj_id j \<in> set ?late" by auto
    with none j o show False by blast
  qed
  then have "filter (overdue now) (db_jobs db2) = []" by (simp add: filter_empty_conv)
  with one two s1 s2 show ?thesis
    by (simp add: reconcileOnce_def overdue_eq) (blast intro: sweeps_trans)
qed

text \<open>
  C23. No job stays open because a device is silent: after every history, one pass of the
  sweeps whose clock has not run backwards runs to its end, and afterwards no job is open past
  its deadline, provided that no more jobs are overdue than one batch takes and that none of its
  transactions meets a conflict, at which a pass ends and leaves the rest to the next one.
\<close>

theorem every_overdue_job_is_settled:
  assumes "jobs_inv db" and "db1 = controlRun cfg es db"
    and "\<And>x. now \<le> clock x \<and> sweep_clock_ok policy (clock x)"
    and "length (filter (\<lambda>j. isOpenPrintJobStatus (pj_status j) \<and> pj_deadlineAt j \<le> now) (db_jobs db1)) \<le> MAX_RECONCILE_BATCH"
  shows "\<exists>n db'. reconcileOnce maxAttempts policy now clock newIds db1 = (Inr n, db') \<and>
    map pj_id (db_jobs db') = map pj_id (db_jobs db1) \<and>
    filter (\<lambda>j. isOpenPrintJobStatus (pj_status j) \<and> pj_deadlineAt j \<le> now) (db_jobs db') = []"
proof -
  have "distinct (map pj_id (db_jobs db1))"
    unfolding assms(2) by (rule jobs_invD(1) [OF controlRun_inv [OF assms(1)]])
  then have "\<exists>n db'. reconcileOnce maxAttempts policy now clock newIds db1 = (Inr n, db') \<and> sweeps db1 db' \<and>
      filter (overdue now) (db_jobs db') = []"
    by (rule reconcile_settles) (use assms(3,4) in \<open>simp_all add: overdue_eq\<close>)
  then show ?thesis unfolding overdue_eq sweeps_def by blast
qed

theorem every_overdue_job_is_settled_witness:
  "\<exists>n db'. reconcileOnce 3 DEFAULT_RETENTION_POLICY 700000 (\<lambda>_. 700000) (\<lambda>x. ids_from x) queued_db = (Inr n, db') \<and>
    map pj_id (db_jobs db') = [''a0''] \<and>
    filter (\<lambda>j. isOpenPrintJobStatus (pj_status j) \<and> pj_deadlineAt j \<le> 700000) (db_jobs db') = []"
proof -
  have "sweep_clock_ok DEFAULT_RETENTION_POLICY 700000" by code_simp
  moreover have "queued_db = controlRun sample_config [] queued_db" by (simp add: controlRun_def)
  moreover have "map pj_id (db_jobs queued_db) = [''a0'']" by (simp add: queued_db_def queued_job_def)
  moreover have "length (db_jobs queued_db) \<le> MAX_RECONCILE_BATCH" by (simp add: queued_db_def MAX_RECONCILE_BATCH_def)
  ultimately show ?thesis
    using every_overdue_job_is_settled [OF queued_db_inv, of queued_db sample_config "[]" 700000 "\<lambda>_. 700000"
        DEFAULT_RETENTION_POLICY 3 "\<lambda>x. ids_from x"] order_trans [OF length_filter_le] by auto
qed

end
