(* ===== verification/Session_Releases.thy ===== *)
theory Session_Releases
  imports Print_Jobs
begin

text \<open>
  \<^verbatim>\<open>packages/database/src/session-payments.ts\<close> and \<^verbatim>\<open>session-pricing.ts\<close>: what every path that ends a
  session or changes what was priced does to an open payment and to the active quote. Both run
  inside the caller's transaction and hand back the event sequence the caller must persist.
\<close>

section \<open>Dates as text\<close>

text \<open>\<open>Date.prototype.toISOString\<close> for the years 0 to 9999, from the days since 1970.\<close>

definition civil_of_days :: "int \<Rightarrow> int \<times> int \<times> int" where
  "civil_of_days days =
     (let z = days + 719468;
          era = z div 146097;
          doe = z mod 146097;
          yoe = (doe - doe div 1460 + doe div 36524 - doe div 146096) div 365;
          doy = doe - (365 * yoe + yoe div 4 - yoe div 100);
          mp = (5 * doy + 2) div 153;
          d = doy - (153 * mp + 2) div 5 + 1;
          m = (if mp < 10 then mp + 3 else mp - 9);
          y = yoe + era * 400 + (if m \<le> 2 then 1 else 0) in
      (y, m, d))"

primrec pad_int :: "nat \<Rightarrow> int \<Rightarrow> string" where
  "pad_int 0 n = []"
| "pad_int (Suc width) n = pad_int width (n div 10) @ [''0123456789'' ! nat (n mod 10)]"

definition toISOString :: "db_time \<Rightarrow> string" where
  "toISOString t =
     (case civil_of_days (t div 86400000) of
        (y, m, d) \<Rightarrow>
          let ms = t mod 86400000 in
          pad_int 4 y @ ''-'' @ pad_int 2 m @ ''-'' @ pad_int 2 d @ ''T'' @
          pad_int 2 (ms div 3600000) @ '':'' @ pad_int 2 (ms div 60000 mod 60) @ '':'' @
          pad_int 2 (ms div 1000 mod 60) @ ''.'' @ pad_int 3 (ms mod 1000) @ ''Z'')"

section \<open>Releasing a session's payment\<close>

definition OPEN_PAYMENT_STATUSES :: "payment_status list" where
  "OPEN_PAYMENT_STATUSES = [PS_PENDING, PS_AUTHORIZED]"

definition payment_open :: "payment_row \<Rightarrow> bool" where
  "payment_open p \<longleftrightarrow> py_status p \<in> set OPEN_PAYMENT_STATUSES"

fun payment_status_name :: "payment_status \<Rightarrow> string" where
  "payment_status_name PS_PENDING = ''PENDING''"
| "payment_status_name PS_AUTHORIZED = ''AUTHORIZED''"
| "payment_status_name PS_CAPTURED = ''CAPTURED''"
| "payment_status_name PS_DECLINED = ''DECLINED''"
| "payment_status_name PS_CANCELED = ''CANCELED''"
| "payment_status_name PS_TIMED_OUT = ''TIMED_OUT''"

definition nextAttemptNumber :: "string \<Rightarrow> kiosk_db \<Rightarrow> int" where
  "nextAttemptNumber paymentId db =
     (case map at_attempt (filter (\<lambda>a. at_paymentId a = paymentId) (db_attempts db)) of
        [] \<Rightarrow> 0
      | a # as \<Rightarrow> fold max as a) + 1"

text \<open>An attempt of the number that is next, with the fields only some callers give left out.\<close>

definition attempt_row_of :: "string \<Rightarrow> string \<Rightarrow> string \<Rightarrow> payment_status \<Rightarrow> db_time \<Rightarrow> attempt_row" where
  "attempt_row_of aid paymentId action status now =
     \<lparr>at_id = aid, at_paymentId = paymentId, at_attempt = 0, at_action = action, at_status = status,
      at_providerReference = None, at_failureCode = None, at_idempotencyKeyDigest = None, at_createdAt = now\<rparr>"

definition recordAttempt :: "attempt_row \<Rightarrow> kiosk_db \<Rightarrow> kiosk_db" where
  "recordAttempt a db =
     db\<lparr>db_attempts := db_attempts db @ [a\<lparr>at_attempt := nextAttemptNumber (at_paymentId a) db\<rparr>]\<rparr>"

record session_payment_release =
  sp_nextSequence :: int
  sp_capturedPaymentId :: "string option"
  sp_releasedPaymentId :: "string option"

definition releaseSessionPayments ::
  "string \<Rightarrow> db_time \<Rightarrow> int \<Rightarrow> (nat \<Rightarrow> string) \<Rightarrow> session_state \<Rightarrow> int \<Rightarrow> kiosk_db
   \<Rightarrow> session_payment_release \<times> kiosk_db" where
  "releaseSessionPayments sessionId now startingSequence newId nextState nextVersion db =
     (let same = \<lparr>sp_nextSequence = startingSequence, sp_capturedPaymentId = None, sp_releasedPaymentId = None\<rparr> in
      case List.find (\<lambda>p. py_sessionId p = sessionId \<and> py_status p = PS_CAPTURED \<and> py_appliedToSession p) (db_payments db) of
        Some captured \<Rightarrow> (same\<lparr>sp_capturedPaymentId := Some (py_id captured)\<rparr>, db)
      | None \<Rightarrow>
          (case List.find (\<lambda>p. py_sessionId p = sessionId \<and> payment_open p) (db_payments db) of
             None \<Rightarrow> (same, db)
           | Some opn \<Rightarrow>
               let released = update_many (\<lambda>p. py_id p = py_id opn \<and> py_status p = py_status opn)
                     (\<lambda>p. p\<lparr>py_status := PS_CANCELED, py_failureCode := Some ''SESSION_TERMINAL'',
                           py_failedAt := Some now\<rparr>) (db_payments db);
                   db1 = db\<lparr>db_payments := snd released\<rparr> in
               if fst released \<noteq> 1 then (same, db1)
               else
                 let sequence = startingSequence + 1;
                     db2 = recordAttempt ((attempt_row_of (newId 0) (py_id opn) ''CANCEL'' PS_CANCELED now)
                             \<lparr>at_failureCode := Some ''SESSION_TERMINAL''\<rparr>) db1;
                     event = \<lparr>ob_id = newId 1, ob_aggregateId = sessionId, ob_sequence = sequence,
                       ob_type = ''payment.failed'',
                       ob_payload = JObj [(''sessionId'', JStr sessionId), (''paymentId'', JStr (py_id opn)),
                         (''state'', JStr (session_state_name nextState)), (''version'', JNum nextVersion),
                         (''status'', JStr ''CANCELED''), (''failureCode'', JStr ''SESSION_TERMINAL'')]\<rparr> in
                 (\<lparr>sp_nextSequence = sequence, sp_capturedPaymentId = None, sp_releasedPaymentId = Some (py_id opn)\<rparr>,
                  db2\<lparr>db_outbox := db_outbox db2 @ [event]\<rparr>)))"

section \<open>Retiring a session's price\<close>

datatype quote_invalidation_reason = SETTINGS_CHANGED | DOCUMENTS_CHANGED | SUPERSEDED | SESSION_TERMINAL

fun invalidation_reason_name :: "quote_invalidation_reason \<Rightarrow> string" where
  "invalidation_reason_name SETTINGS_CHANGED = ''SETTINGS_CHANGED''"
| "invalidation_reason_name DOCUMENTS_CHANGED = ''DOCUMENTS_CHANGED''"
| "invalidation_reason_name SUPERSEDED = ''SUPERSEDED''"
| "invalidation_reason_name SESSION_TERMINAL = ''SESSION_TERMINAL''"

definition invalidateSessionPricing ::
  "string \<Rightarrow> quote_invalidation_reason \<Rightarrow> db_time \<Rightarrow> int \<Rightarrow> string \<Rightarrow> bool \<Rightarrow> kiosk_db
   \<Rightarrow> tx_error + ((int \<times> string option) \<times> kiosk_db)" where
  "invalidateSessionPricing sessionId reason now startingSequence newEventId clearSettingsRevision db =
     (let active = List.find (\<lambda>q. qr_sessionId q = sessionId \<and> qr_status q = Q_ACTIVE) (db_quotes db);
          cleared = update_many (\<lambda>s. se_id s = sessionId)
            (\<lambda>s. s\<lparr>se_activeQuoteId := None,
                  se_currentSettingsRevision := (if clearSettingsRevision then None else se_currentSettingsRevision s)\<rparr>)
            (db_sessions db);
          db1 = db\<lparr>db_sessions := snd cleared\<rparr> in
      if fst cleared = 0 then Inl TX_NOT_FOUND
      else case active of
        None \<Rightarrow> Inr ((startingSequence, None), db1)
      | Some q \<Rightarrow>
          let retired = update_many (\<lambda>x. qr_id x = qr_id q \<and> qr_sessionId x = sessionId \<and> qr_status x = Q_ACTIVE)
                (\<lambda>x. x\<lparr>qr_status := Q_INVALIDATED, qr_invalidatedAt := Some now,
                      qr_invalidationReason := Some (invalidation_reason_name reason)\<rparr>) (db_quotes db1);
              db2 = db1\<lparr>db_quotes := snd retired\<rparr> in
          if fst retired \<noteq> 1 then Inr ((startingSequence, None), db2)
          else
            let sequence = startingSequence + 1;
                event = \<lparr>ob_id = newEventId, ob_aggregateId = sessionId, ob_sequence = sequence,
                  ob_type = ''quote.invalidated'',
                  ob_payload = JObj [(''sessionId'', JStr sessionId), (''quoteId'', JStr (qr_id q)),
                    (''reason'', JStr (invalidation_reason_name reason))]\<rparr> in
            Inr ((sequence, Some (qr_id q)), db2\<lparr>db_outbox := db_outbox db2 @ [event]\<rparr>))"

lemma iso_sample: "toISOString 1785542400123 = ''2026-08-01T00:00:00.123Z''"
  by code_simp

end
