(* ===== verification/Payments.thy ===== *)
theory Payments
  imports Session_Releases Print_Job_Service
begin

text \<open>
  \<^verbatim>\<open>services/api/src/modules/payments/service.ts\<close> and \<^verbatim>\<open>services/worker/src/jobs/reconcile-payments.ts\<close>:
  opening a payment for exactly the active quote, confirming it, reducing a verified callback of
  the provider, and timing out a payment whose window has closed. The provider
  (\<^verbatim>\<open>packages/payment-adapters/src/types.ts\<close>) is an interface: its answers, the verified event, the
  readiness of the printer, the clock and fresh identifiers are arguments.
\<close>

section \<open>The provider's side\<close>

record money =
  mo_amountMinor :: int
  mo_currency :: string
  mo_currencyExponent :: int

datatype intent_status = IN_PENDING | IN_AUTHORIZED | IN_CAPTURED | IN_CANCELED | IN_UNKNOWN

datatype webhook_type = PAYMENT_CAPTURED | PAYMENT_DECLINED | PAYMENT_CANCELED | PAYMENT_TIMED_OUT

record provider_webhook_event =
  we_providerEventId :: string
  we_providerIntentId :: string
  we_type :: webhook_type
  we_amount :: money
  we_failureCode :: "string option"
  we_payloadDigest :: string

fun webhook_type_name :: "webhook_type \<Rightarrow> string" where
  "webhook_type_name PAYMENT_CAPTURED = ''PAYMENT_CAPTURED''"
| "webhook_type_name PAYMENT_DECLINED = ''PAYMENT_DECLINED''"
| "webhook_type_name PAYMENT_CANCELED = ''PAYMENT_CANCELED''"
| "webhook_type_name PAYMENT_TIMED_OUT = ''PAYMENT_TIMED_OUT''"

definition paymentFailureCodes :: "string list" where
  "paymentFailureCodes =
     [''AMOUNT_MISMATCH'', ''CARD_DECLINED'', ''CUSTOMER_CANCELED'', ''PROVIDER_TIMEOUT'', ''PROVIDER_UNAVAILABLE'',
      ''SESSION_TERMINAL'']"

text \<open>The service's options; \<open>None\<close> for the readiness gate is a service without one.\<close>

record payment_service =
  pv_provider :: string
  pv_hashRequest :: "(string \<times> string) list \<Rightarrow> string"
  pv_digestIdempotencyKey :: "string \<Rightarrow> string \<Rightarrow> string \<Rightarrow> string"
  pv_idempotencyTtlHours :: int
  pv_paymentTimeoutSeconds :: int
  pv_printerReadiness :: "(string \<Rightarrow> kiosk_db \<Rightarrow> tx_error + unit) option"

definition MINIMUM_PAYMENT_WINDOW_SECONDS :: int where
  "MINIMUM_PAYMENT_WINDOW_SECONDS = 30"

definition PROCESSING_FILE_STATUSES :: "file_status list" where
  "PROCESSING_FILE_STATUSES = [F_UPLOADING, F_QUARANTINED, F_VALIDATING]"

fun default_failure_code :: "webhook_type \<Rightarrow> string" where
  "default_failure_code PAYMENT_DECLINED = ''CARD_DECLINED''"
| "default_failure_code PAYMENT_CANCELED = ''CUSTOMER_CANCELED''"
| "default_failure_code PAYMENT_TIMED_OUT = ''PROVIDER_TIMEOUT''"
| "default_failure_code PAYMENT_CAPTURED = ''CARD_DECLINED''"

fun failure_status :: "webhook_type \<Rightarrow> payment_status" where
  "failure_status PAYMENT_DECLINED = PS_DECLINED"
| "failure_status PAYMENT_CANCELED = PS_CANCELED"
| "failure_status PAYMENT_TIMED_OUT = PS_TIMED_OUT"
| "failure_status PAYMENT_CAPTURED = PS_DECLINED"

definition readFailureCode :: "provider_webhook_event \<Rightarrow> string" where
  "readFailureCode event =
     (case known_code paymentFailureCodes (we_failureCode event) of
        Some c \<Rightarrow> c | None \<Rightarrow> default_failure_code (we_type event))"

record payment_snapshot =
  ps_id :: string
  ps_sessionId :: string
  ps_quoteId :: string
  ps_provider :: string
  ps_status :: payment_status
  ps_appliedToSession :: bool
  ps_amountMinor :: int
  ps_currency :: string
  ps_currencyExponent :: int
  ps_failureCode :: "string option"
  ps_createdAt :: db_time
  ps_expiresAt :: db_time
  ps_capturedAt :: "db_time option"

definition toPaymentSnapshot :: "payment_row \<Rightarrow> payment_snapshot" where
  "toPaymentSnapshot p =
     \<lparr>ps_id = py_id p, ps_sessionId = py_sessionId p, ps_quoteId = py_quoteId p, ps_provider = py_provider p,
      ps_status = py_status p, ps_appliedToSession = py_appliedToSession p, ps_amountMinor = py_amountMinor p,
      ps_currency = js_trim (py_currency p), ps_currencyExponent = py_currencyExponent p,
      ps_failureCode = known_code paymentFailureCodes (py_failureCode p), ps_createdAt = py_createdAt p,
      ps_expiresAt = py_expiresAt p, ps_capturedAt = py_capturedAt p\<rparr>"

section \<open>Shared steps\<close>

definition assertSessionPayable :: "session_row \<Rightarrow> db_time \<Rightarrow> tx_error + unit" where
  "assertSessionPayable s now =
     (if se_idleExpiresAt s \<le> now \<or> se_hardExpiresAt s \<le> now \<or> se_state s = S_EXPIRED
      then Inl (ApiError 410 ''SESSION_EXPIRED'')
      else if se_state s \<in> {S_PAID, S_PRINTING} then Inl (ApiError 409 ''PAYMENT_ALREADY_CAPTURED'')
      else if se_state s \<noteq> S_CONFIGURING then Inl (ApiError 409 ''INVALID_SESSION_STATE'')
      else Inr ())"

definition findPaymentIdempotency ::
  "payment_service \<Rightarrow> string \<Rightarrow> string \<Rightarrow> string \<Rightarrow> db_time \<Rightarrow> kiosk_db \<Rightarrow> idempotency_row option \<times> kiosk_db" where
  "findPaymentIdempotency pv actorId action key now db =
     (let keyDigest = pv_digestIdempotencyKey pv actorId action key in
      case List.find (\<lambda>r. ir_actorId r = actorId \<and> ir_action r = action \<and> ir_keyDigest r = keyDigest) (db_idempotency db) of
        None \<Rightarrow> (None, db)
      | Some record \<Rightarrow>
          if now < ir_expiresAt record then (Some record, db)
          else (None, db\<lparr>db_idempotency :=
            filter (\<lambda>r. \<not> (ir_id r = ir_id record \<and> ir_expiresAt r \<le> now)) (db_idempotency db)\<rparr>))"

definition storePaymentReplay ::
  "payment_service \<Rightarrow> string \<Rightarrow> string \<Rightarrow> string \<Rightarrow> string \<Rightarrow> string \<Rightarrow> db_time \<Rightarrow> string \<Rightarrow> kiosk_db \<Rightarrow> tx_error + kiosk_db" where
  "storePaymentReplay pv actorId action key requestHash resourceId now newId db =
     (let keyDigest = pv_digestIdempotencyKey pv actorId action key in
      if list_ex (\<lambda>r. ir_actorId r = actorId \<and> ir_action r = action \<and> ir_keyDigest r = keyDigest) (db_idempotency db)
      then Inl TX_UNIQUE_VIOLATION
      else Inr (db\<lparr>db_idempotency := db_idempotency db @
        [\<lparr>ir_id = newId, ir_actorId = actorId, ir_action = action, ir_keyDigest = keyDigest,
          ir_requestHash = requestHash, ir_responseBody = None, ir_resourceId = Some resourceId, ir_createdAt = now,
          ir_expiresAt = now + pv_idempotencyTtlHours pv * 3600000\<rparr>]\<rparr>))"

definition replayPayment :: "string option \<Rightarrow> string \<Rightarrow> kiosk_db \<Rightarrow> tx_error + payment_snapshot" where
  "replayPayment resourceId sessionId db =
     (case (case truthy resourceId of None \<Rightarrow> None
            | Some i \<Rightarrow> List.find (\<lambda>p. py_id p = i \<and> py_sessionId p = sessionId) (db_payments db)) of
        None \<Rightarrow> Inl (ApiError 409 ''PAYMENT_REPLAY_UNAVAILABLE'')
      | Some p \<Rightarrow> Inr (toPaymentSnapshot p))"

definition mapPaymentError :: "tx_error \<Rightarrow> tx_error" where
  "mapPaymentError e =
     (case e of
        TX_SESSION (STALE_SESSION_VERSION _ _) \<Rightarrow> ApiError 409 ''STALE_SESSION_VERSION''
      | TX_SESSION (INVALID_SESSION_TRANSITION _ _) \<Rightarrow> ApiError 409 ''INVALID_SESSION_TRANSITION''
      | TX_PROVIDER _ \<Rightarrow> ApiError 503 ''PAYMENT_UNAVAILABLE''
      | TX_NOT_FOUND \<Rightarrow> ApiError 404 ''PAYMENT_NOT_FOUND''
      | TX_UNIQUE_VIOLATION \<Rightarrow> ApiError 409 ''PAYMENT_IN_PROGRESS''
      | other \<Rightarrow> other)"

definition map_error :: "(tx_error \<Rightarrow> tx_error) \<Rightarrow> tx_error + 'a \<Rightarrow> tx_error + 'a" where
  "map_error f r = (case r of Inl e \<Rightarrow> Inl (f e) | Inr v \<Rightarrow> Inr v)"

text \<open>
  The guarded move of a session that every payment transition makes: by the version it read, with the
  next event. The result says whether the guard still held.
\<close>

definition moveSession ::
  "session_row \<Rightarrow> session_state \<Rightarrow> kiosk_db \<Rightarrow> tx_error + (bool \<times> versioned_session_state \<times> int \<times> kiosk_db)" where
  "moveSession session target db =
     (case transitionSession \<lparr>vs_state = se_state session, vs_version = se_stateVersion session\<rparr>
             target (se_stateVersion session) of
        Inl e \<Rightarrow> Inl (TX_SESSION e)
      | Inr after \<Rightarrow>
          let nextSequence = se_eventSequence session + 1;
              moved = update_many (\<lambda>s. se_id s = se_id session \<and> se_stateVersion s = se_stateVersion session)
                (\<lambda>s. s\<lparr>se_state := vs_state after, se_stateVersion := vs_version after,
                      se_eventSequence := nextSequence\<rparr>) (db_sessions db) in
          Inr (fst moved = 1, after, nextSequence, db\<lparr>db_sessions := snd moved\<rparr>))"

section \<open>Opening a payment\<close>

record create_payment_input =
  cy_kioskId :: string
  cy_credentialId :: string
  cy_sessionId :: string
  cy_quoteId :: string
  cy_idempotencyKey :: string
  cy_requestId :: string

definition quote_money :: "quote_row \<Rightarrow> money" where
  "quote_money q =
     \<lparr>mo_amountMinor = qb_totalMinor (qr_breakdown q), mo_currency = js_trim (qb_currency (qr_breakdown q)),
      mo_currencyExponent = qb_currencyExponent (qr_breakdown q)\<rparr>"

definition payment_deadline :: "payment_service \<Rightarrow> session_row \<Rightarrow> quote_row \<Rightarrow> db_time \<Rightarrow> db_time" where
  "payment_deadline pv session quote now =
     min (min (now + pv_paymentTimeoutSeconds pv * 1000) (qr_expiresAt quote))
         (min (se_idleExpiresAt session) (se_hardExpiresAt session))"

definition newPayment ::
  "payment_service \<Rightarrow> session_row \<Rightarrow> quote_row \<Rightarrow> string \<Rightarrow> string \<times> intent_status \<Rightarrow> db_time \<Rightarrow> payment_row" where
  "newPayment pv session quote paymentId intent now =
     \<lparr>py_id = paymentId, py_sessionId = se_id session, py_quoteId = qr_id quote, py_provider = pv_provider pv,
      py_status = (if snd intent = IN_AUTHORIZED then PS_AUTHORIZED else PS_PENDING), py_appliedToSession = False,
      py_amountMinor = qb_totalMinor (qr_breakdown quote), py_currency = js_trim (qb_currency (qr_breakdown quote)),
      py_currencyExponent = qb_currencyExponent (qr_breakdown quote),
      py_settingsRevision = qr_settingsRevision quote, py_manifestHash = qr_manifestHash quote,
      py_providerIntentId = fst intent, py_failureCode = None, py_expiresAt = payment_deadline pv session quote now,
      py_createdAt = now, py_authorizedAt = (if snd intent = IN_AUTHORIZED then Some now else None),
      py_capturedAt = None, py_failedAt = None\<rparr>"

text \<open>The unique indexes of the table: the identifier, the intent, and one open payment per session.\<close>

definition payment_collides :: "payment_row \<Rightarrow> kiosk_db \<Rightarrow> bool" where
  "payment_collides p db \<longleftrightarrow>
     list_ex (\<lambda>q. py_id q = py_id p \<or>
        py_provider q = py_provider p \<and> py_providerIntentId q = py_providerIntentId p \<or>
        py_sessionId q = py_sessionId p \<and> payment_open q) (db_payments db)"

text \<open>What is written once the intent exists.\<close>

definition openPayment ::
  "payment_service \<Rightarrow> create_payment_input \<Rightarrow> session_row \<Rightarrow> quote_row \<Rightarrow> payment_row \<Rightarrow> string \<Rightarrow> string \<Rightarrow> db_time
   \<Rightarrow> (nat \<Rightarrow> string) \<Rightarrow> kiosk_db \<Rightarrow> tx_error + (payment_snapshot \<times> kiosk_db)" where
  "openPayment pv input session quote payment action requestHash now newId db =
     (if payment_collides payment db then Inl TX_UNIQUE_VIOLATION
      else
        bind_result (moveSession session S_AWAITING_PAYMENT (db\<lparr>db_payments := db_payments db @ [payment]\<rparr>))
          (\<lambda>(locked, after, nextSequence, db1).
        if \<not> locked then Inl (ApiError 409 ''CONCURRENT_SESSION_UPDATE'')
        else
          let attempt = (attempt_row_of (newId 1) (py_id payment) ''CREATE'' (py_status payment) now)
                \<lparr>at_attempt := 1, at_providerReference := Some (py_providerIntentId payment),
                 at_idempotencyKeyDigest := Some (pv_digestIdempotencyKey pv (cy_kioskId input) action (cy_idempotencyKey input))\<rparr>;
              event = \<lparr>ob_id = newId 2, ob_aggregateId = se_id session, ob_sequence = nextSequence,
                ob_type = ''payment.pending'',
                ob_payload = JObj [(''sessionId'', JStr (se_id session)), (''paymentId'', JStr (py_id payment)),
                  (''quoteId'', JStr (qr_id quote)), (''state'', JStr (session_state_name (vs_state after))),
                  (''version'', JNum (vs_version after)), (''currency'', JStr (js_trim (py_currency payment))),
                  (''currencyExponent'', JNum (py_currencyExponent payment)),
                  (''amountMinor'', JNum (py_amountMinor payment)),
                  (''expiresAt'', JStr (toISOString (py_expiresAt payment)))]\<rparr>;
              audit = \<lparr>au_id = newId 3, au_occurredAt = now, au_actorType = ''KIOSK'', au_actorId = cy_credentialId input,
                au_kioskId = Some (cy_kioskId input), au_sessionId = se_id session, au_action = ''payment.created'',
                au_outcome = ''SUCCESS'', au_requestId = Some (cy_requestId input),
                au_metadata = JObj [(''paymentId'', JStr (py_id payment)), (''quoteId'', JStr (qr_id quote)),
                  (''amountMinor'', JNum (py_amountMinor payment)), (''currency'', JStr (js_trim (py_currency payment)))]\<rparr> in
          if list_ex (\<lambda>a. at_paymentId a = py_id payment \<and> at_attempt a = 1) (db_attempts db1) then Inl TX_UNIQUE_VIOLATION
          else
          bind_result
            (storePaymentReplay pv (cy_kioskId input) action (cy_idempotencyKey input) requestHash (py_id payment) now (newId 4)
              (db1\<lparr>db_attempts := db_attempts db1 @ [attempt], db_outbox := db_outbox db1 @ [event],
                   db_audit := db_audit db1 @ [audit]\<rparr>))
            (\<lambda>db2. Inr (toPaymentSnapshot payment, db2))))"

text \<open>From the session on: every reason to refuse, in order, and then the provider's intent.\<close>

definition preparePayment ::
  "payment_service \<Rightarrow> (string \<Rightarrow> money \<Rightarrow> tx_error + (string \<times> intent_status)) \<Rightarrow> create_payment_input \<Rightarrow> session_row
   \<Rightarrow> string \<Rightarrow> string \<Rightarrow> db_time \<Rightarrow> (nat \<Rightarrow> string) \<Rightarrow> kiosk_db \<Rightarrow> tx_error + (payment_snapshot \<times> kiosk_db)" where
  "preparePayment pv createIntent input session action requestHash now newId db =
     bind_result (assertSessionPayable session now) (\<lambda>_.
     bind_result (case pv_printerReadiness pv of None \<Rightarrow> Inr () | Some assertReady \<Rightarrow> assertReady (cy_kioskId input) db) (\<lambda>_.
     if list_ex (\<lambda>p. py_sessionId p = se_id session \<and> payment_open p) (db_payments db)
     then Inl (ApiError 409 ''PAYMENT_IN_PROGRESS'')
     else if list_ex (\<lambda>f. fr_sessionId f = se_id session \<and> fr_status f \<in> set PROCESSING_FILE_STATUSES) (db_files db)
     then Inl (ApiError 409 ''FILES_STILL_PROCESSING'')
     else case List.find (\<lambda>q. qr_id q = cy_quoteId input \<and> qr_sessionId q = se_id session) (db_quotes db) of
        None \<Rightarrow> Inl (ApiError 404 ''QUOTE_NOT_FOUND'')
      | Some quote \<Rightarrow>
          if qr_status quote \<noteq> Q_ACTIVE \<or> se_activeQuoteId session \<noteq> Some (qr_id quote) \<or>
             se_currentSettingsRevision session \<noteq> Some (qr_settingsRevision quote)
          then Inl (ApiError 409 ''QUOTE_STALE'')
          else if payment_deadline pv session quote now - now < MINIMUM_PAYMENT_WINDOW_SECONDS * 1000
          then Inl (ApiError 422 ''QUOTE_EXPIRED'')
          else bind_result (createIntent (newId 0) (quote_money quote)) (\<lambda>intent.
            openPayment pv input session quote (newPayment pv session quote (newId 0) intent now) action requestHash now newId db)))"

definition createPayment ::
  "payment_service \<Rightarrow> (string \<Rightarrow> money \<Rightarrow> tx_error + (string \<times> intent_status)) \<Rightarrow> create_payment_input \<Rightarrow> db_time
   \<Rightarrow> (nat \<Rightarrow> string) \<Rightarrow> kiosk_db \<Rightarrow> tx_error + (payment_snapshot \<times> kiosk_db)" where
  "createPayment pv createIntent input now newId db =
     (let action = ''payments.create:'' @ cy_sessionId input;
          requestHash = pv_hashRequest pv [(''sessionId'', cy_sessionId input), (''quoteId'', cy_quoteId input),
            (''provider'', pv_provider pv)] in
      map_error mapPaymentError (bind_result (lockSession (cy_sessionId input) (cy_kioskId input) db) (\<lambda>_.
        case findPaymentIdempotency pv (cy_kioskId input) action (cy_idempotencyKey input) now db of
          (Some replay, db1) \<Rightarrow>
            bind_result (assertMatchingRequest (ir_requestHash replay) requestHash) (\<lambda>_.
            bind_result (replayPayment (ir_resourceId replay) (cy_sessionId input) db1) (\<lambda>snapshot. Inr (snapshot, db1)))
        | (None, db1) \<Rightarrow>
            (case List.find (\<lambda>s. se_id s = cy_sessionId input \<and> se_kioskId s = cy_kioskId input) (db_sessions db1) of
               None \<Rightarrow> Inl TX_NOT_FOUND
             | Some session \<Rightarrow> preparePayment pv createIntent input session action requestHash now newId db1))))"

section \<open>Confirming and reading a payment\<close>

record confirm_payment_input =
  cf_kioskId :: string
  cf_credentialId :: string
  cf_paymentId :: string
  cf_idempotencyKey :: string
  cf_requestId :: string

text \<open>A payment through its session: only the kiosk that owns the session sees it.\<close>

definition ownedPayment :: "string \<Rightarrow> string \<Rightarrow> kiosk_db \<Rightarrow> payment_row option" where
  "ownedPayment paymentId kioskId db =
     List.find (\<lambda>p. py_id p = paymentId \<and>
       list_ex (\<lambda>s. se_id s = py_sessionId p \<and> se_kioskId s = kioskId) (db_sessions db)) (db_payments db)"

definition getPayment :: "string \<Rightarrow> string \<Rightarrow> kiosk_db \<Rightarrow> tx_error + payment_snapshot" where
  "getPayment kioskId paymentId db =
     (case ownedPayment paymentId kioskId db of
        None \<Rightarrow> Inl (ApiError 404 ''PAYMENT_NOT_FOUND'')
      | Some p \<Rightarrow> Inr (toPaymentSnapshot p))"

text \<open>What confirming an open payment writes: the provider is told, and the exchange is recorded.\<close>

definition confirmOpen ::
  "payment_service \<Rightarrow> (string \<Rightarrow> tx_error + intent_status) \<Rightarrow> confirm_payment_input \<Rightarrow> payment_row \<Rightarrow> string \<Rightarrow> db_time
   \<Rightarrow> (nat \<Rightarrow> string) \<Rightarrow> kiosk_db \<Rightarrow> tx_error + kiosk_db" where
  "confirmOpen pv confirm input payment action now newId db =
     (if py_status payment = PS_CAPTURED then Inr db
      else if \<not> payment_open payment then Inl (ApiError 409 ''PAYMENT_NOT_PENDING'')
      else if py_expiresAt payment \<le> now then Inl (ApiError 409 ''PAYMENT_EXPIRED'')
      else bind_result (confirm (py_providerIntentId payment)) (\<lambda>status.
        let db1 = (if status = IN_AUTHORIZED \<and> py_status payment = PS_PENDING
              then db\<lparr>db_payments := updated (\<lambda>p. py_id p = py_id payment \<and> py_status p = PS_PENDING)
                     (\<lambda>p. p\<lparr>py_status := PS_AUTHORIZED, py_authorizedAt := Some now\<rparr>) (db_payments db)\<rparr>
              else db) in
        Inr (recordAttempt
          ((attempt_row_of (newId 0) (py_id payment) ''CONFIRM''
             (if status = IN_AUTHORIZED then PS_AUTHORIZED else PS_PENDING) now)
            \<lparr>at_providerReference := Some (py_providerIntentId payment),
             at_idempotencyKeyDigest := Some (pv_digestIdempotencyKey pv (cf_kioskId input) action (cf_idempotencyKey input))\<rparr>)
          db1)))"

definition confirmFresh ::
  "payment_service \<Rightarrow> (string \<Rightarrow> tx_error + intent_status) \<Rightarrow> confirm_payment_input \<Rightarrow> string \<Rightarrow> string \<Rightarrow> string \<Rightarrow> db_time
   \<Rightarrow> (nat \<Rightarrow> string) \<Rightarrow> kiosk_db \<Rightarrow> tx_error + (payment_snapshot \<times> kiosk_db)" where
  "confirmFresh pv confirm input paymentId action requestHash now newId db =
     (case List.find (\<lambda>p. py_id p = paymentId) (db_payments db) of
        None \<Rightarrow> Inl TX_NOT_FOUND
      | Some payment \<Rightarrow>
          bind_result (confirmOpen pv confirm input payment action now newId db) (\<lambda>db1.
          case List.find (\<lambda>p. py_id p = py_id payment) (db_payments db1) of
            None \<Rightarrow> Inl TX_NOT_FOUND
          | Some current \<Rightarrow>
              let audit = \<lparr>au_id = newId 1, au_occurredAt = now, au_actorType = ''KIOSK'',
                    au_actorId = cf_credentialId input, au_kioskId = Some (cf_kioskId input),
                    au_sessionId = py_sessionId current, au_action = ''payment.confirmed'', au_outcome = ''SUCCESS'',
                    au_requestId = Some (cf_requestId input),
                    au_metadata = JObj [(''paymentId'', JStr (py_id current)),
                      (''status'', JStr (payment_status_name (py_status current)))]\<rparr> in
              bind_result
                (storePaymentReplay pv (cf_kioskId input) action (cf_idempotencyKey input) requestHash (py_id current) now (newId 2)
                  (db1\<lparr>db_audit := db_audit db1 @ [audit]\<rparr>))
                (\<lambda>db2. Inr (toPaymentSnapshot current, db2))))"

definition confirmPayment ::
  "payment_service \<Rightarrow> (string \<Rightarrow> tx_error + intent_status) \<Rightarrow> confirm_payment_input \<Rightarrow> db_time \<Rightarrow> (nat \<Rightarrow> string)
   \<Rightarrow> kiosk_db \<Rightarrow> tx_error + (payment_snapshot \<times> kiosk_db)" where
  "confirmPayment pv confirm input now newId db =
     (let action = ''payments.confirm:'' @ cf_paymentId input;
          requestHash = pv_hashRequest pv [(''paymentId'', cf_paymentId input)] in
      map_error mapPaymentError (
        case ownedPayment (cf_paymentId input) (cf_kioskId input) db of
          None \<Rightarrow> Inl (ApiError 404 ''PAYMENT_NOT_FOUND'')
        | Some existing \<Rightarrow>
            bind_result (lockSession (py_sessionId existing) (cf_kioskId input) db) (\<lambda>_.
            case findPaymentIdempotency pv (cf_kioskId input) action (cf_idempotencyKey input) now db of
              (Some replay, db1) \<Rightarrow>
                bind_result (assertMatchingRequest (ir_requestHash replay) requestHash) (\<lambda>_.
                bind_result (replayPayment (ir_resourceId replay) (py_sessionId existing) db1) (\<lambda>snapshot. Inr (snapshot, db1)))
            | (None, db1) \<Rightarrow> confirmFresh pv confirm input (py_id existing) action requestHash now newId db1)))"

section \<open>Reducing a callback\<close>

definition recordWebhook ::
  "payment_service \<Rightarrow> provider_webhook_event \<Rightarrow> string option \<Rightarrow> string \<Rightarrow> db_time \<Rightarrow> string \<Rightarrow> kiosk_db \<Rightarrow> tx_error + kiosk_db" where
  "recordWebhook pv event paymentId result now newId db =
     (if list_ex (\<lambda>w. ib_provider w = pv_provider pv \<and> ib_providerEventId w = we_providerEventId event) (db_inbox db)
      then Inl TX_UNIQUE_VIOLATION
      else Inr (db\<lparr>db_inbox := db_inbox db @
        [\<lparr>ib_id = newId, ib_provider = pv_provider pv, ib_providerEventId = we_providerEventId event,
          ib_providerIntentId = we_providerIntentId event, ib_paymentId = truthy paymentId,
          ib_eventType = webhook_type_name (we_type event), ib_payloadDigest = we_payloadDigest event,
          ib_result = result, ib_receivedAt = now\<rparr>]\<rparr>))"

definition recordCompensation ::
  "payment_row \<Rightarrow> refund_reason \<Rightarrow> money \<Rightarrow> db_time \<Rightarrow> string \<Rightarrow> kiosk_db \<Rightarrow> kiosk_db" where
  "recordCompensation payment reason amount now newId db =
     (if mo_amountMinor amount = 0 then db
      else if list_ex (\<lambda>r. rf_paymentId r = py_id payment \<and> rf_reason r = reason) (db_refunds db) then db
      else db\<lparr>db_refunds := db_refunds db @
        [\<lparr>rf_id = newId, rf_paymentId = py_id payment, rf_sessionId = py_sessionId payment,
          rf_provider = py_provider payment, rf_reason = reason, rf_amountMinor = mo_amountMinor amount,
          rf_currency = mo_currency amount, rf_currencyExponent = mo_currencyExponent amount,
          rf_status = ''PENDING'', rf_createdAt = now\<rparr>]\<rparr>)"

definition recordPaymentAudit ::
  "payment_row \<Rightarrow> string \<Rightarrow> string \<Rightarrow> string \<Rightarrow> db_time \<Rightarrow> string \<Rightarrow> (string \<times> json) list \<Rightarrow> kiosk_db \<Rightarrow> kiosk_db" where
  "recordPaymentAudit payment action outcome requestId now newId metadata db =
     db\<lparr>db_audit := db_audit db @
       [\<lparr>au_id = newId, au_occurredAt = now, au_actorType = ''PROVIDER'', au_actorId = py_provider payment,
         au_kioskId = None, au_sessionId = py_sessionId payment, au_action = action, au_outcome = outcome,
         au_requestId = Some requestId, au_metadata = JObj ((''paymentId'', JStr (py_id payment)) # metadata)\<rparr>]\<rparr>"

text \<open>\<open>payment.failed\<close>, as every path that releases a waiting session announces it.\<close>

definition payment_failed_event ::
  "string \<Rightarrow> session_row \<Rightarrow> payment_row \<Rightarrow> versioned_session_state \<Rightarrow> int \<Rightarrow> payment_status \<Rightarrow> string \<Rightarrow> outbox_row" where
  "payment_failed_event oid session payment after sequence status failureCode =
     \<lparr>ob_id = oid, ob_aggregateId = se_id session, ob_sequence = sequence, ob_type = ''payment.failed'',
      ob_payload = JObj [(''sessionId'', JStr (se_id session)), (''paymentId'', JStr (py_id payment)),
        (''state'', JStr (session_state_name (vs_state after))), (''version'', JNum (vs_version after)),
        (''status'', JStr (payment_status_name status)), (''failureCode'', JStr failureCode)]\<rparr>"

definition releaseAfterCompensatedCapture ::
  "payment_row \<Rightarrow> session_row \<Rightarrow> string \<Rightarrow> string \<Rightarrow> kiosk_db \<Rightarrow> tx_error + kiosk_db" where
  "releaseAfterCompensatedCapture payment session failureCode newId db =
     (if se_state session \<noteq> S_AWAITING_PAYMENT then Inr db
      else bind_result (moveSession session S_CONFIGURING db) (\<lambda>(released, after, nextSequence, db1).
        if \<not> released then Inl (TX_LOST_RACE ''SESSION_RELEASE_LOST_RACE'')
        else Inr (db1\<lparr>db_outbox := db_outbox db1 @
          [payment_failed_event newId session payment after nextSequence PS_CAPTURED failureCode]\<rparr>)))"

text \<open>The capture that cannot be applied: recorded unless the payment was declined.\<close>

definition captureUnapplied :: "payment_row \<Rightarrow> string \<Rightarrow> db_time \<Rightarrow> kiosk_db \<Rightarrow> tx_error + kiosk_db" where
  "captureUnapplied payment lostRace now db =
     (let recorded = update_many (\<lambda>p. py_id p = py_id payment \<and> py_status p = py_status payment)
            (\<lambda>p. p\<lparr>py_status := PS_CAPTURED, py_appliedToSession := False, py_capturedAt := Some now\<rparr>) (db_payments db) in
      if fst recorded \<noteq> 1 then Inl (TX_LOST_RACE lostRace)
      else Inr (db\<lparr>db_payments := snd recorded\<rparr>))"

definition captureAttempt ::
  "payment_row \<Rightarrow> payment_status \<Rightarrow> provider_webhook_event \<Rightarrow> string option \<Rightarrow> db_time \<Rightarrow> string \<Rightarrow> kiosk_db \<Rightarrow> kiosk_db" where
  "captureAttempt payment status event failureCode now newId db =
     recordAttempt ((attempt_row_of newId (py_id payment) ''CAPTURE'' status now)
       \<lparr>at_providerReference := Some (we_providerEventId event), at_failureCode := failureCode\<rparr>) db"

definition capture_effective :: "payment_row \<Rightarrow> session_row \<Rightarrow> quote_row option \<Rightarrow> db_time \<Rightarrow> bool" where
  "capture_effective payment session quote now \<longleftrightarrow>
     payment_open payment \<and> se_state session = S_AWAITING_PAYMENT \<and> now < py_expiresAt payment \<and>
     (case quote of None \<Rightarrow> False | Some q \<Rightarrow> qr_status q = Q_ACTIVE \<and> now < qr_expiresAt q)"

definition lateCapture ::
  "payment_service \<Rightarrow> payment_row \<Rightarrow> session_row \<Rightarrow> provider_webhook_event \<Rightarrow> string \<Rightarrow> db_time \<Rightarrow> (nat \<Rightarrow> string) \<Rightarrow> kiosk_db
   \<Rightarrow> tx_error + kiosk_db" where
  "lateCapture pv payment session event requestId now newId db =
     bind_result (if py_status payment = PS_DECLINED then Inr db
                  else captureUnapplied payment ''PAYMENT_LATE_CAPTURE_LOST_RACE'' now db) (\<lambda>db1.
     let db2 = recordCompensation payment LATE_CAPTURE (we_amount event) now (newId 1)
                 (captureAttempt payment PS_CAPTURED event None now (newId 0) db1) in
     bind_result (recordWebhook pv event (Some (py_id payment)) ''LATE_CAPTURE'' now (newId 2) db2) (\<lambda>db3.
     bind_result (releaseAfterCompensatedCapture payment session ''PROVIDER_TIMEOUT'' (newId 3) db3) (\<lambda>db4.
     Inr (recordPaymentAudit payment ''payment.late_capture'' ''RECOVERY_REQUIRED'' requestId now (newId 4)
       [(''sessionState'', JStr (session_state_name (se_state session))),
        (''providerEventId'', JStr (we_providerEventId event))] db4))))"

definition effectiveCapture ::
  "payment_service \<Rightarrow> payment_row \<Rightarrow> session_row \<Rightarrow> provider_webhook_event \<Rightarrow> string \<Rightarrow> db_time \<Rightarrow> (nat \<Rightarrow> string) \<Rightarrow> kiosk_db
   \<Rightarrow> tx_error + kiosk_db" where
  "effectiveCapture pv payment session event requestId now newId db =
     (let captured = update_many (\<lambda>p. py_id p = py_id payment \<and> py_status p = py_status payment)
            (\<lambda>p. p\<lparr>py_status := PS_CAPTURED, py_appliedToSession := True, py_capturedAt := Some now\<rparr>) (db_payments db) in
      if fst captured \<noteq> 1 then Inl (TX_LOST_RACE ''PAYMENT_CAPTURE_LOST_RACE'')
      else if list_ex (\<lambda>p. py_id p \<noteq> py_id payment \<and> py_sessionId p = py_sessionId payment \<and> py_appliedToSession p)
             (db_payments db)
      then Inl TX_UNIQUE_VIOLATION
      else
        let consumed = update_many (\<lambda>q. qr_id q = py_quoteId payment \<and> qr_sessionId q = py_sessionId payment \<and>
                qr_status q = Q_ACTIVE) (\<lambda>q. q\<lparr>qr_status := Q_CONSUMED\<rparr>) (db_quotes db) in
        if fst consumed \<noteq> 1 then Inl (TX_LOST_RACE ''QUOTE_CONSUMPTION_LOST_RACE'')
        else
          bind_result (moveSession session S_PAID (db\<lparr>db_payments := snd captured, db_quotes := snd consumed\<rparr>))
            (\<lambda>(paid, after, nextSequence, db1).
          if \<not> paid then Inl (TX_LOST_RACE ''SESSION_PAID_LOST_RACE'')
          else
            let event_row = \<lparr>ob_id = newId 1, ob_aggregateId = se_id session, ob_sequence = nextSequence,
                  ob_type = ''payment.succeeded'',
                  ob_payload = JObj [(''sessionId'', JStr (se_id session)), (''paymentId'', JStr (py_id payment)),
                    (''quoteId'', JStr (py_quoteId payment)), (''state'', JStr (session_state_name (vs_state after))),
                    (''version'', JNum (vs_version after)), (''currency'', JStr (js_trim (py_currency payment))),
                    (''currencyExponent'', JNum (py_currencyExponent payment)),
                    (''amountMinor'', JNum (py_amountMinor payment)), (''capturedAt'', JStr (toISOString now))]\<rparr>;
                db2 = captureAttempt payment PS_CAPTURED event None now (newId 0) db1 in
            bind_result (recordWebhook pv event (Some (py_id payment)) ''CAPTURED'' now (newId 2)
                (db2\<lparr>db_outbox := db_outbox db2 @ [event_row]\<rparr>)) (\<lambda>db3.
            Inr (recordPaymentAudit payment ''payment.captured'' ''SUCCESS'' requestId now (newId 3)
              [(''quoteId'', JStr (py_quoteId payment)), (''amountMinor'', JNum (py_amountMinor payment))] db3))))"

definition applyCapture ::
  "payment_service \<Rightarrow> payment_row \<Rightarrow> provider_webhook_event \<Rightarrow> string \<Rightarrow> db_time \<Rightarrow> (nat \<Rightarrow> string) \<Rightarrow> kiosk_db
   \<Rightarrow> tx_error + kiosk_db" where
  "applyCapture pv payment event requestId now newId db =
     (if py_status payment = PS_CAPTURED
      then recordWebhook pv event (Some (py_id payment)) ''DUPLICATE_CAPTURE'' now (newId 0) db
      else case List.find (\<lambda>s. se_id s = py_sessionId payment) (db_sessions db) of
        None \<Rightarrow> Inl TX_NOT_FOUND
      | Some session \<Rightarrow>
          if capture_effective payment session
               (List.find (\<lambda>q. qr_id q = py_quoteId payment \<and> qr_sessionId q = py_sessionId payment) (db_quotes db)) now
          then effectiveCapture pv payment session event requestId now newId db
          else lateCapture pv payment session event requestId now newId db)"

definition applyFailure ::
  "payment_service \<Rightarrow> payment_row \<Rightarrow> provider_webhook_event \<Rightarrow> string \<Rightarrow> db_time \<Rightarrow> (nat \<Rightarrow> string) \<Rightarrow> kiosk_db
   \<Rightarrow> tx_error + kiosk_db" where
  "applyFailure pv payment event requestId now newId db =
     (if \<not> payment_open payment
      then recordWebhook pv event (Some (py_id payment)) ''IGNORED_TERMINAL_PAYMENT'' now (newId 0) db
      else
        let status = failure_status (we_type event);
            failureCode = readFailureCode event;
            failed = update_many (\<lambda>p. py_id p = py_id payment \<and> py_status p = py_status payment)
              (\<lambda>p. p\<lparr>py_status := status, py_failureCode := Some failureCode, py_failedAt := Some now\<rparr>) (db_payments db) in
        if fst failed \<noteq> 1 then Inl (TX_LOST_RACE ''PAYMENT_FAILURE_LOST_RACE'')
        else
          let db1 = captureAttempt payment status event (Some failureCode) now (newId 0) (db\<lparr>db_payments := snd failed\<rparr>) in
          case List.find (\<lambda>s. se_id s = py_sessionId payment) (db_sessions db1) of
            None \<Rightarrow> Inl TX_NOT_FOUND
          | Some session \<Rightarrow>
              bind_result
                (if se_state session \<noteq> S_AWAITING_PAYMENT then Inr db1
                 else bind_result (moveSession session S_CONFIGURING db1) (\<lambda>(released, after, nextSequence, db2).
                   if \<not> released then Inl (TX_LOST_RACE ''SESSION_RELEASE_LOST_RACE'')
                   else Inr (db2\<lparr>db_outbox := db_outbox db2 @
                     [payment_failed_event (newId 1) session payment after nextSequence status failureCode]\<rparr>)))
                (\<lambda>db3.
              bind_result (recordWebhook pv event (Some (py_id payment)) ''FAILED'' now (newId 2) db3) (\<lambda>db4.
              Inr (recordPaymentAudit payment ''payment.failed'' ''FAILURE'' requestId now (newId 3)
                [(''status'', JStr (payment_status_name status)), (''failureCode'', JStr failureCode)] db4))))"

text \<open>A callback for another amount than the quoted one.\<close>

definition mismatchedCapture ::
  "payment_row \<Rightarrow> provider_webhook_event \<Rightarrow> db_time \<Rightarrow> (nat \<Rightarrow> string) \<Rightarrow> kiosk_db \<Rightarrow> tx_error + kiosk_db" where
  "mismatchedCapture payment event now newId db =
     (if we_type event \<noteq> PAYMENT_CAPTURED then Inr db
      else bind_result (if py_status payment \<in> {PS_CAPTURED, PS_DECLINED} then Inr db
                        else captureUnapplied payment ''PAYMENT_MISMATCH_CAPTURE_LOST_RACE'' now db) (\<lambda>db1.
        let db2 = recordCompensation payment AMOUNT_MISMATCH (we_amount event) now (newId 1)
                    (captureAttempt payment PS_CAPTURED event None now (newId 0) db1) in
        case List.find (\<lambda>s. se_id s = py_sessionId payment) (db_sessions db2) of
          None \<Rightarrow> Inl TX_NOT_FOUND
        | Some session \<Rightarrow> releaseAfterCompensatedCapture payment session ''AMOUNT_MISMATCH'' (newId 2) db2))"

definition amount_matches :: "provider_webhook_event \<Rightarrow> payment_row \<Rightarrow> bool" where
  "amount_matches event payment \<longleftrightarrow>
     mo_amountMinor (we_amount event) = py_amountMinor payment \<and>
     mo_currency (we_amount event) = js_trim (py_currency payment) \<and>
     mo_currencyExponent (we_amount event) = py_currencyExponent payment"

definition reduceWebhookEvent ::
  "payment_service \<Rightarrow> provider_webhook_event \<Rightarrow> string \<Rightarrow> db_time \<Rightarrow> (nat \<Rightarrow> string) \<Rightarrow> kiosk_db \<Rightarrow> tx_error + kiosk_db" where
  "reduceWebhookEvent pv event requestId now newId db =
     (if list_ex (\<lambda>w. ib_provider w = pv_provider pv \<and> ib_providerEventId w = we_providerEventId event) (db_inbox db)
      then Inr db
      else case List.find (\<lambda>p. py_provider p = pv_provider pv \<and> py_providerIntentId p = we_providerIntentId event)
                  (db_payments db) of
        None \<Rightarrow> recordWebhook pv event None ''IGNORED_UNKNOWN_INTENT'' now (newId 0) db
      | Some payment \<Rightarrow>
          if \<not> amount_matches event payment then
            bind_result (mismatchedCapture payment event now newId db) (\<lambda>db1.
            bind_result (recordWebhook pv event (Some (py_id payment)) ''AMOUNT_MISMATCH'' now (newId 3) db1) (\<lambda>db2.
            Inr (recordPaymentAudit payment ''payment.amount_mismatch'' ''REFUSED'' requestId now (newId 4)
              [(''providerEventId'', JStr (we_providerEventId event)),
               (''amountMinor'', JNum (mo_amountMinor (we_amount event))),
               (''currency'', JStr (mo_currency (we_amount event))),
               (''currencyExponent'', JNum (mo_currencyExponent (we_amount event)))] db2)))
          else if we_type event = PAYMENT_CAPTURED then applyCapture pv payment event requestId now newId db
          else applyFailure pv payment event requestId now newId db)"

definition webhookWasRecorded :: "payment_service \<Rightarrow> provider_webhook_event \<Rightarrow> kiosk_db \<Rightarrow> bool" where
  "webhookWasRecorded pv event db =
     list_ex (\<lambda>w. ib_provider w = pv_provider pv \<and> ib_providerEventId w = we_providerEventId event) (db_inbox db)"

text \<open>The whole callback: the provider's verdict on the signature, then the transaction.\<close>

definition handleWebhook ::
  "payment_service \<Rightarrow> tx_error + provider_webhook_event \<Rightarrow> string \<Rightarrow> db_time \<Rightarrow> (nat \<Rightarrow> string) \<Rightarrow> kiosk_db
   \<Rightarrow> (tx_error + unit) \<times> kiosk_db" where
  "handleWebhook pv verified requestId now newId db =
     (case verified of
        Inl (TX_PROVIDER _) \<Rightarrow> (Inl (ApiError 401 ''INVALID_WEBHOOK_SIGNATURE''), db)
      | Inl e \<Rightarrow> (Inl e, db)
      | Inr event \<Rightarrow>
          (case reduceWebhookEvent pv event requestId now newId db of
             Inr db' \<Rightarrow> (Inr (), db')
           | Inl e \<Rightarrow>
               if e = TX_UNIQUE_VIOLATION \<and> webhookWasRecorded pv event db then (Inr (), db) else (Inl e, db)))"

section \<open>The reconciler\<close>

definition BATCH_SIZE :: nat where
  "BATCH_SIZE = 25"

text \<open>\<open>False\<close> and no change where the code returns without writing; a lost release of the
session ends the transaction with what was written so far, as the code does.\<close>

definition timeOut :: "string \<Rightarrow> db_time \<Rightarrow> (nat \<Rightarrow> string) \<Rightarrow> kiosk_db \<Rightarrow> tx_error + (bool \<times> kiosk_db)" where
  "timeOut paymentId now newId db =
     (case List.find (\<lambda>p. py_id p = paymentId) (db_payments db) of
        None \<Rightarrow> Inr (False, db)
      | Some payment \<Rightarrow>
          if \<not> payment_open payment \<or> now < py_expiresAt payment then Inr (False, db)
          else
            let settled = update_many (\<lambda>p. py_id p = py_id payment \<and> py_status p = py_status payment)
                  (\<lambda>p. p\<lparr>py_status := PS_TIMED_OUT, py_failureCode := Some ''PROVIDER_TIMEOUT'', py_failedAt := Some now\<rparr>)
                  (db_payments db);
                db1 = db\<lparr>db_payments := snd settled\<rparr> in
            if fst settled \<noteq> 1 then Inr (False, db1)
            else
              let db2 = recordAttempt ((attempt_row_of (newId 0) (py_id payment) ''RECONCILE'' PS_TIMED_OUT now)
                          \<lparr>at_providerReference := Some (py_providerIntentId payment),
                           at_failureCode := Some ''PROVIDER_TIMEOUT''\<rparr>) db1;
                  audit = \<lparr>au_id = newId 2, au_occurredAt = now, au_actorType = ''SYSTEM'', au_actorId = ''payment-reconciler'',
                    au_kioskId = None, au_sessionId = py_sessionId payment, au_action = ''payment.timed_out'',
                    au_outcome = ''SUCCESS'', au_requestId = None,
                    au_metadata = JObj [(''paymentId'', JStr (py_id payment)),
                      (''previousStatus'', JStr (payment_status_name (py_status payment)))]\<rparr> in
              (case List.find (\<lambda>s. se_id s = py_sessionId payment) (db_sessions db2) of
                 None \<Rightarrow> Inl TX_NOT_FOUND
               | Some session \<Rightarrow>
                   if se_state session \<noteq> S_AWAITING_PAYMENT then Inr (True, db2\<lparr>db_audit := db_audit db2 @ [audit]\<rparr>)
                   else bind_result (moveSession session S_CONFIGURING db2) (\<lambda>(released, after, nextSequence, db3).
                     if \<not> released then Inr (False, db3)
                     else Inr (True, db3\<lparr>
                       db_outbox := db_outbox db3 @
                         [payment_failed_event (newId 1) session payment after nextSequence PS_TIMED_OUT ''PROVIDER_TIMEOUT''],
                       db_audit := db_audit db3 @ [audit]\<rparr>))))"

definition recordUnsettled :: "string \<Rightarrow> db_time \<Rightarrow> string \<Rightarrow> kiosk_db \<Rightarrow> kiosk_db" where
  "recordUnsettled paymentId now newId db =
     (case List.find (\<lambda>p. py_id p = paymentId) (db_payments db) of
        None \<Rightarrow> db
      | Some payment \<Rightarrow>
          if \<not> payment_open payment then db
          else if list_ex (\<lambda>a. at_paymentId a = paymentId \<and> at_action a = ''RECONCILE'') (db_attempts db) then db
          else recordAttempt (attempt_row_of newId paymentId ''RECONCILE'' PS_PENDING now) db)"

definition overduePayments :: "db_time \<Rightarrow> kiosk_db \<Rightarrow> payment_row list" where
  "overduePayments now db =
     take BATCH_SIZE (sort_key py_expiresAt (filter (\<lambda>p. payment_open p \<and> py_expiresAt p \<le> now) (db_payments db)))"

text \<open>
  One pass over the payments overdue when it began. An answer of the provider that is an error, or a
  transaction that fails, skips that payment.
\<close>

fun reconcileLoop ::
  "(string \<Rightarrow> tx_error + intent_status) \<Rightarrow> (string \<Rightarrow> db_time) \<Rightarrow> (string \<Rightarrow> nat \<Rightarrow> string) \<Rightarrow> payment_row list \<Rightarrow> nat \<Rightarrow> kiosk_db
   \<Rightarrow> nat \<times> kiosk_db" where
  "reconcileLoop getIntentStatus clock newIds [] settled db = (settled, db)"
| "reconcileLoop getIntentStatus clock newIds (candidate # rest) settled db =
     (case getIntentStatus (py_providerIntentId candidate) of
        Inl _ \<Rightarrow> reconcileLoop getIntentStatus clock newIds rest settled db
      | Inr status \<Rightarrow>
          if status \<in> {IN_CAPTURED, IN_AUTHORIZED}
          then reconcileLoop getIntentStatus clock newIds rest settled
                 (recordUnsettled (py_id candidate) (clock (py_id candidate)) (newIds (py_id candidate) 0) db)
          else (case timeOut (py_id candidate) (clock (py_id candidate)) (newIds (py_id candidate)) db of
                  Inl _ \<Rightarrow> reconcileLoop getIntentStatus clock newIds rest settled db
                | Inr (did, db') \<Rightarrow>
                    reconcileLoop getIntentStatus clock newIds rest (if did then settled + 1 else settled) db'))"

definition reconcilePayments ::
  "(string \<Rightarrow> tx_error + intent_status) \<Rightarrow> db_time \<Rightarrow> (string \<Rightarrow> db_time) \<Rightarrow> (string \<Rightarrow> nat \<Rightarrow> string) \<Rightarrow> kiosk_db
   \<Rightarrow> nat \<times> kiosk_db" where
  "reconcilePayments getIntentStatus now clock newIds db =
     reconcileLoop getIntentStatus clock newIds (overduePayments now db) 0 db"

end
