(* ===== verification/Session_Service.thy ===== *)
theory Session_Service
  imports Session_Releases Print_Job_Service
begin

text \<open>
  \<^verbatim>\<open>services/api/src/modules/sessions/service.ts\<close>: opening a session for a kiosk, with its upload code, reading
  it, cancelling it, and expiring the one that is in the way of a new customer. The secrets of
  \<^verbatim>\<open>sessions/crypto.ts\<close> are derived from HMAC digests, which are parameters.

  A lemma shows that what is stored for a replay is read back as it was answered.
\<close>

section \<open>Secrets of an upload code\<close>

definition base64url_alphabet :: string where
  "base64url_alphabet = ''ABCDEFGHIJKLMNOPQRSTUVWXYZabcdefghijklmnopqrstuvwxyz0123456789-_''"

definition sextet :: "nat \<Rightarrow> char" where
  "sextet n = base64url_alphabet ! (n mod 64)"

text \<open>\<open>Buffer.toString("base64url")\<close>: three bytes are four characters, and there is no padding.\<close>

fun base64url :: "nat list \<Rightarrow> string" where
  "base64url [] = []"
| "base64url [a] = [sextet (a div 4), sextet (a mod 4 * 16)]"
| "base64url [a, b] = [sextet (a div 4), sextet (a mod 4 * 16 + b div 16), sextet (b mod 16 * 4)]"
| "base64url (a # b # c # rest) =
     sextet (a div 4) # sextet (a mod 4 * 16 + b div 16) # sextet (b mod 16 * 4 + c div 64) # sextet (c mod 64) #
     base64url rest"

definition readBigUInt64BE :: "nat list \<Rightarrow> nat" where
  "readBigUInt64BE bytes = fold (\<lambda>b n. n * 256 + b) (take 8 bytes) 0"

record session_service =
  sx_uuid :: "string \<Rightarrow> bool"
  sx_datetime :: "string \<Rightarrow> bool"
  sx_url :: "string \<Rightarrow> bool"
  sx_deriveSecret :: "string \<Rightarrow> string \<Rightarrow> string \<Rightarrow> nat list"
  sx_digestUploadValue :: "string \<Rightarrow> string"
  sx_hashRequest :: "(string \<times> string) list \<Rightarrow> string"
  sx_digestIdempotencyKey :: "string \<Rightarrow> string \<Rightarrow> string \<Rightarrow> string"
  sx_publicUploadOrigin :: string
  sx_idleTtlMinutes :: int
  sx_hardTtlMinutes :: int
  sx_idempotencyTtlHours :: int
  sx_retentionPolicy :: retention_policy
  sx_printerReadiness :: "(string \<Rightarrow> kiosk_db \<Rightarrow> tx_error + unit) option"

definition deriveUploadSecrets :: "session_service \<Rightarrow> string \<Rightarrow> string \<Rightarrow> string \<times> string" where
  "deriveUploadSecrets sx sessionId idempotencyKey =
     (let tokenBytes = sx_deriveSecret sx ''upload-token'' sessionId idempotencyKey;
          codeBytes = sx_deriveSecret sx ''short-code'' sessionId idempotencyKey;
          digits = show_nat (readBigUInt64BE codeBytes mod 100000000) in
      (''u_'' @ base64url tokenBytes, replicate (8 - length digits) (CHR ''0'') @ digits))"

text \<open>Two digests are compared only when both are 64 hexadecimal digits.\<close>

definition hex_digest :: "string \<Rightarrow> bool" where
  "hex_digest s \<longleftrightarrow> length s = 64 \<and> list_all (\<lambda>c. c \<in> set ''0123456789abcdef'') s"

definition safelyEqualHexDigests :: "string \<Rightarrow> string \<Rightarrow> bool" where
  "safelyEqualHexDigests left right \<longleftrightarrow> hex_digest left \<and> hex_digest right \<and> left = right"

text \<open>\<open>new URL(path, origin)\<close> for an origin, which the configuration checks it is.\<close>

definition buildUploadUrl :: "string \<Rightarrow> string \<Rightarrow> string \<Rightarrow> string" where
  "buildUploadUrl origin publicId uploadToken = origin @ ''/s/'' @ publicId @ ''#t='' @ uploadToken"

section \<open>Snapshots\<close>

record session_snapshot =
  sa_id :: string
  sa_publicId :: string
  sa_kioskId :: string
  sa_locale :: string
  sa_state :: string
  sa_version :: int
  sa_expiresAt :: string
  sa_hardExpiresAt :: string
  sa_createdAt :: string
  sa_canceledAt :: "string option"

definition toSessionSnapshot :: "session_row \<Rightarrow> session_snapshot" where
  "toSessionSnapshot s =
     \<lparr>sa_id = se_id s, sa_publicId = se_publicId s, sa_kioskId = se_kioskId s, sa_locale = se_locale s,
      sa_state = session_state_name (se_state s), sa_version = se_stateVersion s,
      sa_expiresAt = toISOString (se_idleExpiresAt s), sa_hardExpiresAt = toISOString (se_hardExpiresAt s),
      sa_createdAt = toISOString (se_createdAt s), sa_canceledAt = map_option toISOString (se_canceledAt s)\<rparr>"

definition publicId_ok :: "string \<Rightarrow> bool" where
  "publicId_ok s \<longleftrightarrow>
     take 3 s = ''ps_'' \<and> 16 \<le> length (drop 3 s) \<and> length (drop 3 s) \<le> 64 \<and>
     list_all (\<lambda>c. c \<in> set base64url_alphabet) (drop 3 s)"

definition sessionSnapshotSchema :: "session_service \<Rightarrow> session_snapshot \<Rightarrow> bool" where
  "sessionSnapshotSchema sx s \<longleftrightarrow>
     sx_uuid sx (sa_id s) \<and> publicId_ok (sa_publicId s) \<and>
     1 \<le> length (sa_kioskId s) \<and> length (sa_kioskId s) \<le> 64 \<and>
     sa_locale s \<in> {''en'', ''ru'', ''hy''} \<and> sa_state s \<in> set (map session_state_name SESSION_STATES) \<and>
     0 < sa_version s \<and> is_safe_integer (sa_version s) \<and> sx_datetime sx (sa_expiresAt s) \<and> sx_datetime sx (sa_hardExpiresAt s) \<and>
     sx_datetime sx (sa_createdAt s) \<and> (case sa_canceledAt s of None \<Rightarrow> True | Some t \<Rightarrow> sx_datetime sx t)"

text \<open>The body of an answer, and the stored body read again.\<close>

definition session_body :: "session_snapshot \<Rightarrow> json" where
  "session_body s =
     JObj [(''session'', JObj [(''id'', JStr (sa_id s)), (''publicId'', JStr (sa_publicId s)),
       (''kioskId'', JStr (sa_kioskId s)), (''locale'', JStr (sa_locale s)), (''state'', JStr (sa_state s)),
       (''version'', JNum (sa_version s)), (''expiresAt'', JStr (sa_expiresAt s)),
       (''hardExpiresAt'', JStr (sa_hardExpiresAt s)), (''createdAt'', JStr (sa_createdAt s)),
       (''canceledAt'', case sa_canceledAt s of None \<Rightarrow> JNull | Some t \<Rightarrow> JStr t)])]"

definition nullable_str :: "json \<Rightarrow> string \<Rightarrow> string option option" where
  "nullable_str v k =
     (case json_field v k of Some JNull \<Rightarrow> Some None | Some (JStr s) \<Rightarrow> Some (Some s) | _ \<Rightarrow> None)"

definition getSessionResponseSchema :: "session_service \<Rightarrow> json \<Rightarrow> tx_error + session_snapshot" where
  "getSessionResponseSchema sx body =
     (case json_field body ''session'' of
        None \<Rightarrow> Inl TX_SCHEMA
      | Some v \<Rightarrow>
          (case (str_field v ''id'', str_field v ''publicId'', str_field v ''kioskId'', str_field v ''locale'',
                 str_field v ''state'') of
             (Some i, Some pub, Some kio, Some loc, Some st) \<Rightarrow>
               (case (int_field v ''version'', str_field v ''expiresAt'', str_field v ''hardExpiresAt'',
                      str_field v ''createdAt'', nullable_str v ''canceledAt'') of
                  (Some ver, Some idle, Some hard, Some cre, Some can) \<Rightarrow>
                    let s = \<lparr>sa_id = i, sa_publicId = pub, sa_kioskId = kio, sa_locale = loc, sa_state = st,
                             sa_version = ver, sa_expiresAt = idle, sa_hardExpiresAt = hard, sa_createdAt = cre,
                             sa_canceledAt = can\<rparr> in
                    if sessionSnapshotSchema sx s then Inr s else Inl TX_SCHEMA
                | _ \<Rightarrow> Inl TX_SCHEMA)
           | _ \<Rightarrow> Inl TX_SCHEMA))"

lemma session_body_roundtrip:
  "sessionSnapshotSchema sx s \<Longrightarrow> getSessionResponseSchema sx (session_body s) = Inr s"
  by (cases "sa_canceledAt s")
    (simp_all add: getSessionResponseSchema_def session_body_def json_field_def str_field_def int_field_def
      nullable_str_def sessionSnapshotSchema_def Let_def)

section \<open>Shared steps\<close>

definition SESSION_TERMINAL_STATES :: "session_state list" where
  "SESSION_TERMINAL_STATES = [S_COMPLETED, S_CANCELED, S_EXPIRED, S_FAILED, S_RECOVERY_REQUIRED]"

definition EXPIRABLE_STATES :: "session_state list" where
  "EXPIRABLE_STATES = [S_CREATED, S_WAITING_FOR_UPLOAD, S_FILES_UPLOADED, S_CONFIGURING, S_AWAITING_PAYMENT]"

definition isExpirable :: "session_state \<Rightarrow> bool" where
  "isExpirable state \<longleftrightarrow> state \<in> set EXPIRABLE_STATES"

definition sessionHasExpired :: "session_row \<Rightarrow> db_time \<Rightarrow> bool" where
  "sessionHasExpired s now = isSessionExpired (Some now) (Some (se_idleExpiresAt s)) (Some (se_hardExpiresAt s))"

definition session_over :: "session_row \<Rightarrow> db_time \<Rightarrow> bool" where
  "session_over s now \<longleftrightarrow> se_state s = S_EXPIRED \<or> (isExpirable (se_state s) \<and> sessionHasExpired s now)"

definition lockKiosk :: "string \<Rightarrow> kiosk_db \<Rightarrow> tx_error + unit" where
  "lockKiosk kioskId db =
     require (list_ex (\<lambda>k. kk_id k = kioskId) (db_kiosks db)) (ApiError 404 ''KIOSK_NOT_FOUND'')"

definition same_key :: "session_service \<Rightarrow> string \<Rightarrow> string \<Rightarrow> string \<Rightarrow> idempotency_row \<Rightarrow> bool" where
  "same_key sx actorId action key r \<longleftrightarrow>
     ir_actorId r = actorId \<and> ir_action r = action \<and> ir_keyDigest r = sx_digestIdempotencyKey sx actorId action key"

definition deleteExpiredIdempotencyRecord ::
  "session_service \<Rightarrow> string \<Rightarrow> string \<Rightarrow> string \<Rightarrow> db_time \<Rightarrow> kiosk_db \<Rightarrow> kiosk_db" where
  "deleteExpiredIdempotencyRecord sx actorId action key now db =
     db\<lparr>db_idempotency := filter (\<lambda>r. \<not> (same_key sx actorId action key r \<and> ir_expiresAt r \<le> now)) (db_idempotency db)\<rparr>"

definition findIdempotencyRecord ::
  "session_service \<Rightarrow> string \<Rightarrow> string \<Rightarrow> string \<Rightarrow> kiosk_db \<Rightarrow> idempotency_row option" where
  "findIdempotencyRecord sx actorId action key db = List.find (same_key sx actorId action key) (db_idempotency db)"

text \<open>An insert that a unique index refuses is the error named after the index.\<close>

definition storeIdempotency ::
  "session_service \<Rightarrow> string \<Rightarrow> string \<Rightarrow> string \<Rightarrow> string \<Rightarrow> json \<Rightarrow> string \<Rightarrow> db_time \<Rightarrow> string \<Rightarrow> kiosk_db
   \<Rightarrow> tx_error + kiosk_db" where
  "storeIdempotency sx actorId action key requestHash body resourceId now newId db =
     (if list_ex (same_key sx actorId action key) (db_idempotency db) then Inl (TX_LOST_RACE ''key_digest'')
      else Inr (db\<lparr>db_idempotency := db_idempotency db @
        [\<lparr>ir_id = newId, ir_actorId = actorId, ir_action = action,
          ir_keyDigest = sx_digestIdempotencyKey sx actorId action key, ir_requestHash = requestHash,
          ir_responseBody = Some body, ir_resourceId = Some resourceId, ir_createdAt = now,
          ir_expiresAt = now + sx_idempotencyTtlHours sx * 3600000\<rparr>]\<rparr>))"

definition session_event :: "string \<Rightarrow> session_row \<Rightarrow> int \<Rightarrow> string \<Rightarrow> versioned_session_state \<Rightarrow> outbox_row" where
  "session_event oid session sequence type after =
     \<lparr>ob_id = oid, ob_aggregateId = se_id session, ob_sequence = sequence, ob_type = type,
      ob_payload = JObj [(''sessionId'', JStr (se_id session)), (''state'', JStr (session_state_name (vs_state after))),
        (''version'', JNum (vs_version after))]\<rparr>"

definition session_audit ::
  "string \<Rightarrow> db_time \<Rightarrow> string \<Rightarrow> string \<Rightarrow> session_row \<Rightarrow> string \<Rightarrow> string \<Rightarrow> (string \<times> json) list \<Rightarrow> audit_row" where
  "session_audit aid now actorType actorId session action requestId metadata =
     \<lparr>au_id = aid, au_occurredAt = now, au_actorType = actorType, au_actorId = actorId,
      au_kioskId = Some (se_kioskId session), au_sessionId = se_id session, au_action = action, au_outcome = ''SUCCESS'',
      au_requestId = Some requestId, au_metadata = JObj metadata\<rparr>"

section \<open>Ending a session that has not been paid\<close>

text \<open>
  What a cancellation and an expiry do first: an open payment is closed, the live price retired, and
  the session takes the events of both before its own.
\<close>

definition closeMoney ::
  "session_row \<Rightarrow> versioned_session_state \<Rightarrow> db_time \<Rightarrow> (nat \<Rightarrow> string) \<Rightarrow> kiosk_db \<Rightarrow> tx_error + (int \<times> kiosk_db)" where
  "closeMoney session after now newId db =
     (case releaseSessionPayments (se_id session) now (se_eventSequence session) newId (vs_state after) (vs_version after) db of
        (release, db1) \<Rightarrow>
          bind_result (invalidateSessionPricing (se_id session) SESSION_TERMINAL now (sp_nextSequence release) (newId 2) False db1)
            (\<lambda>((sequence, _), db2). Inr (sequence + 1, db2)))"

definition end_access :: "access_status \<Rightarrow> string \<Rightarrow> db_time \<Rightarrow> kiosk_db \<Rightarrow> kiosk_db" where
  "end_access status sessionId now db =
     db\<lparr>db_grants := updated (\<lambda>g. ug_sessionId g = sessionId \<and> ug_status g \<in> {A_ACTIVE, A_CLAIMED})
                      (\<lambda>g. g\<lparr>ug_status := status, ug_revokedAt := Some now\<rparr>) (db_grants db),
        db_clients := updated (\<lambda>c. mc_sessionId c = sessionId \<and> mc_status c = A_ACTIVE)
                       (\<lambda>c. c\<lparr>mc_status := status, mc_revokedAt := Some now\<rparr>) (db_clients db)\<rparr>"

definition expireSession ::
  "session_service \<Rightarrow> session_row \<Rightarrow> db_time \<Rightarrow> string \<Rightarrow> string \<Rightarrow> (nat \<Rightarrow> string) \<Rightarrow> kiosk_db \<Rightarrow> tx_error + kiosk_db" where
  "expireSession sx session now credentialId requestId newId db =
     (case transitionSession \<lparr>vs_state = se_state session, vs_version = se_stateVersion session\<rparr> S_EXPIRED
             (se_stateVersion session) of
        Inl e \<Rightarrow> Inl (TX_SESSION e)
      | Inr after \<Rightarrow>
          bind_result (closeMoney session after now newId db) (\<lambda>(sequence, db1).
          let ended = update_many (\<lambda>s. se_id s = se_id session)
                (\<lambda>s. s\<lparr>se_state := vs_state after, se_stateVersion := vs_version after, se_eventSequence := sequence,
                      se_terminalReason := Some ''IDLE_TIMEOUT'', se_expiredAt := Some now\<rparr>) (db_sessions db1) in
          if fst ended = 0 then Inl TX_NOT_FOUND
          else
            bind_result (scheduleSessionFilesForCleanup (se_id session) now (Some (T_EXPIRED, Some (sx_retentionPolicy sx)))
                (end_access A_EXPIRED (se_id session) now (db1\<lparr>db_sessions := snd ended\<rparr>))) (\<lambda>db2.
            Inr (db2\<lparr>
              db_audit := db_audit db2 @ [session_audit (newId 3) now ''SYSTEM'' credentialId session ''session.expired'' requestId
                [(''previousState'', JStr (session_state_name (se_state session))), (''version'', JNum (vs_version after))]],
              db_outbox := db_outbox db2 @ [session_event (newId 4) session sequence ''session.expired'' after]\<rparr>))))"

section \<open>Cancelling\<close>

record cancel_session_input =
  cs_kioskId :: string
  cs_sessionId :: string
  cs_credentialId :: string
  cs_expectedVersion :: int
  cs_idempotencyKey :: string
  cs_requestId :: string

definition cancelSession_fresh ::
  "session_service \<Rightarrow> cancel_session_input \<Rightarrow> session_row \<Rightarrow> string \<Rightarrow> string \<Rightarrow> db_time \<Rightarrow> (nat \<Rightarrow> string) \<Rightarrow> kiosk_db
   \<Rightarrow> tx_error + (session_snapshot \<times> kiosk_db)" where
  "cancelSession_fresh sx input session action requestHash now newId db =
     (if list_ex (\<lambda>p. py_sessionId p = se_id session \<and> py_status p = PS_CAPTURED \<and> py_appliedToSession p) (db_payments db)
      then Inl (ApiError 409 ''PAYMENT_ALREADY_CAPTURED'')
      else case transitionSession \<lparr>vs_state = se_state session, vs_version = se_stateVersion session\<rparr> S_CANCELED
                  (cs_expectedVersion input) of
        Inl e \<Rightarrow> Inl (TX_SESSION e)
      | Inr after \<Rightarrow>
          bind_result (closeMoney session after now newId db) (\<lambda>(sequence, db1).
          let ended = update_many (\<lambda>s. se_id s = se_id session \<and> se_stateVersion s = cs_expectedVersion input)
                (\<lambda>s. s\<lparr>se_state := vs_state after, se_stateVersion := vs_version after, se_eventSequence := sequence,
                      se_terminalReason := Some ''CUSTOMER_CANCELED'', se_canceledAt := Some now\<rparr>) (db_sessions db1) in
          if fst ended \<noteq> 1 then Inl (ApiError 412 ''STALE_SESSION_VERSION'')
          else
            bind_result (scheduleSessionFilesForCleanup (se_id session) now (Some (T_CANCELED, Some (sx_retentionPolicy sx)))
                (end_access A_REVOKED (se_id session) now (db1\<lparr>db_sessions := snd ended\<rparr>))) (\<lambda>db2.
            case List.find (\<lambda>s. se_id s = se_id session) (db_sessions db2) of
              None \<Rightarrow> Inl TX_NOT_FOUND
            | Some canceled \<Rightarrow>
                if \<not> sessionSnapshotSchema sx (toSessionSnapshot canceled) then Inl TX_SCHEMA
                else bind_result
                  (storeIdempotency sx (cs_kioskId input) action (cs_idempotencyKey input) requestHash
                     (session_body (toSessionSnapshot canceled)) (se_id session) now (newId 5)
                     (db2\<lparr>
                       db_audit := db_audit db2 @ [session_audit (newId 3) now ''KIOSK'' (cs_credentialId input)
                         session ''session.canceled'' (cs_requestId input)
                         [(''previousState'', JStr (session_state_name (se_state session))), (''version'', JNum (vs_version after))]],
                       db_outbox := db_outbox db2 @ [session_event (newId 4) session sequence ''session.canceled'' after]\<rparr>))
                  (\<lambda>db3. Inr (toSessionSnapshot canceled, db3)))))"

definition mapSessionError :: "tx_error \<Rightarrow> tx_error" where
  "mapSessionError e =
     (case e of
        TX_SESSION (STALE_SESSION_VERSION _ _) \<Rightarrow> ApiError 412 ''STALE_SESSION_VERSION''
      | TX_SESSION (INVALID_SESSION_TRANSITION _ _) \<Rightarrow> ApiError 409 ''INVALID_SESSION_TRANSITION''
      | other \<Rightarrow> other)"

text \<open>The clock is read before the replay is looked up, for the expiry and for the change.\<close>

definition cancelSession ::
  "session_service \<Rightarrow> cancel_session_input \<Rightarrow> db_time \<times> db_time \<times> db_time \<Rightarrow> (nat \<Rightarrow> string) \<Rightarrow> kiosk_db
   \<Rightarrow> tx_error + (session_snapshot \<times> kiosk_db)" where
  "cancelSession sx input clock newId db =
     (let action = ''sessions.cancel:'' @ cs_sessionId input;
          requestHash = sx_hashRequest sx [(''sessionId'', cs_sessionId input),
            (''expectedVersion'', show_int (cs_expectedVersion input))] in
      case bind_result (lockSession (cs_sessionId input) (cs_kioskId input) db) (\<lambda>_.
        let db1 = deleteExpiredIdempotencyRecord sx (cs_kioskId input) action (cs_idempotencyKey input) (fst clock) db in
        case findIdempotencyRecord sx (cs_kioskId input) action (cs_idempotencyKey input) db1 of
          Some replay \<Rightarrow>
            bind_result (assertMatchingRequest (ir_requestHash replay) requestHash) (\<lambda>_.
            bind_result (case ir_responseBody replay of None \<Rightarrow> Inl TX_SCHEMA | Some body \<Rightarrow> getSessionResponseSchema sx body)
              (\<lambda>snapshot. Inr (snapshot, db1)))
        | None \<Rightarrow>
            (case List.find (\<lambda>s. se_id s = cs_sessionId input \<and> se_kioskId s = cs_kioskId input) (db_sessions db1) of
               None \<Rightarrow> Inl (ApiError 404 ''SESSION_NOT_FOUND'')
             | Some session \<Rightarrow>
                 if session_over session (fst (snd clock)) then Inl (ApiError 410 ''SESSION_EXPIRED'')
                 else cancelSession_fresh sx input session action requestHash (snd (snd clock)) newId db1)) of
        Inl e \<Rightarrow> Inl (mapSessionError e) | Inr v \<Rightarrow> Inr v)"

section \<open>Reading\<close>

definition getSession :: "session_service \<Rightarrow> string \<Rightarrow> string \<Rightarrow> db_time \<Rightarrow> kiosk_db \<Rightarrow> tx_error + session_snapshot" where
  "getSession sx kioskId sessionId now db =
     (case List.find (\<lambda>s. se_id s = sessionId \<and> se_kioskId s = kioskId) (db_sessions db) of
        None \<Rightarrow> Inl (ApiError 404 ''SESSION_NOT_FOUND'')
      | Some s \<Rightarrow>
          if session_over s now then Inl (ApiError 410 ''SESSION_EXPIRED'')
          else if sessionSnapshotSchema sx (toSessionSnapshot s) then Inr (toSessionSnapshot s) else Inl TX_SCHEMA)"

section \<open>Creating\<close>

record create_session_input =
  co_kioskId :: string
  co_credentialId :: string
  co_locale :: string
  co_idempotencyKey :: string
  co_requestId :: string

record session_candidate =
  cd_sessionId :: string
  cd_publicId :: string
  cd_uploadToken :: string
  cd_shortCode :: string
  cd_tokenDigest :: string
  cd_shortCodeDigest :: string

definition createCandidate :: "session_service \<Rightarrow> string \<Rightarrow> string \<Rightarrow> string \<Rightarrow> session_candidate" where
  "createCandidate sx sessionId token idempotencyKey =
     (case deriveUploadSecrets sx sessionId idempotencyKey of
        (uploadToken, shortCode) \<Rightarrow>
          \<lparr>cd_sessionId = sessionId, cd_publicId = ''ps_'' @ token, cd_uploadToken = uploadToken, cd_shortCode = shortCode,
           cd_tokenDigest = sx_digestUploadValue sx uploadToken, cd_shortCodeDigest = sx_digestUploadValue sx shortCode\<rparr>)"

record create_session_response =
  rs_session :: session_snapshot
  rs_shortCode :: string
  rs_qrUrl :: string

definition createSessionResponseSchema :: "session_service \<Rightarrow> create_session_response \<Rightarrow> tx_error + create_session_response" where
  "createSessionResponseSchema sx r =
     (if sessionSnapshotSchema sx (rs_session r) \<and> length (rs_shortCode r) = 8 \<and> list_all is_digit (rs_shortCode r) \<and>
         sx_url sx (rs_qrUrl r)
      then Inr r else Inl TX_SCHEMA)"

text \<open>The newest row of a kind: \<open>findFirst\<close> in descending order of creation.\<close>

definition newest :: "('r \<Rightarrow> db_time) \<Rightarrow> 'r list \<Rightarrow> 'r option" where
  "newest created rows = (case sort_key (\<lambda>r. - created r) rows of [] \<Rightarrow> None | r # _ \<Rightarrow> Some r)"

definition restoreCreateResponse ::
  "session_service \<Rightarrow> string \<Rightarrow> string \<Rightarrow> idempotency_row \<Rightarrow> db_time \<Rightarrow> kiosk_db \<Rightarrow> tx_error + create_session_response" where
  "restoreCreateResponse sx kioskId idempotencyKey replay now db =
     bind_result (case ir_responseBody replay of None \<Rightarrow> Inl TX_SCHEMA | Some body \<Rightarrow> getSessionResponseSchema sx body) (\<lambda>stored.
     case truthy (ir_resourceId replay) of
       None \<Rightarrow> Inl (ApiError 409 ''IDEMPOTENCY_RECORD_INVALID'')
     | Some resourceId \<Rightarrow>
       if sa_id stored \<noteq> resourceId \<or> sa_kioskId stored \<noteq> kioskId then Inl (ApiError 409 ''IDEMPOTENCY_RECORD_INVALID'')
       else bind_result (lockSession resourceId kioskId db) (\<lambda>_.
       case List.find (\<lambda>s. se_id s = resourceId \<and> se_kioskId s = kioskId) (db_sessions db) of
         None \<Rightarrow> Inl (ApiError 404 ''SESSION_NOT_FOUND'')
       | Some session \<Rightarrow>
           (case newest ug_createdAt (filter (\<lambda>g. ug_sessionId g = se_id session \<and> ug_status g = A_ACTIVE) (db_grants db)) of
              None \<Rightarrow> Inl (ApiError 410 ''SESSION_UPLOAD_GRANT_EXPIRED'')
            | Some uploadGrant \<Rightarrow>
                if sessionHasExpired session now \<or> ug_revokedAt uploadGrant \<noteq> None \<or> ug_expiresAt uploadGrant \<le> now
                then Inl (ApiError 410 ''SESSION_UPLOAD_GRANT_EXPIRED'')
                else if sa_state stored \<noteq> ''WAITING_FOR_UPLOAD'' \<or> sa_version stored \<noteq> 1 \<or>
                  session_state_name (se_state session) \<noteq> sa_state stored \<or> se_stateVersion session \<noteq> sa_version stored
                then Inl (ApiError 409 ''SESSION_UPLOAD_GRANT_REPLAY_UNAVAILABLE'')
                else if stored \<noteq> toSessionSnapshot session then Inl (ApiError 409 ''IDEMPOTENCY_RECORD_INVALID'')
                else
                  (case deriveUploadSecrets sx (se_id session) idempotencyKey of
                     (uploadToken, shortCode) \<Rightarrow>
                       if \<not> safelyEqualHexDigests (sx_digestUploadValue sx uploadToken) (ug_tokenDigest uploadGrant) \<or>
                          \<not> safelyEqualHexDigests (sx_digestUploadValue sx shortCode) (ug_shortCodeDigest uploadGrant)
                       then Inl (ApiError 409 ''SESSION_UPLOAD_GRANT_REPLAY_UNAVAILABLE'')
                       else createSessionResponseSchema sx
                         \<lparr>rs_session = stored, rs_shortCode = shortCode,
                          rs_qrUrl = buildUploadUrl (sx_publicUploadOrigin sx) (se_publicId session) uploadToken\<rparr>))))"

text \<open>The rows of a new session, as far as the unique indexes allow them.\<close>

definition newSession :: "session_service \<Rightarrow> create_session_input \<Rightarrow> session_candidate \<Rightarrow> db_time \<Rightarrow> session_row" where
  "newSession sx input candidate now =
     \<lparr>se_id = cd_sessionId candidate, se_kioskId = co_kioskId input, se_state = S_WAITING_FOR_UPLOAD, se_stateVersion = 1,
      se_eventSequence = 1, se_terminalReason = None, se_cleanupStatus = CL_NOT_DUE, se_cleanupDueAt = None,
      se_completedAt = None, se_currentSettingsRevision = None, se_activeQuoteId = None,
      se_idleExpiresAt = now + sx_idleTtlMinutes sx * 60000, se_hardExpiresAt = now + sx_hardTtlMinutes sx * 60000,
      se_canceledAt = None, se_expiredAt = None, se_publicId = cd_publicId candidate, se_locale = co_locale input,
      se_createdAt = now\<rparr>"

definition newGrant :: "session_candidate \<Rightarrow> session_row \<Rightarrow> string \<Rightarrow> grant_row" where
  "newGrant candidate session gid =
     \<lparr>ug_id = gid, ug_sessionId = se_id session, ug_tokenDigest = cd_tokenDigest candidate,
      ug_shortCodeDigest = cd_shortCodeDigest candidate, ug_status = A_ACTIVE, ug_expiresAt = se_idleExpiresAt session,
      ug_createdAt = se_createdAt session, ug_claimedClientId = None, ug_claimedAt = None, ug_revokedAt = None\<rparr>"

definition insertSession :: "session_row \<Rightarrow> kiosk_db \<Rightarrow> tx_error + kiosk_db" where
  "insertSession session db =
     (if list_ex (\<lambda>s. se_id s = se_id session) (db_sessions db) then Inl TX_UNIQUE_VIOLATION
      else if list_ex (\<lambda>s. se_publicId s = se_publicId session) (db_sessions db) then Inl (TX_LOST_RACE ''public_id'')
      else if list_ex (\<lambda>s. se_kioskId s = se_kioskId session \<and> se_state s \<notin> set SESSION_TERMINAL_STATES) (db_sessions db)
      then Inl (TX_LOST_RACE ''one_active_per_kiosk'')
      else Inr (db\<lparr>db_sessions := db_sessions db @ [session]\<rparr>))"

definition insertGrant :: "grant_row \<Rightarrow> kiosk_db \<Rightarrow> tx_error + kiosk_db" where
  "insertGrant grant db =
     (if list_ex (\<lambda>g. ug_tokenDigest g = ug_tokenDigest grant) (db_grants db) then Inl (TX_LOST_RACE ''token_digest'')
      else if list_ex (\<lambda>g. ug_shortCodeDigest g = ug_shortCodeDigest grant \<and> ug_status g \<in> {A_ACTIVE, A_CLAIMED}) (db_grants db)
      then Inl (TX_LOST_RACE ''short_code_digest'')
      else Inr (db\<lparr>db_grants := db_grants db @ [grant]\<rparr>))"

text \<open>The one session of the kiosk that is still in the way: expired if it may be, an error otherwise.\<close>

definition clearKiosk ::
  "session_service \<Rightarrow> create_session_input \<Rightarrow> db_time \<Rightarrow> (nat \<Rightarrow> string) \<Rightarrow> kiosk_db \<Rightarrow> tx_error + kiosk_db" where
  "clearKiosk sx input now newId db =
     (case newest se_createdAt (filter (\<lambda>s. se_kioskId s = co_kioskId input \<and> se_state s \<notin> set SESSION_TERMINAL_STATES)
             (db_sessions db)) of
        None \<Rightarrow> Inr db
      | Some existing \<Rightarrow>
          if isExpirable (se_state existing) \<and> sessionHasExpired existing now
          then expireSession sx existing now (co_credentialId input) (co_requestId input) newId db
          else Inl (ApiError 409 ''ACTIVE_SESSION_EXISTS''))"

definition candidate_collides :: "session_candidate \<Rightarrow> kiosk_db \<Rightarrow> bool" where
  "candidate_collides candidate db \<longleftrightarrow>
     list_ex (\<lambda>g. ug_tokenDigest g = cd_tokenDigest candidate \<or>
       ug_shortCodeDigest g = cd_shortCodeDigest candidate \<and> ug_status g = A_ACTIVE) (db_grants db) \<or>
     list_ex (\<lambda>s. se_publicId s = cd_publicId candidate) (db_sessions db)"

definition createSession_fresh ::
  "session_service \<Rightarrow> create_session_input \<Rightarrow> session_candidate \<Rightarrow> string \<Rightarrow> db_time \<Rightarrow> (nat \<Rightarrow> string) \<Rightarrow> kiosk_db
   \<Rightarrow> tx_error + (create_session_response \<times> kiosk_db)" where
  "createSession_fresh sx input candidate requestHash now newId db =
     bind_result (case sx_printerReadiness sx of None \<Rightarrow> Inr () | Some assertReady \<Rightarrow> assertReady (co_kioskId input) db) (\<lambda>_.
     bind_result (clearKiosk sx input now newId db) (\<lambda>db1.
     if candidate_collides candidate db1 then Inl (TX_LOST_RACE ''public_id'')
     else
       let session = newSession sx input candidate now in
       bind_result (insertSession session db1) (\<lambda>db2.
       bind_result (insertGrant (newGrant candidate session (newId 5)) db2) (\<lambda>db3.
       bind_result (createSessionResponseSchema sx
          \<lparr>rs_session = toSessionSnapshot session, rs_shortCode = cd_shortCode candidate,
           rs_qrUrl = buildUploadUrl (sx_publicUploadOrigin sx) (cd_publicId candidate) (cd_uploadToken candidate)\<rparr>) (\<lambda>response.
       bind_result (storeIdempotency sx (co_kioskId input) ''sessions.create'' (co_idempotencyKey input) requestHash
           (session_body (rs_session response)) (se_id session) now (newId 8)
           (db3\<lparr>
             db_audit := db_audit db3 @ [session_audit (newId 6) now ''KIOSK'' (co_credentialId input) session
               ''session.created'' (co_requestId input) [(''locale'', JStr (co_locale input))]],
             db_outbox := db_outbox db3 @
               [\<lparr>ob_id = newId 7, ob_aggregateId = se_id session, ob_sequence = 1, ob_type = ''session.created'',
                 ob_payload = JObj [(''sessionId'', JStr (se_id session)), (''kioskId'', JStr (co_kioskId input)),
                   (''state'', JStr (session_state_name (se_state session))), (''version'', JNum (se_stateVersion session))]\<rparr>]\<rparr>))
         (\<lambda>db4. Inr (response, db4)))))))"

text \<open>What one attempt is given: the moments it reads, fresh identifiers, a random token, and whether
the database refuses to serialise it.\<close>

record create_attempt =
  ca_now :: db_time
  ca_replayNow :: db_time
  ca_sessionId :: string
  ca_token :: string
  ca_newId :: "nat \<Rightarrow> string"
  ca_conflict :: bool

definition createSessionOnce ::
  "session_service \<Rightarrow> create_session_input \<Rightarrow> create_attempt \<Rightarrow> kiosk_db \<Rightarrow> tx_error + (create_session_response \<times> kiosk_db)" where
  "createSessionOnce sx input a db =
     (let action = ''sessions.create'';
          requestHash = sx_hashRequest sx [(''kioskId'', co_kioskId input), (''locale'', co_locale input)];
          candidate = createCandidate sx (ca_sessionId a) (ca_token a) (co_idempotencyKey input) in
      bind_result (lockKiosk (co_kioskId input) db) (\<lambda>_.
      let db1 = deleteExpiredIdempotencyRecord sx (co_kioskId input) action (co_idempotencyKey input) (ca_now a) db in
      case findIdempotencyRecord sx (co_kioskId input) action (co_idempotencyKey input) db1 of
        Some replay \<Rightarrow>
          bind_result (assertMatchingRequest (ir_requestHash replay) requestHash) (\<lambda>_.
          bind_result (restoreCreateResponse sx (co_kioskId input) (co_idempotencyKey input) replay (ca_replayNow a) db1)
            (\<lambda>response. Inr (response, db1)))
      | None \<Rightarrow> createSession_fresh sx input candidate requestHash (ca_now a) (ca_newId a) db1))"

datatype retry_reason = RETRY_ALLOCATION | RETRY_CONCURRENCY

definition retry_after :: "tx_error \<Rightarrow> retry_reason option" where
  "retry_after e =
     (case e of
        TX_LOST_RACE index \<Rightarrow>
          if index \<in> {''public_id'', ''token_digest'', ''short_code_digest''} then Some RETRY_ALLOCATION
          else if index \<in> {''one_active_per_kiosk'', ''key_digest''} then Some RETRY_CONCURRENCY
          else None
      | _ \<Rightarrow> None)"

definition CREATE_TRANSACTION_ATTEMPTS :: nat where
  "CREATE_TRANSACTION_ATTEMPTS = 5"

fun createSessionLoop ::
  "session_service \<Rightarrow> create_session_input \<Rightarrow> create_attempt list \<Rightarrow> retry_reason \<Rightarrow> kiosk_db
   \<Rightarrow> tx_error + (create_session_response \<times> kiosk_db)" where
  "createSessionLoop sx input [] lastRetryReason db =
     Inl (if lastRetryReason = RETRY_CONCURRENCY then ApiError 409 ''CONCURRENT_SESSION_UPDATE''
          else ApiError 503 ''SESSION_CODE_ALLOCATION_FAILED'')"
| "createSessionLoop sx input (a # attempts) lastRetryReason db =
     (if ca_conflict a then createSessionLoop sx input attempts RETRY_CONCURRENCY db
      else case createSessionOnce sx input a db of
        Inr r \<Rightarrow> Inr r
      | Inl e \<Rightarrow> (case retry_after e of
          Some reason \<Rightarrow> createSessionLoop sx input attempts reason db
        | None \<Rightarrow> Inl e))"

definition createSession ::
  "session_service \<Rightarrow> create_session_input \<Rightarrow> create_attempt list \<Rightarrow> kiosk_db \<Rightarrow> tx_error + (create_session_response \<times> kiosk_db)" where
  "createSession sx input attempts db =
     createSessionLoop sx input (take CREATE_TRANSACTION_ATTEMPTS attempts) RETRY_ALLOCATION db"

end
