(* ===== verification/Settings_Service.thy ===== *)
theory Settings_Service
  imports Session_Service Json
begin

text \<open>
  \<^verbatim>\<open>services/api/src/modules/settings/service.ts\<close> and \<^verbatim>\<open>capabilities.ts\<close>: saving a revision of the customer's
  settings, reading the current one, and what the kiosk may offer. A revision is stored as the
  normalised settings with the hash of their manifest, and replaces whatever was priced before it.
\<close>

section \<open>The service\<close>

text \<open>The options of the settings and of the quotes; the quote's lifetime is read only by the latter.\<close>

record pricing_service =
  px_uuid :: "string \<Rightarrow> bool"
  px_datetime :: "string \<Rightarrow> bool"
  px_sha256 :: "string \<Rightarrow> string"
  px_hashRequest :: "(string \<times> string) list \<Rightarrow> string"
  px_digestIdempotencyKey :: "string \<Rightarrow> string \<Rightarrow> string \<Rightarrow> string"
  px_idempotencyTtlHours :: int
  px_quoteTtlSeconds :: int
  px_limits :: print_settings_limits

definition CONFIGURABLE_STATES :: "session_state list" where
  "CONFIGURABLE_STATES = [S_FILES_UPLOADED, S_CONFIGURING]"

definition LOCKED_STATES :: "session_state list" where
  "LOCKED_STATES = [S_AWAITING_PAYMENT, S_PAID, S_PRINTING]"

definition MAX_TRANSACTION_ATTEMPTS :: nat where
  "MAX_TRANSACTION_ATTEMPTS = 5"

text \<open>
  Attempts of one transaction, each with what it reads and draws: one that the database refuses to
  serialise, or that loses a unique index, is run again on the database as it is; any other error
  ends the request.
\<close>

fun retried ::
  "('a \<Rightarrow> bool) \<Rightarrow> ('a \<Rightarrow> kiosk_db \<Rightarrow> tx_error + ('r \<times> kiosk_db)) \<Rightarrow> (tx_error \<Rightarrow> tx_error) \<Rightarrow> 'a list \<Rightarrow> kiosk_db
   \<Rightarrow> tx_error + ('r \<times> kiosk_db)" where
  "retried conflict run mapError [] db = Inl (ApiError 409 ''CONCURRENT_SESSION_UPDATE'')"
| "retried conflict run mapError (a # attempts) db =
     (if conflict a then retried conflict run mapError attempts db
      else case run a db of
        Inr r \<Rightarrow> Inr r
      | Inl e \<Rightarrow> if e = TX_UNIQUE_VIOLATION then retried conflict run mapError attempts db else Inl (mapError e))"

record pricing_attempt =
  pa_now :: db_time
  pa_newId :: "nat \<Rightarrow> string"
  pa_conflict :: bool

definition find_replay ::
  "pricing_service \<Rightarrow> string \<Rightarrow> string \<Rightarrow> string \<Rightarrow> db_time \<Rightarrow> kiosk_db \<Rightarrow> idempotency_row option \<times> kiosk_db" where
  "find_replay px actorId action key now db =
     (let keyDigest = px_digestIdempotencyKey px actorId action key in
      case List.find (\<lambda>r. ir_actorId r = actorId \<and> ir_action r = action \<and> ir_keyDigest r = keyDigest) (db_idempotency db) of
        None \<Rightarrow> (None, db)
      | Some record \<Rightarrow>
          if now < ir_expiresAt record then (Some record, db)
          else (None, db\<lparr>db_idempotency :=
            filter (\<lambda>r. \<not> (ir_id r = ir_id record \<and> ir_expiresAt r \<le> now)) (db_idempotency db)\<rparr>))"

definition store_replay ::
  "pricing_service \<Rightarrow> string \<Rightarrow> string \<Rightarrow> string \<Rightarrow> string \<Rightarrow> json option \<Rightarrow> string \<Rightarrow> db_time \<Rightarrow> string \<Rightarrow> kiosk_db
   \<Rightarrow> tx_error + kiosk_db" where
  "store_replay px actorId action key requestHash body resourceId now newId db =
     (let keyDigest = px_digestIdempotencyKey px actorId action key in
      if list_ex (\<lambda>r. ir_actorId r = actorId \<and> ir_action r = action \<and> ir_keyDigest r = keyDigest) (db_idempotency db)
      then Inl TX_UNIQUE_VIOLATION
      else Inr (db\<lparr>db_idempotency := db_idempotency db @
        [\<lparr>ir_id = newId, ir_actorId = actorId, ir_action = action, ir_keyDigest = keyDigest,
          ir_requestHash = requestHash, ir_responseBody = body, ir_resourceId = Some resourceId, ir_createdAt = now,
          ir_expiresAt = now + px_idempotencyTtlHours px * 3600000\<rparr>]\<rparr>))"

section \<open>What the kiosk can print\<close>

definition readEnumList :: "('a \<Rightarrow> string) \<Rightarrow> json option \<Rightarrow> 'a list \<Rightarrow> 'a list" where
  "readEnumList name_of v allowed =
     (case v of Some (JArr vs) \<Rightarrow> filter (\<lambda>option. JStr (name_of option) \<in> set vs) allowed | _ \<Rightarrow> [])"

definition readPositiveInteger :: "json option \<Rightarrow> int option" where
  "readPositiveInteger v = (case v of Some (JNum n) \<Rightarrow> if is_safe_integer n \<and> 0 < n then Some n else None | _ \<Rightarrow> None)"

definition readPrinterCapabilities :: "kiosk_row \<Rightarrow> print_settings_limits \<Rightarrow> printer_capabilities" where
  "readPrinterCapabilities kiosk limits =
     (let snapshot = json_field (kk_capabilities kiosk);
          declaredDuplex = readEnumList duplex_name (snapshot ''duplexModes'') [SIMPLEX, LONG_EDGE];
          paperSizes = readEnumList paper_name (snapshot ''paperSizes'') [A4];
          declaredColorModes = readEnumList color_name (snapshot ''colorModes'') [PRINT_COLOR_MODE] in
      \<lparr>pc_version = kk_capabilitiesVersion kiosk,
       pc_paperSizes = (if paperSizes \<noteq> [] then paperSizes else [A4]),
       pc_colorModes = (if declaredColorModes \<noteq> [] then declaredColorModes
         else if snapshot ''outputMode'' = Some (JStr (color_name PRINT_COLOR_MODE)) then [PRINT_COLOR_MODE] else []),
       pc_duplexModes = (if declaredDuplex \<noteq> [] then declaredDuplex
         else if snapshot ''duplex'' = Some (JBool True) then [SIMPLEX, LONG_EDGE] else [SIMPLEX]),
       pc_scalingModes = [FIT], pc_orientations = [O_AUTO],
       pc_maxCopies = min (case readPositiveInteger (snapshot ''maxCopies'') of Some n \<Rightarrow> n | None \<Rightarrow> pl_maxCopies limits)
         (pl_maxCopies limits)\<rparr>)"

text \<open>The documents of a session that can be selected, in the order of their ordinals.\<close>

definition selectable_of :: "file_row \<Rightarrow> selectable_file list" where
  "selectable_of f =
     (case (fr_pageCount f, fr_contentSha256 f) of
        (Some pages, Some sha) \<Rightarrow>
          [\<lparr>sf_id = fr_id f, sf_pageCount = pages, sf_processingRevision = fr_processingRevision f, sf_contentSha256 = sha\<rparr>]
      | _ \<Rightarrow> [])"

definition selectableFiles :: "string \<Rightarrow> kiosk_db \<Rightarrow> selectable_file list" where
  "selectableFiles sessionId db =
     concat (map selectable_of
       (sort_key fr_ordinal (filter (\<lambda>f. fr_sessionId f = sessionId \<and> fr_status f = F_READY) (db_files db))))"

definition kioskOf :: "session_row \<Rightarrow> kiosk_db \<Rightarrow> tx_error + kiosk_row" where
  "kioskOf session db =
     (case List.find (\<lambda>k. kk_id k = se_kioskId session) (db_kiosks db) of None \<Rightarrow> Inl TX_NOT_FOUND | Some k \<Rightarrow> Inr k)"

section \<open>The hash of a revision\<close>

definition hashManifest :: "pricing_service \<Rightarrow> normalized_print_settings \<Rightarrow> string" where
  "hashManifest px settings = px_sha256 px (canonicalManifestJson settings)"

section \<open>Snapshots\<close>

definition positive_number :: "json option \<Rightarrow> bool" where
  "positive_number v = (case v of Some (JNum n) \<Rightarrow> 0 < n \<and> is_safe_integer n | _ \<Rightarrow> False)"

definition one_of :: "string list \<Rightarrow> json option \<Rightarrow> bool" where
  "one_of names v = (case v of Some (JStr s) \<Rightarrow> s \<in> set names | _ \<Rightarrow> False)"

definition str_such :: "(string \<Rightarrow> bool) \<Rightarrow> json option \<Rightarrow> bool" where
  "str_such p v = (case v of Some (JStr s) \<Rightarrow> p s | _ \<Rightarrow> False)"

text \<open>A strict object has no member of another name.\<close>

definition strict_keys :: "string list \<Rightarrow> json \<Rightarrow> bool" where
  "strict_keys names v = (case v of JObj es \<Rightarrow> set (map fst es) \<subseteq> set names | _ \<Rightarrow> False)"

fun normalizedPageRangeSchema :: "json \<Rightarrow> bool" where
  "normalizedPageRangeSchema (JArr [a, b]) \<longleftrightarrow> positive_number (Some a) \<and> positive_number (Some b)"
| "normalizedPageRangeSchema v \<longleftrightarrow> False"

definition SELECTION_KEYS :: "string list" where
  "SELECTION_KEYS = [''fileId'', ''position'', ''pageCount'', ''pageRanges'', ''pageRangeText'', ''selectedPages'', ''copies'',
     ''duplex'', ''orientation'', ''printedSides'', ''physicalSheets'']"

definition fileSelectionSnapshotSchema :: "pricing_service \<Rightarrow> json \<Rightarrow> bool" where
  "fileSelectionSnapshotSchema px v \<longleftrightarrow>
     strict_keys SELECTION_KEYS v \<and> str_such (px_uuid px) (json_field v ''fileId'') \<and>
     (case json_field v ''position'' of Some (JNum n) \<Rightarrow> 0 \<le> n \<and> is_safe_integer n | _ \<Rightarrow> False) \<and>
     positive_number (json_field v ''pageCount'') \<and>
     (case json_field v ''pageRanges'' of Some (JArr rs) \<Rightarrow> rs \<noteq> [] \<and> list_all normalizedPageRangeSchema rs | _ \<Rightarrow> False) \<and>
     str_such (\<lambda>s. 1 \<le> length s \<and> length s \<le> 400) (json_field v ''pageRangeText'') \<and>
     positive_number (json_field v ''selectedPages'') \<and> positive_number (json_field v ''copies'') \<and>
     one_of [''SIMPLEX'', ''LONG_EDGE'', ''SHORT_EDGE''] (json_field v ''duplex'') \<and>
     one_of [''AUTO'', ''PORTRAIT'', ''LANDSCAPE''] (json_field v ''orientation'') \<and>
     positive_number (json_field v ''printedSides'') \<and> positive_number (json_field v ''physicalSheets'')"

definition printSettingsSnapshotSchema :: "pricing_service \<Rightarrow> json \<Rightarrow> bool" where
  "printSettingsSnapshotSchema px v \<longleftrightarrow>
     strict_keys [''revision'', ''paperSize'', ''scaling'', ''collate'', ''colorMode'', ''files'', ''selectedPages'', ''printedSides'',
       ''physicalSheets'', ''createdAt''] v \<and>
     positive_number (json_field v ''revision'') \<and> one_of [''A4''] (json_field v ''paperSize'') \<and>
     one_of [''FIT'', ''ACTUAL_SIZE''] (json_field v ''scaling'') \<and>
     (case json_field v ''collate'' of Some (JBool _) \<Rightarrow> True | _ \<Rightarrow> False) \<and>
     one_of [''MONOCHROME''] (json_field v ''colorMode'') \<and>
     (case json_field v ''files'' of Some (JArr fs) \<Rightarrow> fs \<noteq> [] \<and> list_all (fileSelectionSnapshotSchema px) fs | _ \<Rightarrow> False) \<and>
     positive_number (json_field v ''selectedPages'') \<and> positive_number (json_field v ''printedSides'') \<and>
     positive_number (json_field v ''physicalSheets'') \<and> str_such (px_datetime px) (json_field v ''createdAt'')"

definition updatePrintSettingsResponseSchema :: "pricing_service \<Rightarrow> json \<Rightarrow> bool" where
  "updatePrintSettingsResponseSchema px v \<longleftrightarrow>
     strict_keys [''settings'', ''sessionState'', ''sessionVersion'', ''quoteInvalidated''] v \<and>
     (case json_field v ''settings'' of Some s \<Rightarrow> printSettingsSnapshotSchema px s | None \<Rightarrow> False) \<and>
     one_of [''FILES_UPLOADED'', ''CONFIGURING''] (json_field v ''sessionState'') \<and>
     positive_number (json_field v ''sessionVersion'') \<and>
     (case json_field v ''quoteInvalidated'' of Some (JBool _) \<Rightarrow> True | _ \<Rightarrow> False)"

definition ranges_json :: "page_range list \<Rightarrow> json" where
  "ranges_json ranges = JArr (map (\<lambda>r. JArr [JNum (fst r), JNum (snd r)]) ranges)"

definition file_snapshot :: "normalized_file_selection \<Rightarrow> json" where
  "file_snapshot f =
     JObj [(''fileId'', JStr (nf_fileId f)), (''position'', JNum (nf_position f)), (''pageCount'', JNum (nf_pageCount f)),
       (''pageRanges'', ranges_json (nf_pageRanges f)), (''pageRangeText'', JStr (nf_pageRangeText f)),
       (''selectedPages'', JNum (nf_selectedPages f)), (''copies'', JNum (nf_copies f)),
       (''duplex'', JStr (duplex_name (nf_duplex f))), (''orientation'', JStr (orientation_name (nf_orientation f))),
       (''printedSides'', JNum (nf_printedSides f)), (''physicalSheets'', JNum (nf_physicalSheets f))]"

definition toSettingsSnapshot :: "int \<Rightarrow> db_time \<Rightarrow> normalized_print_settings \<Rightarrow> json" where
  "toSettingsSnapshot revision createdAt normalized =
     JObj [(''revision'', JNum revision), (''paperSize'', JStr (paper_name (np_paperSize normalized))),
       (''scaling'', JStr (scaling_name (np_scaling normalized))), (''collate'', JBool (np_collate normalized)),
       (''colorMode'', JStr (color_name (np_colorMode normalized))),
       (''files'', JArr (map file_snapshot (np_files normalized))),
       (''selectedPages'', JNum (np_selectedPages normalized)), (''printedSides'', JNum (np_printedSides normalized)),
       (''physicalSheets'', JNum (np_physicalSheets normalized)), (''createdAt'', JStr (toISOString createdAt))]"

text \<open>
  A stored selection with the members the snapshot names; one that is missing stays missing, and a
  selection that is not an object has none, so the schema refuses it.
\<close>

definition stored_file_snapshot :: "json \<Rightarrow> json" where
  "stored_file_snapshot selection =
     JObj (concat (map (\<lambda>k. case json_field selection k of None \<Rightarrow> [] | Some v \<Rightarrow> [(k, v)]) SELECTION_KEYS))"

definition toStoredSettingsSnapshot :: "pricing_service \<Rightarrow> setting_revision_row \<Rightarrow> tx_error + json" where
  "toStoredSettingsSnapshot px stored =
     (let selections = (case sr_selections stored of JArr vs \<Rightarrow> vs | _ \<Rightarrow> []);
          snapshot = JObj [(''revision'', JNum (sr_revision stored)), (''paperSize'', JStr (sr_paperSize stored)),
            (''scaling'', JStr (sr_scaling stored)), (''collate'', JBool (sr_collate stored)),
            (''colorMode'', JStr (sr_colorMode stored)), (''files'', JArr (map stored_file_snapshot selections)),
            (''selectedPages'', JNum (sr_selectedPages stored)), (''printedSides'', JNum (sr_printedSides stored)),
            (''physicalSheets'', JNum (sr_physicalSheets stored)), (''createdAt'', JStr (toISOString (sr_createdAt stored)))] in
      if printSettingsSnapshotSchema px snapshot then Inr snapshot else Inl TX_SCHEMA)"

section \<open>Saving a revision\<close>

record update_settings_input =
  up_kioskId :: string
  up_credentialId :: string
  up_sessionId :: string
  up_body :: print_settings_input
  up_expectedVersion :: int
  up_idempotencyKey :: string
  up_requestId :: string

text \<open>\<open>sort\<close> is stable; of two code units the smaller one comes first.\<close>

definition fingerprintSettingsRequest :: "print_settings_input \<Rightarrow> string" where
  "fingerprintSettingsRequest body =
     join_with (CHR 0x0A)
       [join_with (CHR ''>'') (pi_fileOrder body),
        join_with (CHR ''|'') (map (\<lambda>s. fi_fileId s @ ''='' @ (case fi_pageRanges s of None \<Rightarrow> [] | Some t \<Rightarrow> t) @ '':'' @
            show_int (fi_copies s) @ '':'' @ duplex_name (fi_duplex s) @ '':'' @ orientation_name (fi_orientation s))
          (sort_key fi_fileId (pi_fileSelections body))),
        paper_name (pi_paperSize body), scaling_name (pi_scaling body),
        if pi_collate body then ''collate'' else ''no-collate'']"

definition assertSessionUsable :: "session_row \<Rightarrow> db_time \<Rightarrow> tx_error + unit" where
  "assertSessionUsable s now =
     (if se_idleExpiresAt s \<le> now \<or> se_hardExpiresAt s \<le> now \<or> se_state s = S_EXPIRED
      then Inl (ApiError 410 ''SESSION_EXPIRED'')
      else if se_state s \<in> set LOCKED_STATES then Inl (ApiError 423 ''SETTINGS_LOCKED'')
      else if se_state s \<notin> set CONFIGURABLE_STATES then Inl (ApiError 409 ''INVALID_SESSION_STATE'')
      else Inr ())"

definition selection_json :: "normalized_file_selection \<Rightarrow> json" where
  "selection_json f =
     JObj [(''fileId'', JStr (nf_fileId f)), (''position'', JNum (nf_position f)), (''pageCount'', JNum (nf_pageCount f)),
       (''processingRevision'', JNum (nf_processingRevision f)), (''contentSha256'', JStr (nf_contentSha256 f)),
       (''pageRanges'', ranges_json (nf_pageRanges f)), (''pageRangeText'', JStr (nf_pageRangeText f)),
       (''selectedPages'', JNum (nf_selectedPages f)), (''copies'', JNum (nf_copies f)),
       (''duplex'', JStr (duplex_name (nf_duplex f))), (''orientation'', JStr (orientation_name (nf_orientation f))),
       (''printedSides'', JNum (nf_printedSides f)), (''physicalSheets'', JNum (nf_physicalSheets f))]"

definition newRevision ::
  "pricing_service \<Rightarrow> string \<Rightarrow> int \<Rightarrow> normalized_print_settings \<Rightarrow> string \<Rightarrow> db_time \<Rightarrow> setting_revision_row" where
  "newRevision px sessionId revision normalized newId now =
     \<lparr>sr_id = newId, sr_sessionId = sessionId, sr_revision = revision, sr_manifestHash = hashManifest px normalized,
      sr_paperSize = paper_name (np_paperSize normalized), sr_scaling = scaling_name (np_scaling normalized),
      sr_collate = np_collate normalized, sr_colorMode = color_name (np_colorMode normalized),
      sr_selectedPages = np_selectedPages normalized, sr_printedSides = np_printedSides normalized,
      sr_physicalSheets = np_physicalSheets normalized, sr_selections = JArr (map selection_json (np_files normalized)),
      sr_capabilityVersion = np_capabilityVersion normalized, sr_createdAt = now\<rparr>"

definition latestRevision :: "string \<Rightarrow> kiosk_db \<Rightarrow> int" where
  "latestRevision sessionId db =
     (case map sr_revision (filter (\<lambda>r. sr_sessionId r = sessionId) (db_settings db)) of
        [] \<Rightarrow> 0 | n # ns \<Rightarrow> fold max ns n)"

definition insertRevision :: "setting_revision_row \<Rightarrow> kiosk_db \<Rightarrow> tx_error + kiosk_db" where
  "insertRevision row db =
     (if list_ex (\<lambda>r. sr_id r = sr_id row \<or> sr_sessionId r = sr_sessionId row \<and> sr_revision r = sr_revision row) (db_settings db)
      then Inl TX_UNIQUE_VIOLATION
      else Inr (db\<lparr>db_settings := db_settings db @ [row]\<rparr>))"

text \<open>From the normalised settings on: the revision, the price it replaces, the session, the records.\<close>

definition saveRevision ::
  "pricing_service \<Rightarrow> update_settings_input \<Rightarrow> session_row \<Rightarrow> normalized_print_settings \<Rightarrow> string \<Rightarrow> string \<Rightarrow> db_time
   \<Rightarrow> (nat \<Rightarrow> string) \<Rightarrow> kiosk_db \<Rightarrow> tx_error + (json \<times> kiosk_db)" where
  "saveRevision px input session normalized action requestHash now newId db =
     (let revision = latestRevision (se_id session) db + 1;
          stored = newRevision px (se_id session) revision normalized (newId 0) now in
      bind_result (insertRevision stored db) (\<lambda>db1.
      bind_result (invalidateSessionPricing (se_id session) SETTINGS_CHANGED now (se_eventSequence session) (newId 1) False db1)
        (\<lambda>((sequence, invalidated), db2).
      bind_result (if se_state session = S_CONFIGURING then Inr S_CONFIGURING
        else case transitionSession \<lparr>vs_state = se_state session, vs_version = se_stateVersion session\<rparr> S_CONFIGURING
               (up_expectedVersion input) of
          Inl e \<Rightarrow> Inl (TX_SESSION e) | Inr after \<Rightarrow> Inr (vs_state after)) (\<lambda>nextState.
      let nextVersion = se_stateVersion session + 1;
          nextSequence = sequence + 1;
          moved = update_many (\<lambda>s. se_id s = se_id session \<and> se_stateVersion s = up_expectedVersion input)
            (\<lambda>s. s\<lparr>se_state := nextState, se_stateVersion := nextVersion, se_eventSequence := nextSequence,
                  se_currentSettingsRevision := Some revision\<rparr>) (db_sessions db2);
          settings = toSettingsSnapshot revision now normalized;
          response = JObj [(''settings'', settings), (''sessionState'', JStr (session_state_name nextState)),
            (''sessionVersion'', JNum nextVersion), (''quoteInvalidated'', JBool (invalidated \<noteq> None))] in
      if fst moved \<noteq> 1 then Inl (ApiError 412 ''STALE_SESSION_VERSION'')
      else if \<not> printSettingsSnapshotSchema px settings \<or> \<not> updatePrintSettingsResponseSchema px response then Inl TX_SCHEMA
      else
        let event = \<lparr>ob_id = newId 2, ob_aggregateId = se_id session, ob_sequence = nextSequence, ob_type = ''settings.updated'',
              ob_payload = JObj [(''sessionId'', JStr (se_id session)), (''settingsRevision'', JNum revision),
                (''state'', JStr (session_state_name nextState)), (''version'', JNum nextVersion),
                (''selectedPages'', JNum (np_selectedPages normalized)), (''printedSides'', JNum (np_printedSides normalized)),
                (''physicalSheets'', JNum (np_physicalSheets normalized))]\<rparr>;
            audit = \<lparr>au_id = newId 3, au_occurredAt = now, au_actorType = ''KIOSK'', au_actorId = up_credentialId input,
              au_kioskId = Some (up_kioskId input), au_sessionId = se_id session, au_action = ''settings.updated'',
              au_outcome = ''SUCCESS'', au_requestId = Some (up_requestId input),
              au_metadata = JObj [(''revision'', JNum revision), (''printedSides'', JNum (np_printedSides normalized)),
                (''physicalSheets'', JNum (np_physicalSheets normalized)), (''quoteInvalidated'', JBool (invalidated \<noteq> None))]\<rparr> in
        bind_result (store_replay px (up_kioskId input) action (up_idempotencyKey input) requestHash (Some response) (sr_id stored)
            now (newId 4) (db2\<lparr>db_sessions := snd moved, db_outbox := db_outbox db2 @ [event], db_audit := db_audit db2 @ [audit]\<rparr>))
          (\<lambda>db3. Inr (response, db3))))))"

definition settingsContext :: "pricing_service \<Rightarrow> session_row \<Rightarrow> kiosk_row \<Rightarrow> kiosk_db \<Rightarrow> normalize_context" where
  "settingsContext px session kiosk db =
     \<lparr>nc_files = selectableFiles (se_id session) db,
      nc_capabilities = readPrinterCapabilities kiosk (px_limits px), nc_limits = px_limits px\<rparr>"

definition updateFresh ::
  "pricing_service \<Rightarrow> update_settings_input \<Rightarrow> session_row \<Rightarrow> string \<Rightarrow> string \<Rightarrow> db_time \<Rightarrow> (nat \<Rightarrow> string) \<Rightarrow> kiosk_db
   \<Rightarrow> tx_error + (json \<times> kiosk_db)" where
  "updateFresh px input session action requestHash now newId db =
     bind_result (kioskOf session db) (\<lambda>kiosk.
     bind_result (assertSessionUsable session now) (\<lambda>_.
     if se_stateVersion session \<noteq> up_expectedVersion input then Inl (ApiError 412 ''STALE_SESSION_VERSION'')
     else if selectableFiles (se_id session) db = [] then Inl (ApiError 409 ''NO_READY_DOCUMENTS'')
     else case normalizePrintSettings (up_body input) (settingsContext px session kiosk db) of
        Inl e \<Rightarrow> Inl (TX_SETTINGS e)
      | Inr normalized \<Rightarrow> saveRevision px input session normalized action requestHash now newId db))"

definition updateSettingsOnce ::
  "pricing_service \<Rightarrow> update_settings_input \<Rightarrow> pricing_attempt \<Rightarrow> kiosk_db \<Rightarrow> tx_error + (json \<times> kiosk_db)" where
  "updateSettingsOnce px input a db =
     (let action = ''settings.update:'' @ up_sessionId input;
          requestHash = px_hashRequest px [(''sessionId'', up_sessionId input),
            (''expectedVersion'', show_int (up_expectedVersion input)), (''body'', fingerprintSettingsRequest (up_body input))] in
      bind_result (lockSession (up_sessionId input) (up_kioskId input) db) (\<lambda>_.
      case find_replay px (up_kioskId input) action (up_idempotencyKey input) (pa_now a) db of
        (Some replay, db1) \<Rightarrow>
          bind_result (assertMatchingRequest (ir_requestHash replay) requestHash) (\<lambda>_.
          case ir_responseBody replay of
            Some body \<Rightarrow> if updatePrintSettingsResponseSchema px body then Inr (body, db1) else Inl TX_SCHEMA
          | None \<Rightarrow> Inl TX_SCHEMA)
      | (None, db1) \<Rightarrow>
          (case List.find (\<lambda>s. se_id s = up_sessionId input \<and> se_kioskId s = up_kioskId input) (db_sessions db1) of
             None \<Rightarrow> Inl TX_NOT_FOUND
           | Some session \<Rightarrow> updateFresh px input session action requestHash (pa_now a) (pa_newId a) db1)))"

fun settings_code_name :: "print_settings_code \<Rightarrow> string" where
  "settings_code_name FILE_ORDER_INVALID = ''FILE_ORDER_INVALID''"
| "settings_code_name FILE_SELECTION_INVALID = ''FILE_SELECTION_INVALID''"
| "settings_code_name PAGE_RANGE_INVALID = ''PAGE_RANGE_INVALID''"
| "settings_code_name PAGE_RANGE_OUT_OF_BOUNDS = ''PAGE_RANGE_OUT_OF_BOUNDS''"
| "settings_code_name NO_SELECTED_PAGES = ''NO_SELECTED_PAGES''"
| "settings_code_name COPIES_OUT_OF_RANGE = ''COPIES_OUT_OF_RANGE''"
| "settings_code_name SELECTED_PAGE_LIMIT_EXCEEDED = ''SELECTED_PAGE_LIMIT_EXCEEDED''"
| "settings_code_name PRINTED_SIDE_LIMIT_EXCEEDED = ''PRINTED_SIDE_LIMIT_EXCEEDED''"
| "settings_code_name UNSUPPORTED_PRINT_SETTING = ''UNSUPPORTED_PRINT_SETTING''"

definition mapSettingsError :: "tx_error \<Rightarrow> tx_error" where
  "mapSettingsError e =
     (case e of
        TX_SETTINGS (PrintSettingsError c _) \<Rightarrow> ApiError 422 (settings_code_name c)
      | TX_NOT_FOUND \<Rightarrow> ApiError 404 ''SESSION_NOT_FOUND''
      | other \<Rightarrow> other)"

definition updateSettings ::
  "pricing_service \<Rightarrow> update_settings_input \<Rightarrow> pricing_attempt list \<Rightarrow> kiosk_db \<Rightarrow> tx_error + (json \<times> kiosk_db)" where
  "updateSettings px input attempts db =
     retried pa_conflict (updateSettingsOnce px input) mapSettingsError (take MAX_TRANSACTION_ATTEMPTS attempts) db"

section \<open>Reading\<close>

definition getSettings :: "pricing_service \<Rightarrow> string \<Rightarrow> string \<Rightarrow> kiosk_db \<Rightarrow> tx_error + json" where
  "getSettings px kioskId sessionId db =
     (case List.find (\<lambda>s. se_id s = sessionId \<and> se_kioskId s = kioskId) (db_sessions db) of
        None \<Rightarrow> Inl (ApiError 404 ''SESSION_NOT_FOUND'')
      | Some session \<Rightarrow>
          (case se_currentSettingsRevision session of
             None \<Rightarrow> Inr (JObj [(''settings'', JNull)])
           | Some revision \<Rightarrow>
               (case List.find (\<lambda>r. sr_sessionId r = se_id session \<and> sr_revision r = revision) (db_settings db) of
                  None \<Rightarrow> Inr (JObj [(''settings'', JNull)])
                | Some stored \<Rightarrow> bind_result (toStoredSettingsSnapshot px stored) (\<lambda>s. Inr (JObj [(''settings'', s)])))))"

record capabilities_response =
  cr_capabilityVersion :: int
  cr_paperSizes :: "paper_size list"
  cr_duplexModes :: "duplex_mode list"
  cr_orientations :: "orientation list"
  cr_scalingModes :: "scaling_mode list"
  cr_colorModes :: "color_mode list"
  cr_maxCopies :: int
  cr_maxSelectedPages :: int
  cr_maxPrintedSides :: int

definition printCapabilitiesResponseSchema :: "capabilities_response \<Rightarrow> bool" where
  "printCapabilitiesResponseSchema r \<longleftrightarrow>
     list_all (\<lambda>n. 0 < n \<and> is_safe_integer n)
       [cr_capabilityVersion r, cr_maxCopies r, cr_maxSelectedPages r, cr_maxPrintedSides r] \<and>
     cr_paperSizes r \<noteq> [] \<and> cr_duplexModes r \<noteq> [] \<and> cr_orientations r \<noteq> [] \<and> cr_scalingModes r \<noteq> [] \<and>
     cr_colorModes r \<noteq> []"

definition getCapabilities :: "pricing_service \<Rightarrow> string \<Rightarrow> string \<Rightarrow> kiosk_db \<Rightarrow> tx_error + capabilities_response" where
  "getCapabilities px kioskId sessionId db =
     (case List.find (\<lambda>s. se_id s = sessionId \<and> se_kioskId s = kioskId) (db_sessions db) of
        None \<Rightarrow> Inl (ApiError 404 ''SESSION_NOT_FOUND'')
      | Some session \<Rightarrow>
          bind_result (kioskOf session db) (\<lambda>kiosk.
          let caps = readPrinterCapabilities kiosk (px_limits px);
              response = \<lparr>cr_capabilityVersion = pc_version caps, cr_paperSizes = pc_paperSizes caps,
                cr_duplexModes = pc_duplexModes caps, cr_orientations = pc_orientations caps,
                cr_scalingModes = pc_scalingModes caps, cr_colorModes = pc_colorModes caps, cr_maxCopies = pc_maxCopies caps,
                cr_maxSelectedPages = pl_maxSelectedPages (px_limits px),
                cr_maxPrintedSides = pl_maxPrintedSides (px_limits px)\<rparr> in
          if pc_colorModes caps = [] then Inl (ApiError 503 ''PRINTER_UNAVAILABLE'')
          else if printCapabilitiesResponseSchema response then Inr response else Inl TX_SCHEMA))"

end
