(* ===== verification/Quote_Service.thy ===== *)
theory Quote_Service
  imports Settings_Service Payments
begin

text \<open>
  \<^verbatim>\<open>services/api/src/modules/quotes/service.ts\<close>: pricing the session's current revision. A price is issued only
  while no document is in motion and only when the settings, normalised again from what the session
  holds now, still have the hash of the revision; the amounts are those of \<open>calculateQuote\<close>.
\<close>

section \<open>Snapshots of quotes\<close>

record quote_breakdown_snapshot =
  qs_printAmountMinor :: int
  qs_duplexAdjustmentMinor :: int
  qs_serviceFeeMinor :: int
  qs_minimumAdjustmentMinor :: int

record price_quote =
  pq_id :: string
  pq_sessionId :: string
  pq_settingsRevision :: int
  pq_pricingVersion :: string
  pq_status :: quote_status
  pq_currency :: string
  pq_currencyExponent :: int
  pq_selectedPages :: int
  pq_printedSides :: int
  pq_physicalSheets :: int
  pq_breakdown :: quote_breakdown_snapshot
  pq_subtotalMinor :: int
  pq_taxMinor :: int
  pq_totalMinor :: int
  pq_createdAt :: string
  pq_expiresAt :: string

definition minorAmountSchema :: "int \<Rightarrow> bool" where
  "minorAmountSchema n \<longleftrightarrow> 0 \<le> n \<and> n \<le> 100000000"

definition upper_letter :: "char \<Rightarrow> bool" where
  "upper_letter c \<longleftrightarrow> 65 \<le> code c \<and> code c \<le> 90"

definition priceQuoteSchema :: "pricing_service \<Rightarrow> price_quote \<Rightarrow> bool" where
  "priceQuoteSchema px q \<longleftrightarrow>
     px_uuid px (pq_id q) \<and> px_uuid px (pq_sessionId q) \<and>
     list_all (\<lambda>n. 0 < n \<and> is_safe_integer n)
       [pq_settingsRevision q, pq_selectedPages q, pq_printedSides q, pq_physicalSheets q] \<and>
     1 \<le> length (pq_pricingVersion q) \<and> length (pq_pricingVersion q) \<le> 40 \<and>
     length (pq_currency q) = 3 \<and> list_all upper_letter (pq_currency q) \<and>
     0 \<le> pq_currencyExponent q \<and> pq_currencyExponent q \<le> 4 \<and>
     list_all minorAmountSchema [qs_printAmountMinor (pq_breakdown q), qs_serviceFeeMinor (pq_breakdown q),
       qs_minimumAdjustmentMinor (pq_breakdown q), pq_subtotalMinor q, pq_taxMinor q, pq_totalMinor q] \<and>
     - 100000000 \<le> qs_duplexAdjustmentMinor (pq_breakdown q) \<and> qs_duplexAdjustmentMinor (pq_breakdown q) \<le> 100000000 \<and>
     px_datetime px (pq_createdAt q) \<and> px_datetime px (pq_expiresAt q)"

definition quote_snapshot :: "quote_row \<Rightarrow> db_time \<Rightarrow> price_quote" where
  "quote_snapshot q now =
     (let b = qr_breakdown q in
      \<lparr>pq_id = qr_id q, pq_sessionId = qr_sessionId q, pq_settingsRevision = qr_settingsRevision q,
       pq_pricingVersion = qb_pricingVersion b,
       pq_status = (if qr_status q = Q_ACTIVE \<and> qr_expiresAt q \<le> now then Q_EXPIRED else qr_status q),
       pq_currency = js_trim (qb_currency b), pq_currencyExponent = qb_currencyExponent b,
       pq_selectedPages = qb_selectedPages b, pq_printedSides = qb_printedSides b, pq_physicalSheets = qb_physicalSheets b,
       pq_breakdown = \<lparr>qs_printAmountMinor = qb_printAmountMinor b, qs_duplexAdjustmentMinor = qb_duplexAdjustmentMinor b,
         qs_serviceFeeMinor = qb_serviceFeeMinor b, qs_minimumAdjustmentMinor = qb_minimumAdjustmentMinor b\<rparr>,
       pq_subtotalMinor = qb_subtotalMinor b, pq_taxMinor = qb_taxMinor b, pq_totalMinor = qb_totalMinor b,
       pq_createdAt = toISOString (qr_createdAt q), pq_expiresAt = toISOString (qr_expiresAt q)\<rparr>)"

definition toQuoteSnapshot :: "pricing_service \<Rightarrow> quote_row \<Rightarrow> db_time \<Rightarrow> tx_error + price_quote" where
  "toQuoteSnapshot px q now =
     (if priceQuoteSchema px (quote_snapshot q now) then Inr (quote_snapshot q now) else Inl TX_SCHEMA)"

fun quote_status_name :: "quote_status \<Rightarrow> string" where
  "quote_status_name Q_ACTIVE = ''ACTIVE''"
| "quote_status_name Q_EXPIRED = ''EXPIRED''"
| "quote_status_name Q_INVALIDATED = ''INVALIDATED''"
| "quote_status_name Q_CONSUMED = ''CONSUMED''"

text \<open>The body of an answer, as it is kept for a replay.\<close>

definition quote_body :: "price_quote \<Rightarrow> json" where
  "quote_body q =
     JObj [(''quote'', JObj [(''id'', JStr (pq_id q)), (''sessionId'', JStr (pq_sessionId q)),
       (''settingsRevision'', JNum (pq_settingsRevision q)), (''pricingVersion'', JStr (pq_pricingVersion q)),
       (''status'', JStr (quote_status_name (pq_status q))), (''currency'', JStr (pq_currency q)),
       (''currencyExponent'', JNum (pq_currencyExponent q)), (''selectedPages'', JNum (pq_selectedPages q)),
       (''printedSides'', JNum (pq_printedSides q)), (''physicalSheets'', JNum (pq_physicalSheets q)),
       (''breakdown'', JObj [(''printAmountMinor'', JNum (qs_printAmountMinor (pq_breakdown q))),
         (''duplexAdjustmentMinor'', JNum (qs_duplexAdjustmentMinor (pq_breakdown q))),
         (''serviceFeeMinor'', JNum (qs_serviceFeeMinor (pq_breakdown q))),
         (''minimumAdjustmentMinor'', JNum (qs_minimumAdjustmentMinor (pq_breakdown q)))]),
       (''subtotalMinor'', JNum (pq_subtotalMinor q)), (''taxMinor'', JNum (pq_taxMinor q)),
       (''totalMinor'', JNum (pq_totalMinor q)), (''createdAt'', JStr (pq_createdAt q)),
       (''expiresAt'', JStr (pq_expiresAt q))])]"

section \<open>The revision read back\<close>

record stored_choice =
  sc_fileId :: string
  sc_pageRangeText :: string
  sc_copies :: int
  sc_duplex :: string
  sc_orientation :: string

text \<open>\<open>typeof\<close> tests only the type of a member; an entry that fails one is left out.\<close>

definition readChoice :: "json \<Rightarrow> stored_choice list" where
  "readChoice entry =
     (case (str_field entry ''fileId'', str_field entry ''pageRangeText'', json_field entry ''copies'',
            str_field entry ''duplex'', str_field entry ''orientation'') of
        (Some f, Some t, Some (JNum n), Some d, Some orient) \<Rightarrow>
          [\<lparr>sc_fileId = f, sc_pageRangeText = t, sc_copies = n, sc_duplex = d, sc_orientation = orient\<rparr>]
      | _ \<Rightarrow> [])"

definition readChoices :: "json \<Rightarrow> stored_choice list" where
  "readChoices v = (case v of JArr entries \<Rightarrow> concat (map readChoice entries) | _ \<Rightarrow> [])"

definition readUsage :: "json \<Rightarrow> pricing_document_usage list" where
  "readUsage entry =
     (case (str_field entry ''duplex'', json_field entry ''printedSides'') of
        (Some d, Some (JNum n)) \<Rightarrow> [\<lparr>du_duplex = (d \<noteq> ''SIMPLEX''), du_printedSides = n\<rparr>]
      | _ \<Rightarrow> [])"

definition readStoredDocumentUsage :: "json \<Rightarrow> pricing_document_usage list" where
  "readStoredDocumentUsage v = (case v of JArr entries \<Rightarrow> concat (map readUsage entries) | _ \<Rightarrow> [])"

text \<open>The casts of stored text to the domain's unions: a text outside the union is one no capability
list contains, which the normaliser refuses.\<close>

definition named :: "('a \<Rightarrow> string) \<Rightarrow> 'a list \<Rightarrow> string \<Rightarrow> tx_error + 'a" where
  "named name_of values s =
     (case List.find (\<lambda>v. name_of v = s) values of None \<Rightarrow> Inl (ApiError 409 ''DOCUMENTS_CHANGED'') | Some v \<Rightarrow> Inr v)"

definition choice_input :: "stored_choice \<Rightarrow> tx_error + file_selection_input" where
  "choice_input c =
     bind_result (named duplex_name [SIMPLEX, LONG_EDGE, SHORT_EDGE] (sc_duplex c)) (\<lambda>d.
     bind_result (named orientation_name [O_AUTO, O_PORTRAIT, O_LANDSCAPE] (sc_orientation c)) (\<lambda>orient.
     Inr \<lparr>fi_fileId = sc_fileId c, fi_pageRanges = Some (sc_pageRangeText c), fi_copies = sc_copies c, fi_duplex = d,
          fi_orientation = orient\<rparr>))"

definition stored_input :: "setting_revision_row \<Rightarrow> tx_error + print_settings_input" where
  "stored_input row =
     bind_result (map_result choice_input (readChoices (sr_selections row))) (\<lambda>selections.
     bind_result (named paper_name [A4] (sr_paperSize row)) (\<lambda>paper.
     bind_result (named scaling_name [FIT, ACTUAL_SIZE] (sr_scaling row)) (\<lambda>scaling.
     Inr \<lparr>pi_fileOrder = map sc_fileId (readChoices (sr_selections row)), pi_fileSelections = selections,
          pi_paperSize = paper, pi_scaling = scaling, pi_collate = sr_collate row\<rparr>)))"

definition assertManifestUnchanged ::
  "pricing_service \<Rightarrow> session_row \<Rightarrow> kiosk_row \<Rightarrow> setting_revision_row \<Rightarrow> kiosk_db \<Rightarrow> tx_error + unit" where
  "assertManifestUnchanged px session kiosk row db =
     (let selectable = selectableFiles (se_id session) db;
          selections = readChoices (sr_selections row) in
      if selectable = [] \<or> length selections \<noteq> length selectable then Inl (ApiError 409 ''DOCUMENTS_CHANGED'')
      else bind_result (stored_input row) (\<lambda>input.
        case normalizePrintSettings input (settingsContext px session kiosk db) of
          Inl _ \<Rightarrow> Inl (ApiError 409 ''DOCUMENTS_CHANGED'')
        | Inr normalized \<Rightarrow> require (hashManifest px normalized = sr_manifestHash row) (ApiError 409 ''DOCUMENTS_CHANGED'')))"

section \<open>The tariff in force\<close>

definition loadPublishedRuleSet :: "db_time \<Rightarrow> kiosk_db \<Rightarrow> tx_error + pricing_rule_set" where
  "loadPublishedRuleSet now db =
     (case newest ru_validFrom (filter (\<lambda>r. ru_status r = ''PUBLISHED'' \<and> ru_scope r = ''GLOBAL'' \<and> ru_scopeRef r = [] \<and>
             ru_validFrom r \<le> now \<and> (case ru_validUntil r of None \<Rightarrow> True | Some t \<Rightarrow> now < t)) (db_ruleSets db)) of
        None \<Rightarrow> Inl (ApiError 503 ''PRICING_UNAVAILABLE'')
      | Some r \<Rightarrow> Inr (ru_set r))"

section \<open>Pricing\<close>

record create_quote_input =
  cq_kioskId :: string
  cq_credentialId :: string
  cq_sessionId :: string
  cq_settingsRevision :: int
  cq_idempotencyKey :: string
  cq_requestId :: string

definition assertSessionQuotable :: "session_row \<Rightarrow> db_time \<Rightarrow> tx_error + unit" where
  "assertSessionQuotable s now =
     (if se_idleExpiresAt s \<le> now \<or> se_hardExpiresAt s \<le> now \<or> se_state s = S_EXPIRED
      then Inl (ApiError 410 ''SESSION_EXPIRED'')
      else if se_state s \<in> set LOCKED_STATES then Inl (ApiError 423 ''QUOTE_LOCKED'')
      else if se_state s \<noteq> S_CONFIGURING then Inl (ApiError 409 ''INVALID_SESSION_STATE'')
      else Inr ())"

definition revision_usage :: "setting_revision_row \<Rightarrow> pricing_usage" where
  "revision_usage row =
     \<lparr>us_service = ''PRINT'', us_paperSize = sr_paperSize row, us_colorMode = sr_colorMode row,
      us_documents = readStoredDocumentUsage (sr_selections row), us_selectedPages = sr_selectedPages row,
      us_printedSides = sr_printedSides row, us_physicalSheets = sr_physicalSheets row\<rparr>"

definition insertQuote :: "quote_row \<Rightarrow> kiosk_db \<Rightarrow> tx_error + kiosk_db" where
  "insertQuote q db =
     (if list_ex (\<lambda>x. qr_id x = qr_id q \<or> qr_sessionId x = qr_sessionId q \<and> qr_status x = Q_ACTIVE) (db_quotes db)
      then Inl TX_UNIQUE_VIOLATION
      else Inr (db\<lparr>db_quotes := db_quotes db @ [q]\<rparr>))"

definition point_session :: "string \<Rightarrow> (session_row \<Rightarrow> session_row) \<Rightarrow> kiosk_db \<Rightarrow> tx_error + kiosk_db" where
  "point_session sid f db =
     (let moved = update_many (\<lambda>s. se_id s = sid) f (db_sessions db) in
      if fst moved = 0 then Inl TX_NOT_FOUND else Inr (db\<lparr>db_sessions := snd moved\<rparr>))"

text \<open>The price that is still alive is answered again, and the session points at it.\<close>

definition reuseQuote ::
  "pricing_service \<Rightarrow> create_quote_input \<Rightarrow> session_row \<Rightarrow> quote_row \<Rightarrow> string \<Rightarrow> string \<Rightarrow> db_time \<Rightarrow> (nat \<Rightarrow> string) \<Rightarrow> kiosk_db
   \<Rightarrow> tx_error + (price_quote \<times> kiosk_db)" where
  "reuseQuote px input session existing action requestHash now newId db =
     bind_result (toQuoteSnapshot px existing now) (\<lambda>snapshot.
     bind_result (if se_activeQuoteId session = Some (qr_id existing) then Inr db
        else point_session (se_id session) (\<lambda>s. s\<lparr>se_activeQuoteId := Some (qr_id existing)\<rparr>) db) (\<lambda>db1.
     bind_result (store_replay px (cq_kioskId input) action (cq_idempotencyKey input) requestHash (Some (quote_body snapshot)) (qr_id existing) now (newId 0) db1)
       (\<lambda>db2. Inr (snapshot, db2))))"

definition quote_deadline :: "pricing_service \<Rightarrow> session_row \<Rightarrow> db_time \<Rightarrow> db_time" where
  "quote_deadline px session now =
     min (now + px_quoteTtlSeconds px * 1000) (min (se_idleExpiresAt session) (se_hardExpiresAt session))"

definition newQuote ::
  "pricing_service \<Rightarrow> session_row \<Rightarrow> setting_revision_row \<Rightarrow> quote_breakdown \<Rightarrow> string \<Rightarrow> db_time \<Rightarrow> quote_row" where
  "newQuote px session row breakdown newId now =
     \<lparr>qr_id = newId, qr_sessionId = se_id session, qr_settingsRevision = sr_revision row, qr_manifestHash = sr_manifestHash row,
      qr_status = Q_ACTIVE, qr_breakdown = breakdown, qr_expiresAt = quote_deadline px session now, qr_createdAt = now,
      qr_invalidatedAt = None, qr_invalidationReason = None\<rparr>"

definition issueQuote ::
  "pricing_service \<Rightarrow> create_quote_input \<Rightarrow> session_row \<Rightarrow> setting_revision_row \<Rightarrow> quote_breakdown \<Rightarrow> string \<Rightarrow> string \<Rightarrow> db_time
   \<Rightarrow> (nat \<Rightarrow> string) \<Rightarrow> kiosk_db \<Rightarrow> tx_error + (price_quote \<times> kiosk_db)" where
  "issueQuote px input session row breakdown action requestHash now newId db =
     bind_result (invalidateSessionPricing (se_id session) SUPERSEDED now (se_eventSequence session) (newId 0) False db)
       (\<lambda>((sequence, _), db1).
     let quoted = newQuote px session row breakdown (newId 1) now;
         nextSequence = sequence + 1 in
     if qr_expiresAt quoted \<le> now then Inl (ApiError 410 ''SESSION_EXPIRED'')
     else bind_result (insertQuote quoted db1) (\<lambda>db2.
       bind_result (point_session (se_id session)
           (\<lambda>s. s\<lparr>se_activeQuoteId := Some (qr_id quoted), se_eventSequence := nextSequence\<rparr>) db2) (\<lambda>db3.
       bind_result (toQuoteSnapshot px quoted now) (\<lambda>snapshot.
       let event = \<lparr>ob_id = newId 2, ob_aggregateId = se_id session, ob_sequence = nextSequence, ob_type = ''quote.created'',
             ob_payload = JObj [(''sessionId'', JStr (se_id session)), (''quoteId'', JStr (qr_id quoted)),
               (''settingsRevision'', JNum (qr_settingsRevision quoted)), (''pricingVersion'', JStr (qb_pricingVersion breakdown)),
               (''currency'', JStr (qb_currency breakdown)), (''currencyExponent'', JNum (qb_currencyExponent breakdown)),
               (''totalMinor'', JNum (qb_totalMinor breakdown)), (''expiresAt'', JStr (toISOString (qr_expiresAt quoted)))]\<rparr>;
           audit = \<lparr>au_id = newId 3, au_occurredAt = now, au_actorType = ''KIOSK'', au_actorId = cq_credentialId input,
             au_kioskId = Some (cq_kioskId input), au_sessionId = se_id session, au_action = ''quote.created'',
             au_outcome = ''SUCCESS'', au_requestId = Some (cq_requestId input),
             au_metadata = JObj [(''quoteId'', JStr (qr_id quoted)), (''settingsRevision'', JNum (qr_settingsRevision quoted)),
               (''pricingVersion'', JStr (qb_pricingVersion breakdown)), (''totalMinor'', JNum (qb_totalMinor breakdown)),
               (''currency'', JStr (qb_currency breakdown))]\<rparr> in
       bind_result (store_replay px (cq_kioskId input) action (cq_idempotencyKey input) requestHash (Some (quote_body snapshot)) (qr_id quoted) now (newId 4)
           (db3\<lparr>db_outbox := db_outbox db3 @ [event], db_audit := db_audit db3 @ [audit]\<rparr>)) (\<lambda>db4.
       Inr (snapshot, db4))))))"

definition quoteFresh ::
  "pricing_service \<Rightarrow> create_quote_input \<Rightarrow> session_row \<Rightarrow> string \<Rightarrow> string \<Rightarrow> db_time \<Rightarrow> (nat \<Rightarrow> string) \<Rightarrow> kiosk_db
   \<Rightarrow> tx_error + (price_quote \<times> kiosk_db)" where
  "quoteFresh px input session action requestHash now newId db =
     bind_result (kioskOf session db) (\<lambda>kiosk.
     bind_result (assertSessionQuotable session now) (\<lambda>_.
     if se_currentSettingsRevision session \<noteq> Some (cq_settingsRevision input) then Inl (ApiError 409 ''SETTINGS_REVISION_STALE'')
     else case List.find (\<lambda>r. sr_sessionId r = se_id session \<and> sr_revision r = cq_settingsRevision input) (db_settings db) of
        None \<Rightarrow> Inl TX_NOT_FOUND
      | Some row \<Rightarrow>
          if list_ex (\<lambda>f. fr_sessionId f = se_id session \<and> fr_status f \<in> set PROCESSING_FILE_STATUSES) (db_files db)
          then Inl (ApiError 409 ''FILES_STILL_PROCESSING'')
          else bind_result (assertManifestUnchanged px session kiosk row db) (\<lambda>_.
            bind_result (loadPublishedRuleSet now db) (\<lambda>ruleSet.
            case calculateQuote ruleSet (revision_usage row) of
              Inl e \<Rightarrow> Inl (TX_PRICING e)
            | Inr breakdown \<Rightarrow>
                (case List.find (\<lambda>q. qr_sessionId q = se_id session \<and> qr_status q = Q_ACTIVE \<and>
                        qr_settingsRevision q = sr_revision row \<and> qr_manifestHash q = sr_manifestHash row \<and>
                        qb_ruleSetId (qr_breakdown q) = rs_id ruleSet \<and> now < qr_expiresAt q) (db_quotes db) of
                   Some existing \<Rightarrow> reuseQuote px input session existing action requestHash now newId db
                 | None \<Rightarrow> issueQuote px input session row breakdown action requestHash now newId db)))))"

definition restoreQuoteReplay ::
  "pricing_service \<Rightarrow> create_quote_input \<Rightarrow> string option \<Rightarrow> db_time \<Rightarrow> kiosk_db \<Rightarrow> tx_error + price_quote" where
  "restoreQuoteReplay px input resourceId now db =
     (case (case truthy resourceId of None \<Rightarrow> None
            | Some i \<Rightarrow> List.find (\<lambda>q. qr_id q = i \<and> qr_sessionId q = cq_sessionId input) (db_quotes db)) of
        None \<Rightarrow> Inl (ApiError 409 ''QUOTE_REPLAY_UNAVAILABLE'')
      | Some q \<Rightarrow> toQuoteSnapshot px q now)"

definition createQuoteOnce ::
  "pricing_service \<Rightarrow> create_quote_input \<Rightarrow> pricing_attempt \<Rightarrow> kiosk_db \<Rightarrow> tx_error + (price_quote \<times> kiosk_db)" where
  "createQuoteOnce px input a db =
     (let action = ''quotes.create:'' @ cq_sessionId input;
          requestHash = px_hashRequest px [(''sessionId'', cq_sessionId input),
            (''settingsRevision'', show_int (cq_settingsRevision input))] in
      bind_result (lockSession (cq_sessionId input) (cq_kioskId input) db) (\<lambda>_.
      case find_replay px (cq_kioskId input) action (cq_idempotencyKey input) (pa_now a) db of
        (Some replay, db1) \<Rightarrow>
          bind_result (assertMatchingRequest (ir_requestHash replay) requestHash) (\<lambda>_.
          bind_result (restoreQuoteReplay px input (ir_resourceId replay) (pa_now a) db1) (\<lambda>snapshot. Inr (snapshot, db1)))
      | (None, db1) \<Rightarrow>
          (case List.find (\<lambda>s. se_id s = cq_sessionId input \<and> se_kioskId s = cq_kioskId input) (db_sessions db1) of
             None \<Rightarrow> Inl TX_NOT_FOUND
           | Some session \<Rightarrow> quoteFresh px input session action requestHash (pa_now a) (pa_newId a) db1)))"

definition mapQuoteError :: "tx_error \<Rightarrow> tx_error" where
  "mapQuoteError e =
     (case e of
        TX_PRICING _ \<Rightarrow> ApiError 503 ''PRICING_UNAVAILABLE''
      | TX_SETTINGS _ \<Rightarrow> ApiError 409 ''DOCUMENTS_CHANGED''
      | TX_NOT_FOUND \<Rightarrow> ApiError 409 ''SETTINGS_REVISION_STALE''
      | other \<Rightarrow> other)"

definition createQuote ::
  "pricing_service \<Rightarrow> create_quote_input \<Rightarrow> pricing_attempt list \<Rightarrow> kiosk_db \<Rightarrow> tx_error + (price_quote \<times> kiosk_db)" where
  "createQuote px input attempts db =
     retried pa_conflict (createQuoteOnce px input) mapQuoteError (take MAX_TRANSACTION_ATTEMPTS attempts) db"

definition getQuote :: "pricing_service \<Rightarrow> string \<Rightarrow> string \<Rightarrow> string \<Rightarrow> db_time \<Rightarrow> kiosk_db \<Rightarrow> tx_error + price_quote" where
  "getQuote px kioskId sessionId quoteId now db =
     (case List.find (\<lambda>q. qr_id q = quoteId \<and> qr_sessionId q = sessionId \<and>
             list_ex (\<lambda>s. se_id s = sessionId \<and> se_kioskId s = kioskId) (db_sessions db)) (db_quotes db) of
        None \<Rightarrow> Inl (ApiError 404 ''QUOTE_NOT_FOUND'')
      | Some q \<Rightarrow> toQuoteSnapshot px q now)"

end
