(* ===== verification/Control_Frames.thy ===== *)
theory Control_Frames
  imports Print_Job_Lifecycle
begin

text \<open>
  What the print path leaves alone. No transaction of the dispatcher, of the agent's commands or of
  the print job service writes a quote, and each moves a session only among the paid states.
\<close>

section \<open>Quiet changes of sessions\<close>

definition quiet_row :: "session_row \<Rightarrow> session_row \<Rightarrow> bool" where
  "quiet_row s s' \<longleftrightarrow> se_id s' = se_id s \<and> (se_state s' \<in> paid_states \<longleftrightarrow> se_state s \<in> paid_states) \<and>
     (se_state s' = S_AWAITING_PAYMENT \<longrightarrow> se_state s = S_AWAITING_PAYMENT)"

definition steady :: "kiosk_db \<Rightarrow> kiosk_db \<Rightarrow> bool" where
  "steady db db' \<longleftrightarrow> db_quotes db' = db_quotes db \<and> list_all2 quiet_row (db_sessions db) (db_sessions db')"

lemma quiet_row_refl [simp, intro]: "quiet_row s s"
  by (simp add: quiet_row_def)

lemma quiet_row_trans: "quiet_row a b \<Longrightarrow> quiet_row b c \<Longrightarrow> quiet_row a c"
  by (auto simp: quiet_row_def)

lemma quiet_rows_refl [simp, intro]: "list_all2 quiet_row rows rows"
  by (simp add: list_all2_refl)

lemma quiet_updated:
  "(\<And>s. s \<in> set rows \<Longrightarrow> p s \<Longrightarrow> quiet_row s (f s)) \<Longrightarrow> list_all2 quiet_row rows (updated p f rows)"
  by (induction rows) auto

lemma quiet_keeps_ids: "list_all2 quiet_row rows rows' \<Longrightarrow> map se_id rows' = map se_id rows"
  by (induction rows rows' rule: list_all2_induct) (auto simp: quiet_row_def)

lemma steady_refl [simp, intro]: "steady db db"
  by (simp add: steady_def)

lemma steady_trans: "steady a b \<Longrightarrow> steady b c \<Longrightarrow> steady a c"
  unfolding steady_def by (auto elim: list_all2_trans [rotated] intro: quiet_row_trans)

lemma steady_cong: "steady a b \<Longrightarrow> db_quotes a' = db_quotes a \<Longrightarrow> db_sessions a' = db_sessions a \<Longrightarrow>
    db_quotes b' = db_quotes b \<Longrightarrow> db_sessions b' = db_sessions b \<Longrightarrow> steady a' b'"
  by (simp add: steady_def)

lemma steady_via: "steady b' c \<Longrightarrow> steady a b \<Longrightarrow> db_quotes b' = db_quotes b \<Longrightarrow> db_sessions b' = db_sessions b \<Longrightarrow>
    steady a c"
  by (rule steady_trans [of a b]) (simp_all add: steady_def)

lemma steady_same: "db_quotes db' = db_quotes db \<Longrightarrow> db_sessions db' = db_sessions db \<Longrightarrow> steady db db'"
  by (simp add: steady_def)

lemma committed_steady: "(\<And>x db'. r = Inr (x, db') \<Longrightarrow> steady db db') \<Longrightarrow> steady db (committed db r)"
  by (cases r) (auto simp: committed_def split: prod.splits)

section \<open>Settling a job\<close>

lemma schedule_steady:
  assumes "scheduleSessionFilesForCleanup sid now sch db = Inr db'"
  shows "steady db db'"
  using assms
  by (auto simp: scheduleSessionFilesForCleanup_def Let_def steady_def quiet_row_def intro!: quiet_updated)

lemma status_state_paid [simp]: "session_state_of_status st \<in> paid_states"
  by (cases st) (simp_all add: paid_states_def)

lemma reducer_state_paid: "st_sessionState (settlePrintDeviceResult r) \<in> paid_states"
  by (cases "dr_state r") (auto simp: settle_defs paid_states_def)

lemma settleSession_steady:
  assumes "settleSession i job r db = Inr (out, db')" and ids: "distinct (map se_id (db_sessions db))"
    and paid: "st_sessionState (si_settlement i) \<in> paid_states"
  shows "steady db db'"
proof (cases "List.find (\<lambda>s. se_id s = pj_sessionId job) (db_sessions db)")
  case (Some session)
  then have s: "session \<in> set (db_sessions db)" by (auto dest: find_Some_set)
  define f :: "session_row \<Rightarrow> session_row" where "f = (\<lambda>s. s\<lparr>se_state := st_sessionState (si_settlement i), se_stateVersion := se_stateVersion session + 1,
      se_eventSequence := se_eventSequence session + 1,
      se_terminalReason := Some (terminalReasonFor (st_sessionState (si_settlement i)) (st_failureCode (si_settlement i))),
      se_completedAt := (if st_sessionState (si_settlement i) = S_COMPLETED then Some (si_now i) else se_completedAt s)\<rparr>)"
  define rows where "rows = updated (\<lambda>s. se_id s = se_id session \<and> se_stateVersion s = se_stateVersion session) f (db_sessions db)"
  show ?thesis
  proof (cases "se_state session = S_PRINTING")
    case False
    with Some assms(1) show ?thesis by (simp add: settleSession_def Let_def)
  next
    case True
    have "list_all2 quiet_row (db_sessions db) rows"
      unfolding rows_def
    proof (rule quiet_updated)
      fix x assume "x \<in> set (db_sessions db)" and "se_id x = se_id session \<and> se_stateVersion x = se_stateVersion session"
      then have "x = session" using key_unique [OF ids _ s] by simp
      with True paid show "quiet_row x (f x)" by (auto simp: quiet_row_def f_def paid_states_def)
    qed
    moreover have "db_sessions db' = rows \<and> db_quotes db' = db_quotes db \<or>
        (\<exists>d. db_sessions d = rows \<and> db_quotes d = db_quotes db \<and> steady d db')"
      using assms(1) Some True
      by (auto simp: settleSession_def Let_def f_def [symmetric] rows_def [symmetric] revokeSessionAccess_def
          split: if_splits dest!: schedule_steady intro: steady_cong)
    ultimately show ?thesis
      unfolding steady_def by (auto elim: list_all2_trans [rotated] intro: quiet_row_trans)
  qed
qed (use assms in \<open>simp add: settleSession_def\<close>)

lemma settlement_writes_no_quote [simp]:
  "db_quotes (recordPrintJobEvent e db) = db_quotes db"
  "db_quotes (snd (recordPrintFailureCompensation p s i now db)) = db_quotes db"
  "db_quotes (snd (applyKioskPaperDeduction k n db)) = db_quotes db"
  by (simp_all add: recordPrintJobEvent_def recordPrintFailureCompensation_def applyKioskPaperDeduction_def Let_def
      split: option.split)

lemma settleSession_quotes: "settleSession i job r db = Inr (out, db') \<Longrightarrow> db_quotes db' = db_quotes db"
  by (auto simp: settleSession_def Let_def scheduleSessionFilesForCleanup_def revokeSessionAccess_def
      split: option.splits if_splits)

lemma settlement_quotes:
  "applyPrintJobSettlement i db = Inr (out, db') \<Longrightarrow> db_quotes db' = db_quotes db"
  by (auto simp: applyPrintJobSettlement_def Let_def split_beta split: option.splits if_splits
      dest!: settleSession_quotes)

lemma settlement_steady:
  assumes run: "applyPrintJobSettlement i db = Inr (out, db')" and inv: "jobs_inv db"
    and ids: "distinct (map se_id (db_sessions db))" and paid: "st_sessionState (si_settlement i) \<in> paid_states"
  shows "steady db db'"
  using run jobs_invD(1) [OF inv]
proof (cases rule: settlement_cases)
  case (settled job db4 r)
  have "list_all2 quiet_row (db_sessions db4) (db_sessions db')"
    using settleSession_steady [OF settled(7) _ paid] ids settled(6) by (simp add: steady_def)
  then show ?thesis using settled(6) settlement_quotes [OF run] by (simp add: steady_def)
qed simp

section \<open>Every event of the print path\<close>

lemma untouched_events:
  "steady db (snd (reserveDispatch candidate now db))"
  "issueCommand message now newId db = Inr db' \<Longrightarrow> steady db db'"
  "claimOne uuid lease kioskId now ids db = Inr (c, db') \<Longrightarrow> steady db db'"
    apply (rule steady_same; simp add: reserveDispatch_def Let_def)
   apply (rule steady_same; auto simp: issueCommand_def Let_def split: option.splits if_splits)
  apply (rule steady_same; auto simp: claimOne_def Let_def split: list.splits option.splits if_splits)
  done

lemma progress_steady:
  assumes "reportProgress lease kioskId op token state now eventId db = Inr (out, db')"
  shows "steady db db'"
proof -
  obtain command printJobId where "progressOn lease token state now eventId db command printJobId = Inr (out, db')"
    using assms unfolding reportProgress_def by (rule withSession_Inr)
  then show ?thesis
    by (intro steady_same) (auto simp: progressOn_def Let_def split: option.splits if_splits)
qed

lemma sweep_state_paid [simp]: "st_sessionState (sweepSettlement b f) \<in> paid_states"
proof (cases b)
  case True
  then show ?thesis unfolding sweepSettlement_def by (simp only: if_True reducer_state_paid)
next
  case False
  then show ?thesis unfolding sweepSettlement_def by (simp only: if_False reducer_state_paid)
qed

lemma result_steady:
  assumes inv: "jobs_inv db" and ids: "distinct (map se_id (db_sessions db))"
    and run: "reportResult lease policy kioskId cred op requestId body heldAt now newId db = Inr (out, db')"
  shows "steady db db'"
proof -
  obtain command printJobId where run': "resultOn lease policy cred requestId body heldAt now newId db command printJobId = Inr (out, db')"
    using run unfolding reportResult_def by (rule withSession_Inr)
  then show ?thesis
    by (auto simp: resultOn_def Let_def split: option.splits if_splits dest!: settlement_steady [OF _ inv ids])
qed

lemma overdue_steady:
  assumes inv: "jobs_inv db" and ids: "distinct (map se_id (db_sessions db))"
    and run: "settleOverdue policy jobId now newId db = Inr (out, db')"
  shows "steady db db'"
  using run by (auto simp: settleOverdue_def split: option.splits if_splits dest!: settlement_steady [OF _ inv ids])

lemma release_steady:
  assumes inv: "jobs_inv db" and ids: "distinct (map se_id (db_sessions db))"
    and run: "releaseLease maxAttempts policy commandId now newId db = Inr (out, db')"
  shows "steady db db'"
  using run
  by (auto simp: releaseLease_def Let_def steady_same split: option.splits if_splits dest!: settlement_steady [OF _ inv ids])

lemma idempotency_steady:
  "steady db (snd (findIdempotency sv a act k now db))"
  "storeReplay sv a act k h rid now n db = Inr db' \<Longrightarrow> steady db db'"
   apply (simp add: findIdempotency_def Let_def steady_def split: option.split)
  apply (auto simp: storeReplay_def Let_def steady_def split: if_splits)
  done

lemma cancelOpen_steady:
  assumes inv: "jobs_inv db" and ids: "distinct (map se_id (db_sessions db))"
    and run: "cancelOpenJob sv input printJob now newId db = Inr db'"
  shows "steady db db'"
proof (cases "pj_status printJob = JS_PRINTING")
  case True
  then show ?thesis using run by (auto simp: cancelOpenJob_def steady_def)
next
  case False
  then obtain i outcome r where "applyPrintJobSettlement i db = Inr (outcome, db')" "si_settlement i = settlePrintDeviceResult r"
    using run by (auto simp: cancelOpenJob_def)
  then show ?thesis using settlement_steady [OF _ inv ids] reducer_state_paid by simp
qed

lemma cancelFresh_steady:
  assumes inv: "jobs_inv db" and ids: "distinct (map se_id (db_sessions db))"
    and run: "cancelFresh sv input ownedId action h now newId db = Inr (out, db')"
  shows "steady db db'"
proof -
  have "db' = db \<or> (\<exists>printJob db2 db3. cancelOpenJob sv input printJob now newId db = Inr db2 \<and> steady db2 db3 \<and> steady db3 db')"
    using run by (auto simp: cancelFresh_def Let_def split: option.splits if_splits dest!: idempotency_steady(2)
        intro: steady_same)
  then show ?thesis by (auto dest!: cancelOpen_steady [OF inv ids] intro: steady_trans)
qed

lemma cancel_steady:
  assumes inv: "jobs_inv db" and ids: "distinct (map se_id (db_sessions db))"
    and run: "cancelPrintJob sv input now newId db = Inr (out, db')"
  shows "steady db db'"
proof -
  define action where "action = ''print-jobs.cancel:'' @ cn_printJobId input"
  define h where "h = sv_hashRequest sv [(''printJobId'', cn_printJobId input)]"
  obtain found db1 where idem: "findIdempotency sv (cn_kioskId input) action (cn_idempotencyKey input) now db = (found, db1)"
    by fastforce
  have st: "steady db db1" and core: "same_core db db1"
    using idempotency_steady(1) [of db sv "cn_kioskId input" action "cn_idempotencyKey input" now]
      findIdempotency_core [of db sv "cn_kioskId input" action "cn_idempotencyKey input" now] by (simp_all add: idem)
  have "db' = db1 \<or> (\<exists>ownedId. cancelFresh sv input ownedId action h now newId db1 = Inr (out, db'))"
    using run idem unfolding cancelPrintJob_def Let_def action_def [symmetric] h_def [symmetric]
    by (auto split: option.splits)
  moreover have "distinct (map se_id (db_sessions db1))"
    using st ids quiet_keeps_ids by (metis steady_def)
  ultimately show ?thesis
    using st cancelFresh_steady [OF same_core_inv [OF core inv]] by (auto intro: steady_trans)
qed

lemma startPrinting_steady:
  assumes ids: "distinct (map se_id (db_sessions db))" and s: "session \<in> set (db_sessions db)"
    and run: "startPrinting session jobId n db = Inr (q, db')"
  shows "steady db db'"
proof (cases "se_state session = S_PRINTING")
  case False
  with run have paid: "se_state session = S_PAID"
    by (cases "se_state session") (auto simp: startPrinting_def canTransitionSession_def split: sum.splits)
  have "list_all2 quiet_row (db_sessions db) (db_sessions db')"
    using run False
    by (auto simp: startPrinting_def Let_def split: sum.splits if_splits intro!: quiet_updated dest!: key_unique [OF ids _ s])
      (simp_all add: quiet_row_def paid paid_states_def)
  moreover have "db_quotes db' = db_quotes db"
    using run False by (auto simp: startPrinting_def Let_def split: sum.splits if_splits)
  ultimately show ?thesis by (simp add: steady_def)
qed (use run in \<open>simp add: startPrinting_def\<close>)

lemma insert_steady:
  assumes ids: "distinct (map se_id (db_sessions db))" and s: "session \<in> set (db_sessions db)"
    and run: "insertJob sv input session now newId action h db = Inr (out, db')"
  shows "steady db db'"
proof -
  have start: "steady db db1" if "startPrinting session i n (db\<lparr>db_jobs := rows\<rparr>) = Inr (q, db1)" for i n rows q db1
    using startPrinting_steady [OF _ _ that] ids s by (simp add: steady_def)
  show ?thesis
    using run
    by (auto simp: insertJob_def Let_def dest!: idempotency_steady(2) start split: option.splits if_splits
        elim!: steady_via)
qed

lemma create_steady:
  assumes ids: "distinct (map se_id (db_sessions db))"
    and run: "createPrintJob sv input now newId db = Inr (out, db')"
  shows "steady db db'"
proof -
  define action where "action = ''print-jobs.create:'' @ ci_sessionId input"
  obtain found db1 where idem: "findIdempotency sv (ci_kioskId input) action (ci_idempotencyKey input) now db = (found, db1)"
    by fastforce
  have st: "steady db db1"
    using idempotency_steady(1) [of db sv "ci_kioskId input" action "ci_idempotencyKey input" now] by (simp add: idem)
  then have ids1: "distinct (map se_id (db_sessions db1))" using ids quiet_keeps_ids by (metis steady_def)
  have "db' = db1 \<or> (\<exists>session h. session \<in> set (db_sessions db1) \<and> insertJob sv input session now newId action h db1 = Inr (out, db'))"
    using run idem unfolding createPrintJob_def Let_def action_def [symmetric]
    by (auto split: option.splits if_splits dest!: find_Some_set)
  then show ?thesis using st insert_steady [OF ids1] by (auto intro: steady_trans)
qed

lemma control_steady:
  assumes "jobs_inv db" and "distinct (map se_id (db_sessions db))"
  shows "steady db (controlStep cfg e db)"
proof (cases e)
  case (EvIssue message now newId)
  then show ?thesis
    by (cases "issueCommand message now newId db") (simp_all add: committed_db_def untouched_events)
qed (use assms in \<open>auto intro!: committed_steady intro: create_steady cancel_steady progress_steady release_steady
  overdue_steady result_steady untouched_events\<close>)

text \<open>The payments stay as they are, and refunds are only added.\<close>

lemma job_step_money:
  assumes "jobs_inv db" and "job_step db db'"
  shows "db_payments db' = db_payments db" and "\<exists>rs. db_refunds db' = db_refunds db @ rs"
proof -
  show "\<exists>rs. db_refunds db' = db_refunds db @ rs"
    using job_step_keeps [OF assms] by (simp add: outcomes_kept_def)
  show "db_payments db' = db_payments db"
    using assms(2) by cases (simp_all add: job_money_kept_def settled_tables_def Let_def)
qed

end
