(* ===== verification/Money_Ledger.thy ===== *)
theory Money_Ledger
  imports Control_Frames Payments Session_Service
begin

text \<open>
  The money of the whole control plane as one transition system. The specification \<open>ledger_step\<close> says
  what one transaction may do to payments, sessions, quotes and refunds; the next theory shows that
  every transaction is such a step. Here: the specification, the invariant it keeps, and the order
  in which a payment may develop, which is the one the database's own triggers enforce.
\<close>

section \<open>How one payment may develop\<close>

text \<open>The trigger \<open>payments_status_is_monotonic\<close> of the migrations, on the old and the new row.\<close>

definition payments_assert_status_progression :: "payment_row \<Rightarrow> payment_row \<Rightarrow> bool" where
  "payments_assert_status_progression old new =
     (if py_status old = PS_CAPTURED
      then py_status new = py_status old \<and> py_capturedAt new = py_capturedAt old \<and>
        py_appliedToSession new = py_appliedToSession old
      else if py_status new = py_status old then True
      else if py_status old = PS_DECLINED then False
      else if py_status old \<in> {PS_CANCELED, PS_TIMED_OUT} \<and> py_status new \<noteq> PS_CAPTURED then False
      else if py_status new = PS_PENDING then False
      else True)"

text \<open>The trigger \<open>payments_identity_is_immutable\<close>.\<close>

definition payments_reject_identity_rewrite :: "payment_row \<Rightarrow> payment_row \<Rightarrow> bool" where
  "payments_reject_identity_rewrite old new \<longleftrightarrow>
     py_sessionId new = py_sessionId old \<and> py_quoteId new = py_quoteId old \<and> py_provider new = py_provider old \<and>
     py_providerIntentId new = py_providerIntentId old \<and> py_amountMinor new = py_amountMinor old \<and>
     py_currency new = py_currency old \<and> py_currencyExponent new = py_currencyExponent old \<and>
     py_settingsRevision new = py_settingsRevision old \<and> py_manifestHash new = py_manifestHash old \<and>
     py_createdAt new = py_createdAt old"

text \<open>The trigger \<open>payments_match_their_quote\<close>; a currency is a column of fixed width, so blanks at its end do not count.\<close>

definition payments_assert_matches_quote :: "payment_row \<Rightarrow> quote_row \<Rightarrow> bool" where
  "payments_assert_matches_quote p quoted \<longleftrightarrow>
     qr_id quoted = py_quoteId p \<and> qr_sessionId quoted = py_sessionId p \<and>
     py_amountMinor p = qb_totalMinor (qr_breakdown quoted) \<and>
     py_currency p = js_trim (qb_currency (qr_breakdown quoted)) \<and>
     py_currencyExponent p = qb_currencyExponent (qr_breakdown quoted) \<and>
     py_settingsRevision p = qr_settingsRevision quoted \<and> py_manifestHash p = qr_manifestHash quoted"

lemma progression_trans:
  "payments_assert_status_progression a b \<Longrightarrow> payments_assert_status_progression b c \<Longrightarrow>
    payments_assert_status_progression a c"
  by (cases "py_status a"; cases "py_status b"; cases "py_status c") (simp_all add: payments_assert_status_progression_def)

text \<open>What a transaction may change of a payment: its status, forward, and the marks that go with it.\<close>

definition payment_evolves :: "payment_row \<Rightarrow> payment_row \<Rightarrow> bool" where
  "payment_evolves p p' \<longleftrightarrow>
     payments_assert_status_progression p p' \<and>
     (py_appliedToSession p \<longrightarrow> p' = p) \<and> (py_status p = PS_CAPTURED \<longrightarrow> p' = p) \<and>
     p' = p\<lparr>py_status := py_status p', py_appliedToSession := py_appliedToSession p', py_failureCode := py_failureCode p',
            py_authorizedAt := py_authorizedAt p', py_capturedAt := py_capturedAt p', py_failedAt := py_failedAt p'\<rparr>"

lemma payment_evolves_refl [simp, intro]: "payment_evolves p p"
  by (simp add: payment_evolves_def payments_assert_status_progression_def)

lemma payment_evolves_keeps:
  assumes "payment_evolves p p'"
  shows "py_id p' = py_id p" "py_sessionId p' = py_sessionId p" "py_quoteId p' = py_quoteId p"
    "py_amountMinor p' = py_amountMinor p" "py_currency p' = py_currency p" "py_currencyExponent p' = py_currencyExponent p"
    "py_settingsRevision p' = py_settingsRevision p" "py_manifestHash p' = py_manifestHash p"
    "py_providerIntentId p' = py_providerIntentId p" "py_provider p' = py_provider p" "py_expiresAt p' = py_expiresAt p"
    "py_createdAt p' = py_createdAt p"
proof -
  obtain s a f u c d where "p' = p\<lparr>py_status := s, py_appliedToSession := a, py_failureCode := f,
            py_authorizedAt := u, py_capturedAt := c, py_failedAt := d\<rparr>"
    using assms unfolding payment_evolves_def by blast
  then show "py_id p' = py_id p" "py_sessionId p' = py_sessionId p" "py_quoteId p' = py_quoteId p"
    "py_amountMinor p' = py_amountMinor p" "py_currency p' = py_currency p" "py_currencyExponent p' = py_currencyExponent p"
    "py_settingsRevision p' = py_settingsRevision p" "py_manifestHash p' = py_manifestHash p"
    "py_providerIntentId p' = py_providerIntentId p" "py_provider p' = py_provider p" "py_expiresAt p' = py_expiresAt p"
    "py_createdAt p' = py_createdAt p"
    by simp_all
qed

section \<open>What one transaction may do\<close>

definition sessions_follow :: "session_row list \<Rightarrow> session_row list \<Rightarrow> bool" where
  "sessions_follow rows rows' \<longleftrightarrow>
     (\<exists>kept new. rows' = kept @ new \<and> list_all2 quiet_row rows kept \<and>
        (\<forall>s \<in> set new. se_state s \<notin> paid_states \<and> se_state s \<noteq> S_AWAITING_PAYMENT) \<and>
        distinct (map se_id new) \<and> set (map se_id new) \<inter> set (map se_id rows) = {})"

definition priced :: "quote_row \<Rightarrow> string \<times> string \<times> int \<times> string \<times> quote_breakdown" where
  "priced q = (qr_id q, qr_sessionId q, qr_settingsRevision q, qr_manifestHash q, qr_breakdown q)"

definition books_follow :: "kiosk_db \<Rightarrow> kiosk_db \<Rightarrow> bool" where
  "books_follow db db' \<longleftrightarrow>
     (\<exists>rs. db_refunds db' = db_refunds db @ rs) \<and> (\<exists>qs. map priced (db_quotes db') = map priced (db_quotes db) @ qs)"

definition owed :: "payment_row \<Rightarrow> kiosk_db \<Rightarrow> bool" where
  "owed p db \<longleftrightarrow> (\<exists>r \<in> set (db_refunds db). rf_paymentId r = py_id p \<and> rf_reason r \<in> {LATE_CAPTURE, AMOUNT_MISMATCH})"

text \<open>
  Every capture that is not applied has its refund, save those of which the provider said that it captured
  nothing: \<open>Z\<close> holds the intents, with their provider, such callbacks were about.
\<close>

definition accounted :: "(string \<times> string) set \<Rightarrow> payment_row \<Rightarrow> kiosk_db \<Rightarrow> bool" where
  "accounted Z p db \<longleftrightarrow> owed p db \<or> (py_provider p, py_providerIntentId p) \<in> Z"

text \<open>A session turns to \<open>target\<close>, the others are quiet.\<close>

definition turned_row :: "string \<Rightarrow> session_state \<Rightarrow> session_state set \<Rightarrow> session_row \<Rightarrow> session_row \<Rightarrow> bool" where
  "turned_row sid target sources s s' \<longleftrightarrow>
     se_id s' = se_id s \<and> (if se_id s = sid then se_state s \<in> sources \<and> se_state s' = target else s' = s)"

definition no_longer_awaiting :: "string \<Rightarrow> kiosk_db \<Rightarrow> bool" where
  "no_longer_awaiting sid db \<longleftrightarrow> (\<forall>s \<in> set (db_sessions db). se_id s = sid \<longrightarrow> se_state s \<noteq> S_AWAITING_PAYMENT)"

inductive ledger_step :: "(string \<times> string) set \<Rightarrow> kiosk_db \<Rightarrow> kiosk_db \<Rightarrow> bool" where
  quiet: "db_payments db' = db_payments db \<Longrightarrow> sessions_follow (db_sessions db) (db_sessions db') \<Longrightarrow>
     books_follow db db' \<Longrightarrow> ledger_step Z db db'"
| opened: "db_payments db' = db_payments db @ [p] \<Longrightarrow> payment_open p \<Longrightarrow> \<not> py_appliedToSession p \<Longrightarrow>
     (\<forall>q \<in> set (db_payments db). py_id q \<noteq> py_id p \<and> \<not> (py_sessionId q = py_sessionId p \<and> payment_open q)) \<Longrightarrow>
     (\<exists>q \<in> set (db_quotes db). payments_assert_matches_quote p q) \<Longrightarrow>
     list_all2 (turned_row (py_sessionId p) S_AWAITING_PAYMENT {S_CONFIGURING}) (db_sessions db) (db_sessions db') \<Longrightarrow>
     books_follow db db' \<Longrightarrow> ledger_step Z db db'"
| settled: "db_payments db' = updated (\<lambda>q. py_id q = py_id p) f (db_payments db) \<Longrightarrow> p \<in> set (db_payments db) \<Longrightarrow>
     payment_evolves p (f p) \<Longrightarrow> py_status p \<noteq> PS_CAPTURED \<Longrightarrow> \<not> py_appliedToSession (f p) \<Longrightarrow>
     (payment_open (f p) \<longrightarrow> payment_open p) \<Longrightarrow> (py_status (f p) = PS_CAPTURED \<longrightarrow> accounted Z p db') \<Longrightarrow>
     (payment_open p \<and> \<not> payment_open (f p) \<longrightarrow> no_longer_awaiting (py_sessionId p) db') \<Longrightarrow>
     sessions_follow (db_sessions db) (db_sessions db') \<Longrightarrow> books_follow db db' \<Longrightarrow> ledger_step Z db db'"
| applied: "db_payments db' = updated (\<lambda>q. py_id q = py_id p) f (db_payments db) \<Longrightarrow> p \<in> set (db_payments db) \<Longrightarrow>
     payment_evolves p (f p) \<Longrightarrow> payment_open p \<Longrightarrow> py_status (f p) = PS_CAPTURED \<Longrightarrow> py_appliedToSession (f p) \<Longrightarrow>
     (\<forall>q \<in> set (db_payments db). py_id q \<noteq> py_id p \<longrightarrow> \<not> (py_sessionId q = py_sessionId p \<and> py_appliedToSession q)) \<Longrightarrow>
     py_sessionId p \<in> se_id ` set (db_sessions db) \<Longrightarrow>
     list_all2 (turned_row (py_sessionId p) S_PAID {S_AWAITING_PAYMENT}) (db_sessions db) (db_sessions db') \<Longrightarrow>
     books_follow db db' \<Longrightarrow> ledger_step Z db db'"

section \<open>The invariant of the money\<close>

definition money_inv :: "kiosk_db \<Rightarrow> bool" where
  "money_inv db \<longleftrightarrow>
     distinct (map se_id (db_sessions db)) \<and> distinct (map py_id (db_payments db)) \<and>
     (\<forall>p \<in> set (db_payments db). py_appliedToSession p \<longrightarrow> py_status p = PS_CAPTURED) \<and>
     (\<forall>p \<in> set (db_payments db). py_appliedToSession p \<longrightarrow>
        (\<exists>s \<in> set (db_sessions db). se_id s = py_sessionId p \<and> se_state s \<in> paid_states)) \<and>
     (\<forall>s \<in> set (db_sessions db). se_state s \<in> paid_states \<longrightarrow>
        (\<exists>p \<in> set (db_payments db). py_sessionId p = se_id s \<and> py_appliedToSession p)) \<and>
     (\<forall>p \<in> set (db_payments db). \<forall>q \<in> set (db_payments db).
        py_sessionId p = py_sessionId q \<and> py_appliedToSession p \<and> py_appliedToSession q \<longrightarrow> p = q) \<and>
     (\<forall>p \<in> set (db_payments db). \<forall>q \<in> set (db_payments db).
        py_sessionId p = py_sessionId q \<and> payment_open p \<and> payment_open q \<longrightarrow> p = q) \<and>
     (\<forall>s \<in> set (db_sessions db). se_state s = S_AWAITING_PAYMENT \<longrightarrow>
        (\<exists>p \<in> set (db_payments db). py_sessionId p = se_id s \<and> payment_open p)) \<and>
     (\<forall>p \<in> set (db_payments db). \<exists>q \<in> set (db_quotes db). payments_assert_matches_quote p q)"

lemma money_invD:
  assumes "money_inv db"
  shows "distinct (map se_id (db_sessions db))" "distinct (map py_id (db_payments db))"
    "p \<in> set (db_payments db) \<Longrightarrow> py_appliedToSession p \<Longrightarrow> py_status p = PS_CAPTURED"
    "p \<in> set (db_payments db) \<Longrightarrow> py_appliedToSession p \<Longrightarrow>
       \<exists>s \<in> set (db_sessions db). se_id s = py_sessionId p \<and> se_state s \<in> paid_states"
    "s \<in> set (db_sessions db) \<Longrightarrow> se_state s \<in> paid_states \<Longrightarrow>
       \<exists>p \<in> set (db_payments db). py_sessionId p = se_id s \<and> py_appliedToSession p"
    "p \<in> set (db_payments db) \<Longrightarrow> q \<in> set (db_payments db) \<Longrightarrow> py_sessionId p = py_sessionId q \<Longrightarrow>
       py_appliedToSession p \<Longrightarrow> py_appliedToSession q \<Longrightarrow> p = q"
    "p \<in> set (db_payments db) \<Longrightarrow> q \<in> set (db_payments db) \<Longrightarrow> py_sessionId p = py_sessionId q \<Longrightarrow>
       payment_open p \<Longrightarrow> payment_open q \<Longrightarrow> p = q"
    "s \<in> set (db_sessions db) \<Longrightarrow> se_state s = S_AWAITING_PAYMENT \<Longrightarrow>
       \<exists>p \<in> set (db_payments db). py_sessionId p = se_id s \<and> payment_open p"
    "p \<in> set (db_payments db) \<Longrightarrow> \<exists>q \<in> set (db_quotes db). payments_assert_matches_quote p q"
  using assms unfolding money_inv_def by blast+

section \<open>The invariant is kept\<close>

lemma set_updated_key:
  "distinct (map key rows) \<Longrightarrow> r \<in> set rows \<Longrightarrow> set (updated (\<lambda>q. key q = key r) f rows) = insert (f r) (set rows - {r})"
  by (auto simp: set_updated dest: key_unique)

lemma all2_back: "list_all2 R xs ys \<Longrightarrow> y \<in> set ys \<Longrightarrow> \<exists>x \<in> set xs. R x y"
  by (induction xs ys rule: list_all2_induct) auto

lemma all2_forth: "list_all2 R xs ys \<Longrightarrow> x \<in> set xs \<Longrightarrow> \<exists>y \<in> set ys. R x y"
  by (induction xs ys rule: list_all2_induct) auto

lemma follow_back:
  assumes "sessions_follow rows rows'" and "s' \<in> set rows'"
  shows "(\<exists>s \<in> set rows. quiet_row s s') \<or> se_state s' \<notin> paid_states \<and> se_state s' \<noteq> S_AWAITING_PAYMENT"
proof -
  obtain kept new where k: "rows' = kept @ new" "list_all2 quiet_row rows kept"
    "\<forall>s \<in> set new. se_state s \<notin> paid_states \<and> se_state s \<noteq> S_AWAITING_PAYMENT"
    using assms(1) unfolding sessions_follow_def by blast
  show ?thesis using assms(2) all2_back [OF k(2)] k(3) unfolding k(1) set_append by blast
qed

lemma follow_forth:
  assumes "sessions_follow rows rows'" and "s \<in> set rows"
  shows "\<exists>s' \<in> set rows'. quiet_row s s'"
proof -
  obtain kept new where k: "rows' = kept @ new" "list_all2 quiet_row rows kept"
    using assms(1) unfolding sessions_follow_def by blast
  show ?thesis using all2_forth [OF k(2) assms(2)] unfolding k(1) set_append by blast
qed

lemma follow_ids:
  assumes "sessions_follow rows rows'" and "distinct (map se_id rows)"
  shows "distinct (map se_id rows')"
proof -
  obtain kept new where k: "rows' = kept @ new" "list_all2 quiet_row rows kept" "distinct (map se_id new)"
    "set (map se_id new) \<inter> set (map se_id rows) = {}" using assms(1) unfolding sessions_follow_def by blast
  have "map se_id rows' = map se_id rows @ map se_id new" by (simp add: k(1) quiet_keeps_ids [OF k(2)])
  then show ?thesis using k(3,4) assms(2) by (simp only: distinct_append) blast
qed

lemma turned_ids: "list_all2 (turned_row sid t src) rows rows' \<Longrightarrow> map se_id rows' = map se_id rows"
  by (induction rows rows' rule: list_all2_induct) (auto simp: turned_row_def)

lemma books_quotes:
  assumes "books_follow db db'" and "q \<in> set (db_quotes db)" and "payments_assert_matches_quote p q"
  shows "\<exists>q' \<in> set (db_quotes db'). payments_assert_matches_quote p q'"
proof -
  obtain qs where "map priced (db_quotes db') = map priced (db_quotes db) @ qs"
    using assms(1) by (auto simp: books_follow_def)
  then have "priced q \<in> set (map priced (db_quotes db'))" using assms(2) by (simp only: set_append set_map) blast
  then obtain q' where "q' \<in> set (db_quotes db')" "priced q' = priced q" by auto
  with assms(3) show ?thesis by (intro bexI [of _ q']) (auto simp: payments_assert_matches_quote_def priced_def)
qed

lemma matches_evolved:
  "payment_evolves p p' \<Longrightarrow> payments_assert_matches_quote p' q = payments_assert_matches_quote p q"
  by (simp add: payments_assert_matches_quote_def payment_evolves_keeps)

lemma books_owed: "books_follow db db' \<Longrightarrow> owed p db \<Longrightarrow> owed p db'"
  unfolding books_follow_def owed_def by auto

lemma owed_cong: "py_id p' = py_id p \<Longrightarrow> owed p' db = owed p db"
  by (simp add: owed_def)

lemma open_not_captured: "payment_open p \<Longrightarrow> py_status p \<noteq> PS_CAPTURED"
  by (auto simp: payment_open_def OPEN_PAYMENT_STATUSES_def)

lemma money_quiet_inv:
  assumes inv: "money_inv db" and P: "db_payments db' = db_payments db"
    and S: "sessions_follow (db_sessions db) (db_sessions db')" and B: "books_follow db db'"
  shows "money_inv db'"
  unfolding money_inv_def P
proof (intro conjI ballI impI)
  show "distinct (map se_id (db_sessions db'))" using follow_ids [OF S] money_invD(1) [OF inv] by blast
  show "distinct (map py_id (db_payments db))" by (rule money_invD(2) [OF inv])
next
  fix p assume "p \<in> set (db_payments db)" "py_appliedToSession p"
  then show "\<exists>s \<in> set (db_sessions db'). se_id s = py_sessionId p \<and> se_state s \<in> paid_states"
  proof -
    obtain s where s: "s \<in> set (db_sessions db)" "se_id s = py_sessionId p" "se_state s \<in> paid_states"
      using money_invD(4) [OF inv \<open>p \<in> set (db_payments db)\<close>] \<open>py_appliedToSession p\<close> by blast
    obtain s' where "s' \<in> set (db_sessions db')" "quiet_row s s'" using follow_forth [OF S s(1)] by blast
    with s show ?thesis by (auto simp: quiet_row_def)
  qed
next
  fix s assume s: "s \<in> set (db_sessions db')" "se_state s \<in> paid_states"
  then obtain s0 where "s0 \<in> set (db_sessions db)" "quiet_row s0 s" using follow_back [OF S] by blast
  with s show "\<exists>p \<in> set (db_payments db). py_sessionId p = se_id s \<and> py_appliedToSession p"
    using money_invD(5) [OF inv] by (auto simp: quiet_row_def)
next
  fix s assume s: "s \<in> set (db_sessions db')" "se_state s = S_AWAITING_PAYMENT"
  then obtain s0 where "s0 \<in> set (db_sessions db)" "quiet_row s0 s" using follow_back [OF S] by blast
  with s show "\<exists>p \<in> set (db_payments db). py_sessionId p = se_id s \<and> payment_open p"
    using money_invD(8) [OF inv] by (auto simp: quiet_row_def)
next
  fix p assume "p \<in> set (db_payments db)"
  then show "\<exists>q \<in> set (db_quotes db'). payments_assert_matches_quote p q"
    using money_invD(9) [OF inv] books_quotes [OF B] by blast
qed (use money_invD [OF inv] in blast)+

text \<open>The rows after one payment has developed.\<close>

lemma evolved_rows:
  assumes "money_inv db" and "db_payments db' = updated (\<lambda>q. py_id q = py_id p) f (db_payments db)"
    and "p \<in> set (db_payments db)" and "payment_evolves p (f p)"
  shows "set (db_payments db') = insert (f p) (set (db_payments db) - {p})"
    and "distinct (map py_id (db_payments db'))"
proof -
  note u = money_invD(2) [OF assms(1)]
  show "set (db_payments db') = insert (f p) (set (db_payments db) - {p})"
    unfolding assms(2) by (rule set_updated_key [OF u assms(3)])
  have "py_id (f q) = py_id q" if "q \<in> set (db_payments db)" "py_id q = py_id p" for q
    using key_unique [OF u that(1) assms(3) that(2)] payment_evolves_keeps(1) [OF assms(4)] by simp
  then have "map py_id (db_payments db') = map py_id (db_payments db)"
    unfolding assms(2) updated_def by (auto simp: comp_def)
  then show "distinct (map py_id (db_payments db'))" using u by simp
qed

lemma settled_inv:
  assumes inv: "money_inv db" and P: "db_payments db' = updated (\<lambda>q. py_id q = py_id p) f (db_payments db)"
    and p: "p \<in> set (db_payments db)" and ev: "payment_evolves p (f p)" and nc: "py_status p \<noteq> PS_CAPTURED"
    and na: "\<not> py_appliedToSession (f p)" and opn: "payment_open (f p) \<longrightarrow> payment_open p"
    and rel: "payment_open p \<and> \<not> payment_open (f p) \<longrightarrow> no_longer_awaiting (py_sessionId p) db'"
    and S: "sessions_follow (db_sessions db) (db_sessions db')" and B: "books_follow db db'"
  shows "money_inv db'"
proof -
  note rows = evolved_rows [OF inv P p ev] and keep = payment_evolves_keeps [OF ev]
  have nap: "\<not> py_appliedToSession p" using money_invD(3) [OF inv p] nc by blast
  have old: "q \<in> set (db_payments db') \<longleftrightarrow> q = f p \<or> q \<in> set (db_payments db) \<and> q \<noteq> p" for q
    unfolding rows(1) by blast
  have q0: "money_inv (db\<lparr>db_sessions := db_sessions db', db_refunds := db_refunds db', db_quotes := db_quotes db'\<rparr>)"
    by (rule money_quiet_inv [OF inv]) (use S B in \<open>simp_all add: books_follow_def\<close>)
  note mid = money_invD [OF q0, simplified]
  show ?thesis
    unfolding money_inv_def
  proof (intro conjI ballI impI)
    show "distinct (map py_id (db_payments db'))" by (rule rows(2))
  next
    fix s assume s: "s \<in> set (db_sessions db')" "se_state s \<in> paid_states"
    then obtain q where "q \<in> set (db_payments db)" "py_sessionId q = se_id s" "py_appliedToSession q" using mid(5) by blast
    with nap show "\<exists>p \<in> set (db_payments db'). py_sessionId p = se_id s \<and> py_appliedToSession p"
      by (intro bexI [of _ q]) (auto simp: old)
  next
    fix s assume s: "s \<in> set (db_sessions db')" "se_state s = S_AWAITING_PAYMENT"
    then obtain q where q: "q \<in> set (db_payments db)" "py_sessionId q = se_id s" "payment_open q" using mid(8) by blast
    show "\<exists>p \<in> set (db_payments db'). py_sessionId p = se_id s \<and> payment_open p"
    proof (cases "q = p")
      case True
      with q s rel have "payment_open (f p)" by (auto simp: no_longer_awaiting_def)
      with q True keep(2) show ?thesis by (intro bexI [of _ "f p"]) (simp_all add: old)
    next
      case False
      with q show ?thesis by (intro bexI [of _ q]) (simp_all add: old)
    qed
  next
    fix q q' assume "q \<in> set (db_payments db')" "q' \<in> set (db_payments db')"
      and "py_sessionId q = py_sessionId q' \<and> py_appliedToSession q \<and> py_appliedToSession q'"
    then show "q = q'" using na mid(6) by (auto simp: old)
  next
    fix q q' assume q: "q \<in> set (db_payments db')" "q' \<in> set (db_payments db')"
      "py_sessionId q = py_sessionId q' \<and> payment_open q \<and> payment_open q'"
    then show "q = q'" using opn mid(7) [OF p] mid(7) keep(2) p by (auto simp: old)
  next
    fix q assume q: "q \<in> set (db_payments db')"
    show "\<exists>r \<in> set (db_quotes db'). payments_assert_matches_quote q r"
      using q mid(9) p by (auto simp: old matches_evolved [OF ev])
  qed (use mid(1,3,4) na in \<open>auto simp: old\<close>)
qed

lemma opened_inv:
  assumes inv: "money_inv db" and P: "db_payments db' = db_payments db @ [p]" and opn: "payment_open p"
    and na: "\<not> py_appliedToSession p"
    and fresh: "\<forall>q \<in> set (db_payments db). py_id q \<noteq> py_id p \<and> \<not> (py_sessionId q = py_sessionId p \<and> payment_open q)"
    and quote: "\<exists>q \<in> set (db_quotes db). payments_assert_matches_quote p q"
    and S: "list_all2 (turned_row (py_sessionId p) S_AWAITING_PAYMENT {S_CONFIGURING}) (db_sessions db) (db_sessions db')"
    and B: "books_follow db db'"
  shows "money_inv db'"
proof -
  have prior: "\<exists>s \<in> set (db_sessions db). turned_row (py_sessionId p) S_AWAITING_PAYMENT {S_CONFIGURING} s s'"
    if "s' \<in> set (db_sessions db')" for s' by (rule all2_back [OF S that])
  note cap = open_not_captured [OF opn]
  show ?thesis
    unfolding money_inv_def P
  proof (intro conjI ballI impI)
    show "distinct (map se_id (db_sessions db'))" using turned_ids [OF S] money_invD(1) [OF inv] by simp
    show "distinct (map py_id (db_payments db @ [p]))" using money_invD(2) [OF inv] fresh by auto
  next
    fix q assume q: "q \<in> set (db_payments db @ [p])" "py_appliedToSession q"
    with na have "q \<in> set (db_payments db)" by auto
    with q(2) obtain s where s: "s \<in> set (db_sessions db)" "se_id s = py_sessionId q" "se_state s \<in> paid_states"
      using money_invD(4) [OF inv] by blast
    obtain s' where "s' \<in> set (db_sessions db')" "turned_row (py_sessionId p) S_AWAITING_PAYMENT {S_CONFIGURING} s s'"
      using all2_forth [OF S s(1)] by blast
    with s show "\<exists>s \<in> set (db_sessions db'). se_id s = py_sessionId q \<and> se_state s \<in> paid_states"
      by (intro bexI [of _ s']) (auto simp: turned_row_def paid_states_def split: if_splits)
  next
    fix s assume s: "s \<in> set (db_sessions db')" "se_state s \<in> paid_states"
    obtain s0 where "s0 \<in> set (db_sessions db)" "turned_row (py_sessionId p) S_AWAITING_PAYMENT {S_CONFIGURING} s0 s"
      using prior [OF s(1)] by blast
    with s(2) have "s \<in> set (db_sessions db)" by (auto simp: turned_row_def paid_states_def split: if_splits)
    with s(2) show "\<exists>q \<in> set (db_payments db @ [p]). py_sessionId q = se_id s \<and> py_appliedToSession q"
      using money_invD(5) [OF inv] by auto
  next
    fix s assume s: "s \<in> set (db_sessions db')" "se_state s = S_AWAITING_PAYMENT"
    obtain s0 where s0: "s0 \<in> set (db_sessions db)" "turned_row (py_sessionId p) S_AWAITING_PAYMENT {S_CONFIGURING} s0 s"
      using prior [OF s(1)] by blast
    show "\<exists>q \<in> set (db_payments db @ [p]). py_sessionId q = se_id s \<and> payment_open q"
    proof (cases "se_id s = py_sessionId p")
      case True
      with opn show ?thesis by auto
    next
      case False
      with s0 have "s \<in> set (db_sessions db)" by (auto simp: turned_row_def split: if_splits)
      with s(2) show ?thesis using money_invD(8) [OF inv] by auto
    qed
  next
    fix q assume "q \<in> set (db_payments db @ [p])"
    then show "\<exists>r \<in> set (db_quotes db'). payments_assert_matches_quote q r"
      using quote money_invD(9) [OF inv] books_quotes [OF B] by fastforce
  next
    fix q q' assume "q \<in> set (db_payments db @ [p])" "q' \<in> set (db_payments db @ [p])"
      and "py_sessionId q = py_sessionId q' \<and> py_appliedToSession q \<and> py_appliedToSession q'"
    then show "q = q'" using na money_invD(6) [OF inv] by auto
  next
    fix q q' assume "q \<in> set (db_payments db @ [p])" "q' \<in> set (db_payments db @ [p])"
      and "py_sessionId q = py_sessionId q' \<and> payment_open q \<and> payment_open q'"
    then show "q = q'" using fresh money_invD(7) [OF inv] by fastforce
  qed (use na money_invD(3) [OF inv] in auto)
qed

lemma applied_inv:
  assumes inv: "money_inv db" and P: "db_payments db' = updated (\<lambda>q. py_id q = py_id p) f (db_payments db)"
    and p: "p \<in> set (db_payments db)" and ev: "payment_evolves p (f p)" and opn: "payment_open p"
    and cap: "py_status (f p) = PS_CAPTURED" and ap: "py_appliedToSession (f p)"
    and only: "\<forall>q \<in> set (db_payments db). py_id q \<noteq> py_id p \<longrightarrow> \<not> (py_sessionId q = py_sessionId p \<and> py_appliedToSession q)"
    and known: "py_sessionId p \<in> se_id ` set (db_sessions db)"
    and S: "list_all2 (turned_row (py_sessionId p) S_PAID {S_AWAITING_PAYMENT}) (db_sessions db) (db_sessions db')"
    and B: "books_follow db db'"
  shows "money_inv db'"
proof -
  note rows = evolved_rows [OF inv P p ev] and keep = payment_evolves_keeps [OF ev]
  let ?turned = "turned_row (py_sessionId p) S_PAID {S_AWAITING_PAYMENT}"
  have old: "q \<in> set (db_payments db') \<longleftrightarrow> q = f p \<or> q \<in> set (db_payments db) \<and> q \<noteq> p" for q
    unfolding rows(1) by blast
  have other: "py_id q \<noteq> py_id p" if "q \<in> set (db_payments db)" "q \<noteq> p" for q
    using key_unique [OF money_invD(2) [OF inv] that(1) p] that(2) by blast
  have closed: "\<not> payment_open (f p)" using cap open_not_captured by blast
  have prior: "\<exists>s \<in> set (db_sessions db). ?turned s s'" if "s' \<in> set (db_sessions db')" for s'
    by (rule all2_back [OF S that])
  have paid: "\<exists>s' \<in> set (db_sessions db'). se_id s' = sid \<and> se_state s' \<in> paid_states"
    if "s \<in> set (db_sessions db)" "se_id s = sid" "se_state s \<in> paid_states \<or> sid = py_sessionId p" for s sid
  proof -
    note prem = that
    obtain s' where "s' \<in> set (db_sessions db')" "?turned s s'" using all2_forth [OF S prem(1)] by blast
    with prem show ?thesis by (intro bexI [of _ s']) (auto simp: turned_row_def paid_states_def split: if_splits)
  qed
  show ?thesis
    unfolding money_inv_def
  proof (intro conjI ballI impI)
    show "distinct (map se_id (db_sessions db'))" using turned_ids [OF S] money_invD(1) [OF inv] by simp
    show "distinct (map py_id (db_payments db'))" by (rule rows(2))
  next
    fix q assume "q \<in> set (db_payments db')" "py_appliedToSession q"
    then show "py_status q = PS_CAPTURED" using cap money_invD(3) [OF inv] by (auto simp: old)
  next
    fix q assume q: "q \<in> set (db_payments db')" "py_appliedToSession q"
    show "\<exists>s \<in> set (db_sessions db'). se_id s = py_sessionId q \<and> se_state s \<in> paid_states"
    proof (cases "q = f p")
      case True
      then show ?thesis using known paid keep(2) by auto
    next
      case False
      then show ?thesis using q money_invD(4) [OF inv] paid by (fastforce simp: old)
    qed
  next
    fix s assume s: "s \<in> set (db_sessions db')" "se_state s \<in> paid_states"
    obtain s0 where s0: "s0 \<in> set (db_sessions db)" "?turned s0 s" using prior [OF s(1)] by blast
    show "\<exists>q \<in> set (db_payments db'). py_sessionId q = se_id s \<and> py_appliedToSession q"
    proof (cases "se_id s = py_sessionId p")
      case True
      then show ?thesis using ap keep(2) by (intro bexI [of _ "f p"]) (simp_all add: old)
    next
      case False
      then have "s \<in> set (db_sessions db)" using s0 by (auto simp: turned_row_def split: if_splits)
      then obtain q where "q \<in> set (db_payments db)" "py_sessionId q = se_id s" "py_appliedToSession q"
        using s(2) money_invD(5) [OF inv] by blast
      then show ?thesis using False by (intro bexI [of _ q]) (auto simp: old)
    qed
  next
    fix s assume s: "s \<in> set (db_sessions db')" "se_state s = S_AWAITING_PAYMENT"
    obtain s0 where s0: "s0 \<in> set (db_sessions db)" "?turned s0 s" using prior [OF s(1)] by blast
    then have no: "se_id s \<noteq> py_sessionId p" using s(2) by (auto simp: turned_row_def split: if_splits)
    then have "s \<in> set (db_sessions db)" using s0 by (auto simp: turned_row_def split: if_splits)
    then obtain q where "q \<in> set (db_payments db)" "py_sessionId q = se_id s" "payment_open q"
      using s(2) money_invD(8) [OF inv] by blast
    then show "\<exists>q \<in> set (db_payments db'). py_sessionId q = se_id s \<and> payment_open q"
      using no by (intro bexI [of _ q]) (auto simp: old)
  next
    fix q q' assume q: "q \<in> set (db_payments db')" "q' \<in> set (db_payments db')"
      "py_sessionId q = py_sessionId q' \<and> py_appliedToSession q \<and> py_appliedToSession q'"
    then show "q = q'" using only other keep(2) money_invD(6) [OF inv] by (fastforce simp: old)
  next
    fix q q' assume q: "q \<in> set (db_payments db')" "q' \<in> set (db_payments db')"
      "py_sessionId q = py_sessionId q' \<and> payment_open q \<and> payment_open q'"
    then show "q = q'" using closed money_invD(7) [OF inv] by (auto simp: old)
  next
    fix q assume q: "q \<in> set (db_payments db')"
    show "\<exists>r \<in> set (db_quotes db'). payments_assert_matches_quote q r"
      using q p money_invD(9) [OF inv] books_quotes [OF B] by (fastforce simp: old matches_evolved [OF ev])
  qed
qed

lemma ledger_step_inv: "ledger_step Z db db' \<Longrightarrow> money_inv db \<Longrightarrow> money_inv db'"
  by (cases rule: ledger_step.cases) (blast intro: money_quiet_inv opened_inv settled_inv applied_inv)+

section \<open>Captures are accounted for\<close>

definition captures_accounted :: "(string \<times> string) set \<Rightarrow> kiosk_db \<Rightarrow> bool" where
  "captures_accounted Z db \<longleftrightarrow>
     (\<forall>p \<in> set (db_payments db). py_status p = PS_CAPTURED \<and> \<not> py_appliedToSession p \<longrightarrow> accounted Z p db)"

lemma accounted_later: "books_follow db db' \<Longrightarrow> accounted Y p db \<Longrightarrow> accounted (Y \<union> Z) p db'"
  using books_owed by (auto simp: accounted_def)

lemma ledger_step_accounted:
  assumes inv: "money_inv db" and acc: "captures_accounted Y db" and step: "ledger_step Z db db'"
  shows "captures_accounted (Y \<union> Z) db'"
  unfolding captures_accounted_def
proof (intro ballI impI)
  fix q assume q: "q \<in> set (db_payments db')" "py_status q = PS_CAPTURED \<and> \<not> py_appliedToSession q"
  have old: "accounted (Y \<union> Z) q db'" if "q \<in> set (db_payments db)" "books_follow db db'"
    using acc q(2) that accounted_later unfolding captures_accounted_def by blast
  from step show "accounted (Y \<union> Z) q db'"
  proof cases
    case quiet
    then show ?thesis using q(1) old by simp
  next
    case (opened p)
    then show ?thesis using q old open_not_captured by auto
  next
    case (settled p f)
    note keep = payment_evolves_keeps [OF settled(3)]
    show ?thesis
    proof (cases "q = f p")
      case True
      then show ?thesis using settled(7) q(2) keep owed_cong [of "f p" p db'] by (auto simp: accounted_def)
    next
      case False
      then show ?thesis using evolved_rows(1) [OF inv settled(1-3)] q(1) old settled(10) by blast
    qed
  next
    case (applied p f)
    then have "q \<in> set (db_payments db)" using evolved_rows(1) [OF inv applied(1-3)] q by auto
    then show ?thesis using old applied(10) by blast
  qed
qed

section \<open>Payments over time\<close>

definition payments_kept :: "kiosk_db \<Rightarrow> kiosk_db \<Rightarrow> bool" where
  "payments_kept db db' \<longleftrightarrow>
     (\<forall>p \<in> set (db_payments db). \<exists>p' \<in> set (db_payments db'). payment_evolves p p') \<and> (\<exists>rs. db_refunds db' = db_refunds db @ rs)"

lemma payment_evolves_trans:
  assumes "payment_evolves p q" and "payment_evolves q r"
  shows "payment_evolves p r"
proof -
  obtain s a f u c d where q: "q = p\<lparr>py_status := s, py_appliedToSession := a, py_failureCode := f,
      py_authorizedAt := u, py_capturedAt := c, py_failedAt := d\<rparr>" using assms(1) unfolding payment_evolves_def by blast
  obtain s' a' f' u' c' d' where r: "r = q\<lparr>py_status := s', py_appliedToSession := a', py_failureCode := f',
      py_authorizedAt := u', py_capturedAt := c', py_failedAt := d'\<rparr>" using assms(2) unfolding payment_evolves_def by blast
  have "r = p\<lparr>py_status := py_status r, py_appliedToSession := py_appliedToSession r, py_failureCode := py_failureCode r,
      py_authorizedAt := py_authorizedAt r, py_capturedAt := py_capturedAt r, py_failedAt := py_failedAt r\<rparr>"
    unfolding r q by simp
  then show ?thesis using assms progression_trans unfolding payment_evolves_def by metis
qed

lemma payments_kept_refl: "payments_kept db db"
  by (auto simp: payments_kept_def)

lemma payments_kept_trans:
  assumes "payments_kept a b" and "payments_kept b c"
  shows "payments_kept a c"
proof -
  have "\<exists>r \<in> set (db_payments c). payment_evolves p r" if "p \<in> set (db_payments a)" for p
    using assms that payment_evolves_trans unfolding payments_kept_def by metis
  then show ?thesis using assms by (fastforce simp: payments_kept_def)
qed

lemma ledger_step_keeps:
  assumes inv: "money_inv db" and "ledger_step Z db db'"
  shows "payments_kept db db'"
proof -
  have one: "payments_kept db db'" if P: "db_payments db' = updated (\<lambda>q. py_id q = py_id p) f (db_payments db)"
      "p \<in> set (db_payments db)" "payment_evolves p (f p)" "books_follow db db'" for p f
  proof -
    have "\<exists>q' \<in> set (db_payments db'). payment_evolves q q'" if "q \<in> set (db_payments db)" for q
      using that P(3) by (cases "q = p") (auto simp: evolved_rows(1) [OF inv P(1-3)])
    then show ?thesis using P(4) by (simp add: payments_kept_def books_follow_def)
  qed
  show ?thesis
    using assms(2)
  proof cases
    case quiet
    then show ?thesis by (auto simp: payments_kept_def books_follow_def)
  next
    case (opened p)
    then show ?thesis by (auto simp: payments_kept_def books_follow_def)
  qed (blast intro: one)+
qed

end
