(* ===== verification/Callback_Steps.thy ===== *)
theory Callback_Steps
  imports Money_Ledger
begin

text \<open>
  The reduction of a provider's callback as steps of \<open>ledger_step\<close>: an effective capture, a capture that
  comes too late or over another amount, and a failure.
\<close>

section \<open>What the shared writes leave alone\<close>

definition print_kept :: "kiosk_db \<Rightarrow> kiosk_db \<Rightarrow> bool" where
  "print_kept db db' \<longleftrightarrow> db_jobs db' = db_jobs db \<and> db_paper db' = db_paper db \<and>
     (\<exists>rs. db_refunds db' = db_refunds db @ rs \<and> (\<forall>r \<in> set rs. rf_reason r \<in> {LATE_CAPTURE, AMOUNT_MISMATCH})) \<and>
     (distinct (map (\<lambda>r. (rf_paymentId r, rf_reason r)) (db_refunds db)) \<longrightarrow>
      distinct (map (\<lambda>r. (rf_paymentId r, rf_reason r)) (db_refunds db')))"

lemma recordAttempt_frame [simp]:
  "db_payments (recordAttempt a db) = db_payments db" "db_sessions (recordAttempt a db) = db_sessions db"
  "db_quotes (recordAttempt a db) = db_quotes db" "db_refunds (recordAttempt a db) = db_refunds db"
  "db_jobs (recordAttempt a db) = db_jobs db" "db_paper (recordAttempt a db) = db_paper db"
  by (simp_all add: recordAttempt_def)

lemma captureAttempt_frame [simp]:
  "db_payments (captureAttempt p st e f now i db) = db_payments db"
  "db_sessions (captureAttempt p st e f now i db) = db_sessions db"
  "db_quotes (captureAttempt p st e f now i db) = db_quotes db"
  "db_refunds (captureAttempt p st e f now i db) = db_refunds db"
  "db_jobs (captureAttempt p st e f now i db) = db_jobs db"
  "db_paper (captureAttempt p st e f now i db) = db_paper db"
  by (simp_all add: captureAttempt_def)

lemma recordPaymentAudit_frame [simp]:
  "db_payments (recordPaymentAudit p a outcome r now i m db) = db_payments db"
  "db_sessions (recordPaymentAudit p a outcome r now i m db) = db_sessions db"
  "db_quotes (recordPaymentAudit p a outcome r now i m db) = db_quotes db"
  "db_refunds (recordPaymentAudit p a outcome r now i m db) = db_refunds db"
  "db_jobs (recordPaymentAudit p a outcome r now i m db) = db_jobs db"
  "db_paper (recordPaymentAudit p a outcome r now i m db) = db_paper db"
  by (simp_all add: recordPaymentAudit_def)

lemma recordWebhook_Inr: "recordWebhook pv e i res now n db = Inr db' \<Longrightarrow> \<exists>w. db' = db\<lparr>db_inbox := db_inbox db @ [w]\<rparr>"
  by (auto simp: recordWebhook_def split: if_splits)

lemma recordCompensation_frame [simp]:
  "db_payments (recordCompensation p reason m now i db) = db_payments db"
  "db_sessions (recordCompensation p reason m now i db) = db_sessions db"
  "db_quotes (recordCompensation p reason m now i db) = db_quotes db"
  "db_jobs (recordCompensation p reason m now i db) = db_jobs db"
  "db_paper (recordCompensation p reason m now i db) = db_paper db"
  by (simp_all add: recordCompensation_def)

lemma recordCompensation_kept:
  assumes "reason \<in> {LATE_CAPTURE, AMOUNT_MISMATCH}"
  shows "print_kept db (recordCompensation p reason m now i db)"
  using assms by (auto simp: recordCompensation_def print_kept_def list_ex_iff)

lemma recordCompensation_accounted:
  assumes "reason \<in> {LATE_CAPTURE, AMOUNT_MISMATCH}"
    and "mo_amountMinor m \<noteq> 0 \<or> (py_provider p, py_providerIntentId p) \<in> Z"
  shows "accounted Z p (recordCompensation p reason m now i db)"
  using assms by (auto simp: recordCompensation_def accounted_def owed_def list_ex_iff)

lemma print_kept_refl [simp, intro]: "print_kept db db"
  by (simp add: print_kept_def)

lemma print_kept_cong:
  "print_kept a b \<Longrightarrow> db_jobs b' = db_jobs b \<Longrightarrow> db_paper b' = db_paper b \<Longrightarrow> db_refunds b' = db_refunds b \<Longrightarrow>
   db_jobs a' = db_jobs a \<Longrightarrow> db_paper a' = db_paper a \<Longrightarrow> db_refunds a' = db_refunds a \<Longrightarrow> print_kept a' b'"
  by (simp add: print_kept_def)

lemma books_follow_cong:
  "print_kept db db' \<Longrightarrow> map priced (db_quotes db') = map priced (db_quotes db) \<Longrightarrow> books_follow db db'"
  by (auto simp: print_kept_def books_follow_def)

section \<open>Moving the session\<close>

definition moved_row :: "session_state \<Rightarrow> session_row \<Rightarrow> session_row \<Rightarrow> session_row" where
  "moved_row target session s =
     s\<lparr>se_state := target, se_stateVersion := se_stateVersion session + 1, se_eventSequence := se_eventSequence session + 1\<rparr>"

lemma moved_row_simps [simp]: "se_id (moved_row t x s) = se_id s" "se_state (moved_row t x s) = t"
  by (simp_all add: moved_row_def)

lemma moved_row_fun: "moved_row target session = (\<lambda>s. s\<lparr>se_state := target,
    se_stateVersion := se_stateVersion session + 1, se_eventSequence := se_eventSequence session + 1\<rparr>)"
  by (rule ext) (simp add: moved_row_def)

lemma moveSession_Inr:
  assumes run: "moveSession session target db = Inr (ok, after, n, db')"
    and ids: "distinct (map se_id (db_sessions db))" and s: "session \<in> set (db_sessions db)"
  shows "ok \<and> canTransitionSession (se_state session) target \<and>
    db' = db\<lparr>db_sessions := updated (\<lambda>s. se_id s = se_id session) (moved_row target session) (db_sessions db)\<rparr>"
proof -
  have one: "filter (\<lambda>s. se_id s = se_id session \<and> se_stateVersion s = se_stateVersion session) (db_sessions db) = [session]"
    by (rule filter_key_unique [OF ids s]) simp
  have same: "updated (\<lambda>s. se_id s = se_id session \<and> se_stateVersion s = se_stateVersion session) g (db_sessions db) =
      updated (\<lambda>s. se_id s = se_id session) g (db_sessions db)" for g
    by (rule updated_cong) (auto dest: key_unique [OF ids _ s])
  show ?thesis
    using run one same by (auto simp: moveSession_def Let_def moved_row_fun split: sum.splits)
qed

lemma released_follow:
  assumes "distinct (map se_id (db_sessions db))" and "session \<in> set (db_sessions db)" and "se_state session \<notin> paid_states"
    and "t \<notin> paid_states" and "t \<noteq> S_AWAITING_PAYMENT"
  shows "sessions_follow (db_sessions db) (updated (\<lambda>s. se_id s = se_id session) (moved_row t session) (db_sessions db))"
proof -
  have "list_all2 quiet_row (db_sessions db) (updated (\<lambda>s. se_id s = se_id session) (moved_row t session) (db_sessions db))"
    by (rule quiet_updated) (use assms in \<open>auto simp: quiet_row_def dest: key_unique [OF assms(1) _ assms(2)]\<close>)
  then show ?thesis unfolding sessions_follow_def by (intro exI [of _ "updated _ _ _"] exI [of _ "[]"]) simp
qed

lemma follow_refl [simp, intro]: "sessions_follow rows rows"
  unfolding sessions_follow_def by (intro exI [of _ rows] exI [of _ "[]"]) simp

lemma follow_quiet: "list_all2 quiet_row rows rows' \<Longrightarrow> sessions_follow rows rows'"
  unfolding sessions_follow_def by (intro exI [of _ rows'] exI [of _ "[]"]) simp

text \<open>What every release of a waiting session leaves: it waits no longer, everything else as it was.\<close>

definition let_go :: "session_row \<Rightarrow> kiosk_db \<Rightarrow> kiosk_db \<Rightarrow> bool" where
  "let_go session db db' \<longleftrightarrow>
     db_payments db' = db_payments db \<and> db_quotes db' = db_quotes db \<and> db_refunds db' = db_refunds db \<and>
     db_jobs db' = db_jobs db \<and> db_paper db' = db_paper db \<and>
     sessions_follow (db_sessions db) (db_sessions db') \<and> no_longer_awaiting (se_id session) db'"

lemma let_go_stay:
  assumes "distinct (map se_id (db_sessions db))" and "session \<in> set (db_sessions db)" and "se_state session \<noteq> S_AWAITING_PAYMENT"
  shows "let_go session db db"
  using assms(3) by (auto simp: let_go_def no_longer_awaiting_def dest: key_unique [OF assms(1) _ assms(2)])

lemma let_go_cong:
  "let_go session a b \<Longrightarrow> db_payments a' = db_payments a \<Longrightarrow> db_quotes a' = db_quotes a \<Longrightarrow> db_refunds a' = db_refunds a \<Longrightarrow>
   db_jobs a' = db_jobs a \<Longrightarrow> db_paper a' = db_paper a \<Longrightarrow> db_sessions a' = db_sessions a \<Longrightarrow>
   db_payments b' = db_payments b \<Longrightarrow> db_quotes b' = db_quotes b \<Longrightarrow> db_refunds b' = db_refunds b \<Longrightarrow>
   db_jobs b' = db_jobs b \<Longrightarrow> db_paper b' = db_paper b \<Longrightarrow> db_sessions b' = db_sessions b \<Longrightarrow> let_go session a' b'"
  by (simp add: let_go_def no_longer_awaiting_def)

lemma moveSession_let_go:
  assumes ids: "distinct (map se_id (db_sessions db))" and s: "session \<in> set (db_sessions db)"
    and w: "se_state session = S_AWAITING_PAYMENT" and run: "moveSession session S_CONFIGURING db = Inr (ok, after, n, db')"
  shows "ok \<and> let_go session db db'"
proof -
  note m = moveSession_Inr [OF run ids s]
  have "sessions_follow (db_sessions db) (updated (\<lambda>s. se_id s = se_id session) (moved_row S_CONFIGURING session) (db_sessions db))"
    by (rule released_follow [OF ids s]) (simp_all add: w paid_states_def)
  with m show ?thesis by (auto simp: let_go_def no_longer_awaiting_def set_updated)
qed

lemma releaseAfter_Inr:
  assumes ids: "distinct (map se_id (db_sessions db))" and s: "session \<in> set (db_sessions db)"
    and run: "releaseAfterCompensatedCapture payment session failure i db = Inr db'"
  shows "let_go session db db'"
proof (cases "se_state session = S_AWAITING_PAYMENT")
  case True
  with run obtain ok after n db1 where mv: "moveSession session S_CONFIGURING db = Inr (ok, after, n, db1)" and
    out: "db' = db1\<lparr>db_outbox := db_outbox db1 @ [payment_failed_event i session payment after n PS_CAPTURED failure]\<rparr>"
    by (auto simp: releaseAfterCompensatedCapture_def split: if_splits)
  show ?thesis using moveSession_let_go [OF ids s True mv] out by (auto elim: let_go_cong)
next
  case False
  with run let_go_stay [OF ids s False] show ?thesis by (simp add: releaseAfterCompensatedCapture_def)
qed

section \<open>Callbacks\<close>

lemma payment_guard:
  assumes "distinct (map py_id rows)" and "p \<in> set rows"
  shows "updated (\<lambda>q. py_id q = py_id p \<and> py_status q = py_status p) f rows = updated (\<lambda>q. py_id q = py_id p) f rows"
    and "length (filter (\<lambda>q. py_id q = py_id p \<and> py_status q = py_status p) rows) = 1"
  using assms
  by (auto intro!: updated_cong dest: key_unique [OF assms(1)]
      simp: filter_key_unique [OF assms, where q = "\<lambda>q. py_status q = py_status p"])

text \<open>What a transition of one payment and a release amount to.\<close>

lemma settled_stepI:
  assumes P: "db_payments d = updated (\<lambda>q. py_id q = py_id p) f (db_payments db)" and p: "p \<in> set (db_payments db)"
    and ev: "payment_evolves p (f p)" and nc: "py_status p \<noteq> PS_CAPTURED" and na: "\<not> py_appliedToSession (f p)"
    and opn: "payment_open (f p) \<longrightarrow> payment_open p" and ow: "py_status (f p) = PS_CAPTURED \<longrightarrow> accounted Z p d"
    and frame: "db_sessions d = db_sessions db" "db_quotes d = db_quotes db" "print_kept db d"
    and rel: "let_go session d db'" and sid: "se_id session = py_sessionId p"
  shows "ledger_step Z db db' \<and> print_kept db db'"
proof
  have kept: "print_kept db db'"
    by (rule print_kept_cong [OF frame(3)]) (use rel in \<open>simp_all add: let_go_def\<close>)
  then show "print_kept db db'" .
  show "ledger_step Z db db'"
  proof (rule ledger_step.settled [where p = p and f = f])
    show "db_payments db' = updated (\<lambda>q. py_id q = py_id p) f (db_payments db)" using P rel by (simp add: let_go_def)
    show "py_status (f p) = PS_CAPTURED \<longrightarrow> accounted Z p db'" using ow rel by (simp add: let_go_def accounted_def owed_def)
    show "payment_open p \<and> \<not> payment_open (f p) \<longrightarrow> no_longer_awaiting (py_sessionId p) db'"
      using rel sid by (simp add: let_go_def)
    show "sessions_follow (db_sessions db) (db_sessions db')" using rel frame(1) by (simp add: let_go_def)
    show "books_follow db db'"
      by (rule books_follow_cong [OF kept]) (use rel frame(2) in \<open>simp add: let_go_def\<close>)
  qed (use p ev nc na opn in blast)+
qed

lemma quiet_stepI:
  assumes P: "db_payments d = db_payments db" and frame: "db_sessions d = db_sessions db" "db_quotes d = db_quotes db" "print_kept db d"
    and rel: "let_go session d db'"
  shows "ledger_step Z db db' \<and> print_kept db db'"
proof
  have kept: "print_kept db db'"
    by (rule print_kept_cong [OF frame(3)]) (use rel in \<open>simp_all add: let_go_def\<close>)
  then show "print_kept db db'" .
  show "ledger_step Z db db'"
  proof (rule ledger_step.quiet)
    show "db_payments db' = db_payments db" "sessions_follow (db_sessions db) (db_sessions db')"
      using rel P frame(1) by (simp_all add: let_go_def)
    show "books_follow db db'"
      by (rule books_follow_cong [OF kept]) (use rel frame(2) in \<open>simp add: let_go_def\<close>)
  qed
qed

definition capture_row :: "bool \<Rightarrow> db_time \<Rightarrow> payment_row \<Rightarrow> payment_row" where
  "capture_row done_for now p = p\<lparr>py_status := PS_CAPTURED, py_appliedToSession := done_for, py_capturedAt := Some now\<rparr>"

lemma capture_row_fun:
  "capture_row a now = (\<lambda>p. p\<lparr>py_status := PS_CAPTURED, py_appliedToSession := a, py_capturedAt := Some now\<rparr>)"
  by (rule ext) (simp add: capture_row_def)

lemma capture_row_simps [simp]:
  "py_status (capture_row a now p) = PS_CAPTURED" "py_appliedToSession (capture_row a now p) = a"
  "\<not> payment_open (capture_row a now p)"
  by (simp_all add: capture_row_def payment_open_def OPEN_PAYMENT_STATUSES_def)

lemma capture_row_evolves:
  "py_status p \<noteq> PS_CAPTURED \<Longrightarrow> py_status p \<noteq> PS_DECLINED \<Longrightarrow> \<not> py_appliedToSession p \<Longrightarrow>
    payment_evolves p (capture_row a now p)"
  by (simp add: payment_evolves_def capture_row_def payments_assert_status_progression_def)

lemma captureUnapplied_Inr:
  assumes "captureUnapplied p lost now db = Inr db'" and "distinct (map py_id (db_payments db))" and "p \<in> set (db_payments db)"
  shows "db' = db\<lparr>db_payments := updated (\<lambda>q. py_id q = py_id p) (capture_row False now) (db_payments db)\<rparr>"
  using assms(1) payment_guard [OF assms(2,3)]
  by (simp add: captureUnapplied_def Let_def capture_row_fun)

lemma find_session:
  assumes "List.find (\<lambda>s. se_id s = sid) (db_sessions db) = Some session"
  shows "session \<in> set (db_sessions db)" "se_id session = sid"
  using find_Some_set [OF assms] by simp_all

lemma lateCapture_step:
  assumes inv: "money_inv db" and p: "p \<in> set (db_payments db)" and nc: "py_status p \<noteq> PS_CAPTURED"
    and s: "session \<in> set (db_sessions db)" "se_id session = py_sessionId p"
    and amount: "mo_amountMinor (we_amount event) \<noteq> 0 \<or> (py_provider p, py_providerIntentId p) \<in> Z"
    and run: "lateCapture pv p session event requestId now newId db = Inr db'"
  shows "ledger_step Z db db' \<and> print_kept db db'"
proof -
  note u = money_invD(2) [OF inv] and ids = money_invD(1) [OF inv]
  obtain db1 db2 db3 db4 where
    one: "(if py_status p = PS_DECLINED then Inr db else captureUnapplied p ''PAYMENT_LATE_CAPTURE_LOST_RACE'' now db) = Inr db1"
    and two: "db2 = recordCompensation p LATE_CAPTURE (we_amount event) now (newId 1)
                 (captureAttempt p PS_CAPTURED event None now (newId 0) db1)"
    and three: "recordWebhook pv event (Some (py_id p)) ''LATE_CAPTURE'' now (newId 2) db2 = Inr db3"
    and four: "releaseAfterCompensatedCapture p session ''PROVIDER_TIMEOUT'' (newId 3) db3 = Inr db4"
    and five: "db' = recordPaymentAudit p ''payment.late_capture'' ''RECOVERY_REQUIRED'' requestId now (newId 4)
       [(''sessionState'', JStr (session_state_name (se_state session))),
        (''providerEventId'', JStr (we_providerEventId event))] db4"
    using run unfolding lateCapture_def Let_def by (auto simp del: recordCompensation_frame)
  obtain w where w: "db3 = db2\<lparr>db_inbox := db_inbox db2 @ [w]\<rparr>" using recordWebhook_Inr [OF three] by blast
  have ow: "accounted Z p db2" unfolding two by (rule recordCompensation_accounted) (use amount in simp_all)
  have nap: "\<not> py_appliedToSession p" using money_invD(3) [OF inv p] nc by blast
  have same: "db_sessions db1 = db_sessions db" "db_quotes db1 = db_quotes db" "db_refunds db1 = db_refunds db"
      "db_jobs db1 = db_jobs db" "db_paper db1 = db_paper db"
    using one by (auto split: if_splits dest!: captureUnapplied_Inr [OF _ u p])
  have "print_kept (captureAttempt p PS_CAPTURED event None now (newId 0) db1) db2"
    unfolding two by (rule recordCompensation_kept) simp
  then have kept: "print_kept db db3" by (rule print_kept_cong) (simp_all add: w two same)
  have frame: "db_sessions db3 = db_sessions db" "db_quotes db3 = db_quotes db" by (simp_all add: w two same)
  have "let_go session db3 db4"
    by (rule releaseAfter_Inr [OF _ _ four]) (simp_all add: frame ids s)
  then have rel: "let_go session db3 db'" by (rule let_go_cong) (simp_all add: five)
  show ?thesis
  proof (cases "py_status p = PS_DECLINED")
    case True
    with one have "db_payments db3 = db_payments db" by (simp add: w two)
    then show ?thesis using frame kept rel by (rule quiet_stepI)
  next
    case False
    then have P: "db_payments db3 = updated (\<lambda>q. py_id q = py_id p) (capture_row False now) (db_payments db)"
      using one by (auto simp: w two dest!: captureUnapplied_Inr [OF _ u p])
    have "accounted Z p db3" using ow by (simp add: accounted_def owed_def w)
    with False nc nap show ?thesis
      by (intro settled_stepI [OF P p capture_row_evolves _ _ _ _ frame kept rel s(2)]) auto
  qed
qed

lemma moved_turned:
  "(\<And>x. x \<in> set rows \<Longrightarrow> se_id x = sid \<Longrightarrow> se_state x \<in> src) \<Longrightarrow>
    list_all2 (turned_row sid t src) rows (updated (\<lambda>s. se_id s = sid) (moved_row t session) rows)"
  by (induction rows) (auto simp: turned_row_def)

lemma effectiveCapture_step:
  assumes inv: "money_inv db" and p: "p \<in> set (db_payments db)"
    and s: "session \<in> set (db_sessions db)" "se_id session = py_sessionId p" and opn: "payment_open p"
    and w: "se_state session = S_AWAITING_PAYMENT"
    and run: "effectiveCapture pv p session event requestId now newId db = Inr db'"
  shows "ledger_step Z db db' \<and> print_kept db db'"
proof -
  note u = money_invD(2) [OF inv] and ids = money_invD(1) [OF inv] and guard = payment_guard [OF u p]
  define rows where "rows = updated (\<lambda>q. py_id q = py_id p) (capture_row True now) (db_payments db)"
  obtain qs ok after n db1 where only: "\<not> list_ex (\<lambda>q. py_id q \<noteq> py_id p \<and> py_sessionId q = py_sessionId p \<and> py_appliedToSession q) (db_payments db)"
    and qs: "qs = updated (\<lambda>q. qr_id q = py_quoteId p \<and> qr_sessionId q = py_sessionId p \<and> qr_status q = Q_ACTIVE)
      (\<lambda>q. q\<lparr>qr_status := Q_CONSUMED\<rparr>) (db_quotes db)"
    and mv: "moveSession session S_PAID (db\<lparr>db_payments := rows, db_quotes := qs\<rparr>) = Inr (ok, after, n, db1)"
    and out: "db_payments db' = db_payments db1" "db_sessions db' = db_sessions db1" "db_quotes db' = db_quotes db1"
      "db_refunds db' = db_refunds db1" "db_jobs db' = db_jobs db1" "db_paper db' = db_paper db1"
    using run guard
    by (auto simp: effectiveCapture_def Let_def rows_def capture_row_fun split: if_splits dest!: recordWebhook_Inr)
  note m = moveSession_Inr [OF mv, simplified, OF ids s(1)]
  have nap: "\<not> py_appliedToSession p" using money_invD(3) [OF inv p] open_not_captured [OF opn] by blast
  have ev: "payment_evolves p (capture_row True now p)"
    by (rule capture_row_evolves [OF open_not_captured [OF opn] _ nap]) (use opn in \<open>auto simp: payment_open_def OPEN_PAYMENT_STATUSES_def\<close>)
  have kept: "print_kept db db'" using m out by (intro print_kept_cong [OF print_kept_refl]) simp_all
  moreover have "ledger_step Z db db'"
  proof (rule ledger_step.applied [where p = p and f = "capture_row True now"])
    show "db_payments db' = updated (\<lambda>q. py_id q = py_id p) (capture_row True now) (db_payments db)"
      using m out by (simp add: rows_def)
    show "list_all2 (turned_row (py_sessionId p) S_PAID {S_AWAITING_PAYMENT}) (db_sessions db) (db_sessions db')"
      using m out w s(2) by (auto intro!: moved_turned dest: key_unique [OF ids _ s(1)])
    show "books_follow db db'"
      by (rule books_follow_cong [OF kept]) (use m out qs in \<open>simp add: map_updated priced_def\<close>)
    show "\<forall>q \<in> set (db_payments db). py_id q \<noteq> py_id p \<longrightarrow> \<not> (py_sessionId q = py_sessionId p \<and> py_appliedToSession q)"
      using only by (auto simp: list_ex_iff)
    show "py_sessionId p \<in> se_id ` set (db_sessions db)" using s by force
  qed (use p ev opn s in \<open>auto\<close>)
  ultimately show ?thesis by simp
qed

definition failure_row :: "payment_status \<Rightarrow> string \<Rightarrow> db_time \<Rightarrow> payment_row \<Rightarrow> payment_row" where
  "failure_row st failure now p = p\<lparr>py_status := st, py_failureCode := Some failure, py_failedAt := Some now\<rparr>"

lemma failure_row_fun:
  "failure_row st failure now = (\<lambda>p. p\<lparr>py_status := st, py_failureCode := Some failure, py_failedAt := Some now\<rparr>)"
  by (rule ext) (simp add: failure_row_def)

lemma failure_row_simps [simp]:
  "py_status (failure_row st failure now p) = st" "py_appliedToSession (failure_row st failure now p) = py_appliedToSession p"
  by (simp_all add: failure_row_def)

definition failed_status :: "payment_status \<Rightarrow> bool" where
  "failed_status st \<longleftrightarrow> st \<in> {PS_DECLINED, PS_CANCELED, PS_TIMED_OUT}"

lemma failure_row_evolves:
  assumes "payment_open p" and "\<not> py_appliedToSession p" and "failed_status st"
  shows "payment_evolves p (failure_row st failure now p)" "\<not> payment_open (failure_row st failure now p)" "st \<noteq> PS_CAPTURED"
proof -
  have st: "st = PS_DECLINED \<or> st = PS_CANCELED \<or> st = PS_TIMED_OUT" using assms(3) by (simp add: failed_status_def)
  have "py_status p = PS_PENDING \<or> py_status p = PS_AUTHORIZED"
    using assms(1) by (simp add: payment_open_def OPEN_PAYMENT_STATUSES_def)
  then show "payment_evolves p (failure_row st failure now p)"
    using st assms(2) by (elim disjE) (simp_all add: payment_evolves_def failure_row_def payments_assert_status_progression_def)
  show "\<not> payment_open (failure_row st failure now p)"
    using st by (elim disjE) (simp_all add: payment_open_def OPEN_PAYMENT_STATUSES_def failure_row_def)
  show "st \<noteq> PS_CAPTURED" using st by auto
qed

text \<open>An open payment that ends unpaid, with the release of its session.\<close>

lemma failed_stepI:
  assumes inv: "money_inv db" and p: "p \<in> set (db_payments db)" and opn: "payment_open p" and st: "failed_status st"
    and P: "db_payments d = updated (\<lambda>q. py_id q = py_id p) (failure_row st failure now) (db_payments db)"
    and frame: "db_sessions d = db_sessions db" "db_quotes d = db_quotes db" "print_kept db d"
    and rel: "let_go session d db'" and sid: "se_id session = py_sessionId p"
  shows "ledger_step Z db db' \<and> print_kept db db'"
proof -
  have nap: "\<not> py_appliedToSession p" using money_invD(3) [OF inv p] open_not_captured [OF opn] by blast
  note f = failure_row_evolves [OF opn nap st]
  show ?thesis
    by (rule settled_stepI [OF P p f(1) open_not_captured [OF opn] _ _ _ frame rel sid]) (use nap f in simp_all)
qed

lemma failure_status_failed: "t \<noteq> PAYMENT_CAPTURED \<Longrightarrow> failed_status (failure_status t)"
  by (cases t) (simp_all add: failed_status_def)

lemma ledger_refl: "ledger_step Z db db"
  by (rule ledger_step.quiet) (simp_all add: books_follow_def)

lemma ledger_same:
  assumes "db_payments db' = db_payments db" "db_sessions db' = db_sessions db" "db_quotes db' = db_quotes db"
    "db_refunds db' = db_refunds db" "db_jobs db' = db_jobs db" "db_paper db' = db_paper db"
  shows "ledger_step Z db db' \<and> print_kept db db'"
  using assms by (auto simp: books_follow_def print_kept_def intro: ledger_step.quiet)

lemma ledger_cong:
  assumes "ledger_step Z db d \<and> print_kept db d"
    and "db_payments db' = db_payments d" "db_sessions db' = db_sessions d" "db_quotes db' = db_quotes d"
    "db_refunds db' = db_refunds d" "db_jobs db' = db_jobs d" "db_paper db' = db_paper d"
  shows "ledger_step Z db db' \<and> print_kept db db'"
proof
  note same = assms(2-7)
  have books: "books_follow db db'" if "books_follow db d" using that same by (simp add: books_follow_def)
  have owed: "accounted Z p db'" if "accounted Z p d" for p using that same by (simp add: accounted_def owed_def)
  have away: "no_longer_awaiting sid db'" if "no_longer_awaiting sid d" for sid
    using that same by (simp add: no_longer_awaiting_def)
  from assms(1) show "print_kept db db'" using same by (auto intro: print_kept_cong)
  from assms(1) have "ledger_step Z db d" by simp
  then show "ledger_step Z db db'"
  proof cases
    case quiet
    then show ?thesis using same books by (intro ledger_step.quiet) simp_all
  next
    case (opened p)
    then show ?thesis using same books by (intro ledger_step.opened [of db' db p]) simp_all
  next
    case (settled p f)
    then show ?thesis using same books owed away by (intro ledger_step.settled [of db' p f db]) simp_all
  next
    case (applied p f)
    then show ?thesis using same books by (intro ledger_step.applied [of db' p f db]) simp_all
  qed
qed

lemma applyFailure_step:
  assumes inv: "money_inv db" and p: "p \<in> set (db_payments db)" and t: "we_type event \<noteq> PAYMENT_CAPTURED"
    and run: "applyFailure pv p event requestId now newId db = Inr db'"
  shows "ledger_step Z db db' \<and> print_kept db db'"
proof (cases "payment_open p")
  case False
  with run obtain w where "db' = db\<lparr>db_inbox := db_inbox db @ [w]\<rparr>"
    by (auto simp: applyFailure_def dest!: recordWebhook_Inr)
  then show ?thesis by (intro ledger_same) simp_all
next
  case True
  note u = money_invD(2) [OF inv] and ids = money_invD(1) [OF inv] and guard = payment_guard [OF u p]
  define st where "st = failure_status (we_type event)"
  define d where "d = captureAttempt p st event (Some (readFailureCode event)) now (newId 0)
    (db\<lparr>db_payments := updated (\<lambda>q. py_id q = py_id p) (failure_row st (readFailureCode event) now) (db_payments db)\<rparr>)"
  obtain session db3 where s: "List.find (\<lambda>s. se_id s = py_sessionId p) (db_sessions d) = Some session"
    and three: "(if se_state session \<noteq> S_AWAITING_PAYMENT then Inr d
       else bind_result (moveSession session S_CONFIGURING d) (\<lambda>(released, after, nextSequence, db2).
         if \<not> released then Inl (TX_LOST_RACE ''SESSION_RELEASE_LOST_RACE'')
         else Inr (db2\<lparr>db_outbox := db_outbox db2 @
           [payment_failed_event (newId 1) session p after nextSequence st (readFailureCode event)]\<rparr>))) = Inr db3"
    and out: "db_payments db' = db_payments db3" "db_sessions db' = db_sessions db3" "db_quotes db' = db_quotes db3"
      "db_refunds db' = db_refunds db3" "db_jobs db' = db_jobs db3" "db_paper db' = db_paper db3"
    using run True guard
    unfolding applyFailure_def Let_def st_def [symmetric] failure_row_fun [symmetric]
    by (auto simp: d_def split: option.splits dest!: recordWebhook_Inr cong: if_cong)
  note fs = find_session [OF s]
  have frame: "db_sessions d = db_sessions db" "db_quotes d = db_quotes db" "print_kept db d"
    by (simp_all add: d_def print_kept_def)
  have "let_go session d db3"
  proof (cases "se_state session = S_AWAITING_PAYMENT")
    case True
    with three obtain ok after n db2 where "moveSession session S_CONFIGURING d = Inr (ok, after, n, db2)"
      "db3 = db2\<lparr>db_outbox := db_outbox db2 @ [payment_failed_event (newId 1) session p after n st (readFailureCode event)]\<rparr>"
      by (auto split: if_splits)
    then show ?thesis
      using moveSession_let_go [of d session, OF _ fs(1) True] ids frame(1) by (auto elim: let_go_cong)
  next
    case False
    with three let_go_stay [of d session] fs(1) ids frame(1) show ?thesis by simp
  qed
  then have rel: "let_go session d db'" by (rule let_go_cong) (simp_all add: out)
  show ?thesis
    by (rule failed_stepI [OF inv p True failure_status_failed [OF t] _ frame rel fs(2)]) (simp add: d_def st_def)
qed

lemma mismatched_step:
  assumes inv: "money_inv db" and p: "p \<in> set (db_payments db)" and t: "we_type event = PAYMENT_CAPTURED"
    and amount: "mo_amountMinor (we_amount event) \<noteq> 0 \<or> (py_provider p, py_providerIntentId p) \<in> Z"
    and run: "mismatchedCapture p event now newId db = Inr db'"
  shows "ledger_step Z db db' \<and> print_kept db db'"
proof -
  note u = money_invD(2) [OF inv] and ids = money_invD(1) [OF inv]
  obtain db1 db2 session where
    one: "(if py_status p \<in> {PS_CAPTURED, PS_DECLINED} then Inr db
           else captureUnapplied p ''PAYMENT_MISMATCH_CAPTURE_LOST_RACE'' now db) = Inr db1"
    and two: "db2 = recordCompensation p AMOUNT_MISMATCH (we_amount event) now (newId 1)
                 (captureAttempt p PS_CAPTURED event None now (newId 0) db1)"
    and s: "List.find (\<lambda>s. se_id s = py_sessionId p) (db_sessions db2) = Some session"
    and four: "releaseAfterCompensatedCapture p session ''AMOUNT_MISMATCH'' (newId 2) db2 = Inr db'"
    using run t unfolding mismatchedCapture_def Let_def by (auto simp del: recordCompensation_frame split: option.splits)
  note fs = find_session [OF s]
  have same: "db_sessions db1 = db_sessions db" "db_quotes db1 = db_quotes db" "db_refunds db1 = db_refunds db"
      "db_jobs db1 = db_jobs db" "db_paper db1 = db_paper db"
    using one by (auto split: if_splits dest!: captureUnapplied_Inr [OF _ u p])
  have frame: "db_sessions db2 = db_sessions db" "db_quotes db2 = db_quotes db" by (simp_all add: two same)
  have "print_kept (captureAttempt p PS_CAPTURED event None now (newId 0) db1) db2"
    unfolding two by (rule recordCompensation_kept) simp
  then have kept: "print_kept db db2" by (rule print_kept_cong) (simp_all add: same)
  have rel: "let_go session db2 db'"
    by (rule releaseAfter_Inr [OF _ _ four]) (use fs ids in \<open>simp_all add: frame\<close>)
  have ow: "accounted Z p db2" unfolding two by (rule recordCompensation_accounted) (use amount in simp_all)
  show ?thesis
  proof (cases "py_status p \<in> {PS_CAPTURED, PS_DECLINED}")
    case True
    with one have "db_payments db2 = db_payments db" by (simp add: two)
    then show ?thesis using frame kept rel by (rule quiet_stepI)
  next
    case False
    then have P: "db_payments db2 = updated (\<lambda>q. py_id q = py_id p) (capture_row False now) (db_payments db)"
      using one by (auto simp: two dest!: captureUnapplied_Inr [OF _ u p])
    have "\<not> py_appliedToSession p" using money_invD(3) [OF inv p] False by blast
    with False ow show ?thesis
      by (intro settled_stepI [OF P p capture_row_evolves _ _ _ _ frame kept rel fs(2)]) auto
  qed
qed

lemma applyCapture_step:
  assumes inv: "money_inv db" and p: "p \<in> set (db_payments db)"
    and amount: "mo_amountMinor (we_amount event) \<noteq> 0 \<or> (py_provider p, py_providerIntentId p) \<in> Z"
    and run: "applyCapture pv p event requestId now newId db = Inr db'"
  shows "ledger_step Z db db' \<and> print_kept db db'"
proof (cases "py_status p = PS_CAPTURED")
  case True
  with run obtain w where "db' = db\<lparr>db_inbox := db_inbox db @ [w]\<rparr>"
    by (auto simp: applyCapture_def dest!: recordWebhook_Inr)
  then show ?thesis by (intro ledger_same) simp_all
next
  case False
  with run obtain session where s: "List.find (\<lambda>s. se_id s = py_sessionId p) (db_sessions db) = Some session"
    by (auto simp: applyCapture_def split: option.splits)
  note fs = find_session [OF s]
  let ?quote = "List.find (\<lambda>q. qr_id q = py_quoteId p \<and> qr_sessionId q = py_sessionId p) (db_quotes db)"
  show ?thesis
  proof (cases "capture_effective p session ?quote now")
    case True
    then have "payment_open p" "se_state session = S_AWAITING_PAYMENT" by (simp_all add: capture_effective_def)
    moreover have "effectiveCapture pv p session event requestId now newId db = Inr db'"
      using run False s True by (simp add: applyCapture_def)
    ultimately show ?thesis by (intro effectiveCapture_step [OF inv p fs])
  next
    case no: False
    have "lateCapture pv p session event requestId now newId db = Inr db'"
      using run False s no by (simp add: applyCapture_def)
    then show ?thesis by (rule lateCapture_step [OF inv p False fs amount])
  qed
qed

text \<open>A capture of nothing: the code writes no refund for it, there being no money to return.\<close>

definition nothing_captured :: "payment_service \<Rightarrow> provider_webhook_event \<Rightarrow> (string \<times> string) set" where
  "nothing_captured pv event =
     (if we_type event = PAYMENT_CAPTURED \<and> mo_amountMinor (we_amount event) = 0
      then {(pv_provider pv, we_providerIntentId event)} else {})"

lemma reduce_step:
  assumes inv: "money_inv db" and Z: "Z = nothing_captured pv event"
    and run: "reduceWebhookEvent pv event requestId now newId db = Inr db'"
  shows "ledger_step Z db db' \<and> print_kept db db'"
proof (cases "list_ex (\<lambda>w. ib_provider w = pv_provider pv \<and> ib_providerEventId w = we_providerEventId event) (db_inbox db)")
  case True
  with run have "db' = db" by (simp add: reduceWebhookEvent_def)
  then show ?thesis by (simp add: ledger_refl)
next
  case new: False
  let ?known = "List.find (\<lambda>p. py_provider p = pv_provider pv \<and> py_providerIntentId p = we_providerIntentId event) (db_payments db)"
  show ?thesis
  proof (cases ?known)
    case None
    with run new obtain w where "db' = db\<lparr>db_inbox := db_inbox db @ [w]\<rparr>"
      by (auto simp: reduceWebhookEvent_def dest!: recordWebhook_Inr)
    then show ?thesis by (intro ledger_same) simp_all
  next
    case (Some p)
    then have p: "p \<in> set (db_payments db)" and known: "py_provider p = pv_provider pv" "py_providerIntentId p = we_providerIntentId event"
      by (auto dest: find_Some_set)
    have amount: "mo_amountMinor (we_amount event) \<noteq> 0 \<or> (py_provider p, py_providerIntentId p) \<in> Z"
      if "we_type event = PAYMENT_CAPTURED" using that by (simp add: Z nothing_captured_def known)
    show ?thesis
    proof (cases "amount_matches event p")
      case True
      with run new Some have "we_type event = PAYMENT_CAPTURED \<and> applyCapture pv p event requestId now newId db = Inr db' \<or>
          we_type event \<noteq> PAYMENT_CAPTURED \<and> applyFailure pv p event requestId now newId db = Inr db'"
        by (auto simp: reduceWebhookEvent_def split: if_splits)
      then show ?thesis using applyCapture_step [OF inv p amount] applyFailure_step [OF inv p] by blast
    next
      case False
      with run new Some obtain db1 where one: "mismatchedCapture p event now newId db = Inr db1"
        and out: "db_payments db' = db_payments db1" "db_sessions db' = db_sessions db1" "db_quotes db' = db_quotes db1"
          "db_refunds db' = db_refunds db1" "db_jobs db' = db_jobs db1" "db_paper db' = db_paper db1"
        by (auto simp: reduceWebhookEvent_def dest!: recordWebhook_Inr)
      have "ledger_step Z db db1 \<and> print_kept db db1"
      proof (cases "we_type event = PAYMENT_CAPTURED")
        case True
        with amount one show ?thesis by (intro mismatched_step [OF inv p]) simp_all
      next
        case False
        with one show ?thesis by (simp add: mismatchedCapture_def ledger_refl)
      qed
      then show ?thesis using ledger_cong out by blast
    qed
  qed
qed

end
