(* ===== verification/Money_Transactions.thy ===== *)
theory Money_Transactions
  imports Callback_Steps
begin

text \<open>
  The other transactions of the services as steps of \<open>ledger_step\<close>: opening and confirming a payment, the
  reconciler's time-out, ending a session that has not been paid, and opening a new one.
\<close>

section \<open>Frames\<close>

lemma committed_money:
  "(\<And>x db'. r = Inr (x, db') \<Longrightarrow> ledger_step Z db db' \<and> print_kept db db') \<Longrightarrow>
    ledger_step Z db (committed db r) \<and> print_kept db (committed db r)"
  by (cases r) (auto simp: committed_def ledger_refl split: prod.splits)

lemma findPaymentIdempotency_frame [simp]:
  "db_payments (snd (findPaymentIdempotency pv a act k now db)) = db_payments db"
  "db_sessions (snd (findPaymentIdempotency pv a act k now db)) = db_sessions db"
  "db_quotes (snd (findPaymentIdempotency pv a act k now db)) = db_quotes db"
  "db_refunds (snd (findPaymentIdempotency pv a act k now db)) = db_refunds db"
  "db_jobs (snd (findPaymentIdempotency pv a act k now db)) = db_jobs db"
  "db_paper (snd (findPaymentIdempotency pv a act k now db)) = db_paper db"
  by (simp_all add: findPaymentIdempotency_def Let_def split: option.split)

lemma storePaymentReplay_Inr:
  "storePaymentReplay pv a act k h rid now n db = Inr db' \<Longrightarrow> \<exists>w. db' = db\<lparr>db_idempotency := db_idempotency db @ [w]\<rparr>"
  by (auto simp: storePaymentReplay_def Let_def split: if_splits)

lemma storeIdempotency_Inr:
  "storeIdempotency sx a act k h body rid now n db = Inr db' \<Longrightarrow> \<exists>w. db' = db\<lparr>db_idempotency := db_idempotency db @ [w]\<rparr>"
  by (auto simp: storeIdempotency_def split: if_splits)

lemma deleteExpired_frame [simp]:
  "db_payments (deleteExpiredIdempotencyRecord sx a act k now db) = db_payments db"
  "db_sessions (deleteExpiredIdempotencyRecord sx a act k now db) = db_sessions db"
  "db_quotes (deleteExpiredIdempotencyRecord sx a act k now db) = db_quotes db"
  "db_refunds (deleteExpiredIdempotencyRecord sx a act k now db) = db_refunds db"
  "db_jobs (deleteExpiredIdempotencyRecord sx a act k now db) = db_jobs db"
  "db_paper (deleteExpiredIdempotencyRecord sx a act k now db) = db_paper db"
  by (simp_all add: deleteExpiredIdempotencyRecord_def)

lemma end_access_frame [simp]:
  "db_payments (end_access st sid now db) = db_payments db" "db_sessions (end_access st sid now db) = db_sessions db"
  "db_quotes (end_access st sid now db) = db_quotes db" "db_refunds (end_access st sid now db) = db_refunds db"
  "db_jobs (end_access st sid now db) = db_jobs db" "db_paper (end_access st sid now db) = db_paper db"
  by (simp_all add: end_access_def)

text \<open>The tables the money is told by.\<close>

definition same_books :: "kiosk_db \<Rightarrow> kiosk_db \<Rightarrow> bool" where
  "same_books a b \<longleftrightarrow> db_payments a = db_payments b \<and> db_sessions a = db_sessions b \<and> db_quotes a = db_quotes b \<and>
     db_refunds a = db_refunds b \<and> db_jobs a = db_jobs b \<and> db_paper a = db_paper b"

lemma same_books_step: "same_books db db' \<Longrightarrow> ledger_step Z db db' \<and> print_kept db db'"
  by (rule ledger_same) (simp_all add: same_books_def)

lemma money_inv_cong: "same_books db d \<Longrightarrow> money_inv db \<Longrightarrow> money_inv d"
  by (rule ledger_step_inv [of "{}" db]) (simp_all add: same_books_step)

lemma ledger_via:
  assumes "same_books db d" and "ledger_step Z d db' \<and> print_kept d db'"
  shows "ledger_step Z db db' \<and> print_kept db db'"
proof
  have eq: "db_payments d = db_payments db" "db_sessions d = db_sessions db" "db_quotes d = db_quotes db"
    "db_refunds d = db_refunds db" "db_jobs d = db_jobs db" "db_paper d = db_paper db"
    using assms(1) by (simp_all add: same_books_def)
  have books: "books_follow db db'" if "books_follow d db'" using that eq by (simp add: books_follow_def)
  show "print_kept db db'" using assms(2) eq by (simp add: print_kept_def)
  from assms(2) have "ledger_step Z d db'" by simp
  then show "ledger_step Z db db'"
  proof cases
    case quiet
    then show ?thesis using eq books by (intro ledger_step.quiet) simp_all
  next
    case (opened p)
    then show ?thesis using eq books by (intro ledger_step.opened [of db' db p]) simp_all
  next
    case (settled p f)
    then show ?thesis using eq books by (intro ledger_step.settled [of db' p f db]) simp_all
  next
    case (applied p f)
    then show ?thesis using eq books by (intro ledger_step.applied [of db' p f db]) simp_all
  qed
qed

section \<open>Opening a payment\<close>

lemma newPayment_open: "payment_open (newPayment pv session quoted i intent now)"
  by (simp add: newPayment_def payment_open_def OPEN_PAYMENT_STATUSES_def)

lemma newPayment_matches:
  "qr_sessionId quoted = se_id session \<Longrightarrow> payments_assert_matches_quote (newPayment pv session quoted i intent now) quoted"
  by (simp add: newPayment_def payments_assert_matches_quote_def)

lemma newPayment_simps [simp]:
  "py_id (newPayment pv session quoted i intent now) = i"
  "py_sessionId (newPayment pv session quoted i intent now) = se_id session"
  "\<not> py_appliedToSession (newPayment pv session quoted i intent now)"
  by (simp_all add: newPayment_def)

lemma openPayment_step:
  assumes inv: "money_inv db" and s: "session \<in> set (db_sessions db)" and st: "se_state session = S_CONFIGURING"
    and q: "quoted \<in> set (db_quotes db)" "qr_sessionId quoted = se_id session"
    and p: "p = newPayment pv session quoted i intent now"
    and run: "openPayment pv input session quoted p action h now newId db = Inr (snapshot, db')"
  shows "ledger_step Z db db' \<and> print_kept db db'"
proof -
  note ids = money_invD(1) [OF inv]
  have fresh: "\<not> payment_collides p db" by (rule ccontr) (use run in \<open>simp add: openPayment_def\<close>)
  obtain locked after n db1
    where mv: "moveSession session S_AWAITING_PAYMENT (db\<lparr>db_payments := db_payments db @ [p]\<rparr>) = Inr (locked, after, n, db1)"
    using run fresh by (cases "moveSession session S_AWAITING_PAYMENT (db\<lparr>db_payments := db_payments db @ [p]\<rparr>)")
      (auto simp: openPayment_def)
  have "same_books db1 db'"
    using run unfolding openPayment_def Let_def if_not_P [OF fresh] mv bind_result_simps prod.case
    by (simp only: split: if_splits) (auto simp: same_books_def dest!: storePaymentReplay_Inr)
  then have out: "db_payments db' = db_payments db1" "db_sessions db' = db_sessions db1" "db_quotes db' = db_quotes db1"
      "db_refunds db' = db_refunds db1" "db_jobs db' = db_jobs db1" "db_paper db' = db_paper db1"
    by (simp_all add: same_books_def)
  have m: "db1 = db\<lparr>db_payments := db_payments db @ [p],
      db_sessions := updated (\<lambda>s. se_id s = se_id session) (moved_row S_AWAITING_PAYMENT session) (db_sessions db)\<rparr>"
    using moveSession_Inr [OF mv] ids s by simp
  have kept: "print_kept db db'" using m out by (auto simp: print_kept_def)
  have "ledger_step Z db db'"
  proof (rule ledger_step.opened [where p = p])
    show "db_payments db' = db_payments db @ [p]" using m out by simp
    show "payment_open p" unfolding p by (rule newPayment_open)
    show "\<not> py_appliedToSession p" by (simp add: p)
    show "\<forall>r \<in> set (db_payments db). py_id r \<noteq> py_id p \<and> \<not> (py_sessionId r = py_sessionId p \<and> payment_open r)"
      using fresh by (auto simp: payment_collides_def list_ex_iff)
    show "\<exists>r \<in> set (db_quotes db). payments_assert_matches_quote p r"
      unfolding p using newPayment_matches [OF q(2)] q(1) by blast
    show "list_all2 (turned_row (py_sessionId p) S_AWAITING_PAYMENT {S_CONFIGURING}) (db_sessions db) (db_sessions db')"
      using m out by (auto simp: p st intro!: moved_turned dest: key_unique [OF ids _ s])
    show "books_follow db db'" by (rule books_follow_cong [OF kept]) (use m out in simp)
  qed
  with kept show ?thesis by simp
qed

lemma preparePayment_step:
  assumes inv: "money_inv db" and s: "session \<in> set (db_sessions db)"
    and run: "preparePayment pv createIntent input session action h now newId db = Inr (snapshot, db')"
  shows "ledger_step Z db db' \<and> print_kept db db'"
proof -
  obtain quoted intent where st: "se_state session = S_CONFIGURING"
    and q: "List.find (\<lambda>q. qr_id q = cy_quoteId input \<and> qr_sessionId q = se_id session) (db_quotes db) = Some quoted"
    and opn: "openPayment pv input session quoted (newPayment pv session quoted (newId 0) intent now) action h now newId db =
      Inr (snapshot, db')"
    using run unfolding preparePayment_def assertSessionPayable_def
    by (auto split: if_splits option.splits)
  from find_Some_set [OF q] have "quoted \<in> set (db_quotes db)" "qr_sessionId quoted = se_id session" by simp_all
  then show ?thesis by (rule openPayment_step [OF inv s st _ _ refl opn])
qed

lemma createPayment_step:
  assumes inv: "money_inv db" and run: "createPayment pv createIntent input now newId db = Inr (snapshot, db')"
  shows "ledger_step Z db db' \<and> print_kept db db'"
proof -
  define action where "action = ''payments.create:'' @ cy_sessionId input"
  define h where "h = pv_hashRequest pv [(''sessionId'', cy_sessionId input), (''quoteId'', cy_quoteId input),
            (''provider'', pv_provider pv)]"
  obtain found db1 where idem: "findPaymentIdempotency pv (cy_kioskId input) action (cy_idempotencyKey input) now db = (found, db1)"
    by fastforce
  have same: "same_books db db1"
    using findPaymentIdempotency_frame [of pv "cy_kioskId input" action "cy_idempotencyKey input" now db]
    by (simp add: idem same_books_def)
  have "db' = db1 \<or> (\<exists>session. session \<in> set (db_sessions db1) \<and>
      preparePayment pv createIntent input session action h now newId db1 = Inr (snapshot, db'))"
    using run idem unfolding createPayment_def Let_def action_def [symmetric] h_def [symmetric]
    by (auto simp: map_error_def split: option.splits sum.splits dest!: find_Some_set)
  then show ?thesis
    using same_books_step [OF same] preparePayment_step [OF money_inv_cong [OF same inv]] ledger_via [OF same] by blast
qed

section \<open>Confirming a payment\<close>

definition authorized_row :: "db_time \<Rightarrow> payment_row \<Rightarrow> payment_row" where
  "authorized_row now p = p\<lparr>py_status := PS_AUTHORIZED, py_authorizedAt := Some now\<rparr>"

lemma authorized_row_fun: "authorized_row now = (\<lambda>p. p\<lparr>py_status := PS_AUTHORIZED, py_authorizedAt := Some now\<rparr>)"
  by (rule ext) (simp add: authorized_row_def)

lemma authorized_row_evolves:
  assumes "py_status p = PS_PENDING" and "\<not> py_appliedToSession p"
  shows "payment_evolves p (authorized_row now p)" "py_status (authorized_row now p) \<noteq> PS_CAPTURED"
    "\<not> py_appliedToSession (authorized_row now p)" "payment_open (authorized_row now p)" "payment_open p"
  using assms
  by (simp_all add: payment_evolves_def authorized_row_def payments_assert_status_progression_def payment_open_def
      OPEN_PAYMENT_STATUSES_def)

lemma authorized_step:
  assumes inv: "money_inv db" and p: "p \<in> set (db_payments db)" and st: "py_status p = PS_PENDING"
    and P: "db_payments db' = updated (\<lambda>q. py_id q = py_id p) (authorized_row now) (db_payments db)"
    and same: "db_sessions db' = db_sessions db" "db_quotes db' = db_quotes db" "db_refunds db' = db_refunds db"
      "db_jobs db' = db_jobs db" "db_paper db' = db_paper db"
  shows "ledger_step Z db db' \<and> print_kept db db'"
proof
  have nap: "\<not> py_appliedToSession p" using money_invD(3) [OF inv p] st by auto
  note f = authorized_row_evolves [OF st nap]
  show kept: "print_kept db db'" using same by (simp add: print_kept_def)
  show "ledger_step Z db db'"
  proof (rule ledger_step.settled [where p = p and f = "authorized_row now"])
    show "books_follow db db'" by (rule books_follow_cong [OF kept]) (simp add: same)
    show "sessions_follow (db_sessions db) (db_sessions db')" by (simp add: same)
  qed (use P p f st in \<open>simp_all\<close>)
qed

lemma confirmOpen_step:
  assumes inv: "money_inv db" and p: "p \<in> set (db_payments db)"
    and run: "confirmOpen pv confirm input p action now newId db = Inr db'"
  shows "ledger_step Z db db' \<and> print_kept db db'"
proof (cases "py_status p = PS_CAPTURED")
  case True
  with run show ?thesis by (simp add: confirmOpen_def ledger_refl)
next
  case False
  have same: "db_sessions db' = db_sessions db" "db_quotes db' = db_quotes db" "db_refunds db' = db_refunds db"
      "db_jobs db' = db_jobs db" "db_paper db' = db_paper db"
    using run False by (auto simp: confirmOpen_def Let_def split: if_splits)
  have "db_payments db' = db_payments db \<or> py_status p = PS_PENDING \<and>
      db_payments db' = updated (\<lambda>q. py_id q = py_id p \<and> py_status q = PS_PENDING) (authorized_row now) (db_payments db)"
    using run False unfolding authorized_row_fun by (auto simp: confirmOpen_def Let_def split: if_splits)
  then show ?thesis
  proof
    assume "db_payments db' = db_payments db"
    then show ?thesis using same by (rule ledger_same)
  next
    assume "py_status p = PS_PENDING \<and>
      db_payments db' = updated (\<lambda>q. py_id q = py_id p \<and> py_status q = PS_PENDING) (authorized_row now) (db_payments db)"
    then show ?thesis
      using payment_guard(1) [OF money_invD(2) [OF inv] p, of "authorized_row now"] same
      by (intro authorized_step [OF inv p, where now = now]) simp_all
  qed
qed

lemma confirmFresh_step:
  assumes inv: "money_inv db" and run: "confirmFresh pv confirm input paymentId action h now newId db = Inr (snapshot, db')"
  shows "ledger_step Z db db' \<and> print_kept db db'"
proof -
  obtain p db1 where p: "List.find (\<lambda>p. py_id p = paymentId) (db_payments db) = Some p"
    and one: "confirmOpen pv confirm input p action now newId db = Inr db1"
    and out: "db_payments db' = db_payments db1" "db_sessions db' = db_sessions db1" "db_quotes db' = db_quotes db1"
      "db_refunds db' = db_refunds db1" "db_jobs db' = db_jobs db1" "db_paper db' = db_paper db1"
    using run unfolding confirmFresh_def Let_def
    by (auto split: option.splits dest!: storePaymentReplay_Inr)
  show ?thesis
    by (rule ledger_cong [OF confirmOpen_step [OF inv _ one] out]) (use find_Some_set [OF p] in simp)
qed

lemma confirmPayment_step:
  assumes inv: "money_inv db" and run: "confirmPayment pv confirm input now newId db = Inr (snapshot, db')"
  shows "ledger_step Z db db' \<and> print_kept db db'"
proof -
  define action where "action = ''payments.confirm:'' @ cf_paymentId input"
  define h where "h = pv_hashRequest pv [(''paymentId'', cf_paymentId input)]"
  obtain found db1 where idem: "findPaymentIdempotency pv (cf_kioskId input) action (cf_idempotencyKey input) now db = (found, db1)"
    by fastforce
  have same: "same_books db db1"
    using findPaymentIdempotency_frame [of pv "cf_kioskId input" action "cf_idempotencyKey input" now db]
    by (simp add: idem same_books_def)
  have "db' = db1 \<or> (\<exists>i. confirmFresh pv confirm input i action h now newId db1 = Inr (snapshot, db'))"
    using run idem unfolding confirmPayment_def Let_def action_def [symmetric] h_def [symmetric]
    by (auto simp: map_error_def split: option.splits sum.splits)
  then show ?thesis
    using same_books_step [OF same] confirmFresh_step [OF money_inv_cong [OF same inv]] ledger_via [OF same] by blast
qed

section \<open>The reconciler\<close>

lemma recordUnsettled_step: "ledger_step Z db (recordUnsettled i now n db) \<and> print_kept db (recordUnsettled i now n db)"
  by (rule ledger_same) (simp_all add: recordUnsettled_def split: option.split)

lemma timeOut_step:
  assumes inv: "money_inv db" and run: "timeOut i now newId db = Inr (did, db')"
  shows "ledger_step Z db db' \<and> print_kept db db'"
proof (cases "\<exists>p. List.find (\<lambda>p. py_id p = i) (db_payments db) = Some p \<and> payment_open p \<and> py_expiresAt p \<le> now")
  case False
  with run have "db' = db" by (auto simp: timeOut_def split: option.splits if_splits)
  then show ?thesis by (simp add: ledger_refl)
next
  case True
  then obtain p where find: "List.find (\<lambda>p. py_id p = i) (db_payments db) = Some p" and opn: "payment_open p"
    and due: "\<not> now < py_expiresAt p" by auto
  then have p: "p \<in> set (db_payments db)" by (auto dest: find_Some_set)
  note u = money_invD(2) [OF inv] and ids = money_invD(1) [OF inv]
  note guard = payment_guard [OF u p]
  define d where "d = recordAttempt ((attempt_row_of (newId 0) (py_id p) ''RECONCILE'' PS_TIMED_OUT now)
      \<lparr>at_providerReference := Some (py_providerIntentId p), at_failureCode := Some ''PROVIDER_TIMEOUT''\<rparr>)
    (db\<lparr>db_payments := updated (\<lambda>q. py_id q = py_id p) (failure_row PS_TIMED_OUT ''PROVIDER_TIMEOUT'' now) (db_payments db)\<rparr>)"
  have frame: "db_sessions d = db_sessions db" "db_quotes d = db_quotes db" "print_kept db d"
    by (simp_all add: d_def print_kept_def)
  obtain session where s: "List.find (\<lambda>s. se_id s = py_sessionId p) (db_sessions d) = Some session"
    using run find opn due guard unfolding timeOut_def Let_def
    by (auto simp: d_def split: option.splits)
  have rest: "se_state session \<noteq> S_AWAITING_PAYMENT \<and> (\<exists>as. db' = d\<lparr>db_audit := as\<rparr>) \<or>
      se_state session = S_AWAITING_PAYMENT \<and> (\<exists>ok after n db3. moveSession session S_CONFIGURING d = Inr (ok, after, n, db3) \<and>
        same_books db3 db')"
    using run find opn due guard s
    unfolding timeOut_def Let_def failure_row_fun [symmetric]
    by (auto simp: d_def same_books_def split: if_splits cong: if_cong)
  note fs = find_session [OF s]
  have fd: "distinct (map se_id (db_sessions d))" using ids frame(1) by simp
  have rel: "let_go session d db'"
  proof (cases "se_state session = S_AWAITING_PAYMENT")
    case True
    with rest obtain ok after n db3 where "moveSession session S_CONFIGURING d = Inr (ok, after, n, db3)"
      and out: "same_books db3 db'" by blast
    then have "let_go session d db3" using moveSession_let_go [OF fd fs(1) True] by blast
    then show ?thesis by (rule let_go_cong) (use out in \<open>simp_all add: same_books_def\<close>)
  next
    case False
    with rest obtain as where "db' = d\<lparr>db_audit := as\<rparr>" by blast
    then show ?thesis using let_go_stay [OF fd fs(1) False] by (auto elim: let_go_cong)
  qed
  show ?thesis
    by (rule failed_stepI [OF inv p opn _ _ frame rel fs(2)]) (simp_all add: failed_status_def d_def)
qed

section \<open>Ending and opening a session\<close>

text \<open>What ending an unpaid session comes to, together with rows of new sessions.\<close>

definition closed :: "session_row \<Rightarrow> kiosk_db \<Rightarrow> kiosk_db \<Rightarrow> bool" where
  "closed session db db' \<longleftrightarrow>
     db_refunds db' = db_refunds db \<and> db_jobs db' = db_jobs db \<and> db_paper db' = db_paper db \<and>
     map priced (db_quotes db') = map priced (db_quotes db) \<and> sessions_follow (db_sessions db) (db_sessions db') \<and>
     no_longer_awaiting (se_id session) db' \<and>
     (db_payments db' = db_payments db \<or>
      (\<exists>p \<in> set (db_payments db). \<exists>now. payment_open p \<and> py_sessionId p = se_id session \<and>
         db_payments db' = updated (\<lambda>q. py_id q = py_id p) (failure_row PS_CANCELED ''SESSION_TERMINAL'' now) (db_payments db)))"

lemma closed_step:
  assumes inv: "money_inv db" and closed: "closed session db db'"
  shows "ledger_step Z db db' \<and> print_kept db db'"
proof
  show kept: "print_kept db db'" using closed by (simp add: closed_def print_kept_def)
  have books: "books_follow db db'" by (rule books_follow_cong [OF kept]) (use closed in \<open>simp add: closed_def\<close>)
  have follow: "sessions_follow (db_sessions db) (db_sessions db')" using closed by (simp add: closed_def)
  show "ledger_step Z db db'"
  proof (cases "db_payments db' = db_payments db")
    case True
    then show ?thesis using follow books by (rule ledger_step.quiet)
  next
    case False
    with closed obtain p now where p: "p \<in> set (db_payments db)" and opn: "payment_open p" and sid: "py_sessionId p = se_id session"
      and P: "db_payments db' = updated (\<lambda>q. py_id q = py_id p) (failure_row PS_CANCELED ''SESSION_TERMINAL'' now) (db_payments db)"
      unfolding closed_def by blast
    have nap: "\<not> py_appliedToSession p" using money_invD(3) [OF inv p] open_not_captured [OF opn] by blast
    have "failed_status PS_CANCELED" by (simp add: failed_status_def)
    note f = failure_row_evolves [OF opn nap this]
    show ?thesis
    proof (rule ledger_step.settled [where p = p and f = "failure_row PS_CANCELED ''SESSION_TERMINAL'' now"])
      show "payment_open p \<and> \<not> payment_open (failure_row PS_CANCELED ''SESSION_TERMINAL'' now p) \<longrightarrow>
          no_longer_awaiting (py_sessionId p) db'" using closed sid by (simp add: closed_def)
    qed (use p P f nap follow books open_not_captured [OF opn] in simp_all)
  qed
qed

lemma release_Inr:
  assumes u: "distinct (map py_id (db_payments db))"
    and run: "releaseSessionPayments sid now n newId st v db = (r, db')"
  shows "db_sessions db' = db_sessions db \<and> db_quotes db' = db_quotes db \<and> db_refunds db' = db_refunds db \<and>
    db_jobs db' = db_jobs db \<and> db_paper db' = db_paper db \<and>
    (db_payments db' = db_payments db \<or>
      (\<exists>p \<in> set (db_payments db). payment_open p \<and> py_sessionId p = sid \<and>
         db_payments db' = updated (\<lambda>q. py_id q = py_id p) (failure_row PS_CANCELED ''SESSION_TERMINAL'' now) (db_payments db)))"
  using run
  by (auto simp: releaseSessionPayments_def Let_def failure_row_fun [symmetric] payment_guard [OF u]
      split: option.splits if_splits dest!: find_Some_set)

lemma invalidate_Inr:
  assumes "invalidateSessionPricing sid reason now n i clear db = Inr (x, db')"
  shows "db_payments db' = db_payments db \<and> db_refunds db' = db_refunds db \<and> db_jobs db' = db_jobs db \<and>
    db_paper db' = db_paper db \<and> map priced (db_quotes db') = map priced (db_quotes db) \<and>
    map (\<lambda>s. (se_id s, se_stateVersion s)) (db_sessions db') = map (\<lambda>s. (se_id s, se_stateVersion s)) (db_sessions db) \<and>
    list_all2 quiet_row (db_sessions db) (db_sessions db')"
  using assms
  by (auto simp: invalidateSessionPricing_def Let_def quiet_row_def priced_def map_updated intro!: quiet_updated
      split: option.splits if_splits)

text \<open>From the money to the row of the session, its access and its files.\<close>

lemma ended_closed:
  assumes inv: "money_inv db" and s: "session \<in> set (db_sessions db)" and unpaid: "se_state session \<notin> paid_states"
    and money: "closeMoney session after now newId db = Inr (sequence, db1)"
    and rows: "db_sessions d = updated (\<lambda>s. se_id s = se_id session) g (db_sessions db1)"
    and g: "\<And>s. se_id (g s) = se_id s" "\<And>s. se_state (g s) = t" "t \<notin> paid_states" "t \<noteq> S_AWAITING_PAYMENT"
    and same: "db_payments d = db_payments db1" "db_quotes d = db_quotes db1" "db_refunds d = db_refunds db1"
      "db_jobs d = db_jobs db1" "db_paper d = db_paper db1"
    and files: "scheduleSessionFilesForCleanup sid when sch d = Inr db'"
  shows "closed session db db'"
proof -
  obtain release db0 x where rel: "releaseSessionPayments (se_id session) now (se_eventSequence session) newId (vs_state after) (vs_version after) db = (release, db0)"
    and price: "invalidateSessionPricing (se_id session) SESSION_TERMINAL now (sp_nextSequence release) (newId 2) False db0 = Inr (x, db1)"
    using money unfolding closeMoney_def by (auto split: prod.splits)
  note r = release_Inr [OF money_invD(2) [OF inv] rel] and i = invalidate_Inr [OF price]
  have q1: "list_all2 quiet_row (db_sessions db) (db_sessions db1)" using r i by simp
  have ids: "map se_id (db_sessions db1) = map se_id (db_sessions db)" using quiet_keeps_ids [OF q1] .
  have unpaid1: "se_state x \<notin> paid_states" if "x \<in> set (db_sessions db1)" "se_id x = se_id session" for x
  proof -
    note prem = that
    obtain y where y: "y \<in> set (db_sessions db)" "quiet_row y x" using all2_back [OF q1 prem(1)] by blast
    then have "y = session" using prem(2) key_unique [OF money_invD(1) [OF inv] y(1) s] by (simp add: quiet_row_def)
    with y(2) unpaid show ?thesis by (simp add: quiet_row_def)
  qed
  have "list_all2 quiet_row (db_sessions db1) (db_sessions d)"
    unfolding rows by (rule quiet_updated) (use g unpaid1 in \<open>simp add: quiet_row_def\<close>)
  moreover have st: "steady d db'" by (rule schedule_steady [OF files])
  ultimately have q: "list_all2 quiet_row (db_sessions db) (db_sessions db')"
    using q1 unfolding steady_def by (blast intro: list_all2_trans [where ?P1.0 = quiet_row and ?P2.0 = quiet_row] quiet_row_trans)
  have away: "se_state y \<noteq> S_AWAITING_PAYMENT" if y: "y \<in> set (db_sessions db')" "se_id y = se_id session" for y
  proof -
    obtain z where z: "z \<in> set (db_sessions d)" "quiet_row z y" using all2_back [of quiet_row] st y(1) unfolding steady_def by blast
    have "se_id z = se_id session" using z(2) y(2) by (simp add: quiet_row_def)
    then have "se_state z = t" using z(1) g(1,2) unfolding rows by (auto simp: set_updated)
    with z(2) g(4) show ?thesis by (auto simp: quiet_row_def)
  qed
  have frame: "db_payments db' = db_payments d" "db_refunds db' = db_refunds d" "db_jobs db' = db_jobs d" "db_paper db' = db_paper d"
    using schedule_frame [OF files] by simp_all
  have quotes: "map priced (db_quotes db') = map priced (db_quotes db)" using st i r same(2) by (simp add: steady_def)
  show ?thesis
    unfolding closed_def using frame quotes follow_quiet [OF q] away r i same by (auto simp: no_longer_awaiting_def)
qed

lemma closed_more:
  assumes "closed session db d" and "db_payments db' = db_payments d" "db_quotes db' = db_quotes d" "db_refunds db' = db_refunds d"
    "db_jobs db' = db_jobs d" "db_paper db' = db_paper d" "db_sessions db' = db_sessions d"
  shows "closed session db db'"
  using assms by (simp add: closed_def no_longer_awaiting_def)

lemma ending_source:
  assumes "transitionSession \<lparr>vs_state = st, vs_version = v\<rparr> t n = Inr after" and "t \<in> {S_CANCELED, S_EXPIRED}"
  shows "st \<notin> paid_states \<and> after = \<lparr>vs_state = t, vs_version = v + 1\<rparr> \<and> v = n"
  using assms by (cases st) (auto simp: transitionSession_def canTransitionSession_def paid_states_def split: if_splits)

lemma expireSession_closed:
  assumes inv: "money_inv db" and s: "session \<in> set (db_sessions db)"
    and run: "expireSession sx session now cred requestId newId db = Inr db'"
  shows "closed session db db'"
proof -
  obtain after where t: "transitionSession \<lparr>vs_state = se_state session, vs_version = se_stateVersion session\<rparr> S_EXPIRED
      (se_stateVersion session) = Inr after" using run by (auto simp: expireSession_def split: sum.splits)
  note st = ending_source [OF t]
  define g where "g = (\<lambda>n (s :: session_row). s\<lparr>se_state := vs_state after, se_stateVersion := vs_version after, se_eventSequence := n,
                      se_terminalReason := Some ''IDLE_TIMEOUT'', se_expiredAt := Some now\<rparr>)"
  obtain n db1 db2 where money: "closeMoney session after now newId db = Inr (n, db1)"
    and files: "scheduleSessionFilesForCleanup (se_id session) now (Some (T_EXPIRED, Some (sx_retentionPolicy sx)))
                (end_access A_EXPIRED (se_id session) now
                  (db1\<lparr>db_sessions := updated (\<lambda>s. se_id s = se_id session) (g n) (db_sessions db1)\<rparr>)) = Inr db2"
    and out: "db_payments db' = db_payments db2" "db_quotes db' = db_quotes db2" "db_refunds db' = db_refunds db2"
      "db_jobs db' = db_jobs db2" "db_paper db' = db_paper db2" "db_sessions db' = db_sessions db2"
    using run t unfolding expireSession_def Let_def g_def by (auto split: if_splits)
  have "closed session db db2"
    by (rule ended_closed [OF inv s _ money _ _ _ _ _ _ _ _ _ _ files, where g = "g n" and t = S_EXPIRED])
      (use st in \<open>simp_all add: g_def paid_states_def\<close>)
  then show ?thesis by (rule closed_more) (fact out)+
qed

lemma cancelSession_fresh_step:
  assumes inv: "money_inv db" and s: "session \<in> set (db_sessions db)"
    and run: "cancelSession_fresh sx input session action h now newId db = Inr (snapshot, db')"
  shows "ledger_step Z db db' \<and> print_kept db db'"
proof -
  obtain after where t: "transitionSession \<lparr>vs_state = se_state session, vs_version = se_stateVersion session\<rparr> S_CANCELED
      (cs_expectedVersion input) = Inr after" using run by (auto simp: cancelSession_fresh_def split: sum.splits if_splits)
  note st = ending_source [OF t]
  define g where "g = (\<lambda>n (s :: session_row). s\<lparr>se_state := vs_state after, se_stateVersion := vs_version after, se_eventSequence := n,
                      se_terminalReason := Some ''CUSTOMER_CANCELED'', se_canceledAt := Some now\<rparr>)"
  obtain n db1 db2 where money: "closeMoney session after now newId db = Inr (n, db1)"
    and files: "scheduleSessionFilesForCleanup (se_id session) now (Some (T_CANCELED, Some (sx_retentionPolicy sx)))
                (end_access A_REVOKED (se_id session) now
                  (db1\<lparr>db_sessions := updated (\<lambda>s. se_id s = se_id session \<and> se_stateVersion s = cs_expectedVersion input) (g n)
                     (db_sessions db1)\<rparr>)) = Inr db2"
    and out: "db_payments db' = db_payments db2" "db_quotes db' = db_quotes db2" "db_refunds db' = db_refunds db2"
      "db_jobs db' = db_jobs db2" "db_paper db' = db_paper db2" "db_sessions db' = db_sessions db2"
    using run unfolding cancelSession_fresh_def t sum.case Let_def g_def
    by (auto split: if_splits option.splits dest!: storeIdempotency_Inr)
  have guard: "updated (\<lambda>s. se_id s = se_id session \<and> se_stateVersion s = cs_expectedVersion input) (g n) (db_sessions db1) =
      updated (\<lambda>s. se_id s = se_id session) (g n) (db_sessions db1)"
  proof (rule updated_cong)
    fix x assume x: "x \<in> set (db_sessions db1)"
    have "map (\<lambda>s. (se_id s, se_stateVersion s)) (db_sessions db1) = map (\<lambda>s. (se_id s, se_stateVersion s)) (db_sessions db)"
      using money release_Inr [OF money_invD(2) [OF inv]] invalidate_Inr unfolding closeMoney_def by (auto split: prod.splits)
    then have "(se_id x, se_stateVersion x) \<in> (\<lambda>s. (se_id s, se_stateVersion s)) ` set (db_sessions db)"
      using x by (metis (no_types, lifting) image_eqI set_map)
    then show "(se_id x = se_id session \<and> se_stateVersion x = cs_expectedVersion input) = (se_id x = se_id session)"
      using st key_unique [OF money_invD(1) [OF inv] _ s] by fastforce
  qed
  have "closed session db db2"
    by (rule ended_closed [OF inv s _ money _ _ _ _ _ _ _ _ _ _ files, where g = "g n" and t = S_CANCELED])
      (use st guard in \<open>simp_all add: g_def paid_states_def\<close>)
  then have "closed session db db'" by (rule closed_more) (fact out)+
  then show ?thesis by (rule closed_step [OF inv])
qed

lemma cancelSession_step:
  assumes inv: "money_inv db" and run: "cancelSession sx input clock newId db = Inr (snapshot, db')"
  shows "ledger_step Z db db' \<and> print_kept db db'"
proof -
  define action where "action = ''sessions.cancel:'' @ cs_sessionId input"
  define h where "h = sx_hashRequest sx [(''sessionId'', cs_sessionId input),
            (''expectedVersion'', show_int (cs_expectedVersion input))]"
  define db1 where "db1 = deleteExpiredIdempotencyRecord sx (cs_kioskId input) action (cs_idempotencyKey input) (fst clock) db"
  have same: "same_books db db1" by (simp add: db1_def same_books_def)
  have "db' = db1 \<or> (\<exists>session now. session \<in> set (db_sessions db1) \<and>
      cancelSession_fresh sx input session action h now newId db1 = Inr (snapshot, db'))"
    using run unfolding cancelSession_def Let_def action_def [symmetric] h_def [symmetric] db1_def [symmetric]
    by (auto split: option.splits sum.splits if_splits dest!: find_Some_set)
  then show ?thesis
    using same_books_step [OF same] cancelSession_fresh_step [OF money_inv_cong [OF same inv]] ledger_via [OF same] by blast
qed

text \<open>Opening a session, behind the one that may be in its way.\<close>

lemma closed_insert:
  assumes c: "closed session db d" and run: "insertSession new d = Inr d'"
    and st: "se_state new \<notin> paid_states" "se_state new \<noteq> S_AWAITING_PAYMENT"
  shows "closed session db d'"
proof -
  have fresh: "se_id new \<notin> set (map se_id (db_sessions d))" and out: "d' = d\<lparr>db_sessions := db_sessions d @ [new]\<rparr>"
    using run by (auto simp: insertSession_def list_ex_iff split: if_splits)
  obtain kept added where k: "db_sessions d = kept @ added" "list_all2 quiet_row (db_sessions db) kept"
    "\<forall>s \<in> set added. se_state s \<notin> paid_states \<and> se_state s \<noteq> S_AWAITING_PAYMENT" "distinct (map se_id added)"
    "set (map se_id added) \<inter> set (map se_id (db_sessions db)) = {}"
    using c unfolding closed_def sessions_follow_def by blast
  have "se_id new \<notin> set (map se_id added)" "se_id new \<notin> set (map se_id (db_sessions db))"
    using fresh k(1) quiet_keeps_ids [OF k(2)] by (metis Un_iff map_append set_append)+
  then have "sessions_follow (db_sessions db) (db_sessions d')"
    unfolding sessions_follow_def using k st
    by (intro exI [of _ kept] exI [of _ "added @ [new]"]) (auto simp: out)
  then show ?thesis using c st(2) by (auto simp: closed_def out no_longer_awaiting_def)
qed

lemma insertSession_quiet:
  assumes run: "insertSession new db = Inr d'" and st: "se_state new \<notin> paid_states" "se_state new \<noteq> S_AWAITING_PAYMENT"
  shows "ledger_step Z db d' \<and> print_kept db d'"
proof
  have fresh: "se_id new \<notin> set (map se_id (db_sessions db))" and out: "d' = db\<lparr>db_sessions := db_sessions db @ [new]\<rparr>"
    using run by (auto simp: insertSession_def list_ex_iff split: if_splits)
  have "sessions_follow (db_sessions db) (db_sessions d')"
    unfolding sessions_follow_def using fresh st by (intro exI [of _ "db_sessions db"] exI [of _ "[new]"]) (simp add: out)
  then show "ledger_step Z db d'" by (intro ledger_step.quiet) (simp_all add: out books_follow_def)
  show "print_kept db d'" by (simp add: out print_kept_def)
qed

lemma createSession_fresh_step:
  assumes inv: "money_inv db" and run: "createSession_fresh sx input candidate h now newId db = Inr (response, db')"
  shows "ledger_step Z db db' \<and> print_kept db db'"
proof -
  obtain db1 db2 where clear: "clearKiosk sx input now newId db = Inr db1"
    and new: "insertSession (newSession sx input candidate now) db1 = Inr db2"
    and out: "db_payments db' = db_payments db2" "db_sessions db' = db_sessions db2" "db_quotes db' = db_quotes db2"
      "db_refunds db' = db_refunds db2" "db_jobs db' = db_jobs db2" "db_paper db' = db_paper db2"
    using run unfolding createSession_fresh_def Let_def
    by (auto simp: insertGrant_def split: if_splits dest!: storeIdempotency_Inr)
  have st: "se_state (newSession sx input candidate now) \<notin> paid_states" "se_state (newSession sx input candidate now) \<noteq> S_AWAITING_PAYMENT"
    by (simp_all add: newSession_def paid_states_def)
  have "ledger_step Z db db2 \<and> print_kept db db2"
  proof (cases "newest se_createdAt (filter (\<lambda>s. se_kioskId s = co_kioskId input \<and> se_state s \<notin> set SESSION_TERMINAL_STATES) (db_sessions db))")
    case None
    with clear have "db1 = db" by (simp add: clearKiosk_def)
    with new show ?thesis by (intro insertSession_quiet [OF _ st]) simp
  next
    case (Some existing)
    then have s: "existing \<in> set (db_sessions db)"
      by (auto simp: newest_def split: list.splits dest!: arg_cong [where f = set])
    from Some clear have "expireSession sx existing now (co_credentialId input) (co_requestId input) newId db = Inr db1"
      by (simp add: clearKiosk_def split: if_splits)
    then have "closed existing db db1" by (rule expireSession_closed [OF inv s])
    from closed_insert [OF this new st] show ?thesis by (rule closed_step [OF inv])
  qed
  then show ?thesis by (rule ledger_cong) (fact out)+
qed

lemma createSessionOnce_step:
  assumes inv: "money_inv db" and run: "createSessionOnce sx input a db = Inr (response, db')"
  shows "ledger_step Z db db' \<and> print_kept db db'"
proof -
  define db1 where "db1 = deleteExpiredIdempotencyRecord sx (co_kioskId input) ''sessions.create'' (co_idempotencyKey input) (ca_now a) db"
  have same: "same_books db db1" by (simp add: db1_def same_books_def)
  have "db' = db1 \<or> (\<exists>c h. createSession_fresh sx input c h (ca_now a) (ca_newId a) db1 = Inr (response, db'))"
    using run unfolding createSessionOnce_def Let_def db1_def [symmetric]
    by (auto split: option.splits)
  then show ?thesis
    using same_books_step [OF same] createSession_fresh_step [OF money_inv_cong [OF same inv]] ledger_via [OF same] by blast
qed

text \<open>Of all attempts at most one commits, on the database as it was.\<close>

lemma createSessionLoop_step:
  "money_inv db \<Longrightarrow> createSessionLoop sx input attempts reason db = Inr (response, db') \<Longrightarrow>
    ledger_step Z db db' \<and> print_kept db db'"
proof (induction attempts arbitrary: reason)
  case (Cons a attempts)
  show ?case
  proof (cases "createSessionOnce sx input a db")
    case (Inr r)
    with Cons.prems have "createSessionOnce sx input a db = Inr (response, db') \<or>
        createSessionLoop sx input attempts RETRY_CONCURRENCY db = Inr (response, db')"
      by (auto split: if_splits)
    then show ?thesis using createSessionOnce_step [OF Cons.prems(1)] Cons.IH [OF Cons.prems(1)] by blast
  qed (use Cons in \<open>auto split: if_splits option.splits\<close>)
qed simp

lemma createSession_step:
  "money_inv db \<Longrightarrow> createSession sx input attempts db = Inr (response, db') \<Longrightarrow> ledger_step Z db db' \<and> print_kept db db'"
  unfolding createSession_def by (rule createSessionLoop_step)

end
