(* ===== verification/Pricing_Steps.thy ===== *)
theory Pricing_Steps
  imports Quote_Service Money_Transactions
begin

text \<open>
  Saving settings and pricing them as steps of \<open>ledger_step\<close>: neither touches a payment, both leave
  every session that is paid or awaiting payment as it is, and a price is only ever added.
\<close>

section \<open>The parts\<close>

lemma find_replay_books [simp]: "same_books db (snd (find_replay px a act k now db))"
  by (simp add: find_replay_def Let_def same_books_def split: option.split)

lemma store_replay_Inr:
  "store_replay px a act k h body rid now n db = Inr db' \<Longrightarrow> \<exists>w. db' = db\<lparr>db_idempotency := db_idempotency db @ [w]\<rparr>"
  by (auto simp: store_replay_def Let_def split: if_splits)

lemma retried_Inr:
  "retried conflict run mapError attempts db = Inr r \<Longrightarrow> \<exists>a \<in> set attempts. run a db = Inr r"
  by (induction attempts) (auto split: if_splits sum.splits)

text \<open>Sessions and quotes may change quietly, quotes may be added; nothing else the money rests on moves.\<close>

definition priced_step :: "kiosk_db \<Rightarrow> kiosk_db \<Rightarrow> bool" where
  "priced_step db db' \<longleftrightarrow>
     db_payments db' = db_payments db \<and> db_refunds db' = db_refunds db \<and> db_jobs db' = db_jobs db \<and> db_paper db' = db_paper db \<and>
     list_all2 quiet_row (db_sessions db) (db_sessions db') \<and>
     (\<exists>qs. map priced (db_quotes db') = map priced (db_quotes db) @ qs)"

lemma priced_step_refl [simp, intro]: "priced_step db db"
  by (simp add: priced_step_def)

lemma priced_step_trans: "priced_step a b \<Longrightarrow> priced_step b c \<Longrightarrow> priced_step a c"
  unfolding priced_step_def
  by (elim conjE exE, intro conjI)
    (auto elim: list_all2_trans [where ?P1.0 = quiet_row and ?P2.0 = quiet_row, rotated] intro: quiet_row_trans)

lemma same_books_priced: "same_books db db' \<Longrightarrow> priced_step db db'"
  by (simp add: same_books_def priced_step_def)

lemma priced_step_ledger: "priced_step db db' \<Longrightarrow> ledger_step Z db db' \<and> print_kept db db'"
  by (auto simp: priced_step_def print_kept_def books_follow_def intro!: ledger_step.quiet follow_quiet)

lemma invalidate_priced: "invalidateSessionPricing sid reason now n i clear db = Inr (x, db') \<Longrightarrow> priced_step db db'"
  using invalidate_Inr by (simp add: priced_step_def)

lemma point_session_priced:
  "point_session sid f db = Inr db' \<Longrightarrow> (\<And>s. quiet_row s (f s)) \<Longrightarrow> priced_step db db'"
  by (auto simp: point_session_def Let_def priced_step_def intro!: quiet_updated split: if_splits)

lemma insertQuote_priced: "insertQuote q db = Inr db' \<Longrightarrow> priced_step db db'"
  by (auto simp: insertQuote_def priced_step_def split: if_splits)

section \<open>Saving settings\<close>

lemma saveRevision_priced:
  assumes ids: "distinct (map se_id (db_sessions db))" and s: "session \<in> set (db_sessions db)"
    and open_: "se_state session \<in> set CONFIGURABLE_STATES"
    and run: "saveRevision px input session normalized action h now newId db = Inr (body, db')"
  shows "priced_step db db'"
proof -
  define stored where "stored = newRevision px (se_id session) (latestRevision (se_id session) db + 1) normalized (newId 0) now"
  obtain db1 where ins: "insertRevision stored db = Inr db1"
    using run by (auto simp: saveRevision_def Let_def stored_def)
  obtain sequence invalidated db2
    where inv: "invalidateSessionPricing (se_id session) SETTINGS_CHANGED now (se_eventSequence session) (newId 1) False db1 =
      Inr ((sequence, invalidated), db2)"
    using run ins by (auto simp: saveRevision_def Let_def stored_def)
  have one: "priced_step db db2"
    using ins invalidate_priced [OF inv] by (auto simp: insertRevision_def priced_step_def split: if_splits)
  obtain d g where rows: "db_sessions d = updated (\<lambda>s. se_id s = se_id session \<and> se_stateVersion s = up_expectedVersion input) g (db_sessions db2)"
    and g: "\<And>s. se_id (g s) = se_id s" "\<And>s. se_state (g s) = S_CONFIGURING"
    and same: "db_payments d = db_payments db2" "db_quotes d = db_quotes db2" "db_refunds d = db_refunds db2"
      "db_jobs d = db_jobs db2" "db_paper d = db_paper db2"
    and books: "same_books d db'"
  proof -
    note rest = run [unfolded saveRevision_def Let_def stored_def [symmetric] ins bind_result_simps inv prod.case]
    define g :: "session_row \<Rightarrow> session_row" where "g = (\<lambda>s. s\<lparr>se_state := S_CONFIGURING, se_stateVersion := se_stateVersion session + 1,
      se_eventSequence := sequence + 1, se_currentSettingsRevision := Some (latestRevision (se_id session) db + 1)\<rparr>)"
    define rows where "rows = updated (\<lambda>s. se_id s = se_id session \<and> se_stateVersion s = up_expectedVersion input) g (db_sessions db2)"
    have next_: "(if se_state session = S_CONFIGURING then Inr S_CONFIGURING
        else case transitionSession \<lparr>vs_state = se_state session, vs_version = se_stateVersion session\<rparr> S_CONFIGURING
               (up_expectedVersion input) of
          Inl e \<Rightarrow> Inl (TX_SESSION e) | Inr after \<Rightarrow> Inr (vs_state after)) \<in> {Inr S_CONFIGURING} \<union> range Inl"
      by (simp split: sum.split)
    have "same_books (db2\<lparr>db_sessions := rows\<rparr>) db'"
      using rest next_ unfolding rows_def g_def
      by (elim UnE singletonE rangeE) (auto simp: same_books_def split: if_splits dest!: store_replay_Inr)
    then show ?thesis by (intro that [of "db2\<lparr>db_sessions := rows\<rparr>" g]) (simp_all add: rows_def g_def)
  qed
  have "list_all2 quiet_row (db_sessions db2) (db_sessions d)"
    unfolding rows
  proof (rule quiet_updated)
    fix x assume x: "x \<in> set (db_sessions db2)" "se_id x = se_id session \<and> se_stateVersion x = up_expectedVersion input"
    obtain y where y: "y \<in> set (db_sessions db)" "quiet_row y x"
      using one all2_back [OF _ x(1)] unfolding priced_step_def by blast
    have "y = session" by (rule key_unique [OF ids y(1) s]) (use x y in \<open>simp add: quiet_row_def\<close>)
    with y(2) open_ show "quiet_row x (g x)" by (auto simp: quiet_row_def g CONFIGURABLE_STATES_def paid_states_def)
  qed
  then have "priced_step db2 d" using same by (simp add: priced_step_def)
  with one books show ?thesis by (blast intro: priced_step_trans same_books_priced)
qed

lemma assertSessionUsable_Inr: "assertSessionUsable s now = Inr () \<Longrightarrow> se_state s \<in> set CONFIGURABLE_STATES"
  by (auto simp: assertSessionUsable_def split: if_splits)

lemma updateFresh_Inr:
  assumes "updateFresh px input session action h now newId db = Inr (body, db')"
  obtains kiosk normalized where "kioskOf session db = Inr kiosk" "assertSessionUsable session now = Inr ()"
    "se_stateVersion session = up_expectedVersion input" "selectableFiles (se_id session) db \<noteq> []"
    "normalizePrintSettings (up_body input) (settingsContext px session kiosk db) = Inr normalized"
    "saveRevision px input session normalized action h now newId db = Inr (body, db')"
  using assms by (auto simp: updateFresh_def split: if_splits sum.splits)

text \<open>A successful save is either the answer of a former one or a fresh revision.\<close>

lemma updateOnce_Inr:
  assumes "updateSettingsOnce px input a db = Inr (body, db')"
  obtains (replayed) "same_books db db'" and "db_settings db' = db_settings db" and "db_ruleSets db' = db_ruleSets db"
  | (fresh) db1 session action h where "same_books db db1" "db_settings db1 = db_settings db" "db_ruleSets db1 = db_ruleSets db"
      "session \<in> set (db_sessions db1)" "se_id session = up_sessionId input" "se_kioskId session = up_kioskId input"
      "updateFresh px input session action h (pa_now a) (pa_newId a) db1 = Inr (body, db')"
proof -
  define action where "action = ''settings.update:'' @ up_sessionId input"
  define h where "h = px_hashRequest px [(''sessionId'', up_sessionId input),
            (''expectedVersion'', show_int (up_expectedVersion input)), (''body'', fingerprintSettingsRequest (up_body input))]"
  obtain found db1 where f: "find_replay px (up_kioskId input) action (up_idempotencyKey input) (pa_now a) db = (found, db1)"
    by fastforce
  have frame: "same_books db db1" using find_replay_books [of db px "up_kioskId input" action "up_idempotencyKey input" "pa_now a"] f
    by simp
  have t: "db_settings db1 = db_settings db" "db_ruleSets db1 = db_ruleSets db"
    using f by (auto simp: find_replay_def Let_def split: option.splits if_splits)
  note rest = assms [unfolded updateSettingsOnce_def Let_def action_def [symmetric] h_def [symmetric] f prod.case]
  show ?thesis
  proof (cases found)
    case (Some r)
    with rest have "db' = db1" by (auto split: option.splits if_splits)
    with frame t show ?thesis by (intro replayed) auto
  next
    case None
    with rest obtain session where "List.find (\<lambda>s. se_id s = up_sessionId input \<and> se_kioskId s = up_kioskId input) (db_sessions db1) = Some session"
      and "updateFresh px input session action h (pa_now a) (pa_newId a) db1 = Inr (body, db')"
      by (auto split: option.splits)
    with frame t show ?thesis by (intro fresh) (auto dest: find_Some_set)
  qed
qed

lemma updateSettings_priced:
  assumes ids: "distinct (map se_id (db_sessions db))" and run: "updateSettings px input attempts db = Inr (body, db')"
  shows "priced_step db db'"
proof -
  obtain a where "updateSettingsOnce px input a db = Inr (body, db')"
    using run unfolding updateSettings_def by (auto dest: retried_Inr)
  then show ?thesis
  proof (cases rule: updateOnce_Inr)
    case replayed
    then show ?thesis by (simp add: same_books_priced)
  next
    case (fresh db1 session action h)
    have ids1: "distinct (map se_id (db_sessions db1))" using ids fresh(1) by (simp add: same_books_def)
    from fresh(7) have "priced_step db1 db'"
      by (elim updateFresh_Inr) (blast intro: saveRevision_priced [OF ids1 fresh(4)] assertSessionUsable_Inr)
    with fresh(1) show ?thesis by (blast intro: priced_step_trans same_books_priced)
  qed
qed

section \<open>Pricing\<close>

lemma reuseQuote_priced:
  assumes "reuseQuote px input session existing action h now newId db = Inr (snapshot, db')"
  shows "priced_step db db'"
proof -
  obtain db1 where step: "(if se_activeQuoteId session = Some (qr_id existing) then Inr db
        else point_session (se_id session) (\<lambda>s. s\<lparr>se_activeQuoteId := Some (qr_id existing)\<rparr>) db) = Inr db1"
    and stored: "store_replay px (cq_kioskId input) action (cq_idempotencyKey input) h (Some (quote_body snapshot)) (qr_id existing)
      now (newId 0) db1 = Inr db'"
    using assms unfolding reuseQuote_def by auto
  have "priced_step db db1"
    using step by (auto simp: quiet_row_def split: if_splits elim: point_session_priced)
  moreover have "same_books db1 db'" using store_replay_Inr [OF stored] by (auto simp: same_books_def)
  ultimately show ?thesis by (blast intro: priced_step_trans same_books_priced)
qed

lemma issueQuote_Inr:
  assumes "issueQuote px input session row breakdown action h now newId db = Inr (snapshot, db')"
  obtains x db1 db2 db3 where "invalidateSessionPricing (se_id session) SUPERSEDED now (se_eventSequence session) (newId 0) False db = Inr (x, db1)"
    "insertQuote (newQuote px session row breakdown (newId 1) now) db1 = Inr db2"
    "now < quote_deadline px session now"
    "point_session (se_id session) (\<lambda>s. s\<lparr>se_activeQuoteId := Some (newId 1), se_eventSequence := fst x + 1\<rparr>) db2 = Inr db3"
    "toQuoteSnapshot px (newQuote px session row breakdown (newId 1) now) now = Inr snapshot"
    "same_books db3 db'" "db_settings db' = db_settings db3" "db_ruleSets db' = db_ruleSets db3"
  using assms unfolding issueQuote_def Let_def
  by (auto simp: newQuote_def same_books_def split: if_splits dest!: store_replay_Inr)

lemma issueQuote_priced:
  assumes "issueQuote px input session row breakdown action h now newId db = Inr (snapshot, db')"
  shows "priced_step db db'"
  using assms
proof (rule issueQuote_Inr)
  fix x db1 db2 db3
  assume 1: "invalidateSessionPricing (se_id session) SUPERSEDED now (se_eventSequence session) (newId 0) False db = Inr (x, db1)"
    and 2: "insertQuote (newQuote px session row breakdown (newId 1) now) db1 = Inr db2"
    and 3: "point_session (se_id session) (\<lambda>s. s\<lparr>se_activeQuoteId := Some (newId 1), se_eventSequence := fst x + 1\<rparr>) db2 = Inr db3"
    and 4: "same_books db3 db'"
  have "priced_step db2 db3" by (rule point_session_priced [OF 3]) (simp add: quiet_row_def)
  with invalidate_priced [OF 1] insertQuote_priced [OF 2] same_books_priced [OF 4] show ?thesis
    by (blast intro: priced_step_trans)
qed

definition reusable :: "session_row \<Rightarrow> setting_revision_row \<Rightarrow> pricing_rule_set \<Rightarrow> db_time \<Rightarrow> quote_row \<Rightarrow> bool" where
  "reusable session row ruleSet now q \<longleftrightarrow> qr_sessionId q = se_id session \<and> qr_status q = Q_ACTIVE \<and>
     qr_settingsRevision q = sr_revision row \<and> qr_manifestHash q = sr_manifestHash row \<and>
     qb_ruleSetId (qr_breakdown q) = rs_id ruleSet \<and> now < qr_expiresAt q"

lemma quoteFresh_Inr:
  assumes "quoteFresh px input session action h now newId db = Inr (snapshot, db')"
  obtains kiosk row ruleSet breakdown where "kioskOf session db = Inr kiosk" "assertSessionQuotable session now = Inr ()"
    "se_currentSettingsRevision session = Some (cq_settingsRevision input)"
    "row \<in> set (db_settings db)" "sr_sessionId row = se_id session" "sr_revision row = cq_settingsRevision input"
    "assertManifestUnchanged px session kiosk row db = Inr ()" "loadPublishedRuleSet now db = Inr ruleSet"
    "calculateQuote ruleSet (revision_usage row) = Inr breakdown"
    "(\<exists>existing \<in> set (db_quotes db). reusable session row ruleSet now existing \<and>
       reuseQuote px input session existing action h now newId db = Inr (snapshot, db')) \<or>
     issueQuote px input session row breakdown action h now newId db = Inr (snapshot, db')"
proof -
  obtain kiosk where k: "kioskOf session db = Inr kiosk" and u: "assertSessionQuotable session now = Inr ()"
    and rev: "se_currentSettingsRevision session = Some (cq_settingsRevision input)"
    using assms by (auto simp: quoteFresh_def split: if_splits)
  note rest = assms [unfolded quoteFresh_def k u bind_result_simps, simplified rev, simplified]
  obtain row where row: "List.find (\<lambda>r. sr_sessionId r = se_id session \<and> sr_revision r = cq_settingsRevision input) (db_settings db) = Some row"
    and m: "assertManifestUnchanged px session kiosk row db = Inr ()"
    using rest by (auto split: option.splits if_splits)
  obtain ruleSet where t1: "loadPublishedRuleSet now db = Inr ruleSet" using rest row m by (auto split: if_splits)
  obtain breakdown where t2: "calculateQuote ruleSet (revision_usage row) = Inr breakdown"
    using rest row m t1 by (cases "calculateQuote ruleSet (revision_usage row)") (auto split: if_splits)
  have "(\<exists>existing \<in> set (db_quotes db). reusable session row ruleSet now existing \<and>
       reuseQuote px input session existing action h now newId db = Inr (snapshot, db')) \<or>
     issueQuote px input session row breakdown action h now newId db = Inr (snapshot, db')"
    using rest row m t1 t2 by (auto simp: reusable_def split: if_splits option.splits dest!: find_Some_set)
  with k u rev row m t1 t2 show ?thesis by (intro that) (auto dest: find_Some_set)
qed

lemma createOnce_Inr:
  assumes "createQuoteOnce px input a db = Inr (snapshot, db')"
  obtains (replayed) "same_books db db'" and "db_settings db' = db_settings db" and "db_ruleSets db' = db_ruleSets db"
  | (fresh) db1 session action h where "same_books db db1" "db_settings db1 = db_settings db" "db_ruleSets db1 = db_ruleSets db"
      "session \<in> set (db_sessions db1)" "se_id session = cq_sessionId input" "se_kioskId session = cq_kioskId input"
      "quoteFresh px input session action h (pa_now a) (pa_newId a) db1 = Inr (snapshot, db')"
proof -
  define action where "action = ''quotes.create:'' @ cq_sessionId input"
  define h where "h = px_hashRequest px [(''sessionId'', cq_sessionId input),
            (''settingsRevision'', show_int (cq_settingsRevision input))]"
  obtain found db1 where f: "find_replay px (cq_kioskId input) action (cq_idempotencyKey input) (pa_now a) db = (found, db1)"
    by fastforce
  have frame: "same_books db db1" using find_replay_books [of db px "cq_kioskId input" action "cq_idempotencyKey input" "pa_now a"] f
    by simp
  have t: "db_settings db1 = db_settings db" "db_ruleSets db1 = db_ruleSets db"
    using f by (auto simp: find_replay_def Let_def split: option.splits if_splits)
  note rest = assms [unfolded createQuoteOnce_def Let_def action_def [symmetric] h_def [symmetric] f prod.case]
  show ?thesis
  proof (cases found)
    case (Some r)
    with rest have "db' = db1" by auto
    with frame t show ?thesis by (intro replayed) auto
  next
    case None
    with rest obtain session where "List.find (\<lambda>s. se_id s = cq_sessionId input \<and> se_kioskId s = cq_kioskId input) (db_sessions db1) = Some session"
      and "quoteFresh px input session action h (pa_now a) (pa_newId a) db1 = Inr (snapshot, db')"
      by (auto split: option.splits)
    with frame t show ?thesis by (intro fresh) (auto dest: find_Some_set)
  qed
qed

lemma createQuote_priced:
  assumes run: "createQuote px input attempts db = Inr (snapshot, db')"
  shows "priced_step db db'"
proof -
  obtain a where "createQuoteOnce px input a db = Inr (snapshot, db')"
    using run unfolding createQuote_def by (auto dest: retried_Inr)
  then show ?thesis
  proof (cases rule: createOnce_Inr)
    case replayed
    then show ?thesis by (simp add: same_books_priced)
  next
    case (fresh db1 session action h)
    from fresh(7) have "priced_step db1 db'"
      by (elim quoteFresh_Inr) (auto intro: reuseQuote_priced issueQuote_priced)
    with fresh(1) show ?thesis by (blast intro: priced_step_trans same_books_priced)
  qed
qed

end
