(* ===== verification/Tariff_Frames.thy ===== *)
theory Tariff_Frames
  imports Pricing_Steps
begin

text \<open>
  What only the pricing writes: the saved revisions of settings, the tariffs, and what a quote says of
  its price; and the inbox of callbacks, which only their reduction writes. No other transaction of the
  control plane changes any of them, so a price and what it was computed from stay as they are, and a
  callback once taken stays in the inbox.
\<close>

definition tariff :: "kiosk_db \<Rightarrow> setting_revision_row list \<times> rule_set_row list \<times> (string \<times> string \<times> int \<times> string \<times> quote_breakdown) list" where
  "tariff db = (db_settings db, db_ruleSets db, map priced (db_quotes db))"

definition untouched :: "kiosk_db \<Rightarrow> (setting_revision_row list \<times> rule_set_row list \<times> (string \<times> string \<times> int \<times> string \<times> quote_breakdown) list) \<times> inbox_row list" where
  "untouched db = (tariff db, db_inbox db)"

lemma untouched_update [simp]:
  "untouched (db\<lparr>db_jobs := a1\<rparr>) = untouched db" "untouched (db\<lparr>db_events := a2\<rparr>) = untouched db"
  "untouched (db\<lparr>db_commands := a3\<rparr>) = untouched db" "untouched (db\<lparr>db_payments := a4\<rparr>) = untouched db"
  "untouched (db\<lparr>db_refunds := a5\<rparr>) = untouched db" "untouched (db\<lparr>db_sessions := a6\<rparr>) = untouched db"
  "untouched (db\<lparr>db_files := a7\<rparr>) = untouched db" "untouched (db\<lparr>db_derivatives := a8\<rparr>) = untouched db"
  "untouched (db\<lparr>db_grants := a9\<rparr>) = untouched db" "untouched (db\<lparr>db_clients := b1\<rparr>) = untouched db"
  "untouched (db\<lparr>db_paper := b2\<rparr>) = untouched db" "untouched (db\<lparr>db_idempotency := b3\<rparr>) = untouched db"
  "untouched (db\<lparr>db_audit := b4\<rparr>) = untouched db" "untouched (db\<lparr>db_outbox := b5\<rparr>) = untouched db"
  "untouched (db\<lparr>db_attempts := b7\<rparr>) = untouched db"
  "untouched (db\<lparr>db_kiosks := b9\<rparr>) = untouched db"
  by (simp_all add: untouched_def tariff_def)

text \<open>The status of a quote is no part of its price.\<close>

lemma priced_update [simp]:
  "priced (q\<lparr>qr_status := a\<rparr>) = priced q" "priced (q\<lparr>qr_invalidatedAt := b\<rparr>) = priced q"
  "priced (q\<lparr>qr_invalidationReason := c\<rparr>) = priced q"
  by (simp_all add: priced_def)

lemma untouched_quotes [simp]:
  "(\<And>q. priced (f q) = priced q) \<Longrightarrow> map priced rows = map priced (db_quotes db) \<Longrightarrow>
    untouched (db\<lparr>db_quotes := updated p f rows\<rparr>) = untouched db"
  by (simp add: untouched_def tariff_def map_updated)

lemma committed_untouched: "(\<And>x db'. r = Inr (x, db') \<Longrightarrow> untouched db' = untouched db) \<Longrightarrow> untouched (committed db r) = untouched db"
  by (cases r) (auto simp: committed_def split: prod.splits)

section \<open>The print path\<close>

lemma schedule_untouched: "scheduleSessionFilesForCleanup sid now sch db = Inr db' \<Longrightarrow> untouched db' = untouched db"
  by (auto simp: scheduleSessionFilesForCleanup_def Let_def)

lemma settlement_parts_untouched [simp]:
  "untouched (recordPrintJobEvent e db) = untouched db"
  "untouched (snd (recordPrintFailureCompensation p s i now db)) = untouched db"
  "untouched (snd (applyKioskPaperDeduction k n db)) = untouched db"
  "untouched (revokeSessionAccess sid now db) = untouched db"
  by (simp_all add: recordPrintJobEvent_def recordPrintFailureCompensation_def applyKioskPaperDeduction_def
      revokeSessionAccess_def Let_def split: option.split)

lemma settleSession_untouched: "settleSession i job r db = Inr (out, db') \<Longrightarrow> untouched db' = untouched db"
  by (auto simp: settleSession_def Let_def split: option.splits if_splits dest!: schedule_untouched)

lemma settlement_untouched: "applyPrintJobSettlement i db = Inr (out, db') \<Longrightarrow> untouched db' = untouched db"
  by (auto simp: applyPrintJobSettlement_def Let_def split_beta split: option.splits if_splits
      dest!: settleSession_untouched)

lemma replay_untouched:
  "untouched (snd (findIdempotency sv a act k now db)) = untouched db"
  "storeReplay sv a act k h rid now n db = Inr db' \<Longrightarrow> untouched db' = untouched db"
  by (auto simp: findIdempotency_def storeReplay_def Let_def split: option.splits if_splits)

lemma startPrinting_untouched: "startPrinting session jobId n db = Inr (q, db') \<Longrightarrow> untouched db' = untouched db"
  by (auto simp: startPrinting_def Let_def split: sum.splits if_splits)

lemma insertJob_untouched: "insertJob sv input session now newId action h db = Inr (out, db') \<Longrightarrow> untouched db' = untouched db"
  by (auto simp: insertJob_def Let_def split: option.splits if_splits dest!: startPrinting_untouched replay_untouched(2))

lemma findIdempotency_untouched: "findIdempotency sv a act k now db = (r, db1) \<Longrightarrow> untouched db1 = untouched db"
  using replay_untouched(1) [of sv a act k now db] by simp

lemma createPrintJob_untouched: "createPrintJob sv input now newId db = Inr (out, db') \<Longrightarrow> untouched db' = untouched db"
  by (auto simp: createPrintJob_def Let_def split: option.splits if_splits prod.splits
      dest!: insertJob_untouched findIdempotency_untouched)

lemma cancelOpenJob_untouched: "cancelOpenJob sv input job now newId db = Inr db' \<Longrightarrow> untouched db' = untouched db"
  by (auto simp: cancelOpenJob_def Let_def split: option.splits if_splits dest!: settlement_untouched)

lemma cancelFresh_untouched: "cancelFresh sv input ownedId action h now newId db = Inr (out, db') \<Longrightarrow> untouched db' = untouched db"
  by (auto simp: cancelFresh_def Let_def split: option.splits if_splits dest!: cancelOpenJob_untouched replay_untouched(2))

lemma cancelPrintJob_untouched: "cancelPrintJob sv input now newId db = Inr (out, db') \<Longrightarrow> untouched db' = untouched db"
  by (auto simp: cancelPrintJob_def Let_def split: option.splits if_splits prod.splits
      dest!: cancelFresh_untouched findIdempotency_untouched)

lemma agent_untouched:
  "untouched (snd (reserveDispatch candidate now db)) = untouched db"
  "issueCommand message now newId db = Inr db' \<Longrightarrow> untouched db' = untouched db"
  "claimOne uuid lease kioskId now ids db = Inr (c, db') \<Longrightarrow> untouched db' = untouched db"
  "reportProgress lease kioskId op token state now eventId db = Inr (o1, db') \<Longrightarrow> untouched db' = untouched db"
  "reportResult lease policy kioskId cred op requestId body heldAt now newId db = Inr (o2, db') \<Longrightarrow> untouched db' = untouched db"
  "releaseLease maxAttempts policy commandId now newId db = Inr (o3, db') \<Longrightarrow> untouched db' = untouched db"
  "settleOverdue policy jobId now newId db = Inr (o4, db') \<Longrightarrow> untouched db' = untouched db"
  subgoal by (simp add: reserveDispatch_def Let_def)
  subgoal by (auto simp: issueCommand_def Let_def split: option.splits if_splits)
  subgoal by (auto simp: claimOne_def Let_def split: list.splits option.splits if_splits)
  subgoal by (auto simp: reportProgress_def progressOn_def Let_def elim!: withSession_Inr split: option.splits if_splits)
  subgoal by (auto simp: reportResult_def resultOn_def Let_def elim!: withSession_Inr split: option.splits if_splits dest!: settlement_untouched)
  subgoal by (auto simp: releaseLease_def Let_def split: option.splits if_splits dest!: settlement_untouched)
  subgoal by (auto simp: settleOverdue_def Let_def split: option.splits if_splits dest!: settlement_untouched)
  done

lemma controlStep_untouched: "untouched (controlStep cfg e db) = untouched db"
proof (cases e)
  case (EvIssue message now newId)
  then show ?thesis
    by (cases "issueCommand message now newId db") (simp_all add: committed_db_def agent_untouched)
qed (auto intro!: committed_untouched simp: agent_untouched dest!: createPrintJob_untouched cancelPrintJob_untouched)

section \<open>Payments and sessions\<close>

lemma moveSession_untouched: "moveSession session target db = Inr (a, b, n, db') \<Longrightarrow> untouched db' = untouched db"
  by (auto simp: moveSession_def Let_def split: sum.splits if_splits option.splits)

lemma payment_replay_untouched:
  "untouched (snd (findPaymentIdempotency pv a act k now db)) = untouched db"
  "storePaymentReplay pv a act k h rid now n db = Inr db' \<Longrightarrow> untouched db' = untouched db"
  by (auto simp: findPaymentIdempotency_def storePaymentReplay_def Let_def split: option.splits if_splits)

lemma findPayment_untouched: "findPaymentIdempotency pv a act k now db = (r, db1) \<Longrightarrow> untouched db1 = untouched db"
  using payment_replay_untouched(1) [of pv a act k now db] by simp

lemma openPayment_untouched:
  "openPayment pv input session quoted p action h now newId db = Inr (snapshot, db') \<Longrightarrow> untouched db' = untouched db"
  by (auto simp: openPayment_def recordAttempt_def Let_def split: if_splits option.splits sum.splits
      dest!: moveSession_untouched payment_replay_untouched(2))

lemma createPayment_untouched: "createPayment pv createIntent input now newId db = Inr (snapshot, db') \<Longrightarrow> untouched db' = untouched db"
  by (auto simp: createPayment_def preparePayment_def map_error_def Let_def split: if_splits option.splits sum.splits prod.splits
      dest!: openPayment_untouched findPayment_untouched)


lemma release_untouched: "releaseSessionPayments sid now n newId st v db = (r, db') \<Longrightarrow> untouched db' = untouched db"
  by (auto simp: releaseSessionPayments_def recordAttempt_def Let_def split: if_splits option.splits list.splits)

lemma invalidate_untouched: "invalidateSessionPricing sid reason now n i clear db = Inr (x, db') \<Longrightarrow> untouched db' = untouched db"
  by (auto simp: invalidateSessionPricing_def Let_def split: if_splits option.splits)

lemma payment_rows_untouched [simp]:
  "untouched (recordAttempt a db) = untouched db" "untouched (recordCompensation b1 b2 b3 b4 b5 db) = untouched db"
  "untouched (recordPaymentAudit c1 c2 c3 c4 c5 c6 c7 db) = untouched db" "untouched (captureAttempt d1 d2 d3 d4 d5 d6 db) = untouched db"
  by (simp_all add: recordAttempt_def recordCompensation_def recordPaymentAudit_def captureAttempt_def Let_def)

text \<open>The reduction of a callback: the prices stay, the inbox grows.\<close>

definition inbox_grows :: "kiosk_db \<Rightarrow> kiosk_db \<Rightarrow> bool" where
  "inbox_grows db db' \<longleftrightarrow> tariff db' = tariff db \<and> (\<exists>ws. db_inbox db' = db_inbox db @ ws)"

lemma inbox_grows_refl: "inbox_grows db db"
  by (simp add: inbox_grows_def)

lemma inbox_grows_trans: "inbox_grows a b \<Longrightarrow> inbox_grows b c \<Longrightarrow> inbox_grows a c"
  by (auto simp: inbox_grows_def)

lemma untouched_grows: "untouched db' = untouched db \<Longrightarrow> inbox_grows db db'"
  by (simp add: inbox_grows_def untouched_def)

lemma inbox_grows_cong: "untouched a = untouched a' \<Longrightarrow> untouched b = untouched b' \<Longrightarrow> inbox_grows a b = inbox_grows a' b'"
  by (simp add: inbox_grows_def untouched_def)

lemma recordWebhook_grows: "recordWebhook pv event i result now n db = Inr db' \<Longrightarrow> inbox_grows db db'"
  by (auto simp: inbox_grows_def tariff_def dest!: recordWebhook_Inr)

lemma callback_parts_untouched:
  "captureUnapplied payment lost now db = Inr db' \<Longrightarrow> untouched db' = untouched db"
  "releaseAfterCompensatedCapture payment session fc n db = Inr db' \<Longrightarrow> untouched db' = untouched db"
  by (auto simp: captureUnapplied_def releaseAfterCompensatedCapture_def Let_def split: if_splits dest!: moveSession_untouched)

lemma lateCapture_grows: "lateCapture pv payment session event r now newId db = Inr db' \<Longrightarrow> inbox_grows db db'"
  by (auto simp: lateCapture_def Let_def split: if_splits dest!: callback_parts_untouched recordWebhook_grows
      elim!: inbox_grows_cong [THEN iffD1, rotated -1])

lemma effectiveCapture_grows: "effectiveCapture pv payment session event r now newId db = Inr db' \<Longrightarrow> inbox_grows db db'"
  by (auto simp: effectiveCapture_def Let_def split: if_splits dest!: recordWebhook_grows moveSession_untouched
      elim!: inbox_grows_cong [THEN iffD1, rotated -1])

lemma applyCapture_grows: "applyCapture pv payment event r now newId db = Inr db' \<Longrightarrow> inbox_grows db db'"
  by (auto simp: applyCapture_def split: if_splits option.splits
      dest: recordWebhook_grows lateCapture_grows effectiveCapture_grows)

lemma applyFailure_grows: "applyFailure pv payment event r now newId db = Inr db' \<Longrightarrow> inbox_grows db db'"
  by (auto simp: applyFailure_def Let_def split: if_splits option.splits dest!: recordWebhook_grows moveSession_untouched
      elim!: inbox_grows_cong [THEN iffD1, rotated -1])

lemma mismatched_untouched: "mismatchedCapture payment event now newId db = Inr db' \<Longrightarrow> untouched db' = untouched db"
  by (auto simp: mismatchedCapture_def Let_def split: if_splits option.splits dest!: callback_parts_untouched)

lemma reduce_grows: "reduceWebhookEvent pv event r now newId db = Inr db' \<Longrightarrow> inbox_grows db db'"
  by (auto simp: reduceWebhookEvent_def inbox_grows_refl split: if_splits option.splits
      dest!: recordWebhook_grows mismatched_untouched elim!: inbox_grows_cong [THEN iffD1, rotated -1]
      dest: applyCapture_grows applyFailure_grows)

lemma handleWebhook_grows: "inbox_grows db (snd (handleWebhook pv verified r now newId db))"
  by (auto simp: handleWebhook_def inbox_grows_refl split: sum.split tx_error.split dest!: reduce_grows)

lemma confirmPayment_untouched: "confirmPayment pv confirm input now newId db = Inr (snapshot, db') \<Longrightarrow> untouched db' = untouched db"
  by (auto simp: confirmPayment_def confirmFresh_def confirmOpen_def map_error_def Let_def
      split: if_splits option.splits sum.splits prod.splits intent_status.splits
      dest!: payment_replay_untouched(2) findPayment_untouched)

lemma timeOut_untouched: "timeOut paymentId now newId db = Inr (out, db') \<Longrightarrow> untouched db' = untouched db"
  by (auto simp: timeOut_def Let_def split: if_splits option.splits sum.splits dest!: moveSession_untouched)

lemma recordUnsettled_untouched: "untouched (recordUnsettled paymentId now newId db) = untouched db"
  by (simp add: recordUnsettled_def Let_def split: option.split)

lemma closeMoney_untouched: "closeMoney session after now newId db = Inr (n, db') \<Longrightarrow> untouched db' = untouched db"
  by (auto simp: closeMoney_def Let_def split: prod.splits dest!: release_untouched invalidate_untouched)

lemma session_replay_untouched:
  "untouched (deleteExpiredIdempotencyRecord sx a act k now db) = untouched db"
  "storeIdempotency sx a act k h body rid now n db = Inr db' \<Longrightarrow> untouched db' = untouched db"
  "untouched (end_access st sid now db) = untouched db"
  by (auto simp: deleteExpiredIdempotencyRecord_def storeIdempotency_def end_access_def split: if_splits)

lemma expireSession_untouched: "expireSession sx session now cred req newId db = Inr db' \<Longrightarrow> untouched db' = untouched db"
  by (auto simp: expireSession_def Let_def session_replay_untouched split: sum.splits if_splits
      dest!: schedule_untouched closeMoney_untouched)

lemma cancelSession_untouched: "cancelSession sx input clock newId db = Inr (out, db') \<Longrightarrow> untouched db' = untouched db"
  by (auto simp: cancelSession_def cancelSession_fresh_def Let_def session_replay_untouched
      split: sum.splits if_splits option.splits prod.splits
      dest!: schedule_untouched closeMoney_untouched session_replay_untouched(2))

lemma clearKiosk_untouched: "clearKiosk sx input now newId db = Inr db' \<Longrightarrow> untouched db' = untouched db"
  by (auto simp: clearKiosk_def Let_def split: sum.splits if_splits option.splits dest!: expireSession_untouched)

lemma createFresh_untouched: "createSession_fresh sx input candidate h now newId db = Inr (out, db') \<Longrightarrow> untouched db' = untouched db"
  by (auto simp: createSession_fresh_def insertSession_def insertGrant_def Let_def split: if_splits
      dest!: clearKiosk_untouched session_replay_untouched(2))

lemma createLoop_untouched: "createSessionLoop sx input attempts reason db = Inr (out, db') \<Longrightarrow> untouched db' = untouched db"
proof (induction attempts arbitrary: reason)
  case (Cons a attempts)
  have "createSessionOnce sx input a db = Inr (out, db') \<Longrightarrow> untouched db' = untouched db"
    by (auto simp: createSessionOnce_def Let_def session_replay_untouched(1) split: option.splits dest!: createFresh_untouched)
  with Cons show ?case by (auto split: if_splits sum.splits option.splits)
qed simp

lemma createSession_untouched: "createSession sx input attempts db = Inr (out, db') \<Longrightarrow> untouched db' = untouched db"
  unfolding createSession_def by (rule createLoop_untouched)

end
