(* ===== verification/Money_Lifecycle.thy ===== *)
theory Money_Lifecycle
  imports Tariff_Frames
begin

text \<open>
  The control plane with its money: every transaction of the print path, of the settings, quote, payment
  and session services and of the reconciler, one after another in any order. Each is a step of \<open>ledger_step\<close>, so
  after every history the captured money is either what its session was paid with or owed back.
\<close>

section \<open>Events\<close>

record money_config =
  mc_control :: control_config
  mc_payments :: payment_service
  mc_sessionService :: session_service
  mc_pricing :: pricing_service

datatype money_event =
    EvControl control_event
  | EvPay create_payment_input "string \<Rightarrow> money \<Rightarrow> tx_error + (string \<times> intent_status)" db_time "nat \<Rightarrow> string"
  | EvConfirm confirm_payment_input "string \<Rightarrow> tx_error + intent_status" db_time "nat \<Rightarrow> string"
  | EvWebhook "tx_error + provider_webhook_event" string db_time "nat \<Rightarrow> string"
  | EvTimeOut string db_time "nat \<Rightarrow> string"
  | EvUnsettled string db_time string
  | EvCancelSession cancel_session_input "db_time \<times> db_time \<times> db_time" "nat \<Rightarrow> string"
  | EvCreateSession create_session_input "create_attempt list"
  | EvSettings update_settings_input "pricing_attempt list"
  | EvQuote create_quote_input "pricing_attempt list"

fun moneyStep :: "money_config \<Rightarrow> money_event \<Rightarrow> kiosk_db \<Rightarrow> kiosk_db" where
  "moneyStep cfg (EvControl e) db = controlStep (mc_control cfg) e db"
| "moneyStep cfg (EvPay input createIntent now newId) db =
     committed db (createPayment (mc_payments cfg) createIntent input now newId db)"
| "moneyStep cfg (EvConfirm input confirm now newId) db =
     committed db (confirmPayment (mc_payments cfg) confirm input now newId db)"
| "moneyStep cfg (EvWebhook verified requestId now newId) db =
     snd (handleWebhook (mc_payments cfg) verified requestId now newId db)"
| "moneyStep cfg (EvTimeOut paymentId now newId) db = committed db (timeOut paymentId now newId db)"
| "moneyStep cfg (EvUnsettled paymentId now newId) db = recordUnsettled paymentId now newId db"
| "moneyStep cfg (EvCancelSession input clock newId) db =
     committed db (cancelSession (mc_sessionService cfg) input clock newId db)"
| "moneyStep cfg (EvCreateSession input attempts) db =
     committed db (createSession (mc_sessionService cfg) input attempts db)"
| "moneyStep cfg (EvSettings input attempts) db = committed db (updateSettings (mc_pricing cfg) input attempts db)"
| "moneyStep cfg (EvQuote input attempts) db = committed db (createQuote (mc_pricing cfg) input attempts db)"

text \<open>
  What is checked before a transaction begins: the shape of a printer's result, by the schema of its route.
  Callbacks have no such check; those that report a capture of nothing are told apart below, because the
  code owes nothing for them.
\<close>

fun accepted_money :: "money_config \<Rightarrow> money_event \<Rightarrow> bool" where
  "accepted_money cfg (EvControl e) \<longleftrightarrow> accepted_event (mc_control cfg) e"
| "accepted_money cfg _ \<longleftrightarrow> True"

fun nothing_reported :: "money_config \<Rightarrow> money_event \<Rightarrow> (string \<times> string) set" where
  "nothing_reported cfg (EvWebhook (Inr event) requestId now newId) = nothing_captured (mc_payments cfg) event"
| "nothing_reported cfg _ = {}"

definition plane_inv :: "kiosk_db \<Rightarrow> bool" where
  "plane_inv db \<longleftrightarrow> jobs_inv db \<and> money_inv db"

section \<open>Every transaction is a step\<close>

lemma webhook_step:
  assumes inv: "money_inv db" and Z: "\<And>event. verified = Inr event \<Longrightarrow> Z = nothing_captured pv event"
  shows "ledger_step Z db (snd (handleWebhook pv verified requestId now newId db)) \<and>
    print_kept db (snd (handleWebhook pv verified requestId now newId db))"
proof (cases verified)
  case (Inl e)
  then show ?thesis by (cases e) (simp_all add: handleWebhook_def ledger_refl)
next
  case (Inr event)
  show ?thesis
  proof (cases "reduceWebhookEvent pv event requestId now newId db")
    case (Inl e)
    then show ?thesis by (simp add: handleWebhook_def Inr ledger_refl)
  next
    case ok: (Inr db')
    from reduce_step [OF inv Z [OF Inr] ok] show ?thesis by (simp add: handleWebhook_def Inr ok)
  qed
qed

text \<open>An event that is not of the print path leaves its tables alone.\<close>

lemma service_step:
  assumes inv: "money_inv db" and "\<And>c. e \<noteq> EvControl c"
  shows "ledger_step (nothing_reported cfg e) db (moneyStep cfg e db) \<and> print_kept db (moneyStep cfg e db)"
proof (cases e)
  case (EvWebhook verified requestId now newId)
  have "ledger_step (nothing_reported cfg e) db (snd (handleWebhook (mc_payments cfg) verified requestId now newId db)) \<and>
      print_kept db (snd (handleWebhook (mc_payments cfg) verified requestId now newId db))"
    by (rule webhook_step [OF inv]) (simp add: EvWebhook)
  with EvWebhook show ?thesis by simp
next
  case (EvUnsettled paymentId now newId)
  with recordUnsettled_step show ?thesis by simp
next
  case (EvSettings input attempts)
  have "ledger_step {} db db' \<and> print_kept db db'" if "updateSettings (mc_pricing cfg) input attempts db = Inr (body, db')" for body db'
    by (rule priced_step_ledger [OF updateSettings_priced [OF money_invD(1) [OF inv] that]])
  with EvSettings show ?thesis by (auto intro!: committed_money)
next
  case (EvQuote input attempts)
  have "ledger_step {} db db' \<and> print_kept db db'" if "createQuote (mc_pricing cfg) input attempts db = Inr (snapshot, db')" for snapshot db'
    by (rule priced_step_ledger [OF createQuote_priced [OF that]])
  with EvQuote show ?thesis by (auto intro!: committed_money)
qed (use assms(2) in \<open>auto intro!: committed_money dest!: createPayment_step [OF inv] confirmPayment_step [OF inv]
      timeOut_step [OF inv] cancelSession_step [OF inv] createSession_step [OF inv]\<close>)

lemma control_money:
  assumes inv: "plane_inv db" and ok: "accepted_event cfg e"
  shows "ledger_step Z db (controlStep cfg e db)"
proof (rule ledger_step.quiet)
  have jobs: "jobs_inv db" and ids: "distinct (map se_id (db_sessions db))"
    using inv money_invD(1) by (auto simp: plane_inv_def)
  have st: "steady db (controlStep cfg e db)" by (rule control_steady [OF jobs ids])
  note money = job_step_money [OF jobs control_refines [OF jobs ok]]
  show "db_payments (controlStep cfg e db) = db_payments db" by (rule money)
  show "sessions_follow (db_sessions db) (db_sessions (controlStep cfg e db))"
    using st by (intro follow_quiet) (simp add: steady_def)
  show "books_follow db (controlStep cfg e db)" using st money(2) by (simp add: books_follow_def steady_def)
qed

lemma money_refines:
  assumes "plane_inv db" and "accepted_money cfg e"
  shows "ledger_step (nothing_reported cfg e) db (moneyStep cfg e db)"
proof (cases "\<exists>c. e = EvControl c")
  case True
  then show ?thesis using assms control_money by auto
next
  case False
  then show ?thesis using assms(1) service_step [of db e cfg] by (auto simp: plane_inv_def)
qed

section \<open>The print path rests on payments that stay\<close>

lemma kept_payment:
  assumes "payments_kept db db'" and "p \<in> set (db_payments db)"
  obtains p' where "p' \<in> set (db_payments db')" "payment_evolves p p'"
  using assms by (auto simp: payments_kept_def)

lemma applied_stays: "payment_evolves p p' \<Longrightarrow> py_appliedToSession p \<Longrightarrow> p' = p"
  by (simp add: payment_evolves_def)

lemma bound_kept:
  assumes "payments_kept db db'" and "bound_to_capture db j"
  shows "bound_to_capture db' j"
proof -
  obtain p where p: "p \<in> set (db_payments db)" "py_appliedToSession p" "py_id p = pj_paymentId j" "py_sessionId p = pj_sessionId j"
    "py_status p = PS_CAPTURED" "py_quoteId p = pj_quoteId j" "py_settingsRevision p = pj_settingsRevision j"
    "py_manifestHash p = pj_settingsManifestHash j" using assms(2) unfolding bound_to_capture_def by blast
  obtain p' where "p' \<in> set (db_payments db')" "payment_evolves p p'" using kept_payment [OF assms(1) p(1)] .
  with applied_stays p show ?thesis unfolding bound_to_capture_def by (intro bexI [of _ p]) auto
qed

lemma refund_kept:
  assumes "payments_kept db db'" and "refund_for db j r"
  shows "refund_for db' j r"
proof -
  obtain p where p: "p \<in> set (db_payments db)" "py_id p = pj_paymentId j" "rf_amountMinor r = py_amountMinor p" "py_amountMinor p \<noteq> 0"
    using assms(2) unfolding refund_for_def by blast
  obtain p' where "p' \<in> set (db_payments db')" "payment_evolves p p'" using kept_payment [OF assms(1) p(1)] .
  then show ?thesis using p assms(2) payment_evolves_keeps [of p p']
    unfolding refund_for_def by (intro conjI bexI [of _ p']) auto
qed

lemma amount_kept:
  assumes kept: "payments_kept db db'" and u: "distinct (map py_id (db_payments db'))" "distinct (map py_id (db_payments db))"
    and b: "bound_to_capture db j"
  shows "job_amount db' j = job_amount db j"
proof -
  obtain p where p: "p \<in> set (db_payments db)" "py_id p = pj_paymentId j" using b unfolding bound_to_capture_def by blast
  obtain p' where p': "p' \<in> set (db_payments db')" "payment_evolves p p'" using kept_payment [OF kept p(1)] .
  note k = payment_evolves_keeps [OF p'(2)]
  have "List.find (\<lambda>q. py_id q = pj_paymentId j) (db_payments db) = Some p"
    using find_key_unique [OF u(2) p(1)] p(2) by simp
  moreover have "List.find (\<lambda>q. py_id q = pj_paymentId j) (db_payments db') = Some p'"
    using find_key_unique [OF u(1) p'(1)] p(2) k(1) by simp
  ultimately show ?thesis by (simp add: job_amount_def k)
qed

lemma ledger_jobs_inv:
  assumes inv: "plane_inv db" and step: "ledger_step Z db db'" and print: "print_kept db db'"
  shows "jobs_inv db'"
proof -
  have jobs: "jobs_inv db" and money: "money_inv db" and money': "money_inv db'"
    using inv ledger_step_inv [OF step] by (simp_all add: plane_inv_def)
  note kept = ledger_step_keeps [OF money step]
  obtain rs where rs: "db_refunds db' = db_refunds db @ rs" "\<forall>r \<in> set rs. rf_reason r \<in> {LATE_CAPTURE, AMOUNT_MISMATCH}"
    using print unfolding print_kept_def by blast
  have same: "db_jobs db' = db_jobs db" "db_paper db' = db_paper db" using print by (simp_all add: print_kept_def)
  show ?thesis
    unfolding jobs_inv_def same
  proof (intro conjI ballI impI)
    show "distinct (map pj_id (db_jobs db))" "distinct (map pj_sessionId (db_jobs db))"
      using jobs_invD(1,2) [OF jobs] by simp_all
    show "distinct (map py_id (db_payments db'))" by (rule money_invD(2) [OF money'])
    show "distinct (map (\<lambda>r. (rf_paymentId r, rf_reason r)) (db_refunds db'))"
      using print jobs_invD(4) [OF jobs] by (simp add: print_kept_def)
    show "paper_ok db'" using jobs_invD(5) [OF jobs] same by (simp add: paper_ok_def)
  next
    fix j assume j: "j \<in> set (db_jobs db)"
    show "outcome_consistent j" by (rule jobs_invD(6) [OF jobs j])
    show "bound_to_capture db' j" by (rule bound_kept [OF kept jobs_invD(7) [OF jobs j]])
    assume f: "definitely_failed j \<and> job_amount db' j \<noteq> 0"
    have "job_amount db' j = job_amount db j"
      by (rule amount_kept [OF kept money_invD(2) [OF money'] money_invD(2) [OF money] jobs_invD(7) [OF jobs j]])
    with f obtain r where "r \<in> set (db_refunds db)" "refund_for db j r" using jobs_invD(8) [OF jobs j] by auto
    then show "\<exists>r \<in> set (db_refunds db'). refund_for db' j r" using refund_kept [OF kept] rs(1) by auto
  next
    fix r assume r: "r \<in> set (db_refunds db')" "rf_reason r = PRINT_FAILED"
    then have "r \<in> set (db_refunds db)" using rs by auto
    then obtain j where "j \<in> set (db_jobs db)" "definitely_failed j" "refund_for db j r" using jobs_invD(9) [OF jobs _ r(2)] by blast
    then show "\<exists>j \<in> set (db_jobs db). definitely_failed j \<and> refund_for db' j r" using refund_kept [OF kept] by blast
  qed
qed

lemma money_step_inv:
  assumes inv: "plane_inv db" and ok: "accepted_money cfg e"
  shows "plane_inv (moneyStep cfg e db)"
proof -
  have jobs: "jobs_inv db" and money: "money_inv db" using inv by (simp_all add: plane_inv_def)
  note step = money_refines [OF inv ok]
  have "jobs_inv (moneyStep cfg e db)"
  proof (cases "\<exists>c. e = EvControl c")
    case True
    then show ?thesis using ok job_step_inv [OF control_refines [OF jobs] jobs] by auto
  next
    case False
    then show ?thesis using service_step [OF money] ledger_jobs_inv [OF inv step] by blast
  qed
  then show ?thesis using ledger_step_inv [OF step money] by (simp add: plane_inv_def)
qed

section \<open>Histories\<close>

text \<open>A request that is refused at the door never begins a transaction.\<close>

definition guardedMoney :: "money_config \<Rightarrow> money_event \<Rightarrow> kiosk_db \<Rightarrow> kiosk_db" where
  "guardedMoney cfg e db = (if accepted_money cfg e then moneyStep cfg e db else db)"

definition moneyRun :: "money_config \<Rightarrow> money_event list \<Rightarrow> kiosk_db \<Rightarrow> kiosk_db" where
  "moneyRun cfg es db = fold (guardedMoney cfg) es db"

interpretation money: monotone_stepping "guardedMoney cfg" plane_inv payments_kept for cfg
proof
  fix e :: money_event and db :: kiosk_db
  assume inv: "plane_inv db"
  then show "plane_inv (guardedMoney cfg e db)" by (simp add: guardedMoney_def money_step_inv)
  show "payments_kept db (guardedMoney cfg e db)"
    using ledger_step_keeps [OF _ money_refines [OF inv]] inv payments_kept_refl
    by (simp add: guardedMoney_def plane_inv_def)
qed (fact payments_kept_refl, fact payments_kept_trans)

lemma moneyRun_inv: "plane_inv db \<Longrightarrow> plane_inv (moneyRun cfg es db)"
  unfolding moneyRun_def by (rule money.run_inv)

lemma moneyRun_kept: "plane_inv db \<Longrightarrow> payments_kept (moneyRun cfg es db) (moneyRun cfg (es @ fs) db)"
  unfolding moneyRun_def by (rule money.run_le_later)

text \<open>The captures that are neither applied nor owed are those the provider said were of nothing.\<close>

lemma moneyRun_accounted:
  assumes "plane_inv db" and "captures_accounted Y db"
  shows "captures_accounted (Y \<union> (\<Union>e \<in> set es. nothing_reported cfg e)) (moneyRun cfg es db)"
  unfolding moneyRun_def
proof (induction es rule: rev_induct)
  case (snoc e es)
  let ?db = "fold (guardedMoney cfg) es db" and ?Y = "Y \<union> (\<Union>e \<in> set es. nothing_reported cfg e)"
  have inv: "plane_inv ?db" using moneyRun_inv [OF assms(1)] by (simp add: moneyRun_def)
  have more: "captures_accounted (?Y \<union> Z) d" if "captures_accounted ?Y d" for Z d
    using that by (auto simp: captures_accounted_def accounted_def)
  show ?case
  proof (cases "accepted_money cfg e")
    case True
    have "captures_accounted (?Y \<union> nothing_reported cfg e) (moneyStep cfg e ?db)"
      using inv snoc by (intro ledger_step_accounted [OF _ _ money_refines [OF inv True]]) (simp_all add: plane_inv_def)
    moreover have "guardedMoney cfg e ?db = moneyStep cfg e ?db" by (simp add: guardedMoney_def True)
    ultimately show ?thesis by (simp add: Un_ac)
  next
    case False
    then have "guardedMoney cfg e ?db = ?db" by (simp add: guardedMoney_def)
    with more [OF snoc, of "nothing_reported cfg e"] show ?thesis by (simp add: Un_ac)
  qed
qed (use assms(2) in simp)

end
