(* ===== verification/Pricing_Inv.thy ===== *)
theory Pricing_Inv
  imports Money_Lifecycle
begin

text \<open>
  The price a customer is asked for. Every saved revision is a normalised one, every quote is what
  \<open>calculateQuote\<close> says of a saved revision under a stored tariff, and no transaction of the control plane
  changes either; so what is paid is the calculated price of what is printed.
\<close>

section \<open>A saved revision read back\<close>

lemma field_simps_selection:
  "str_field (selection_json f) ''fileId'' = Some (nf_fileId f)"
  "str_field (selection_json f) ''pageRangeText'' = Some (nf_pageRangeText f)"
  "json_field (selection_json f) ''copies'' = Some (JNum (nf_copies f))"
  "str_field (selection_json f) ''duplex'' = Some (duplex_name (nf_duplex f))"
  "str_field (selection_json f) ''orientation'' = Some (orientation_name (nf_orientation f))"
  "json_field (selection_json f) ''printedSides'' = Some (JNum (nf_printedSides f))"
  by (simp_all add: selection_json_def str_field_def json_field_def)

lemma named_again [simp]:
  "named duplex_name [SIMPLEX, LONG_EDGE, SHORT_EDGE] (duplex_name d) = Inr d"
  "named orientation_name [O_AUTO, O_PORTRAIT, O_LANDSCAPE] (orientation_name ori) = Inr ori"
  "named paper_name [A4] (paper_name p) = Inr p"
  "named scaling_name [FIT, ACTUAL_SIZE] (scaling_name sc) = Inr sc"
     apply (cases d; simp add: named_def)
    apply (cases ori; simp add: named_def)
   apply (cases p; simp add: named_def)
  apply (cases sc; simp add: named_def)
  done

definition choice_of :: "normalized_file_selection \<Rightarrow> stored_choice" where
  "choice_of f = \<lparr>sc_fileId = nf_fileId f, sc_pageRangeText = nf_pageRangeText f, sc_copies = nf_copies f,
     sc_duplex = duplex_name (nf_duplex f), sc_orientation = orientation_name (nf_orientation f)\<rparr>"

lemma readChoices_saved: "readChoices (JArr (map selection_json fs)) = map choice_of fs"
  by (induction fs) (simp_all add: readChoices_def readChoice_def field_simps_selection choice_of_def)

definition usage_of :: "normalized_file_selection \<Rightarrow> pricing_document_usage" where
  "usage_of f = \<lparr>du_duplex = (nf_duplex f \<noteq> SIMPLEX), du_printedSides = nf_printedSides f\<rparr>"

lemma duplex_name_simplex [simp]: "duplex_name d = ''SIMPLEX'' \<longleftrightarrow> d = SIMPLEX"
  by (cases d) simp_all

lemma readUsage_saved: "readStoredDocumentUsage (JArr (map selection_json fs)) = map usage_of fs"
  by (induction fs) (simp_all add: readStoredDocumentUsage_def readUsage_def field_simps_selection usage_of_def)

text \<open>What is priced is what was normalised.\<close>

definition settings_usage :: "normalized_print_settings \<Rightarrow> pricing_usage" where
  "settings_usage ns =
     \<lparr>us_service = ''PRINT'', us_paperSize = paper_name (np_paperSize ns), us_colorMode = color_name (np_colorMode ns),
      us_documents = map usage_of (np_files ns), us_selectedPages = np_selectedPages ns,
      us_printedSides = np_printedSides ns, us_physicalSheets = np_physicalSheets ns\<rparr>"

lemma newRevision_usage: "revision_usage (newRevision px sid n ns i t) = settings_usage ns"
  by (simp add: revision_usage_def settings_usage_def newRevision_def readUsage_saved)

lemma choice_input_saved: "map_result choice_input (map choice_of fs) = Inr (map selection_again fs)"
  by (induction fs) (simp_all add: choice_input_def choice_of_def selection_again_def)

lemma newRevision_input: "stored_input (newRevision px sid n ns i t) = Inr (input_again ns)"
proof -
  let ?row = "newRevision px sid n ns i t"
  have r: "readChoices (sr_selections ?row) = map choice_of (np_files ns)" "sr_paperSize ?row = paper_name (np_paperSize ns)"
      "sr_scaling ?row = scaling_name (np_scaling ns)" "sr_collate ?row = np_collate ns"
    by (simp_all add: newRevision_def readChoices_saved)
  show ?thesis
    unfolding stored_input_def r choice_input_saved named_again bind_result_simps
    by (simp add: input_again_def choice_of_def comp_def)
qed

section \<open>The invariant of the prices\<close>

definition saved_row :: "pricing_service \<Rightarrow> setting_revision_row \<Rightarrow> bool" where
  "saved_row px row \<longleftrightarrow> (\<exists>input ctx ns i t. normalizePrintSettings input ctx = Inr ns \<and>
     row = newRevision px (sr_sessionId row) (sr_revision row) ns i t)"

fun well_priced ::
  "setting_revision_row list \<Rightarrow> rule_set_row list \<Rightarrow> string \<times> string \<times> int \<times> string \<times> quote_breakdown \<Rightarrow> bool" where
  "well_priced settings ruleSets (i, sid, revision, manifestHash, breakdown) \<longleftrightarrow>
     (\<exists>row \<in> set settings. \<exists>r \<in> set ruleSets. sr_sessionId row = sid \<and> sr_revision row = revision \<and>
        sr_manifestHash row = manifestHash \<and> calculateQuote (ru_set r) (revision_usage row) = Inr breakdown)"

definition prices_inv :: "pricing_service \<Rightarrow> kiosk_db \<Rightarrow> bool" where
  "prices_inv px db \<longleftrightarrow>
     distinct (map (\<lambda>r. (sr_sessionId r, sr_revision r)) (db_settings db)) \<and>
     (\<forall>row \<in> set (db_settings db). saved_row px row) \<and>
     (\<forall>p \<in> set (map priced (db_quotes db)). well_priced (db_settings db) (db_ruleSets db) p)"

lemma prices_tariff: "tariff db' = tariff db \<Longrightarrow> prices_inv px db' = prices_inv px db"
  by (simp add: prices_inv_def tariff_def del: set_map)

lemma well_priced_mono:
  "well_priced settings ruleSets p \<Longrightarrow> set settings \<subseteq> set settings' \<Longrightarrow> well_priced settings' ruleSets p"
  by (cases p) (auto simp del: calculateQuote_def)

lemma find_replay_untouched: "find_replay px a act k now db = (r, db1) \<Longrightarrow> untouched db1 = untouched db"
  by (auto simp: find_replay_def Let_def split: option.splits if_splits)

lemma pricing_parts_untouched:
  "store_replay px a act k h body rid now n db = Inr db' \<Longrightarrow> untouched db' = untouched db"
  "point_session sid f db = Inr db' \<Longrightarrow> untouched db' = untouched db"
  by (auto simp: store_replay_def point_session_def Let_def split: if_splits)

text \<open>What a save adds.\<close>

lemma saveRevision_adds:
  assumes "saveRevision px input session ns action h now newId db = Inr (body, db')"
  defines "row \<equiv> newRevision px (se_id session) (latestRevision (se_id session) db + 1) ns (newId 0) now"
  shows "tariff db' = (db_settings db @ [row], db_ruleSets db, map priced (db_quotes db)) \<and>
    (\<forall>r \<in> set (db_settings db). \<not> (sr_sessionId r = sr_sessionId row \<and> sr_revision r = sr_revision row))"
proof -
  obtain db1 where ins: "insertRevision row db = Inr db1"
    using assms(1) by (auto simp: saveRevision_def Let_def row_def)
  obtain x db2 where inv: "invalidateSessionPricing (se_id session) SETTINGS_CHANGED now (se_eventSequence session) (newId 1) False db1 =
      Inr (x, db2)"
    using assms(1) ins by (auto simp: saveRevision_def Let_def row_def)
  have "tariff db' = tariff db2"
    using assms(1) ins inv unfolding saveRevision_def Let_def row_def [symmetric]
    by (cases x) (auto simp: untouched_def tariff_def split: if_splits sum.splits dest!: pricing_parts_untouched(1))
  then show ?thesis using ins invalidate_untouched [OF inv]
    by (auto simp: insertRevision_def untouched_def tariff_def list_ex_iff split: if_splits)
qed

lemma updateSettings_tariff:
  assumes "updateSettings px input attempts db = Inr (body, db')"
  obtains (same) "tariff db' = tariff db"
  | (saved) row where "tariff db' = (db_settings db @ [row], db_ruleSets db, map priced (db_quotes db))" "saved_row px row"
      "\<forall>r \<in> set (db_settings db). \<not> (sr_sessionId r = sr_sessionId row \<and> sr_revision r = sr_revision row)"
proof -
  obtain a where "updateSettingsOnce px input a db = Inr (body, db')"
    using assms unfolding updateSettings_def by (auto dest: retried_Inr)
  then show ?thesis
  proof (cases rule: updateOnce_Inr)
    case replayed
    then show ?thesis by (intro same) (simp add: tariff_def same_books_def)
  next
    case (fresh db1 session action h)
    have t: "tariff db1 = tariff db" using fresh(1-3) by (simp add: tariff_def same_books_def)
    from fresh(7) show ?thesis
    proof (rule updateFresh_Inr)
      fix kiosk ns
      assume n: "normalizePrintSettings (up_body input) (settingsContext px session kiosk db1) = Inr ns"
        and run: "saveRevision px input session ns action h (pa_now a) (pa_newId a) db1 = Inr (body, db')"
      have "saved_row px (newRevision px (se_id session) (latestRevision (se_id session) db1 + 1) ns (pa_newId a 0) (pa_now a))"
        using n unfolding saved_row_def by (intro exI conjI) (auto simp: newRevision_def)
      with saveRevision_adds [OF run] t show ?thesis by (intro saved) (auto simp: tariff_def)
    qed
  qed
qed

text \<open>What a quote adds.\<close>

lemma newest_mem: "newest created rows = Some r \<Longrightarrow> r \<in> set rows"
proof -
  assume "newest created rows = Some r"
  then obtain rest where "sort_key (\<lambda>r. - created r) rows = r # rest" by (auto simp: newest_def split: list.splits)
  from arg_cong [OF this, of set] show ?thesis by auto
qed

lemma quoteFresh_adds:
  assumes "quoteFresh px input session action h now newId db = Inr (snapshot, db')"
  obtains (same) "tariff db' = tariff db"
  | (issued) p where "tariff db' = (db_settings db, db_ruleSets db, map priced (db_quotes db) @ [p])"
      "well_priced (db_settings db) (db_ruleSets db) p"
  using assms
proof (rule quoteFresh_Inr)
  fix kiosk row ruleSet breakdown
  assume row: "row \<in> set (db_settings db)" "sr_sessionId row = se_id session"
    and rs: "loadPublishedRuleSet now db = Inr ruleSet" and c: "calculateQuote ruleSet (revision_usage row) = Inr breakdown"
    and way: "(\<exists>existing \<in> set (db_quotes db). reusable session row ruleSet now existing \<and>
       reuseQuote px input session existing action h now newId db = Inr (snapshot, db')) \<or>
     issueQuote px input session row breakdown action h now newId db = Inr (snapshot, db')"
  from way show thesis
  proof
    assume "\<exists>existing \<in> set (db_quotes db). reusable session row ruleSet now existing \<and> reuseQuote px input session existing action h now newId db = Inr (snapshot, db')"
    then have "tariff db' = tariff db"
      by (auto simp: reuseQuote_def untouched_def tariff_def split: if_splits dest!: pricing_parts_untouched)
    then show thesis by (rule same)
  next
    assume "issueQuote px input session row breakdown action h now newId db = Inr (snapshot, db')"
    then show thesis
    proof (rule issueQuote_Inr)
      fix x db1 db2 db3
      assume 1: "invalidateSessionPricing (se_id session) SUPERSEDED now (se_eventSequence session) (newId 0) False db = Inr (x, db1)"
        and 2: "insertQuote (newQuote px session row breakdown (newId 1) now) db1 = Inr db2"
        and 3: "point_session (se_id session) (\<lambda>s. s\<lparr>se_activeQuoteId := Some (newId 1), se_eventSequence := fst x + 1\<rparr>) db2 = Inr db3"
        and 4: "same_books db3 db'" "db_settings db' = db_settings db3" "db_ruleSets db' = db_ruleSets db3"
      have "tariff db' = tariff db2" using 4 pricing_parts_untouched(2) [OF 3] by (simp add: untouched_def tariff_def same_books_def)
      with 2 invalidate_untouched [OF 1]
      have t: "tariff db' = (db_settings db, db_ruleSets db, map priced (db_quotes db) @ [priced (newQuote px session row breakdown (newId 1) now)])"
        by (auto simp: untouched_def tariff_def insertQuote_def split: if_splits)
      obtain r where "r \<in> set (db_ruleSets db)" "ruleSet = ru_set r"
        using rs by (auto simp: loadPublishedRuleSet_def split: option.splits dest!: newest_mem)
      with row c have "well_priced (db_settings db) (db_ruleSets db) (priced (newQuote px session row breakdown (newId 1) now))"
        by (auto simp: priced_def newQuote_def)
      with t show thesis by (rule issued)
    qed
  qed
qed

lemma createQuote_tariff:
  assumes "createQuote px input attempts db = Inr (snapshot, db')"
  obtains (same) "tariff db' = tariff db"
  | (issued) p where "tariff db' = (db_settings db, db_ruleSets db, map priced (db_quotes db) @ [p])"
      "well_priced (db_settings db) (db_ruleSets db) p"
proof -
  obtain a where "createQuoteOnce px input a db = Inr (snapshot, db')"
    using assms unfolding createQuote_def by (auto dest: retried_Inr)
  then show ?thesis
  proof (cases rule: createOnce_Inr)
    case replayed
    then show ?thesis by (intro same) (simp add: tariff_def same_books_def)
  next
    case (fresh db1 session action h)
    have t: "tariff db1 = tariff db" using fresh(1-3) by (simp add: tariff_def same_books_def)
    from fresh(7) show ?thesis
      by (rule quoteFresh_adds) (use t in \<open>auto intro: same issued simp: tariff_def\<close>)
  qed
qed

text \<open>Neither writes the inbox.\<close>

lemma committed_inbox: "(\<And>x db'. r = Inr (x, db') \<Longrightarrow> db_inbox db' = db_inbox db) \<Longrightarrow> db_inbox (committed db r) = db_inbox db"
  by (cases r) (auto simp: committed_def split: prod.splits)

lemma untouched_inbox: "untouched db' = untouched db \<Longrightarrow> db_inbox db' = db_inbox db"
  by (simp add: untouched_def)

lemma saveRevision_inbox: "saveRevision px input session ns action h now newId db = Inr (body, db') \<Longrightarrow> db_inbox db' = db_inbox db"
  by (auto simp: saveRevision_def insertRevision_def Let_def split: if_splits sum.splits
      dest!: pricing_parts_untouched(1) invalidate_untouched untouched_inbox)

lemma updateSettings_inbox: "updateSettings px input attempts db = Inr (body, db') \<Longrightarrow> db_inbox db' = db_inbox db"
  by (auto simp: updateSettings_def updateSettingsOnce_def updateFresh_def Let_def split: if_splits option.splits prod.splits sum.splits
      dest!: retried_Inr saveRevision_inbox find_replay_untouched untouched_inbox)

lemma quote_parts_inbox:
  "reuseQuote px input session existing action h now newId db = Inr (snapshot, db') \<Longrightarrow> db_inbox db' = db_inbox db"
  "issueQuote px input session row breakdown action h now newId db = Inr (snapshot, db') \<Longrightarrow> db_inbox db' = db_inbox db"
  by (auto simp: reuseQuote_def issueQuote_def insertQuote_def Let_def split: if_splits
      dest!: pricing_parts_untouched invalidate_untouched untouched_inbox)

lemma quoteFresh_inbox: "quoteFresh px input session action h now newId db = Inr (snapshot, db') \<Longrightarrow> db_inbox db' = db_inbox db"
  by (erule quoteFresh_Inr) (auto dest: quote_parts_inbox)

lemma createQuote_inbox: "createQuote px input attempts db = Inr (snapshot, db') \<Longrightarrow> db_inbox db' = db_inbox db"
  by (auto simp: createQuote_def createQuoteOnce_def Let_def split: if_splits option.splits prod.splits sum.splits
      dest!: retried_Inr quoteFresh_inbox find_replay_untouched untouched_inbox)

lemma event_grows:
  assumes "\<And>i a. e \<noteq> EvSettings i a" and "\<And>i a. e \<noteq> EvQuote i a"
  shows "inbox_grows db (moneyStep cfg e db)"
proof (cases "\<exists>v r t i. e = EvWebhook v r t i")
  case True
  then show ?thesis by (auto simp: handleWebhook_grows)
next
  case False
  have "untouched (moneyStep cfg e db) = untouched db"
    by (cases e) (use assms False in \<open>auto simp: controlStep_untouched recordUnsettled_untouched intro!: committed_untouched
      dest!: createPayment_untouched confirmPayment_untouched timeOut_untouched cancelSession_untouched createSession_untouched\<close>)
  then show ?thesis by (rule untouched_grows)
qed

lemma prices_step:
  assumes inv: "prices_inv (mc_pricing cfg) db"
  shows "prices_inv (mc_pricing cfg) (moneyStep cfg e db)"
proof (cases "\<exists>input attempts body db'. e = EvSettings input attempts \<and> updateSettings (mc_pricing cfg) input attempts db = Inr (body, db') \<or>
    (\<exists>input snapshot. e = EvQuote input attempts \<and> createQuote (mc_pricing cfg) input attempts db = Inr (snapshot, db'))")
  case False
  have "tariff (moneyStep cfg e db) = tariff db"
  proof (cases "(\<exists>i a. e = EvSettings i a) \<or> (\<exists>i a. e = EvQuote i a)")
    case True
    with False show ?thesis by (auto simp: committed_def split: sum.splits prod.splits)
  qed (use event_grows in \<open>simp add: inbox_grows_def\<close>)
  then show ?thesis using prices_tariff inv by blast
next
  case True
  then consider (settings) input attempts body db' where "e = EvSettings input attempts"
      "updateSettings (mc_pricing cfg) input attempts db = Inr (body, db')"
    | (quote) input attempts snapshot db' where "e = EvQuote input attempts"
      "createQuote (mc_pricing cfg) input attempts db = Inr (snapshot, db')" by blast
  then show ?thesis
  proof cases
    case settings
    have "prices_inv (mc_pricing cfg) db'"
      using settings(2)
    proof (cases rule: updateSettings_tariff)
      case same
      then show ?thesis using prices_tariff inv by blast
    next
      case (saved row)
      then have t: "db_settings db' = db_settings db @ [row]" "db_ruleSets db' = db_ruleSets db"
          "map priced (db_quotes db') = map priced (db_quotes db)" by (simp_all add: tariff_def)
      have "well_priced (db_settings db') (db_ruleSets db') p" if "p \<in> set (map priced (db_quotes db))" for p
        using inv that well_priced_mono [of "db_settings db" "db_ruleSets db" p "db_settings db'"] t
        unfolding prices_inv_def by auto
      with inv saved(2,3) t show ?thesis unfolding prices_inv_def by auto
    qed
    with settings show ?thesis by (simp add: committed_def)
  next
    case quote
    have "prices_inv (mc_pricing cfg) db'"
      using quote(2)
    proof (cases rule: createQuote_tariff)
      case same
      then show ?thesis using prices_tariff inv by blast
    next
      case (issued p)
      then have t: "db_settings db' = db_settings db" "db_ruleSets db' = db_ruleSets db"
          "map priced (db_quotes db') = map priced (db_quotes db) @ [p]" by (simp_all add: tariff_def)
      with inv issued(2) show ?thesis unfolding prices_inv_def t by (auto simp del: set_map)
    qed
    with quote show ?thesis by (simp add: committed_def)
  qed
qed

interpretation prices: stepping "guardedMoney cfg" "prices_inv (mc_pricing cfg)" for cfg
  by unfold_locales (simp add: guardedMoney_def prices_step)

lemma moneyRun_prices: "prices_inv (mc_pricing cfg) db \<Longrightarrow> prices_inv (mc_pricing cfg) (moneyRun cfg es db)"
  unfolding moneyRun_def by (rule prices.run_inv)

text \<open>A callback that was taken stays in the inbox.\<close>

definition inbox_kept :: "kiosk_db \<Rightarrow> kiosk_db \<Rightarrow> bool" where
  "inbox_kept db db' \<longleftrightarrow> (\<exists>ws. db_inbox db' = db_inbox db @ ws)"

lemma step_inbox: "inbox_kept db (guardedMoney cfg e db)"
proof -
  have "inbox_kept db (moneyStep cfg e db)"
  proof (cases "(\<exists>i a. e = EvSettings i a) \<or> (\<exists>i a. e = EvQuote i a)")
    case True
    have "db_inbox (moneyStep cfg e db) = db_inbox db"
      using True by (auto intro!: committed_inbox dest: updateSettings_inbox createQuote_inbox)
    then show ?thesis by (simp add: inbox_kept_def)
  next
    case False
    then show ?thesis using event_grows [of e db cfg] by (simp add: inbox_kept_def inbox_grows_def)
  qed
  then show ?thesis by (simp add: guardedMoney_def inbox_kept_def)
qed

interpretation inbox: monotone_stepping "guardedMoney cfg" "\<lambda>_. True" inbox_kept for cfg
  by unfold_locales (auto simp: inbox_kept_def step_inbox [unfolded inbox_kept_def])

lemma moneyRun_inbox: "inbox_kept db (moneyRun cfg es db)"
  unfolding moneyRun_def by (rule inbox.run_le) (rule TrueI)

end
