(* ===== verification/Money_Properties.thy ===== *)
theory Money_Properties
  imports Pricing_Inv
begin

text \<open>
  What the invariant of the money means for the customer: captured money is printed for or owed
  back, a session is paid once, a callback counts once, a payment window is bounded, and what the
  reconciler gives up on ends.
\<close>

section \<open>Counting\<close>

lemma filter_one:
  assumes "distinct xs" and "\<And>x y. x \<in> set xs \<Longrightarrow> y \<in> set xs \<Longrightarrow> P x \<Longrightarrow> P y \<Longrightarrow> x = y"
  shows "length (filter P xs) = (if \<exists>x \<in> set xs. P x then 1 else 0)"
proof -
  have "filter P xs = [x]" if "x \<in> set xs" "P x" for x
    using assms that
  proof (induction xs)
    case (Cons a xs)
    show ?case
    proof (cases "P a")
      case True
      then have "a = x" using Cons.prems by auto
      moreover have "\<not> P y" if "y \<in> set xs" for y
        using Cons.prems(1,2) True that by (metis distinct.simps(2) list.set_intros)
      ultimately show ?thesis using True by (simp add: filter_empty_conv)
    next
      case False
      then show ?thesis using Cons by auto
    qed
  qed simp
  moreover have "filter P xs = []" if "\<not> (\<exists>x \<in> set xs. P x)" using that by (simp add: filter_empty_conv)
  ultimately show ?thesis by auto
qed

lemma payments_distinct: "money_inv db \<Longrightarrow> distinct (db_payments db)"
  using money_invD(2) distinct_map by blast

lemma applied_count:
  assumes inv: "money_inv db" and s: "s \<in> set (db_sessions db)"
  shows "length (filter (\<lambda>p. py_sessionId p = se_id s \<and> py_appliedToSession p) (db_payments db)) =
    (if se_state s \<in> paid_states then 1 else 0)"
proof -
  have "(\<exists>p \<in> set (db_payments db). py_sessionId p = se_id s \<and> py_appliedToSession p) \<longleftrightarrow> se_state s \<in> paid_states"
  proof
    assume "\<exists>p \<in> set (db_payments db). py_sessionId p = se_id s \<and> py_appliedToSession p"
    then obtain p where p: "p \<in> set (db_payments db)" "py_sessionId p = se_id s" "py_appliedToSession p" by blast
    then obtain t where t: "t \<in> set (db_sessions db)" "se_id t = se_id s" "se_state t \<in> paid_states"
      using money_invD(4) [OF inv p(1,3)] by auto
    with key_unique [OF money_invD(1) [OF inv] t(1) s] show "se_state s \<in> paid_states" by simp
  qed (rule money_invD(5) [OF inv s])
  moreover have "length (filter (\<lambda>p. py_sessionId p = se_id s \<and> py_appliedToSession p) (db_payments db)) =
      (if \<exists>p \<in> set (db_payments db). py_sessionId p = se_id s \<and> py_appliedToSession p then 1 else 0)"
    by (rule filter_one [OF payments_distinct [OF inv]]) (rule money_invD(6) [OF inv]; simp)
  ultimately show ?thesis by simp
qed

lemma open_count:
  assumes inv: "money_inv db" and s: "s \<in> set (db_sessions db)"
  shows "length (filter (\<lambda>p. py_sessionId p = se_id s \<and> payment_open p) (db_payments db)) \<le> 1"
    and "se_state s = S_AWAITING_PAYMENT \<Longrightarrow>
      length (filter (\<lambda>p. py_sessionId p = se_id s \<and> payment_open p) (db_payments db)) = 1"
proof -
  have n: "length (filter (\<lambda>p. py_sessionId p = se_id s \<and> payment_open p) (db_payments db)) =
      (if \<exists>p \<in> set (db_payments db). py_sessionId p = se_id s \<and> payment_open p then 1 else 0)"
    by (rule filter_one [OF payments_distinct [OF inv]]) (rule money_invD(7) [OF inv]; simp)
  show "length (filter (\<lambda>p. py_sessionId p = se_id s \<and> payment_open p) (db_payments db)) \<le> 1" unfolding n by simp
  assume "se_state s = S_AWAITING_PAYMENT"
  with money_invD(8) [OF inv s] show "length (filter (\<lambda>p. py_sessionId p = se_id s \<and> payment_open p) (db_payments db)) = 1"
    unfolding n by simp
qed

section \<open>A callback is recorded once\<close>

lemma recordWebhook_recorded: "recordWebhook pv event i res now n db = Inr db' \<Longrightarrow> webhookWasRecorded pv event db'"
  by (auto simp: recordWebhook_def webhookWasRecorded_def split: if_splits)

lemma recorded_cong: "db_inbox db' = db_inbox db \<Longrightarrow> webhookWasRecorded pv event db' = webhookWasRecorded pv event db"
  by (simp add: webhookWasRecorded_def)

lemma inbox_frames [simp]:
  "db_inbox (recordPaymentAudit p a outcome r now i m db) = db_inbox db"
  "db_inbox (captureAttempt p st e f now i db) = db_inbox db"
  "db_inbox (recordCompensation p reason amount now i db) = db_inbox db"
  by (simp_all add: recordPaymentAudit_def captureAttempt_def recordAttempt_def recordCompensation_def)

lemma releaseAfter_inbox: "releaseAfterCompensatedCapture p session failure i db = Inr db' \<Longrightarrow> db_inbox db' = db_inbox db"
  by (auto simp: releaseAfterCompensatedCapture_def moveSession_def Let_def split: if_splits sum.splits)

lemma reduce_recorded:
  assumes "reduceWebhookEvent pv event requestId now newId db = Inr db'"
  shows "webhookWasRecorded pv event db'"
proof (cases "webhookWasRecorded pv event db")
  case True
  with assms show ?thesis by (simp add: reduceWebhookEvent_def webhookWasRecorded_def)
next
  case False
  have late: "webhookWasRecorded pv event d'" if "lateCapture pv p session event requestId now newId d = Inr d'" for p session d d'
    using that unfolding lateCapture_def Let_def
    by (auto dest!: recordWebhook_recorded releaseAfter_inbox simp: recorded_cong [OF inbox_frames(1)] simp del: recordCompensation_frame
        cong: recorded_cong)
  have effective: "webhookWasRecorded pv event d'" if "effectiveCapture pv p session event requestId now newId d = Inr d'" for p session d d'
    using that unfolding effectiveCapture_def Let_def
    by (auto dest!: recordWebhook_recorded simp: recorded_cong [OF inbox_frames(1)] split: if_splits)
  have failure: "webhookWasRecorded pv event d'" if "applyFailure pv p event requestId now newId d = Inr d'" for p d d'
    using that unfolding applyFailure_def Let_def
    by (auto dest!: recordWebhook_recorded simp: recorded_cong [OF inbox_frames(1)] split: if_splits option.splits)
  show ?thesis
    using assms False late effective failure unfolding reduceWebhookEvent_def applyCapture_def webhookWasRecorded_def [symmetric]
    by (auto dest!: recordWebhook_recorded simp: recorded_cong [OF inbox_frames(1)] split: if_splits option.splits)
qed

section \<open>What the reconciler gives up on\<close>

text \<open>A payment that ended unpaid, its session free again.\<close>

definition given_up :: "string \<Rightarrow> kiosk_db \<Rightarrow> bool" where
  "given_up i db \<longleftrightarrow>
     (\<exists>p \<in> set (db_payments db). py_id p = i \<and> py_status p = PS_TIMED_OUT \<and> no_longer_awaiting (py_sessionId p) db)"

lemma timeOut_payments:
  assumes inv: "money_inv db" and run: "timeOut i now newId db = Inr (did, db')"
  shows "db_payments db' = db_payments db \<or>
    db_payments db' = updated (\<lambda>q. py_id q = i) (failure_row PS_TIMED_OUT ''PROVIDER_TIMEOUT'' now) (db_payments db)"
proof (cases "List.find (\<lambda>p. py_id p = i) (db_payments db)")
  case None
  with run show ?thesis by (simp add: timeOut_def)
next
  case (Some p)
  then have p: "p \<in> set (db_payments db)" "py_id p = i" by (auto dest: find_Some_set)
  show ?thesis
    using run payment_guard [OF money_invD(2) [OF inv] p(1)] Some p(2)
    unfolding timeOut_def Let_def failure_row_fun [symmetric]
    by (auto simp: moveSession_def Let_def recordAttempt_def split: option.splits if_splits sum.splits)
qed

lemma timeOut_gives_up:
  assumes inv: "money_inv db" and p: "p \<in> set (db_payments db)" "payment_open p" "py_expiresAt p \<le> now"
    and known: "py_sessionId p \<in> se_id ` set (db_sessions db)"
  shows "\<exists>db'. timeOut (py_id p) now newId db = Inr (True, db') \<and> given_up (py_id p) db'"
proof -
  note u = money_invD(2) [OF inv] and ids = money_invD(1) [OF inv]
  note guard = payment_guard [OF u p(1)]
  obtain session where s: "session \<in> set (db_sessions db)" "se_id session = py_sessionId p" using known by auto
  define d where "d = recordAttempt ((attempt_row_of (newId 0) (py_id p) ''RECONCILE'' PS_TIMED_OUT now)
      \<lparr>at_providerReference := Some (py_providerIntentId p), at_failureCode := Some ''PROVIDER_TIMEOUT''\<rparr>)
    (db\<lparr>db_payments := updated (\<lambda>q. py_id q = py_id p) (failure_row PS_TIMED_OUT ''PROVIDER_TIMEOUT'' now) (db_payments db)\<rparr>)"
  have row: "failure_row PS_TIMED_OUT ''PROVIDER_TIMEOUT'' now p \<in> set (db_payments d)"
    using p(1) by (auto simp: d_def set_updated)
  have keep: "py_id (failure_row PS_TIMED_OUT ''PROVIDER_TIMEOUT'' now p) = py_id p"
    "py_sessionId (failure_row PS_TIMED_OUT ''PROVIDER_TIMEOUT'' now p) = py_sessionId p"
    by (simp_all add: failure_row_def)
  have fd: "List.find (\<lambda>s. se_id s = py_sessionId p) (db_sessions d) = Some session"
    using find_key_unique [OF ids s(1)] s(2) by (simp add: d_def)
  have start: "timeOut (py_id p) now newId db = (if se_state session \<noteq> S_AWAITING_PAYMENT
      then Inr (True, d\<lparr>db_audit := db_audit d @ [\<lparr>au_id = newId 2, au_occurredAt = now, au_actorType = ''SYSTEM'',
            au_actorId = ''payment-reconciler'', au_kioskId = None, au_sessionId = py_sessionId p, au_action = ''payment.timed_out'',
            au_outcome = ''SUCCESS'', au_requestId = None, au_metadata = JObj [(''paymentId'', JStr (py_id p)),
              (''previousStatus'', JStr (payment_status_name (py_status p)))]\<rparr>]\<rparr>)
      else bind_result (moveSession session S_CONFIGURING d) (\<lambda>(released, after, nextSequence, db3).
             if \<not> released then Inr (False, db3)
             else Inr (True, db3\<lparr>db_outbox := db_outbox db3 @
                 [payment_failed_event (newId 1) session p after nextSequence PS_TIMED_OUT ''PROVIDER_TIMEOUT''],
               db_audit := db_audit db3 @ [\<lparr>au_id = newId 2, au_occurredAt = now, au_actorType = ''SYSTEM'',
            au_actorId = ''payment-reconciler'', au_kioskId = None, au_sessionId = py_sessionId p, au_action = ''payment.timed_out'',
            au_outcome = ''SUCCESS'', au_requestId = None, au_metadata = JObj [(''paymentId'', JStr (py_id p)),
              (''previousStatus'', JStr (payment_status_name (py_status p)))]\<rparr>]\<rparr>)))"
    using find_key_unique [OF u p(1)] p(2,3) guard fd
    unfolding timeOut_def Let_def failure_row_fun [symmetric] d_def by (simp cong: if_cong)
  have sd: "session \<in> set (db_sessions d)" and idd: "distinct (map se_id (db_sessions d))"
    using s(1) ids by (simp_all add: d_def)
  show ?thesis
  proof (cases "se_state session = S_AWAITING_PAYMENT")
    case True
    have "transitionSession \<lparr>vs_state = se_state session, vs_version = se_stateVersion session\<rparr> S_CONFIGURING (se_stateVersion session) =
        Inr \<lparr>vs_state = S_CONFIGURING, vs_version = se_stateVersion session + 1\<rparr>"
      by (simp add: True transitionSession_def canTransitionSession_def)
    then obtain ok after n db3 where mv: "moveSession session S_CONFIGURING d = Inr (ok, after, n, db3)"
      by (simp add: moveSession_def Let_def)
    have rel: "ok" "let_go session d db3" using moveSession_let_go [OF idd sd True mv] by simp_all
    then have "given_up (py_id p) db'" if "db_payments db' = db_payments db3" "db_sessions db' = db_sessions db3" for db'
      using row keep s(2) that unfolding given_up_def let_go_def no_longer_awaiting_def
      by (intro bexI [of _ "failure_row PS_TIMED_OUT ''PROVIDER_TIMEOUT'' now p"]) simp_all
    then show ?thesis using start True mv rel(1) by simp
  next
    case False
    then have "no_longer_awaiting (py_sessionId p) d"
      using s(2) key_unique [OF idd _ sd] unfolding no_longer_awaiting_def by metis
    then have "given_up (py_id p) (d\<lparr>db_audit := as\<rparr>)" for as
      using row keep unfolding given_up_def no_longer_awaiting_def
      by (intro bexI [of _ "failure_row PS_TIMED_OUT ''PROVIDER_TIMEOUT'' now p"]) simp_all
    then show ?thesis using start False by simp
  qed
qed

text \<open>What the pass does to one payment leaves the others alone and brings no session back to waiting.\<close>

definition pass_keeps :: "string \<Rightarrow> kiosk_db \<Rightarrow> kiosk_db \<Rightarrow> bool" where
  "pass_keeps i db db' \<longleftrightarrow> money_inv db' \<and> se_id ` set (db_sessions db) \<subseteq> se_id ` set (db_sessions db') \<and>
     (\<forall>p \<in> set (db_payments db). py_id p = i \<longrightarrow> p \<in> set (db_payments db')) \<and> (given_up i db \<longrightarrow> given_up i db')"

lemma sessions_never_start_waiting:
  assumes "sessions_follow (db_sessions db) (db_sessions db')" and "no_longer_awaiting sid db"
  shows "no_longer_awaiting sid db'"
  unfolding no_longer_awaiting_def
proof (intro ballI impI)
  fix s assume s: "s \<in> set (db_sessions db')" "se_id s = sid"
  show "se_state s \<noteq> S_AWAITING_PAYMENT"
    using follow_back [OF assms(1) s(1)] s(2) assms(2) by (auto simp: quiet_row_def no_longer_awaiting_def)
qed

lemma timeOut_follow:
  assumes inv: "money_inv db" and run: "timeOut i now newId db = Inr (did, db')"
  shows "sessions_follow (db_sessions db) (db_sessions db')"
proof -
  have "ledger_step Z db db'" using timeOut_step [OF inv run] by simp
  then show ?thesis
  proof cases
    case (opened p)
    then have "length (db_payments db') = Suc (length (db_payments db))" by simp
    with timeOut_payments [OF inv run] show ?thesis by auto
  next
    case (applied p f)
    have u: "distinct (map py_id (db_payments db'))"
      using money_invD(2) ledger_step_inv timeOut_step [OF inv run] inv by blast
    have "f p \<in> set (db_payments db')" using applied by (auto simp: set_updated)
    with timeOut_payments [OF inv run] have "f p \<in> set (db_payments db) \<or> py_status (f p) = PS_TIMED_OUT"
      by (auto simp: set_updated)
    then have "f p \<in> set (db_payments db)" using applied(5) by auto
    then have "f p = p"
      using key_unique [OF money_invD(2) [OF inv] _ applied(2)] payment_evolves_keeps(1) [OF applied(3)] by blast
    with applied(4,5) open_not_captured show ?thesis by auto
  qed
qed

lemma timeOut_pass_keeps:
  assumes inv: "money_inv db" and run: "timeOut i now newId db = Inr (did, db')" and other: "j \<noteq> i"
  shows "pass_keeps j db db'"
proof -
  have keep: "py_id (failure_row st c now p) = py_id p" for st c p by (simp add: failure_row_def)
  note follow = timeOut_follow [OF inv run] and pays = timeOut_payments [OF inv run]
  have rows: "p \<in> set (db_payments db')" if "p \<in> set (db_payments db)" "py_id p = j" for p
    using pays that other by (auto simp: set_updated)
  have "se_id ` set (db_sessions db) \<subseteq> se_id ` set (db_sessions db')"
  proof
    fix sid assume "sid \<in> se_id ` set (db_sessions db)"
    then obtain s where "s \<in> set (db_sessions db)" "se_id s = sid" by blast
    with follow_forth [OF follow] obtain s' where "s' \<in> set (db_sessions db')" "se_id s' = sid"
      unfolding quiet_row_def by metis
    then show "sid \<in> se_id ` set (db_sessions db')" by blast
  qed
  moreover have "given_up j db \<longrightarrow> given_up j db'"
    using rows sessions_never_start_waiting [OF follow] unfolding given_up_def by blast
  ultimately show ?thesis
    using rows ledger_step_inv timeOut_step [OF inv run] inv unfolding pass_keeps_def by blast
qed

lemma unsettled_pass_keeps:
  assumes inv: "money_inv db"
  shows "pass_keeps j db (recordUnsettled i now n db)"
proof -
  have "money_inv (recordUnsettled i now n db)"
    using ledger_step_inv recordUnsettled_step inv by blast
  moreover have "db_payments (recordUnsettled i now n db) = db_payments db" "db_sessions (recordUnsettled i now n db) = db_sessions db"
    by (simp_all add: recordUnsettled_def split: option.split)
  ultimately show ?thesis by (simp add: pass_keeps_def given_up_def no_longer_awaiting_def)
qed

lemma pass_keeps_refl: "money_inv db \<Longrightarrow> pass_keeps j db db"
  by (simp add: pass_keeps_def)

lemma pass_keeps_trans: "pass_keeps j a b \<Longrightarrow> pass_keeps j b c \<Longrightarrow> pass_keeps j a c"
  unfolding pass_keeps_def by (elim conjE, intro conjI) (assumption | simp | rule subset_trans, assumption+)+

lemma reconcileLoop_keeps:
  "money_inv db \<Longrightarrow> j \<notin> py_id ` set candidates \<Longrightarrow>
    pass_keeps j db (snd (reconcileLoop getStatus clock newIds candidates n db))"
proof (induction candidates arbitrary: n db)
  case Nil
  then show ?case by (simp add: pass_keeps_refl)
next
  case (Cons c rest)
  then have other: "j \<noteq> py_id c" and rest: "j \<notin> py_id ` set rest" by auto
  show ?case
  proof (cases "getStatus (py_providerIntentId c)")
    case (Inl e)
    with Cons rest show ?thesis by simp
  next
    case (Inr status)
    show ?thesis
    proof (cases "status \<in> {IN_CAPTURED, IN_AUTHORIZED}")
      case True
      have k: "pass_keeps j db (recordUnsettled (py_id c) (clock (py_id c)) (newIds (py_id c) 0) db)"
        by (rule unsettled_pass_keeps [OF Cons.prems(1)])
      then have "money_inv (recordUnsettled (py_id c) (clock (py_id c)) (newIds (py_id c) 0) db)" by (simp add: pass_keeps_def)
      from pass_keeps_trans [OF k Cons.IH [OF this rest]] show ?thesis using Inr True by simp
    next
      case other_status: False
      show ?thesis
      proof (cases "timeOut (py_id c) (clock (py_id c)) (newIds (py_id c)) db")
        case (Inl e)
        with Cons.IH [OF Cons.prems(1) rest] Inr other_status show ?thesis by simp
      next
        case (Inr out)
        obtain did db1 where out: "out = (did, db1)" by fastforce
        have k: "pass_keeps j db db1" by (rule timeOut_pass_keeps [OF Cons.prems(1) Inr [unfolded out] other])
        then have "money_inv db1" by (simp add: pass_keeps_def)
        from pass_keeps_trans [OF k Cons.IH [OF this rest]] show ?thesis
          using \<open>getStatus (py_providerIntentId c) = Inr status\<close> other_status Inr out by simp
      qed
    qed
  qed
qed

lemma reconcileLoop_append:
  "reconcileLoop getStatus clock newIds (xs @ ys) n db =
    (case reconcileLoop getStatus clock newIds xs n db of (m, db1) \<Rightarrow> reconcileLoop getStatus clock newIds ys m db1)"
  by (induction xs arbitrary: n db) (auto split: sum.split)

lemma reconcileLoop_gives_up:
  assumes inv: "money_inv db" and p: "p \<in> set (db_payments db)" "payment_open p" "py_expiresAt p \<le> clock (py_id p)"
    and known: "py_sessionId p \<in> se_id ` set (db_sessions db)"
    and batch: "distinct (map py_id candidates)" "p \<in> set candidates"
    and answer: "getStatus (py_providerIntentId p) = Inr status" "status \<notin> {IN_CAPTURED, IN_AUTHORIZED}"
  shows "given_up (py_id p) (snd (reconcileLoop getStatus clock newIds candidates n db))"
proof -
  obtain before after where cs: "candidates = before @ p # after" using split_list [OF batch(2)] by blast
  with batch(1) have notin: "py_id p \<notin> py_id ` set before" "py_id p \<notin> py_id ` set after" by auto
  obtain m db1 where first: "reconcileLoop getStatus clock newIds before n db = (m, db1)" by fastforce
  have k: "pass_keeps (py_id p) db db1"
    using reconcileLoop_keeps [OF inv notin(1), of getStatus clock newIds n] by (simp add: first)
  then have inv1: "money_inv db1" and p1: "p \<in> set (db_payments db1)" and known1: "py_sessionId p \<in> se_id ` set (db_sessions db1)"
    using p(1) known unfolding pass_keeps_def by blast+
  obtain db2 where run: "timeOut (py_id p) (clock (py_id p)) (newIds (py_id p)) db1 = Inr (True, db2)" and done2: "given_up (py_id p) db2"
    using timeOut_gives_up [OF inv1 p1 p(2,3) known1] by blast
  have inv2: "money_inv db2" using ledger_step_inv timeOut_step [OF inv1 run] inv1 by blast
  have "given_up (py_id p) (snd (reconcileLoop getStatus clock newIds after (m + 1) db2))"
    using reconcileLoop_keeps [OF inv2 notin(2)] done2 unfolding pass_keeps_def by blast
  then show ?thesis using answer by (simp add: cs reconcileLoop_append first run)
qed

lemma reconcileLoop_leaves:
  assumes inv: "money_inv db" and p: "p \<in> set (db_payments db)"
    and batch: "distinct (map py_id candidates)" "p \<in> set candidates"
    and answer: "getStatus (py_providerIntentId p) = Inr status" "status \<in> {IN_CAPTURED, IN_AUTHORIZED}"
  shows "p \<in> set (db_payments (snd (reconcileLoop getStatus clock newIds candidates n db)))"
proof -
  obtain before after where cs: "candidates = before @ p # after" using split_list [OF batch(2)] by blast
  with batch(1) have notin: "py_id p \<notin> py_id ` set before" "py_id p \<notin> py_id ` set after" by auto
  obtain m db1 where first: "reconcileLoop getStatus clock newIds before n db = (m, db1)" by fastforce
  have k: "pass_keeps (py_id p) db db1"
    using reconcileLoop_keeps [OF inv notin(1), of getStatus clock newIds n] by (simp add: first)
  define db2 where "db2 = recordUnsettled (py_id p) (clock (py_id p)) (newIds (py_id p) 0) db1"
  have k2: "pass_keeps (py_id p) db db2"
    using pass_keeps_trans [OF k unsettled_pass_keeps] k unfolding db2_def by (simp add: pass_keeps_def)
  then have "pass_keeps (py_id p) db (snd (reconcileLoop getStatus clock newIds after m db2))"
    using pass_keeps_trans [OF k2 reconcileLoop_keeps [OF _ notin(2)]] by (simp add: pass_keeps_def)
  then have "p \<in> set (db_payments (snd (reconcileLoop getStatus clock newIds after m db2)))"
    using p unfolding pass_keeps_def by blast
  then show ?thesis using answer by (auto simp: cs reconcileLoop_append first db2_def)
qed

lemma overdue_distinct: "distinct (map py_id (db_payments db)) \<Longrightarrow> distinct (map py_id (overduePayments now db))"
proof -
  assume u: "distinct (map py_id (db_payments db))"
  let ?rows = "filter (\<lambda>p. payment_open p \<and> py_expiresAt p \<le> now) (db_payments db)"
  have "mset (map py_id (sort_key py_expiresAt ?rows)) = mset (map py_id ?rows)" by (simp only: mset_map mset_sort)
  moreover have "distinct (map py_id ?rows)" using u by (rule distinct_map_filter)
  ultimately have "distinct (map py_id (sort_key py_expiresAt ?rows))" by (metis mset_eq_imp_distinct_iff)
  then show "distinct (map py_id (overduePayments now db))" unfolding overduePayments_def take_map [symmetric] by (rule distinct_take)
qed

lemma overdue_found: "p \<in> set (overduePayments now db) \<Longrightarrow> p \<in> set (db_payments db) \<and> payment_open p \<and> py_expiresAt p \<le> now"
  unfolding overduePayments_def by (auto dest: in_set_takeD)

section \<open>A small kiosk with money\<close>

definition sample_payments :: payment_service where
  "sample_payments =
     \<lparr>pv_provider = ''mock'', pv_hashRequest = (\<lambda>fields. concat (map snd fields)), pv_digestIdempotencyKey = (\<lambda>a b k. k),
      pv_idempotencyTtlHours = 24, pv_paymentTimeoutSeconds = 120, pv_printerReadiness = None\<rparr>"

definition sample_sessions :: session_service where
  "sample_sessions =
     \<lparr>sx_uuid = (\<lambda>_. True), sx_datetime = (\<lambda>_. True), sx_url = (\<lambda>_. True), sx_deriveSecret = (\<lambda>a b c. replicate 8 7),
      sx_digestUploadValue = (\<lambda>v. replicate 64 (CHR ''a'')), sx_hashRequest = (\<lambda>fields. concat (map snd fields)),
      sx_digestIdempotencyKey = (\<lambda>a b k. k), sx_publicUploadOrigin = ''https://u'', sx_idleTtlMinutes = 10,
      sx_hardTtlMinutes = 60, sx_idempotencyTtlHours = 24, sx_retentionPolicy = DEFAULT_RETENTION_POLICY,
      sx_printerReadiness = None\<rparr>"

definition sample_pricing :: pricing_service where
  "sample_pricing =
     \<lparr>px_uuid = (\<lambda>_. True), px_datetime = (\<lambda>_. True), px_sha256 = (\<lambda>_. ''hash''),
      px_hashRequest = (\<lambda>fields. concat (map snd fields)), px_digestIdempotencyKey = (\<lambda>a b k. k), px_idempotencyTtlHours = 24,
      px_quoteTtlSeconds = 600, px_limits = \<lparr>pl_maxCopies = 20, pl_maxSelectedPages = 500, pl_maxPrintedSides = 500\<rparr>\<rparr>"

definition sample_money :: money_config where
  "sample_money = \<lparr>mc_control = sample_config, mc_payments = sample_payments, mc_sessionService = sample_sessions,
     mc_pricing = sample_pricing\<rparr>"

definition priced_db :: kiosk_db where
  "priced_db = paid_db
     \<lparr>db_payments := [],
      db_sessions := map (\<lambda>s. s\<lparr>se_state := S_CONFIGURING\<rparr>) (db_sessions paid_db),
      db_quotes := [\<lparr>qr_id = ''q'', qr_sessionId = ''s'', qr_settingsRevision = 1, qr_manifestHash = replicate 64 (CHR ''b''),
        qr_status = Q_ACTIVE, qr_breakdown = sample_quote, qr_expiresAt = 600000, qr_createdAt = 0, qr_invalidatedAt = None,
        qr_invalidationReason = None\<rparr>]\<rparr>"

definition pay_input :: "string \<Rightarrow> create_payment_input" where
  "pay_input intent =
     \<lparr>cy_kioskId = ''k'', cy_credentialId = ''c'', cy_sessionId = ''s'', cy_quoteId = ''q'', cy_idempotencyKey = ''key'' @ intent,
      cy_requestId = ''r''\<rparr>"

definition pay_event :: "string \<Rightarrow> db_time \<Rightarrow> money_event" where
  "pay_event intent now = EvPay (pay_input intent) (\<lambda>_ _. Inr (intent, IN_PENDING)) now (ids_from intent)"

definition capture_of :: "string \<Rightarrow> string \<Rightarrow> provider_webhook_event" where
  "capture_of eid intent =
     \<lparr>we_providerEventId = eid, we_providerIntentId = intent, we_type = PAYMENT_CAPTURED,
      we_amount = \<lparr>mo_amountMinor = 11716, mo_currency = js_trim (qb_currency sample_quote),
        mo_currencyExponent = qb_currencyExponent sample_quote\<rparr>,
      we_failureCode = None, we_payloadDigest = ''d''\<rparr>"

definition capture_event :: "string \<Rightarrow> string \<Rightarrow> db_time \<Rightarrow> money_event" where
  "capture_event eid intent now = EvWebhook (Inr (capture_of eid intent)) ''r'' now (ids_from eid)"

definition money_overview ::
  "kiosk_db \<Rightarrow> (payment_status \<times> bool) list \<times> (string \<times> refund_reason) list \<times> session_state list \<times> quote_status list" where
  "money_overview db = (map (\<lambda>p. (py_status p, py_appliedToSession p)) (db_payments db),
     map (\<lambda>r. (rf_paymentId r, rf_reason r)) (db_refunds db), map se_state (db_sessions db), map qr_status (db_quotes db))"

lemma priced_db_inv: "plane_inv priced_db"
  by (simp add: plane_inv_def money_inv_def jobs_inv_def priced_db_def paid_db_def empty_db_def paper_ok_def
      PAPER_INVENTORY_MAX_SHEETS_def paid_states_def)

text \<open>Each history is the one before with one more transaction.\<close>

definition awaiting_db :: kiosk_db where
  "awaiting_db = committed priced_db
     (createPayment sample_payments (\<lambda>_ _. Inr (''i'', IN_PENDING)) (pay_input ''i'') 1000 (ids_from ''i'') priced_db)"

definition captured_db :: kiosk_db where
  "captured_db = snd (handleWebhook sample_payments (Inr (capture_of ''e'' ''i'')) ''r'' 5000 (ids_from ''e'') awaiting_db)"

definition expired_db :: kiosk_db where
  "expired_db = committed awaiting_db (timeOut ''i0'' 130000 (ids_from ''t'') awaiting_db)"

definition late_db :: kiosk_db where
  "late_db = snd (handleWebhook sample_payments (Inr (capture_of ''e'' ''i'')) ''r'' 140000 (ids_from ''e'') expired_db)"

lemma awaiting_overview: "money_overview awaiting_db = ([(PS_PENDING, False)], [], [S_AWAITING_PAYMENT], [Q_ACTIVE])"
  by code_simp

lemma captured_overview: "money_overview captured_db = ([(PS_CAPTURED, True)], [], [S_PAID], [Q_CONSUMED])"
  by code_simp

lemma late_overview: "money_overview late_db = ([(PS_CAPTURED, False)], [(''i0'', LATE_CAPTURE)], [S_CONFIGURING], [Q_ACTIVE])"
  by code_simp

lemma awaiting_run: "moneyRun sample_money [pay_event ''i'' 1000] priced_db = awaiting_db"
  by (simp add: moneyRun_def guardedMoney_def pay_event_def awaiting_db_def sample_money_def)

lemma captured_run: "moneyRun sample_money [pay_event ''i'' 1000, capture_event ''e'' ''i'' 5000] priced_db = captured_db"
proof -
  have "moneyRun sample_money [pay_event ''i'' 1000, capture_event ''e'' ''i'' 5000] priced_db =
      moneyRun sample_money [capture_event ''e'' ''i'' 5000] awaiting_db"
    by (simp add: awaiting_run [symmetric] moneyRun_def)
  then show ?thesis
    by (simp add: moneyRun_def guardedMoney_def capture_event_def captured_db_def sample_money_def capture_of_def)
qed

lemma late_run: "moneyRun sample_money [pay_event ''i'' 1000, EvTimeOut ''i0'' 130000 (ids_from ''t''), capture_event ''e'' ''i'' 140000]
    priced_db = late_db"
proof -
  have "moneyRun sample_money [pay_event ''i'' 1000, EvTimeOut ''i0'' 130000 (ids_from ''t''), capture_event ''e'' ''i'' 140000]
      priced_db = moneyRun sample_money [EvTimeOut ''i0'' 130000 (ids_from ''t''), capture_event ''e'' ''i'' 140000] awaiting_db"
    by (simp add: awaiting_run [symmetric] moneyRun_def)
  then show ?thesis
    by (simp add: moneyRun_def guardedMoney_def capture_event_def late_db_def expired_db_def sample_money_def
        capture_of_def)
qed

lemma captured_payment_row: "\<exists>p. db_payments captured_db = [p] \<and> py_status p = PS_CAPTURED \<and> py_appliedToSession p"
  using captured_overview by (auto simp: money_overview_def map_eq_Cons_conv)

lemma late_payment_row: "\<exists>p. db_payments late_db = [p] \<and> py_status p = PS_CAPTURED \<and> \<not> py_appliedToSession p"
  using late_overview by (auto simp: money_overview_def map_eq_Cons_conv)

lemma awaiting_session_row: "\<exists>s. db_sessions awaiting_db = [s] \<and> se_state s = S_AWAITING_PAYMENT"
  using awaiting_overview by (auto simp: money_overview_def map_eq_Cons_conv)

lemma nothing_reported_event:
  assumes "(provider, intent) \<in> nothing_reported cfg e"
  obtains event requestId now newId where "e = EvWebhook (Inr event) requestId now newId" "we_type event = PAYMENT_CAPTURED"
    "we_providerIntentId event = intent" "mo_amountMinor (we_amount event) = 0"
  using assms by (cases "(cfg, e)" rule: nothing_reported.cases) (auto simp: nothing_captured_def split: if_splits)

section \<open>The properties of the money\<close>

text \<open>
  C1. Captured money is never lost: after every history of requests, callbacks, time-outs and prints, a
  payment the provider captured either was applied to its session, which then is paid, printing or
  printed, or a refund for the late or mismatched capture is recorded for it, unless the provider itself
  reported in that history that it had captured nothing for the intent, for which the code owes nothing.
\<close>

theorem captured_money_is_applied_or_owed:
  assumes "plane_inv db" and "captures_accounted {} db" and "db' = moneyRun cfg es db" and "p \<in> set (db_payments db')"
    and "py_status p = PS_CAPTURED"
  shows "if py_appliedToSession p
    then \<exists>s \<in> set (db_sessions db'). se_id s = py_sessionId p \<and>
      se_state s \<in> {S_PAID, S_PRINTING, S_COMPLETED, S_FAILED, S_RECOVERY_REQUIRED}
    else (\<exists>r \<in> set (db_refunds db'). rf_paymentId r = py_id p \<and> rf_reason r \<in> {LATE_CAPTURE, AMOUNT_MISMATCH}) \<or>
      (\<exists>event requestId now newId. EvWebhook (Inr event) requestId now newId \<in> set es \<and> we_type event = PAYMENT_CAPTURED \<and>
         we_providerIntentId event = py_providerIntentId p \<and> mo_amountMinor (we_amount event) = 0)"
proof (cases "py_appliedToSession p")
  case True
  have "money_inv db'" using moneyRun_inv [OF assms(1)] assms(3) by (simp add: plane_inv_def)
  then show ?thesis using money_invD(4) [OF _ assms(4) True] True by (auto simp: paid_states_def)
next
  case False
  then have "owed p db' \<or> (\<exists>e \<in> set es. (py_provider p, py_providerIntentId p) \<in> nothing_reported cfg e)"
    using moneyRun_accounted [OF assms(1,2), of cfg es] assms(3-5) by (auto simp: captures_accounted_def accounted_def)
  with False show ?thesis by (auto simp: owed_def elim!: nothing_reported_event) blast+
qed

theorem captured_money_is_applied_or_owed_witness:
  "\<exists>p. db_payments late_db = [p] \<and> py_status p = PS_CAPTURED \<and>
    (\<exists>r \<in> set (db_refunds late_db). rf_paymentId r = py_id p \<and> rf_reason r \<in> {LATE_CAPTURE, AMOUNT_MISMATCH})"
proof -
  obtain p where p: "db_payments late_db = [p]" "py_status p = PS_CAPTURED" "\<not> py_appliedToSession p"
    using late_payment_row by blast
  have "captures_accounted {} priced_db" by (simp add: captures_accounted_def priced_db_def)
  from captured_money_is_applied_or_owed [OF priced_db_inv this late_run [symmetric], of p] p show ?thesis
    by (auto simp: pay_event_def capture_event_def capture_of_def)
qed

text \<open>
  C7. A session is paid exactly once: after every history, exactly one payment is applied to a session
  in a paid state and none to any other; at most one payment of a session is open, and exactly one
  when the session awaits its payment.
\<close>

theorem a_session_is_paid_once:
  assumes "plane_inv db" and "db' = moneyRun cfg es db" and "s \<in> set (db_sessions db')"
  shows "length (filter (\<lambda>p. py_sessionId p = se_id s \<and> py_appliedToSession p) (db_payments db')) =
      (if se_state s \<in> {S_PAID, S_PRINTING, S_COMPLETED, S_FAILED, S_RECOVERY_REQUIRED} then 1 else 0) \<and>
    length (filter (\<lambda>p. py_sessionId p = se_id s \<and> payment_open p) (db_payments db')) \<le> 1 \<and>
    (se_state s = S_AWAITING_PAYMENT \<longrightarrow>
      length (filter (\<lambda>p. py_sessionId p = se_id s \<and> payment_open p) (db_payments db')) = 1)"
proof -
  have inv: "money_inv db'" using moneyRun_inv [OF assms(1)] assms(2) by (simp add: plane_inv_def)
  show ?thesis
    using applied_count [OF inv assms(3)] open_count [OF inv assms(3)] by (simp add: paid_states_def)
qed

theorem a_session_is_paid_once_witness:
  "\<exists>s. db_sessions awaiting_db = [s] \<and> se_state s = S_AWAITING_PAYMENT \<and>
    length (filter (\<lambda>p. py_sessionId p = se_id s \<and> payment_open p) (db_payments awaiting_db)) = 1"
proof -
  obtain s where s: "db_sessions awaiting_db = [s]" "se_state s = S_AWAITING_PAYMENT" using awaiting_session_row by blast
  then show ?thesis using a_session_is_paid_once [OF priced_db_inv awaiting_run [symmetric], of s] by simp
qed

text \<open>
  C17. The stored payments obey the database's own triggers: between any two moments of a history a payment
  stays, its status moves only as the trigger allows, its accounting identity is never rewritten, a
  captured row never changes again, and its amount, currency, settings and manifest are those of a
  quote of its session.
\<close>

theorem payments_obey_the_triggers:
  assumes "plane_inv db" and "p \<in> set (db_payments (moneyRun cfg es db))"
  shows "\<exists>p' \<in> set (db_payments (moneyRun cfg (es @ fs) db)). py_id p' = py_id p \<and>
    payments_assert_status_progression p p' \<and> payments_reject_identity_rewrite p p' \<and> (py_status p = PS_CAPTURED \<longrightarrow> p' = p) \<and>
    (\<exists>q \<in> set (db_quotes (moneyRun cfg (es @ fs) db)). payments_assert_matches_quote p' q)"
proof -
  have inv: "money_inv (moneyRun cfg (es @ fs) db)" using moneyRun_inv [OF assms(1)] by (simp add: plane_inv_def)
  obtain p' where p': "p' \<in> set (db_payments (moneyRun cfg (es @ fs) db))" "payment_evolves p p'"
    using moneyRun_kept [OF assms(1), of cfg es fs] assms(2) unfolding payments_kept_def by blast
  have "\<exists>q \<in> set (db_quotes (moneyRun cfg (es @ fs) db)). payments_assert_matches_quote p' q"
    by (rule money_invD(9) [OF inv p'(1)])
  moreover have "payments_reject_identity_rewrite p p'" using payment_evolves_keeps [OF p'(2)] by (simp add: payments_reject_identity_rewrite_def)
  ultimately show ?thesis
    using p' payment_evolves_keeps(1) [OF p'(2)] by (intro bexI [of _ p']) (simp_all add: payment_evolves_def)
qed

theorem payments_obey_the_triggers_witness:
  "\<exists>p. db_payments awaiting_db = [p] \<and> py_status p = PS_PENDING \<and>
    (\<exists>p' \<in> set (db_payments captured_db). py_id p' = py_id p \<and> payments_assert_status_progression p p')"
proof -
  obtain p where p: "db_payments awaiting_db = [p]" "py_status p = PS_PENDING"
    using awaiting_overview by (auto simp: money_overview_def map_eq_Cons_conv)
  then have "p \<in> set (db_payments (moneyRun sample_money [pay_event ''i'' 1000] priced_db))" by (simp add: awaiting_run)
  from payments_obey_the_triggers [OF priced_db_inv this, of "[capture_event ''e'' ''i'' 5000]"] p show ?thesis
    by (auto simp: captured_run)
qed

text \<open>
  C8. Every transaction of the control plane implements the ledger: whatever is asked of the payment and
  session services, the reconciler or the print path, one transaction leaves the payments alone, opens
  one that matches its quote, moves one forward, or applies one capture to the session it was for; and a
  payment it moves to captured without applying it is owed back, except one the callback itself says was
  captured of nothing. A printer's result has the shape its route's schema checks.
\<close>

theorem transactions_refine_the_ledger:
  assumes "plane_inv db" and "accepted_money cfg e"
  shows "ledger_step (nothing_reported cfg e) db (moneyStep cfg e db) \<and> plane_inv (moneyStep cfg e db)"
  using money_refines [OF assms] money_step_inv [OF assms] by blast

theorem transactions_refine_the_ledger_witness: "ledger_step {} priced_db awaiting_db"
proof -
  have "accepted_money sample_money (pay_event ''i'' 1000)" by (simp add: pay_event_def)
  from transactions_refine_the_ledger [OF priced_db_inv this] this show ?thesis
    by (simp add: awaiting_run [symmetric] moneyRun_def guardedMoney_def pay_event_def)
qed

lemma prepared_window:
  assumes "preparePayment pv createIntent input session action h now newId db = Inr (snapshot, db')"
  shows "now + 30000 \<le> ps_expiresAt snapshot \<and> ps_expiresAt snapshot \<le> now + pv_paymentTimeoutSeconds pv * 1000 \<and>
    ps_expiresAt snapshot \<le> se_idleExpiresAt session \<and> ps_expiresAt snapshot \<le> se_hardExpiresAt session \<and>
    (\<exists>q \<in> set (db_quotes db). qr_id q = cy_quoteId input \<and> qr_sessionId q = se_id session \<and> qr_status q = Q_ACTIVE \<and>
       ps_expiresAt snapshot \<le> qr_expiresAt q \<and> ps_amountMinor snapshot = qb_totalMinor (qr_breakdown q))"
proof -
  obtain quoted intent where q: "List.find (\<lambda>q. qr_id q = cy_quoteId input \<and> qr_sessionId q = se_id session) (db_quotes db) = Some quoted"
    and act: "qr_status quoted = Q_ACTIVE" and window: "\<not> payment_deadline pv session quoted now - now < MINIMUM_PAYMENT_WINDOW_SECONDS * 1000"
    and opn: "openPayment pv input session quoted (newPayment pv session quoted (newId 0) intent now) action h now newId db =
      Inr (snapshot, db')"
    using assms unfolding preparePayment_def by (auto split: if_splits option.splits)
  define p where "p = newPayment pv session quoted (newId 0) intent now"
  have fresh: "\<not> payment_collides p db" by (rule ccontr) (use opn in \<open>simp add: openPayment_def p_def\<close>)
  have "snapshot = toPaymentSnapshot p"
    using opn unfolding openPayment_def Let_def p_def [symmetric] if_not_P [OF fresh]
    by (simp only: bind_result_Inr split_paired_Ex prod.case split: if_splits) auto
  then have snap: "ps_expiresAt snapshot = payment_deadline pv session quoted now" "ps_amountMinor snapshot = qb_totalMinor (qr_breakdown quoted)"
    by (simp_all add: toPaymentSnapshot_def p_def newPayment_def)
  show ?thesis
    using find_Some_set [OF q] act window unfolding snap
    by (auto simp: payment_deadline_def MINIMUM_PAYMENT_WINDOW_SECONDS_def intro!: bexI [of _ quoted])
qed

text \<open>
  C18. A payment window is bounded on both sides: a payment that is opened leaves the customer at least
  thirty seconds, ends before the configured timeout, the expiry of its quote and both expiries of
  its session, and is for the total of that active quote; a repeated request answers with the
  payment that is already there.
\<close>

theorem payment_window_is_bounded:
  assumes "createPayment pv createIntent input now newId db = Inr (snapshot, db')"
  shows "ps_id snapshot \<in> set (map py_id (db_payments db)) \<or>
    now + 30000 \<le> ps_expiresAt snapshot \<and> ps_expiresAt snapshot \<le> now + pv_paymentTimeoutSeconds pv * 1000 \<and>
    (\<exists>s \<in> set (db_sessions db). se_id s = cy_sessionId input \<and> ps_expiresAt snapshot \<le> se_idleExpiresAt s \<and>
       ps_expiresAt snapshot \<le> se_hardExpiresAt s) \<and>
    (\<exists>q \<in> set (db_quotes db). qr_id q = cy_quoteId input \<and> qr_status q = Q_ACTIVE \<and>
       ps_expiresAt snapshot \<le> qr_expiresAt q \<and> ps_amountMinor snapshot = qb_totalMinor (qr_breakdown q))"
proof -
  define action where "action = ''payments.create:'' @ cy_sessionId input"
  define h where "h = pv_hashRequest pv [(''sessionId'', cy_sessionId input), (''quoteId'', cy_quoteId input),
            (''provider'', pv_provider pv)]"
  obtain found db1 where idem: "findPaymentIdempotency pv (cy_kioskId input) action (cy_idempotencyKey input) now db = (found, db1)"
    by fastforce
  have same: "db_payments db1 = db_payments db" "db_sessions db1 = db_sessions db" "db_quotes db1 = db_quotes db"
    using findPaymentIdempotency_frame(1-3) [of pv "cy_kioskId input" action "cy_idempotencyKey input" now db] by (simp_all add: idem)
  show ?thesis
  proof (cases found)
    case None
    then obtain session where s: "List.find (\<lambda>s. se_id s = cy_sessionId input \<and> se_kioskId s = cy_kioskId input) (db_sessions db1) = Some session"
      and run: "preparePayment pv createIntent input session action h now newId db1 = Inr (snapshot, db')"
      using assms idem unfolding createPayment_def Let_def action_def [symmetric] h_def [symmetric]
      by (auto simp: map_error_def split: option.splits sum.splits)
    from find_Some_set [OF s] prepared_window [OF run] show ?thesis unfolding same by blast
  next
    case (Some replay)
    then obtain i where "replayPayment (ir_resourceId replay) i db1 = Inr snapshot"
      using assms idem unfolding createPayment_def Let_def action_def [symmetric] h_def [symmetric]
      by (auto simp: map_error_def split: option.splits sum.splits)
    then have "ps_id snapshot \<in> set (map py_id (db_payments db))"
      by (auto simp: replayPayment_def toPaymentSnapshot_def same [symmetric] split: option.splits dest!: find_Some_set)
    then show ?thesis ..
  qed
qed

lemma sample_payment_made:
  "case createPayment sample_payments (\<lambda>_ _. Inr (''i'', IN_PENDING)) (pay_input ''i'') 1000 (ids_from ''i'') priced_db of
     Inl _ \<Rightarrow> False | Inr (snapshot, db') \<Rightarrow> ps_expiresAt snapshot = 121000"
  by code_simp

theorem payment_window_is_bounded_witness:
  "\<exists>snapshot db'. createPayment sample_payments (\<lambda>_ _. Inr (''i'', IN_PENDING)) (pay_input ''i'') 1000 (ids_from ''i'') priced_db =
      Inr (snapshot, db') \<and> ps_expiresAt snapshot = 121000 \<and>
    (\<exists>q \<in> set (db_quotes priced_db). qr_status q = Q_ACTIVE \<and> 121000 \<le> qr_expiresAt q)"
proof -
  obtain snapshot db' where run: "createPayment sample_payments (\<lambda>_ _. Inr (''i'', IN_PENDING)) (pay_input ''i'') 1000 (ids_from ''i'') priced_db =
      Inr (snapshot, db')" and t: "ps_expiresAt snapshot = 121000"
    using sample_payment_made by (auto split: sum.splits)
  have "db_payments priced_db = []" by (simp add: priced_db_def)
  with payment_window_is_bounded [OF run] run t show ?thesis by auto
qed

text \<open>
  C13. A callback counts once: when a callback of the provider has been taken, then whatever transactions
  follow, every later delivery of the same event identifier is answered as taken and changes nothing at
  all, whatever it says.
\<close>

theorem webhook_counts_once:
  assumes "handleWebhook pv (Inr event) requestId now newId db = (Inr (), db')"
    and "we_providerEventId later = we_providerEventId event" and "db2 = moneyRun cfg es db'"
  shows "handleWebhook pv (Inr later) requestId' now' newId' db2 = (Inr (), db2)"
proof -
  have "webhookWasRecorded pv event db'"
    using assms(1) reduce_recorded [of pv event requestId now newId db db']
    by (auto simp: handleWebhook_def split: sum.splits if_splits)
  then have "webhookWasRecorded pv event db2"
    using moneyRun_inbox [of db' cfg es] unfolding assms(3) by (auto simp: webhookWasRecorded_def inbox_kept_def)
  then have "reduceWebhookEvent pv later requestId' now' newId' db2 = Inr db2"
    by (simp add: reduceWebhookEvent_def webhookWasRecorded_def assms(2))
  then show ?thesis by (simp add: handleWebhook_def)
qed

lemma sample_callback_taken:
  "fst (handleWebhook sample_payments (Inr (capture_of ''e'' ''i'')) ''r'' 5000 (ids_from ''e'') awaiting_db) = Inr ()"
  by code_simp

theorem webhook_counts_once_witness:
  "handleWebhook sample_payments (Inr (capture_of ''e'' ''other'')) ''r2'' 6000 (ids_from ''f'')
      (moneyRun sample_money [capture_event ''g'' ''i'' 5500] captured_db) =
    (Inr (), moneyRun sample_money [capture_event ''g'' ''i'' 5500] captured_db)"
proof (rule webhook_counts_once [OF _ _ refl])
  show "handleWebhook sample_payments (Inr (capture_of ''e'' ''i'')) ''r'' 5000 (ids_from ''e'') awaiting_db = (Inr (), captured_db)"
    using sample_callback_taken by (simp add: prod_eq_iff captured_db_def)
qed (simp add: capture_of_def)



text \<open>
  C4. Nothing is printed that was not paid for: after every history a print job belongs to a session in a
  paid state, and to the one payment that was applied to it, over the settings that payment was for.
\<close>

theorem nothing_is_printed_unpaid:
  assumes "plane_inv db" and "db' = moneyRun cfg es db" and "j \<in> set (db_jobs db')"
  shows "\<exists>p \<in> set (db_payments db'). py_id p = pj_paymentId j \<and> py_sessionId p = pj_sessionId j \<and> py_status p = PS_CAPTURED \<and>
      py_appliedToSession p \<and> py_settingsRevision p = pj_settingsRevision j \<and> py_manifestHash p = pj_settingsManifestHash j \<and>
      (\<exists>s \<in> set (db_sessions db'). se_id s = pj_sessionId j \<and>
         se_state s \<in> {S_PAID, S_PRINTING, S_COMPLETED, S_FAILED, S_RECOVERY_REQUIRED})"
proof -
  have inv: "money_inv db'" and jobs: "jobs_inv db'" using moneyRun_inv [OF assms(1)] assms(2) by (simp_all add: plane_inv_def)
  obtain p where p: "p \<in> set (db_payments db')" "py_id p = pj_paymentId j" "py_sessionId p = pj_sessionId j" "py_status p = PS_CAPTURED"
    "py_appliedToSession p" "py_settingsRevision p = pj_settingsRevision j" "py_manifestHash p = pj_settingsManifestHash j"
    using jobs_invD(7) [OF jobs assms(3)] unfolding bound_to_capture_def by blast
  with money_invD(4) [OF inv p(1,5)] show ?thesis by (intro bexI [of _ p]) (simp_all add: paid_states_def)
qed

definition sold_db :: kiosk_db where
  "sold_db = queued_db
     \<lparr>db_quotes := [\<lparr>qr_id = ''q'', qr_sessionId = ''s'', qr_settingsRevision = 1, qr_manifestHash = replicate 64 (CHR ''b''),
        qr_status = Q_CONSUMED, qr_breakdown = sample_quote\<lparr>qb_totalMinor := 500, qb_currency := ''TRY''\<rparr>, qr_expiresAt = 600000,
        qr_createdAt = 0, qr_invalidatedAt = None, qr_invalidationReason = None\<rparr>]\<rparr>"

lemma sold_db_inv: "plane_inv sold_db"
proof -
  have "jobs_inv sold_db"
    using queued_db_inv
    by (simp add: sold_db_def jobs_inv_def bound_to_capture_def refund_for_def job_amount_def paper_ok_def)
  moreover have "js_trim ''TRY'' = ''TRY''" by code_simp
  then have "money_inv sold_db"
    by (simp add: money_inv_def sold_db_def queued_db_def paid_db_def empty_db_def paid_states_def payment_open_def
        OPEN_PAYMENT_STATUSES_def payments_assert_matches_quote_def sample_quote_def)
  ultimately show ?thesis by (simp add: plane_inv_def)
qed

theorem nothing_is_printed_unpaid_witness:
  "db_jobs sold_db = [queued_job] \<and> (\<exists>p \<in> set (db_payments sold_db). py_id p = ''p'' \<and> py_appliedToSession p)"
proof -
  have run: "sold_db = moneyRun sample_money [] sold_db" by (simp add: moneyRun_def)
  have job: "db_jobs sold_db = [queued_job]" by (simp add: sold_db_def queued_db_def)
  from nothing_is_printed_unpaid [OF sold_db_inv run, of queued_job] job
  show ?thesis by (auto simp: queued_job_def)
qed

section \<open>A late capture takes the next payment's place\<close>

text \<open>
  A customer whose first payment timed out is paying again when the first is captured after all: the
  session is taken from the second payment too, and its capture is owed back instead of applied.
\<close>

definition second_payment_db :: kiosk_db where
  "second_payment_db =
     (let session = hd (db_sessions priced_db); quoted = hd (db_quotes priced_db) in
      priced_db\<lparr>
        db_payments := [(newPayment sample_payments session quoted ''i0'' (''i'', IN_PENDING) 1000)
            \<lparr>py_status := PS_TIMED_OUT, py_failureCode := Some ''PROVIDER_TIMEOUT'', py_failedAt := Some 130000\<rparr>,
          newPayment sample_payments session quoted ''j0'' (''j'', IN_PENDING) 131000],
        db_sessions := [session\<lparr>se_state := S_AWAITING_PAYMENT\<rparr>]\<rparr>)"

definition first_capture_db :: kiosk_db where
  "first_capture_db = snd (handleWebhook sample_payments (Inr (capture_of ''e'' ''i'')) ''r'' 140000 (ids_from ''e'') second_payment_db)"

definition second_capture_db :: kiosk_db where
  "second_capture_db = snd (handleWebhook sample_payments (Inr (capture_of ''f'' ''j'')) ''r'' 150000 (ids_from ''f'') first_capture_db)"

lemma late_capture_displaces_the_next_payment:
  "money_overview second_payment_db = ([(PS_TIMED_OUT, False), (PS_PENDING, False)], [], [S_AWAITING_PAYMENT], [Q_ACTIVE])"
  "money_overview second_capture_db =
     ([(PS_CAPTURED, False), (PS_CAPTURED, False)], [(''i0'', LATE_CAPTURE), (''j0'', LATE_CAPTURE)], [S_CONFIGURING], [Q_ACTIVE])"
  by code_simp+

end
