(* ===== verification/Priced_Material.thy ===== *)
theory Priced_Material
  imports Pricing_Inv
begin

text \<open>
  What a stored revision says of the material it was made from: the check of \<open>assertManifestUnchanged\<close> as a
  condition on normalisations, and a normalised selection as a function of its manifest.
\<close>

section \<open>A normalised selection and its manifest\<close>

text \<open>What a manifest leaves out of a normalised document follows from what it says.\<close>

fun file_of_view ::
  "string \<times> int \<times> int \<times> string \<times> int \<times> page_range list \<times> int \<times> int \<times> duplex_mode \<times> orientation \<Rightarrow> normalized_file_selection" where
  "file_of_view (i, position, revision, sha, pages, ranges, selected, copies, duplex, ori) =
     (let usage = calculateSheetUsage selected duplex in
      \<lparr>nf_fileId = i, nf_position = position, nf_pageCount = pages, nf_processingRevision = revision, nf_contentSha256 = sha,
       nf_pageRanges = ranges, nf_pageRangeText = formatPageRanges ranges, nf_selectedPages = selected, nf_copies = copies,
       nf_duplex = duplex, nf_orientation = ori, nf_printedSidesPerCopy = fst usage, nf_physicalSheetsPerCopy = snd usage,
       nf_printedSides = fst usage * copies, nf_physicalSheets = snd usage * copies\<rparr>)"

lemma normalizeFile_view: "normalizeFile ctx input mc e = Inr f \<Longrightarrow> file_of_view (file_view f) = f"
  by (auto simp: normalizeFile_def file_view_def assertSupported_def Let_def split: option.splits)

lemma normalized_views:
  assumes "normalizePrintSettings input ctx = Inr ns"
  shows "map (file_of_view \<circ> file_view) (np_files ns) = np_files ns"
  using normalizePrintSettings_Inr(1) [OF assms]
  by (auto simp: list_all2_conv_all_nth intro!: nth_equalityI normalizeFile_view)

lemma normalized_determined:
  assumes "normalizePrintSettings input ctx = Inr a" and "normalizePrintSettings input' ctx' = Inr b"
    and "manifest_view a = manifest_view b"
  shows "a = b"
proof -
  have "map file_view (np_files a) = map file_view (np_files b)" using assms(3) by (simp add: manifest_view_def)
  then have "map (file_of_view \<circ> file_view) (np_files a) = map (file_of_view \<circ> file_view) (np_files b)"
    by (metis map_map)
  then have files: "np_files a = np_files b" using normalized_views assms(1,2) by metis
  then show ?thesis
    using assms(3) normalizePrintSettings_Inr(2-4) [OF assms(1)] normalizePrintSettings_Inr(2-4) [OF assms(2)]
    by (intro normalized_print_settings.equality) (simp_all add: manifest_view_def)
qed

text \<open>A document that still normalises to the same from its stored choice does so from the customer's input.\<close>

lemma normalizeFile_from:
  assumes "normalizeFile ctx input mc e = Inr f" and "normalizeFile ctx' again mc' e = Inr f"
    and "List.find (\<lambda>s. fi_fileId s = snd e) (pi_fileSelections again) = Some (selection_again f)"
  shows "normalizeFile ctx' input mc' e = Inr f"
proof -
  obtain fl where avail: "availableFiles (nc_files ctx) (snd e) = Some fl"
    using assms(1) by (auto simp: normalizeFile_def split: option.splits)
  obtain fl' where avail': "availableFiles (nc_files ctx') (snd e) = Some fl'"
    using assms(2) by (auto simp: normalizeFile_def split: option.splits)
  obtain sel where sel: "List.find (\<lambda>s. fi_fileId s = snd e) (pi_fileSelections input) = Some sel"
    using assms(1) avail by (auto simp: normalizeFile_def split: option.splits)
  show ?thesis
    using assms avail avail' sel
    by (auto simp: normalizeFile_def assertSupported_def selection_again_def Let_def)
qed

lemma normalized_header:
  assumes "normalizePrintSettings input ctx = Inr ns"
  shows "np_paperSize ns = pi_paperSize input" "np_scaling ns = pi_scaling input" "np_collate ns = pi_collate input"
    "np_colorMode ns = PRINT_COLOR_MODE" "np_capabilityVersion ns = pc_version (nc_capabilities ctx)"
    "pi_paperSize input \<in> set (pc_paperSizes (nc_capabilities ctx))"
    "pi_scaling input \<in> set (pc_scalingModes (nc_capabilities ctx))"
    "PRINT_COLOR_MODE \<in> set (pc_colorModes (nc_capabilities ctx))"
    "length (pi_fileOrder input) = length (remdups (map sf_id (nc_files ctx)))"
    "length (pi_fileSelections input) = length (pi_fileOrder input)"
    "distinct (map fi_fileId (pi_fileSelections input))"
  using assms by (auto simp: normalizePrintSettings_def Let_def assertSupported_def)

lemma normalized_from:
  assumes n: "normalizePrintSettings input ctx = Inr ns" and again: "normalizePrintSettings (input_again ns) ctx' = Inr ns"
  shows "normalizePrintSettings input ctx' = Inr ns"
proof -
  let ?mc = "\<lambda>c. min (pl_maxCopies (nc_limits c)) (pc_maxCopies (nc_capabilities c))"
  note ok = normalizePrintSettings_Inr [OF n] and ok' = normalizePrintSettings_Inr [OF again]
  have ids: "map nf_fileId (np_files ns) = pi_fileOrder input" by (rule normalized_file_ids [OF n])
  then have order: "pi_fileOrder (input_again ns) = pi_fileOrder input" by (simp add: input_again_def)
  have "normalizeFile ctx' input (?mc ctx') e = Inr f"
    if "normalizeFile ctx input (?mc ctx) e = Inr f" "normalizeFile ctx' (input_again ns) (?mc ctx') e = Inr f"
      "f \<in> set (np_files ns)" for e f
  proof (rule normalizeFile_from [OF that(1,2)])
    have "nf_fileId f = snd e" using normalizeFile_Inr [OF that(1)] by simp
    then show "List.find (\<lambda>s. fi_fileId s = snd e) (pi_fileSelections (input_again ns)) = Some (selection_again f)"
      using find_selection_again [of "np_files ns" f] that(3) ok(8) ids by (simp add: input_again_def)
  qed
  with ok(1) ok'(1) have "list_all2 (\<lambda>e f. normalizeFile ctx' input (?mc ctx') e = Inr f)
      (List.enumerate 0 (pi_fileOrder input)) (np_files ns)"
    unfolding order list_all2_conv_all_nth by auto
  then have files: "map_result (normalizeFile ctx' input (?mc ctx')) (List.enumerate 0 (pi_fileOrder input)) = Inr (np_files ns)"
    by (simp add: map_result_Inr)
  note head = normalized_header [OF n] and head' = normalized_header [OF again]
  have same: "pi_paperSize (input_again ns) = pi_paperSize input" "pi_scaling (input_again ns) = pi_scaling input"
    by (simp_all add: input_again_def head)
  have whole: "\<lparr>np_paperSize = pi_paperSize input, np_scaling = pi_scaling input, np_collate = pi_collate input,
      np_colorMode = PRINT_COLOR_MODE, np_capabilityVersion = pc_version (nc_capabilities ctx'), np_files = np_files ns,
      np_selectedPages = sum_list (map nf_selectedPages (np_files ns)), np_printedSides = sum_list (map nf_printedSides (np_files ns)),
      np_physicalSheets = sum_list (map nf_physicalSheets (np_files ns))\<rparr> = ns"
    by (rule normalized_print_settings.equality) (simp_all add: head(1-4) head'(5) ok(2-4))
  have ready: "pi_paperSize input \<in> set (pc_paperSizes (nc_capabilities ctx'))"
      "pi_scaling input \<in> set (pc_scalingModes (nc_capabilities ctx'))"
      "PRINT_COLOR_MODE \<in> set (pc_colorModes (nc_capabilities ctx'))"
      "length (pi_fileOrder input) = length (remdups (map sf_id (nc_files ctx')))"
      "1 \<le> sum_list (map nf_selectedPages (np_files ns))"
      "sum_list (map nf_selectedPages (np_files ns)) \<le> pl_maxSelectedPages (nc_limits ctx')"
      "sum_list (map nf_printedSides (np_files ns)) \<le> pl_maxPrintedSides (nc_limits ctx')"
    using head'(6-9) ok'(5-7) by (simp_all only: same order ok(2-4) [symmetric])
  show ?thesis
    unfolding normalizePrintSettings_def Let_def files assertSupported_def require_def
    by (simp only: ready ok(8) head(10,11) whole if_True bind_result_simps simp_thms)
qed

text \<open>What a session holds, one entry for each document.\<close>

lemma selectable_ids:
  assumes "distinct (map fr_id (db_files db))"
  shows "distinct (map sf_id (selectableFiles sid db))"
proof -
  have ids: "distinct (map sf_id (concat (map selectable_of fs)))" if "distinct (map fr_id fs)" for fs
    using that
  proof (induction fs)
    case (Cons f fs)
    have "sf_id x \<in> fr_id ` set fs" if "x \<in> set (concat (map selectable_of fs))" for x
      using that by (auto simp: selectable_of_def split: option.splits)
    with Cons show ?case by (auto simp: selectable_of_def split: option.splits)
  qed simp
  let ?rows = "filter (\<lambda>f. fr_sessionId f = sid \<and> fr_status f = F_READY) (db_files db)"
  have eq: "mset (map fr_id (sort_key fr_ordinal ?rows)) = mset (map fr_id ?rows)" by (simp only: mset_map mset_sort)
  have "distinct (map fr_id ?rows)" using assms by (rule distinct_map_filter)
  then have "distinct (map fr_id (sort_key fr_ordinal ?rows))" using mset_eq_imp_distinct_iff [OF eq] by blast
  then show ?thesis unfolding selectableFiles_def by (rule ids)
qed

lemma normalized_length:
  assumes "normalizePrintSettings input ctx = Inr ns"
  shows "length (np_files ns) = length (remdups (map sf_id (nc_files ctx)))" "np_files ns \<noteq> []"
proof -
  have "length (pi_fileOrder input) = length (remdups (map sf_id (nc_files ctx)))"
    using assms by (auto simp: normalizePrintSettings_def assertSupported_def Let_def)
  then show "length (np_files ns) = length (remdups (map sf_id (nc_files ctx)))"
    using arg_cong [OF normalized_file_ids [OF assms], of length] by simp
  show "np_files ns \<noteq> []" using normalizePrintSettings_Inr(2,5) [OF assms] by auto
qed

lemma manifest_check:
  "assertManifestUnchanged px session kiosk (newRevision px sid n ns i t) db = Inr () \<longleftrightarrow>
     selectableFiles (se_id session) db \<noteq> [] \<and> length (np_files ns) = length (selectableFiles (se_id session) db) \<and>
     (\<exists>ns'. normalizePrintSettings (input_again ns) (settingsContext px session kiosk db) = Inr ns' \<and>
        hashManifest px ns' = hashManifest px ns)"
proof -
  have "readChoices (sr_selections (newRevision px sid n ns i t)) = map choice_of (np_files ns)"
    by (simp add: newRevision_def readChoices_saved)
  moreover have "sr_manifestHash (newRevision px sid n ns i t) = hashManifest px ns" by (simp add: newRevision_def)
  ultimately show ?thesis
    by (auto simp: assertManifestUnchanged_def Let_def newRevision_input split: sum.splits)
qed

end
