(* ===== verification/Pricing_Properties.thy ===== *)
theory Pricing_Properties
  imports Priced_Material Money_Properties
begin

text \<open>
  What the customer is promised of a price: it is the calculated price of what was saved, it is the one in
  force when it is answered, and it is issued exactly while the saved material is still what the session holds.
\<close>

section \<open>A kiosk with a tariff\<close>

definition sample_choice :: print_settings_input where
  "sample_choice =
     \<lparr>pi_fileOrder = [''f''], pi_fileSelections = [\<lparr>fi_fileId = ''f'', fi_pageRanges = None, fi_copies = 3,
        fi_duplex = LONG_EDGE, fi_orientation = O_AUTO\<rparr>], pi_paperSize = A4, pi_scaling = FIT, pi_collate = True\<rparr>"

definition sample_saved :: normalized_print_settings where
  "sample_saved =
     \<lparr>np_paperSize = A4, np_scaling = FIT, np_collate = True, np_colorMode = MONOCHROME, np_capabilityVersion = 1,
      np_files = [\<lparr>nf_fileId = ''f'', nf_position = 0, nf_pageCount = 2, nf_processingRevision = 1, nf_contentSha256 = ''x'',
        nf_pageRanges = [(1, 2)], nf_pageRangeText = ''1-2'', nf_selectedPages = 2, nf_copies = 3, nf_duplex = LONG_EDGE,
        nf_orientation = O_AUTO, nf_printedSidesPerCopy = 2, nf_physicalSheetsPerCopy = 1, nf_printedSides = 6,
        nf_physicalSheets = 3\<rparr>],
      np_selectedPages = 2, np_printedSides = 6, np_physicalSheets = 3\<rparr>"

definition sample_kiosk :: kiosk_row where
  "sample_kiosk = \<lparr>kk_id = ''k'', kk_capabilities = JObj [(''outputMode'', JStr ''MONOCHROME''), (''duplex'', JBool True)],
     kk_capabilitiesVersion = 1\<rparr>"

definition sample_session :: session_row where
  "sample_session = (hd (db_sessions paid_db))\<lparr>se_state := S_CONFIGURING, se_activeQuoteId := None\<rparr>"

definition sample_revision :: setting_revision_row where
  "sample_revision = newRevision sample_pricing ''s'' 1 sample_saved ''x0'' 1000"

definition configured_db :: kiosk_db where
  "configured_db = paid_db
     \<lparr>db_payments := [], db_settings := [sample_revision], db_sessions := [sample_session], db_kiosks := [sample_kiosk],
      db_ruleSets := [\<lparr>ru_status = ''PUBLISHED'', ru_scope = ''GLOBAL'', ru_scopeRef = [], ru_validFrom = 0, ru_validUntil = None,
        ru_set = sample_rule_set\<rparr>]\<rparr>"

text \<open>The same kiosk after another document took the place of the first.\<close>

definition swapped_db :: kiosk_db where
  "swapped_db = configured_db\<lparr>db_files := map (\<lambda>f. f\<lparr>fr_contentSha256 := Some ''y''\<rparr>) (db_files configured_db)\<rparr>"

definition sample_context :: "string \<Rightarrow> normalize_context" where
  "sample_context sha =
     \<lparr>nc_files = [\<lparr>sf_id = ''f'', sf_pageCount = 2, sf_processingRevision = 1, sf_contentSha256 = sha\<rparr>],
      nc_capabilities = \<lparr>pc_version = 1, pc_paperSizes = [A4], pc_colorModes = [MONOCHROME], pc_duplexModes = [SIMPLEX, LONG_EDGE],
        pc_scalingModes = [FIT], pc_orientations = [O_AUTO], pc_maxCopies = 20\<rparr>,
      nc_limits = px_limits sample_pricing\<rparr>"

lemma sample_contexts:
  "settingsContext sample_pricing sample_session sample_kiosk configured_db = sample_context ''x''"
  "settingsContext sample_pricing sample_session sample_kiosk swapped_db = sample_context ''y''"
  by (simp_all add: settingsContext_def sample_context_def selectableFiles_def selectable_of_def configured_db_def swapped_db_def
      paid_db_def empty_db_def sample_session_def sample_pricing_def readPrinterCapabilities_def sample_kiosk_def json_field_def
      readEnumList_def readPositiveInteger_def PRINT_COLOR_MODE_def)

lemma sample_normalized: "normalizePrintSettings sample_choice (sample_context sha) =
  Inr (sample_saved\<lparr>np_files := map (\<lambda>f. f\<lparr>nf_contentSha256 := sha\<rparr>) (np_files sample_saved)\<rparr>)"
  by (simp add: normalizePrintSettings_def normalizeFile_def sample_choice_def sample_context_def sample_saved_def sample_pricing_def
      assertSupported_def availableFiles_def parsePageRangeText_def js_trim_def countSelectedPages_def formatPageRanges_def
      formatRange_def show_int_def show_nat.simps digit_char_def calculateSheetUsage_def ceil_half_def PRINT_COLOR_MODE_def
      is_safe_integer_def max_safe_integer_def Let_def) code_simp

lemma sample_saved_normalized:
  "normalizePrintSettings sample_choice (settingsContext sample_pricing sample_session sample_kiosk configured_db) = Inr sample_saved"
  by (simp add: sample_contexts sample_normalized sample_saved_def)

lemma swapped_normalized:
  "normalizePrintSettings sample_choice (settingsContext sample_pricing sample_session sample_kiosk swapped_db) \<noteq> Inr sample_saved"
  by (simp add: sample_contexts sample_normalized sample_saved_def)

lemma configured_prices: "prices_inv sample_pricing configured_db"
proof -
  have "saved_row sample_pricing sample_revision"
    unfolding saved_row_def
    by (intro exI conjI, rule sample_saved_normalized) (simp add: sample_revision_def newRevision_def)
  then show ?thesis by (simp add: prices_inv_def configured_db_def paid_db_def empty_db_def)
qed

definition sample_price :: quote_breakdown where
  "sample_price =
     \<lparr>qb_pricingVersion = ''v1'', qb_ruleSetId = ''r'', qb_currency = ''PKR'', qb_currencyExponent = 2,
      qb_selectedPages = 2, qb_printedSides = 6, qb_physicalSheets = 3, qb_printAmountMinor = 9000,
      qb_duplexAdjustmentMinor = - 900, qb_serviceFeeMinor = 500, qb_minimumAdjustmentMinor = 0,
      qb_subtotalMinor = 8600, qb_taxMinor = 1376, qb_totalMinor = 9976\<rparr>"

lemma sample_priced: "calculateQuote sample_rule_set (settings_usage sample_saved) = Inr sample_price"
  by code_simp

definition quoted_session :: session_row where
  "quoted_session = sample_session\<lparr>se_activeQuoteId := Some ''q''\<rparr>"

definition quoted_db :: kiosk_db where
  "quoted_db = configured_db\<lparr>db_sessions := [quoted_session], db_quotes := [newQuote sample_pricing sample_session sample_revision sample_price ''q'' 2000]\<rparr>"

lemma quoted_prices: "prices_inv sample_pricing quoted_db"
proof -
  have "calculateQuote sample_rule_set (revision_usage sample_revision) = Inr sample_price"
    using sample_priced by (simp add: sample_revision_def newRevision_usage)
  then show ?thesis using configured_prices
    by (simp add: prices_inv_def quoted_db_def configured_db_def priced_def newQuote_def sample_revision_def newRevision_def
        sample_session_def paid_db_def)
qed

lemma quoted_inv: "plane_inv quoted_db"
  by (simp add: plane_inv_def money_inv_def jobs_inv_def quoted_db_def configured_db_def paid_db_def empty_db_def paper_ok_def
      PAPER_INVENTORY_MAX_SHEETS_def paid_states_def sample_session_def quoted_session_def)

definition charged_db :: kiosk_db where
  "charged_db = committed quoted_db
     (createPayment sample_payments (\<lambda>_ _. Inr (''i'', IN_PENDING)) (pay_input ''i'') 3000 (ids_from ''i'') quoted_db)"

lemma charged_overview: "map py_amountMinor (db_payments charged_db) = [9976]"
  by code_simp

definition quote_input :: create_quote_input where
  "quote_input =
     \<lparr>cq_kioskId = ''k'', cq_credentialId = ''c'', cq_sessionId = ''s'', cq_settingsRevision = 1, cq_idempotencyKey = ''quote'',
      cq_requestId = ''r''\<rparr>"

lemma sample_answered:
  "\<not> isl (quoteFresh sample_pricing quote_input quoted_session ''a'' ''h'' 3000 (ids_from ''y'') quoted_db)"
  by code_simp

section \<open>The price in force\<close>

lemma calculateQuote_ruleSet: "calculateQuote ruleSet usage = Inr b \<Longrightarrow> qb_ruleSetId b = rs_id ruleSet"
  by (auto simp: calculateQuote_def Let_def)

lemma published_member: "loadPublishedRuleSet now db = Inr ruleSet \<Longrightarrow> ruleSet \<in> ru_set ` set (db_ruleSets db)"
  by (auto simp: loadPublishedRuleSet_def split: option.splits dest!: newest_mem)

lemma snapshot_of: "toQuoteSnapshot px q now = Inr s \<Longrightarrow> s = quote_snapshot q now"
  by (simp add: toQuoteSnapshot_def split: if_splits)

lemma snapshot_simps [simp]:
  "pq_id (quote_snapshot q now) = qr_id q" "pq_totalMinor (quote_snapshot q now) = qb_totalMinor (qr_breakdown q)"
  "qr_status q = Q_ACTIVE \<Longrightarrow> now < qr_expiresAt q \<Longrightarrow> pq_status (quote_snapshot q now) = Q_ACTIVE"
  by (simp_all add: quote_snapshot_def Let_def)

lemma pointed:
  assumes "point_session sid f db = Inr db'"
  obtains s where "se_id s = sid" and "f s \<in> set (db_sessions db')"
  using assms by (auto simp: point_session_def set_updated filter_empty_conv split: if_splits)

text \<open>What an answer with a price rests on in the database it leaves.\<close>

definition answered :: "session_row \<Rightarrow> db_time \<Rightarrow> quote_breakdown \<Rightarrow> price_quote \<Rightarrow> kiosk_db \<Rightarrow> bool" where
  "answered session now breakdown snapshot db \<longleftrightarrow>
     (\<exists>q \<in> set (db_quotes db). qr_id q = pq_id snapshot \<and> qr_sessionId q = se_id session \<and> qr_status q = Q_ACTIVE \<and>
        now < qr_expiresAt q \<and> qr_breakdown q = breakdown) \<and>
     (\<exists>s \<in> set (db_sessions db). se_id s = se_id session \<and> se_activeQuoteId s = Some (pq_id snapshot)) \<and>
     pq_status snapshot = Q_ACTIVE \<and> pq_totalMinor snapshot = qb_totalMinor breakdown"

lemma reuse_answered:
  assumes run: "reuseQuote px input session q action h now newId db = Inr (snapshot, db')"
    and q: "q \<in> set (db_quotes db)" "reusable session row ruleSet now q" and s: "session \<in> set (db_sessions db)"
  shows "answered session now (qr_breakdown q) snapshot db'"
proof -
  obtain db1 where step: "(if se_activeQuoteId session = Some (qr_id q) then Inr db
        else point_session (se_id session) (\<lambda>s. s\<lparr>se_activeQuoteId := Some (qr_id q)\<rparr>) db) = Inr db1"
    and snap: "toQuoteSnapshot px q now = Inr snapshot"
    and stored: "store_replay px (cq_kioskId input) action (cq_idempotencyKey input) h (Some (quote_body snapshot)) (qr_id q)
      now (newId 0) db1 = Inr db'"
    using run unfolding reuseQuote_def by auto
  have same: "db_quotes db' = db_quotes db1" "db_sessions db' = db_sessions db1" using store_replay_Inr [OF stored] by auto
  have "db_quotes db1 = db_quotes db" using step by (auto simp: point_session_def split: if_splits)
  moreover have "\<exists>s \<in> set (db_sessions db1). se_id s = se_id session \<and> se_activeQuoteId s = Some (qr_id q)"
  proof (cases "se_activeQuoteId session = Some (qr_id q)")
    case True
    with step s show ?thesis by auto
  next
    case False
    with step have "point_session (se_id session) (\<lambda>s. s\<lparr>se_activeQuoteId := Some (qr_id q)\<rparr>) db = Inr db1" by simp
    then obtain s where "se_id s = se_id session" "s\<lparr>se_activeQuoteId := Some (qr_id q)\<rparr> \<in> set (db_sessions db1)"
      by (rule pointed)
    then show ?thesis by (intro bexI [of _ "s\<lparr>se_activeQuoteId := Some (qr_id q)\<rparr>"]) simp_all
  qed
  ultimately show ?thesis using q snapshot_of [OF snap] by (auto simp: answered_def same reusable_def)
qed

lemma issue_answered:
  assumes run: "issueQuote px input session row breakdown action h now newId db = Inr (snapshot, db')"
  shows "answered session now breakdown snapshot db'"
  using run
proof (rule issueQuote_Inr)
  fix x db1 db2 db3
  let ?q = "newQuote px session row breakdown (newId 1) now"
  assume ins: "insertQuote ?q db1 = Inr db2" and live: "now < quote_deadline px session now"
    and point: "point_session (se_id session) (\<lambda>s. s\<lparr>se_activeQuoteId := Some (newId 1), se_eventSequence := fst x + 1\<rparr>) db2 = Inr db3"
    and snap: "toQuoteSnapshot px ?q now = Inr snapshot" and same: "same_books db3 db'"
  have "?q \<in> set (db_quotes db')"
  proof -
    have "db_quotes db' = db_quotes db2" using point same by (auto simp: point_session_def same_books_def split: if_splits)
    then show ?thesis using ins by (auto simp: insertQuote_def split: if_splits)
  qed
  moreover have "\<exists>s \<in> set (db_sessions db'). se_id s = se_id session \<and> se_activeQuoteId s = Some (newId 1)"
  proof -
    obtain s where "se_id s = se_id session"
        "s\<lparr>se_activeQuoteId := Some (newId 1), se_eventSequence := fst x + 1\<rparr> \<in> set (db_sessions db3)"
      using point by (rule pointed)
    then show ?thesis using same
      by (intro bexI [of _ "s\<lparr>se_activeQuoteId := Some (newId 1), se_eventSequence := fst x + 1\<rparr>"]) (simp_all add: same_books_def)
  qed
  ultimately show ?thesis
    using live snapshot_of [OF snap] unfolding answered_def
    by (intro conjI bexI [of _ ?q]) (simp_all add: newQuote_def)
qed

text \<open>
  C6. A price that is answered is the one in force: whether a live quote is answered again or a new one is
  issued, the answer carries the total \<open>calculateQuote\<close> gives for the session's current revision under the
  tariff published now; the quote is active, has time left, and is the one the session points at.
\<close>

theorem answered_price_is_in_force:
  assumes inv: "prices_inv px db" and tariffs: "distinct (map (rs_id \<circ> ru_set) (db_ruleSets db))"
    and s: "session \<in> set (db_sessions db)"
    and run: "quoteFresh px input session action h now newId db = Inr (snapshot, db')"
  shows "\<exists>row \<in> set (db_settings db). \<exists>ruleSet breakdown.
    sr_sessionId row = se_id session \<and> se_currentSettingsRevision session = Some (sr_revision row) \<and>
    loadPublishedRuleSet now db = Inr ruleSet \<and> calculateQuote ruleSet (revision_usage row) = Inr breakdown \<and>
    answered session now breakdown snapshot db'"
  using run
proof (rule quoteFresh_Inr)
  fix kiosk row ruleSet breakdown
  assume cur: "se_currentSettingsRevision session = Some (cq_settingsRevision input)"
    and row: "row \<in> set (db_settings db)" "sr_sessionId row = se_id session" "sr_revision row = cq_settingsRevision input"
    and rs: "loadPublishedRuleSet now db = Inr ruleSet" and c: "calculateQuote ruleSet (revision_usage row) = Inr breakdown"
    and way: "(\<exists>existing \<in> set (db_quotes db). reusable session row ruleSet now existing \<and>
       reuseQuote px input session existing action h now newId db = Inr (snapshot, db')) \<or>
     issueQuote px input session row breakdown action h now newId db = Inr (snapshot, db')"
  from way have "answered session now breakdown snapshot db'"
  proof
    assume "\<exists>existing \<in> set (db_quotes db). reusable session row ruleSet now existing \<and>
       reuseQuote px input session existing action h now newId db = Inr (snapshot, db')"
    then obtain q where q: "q \<in> set (db_quotes db)" "reusable session row ruleSet now q"
      and again: "reuseQuote px input session q action h now newId db = Inr (snapshot, db')" by blast
    have "well_priced (db_settings db) (db_ruleSets db) (priced q)" using inv q(1) by (auto simp: prices_inv_def)
    then obtain row' r where r: "row' \<in> set (db_settings db)" "r \<in> set (db_ruleSets db)" "sr_sessionId row' = qr_sessionId q"
      "sr_revision row' = qr_settingsRevision q" "calculateQuote (ru_set r) (revision_usage row') = Inr (qr_breakdown q)"
      by (auto simp: priced_def)
    have "row' = row"
      by (rule key_unique [of "\<lambda>r. (sr_sessionId r, sr_revision r)", OF _ r(1) row(1)])
        (use inv q(2) r row in \<open>auto simp: prices_inv_def reusable_def\<close>)
    moreover have "ru_set r = ruleSet"
    proof -
      obtain t where t: "t \<in> set (db_ruleSets db)" "ruleSet = ru_set t" using published_member [OF rs] by blast
      have "r = t" by (rule key_unique [OF tariffs r(2) t(1)])
          (use q(2) calculateQuote_ruleSet [OF r(5)] t(2) in \<open>simp add: reusable_def\<close>)
      then show ?thesis using t(2) by simp
    qed
    ultimately have "qr_breakdown q = breakdown" using r(5) c by simp
    then show ?thesis using reuse_answered [OF again q s] by simp
  qed (rule issue_answered)
  with cur row rs c show ?thesis by (intro bexI [of _ row] exI [of _ ruleSet] exI [of _ breakdown]) simp_all
qed

theorem answered_price_is_in_force_witness:
  "\<exists>snapshot db'. quoteFresh sample_pricing quote_input quoted_session ''a'' ''h'' 3000 (ids_from ''y'') quoted_db = Inr (snapshot, db') \<and>
     pq_status snapshot = Q_ACTIVE \<and> (\<exists>breakdown. answered quoted_session 3000 breakdown snapshot db')"
proof -
  obtain snapshot db' where run: "quoteFresh sample_pricing quote_input quoted_session ''a'' ''h'' 3000 (ids_from ''y'') quoted_db = Inr (snapshot, db')"
    using sample_answered by (cases "quoteFresh sample_pricing quote_input quoted_session ''a'' ''h'' 3000 (ids_from ''y'') quoted_db") auto
  have "distinct (map (rs_id \<circ> ru_set) (db_ruleSets quoted_db))" "quoted_session \<in> set (db_sessions quoted_db)"
    by (simp_all add: quoted_db_def configured_db_def)
  from answered_price_is_in_force [OF quoted_prices this run] run show ?thesis by (auto simp: answered_def)
qed


section \<open>The price that is paid\<close>

text \<open>
  C2. What is paid is the calculated price of what was saved: after every history that began in order,
  every payment is for the total \<open>calculateQuote\<close> gives, under a stored tariff, for the sides and sheets of a
  normalised selection of its session; the revision and the hash the payment is bound to are those of that
  selection, whose row is still stored.
\<close>

theorem payments_charge_the_calculated_price:
  assumes inv: "plane_inv db" and prices: "prices_inv (mc_pricing cfg) db"
    and p: "p \<in> set (db_payments (moneyRun cfg es db))"
  shows "\<exists>row \<in> set (db_settings (moneyRun cfg es db)). \<exists>r \<in> set (db_ruleSets (moneyRun cfg es db)). \<exists>ns input ctx breakdown.
    normalizePrintSettings input ctx = Inr ns \<and> sr_manifestHash row = hashManifest (mc_pricing cfg) ns \<and>
    sr_sessionId row = py_sessionId p \<and> sr_revision row = py_settingsRevision p \<and> sr_manifestHash row = py_manifestHash p \<and>
    calculateQuote (ru_set r) (settings_usage ns) = Inr breakdown \<and>
    py_amountMinor p = qb_totalMinor breakdown \<and> py_currency p = js_trim (qb_currency breakdown)"
proof -
  let ?db = "moneyRun cfg es db"
  have money: "money_inv ?db" and pr: "prices_inv (mc_pricing cfg) ?db"
    using moneyRun_inv [OF inv] moneyRun_prices [OF prices] by (simp_all add: plane_inv_def)
  obtain q where q: "q \<in> set (db_quotes ?db)" "payments_assert_matches_quote p q" using money_invD(9) [OF money p] by blast
  have "well_priced (db_settings ?db) (db_ruleSets ?db) (priced q)" using pr q(1) by (auto simp: prices_inv_def)
  then obtain row r where row: "row \<in> set (db_settings ?db)" "r \<in> set (db_ruleSets ?db)" "sr_sessionId row = qr_sessionId q"
      "sr_revision row = qr_settingsRevision q" "sr_manifestHash row = qr_manifestHash q"
      "calculateQuote (ru_set r) (revision_usage row) = Inr (qr_breakdown q)"
    by (auto simp: priced_def)
  obtain ns input ctx i t where ns: "normalizePrintSettings input ctx = Inr ns"
      "row = newRevision (mc_pricing cfg) (sr_sessionId row) (sr_revision row) ns i t"
    using pr row(1) unfolding prices_inv_def saved_row_def by blast
  have "revision_usage row = settings_usage ns" by (subst ns(2)) (rule newRevision_usage)
  moreover have "sr_manifestHash row = hashManifest (mc_pricing cfg) ns" by (subst ns(2)) (simp add: newRevision_def)
  ultimately show ?thesis
    using q(2) row ns(1)
    by (intro bexI [of _ row] bexI [of _ r] exI [of _ ns] exI [of _ input] exI [of _ ctx] exI [of _ "qr_breakdown q"])
      (simp_all add: payments_assert_matches_quote_def)
qed

theorem payments_charge_the_calculated_price_witness:
  "\<exists>p \<in> set (db_payments (moneyRun sample_money [pay_event ''i'' 3000] quoted_db)). \<exists>(tariff_row :: rule_set_row) ns breakdown.
    calculateQuote (ru_set tariff_row) (settings_usage ns) = Inr breakdown \<and> py_amountMinor p = qb_totalMinor breakdown \<and>
    py_amountMinor p = 9976"
proof -
  have run: "moneyRun sample_money [pay_event ''i'' 3000] quoted_db = charged_db"
    by (simp add: moneyRun_def guardedMoney_def pay_event_def charged_db_def sample_money_def)
  obtain p where p: "p \<in> set (db_payments charged_db)" "py_amountMinor p = 9976"
    using charged_overview by (auto simp: map_eq_Cons_conv)
  have "prices_inv (mc_pricing sample_money) quoted_db" using quoted_prices by (simp add: sample_money_def)
  note paid = payments_charge_the_calculated_price [OF quoted_inv this, of p "[pay_event ''i'' 3000]", unfolded run, OF p(1)]
  then show ?thesis unfolding run using p by blast
qed

section \<open>The material that is priced\<close>

text \<open>
  C5. A price is issued exactly while the choice still means what was saved: the check before pricing accepts
  a stored revision if and only if the customer's own input, normalised again from the documents the session
  holds and the printer's abilities now, gives the very settings that were saved.
\<close>

theorem price_needs_unchanged_material:
  assumes n: "normalizePrintSettings input ctx = Inr ns" and sha: "inj (px_sha256 px)"
    and limit: "pl_maxSelectedPages (px_limits px) < 1000000" and ids: "distinct (map fr_id (db_files db))"
  shows "assertManifestUnchanged px session kiosk (newRevision px sid n' ns i t) db = Inr () \<longleftrightarrow>
    normalizePrintSettings input (settingsContext px session kiosk db) = Inr ns"
proof
  let ?ctx = "settingsContext px session kiosk db"
  assume "assertManifestUnchanged px session kiosk (newRevision px sid n' ns i t) db = Inr ()"
  then obtain ns' where again: "normalizePrintSettings (input_again ns) ?ctx = Inr ns'" and h: "hashManifest px ns' = hashManifest px ns"
    by (auto simp: manifest_check)
  have "canonicalManifestJson ns' = canonicalManifestJson ns" using h sha by (simp add: hashManifest_def inj_eq)
  then have "ns' = ns" using normalized_determined [OF again n] by (simp add: manifest_text_binds_settings)
  with again show "normalizePrintSettings input ?ctx = Inr ns" using normalized_from [OF n] by simp
next
  let ?ctx = "settingsContext px session kiosk db"
  assume now: "normalizePrintSettings input ?ctx = Inr ns"
  have "normalizePrintSettings (input_again ns) ?ctx = Inr ns"
    by (rule normalized_again [OF now]) (use limit in \<open>simp add: settingsContext_def\<close>)
  moreover have "length (np_files ns) = length (selectableFiles (se_id session) db)" "np_files ns \<noteq> []"
    using normalized_length [OF now] selectable_ids [OF ids] by (simp_all add: settingsContext_def distinct_remdups_id)
  ultimately show "assertManifestUnchanged px session kiosk (newRevision px sid n' ns i t) db = Inr ()"
    by (auto simp: manifest_check)
qed

theorem price_needs_unchanged_material_witness:
  "assertManifestUnchanged (sample_pricing\<lparr>px_sha256 := (\<lambda>content. content)\<rparr>) sample_session sample_kiosk
     (newRevision (sample_pricing\<lparr>px_sha256 := (\<lambda>content. content)\<rparr>) ''s'' 1 sample_saved ''x0'' 1000) configured_db = Inr () \<and>
   assertManifestUnchanged (sample_pricing\<lparr>px_sha256 := (\<lambda>content. content)\<rparr>) sample_session sample_kiosk
     (newRevision (sample_pricing\<lparr>px_sha256 := (\<lambda>content. content)\<rparr>) ''s'' 1 sample_saved ''x0'' 1000) swapped_db \<noteq> Inr ()"
proof -
  let ?px = "sample_pricing\<lparr>px_sha256 := (\<lambda>content. content)\<rparr>"
  have px: "inj (px_sha256 ?px)" "pl_maxSelectedPages (px_limits ?px) < 1000000" by (simp_all add: inj_def sample_pricing_def)
  have ctx: "settingsContext ?px session kiosk db = settingsContext sample_pricing session kiosk db" for session kiosk db
    by (simp add: settingsContext_def)
  have "distinct (map fr_id (db_files configured_db))" "distinct (map fr_id (db_files swapped_db))"
    by (simp_all add: configured_db_def swapped_db_def paid_db_def)
  then show ?thesis
    using price_needs_unchanged_material [OF sample_saved_normalized px] sample_saved_normalized swapped_normalized
    by (simp add: ctx)
qed

end
