(* ===== verification/Ipp_Encoding.thy ===== *)
theory Ipp_Encoding
  imports Prelude "HOL-Library.Word"
begin

text \<open>
  \<^verbatim>\<open>packages/printer-adapters/src/ipp/encoding.ts\<close>: the wire format of the printing protocol. A request is
  written as a header, groups of attributes and the bytes of a document; an answer comes from a device and
  is read from bytes nobody vouches for. Text is UTF-8, as \<open>TextEncoder\<close> and \<open>TextDecoder\<close> write and read it.
\<close>

section \<open>Text\<close>

type_synonym octet = "8 word"

text \<open>A JavaScript string: its UTF-16 code units.\<close>

type_synonym js_text = "16 word list"

definition lead_surrogate :: "16 word \<Rightarrow> bool" where
  "lead_surrogate u \<longleftrightarrow> 0xD800 \<le> unat u \<and> unat u \<le> 0xDBFF"

definition trail_surrogate :: "16 word \<Rightarrow> bool" where
  "trail_surrogate u \<longleftrightarrow> 0xDC00 \<le> unat u \<and> unat u \<le> 0xDFFF"

text \<open>The scalar values of a text; a surrogate without its partner is read as U+FFFD.\<close>

fun scalars :: "js_text \<Rightarrow> nat list" where
  "scalars [] = []"
| "scalars [u] = [if lead_surrogate u \<or> trail_surrogate u then 0xFFFD else unat u]"
| "scalars (u # v # us) =
     (if lead_surrogate u \<and> trail_surrogate v
      then (0x10000 + (unat u - 0xD800) * 0x400 + (unat v - 0xDC00)) # scalars us
      else (if lead_surrogate u \<or> trail_surrogate u then 0xFFFD else unat u) # scalars (v # us))"

definition utf8_scalar :: "nat \<Rightarrow> octet list" where
  "utf8_scalar n =
     (if n < 0x80 then [of_nat n]
      else if n < 0x800 then [of_nat (0xC0 + n div 64), of_nat (0x80 + n mod 64)]
      else if n < 0x10000
      then [of_nat (0xE0 + n div 4096), of_nat (0x80 + n div 64 mod 64), of_nat (0x80 + n mod 64)]
      else [of_nat (0xF0 + n div 262144), of_nat (0x80 + n div 4096 mod 64), of_nat (0x80 + n div 64 mod 64),
            of_nat (0x80 + n mod 64)])"

definition encodeText :: "js_text \<Rightarrow> octet list" where
  "encodeText value = concat (map utf8_scalar (scalars value))"

text \<open>
  The decoder: the first byte says how many follow and within which bounds the second lies; where a byte
  does not fit, what was read so far is one U+FFFD and that byte is read again.
\<close>

definition byte_between :: "nat \<Rightarrow> nat \<Rightarrow> octet \<Rightarrow> bool" where
  "byte_between lower upper b \<longleftrightarrow> lower \<le> unat b \<and> unat b \<le> upper"

fun utf8_scalars :: "octet list \<Rightarrow> nat list" where
  "utf8_scalars [] = []"
| "utf8_scalars (a # bs) =
     (if unat a < 0x80 then unat a # utf8_scalars bs
      else if byte_between 0xC2 0xDF a then
        (case bs of
           b # cs \<Rightarrow> if byte_between 0x80 0xBF b then ((unat a - 0xC0) * 64 + (unat b - 0x80)) # utf8_scalars cs
                     else 0xFFFD # utf8_scalars bs
         | [] \<Rightarrow> [0xFFFD])
      else if byte_between 0xE0 0xEF a then
        (case bs of
           b # cs \<Rightarrow>
             if byte_between (if unat a = 0xE0 then 0xA0 else 0x80) (if unat a = 0xED then 0x9F else 0xBF) b then
               (case cs of
                  c # ds \<Rightarrow> if byte_between 0x80 0xBF c
                            then ((unat a - 0xE0) * 4096 + (unat b - 0x80) * 64 + (unat c - 0x80)) # utf8_scalars ds
                            else 0xFFFD # utf8_scalars cs
                | [] \<Rightarrow> [0xFFFD])
             else 0xFFFD # utf8_scalars bs
         | [] \<Rightarrow> [0xFFFD])
      else if byte_between 0xF0 0xF4 a then
        (case bs of
           b # cs \<Rightarrow>
             if byte_between (if unat a = 0xF0 then 0x90 else 0x80) (if unat a = 0xF4 then 0x8F else 0xBF) b then
               (case cs of
                  c # ds \<Rightarrow>
                    if byte_between 0x80 0xBF c then
                      (case ds of
                         d # es \<Rightarrow> if byte_between 0x80 0xBF d
                           then ((unat a - 0xF0) * 262144 + (unat b - 0x80) * 4096 + (unat c - 0x80) * 64 + (unat d - 0x80))
                             # utf8_scalars es
                           else 0xFFFD # utf8_scalars ds
                       | [] \<Rightarrow> [0xFFFD])
                    else 0xFFFD # utf8_scalars cs
                | [] \<Rightarrow> [0xFFFD])
             else 0xFFFD # utf8_scalars bs
         | [] \<Rightarrow> [0xFFFD])
      else 0xFFFD # utf8_scalars bs)"

definition utf16_scalar :: "nat \<Rightarrow> js_text" where
  "utf16_scalar n =
     (if n < 0x10000 then [of_nat n]
      else [of_nat (0xD800 + (n - 0x10000) div 0x400), of_nat (0xDC00 + (n - 0x10000) mod 0x400)])"

text \<open>A byte order mark at the start is not part of the text.\<close>

definition decodeText :: "octet list \<Rightarrow> js_text" where
  "decodeText value =
     concat (map utf16_scalar (utf8_scalars (if take 3 value = [0xEF, 0xBB, 0xBF] then drop 3 value else value)))"

section \<open>Numbers\<close>

text \<open>\<open>DataView\<close> writes a number modulo its width, the most significant byte first.\<close>

definition setUint16 :: "int \<Rightarrow> octet list" where
  "setUint16 v = [word_of_int (v div 256), word_of_int v]"

definition setUint32 :: "int \<Rightarrow> octet list" where
  "setUint32 v = [word_of_int (v div 16777216), word_of_int (v div 65536), word_of_int (v div 256), word_of_int v]"

definition getUint16 :: "octet \<Rightarrow> octet \<Rightarrow> int" where
  "getUint16 a b = 256 * uint a + uint b"

definition getUint32 :: "octet \<Rightarrow> octet \<Rightarrow> octet \<Rightarrow> octet \<Rightarrow> int" where
  "getUint32 a b c d = 16777216 * uint a + 65536 * uint b + 256 * uint c + uint d"

definition getInt32 :: "octet \<Rightarrow> octet \<Rightarrow> octet \<Rightarrow> octet \<Rightarrow> int" where
  "getInt32 a b c d = sint (word_of_int (getUint32 a b c d) :: 32 word)"

section \<open>Messages\<close>

definition IPP_VERSION_MAJOR :: octet where "IPP_VERSION_MAJOR = 1"
definition IPP_VERSION_MINOR :: octet where "IPP_VERSION_MINOR = 1"
definition END_OF_ATTRIBUTES :: octet where "END_OF_ATTRIBUTES = 0x03"

definition OPERATION_ATTRIBUTES :: octet where "OPERATION_ATTRIBUTES = 0x01"
definition JOB_ATTRIBUTES :: octet where "JOB_ATTRIBUTES = 0x02"
definition PRINTER_ATTRIBUTES :: octet where "PRINTER_ATTRIBUTES = 0x04"

definition TAG_INTEGER :: octet where "TAG_INTEGER = 0x21"
definition TAG_BOOLEAN :: octet where "TAG_BOOLEAN = 0x22"
definition TAG_ENUM :: octet where "TAG_ENUM = 0x23"
definition TAG_RANGE_OF_INTEGER :: octet where "TAG_RANGE_OF_INTEGER = 0x33"
definition TAG_TEXT_WITHOUT_LANGUAGE :: octet where "TAG_TEXT_WITHOUT_LANGUAGE = 0x41"
definition TAG_NAME_WITHOUT_LANGUAGE :: octet where "TAG_NAME_WITHOUT_LANGUAGE = 0x42"
definition TAG_KEYWORD :: octet where "TAG_KEYWORD = 0x44"
definition TAG_URI :: octet where "TAG_URI = 0x45"
definition TAG_CHARSET :: octet where "TAG_CHARSET = 0x47"
definition TAG_NATURAL_LANGUAGE :: octet where "TAG_NATURAL_LANGUAGE = 0x48"
definition TAG_MIME_MEDIA_TYPE :: octet where "TAG_MIME_MEDIA_TYPE = 0x49"

text \<open>Structured and out-of-band values, in the order \<open>decodeAttributeValue\<close> lists them.\<close>

definition PLACEHOLDER_TAGS :: "octet list" where
  "PLACEHOLDER_TAGS = [0x35, 0x36, 0x31, 0x32, 0x30, 0x34, 0x37, 0x10, 0x12, 0x13]"

datatype ipp_value = IppText js_text | IppNumber int | IppBoolean bool

record ipp_attribute =
  ia_name :: js_text
  ia_tag :: octet
  ia_values :: "ipp_value list"

record ipp_group =
  ig_tag :: octet
  ig_attributes :: "ipp_attribute list"

record ipp_request =
  iq_operation :: int
  iq_requestId :: int
  iq_groups :: "ipp_group list"
  iq_data :: "octet list"

record ipp_response =
  ip_statusCode :: int
  ip_requestId :: int
  ip_groups :: "ipp_group list"

datatype ipp_error = IppProtocolError string

record ipp_decode_limits =
  il_maxAttributes :: int
  il_maxValueBytes :: int

definition DEFAULT_DECODE_LIMITS :: ipp_decode_limits where
  "DEFAULT_DECODE_LIMITS = \<lparr>il_maxAttributes = 4096, il_maxValueBytes = 65535\<rparr>"

section \<open>Writing\<close>

definition encodeValueBytes :: "octet \<Rightarrow> ipp_value \<Rightarrow> ipp_error + octet list" where
  "encodeValueBytes tag v =
     (if tag = TAG_INTEGER \<or> tag = TAG_ENUM then
        (case v of IppNumber n \<Rightarrow> if is_safe_integer n then Inr (setUint32 n) else Inl (IppProtocolError ''IPP_VALUE_NOT_INTEGER'')
         | _ \<Rightarrow> Inl (IppProtocolError ''IPP_VALUE_NOT_INTEGER''))
      else if tag = TAG_BOOLEAN then
        (case v of IppBoolean b \<Rightarrow> Inr [if b then 1 else 0] | _ \<Rightarrow> Inl (IppProtocolError ''IPP_VALUE_NOT_BOOLEAN''))
      else (case v of IppText t \<Rightarrow> Inr (encodeText t) | _ \<Rightarrow> Inl (IppProtocolError ''IPP_VALUE_NOT_TEXT'')))"

definition encodeAttributeValue :: "octet \<Rightarrow> js_text \<Rightarrow> ipp_value \<Rightarrow> ipp_error + octet list" where
  "encodeAttributeValue tag name v =
     (let nameBytes = encodeText name in
      bind_result (encodeValueBytes tag v) (\<lambda>valueBytes.
      if 0xFFFF < length nameBytes \<or> 0xFFFF < length valueBytes then Inl (IppProtocolError ''IPP_ATTRIBUTE_TOO_LARGE'')
      else Inr ([tag] @ setUint16 (int (length nameBytes)) @ nameBytes @ setUint16 (int (length valueBytes)) @ valueBytes)))"

definition encodeAttribute :: "ipp_attribute \<Rightarrow> ipp_error + octet list" where
  "encodeAttribute a =
     (case ia_values a of
        [] \<Rightarrow> Inl (IppProtocolError ''IPP_ATTRIBUTE_WITHOUT_VALUE'')
      | v # vs \<Rightarrow>
          bind_result (encodeAttributeValue (ia_tag a) (ia_name a) v) (\<lambda>first.
          bind_result (map_result (encodeAttributeValue (ia_tag a) []) vs) (\<lambda>others. Inr (first @ concat others))))"

definition encodeGroup :: "ipp_group \<Rightarrow> ipp_error + octet list" where
  "encodeGroup g = bind_result (map_result encodeAttribute (ig_attributes g)) (\<lambda>chunks. Inr (ig_tag g # concat chunks))"

definition encodeIppRequest :: "ipp_request \<Rightarrow> ipp_error + octet list" where
  "encodeIppRequest request =
     bind_result (map_result encodeGroup (iq_groups request)) (\<lambda>chunks.
     Inr ([IPP_VERSION_MAJOR, IPP_VERSION_MINOR] @ setUint16 (iq_operation request) @ setUint32 (iq_requestId request) @
       concat chunks @ [END_OF_ATTRIBUTES] @ iq_data request))"

text \<open>A whole number beyond four bytes is not refused: it is written modulo their range.\<close>

lemma number_wraps: "encodeValueBytes TAG_INTEGER (IppNumber 4294967297) = encodeValueBytes TAG_INTEGER (IppNumber 1)"
  by (simp add: encodeValueBytes_def is_safe_integer_def max_safe_integer_def setUint32_def word_of_int_eq_iff take_bit_eq_mod)

section \<open>Reading\<close>

definition isDelimiterTag :: "octet \<Rightarrow> bool" where
  "isDelimiterTag tag \<longleftrightarrow> unat tag \<le> 5"

fun decodeAttributeValue :: "octet \<Rightarrow> octet list \<Rightarrow> ipp_error + ipp_value" where
  "decodeAttributeValue tag raw =
     (if tag = TAG_INTEGER \<or> tag = TAG_ENUM then
        (case raw of [a, b, c, d] \<Rightarrow> Inr (IppNumber (getInt32 a b c d)) | _ \<Rightarrow> Inl (IppProtocolError ''IPP_INTEGER_LENGTH_INVALID''))
      else if tag = TAG_BOOLEAN then
        (case raw of [a] \<Rightarrow> Inr (IppBoolean (a = 1)) | _ \<Rightarrow> Inl (IppProtocolError ''IPP_BOOLEAN_LENGTH_INVALID''))
      else if tag = TAG_RANGE_OF_INTEGER then
        (case raw of [a, b, c, d, e, f, g, h] \<Rightarrow> Inr (IppNumber (getInt32 e f g h))
         | _ \<Rightarrow> Inl (IppProtocolError ''IPP_RANGE_LENGTH_INVALID''))
      else if tag \<in> set PLACEHOLDER_TAGS then Inr (IppText [])
      else Inr (IppText (decodeText raw)))"

declare decodeAttributeValue.simps [simp del]

text \<open>A length of two bytes and what it announces: both have to be there, and within the ceiling.\<close>

definition readField :: "ipp_decode_limits \<Rightarrow> octet list \<Rightarrow> ipp_error + (octet list \<times> octet list)" where
  "readField limits bytes =
     (case bytes of
        a # b # rest \<Rightarrow>
          let n = getUint16 a b in
          if il_maxValueBytes limits < n \<or> int (length rest) < n then Inl (IppProtocolError ''IPP_RESPONSE_TRUNCATED'')
          else Inr (take (nat n) rest, drop (nat n) rest)
      | _ \<Rightarrow> Inl (IppProtocolError ''IPP_RESPONSE_TRUNCATED''))"

lemma readField_length:
  "readField limits bytes = Inr (field, rest) \<Longrightarrow> length field + length rest + 2 = length bytes"
  by (auto simp: readField_def Let_def getUint16_def split: list.splits if_splits)

text \<open>\<open>attribute\<close> is the last attribute of the open group, or undefined while the group has none.\<close>

fun push_value :: "ipp_value \<Rightarrow> ipp_attribute list \<Rightarrow> ipp_attribute list" where
  "push_value v [] = []"
| "push_value v [a] = [a\<lparr>ia_values := ia_values a @ [v]\<rparr>]"
| "push_value v (a # b # as) = a # push_value v (b # as)"

definition close_group :: "ipp_group list \<Rightarrow> ipp_group option \<Rightarrow> ipp_group list" where
  "close_group groups current = groups @ (case current of None \<Rightarrow> [] | Some g \<Rightarrow> [g])"

function decodeLoop ::
  "ipp_decode_limits \<Rightarrow> int \<Rightarrow> ipp_group list \<Rightarrow> ipp_group option \<Rightarrow> octet list \<Rightarrow> ipp_error + ipp_group list" where
  "decodeLoop limits attributeCount groups current [] = Inl (IppProtocolError ''IPP_RESPONSE_UNTERMINATED'')"
| "decodeLoop limits attributeCount groups current (tag # bytes) =
     (if tag = END_OF_ATTRIBUTES then Inr (close_group groups current)
      else if isDelimiterTag tag
      then decodeLoop limits attributeCount (close_group groups current) (Some \<lparr>ig_tag = tag, ig_attributes = []\<rparr>) bytes
      else case readField limits bytes of
        Inl e \<Rightarrow> Inl e
      | Inr (name, rest1) \<Rightarrow> (case readField limits rest1 of
          Inl e \<Rightarrow> Inl e
        | Inr (raw, rest) \<Rightarrow> (case current of
            None \<Rightarrow> Inl (IppProtocolError ''IPP_ATTRIBUTE_OUTSIDE_GROUP'')
          | Some g \<Rightarrow> (case decodeAttributeValue tag raw of
              Inl e \<Rightarrow> Inl e
            | Inr v \<Rightarrow>
                if name = [] then
                  (if ig_attributes g = [] then Inl (IppProtocolError ''IPP_ADDITIONAL_VALUE_WITHOUT_ATTRIBUTE'')
                   else decodeLoop limits attributeCount groups (Some (g\<lparr>ig_attributes := push_value v (ig_attributes g)\<rparr>)) rest)
                else if il_maxAttributes limits < attributeCount + 1 then Inl (IppProtocolError ''IPP_RESPONSE_TOO_LARGE'')
                else decodeLoop limits (attributeCount + 1) groups
                  (Some (g\<lparr>ig_attributes := ig_attributes g @ [\<lparr>ia_name = decodeText name, ia_tag = tag, ia_values = [v]\<rparr>]\<rparr>)) rest))))"
  by pat_completeness auto
termination
  by (relation "measure (\<lambda>(limits, n, groups, current, bytes). length bytes)") (auto dest!: readField_length)

definition decodeIppResponse :: "octet list \<Rightarrow> ipp_decode_limits \<Rightarrow> ipp_error + ipp_response" where
  "decodeIppResponse bytes limits =
     (if length bytes < 9 then Inl (IppProtocolError ''IPP_RESPONSE_TRUNCATED'')
      else bind_result (decodeLoop limits 0 [] None (drop 8 bytes)) (\<lambda>groups.
        Inr \<lparr>ip_statusCode = getUint16 (bytes ! 2) (bytes ! 3),
             ip_requestId = getUint32 (bytes ! 4) (bytes ! 5) (bytes ! 6) (bytes ! 7), ip_groups = groups\<rparr>))"

section \<open>Attributes of an answer\<close>

fun findAttribute :: "ipp_group list \<Rightarrow> octet \<Rightarrow> js_text \<Rightarrow> ipp_attribute option" where
  "findAttribute [] groupTag name = None"
| "findAttribute (g # gs) groupTag name =
     (if ig_tag g \<noteq> groupTag then findAttribute gs groupTag name
      else case List.find (\<lambda>a. ia_name a = name) (ig_attributes g) of
        Some a \<Rightarrow> Some a | None \<Rightarrow> findAttribute gs groupTag name)"

definition readIntegerAttribute :: "ipp_response \<Rightarrow> octet \<Rightarrow> js_text \<Rightarrow> int option" where
  "readIntegerAttribute response groupTag name =
     (case findAttribute (ip_groups response) groupTag name of
        Some a \<Rightarrow> (case ia_values a of IppNumber n # _ \<Rightarrow> if is_safe_integer n then Some n else None | _ \<Rightarrow> None)
      | None \<Rightarrow> None)"

definition readStringAttribute :: "ipp_response \<Rightarrow> octet \<Rightarrow> js_text \<Rightarrow> js_text option" where
  "readStringAttribute response groupTag name =
     (case findAttribute (ip_groups response) groupTag name of
        Some a \<Rightarrow> (case ia_values a of IppText t # _ \<Rightarrow> Some t | _ \<Rightarrow> None)
      | None \<Rightarrow> None)"

definition readStringListAttribute :: "ipp_response \<Rightarrow> octet \<Rightarrow> js_text \<Rightarrow> js_text list" where
  "readStringListAttribute response groupTag name =
     (case findAttribute (ip_groups response) groupTag name of
        None \<Rightarrow> []
      | Some a \<Rightarrow> concat (map (\<lambda>v. case v of IppText t \<Rightarrow> [t] | _ \<Rightarrow> []) (ia_values a)))"

section \<open>Attributes of a request\<close>

text \<open>A literal of the source as the text it is.\<close>

definition js :: "string \<Rightarrow> js_text" where
  "js s = map (\<lambda>c. of_nat (of_char c)) s"

definition textAttribute :: "js_text \<Rightarrow> js_text \<Rightarrow> ipp_attribute" where
  "textAttribute name v = \<lparr>ia_name = name, ia_tag = TAG_TEXT_WITHOUT_LANGUAGE, ia_values = [IppText v]\<rparr>"

definition nameAttribute :: "js_text \<Rightarrow> js_text \<Rightarrow> ipp_attribute" where
  "nameAttribute name v = \<lparr>ia_name = name, ia_tag = TAG_NAME_WITHOUT_LANGUAGE, ia_values = [IppText v]\<rparr>"

definition keywordAttribute :: "js_text \<Rightarrow> js_text list \<Rightarrow> ipp_attribute" where
  "keywordAttribute name vs = \<lparr>ia_name = name, ia_tag = TAG_KEYWORD, ia_values = map IppText vs\<rparr>"

definition uriAttribute :: "js_text \<Rightarrow> js_text \<Rightarrow> ipp_attribute" where
  "uriAttribute name v = \<lparr>ia_name = name, ia_tag = TAG_URI, ia_values = [IppText v]\<rparr>"

definition integerAttribute :: "js_text \<Rightarrow> int \<Rightarrow> ipp_attribute" where
  "integerAttribute name v = \<lparr>ia_name = name, ia_tag = TAG_INTEGER, ia_values = [IppNumber v]\<rparr>"

definition enumAttribute :: "js_text \<Rightarrow> int \<Rightarrow> ipp_attribute" where
  "enumAttribute name v = \<lparr>ia_name = name, ia_tag = TAG_ENUM, ia_values = [IppNumber v]\<rparr>"

definition booleanAttribute :: "js_text \<Rightarrow> bool \<Rightarrow> ipp_attribute" where
  "booleanAttribute name v = \<lparr>ia_name = name, ia_tag = TAG_BOOLEAN, ia_values = [IppBoolean v]\<rparr>"

definition mimeTypeAttribute :: "js_text \<Rightarrow> js_text \<Rightarrow> ipp_attribute" where
  "mimeTypeAttribute name v = \<lparr>ia_name = name, ia_tag = TAG_MIME_MEDIA_TYPE, ia_values = [IppText v]\<rparr>"

definition operationPreamble :: "ipp_attribute list" where
  "operationPreamble =
     [\<lparr>ia_name = js ''attributes-charset'', ia_tag = TAG_CHARSET, ia_values = [IppText (js ''utf-8'')]\<rparr>,
      \<lparr>ia_name = js ''attributes-natural-language'', ia_tag = TAG_NATURAL_LANGUAGE, ia_values = [IppText (js ''en'')]\<rparr>]"

section \<open>Text survives\<close>

lemma unat_octet: "k < 256 \<Longrightarrow> unat (of_nat k :: octet) = k"
  by (simp add: unat_of_nat take_bit_eq_mod)

lemma unat_unit: "k < 65536 \<Longrightarrow> unat (of_nat k :: 16 word) = k"
  by (simp add: unat_of_nat take_bit_eq_mod)

definition scalar_value :: "nat \<Rightarrow> bool" where
  "scalar_value n \<longleftrightarrow> n < 0xD800 \<or> (0xE000 \<le> n \<and> n < 0x110000)"

declare utf8_scalars.simps(2) [simp del]

lemma utf8_one:
  assumes "n < 0x80"
  shows "utf8_scalars (utf8_scalar n @ bs) = n # utf8_scalars bs"
  using assms by (simp add: utf8_scalar_def utf8_scalars.simps(2) unat_octet)

lemma read_two:
  assumes "unat a = 0xC0 + i" and "2 \<le> i" and "i < 32" and "unat b = 0x80 + j" and "j < 64"
  shows "utf8_scalars (a # b # bs) = (i * 64 + j) # utf8_scalars bs"
  using assms by (simp add: utf8_scalars.simps(2) [of a] byte_between_def)

lemma read_three:
  assumes "unat a = 0xE0 + i" and "i < 16" and "unat b = 0x80 + j" and "j < 64" and "unat c = 0x80 + k" and "k < 64"
    and "i = 0 \<Longrightarrow> 32 \<le> j" and "i = 13 \<Longrightarrow> j < 32"
  shows "utf8_scalars (a # b # c # bs) = (i * 4096 + j * 64 + k) # utf8_scalars bs"
proof -
  have "byte_between (if unat a = 0xE0 then 0xA0 else 0x80) (if unat a = 0xED then 0x9F else 0xBF) b"
    using assms by (auto simp: byte_between_def)
  then show ?thesis using assms by (simp add: utf8_scalars.simps(2) [of a] byte_between_def)
qed

lemma read_four:
  assumes "unat a = 0xF0 + i" and "i < 5" and "unat b = 0x80 + j" and "j < 64" and "unat c = 0x80 + k" and "k < 64"
    and "unat d = 0x80 + l" and "l < 64" and "i = 0 \<Longrightarrow> 16 \<le> j" and "i = 4 \<Longrightarrow> j < 16"
  shows "utf8_scalars (a # b # c # d # bs) = (i * 262144 + j * 4096 + k * 64 + l) # utf8_scalars bs"
proof -
  have "byte_between (if unat a = 0xF0 then 0x90 else 0x80) (if unat a = 0xF4 then 0x8F else 0xBF) b"
    using assms by (auto simp: byte_between_def)
  then show ?thesis using assms by (simp add: utf8_scalars.simps(2) [of a] byte_between_def)
qed

lemma utf8_two:
  assumes "0x80 \<le> n" and "n < 0x800"
  shows "utf8_scalars (utf8_scalar n @ bs) = n # utf8_scalars bs"
proof -
  have code: "utf8_scalar n @ bs = of_nat (0xC0 + n div 64) # of_nat (0x80 + n mod 64) # bs"
    using assms by (simp add: utf8_scalar_def)
  have "n div 64 * 64 + n mod 64 = n" by presburger
  then show ?thesis unfolding code
    using assms read_two [of "of_nat (0xC0 + n div 64)" "n div 64" "of_nat (0x80 + n mod 64)" "n mod 64" bs]
    by (simp add: unat_octet del: of_nat_add)
qed

lemma three_digits: "n = n div 4096 * 4096 + n div 64 mod 64 * 64 + n mod (64 :: nat)"
proof -
  have "n div 4096 = n div 64 div 64" using div_mult2_eq [of n 64 64] by simp
  then show ?thesis using div_mult_mod_eq [of n 64] div_mult_mod_eq [of "n div 64" 64] by linarith
qed

lemma four_digits: "n = n div 262144 * 262144 + n div 4096 mod 64 * 4096 + n div 64 mod 64 * 64 + n mod (64 :: nat)"
proof -
  have "n div 262144 = n div 4096 div 64" using div_mult2_eq [of n 4096 64] by simp
  then show ?thesis using three_digits [of n] div_mult_mod_eq [of "n div 4096" 64] by linarith
qed

lemma utf8_three:
  assumes "0x800 \<le> n" and "n < 0x10000" and "scalar_value n"
  shows "utf8_scalars (utf8_scalar n @ bs) = n # utf8_scalars bs"
proof -
  define i j k where "i = n div 4096" and "j = n div 64 mod 64" and "k = n mod 64"
  have bounds: "i < 16" "j < 64" "k < 64" using assms by (auto simp: i_def j_def k_def)
  have n: "n = i * 4096 + j * 64 + k" unfolding i_def j_def k_def by (rule three_digits)
  have first: "i = 0 \<Longrightarrow> 32 \<le> j" and surrogate: "i = 13 \<Longrightarrow> j < 32"
    using assms n bounds by (auto simp: scalar_value_def)
  have code: "utf8_scalar n @ bs = of_nat (0xE0 + i) # of_nat (0x80 + j) # of_nat (0x80 + k) # bs"
    using assms by (simp add: utf8_scalar_def i_def j_def k_def)
  have bytes: "unat (of_nat (0xE0 + i) :: octet) = 0xE0 + i" "unat (of_nat (0x80 + j) :: octet) = 0x80 + j"
    "unat (of_nat (0x80 + k) :: octet) = 0x80 + k" using bounds by (intro unat_octet; simp)+
  show ?thesis unfolding code by (subst n, rule read_three [OF bytes(1) bounds(1) bytes(2) bounds(2) bytes(3) bounds(3)])
      (erule first surrogate)+
qed

lemma utf8_four:
  assumes "0x10000 \<le> n" and "n < 0x110000"
  shows "utf8_scalars (utf8_scalar n @ bs) = n # utf8_scalars bs"
proof -
  define i j k l where "i = n div 262144" and "j = n div 4096 mod 64" and "k = n div 64 mod 64" and "l = n mod 64"
  have bounds: "i < 5" "j < 64" "k < 64" "l < 64" using assms by (auto simp: i_def j_def k_def l_def)
  have n: "n = i * 262144 + j * 4096 + k * 64 + l" unfolding i_def j_def k_def l_def by (rule four_digits)
  have first: "i = 0 \<Longrightarrow> 16 \<le> j" and highest: "i = 4 \<Longrightarrow> j < 16" using assms n bounds by auto
  have code: "utf8_scalar n @ bs = of_nat (0xF0 + i) # of_nat (0x80 + j) # of_nat (0x80 + k) # of_nat (0x80 + l) # bs"
    using assms by (simp add: utf8_scalar_def i_def j_def k_def l_def)
  have bytes: "unat (of_nat (0xF0 + i) :: octet) = 0xF0 + i" "unat (of_nat (0x80 + j) :: octet) = 0x80 + j"
    "unat (of_nat (0x80 + k) :: octet) = 0x80 + k" "unat (of_nat (0x80 + l) :: octet) = 0x80 + l"
    using bounds by (intro unat_octet; simp)+
  show ?thesis unfolding code
    by (subst n, rule read_four [OF bytes(1) bounds(1) bytes(2) bounds(2) bytes(3) bounds(3) bytes(4) bounds(4)])
      (erule first highest)+
qed

lemma utf8_scalar_read:
  assumes "scalar_value n"
  shows "utf8_scalars (utf8_scalar n @ bs) = n # utf8_scalars bs"
proof -
  have "n < 0x80 \<or> (0x80 \<le> n \<and> n < 0x800) \<or> (0x800 \<le> n \<and> n < 0x10000) \<or> (0x10000 \<le> n \<and> n < 0x110000)"
    using assms by (auto simp: scalar_value_def)
  then show ?thesis using assms utf8_one utf8_two utf8_three utf8_four by blast
qed

lemma utf8_scalars_read:
  "(\<And>n. n \<in> set ns \<Longrightarrow> scalar_value n) \<Longrightarrow> utf8_scalars (concat (map utf8_scalar ns)) = ns"
  by (induction ns) (simp_all add: utf8_scalar_read)

text \<open>\<open>isWellFormed\<close>: every surrogate has its partner.\<close>

fun well_formed_text :: "js_text \<Rightarrow> bool" where
  "well_formed_text [] = True"
| "well_formed_text [u] \<longleftrightarrow> \<not> lead_surrogate u \<and> \<not> trail_surrogate u"
| "well_formed_text (u # v # us) =
     (if lead_surrogate u then trail_surrogate v \<and> well_formed_text us
      else \<not> trail_surrogate u \<and> well_formed_text (v # us))"

lemma unit_bound: "unat (u :: 16 word) < 0x10000"
  using unsigned_less [of u, where ?'a = nat] by simp

lemma scalars_valid: "n \<in> set (scalars t) \<Longrightarrow> scalar_value n"
proof (induction t arbitrary: n rule: scalars.induct)
  case (2 u)
  then show ?case using unit_bound [of u] by (auto simp: scalar_value_def lead_surrogate_def trail_surrogate_def split: if_splits)
next
  case (3 u v us)
  then show ?case using unit_bound [of u] unit_bound [of v]
    by (auto simp: scalar_value_def lead_surrogate_def trail_surrogate_def split: if_splits)
qed simp

lemma surrogate_pair:
  assumes "lead_surrogate u" and "trail_surrogate v"
  shows "utf16_scalar (0x10000 + (unat u - 0xD800) * 0x400 + (unat v - 0xDC00)) = [u, v]"
proof -
  define a b where "a = unat u - 0xD800" and "b = unat v - 0xDC00"
  have ab: "b < 0x400" "0xD800 + a = unat u" "0xDC00 + b = unat v"
    using assms by (auto simp: lead_surrogate_def trail_surrogate_def a_def b_def)
  then show ?thesis unfolding utf16_scalar_def a_def [symmetric] b_def [symmetric] by simp
qed

lemma utf16_scalars: "well_formed_text t \<Longrightarrow> concat (map utf16_scalar (scalars t)) = t"
proof (induction t rule: scalars.induct)
  case (2 u)
  then show ?case using unit_bound [of u] by (simp add: utf16_scalar_def)
next
  case (3 u v us)
  show ?case
  proof (cases "lead_surrogate u")
    case True
    then show ?thesis using 3 surrogate_pair by simp
  next
    case False
    then show ?thesis using 3 unit_bound [of u] by (simp add: utf16_scalar_def)
  qed
qed simp

lemma bom_read: "utf8_scalars (0xEF # 0xBB # 0xBF # bs) = 0xFEFF # utf8_scalars bs"
  by (simp add: utf8_scalars.simps(2) byte_between_def)

definition plain_text :: "js_text \<Rightarrow> bool" where
  "plain_text t \<longleftrightarrow> well_formed_text t \<and> take 1 t \<noteq> [0xFEFF]"

lemma first_scalar_bom: "scalars t = 0xFEFF # ns \<Longrightarrow> well_formed_text t \<Longrightarrow> take 1 t = [0xFEFF]"
  by (drule utf16_scalars) (auto simp: utf16_scalar_def)

lemma decodeText_encodeText:
  assumes "plain_text t"
  shows "decodeText (encodeText t) = t"
proof -
  have read: "utf8_scalars (encodeText t) = scalars t" using scalars_valid by (simp add: encodeText_def utf8_scalars_read)
  have "take 3 (encodeText t) \<noteq> [0xEF, 0xBB, 0xBF]"
  proof
    assume "take 3 (encodeText t) = [0xEF, 0xBB, 0xBF]"
    then have "encodeText t = [0xEF, 0xBB, 0xBF] @ drop 3 (encodeText t)" by (metis append_take_drop_id)
    then have "utf8_scalars (encodeText t) = 0xFEFF # utf8_scalars (drop 3 (encodeText t))"
      using bom_read [of "drop 3 (encodeText t)"] by (metis append.simps)
    then have "scalars t = 0xFEFF # utf8_scalars (drop 3 (encodeText t))" using read by simp
    then show False using assms first_scalar_bom by (auto simp: plain_text_def)
  qed
  then show ?thesis using assms read utf16_scalars by (simp add: decodeText_def plain_text_def)
qed

section \<open>A request read back\<close>

lemma octet_of_int: "uint (word_of_int v :: octet) = v mod 256"
  by (simp add: uint_word_of_int)

lemma getUint16_setUint16: "getUint16 (word_of_int (v div 256)) (word_of_int v) = v mod 65536"
proof -
  have "v div 256 mod 256 * 256 + v mod 256 = v mod 65536" using zmod_zmult2_eq [of 256 v 256] by simp
  then show ?thesis by (simp add: getUint16_def octet_of_int)
qed

lemma getUint32_setUint32:
  "getUint32 (word_of_int (v div 16777216)) (word_of_int (v div 65536)) (word_of_int (v div 256)) (word_of_int v)
     = v mod 4294967296"
proof -
  have "256 * (v div 256 mod 256) + v mod 256 = v mod 65536" using zmod_zmult2_eq [of 256 v 256] by simp
  moreover have "65536 * (v div 65536 mod 256) + v mod 65536 = v mod 16777216" using zmod_zmult2_eq [of 256 v 65536] by simp
  moreover have "16777216 * (v div 16777216 mod 256) + v mod 16777216 = v mod 4294967296"
    using zmod_zmult2_eq [of 256 v 16777216] by simp
  ultimately show ?thesis by (simp only: getUint32_def octet_of_int add.assoc)
qed

lemma getInt32_setUint32:
  assumes "- 2147483648 \<le> v" and "v \<le> 2147483647"
  shows "getInt32 (word_of_int (v div 16777216)) (word_of_int (v div 65536)) (word_of_int (v div 256)) (word_of_int v) = v"
proof -
  have "(word_of_int (v mod 4294967296) :: 32 word) = word_of_int v"
    by (intro word_uint_eqI) (simp add: uint_word_of_int)
  moreover have "sint (word_of_int v :: 32 word) = v"
    using assms by (simp add: signed_of_int signed_take_bit_int_eq_self)
  ultimately show ?thesis by (simp add: getInt32_def getUint32_setUint32)
qed

text \<open>What comes back as it was written: values of their tag's kind, within the widths of the format.\<close>

definition value_sound :: "octet \<Rightarrow> ipp_value \<Rightarrow> bool" where
  "value_sound tag v \<longleftrightarrow>
     (case v of
        IppNumber n \<Rightarrow> (tag = TAG_INTEGER \<or> tag = TAG_ENUM) \<and> - 2147483648 \<le> n \<and> n \<le> 2147483647
      | IppBoolean b \<Rightarrow> tag = TAG_BOOLEAN
      | IppText t \<Rightarrow> tag \<notin> set (TAG_INTEGER # TAG_ENUM # TAG_BOOLEAN # TAG_RANGE_OF_INTEGER # PLACEHOLDER_TAGS)
          \<and> plain_text t \<and> length (encodeText t) \<le> 65535)"

definition attribute_sound :: "ipp_attribute \<Rightarrow> bool" where
  "attribute_sound a \<longleftrightarrow>
     \<not> isDelimiterTag (ia_tag a) \<and> ia_name a \<noteq> [] \<and> plain_text (ia_name a) \<and> length (encodeText (ia_name a)) \<le> 65535
       \<and> ia_values a \<noteq> [] \<and> list_all (value_sound (ia_tag a)) (ia_values a)"

definition group_sound :: "ipp_group \<Rightarrow> bool" where
  "group_sound g \<longleftrightarrow> isDelimiterTag (ig_tag g) \<and> ig_tag g \<noteq> END_OF_ATTRIBUTES \<and> list_all attribute_sound (ig_attributes g)"

definition attributes_of :: "ipp_group list \<Rightarrow> int" where
  "attributes_of groups = (\<Sum>g\<leftarrow>groups. int (length (ig_attributes g)))"

definition request_sound :: "ipp_decode_limits \<Rightarrow> ipp_request \<Rightarrow> bool" where
  "request_sound limits q \<longleftrightarrow>
     65535 \<le> il_maxValueBytes limits \<and> attributes_of (iq_groups q) \<le> il_maxAttributes limits
       \<and> list_all group_sound (iq_groups q)"

lemma value_read_back:
  assumes "value_sound tag v"
  obtains raw where "encodeValueBytes tag v = Inr raw" and "length raw \<le> 65535" and "decodeAttributeValue tag raw = Inr v"
proof (cases v)
  case (IppText t)
  then show ?thesis
    using assms that [of "encodeText t"] by (simp add: value_sound_def encodeValueBytes_def decodeAttributeValue.simps decodeText_encodeText)
next
  case (IppNumber n)
  then show ?thesis using assms that [of "setUint32 n"]
    by (simp add: value_sound_def encodeValueBytes_def decodeAttributeValue.simps is_safe_integer_def max_safe_integer_def setUint32_def getInt32_setUint32)
next
  case (IppBoolean b)
  then show ?thesis using assms that [of "[if b then 1 else 0]"]
    by (simp add: value_sound_def encodeValueBytes_def decodeAttributeValue.simps TAG_BOOLEAN_def TAG_INTEGER_def TAG_ENUM_def)
qed

lemma readField_written:
  assumes "length field \<le> 65535" and "65535 \<le> il_maxValueBytes limits"
  shows "readField limits (setUint16 (int (length field)) @ field @ rest) = Inr (field, rest)"
proof -
  have "getUint16 (word_of_int (int (length field) div 256)) (word_of_int (int (length field))) = int (length field)"
    using assms by (simp only: getUint16_setUint16) simp
  then show ?thesis using assms by (simp add: readField_def setUint16_def)
qed

lemma encodeText_not_empty:
  assumes "plain_text t" and "t \<noteq> []"
  shows "encodeText t \<noteq> []"
proof
  assume "encodeText t = []"
  moreover have "decodeText [] = []" by (simp add: decodeText_def)
  ultimately show False using assms decodeText_encodeText [of t] by simp
qed

lemma push_value_last: "push_value v (as @ [a]) = as @ [a\<lparr>ia_values := ia_values a @ [v]\<rparr>]"
proof (induction as)
  case (Cons b as)
  then show ?case by (cases as) simp_all
qed simp

text \<open>One value: with a name it opens an attribute, without one it joins the last.\<close>

lemma encodeAttributeValue_sound:
  assumes "value_sound tag v" and "length (encodeText name) \<le> 65535"
  obtains raw where "decodeAttributeValue tag raw = Inr v" and "length raw \<le> 65535"
    and "encodeAttributeValue tag name v =
      Inr (tag # setUint16 (int (length (encodeText name))) @ encodeText name @ setUint16 (int (length raw)) @ raw)"
proof -
  obtain raw where "encodeValueBytes tag v = Inr raw" and "length raw \<le> 65535" and "decodeAttributeValue tag raw = Inr v"
    by (rule value_read_back [OF assms(1)])
  then show thesis using assms(2) that by (simp add: encodeAttributeValue_def Let_def)
qed

lemma not_end: "\<not> isDelimiterTag tag \<Longrightarrow> tag \<noteq> END_OF_ATTRIBUTES"
  by (auto simp: isDelimiterTag_def END_OF_ATTRIBUTES_def)

lemma read_named_value:
  assumes "value_sound tag v" and "\<not> isDelimiterTag tag" and "name \<noteq> []" and "plain_text name"
    and "length (encodeText name) \<le> 65535" and "65535 \<le> il_maxValueBytes limits" and "n + 1 \<le> il_maxAttributes limits"
  obtains bytes where "encodeAttributeValue tag name v = Inr bytes"
    and "\<And>groups g rest. decodeLoop limits n groups (Some g) (bytes @ rest) =
      decodeLoop limits (n + 1) groups
        (Some (g\<lparr>ig_attributes := ig_attributes g @ [\<lparr>ia_name = name, ia_tag = tag, ia_values = [v]\<rparr>]\<rparr>)) rest"
proof -
  obtain raw where raw: "decodeAttributeValue tag raw = Inr v" "length raw \<le> 65535"
    and code: "encodeAttributeValue tag name v =
      Inr (tag # setUint16 (int (length (encodeText name))) @ encodeText name @ setUint16 (int (length raw)) @ raw)"
    by (rule encodeAttributeValue_sound [OF assms(1,5)])
  show thesis
    by (rule that [OF code]) (use assms raw in \<open>simp add: not_end readField_written encodeText_not_empty decodeText_encodeText\<close>)
qed

lemma read_next_value:
  assumes "value_sound tag v" and "\<not> isDelimiterTag tag" and "65535 \<le> il_maxValueBytes limits"
  obtains bytes where "encodeAttributeValue tag [] v = Inr bytes"
    and "\<And>groups g as a rest. decodeLoop limits n groups (Some (g\<lparr>ig_attributes := as @ [a]\<rparr>)) (bytes @ rest) =
      decodeLoop limits n groups (Some (g\<lparr>ig_attributes := as @ [a\<lparr>ia_values := ia_values a @ [v]\<rparr>]\<rparr>)) rest"
proof -
  have empty: "encodeText [] = []" by (simp add: encodeText_def)
  obtain raw where raw: "decodeAttributeValue tag raw = Inr v" "length raw \<le> 65535"
    and code: "encodeAttributeValue tag [] v = Inr (tag # setUint16 0 @ setUint16 (int (length raw)) @ raw)"
    using encodeAttributeValue_sound [OF assms(1), of "[]"] by (auto simp: empty)
  have none: "readField limits (setUint16 0 @ more) = Inr ([], more)" for more
    using readField_written [of "[]" limits more] assms(3) by simp
  show thesis
    by (rule that [OF code]) (use assms raw in \<open>simp add: not_end none readField_written push_value_last\<close>)
qed

lemma read_next_values:
  assumes "list_all (value_sound tag) vs" and "\<not> isDelimiterTag tag" and "65535 \<le> il_maxValueBytes limits"
  shows "\<exists>chunks. map_result (encodeAttributeValue tag []) vs = Inr chunks \<and>
    (\<forall>groups g as a rest. decodeLoop limits n groups (Some (g\<lparr>ig_attributes := as @ [a]\<rparr>)) (concat chunks @ rest) =
      decodeLoop limits n groups (Some (g\<lparr>ig_attributes := as @ [a\<lparr>ia_values := ia_values a @ vs\<rparr>]\<rparr>)) rest)"
  using assms(1)
proof (induction vs)
  case (Cons v vs)
  then have v: "value_sound tag v" and vs: "list_all (value_sound tag) vs" by simp_all
  obtain chunks where "map_result (encodeAttributeValue tag []) vs = Inr chunks"
    and "\<And>groups g as a rest. decodeLoop limits n groups (Some (g\<lparr>ig_attributes := as @ [a]\<rparr>)) (concat chunks @ rest) =
      decodeLoop limits n groups (Some (g\<lparr>ig_attributes := as @ [a\<lparr>ia_values := ia_values a @ vs\<rparr>]\<rparr>)) rest"
    using Cons.IH [OF vs] by blast
  moreover obtain bytes where "encodeAttributeValue tag [] v = Inr bytes"
    and "\<And>groups g as a rest. decodeLoop limits n groups (Some (g\<lparr>ig_attributes := as @ [a]\<rparr>)) (bytes @ rest) =
      decodeLoop limits n groups (Some (g\<lparr>ig_attributes := as @ [a\<lparr>ia_values := ia_values a @ [v]\<rparr>]\<rparr>)) rest"
    by (rule read_next_value [where n = n, OF v assms(2,3)]) blast
  ultimately show ?case by simp
qed simp

lemma read_attribute:
  assumes "attribute_sound a" and "65535 \<le> il_maxValueBytes limits" and "n + 1 \<le> il_maxAttributes limits"
  obtains bytes where "encodeAttribute a = Inr bytes"
    and "\<And>groups g rest. decodeLoop limits n groups (Some g) (bytes @ rest) =
      decodeLoop limits (n + 1) groups (Some (g\<lparr>ig_attributes := ig_attributes g @ [a]\<rparr>)) rest"
proof -
  obtain v vs where contents: "ia_values a = v # vs" using assms(1) by (cases "ia_values a") (simp_all add: attribute_sound_def)
  then have sound: "value_sound (ia_tag a) v" "list_all (value_sound (ia_tag a)) vs" "\<not> isDelimiterTag (ia_tag a)"
    "ia_name a \<noteq> []" "plain_text (ia_name a)" "length (encodeText (ia_name a)) \<le> 65535"
    using assms(1) by (simp_all add: attribute_sound_def)
  obtain firstBytes where firstBytes: "encodeAttributeValue (ia_tag a) (ia_name a) v = Inr firstBytes"
    and opened: "\<And>groups g rest. decodeLoop limits n groups (Some g) (firstBytes @ rest) =
      decodeLoop limits (n + 1) groups
        (Some (g\<lparr>ig_attributes := ig_attributes g @ [\<lparr>ia_name = ia_name a, ia_tag = ia_tag a, ia_values = [v]\<rparr>]\<rparr>)) rest"
    by (rule read_named_value [OF sound(1,3-6) assms(2,3)]) blast
  obtain chunks where others: "map_result (encodeAttributeValue (ia_tag a) []) vs = Inr chunks"
    and joined: "\<And>groups g as b rest.
      decodeLoop limits (n + 1) groups (Some (g\<lparr>ig_attributes := as @ [b]\<rparr>)) (concat chunks @ rest) =
      decodeLoop limits (n + 1) groups (Some (g\<lparr>ig_attributes := as @ [b\<lparr>ia_values := ia_values b @ vs\<rparr>]\<rparr>)) rest"
    using read_next_values [OF sound(2,3) assms(2), of "n + 1"] by blast
  have same: "\<lparr>ia_name = ia_name a, ia_tag = ia_tag a, ia_values = v # vs\<rparr> = a" using contents by (cases a) simp
  show thesis
    by (rule that [of "firstBytes @ concat chunks"]) (simp_all add: encodeAttribute_def contents firstBytes others opened joined same)
qed

lemma read_attributes:
  assumes "list_all attribute_sound as" and "65535 \<le> il_maxValueBytes limits" and "n + int (length as) \<le> il_maxAttributes limits"
  shows "\<exists>chunks. map_result encodeAttribute as = Inr chunks \<and>
    (\<forall>groups g rest. decodeLoop limits n groups (Some g) (concat chunks @ rest) =
      decodeLoop limits (n + int (length as)) groups (Some (g\<lparr>ig_attributes := ig_attributes g @ as\<rparr>)) rest)"
  using assms(1,3)
proof (induction as arbitrary: n)
  case (Cons a as)
  then have a: "attribute_sound a" and as: "list_all attribute_sound as" and n: "n + 1 \<le> il_maxAttributes limits"
    and m: "n + 1 + int (length as) \<le> il_maxAttributes limits" by simp_all
  obtain chunks where "map_result encodeAttribute as = Inr chunks"
    and "\<And>groups g rest. decodeLoop limits (n + 1) groups (Some g) (concat chunks @ rest) =
      decodeLoop limits (n + 1 + int (length as)) groups (Some (g\<lparr>ig_attributes := ig_attributes g @ as\<rparr>)) rest"
    using Cons.IH [OF as m] by blast
  moreover obtain bytes where "encodeAttribute a = Inr bytes"
    and "\<And>groups g rest. decodeLoop limits n groups (Some g) (bytes @ rest) =
      decodeLoop limits (n + 1) groups (Some (g\<lparr>ig_attributes := ig_attributes g @ [a]\<rparr>)) rest"
    by (rule read_attribute [OF a assms(2) n]) blast
  ultimately show ?case by (simp add: algebra_simps)
qed simp

lemma read_groups:
  assumes "list_all group_sound gs" and "65535 \<le> il_maxValueBytes limits"
    and "n + attributes_of gs \<le> il_maxAttributes limits"
  shows "\<exists>chunks. map_result encodeGroup gs = Inr chunks \<and>
    (\<forall>groups current rest. decodeLoop limits n groups current (concat chunks @ END_OF_ATTRIBUTES # rest) =
      Inr (close_group groups current @ gs))"
  using assms(1,3)
proof (induction gs arbitrary: n)
  case (Cons g gs)
  then have g: "isDelimiterTag (ig_tag g)" "ig_tag g \<noteq> END_OF_ATTRIBUTES" "list_all attribute_sound (ig_attributes g)"
    and gs: "list_all group_sound gs" and split: "n + int (length (ig_attributes g)) + attributes_of gs \<le> il_maxAttributes limits"
    unfolding list.pred_inject group_sound_def [of g] by (auto simp: attributes_of_def)
  have "0 \<le> attributes_of gs" unfolding attributes_of_def by (induction gs) simp_all
  then have n: "n + int (length (ig_attributes g)) \<le> il_maxAttributes limits" using split by simp
  obtain chunks where rest: "map_result encodeGroup gs = Inr chunks"
    and close: "\<And>groups current rest.
      decodeLoop limits (n + int (length (ig_attributes g))) groups current (concat chunks @ END_OF_ATTRIBUTES # rest) =
      Inr (close_group groups current @ gs)"
    using Cons.IH [OF gs split] by blast
  obtain attrs where own: "map_result encodeAttribute (ig_attributes g) = Inr attrs"
    and collected: "\<And>groups h rest. decodeLoop limits n groups (Some h) (concat attrs @ rest) =
      decodeLoop limits (n + int (length (ig_attributes g))) groups
        (Some (h\<lparr>ig_attributes := ig_attributes h @ ig_attributes g\<rparr>)) rest"
    using read_attributes [OF g(3) assms(2) n] by blast
  have "\<lparr>ig_tag = ig_tag g, ig_attributes = ig_attributes g\<rparr> = g" by (cases g) simp
  then show ?case by (simp add: encodeGroup_def [of g] own rest g(1,2) collected close close_group_def)
qed (simp add: close_group_def)

lemma request_read_back:
  assumes "request_sound limits q"
  shows "\<exists>bytes. encodeIppRequest q = Inr bytes \<and>
    decodeIppResponse bytes limits =
      Inr \<lparr>ip_statusCode = iq_operation q mod 65536, ip_requestId = iq_requestId q mod 4294967296, ip_groups = iq_groups q\<rparr>"
proof -
  have "list_all group_sound (iq_groups q)" "65535 \<le> il_maxValueBytes limits"
    "0 + attributes_of (iq_groups q) \<le> il_maxAttributes limits" using assms by (simp_all add: request_sound_def)
  from read_groups [OF this] obtain chunks where "map_result encodeGroup (iq_groups q) = Inr chunks"
    and "\<And>rest. decodeLoop limits 0 [] None (concat chunks @ END_OF_ATTRIBUTES # rest) = Inr (iq_groups q)"
    by (auto simp: close_group_def)
  then show ?thesis
    by (simp add: encodeIppRequest_def decodeIppResponse_def setUint16_def setUint32_def getUint16_setUint16 getUint32_setUint32)
qed

section \<open>What a device can make the reader build\<close>

text \<open>
  Every group costs a byte and every value five, so what comes out is no larger than what came in; the
  attributes of all groups together stay under the ceiling, and none is without a value.
\<close>

definition group_cost :: "ipp_group \<Rightarrow> nat" where
  "group_cost g = 1 + 5 * (\<Sum>a\<leftarrow>ig_attributes g. length (ia_values a))"

definition groups_cost :: "ipp_group list \<Rightarrow> nat" where
  "groups_cost groups = (\<Sum>g\<leftarrow>groups. group_cost g)"

definition group_complete :: "ipp_group \<Rightarrow> bool" where
  "group_complete g \<longleftrightarrow> isDelimiterTag (ig_tag g) \<and> ig_tag g \<noteq> END_OF_ATTRIBUTES \<and>
     list_all (\<lambda>a. \<not> isDelimiterTag (ia_tag a) \<and> ia_values a \<noteq> []) (ig_attributes g)"

lemma group_complete_fields:
  "group_complete \<lparr>ig_tag = tag, ig_attributes = as\<rparr> \<longleftrightarrow> isDelimiterTag tag \<and> tag \<noteq> END_OF_ATTRIBUTES \<and>
     list_all (\<lambda>a. \<not> isDelimiterTag (ia_tag a) \<and> ia_values a \<noteq> []) as"
  "group_complete (g\<lparr>ig_attributes := as\<rparr>) \<longleftrightarrow> isDelimiterTag (ig_tag g) \<and> ig_tag g \<noteq> END_OF_ATTRIBUTES \<and>
     list_all (\<lambda>a. \<not> isDelimiterTag (ia_tag a) \<and> ia_values a \<noteq> []) as"
  by (simp_all add: group_complete_def)

lemma push_value_cost:
  "as \<noteq> [] \<Longrightarrow> (\<Sum>a\<leftarrow>push_value v as. length (ia_values a)) = Suc (\<Sum>a\<leftarrow>as. length (ia_values a))"
  by (cases as rule: rev_cases) (simp_all add: push_value_last)

lemma push_value_length: "length (push_value v as) = length as"
  by (cases as rule: rev_cases) (simp_all add: push_value_last)

lemma push_value_complete:
  "list_all (\<lambda>a. \<not> isDelimiterTag (ia_tag a) \<and> ia_values a \<noteq> []) as \<Longrightarrow>
   list_all (\<lambda>a. \<not> isDelimiterTag (ia_tag a) \<and> ia_values a \<noteq> []) (push_value v as)"
  by (cases as rule: rev_cases) (simp_all add: push_value_last)

lemma close_group_measures:
  "groups_cost (close_group groups None) = groups_cost groups"
  "groups_cost (close_group groups (Some g)) = groups_cost groups + group_cost g"
  "attributes_of (close_group groups None) = attributes_of groups"
  "attributes_of (close_group groups (Some g)) = attributes_of groups + int (length (ig_attributes g))"
  "list_all group_complete (close_group groups None) = list_all group_complete groups"
  "list_all group_complete (close_group groups (Some g)) \<longleftrightarrow> list_all group_complete groups \<and> group_complete g"
  by (simp_all add: close_group_def groups_cost_def attributes_of_def)

lemma decodeLoop_bounded:
  "decodeLoop limits n groups current bytes = Inr out \<Longrightarrow>
   n = attributes_of (close_group groups current) \<Longrightarrow> n \<le> max 0 (il_maxAttributes limits) \<Longrightarrow>
   list_all group_complete (close_group groups current) \<Longrightarrow>
   groups_cost out + 1 \<le> groups_cost (close_group groups current) + length bytes \<and>
     attributes_of out \<le> max 0 (il_maxAttributes limits) \<and> list_all group_complete out"
proof (induction limits n groups current bytes rule: decodeLoop.induct)
  case (2 limits n groups current tag bytes)
  show ?case
  proof (cases "isDelimiterTag tag")
    case True
    show ?thesis
    proof (cases "tag = END_OF_ATTRIBUTES")
      case False
      then show ?thesis using True "2.IH"(1) "2.prems"
        by (simp add: close_group_measures group_cost_def group_complete_fields)
    qed (use "2.prems" in simp)
  next
    case False
    obtain name rest1 raw rest g v where name: "readField limits bytes = Inr (name, rest1)"
      and raw: "readField limits rest1 = Inr (raw, rest)" and g: "current = Some g" and v: "decodeAttributeValue tag raw = Inr v"
      using "2.prems"(1) False by (auto simp: not_end split: sum.splits option.splits)
    have size: "length rest + 4 \<le> length bytes" using readField_length [OF name] readField_length [OF raw] by simp
    note step = "2.IH"(2-) [OF not_end [OF False] False name refl raw refl g v]
    show ?thesis
    proof (cases "name = []")
      case True
      then have "ig_attributes g \<noteq> []" using "2.prems"(1) False name raw g v by (auto simp: not_end split: if_splits)
      then show ?thesis using True False "2.prems" name raw g v size step(1)
        by (simp add: not_end close_group_measures group_cost_def group_complete_def [of g] group_complete_fields push_value_cost push_value_length
            push_value_complete)
    next
      case named: False
      then have "n + 1 \<le> il_maxAttributes limits" using "2.prems"(1) False name raw g v by (auto simp: not_end split: if_splits)
      then show ?thesis using named False "2.prems" name raw g v size step(2)
        by (simp add: not_end close_group_measures group_cost_def group_complete_def [of g] group_complete_fields
            le_max_iff_disj)
    qed
  qed
qed simp

section \<open>Answers cut short\<close>

lemma readField_append: "readField limits bytes = Inr (field, rest) \<Longrightarrow> readField limits (bytes @ later) = Inr (field, rest @ later)"
  by (auto simp: readField_def Let_def split: list.splits if_splits)

lemma decodeLoop_append:
  "decodeLoop limits n groups current bytes = Inr out \<Longrightarrow> decodeLoop limits n groups current (bytes @ later) = Inr out"
proof (induction limits n groups current bytes rule: decodeLoop.induct)
  case (2 limits n groups current tag bytes)
  show ?case
  proof (cases "isDelimiterTag tag")
    case True
    then show ?thesis using "2.IH"(1) "2.prems" by (cases "tag = END_OF_ATTRIBUTES") simp_all
  next
    case False
    obtain name rest1 raw rest g v where name: "readField limits bytes = Inr (name, rest1)"
      and raw: "readField limits rest1 = Inr (raw, rest)" and g: "current = Some g" and v: "decodeAttributeValue tag raw = Inr v"
      using "2.prems"(1) False by (auto simp: not_end split: sum.splits option.splits)
    note step = "2.IH"(2-) [OF not_end [OF False] False name refl raw refl g v]
    show ?thesis using "2.prems" False step name raw g v readField_append [OF name, of later] readField_append [OF raw, of later]
      by (auto simp: not_end split: if_splits)
  qed
qed simp

lemma decodeIppResponse_append:
  assumes "decodeIppResponse bytes limits = Inr response"
  shows "decodeIppResponse (bytes @ later) limits = Inr response"
proof -
  have long: "9 \<le> length bytes" using assms by (simp add: decodeIppResponse_def split: if_splits)
  then obtain groups where groups: "decodeLoop limits 0 [] None (drop 8 bytes) = Inr groups"
    using assms by (auto simp: decodeIppResponse_def)
  then have "decodeLoop limits 0 [] None (drop 8 bytes @ later) = Inr groups" by (rule decodeLoop_append)
  with groups show ?thesis using assms long by (auto simp: decodeIppResponse_def nth_append)
qed

section \<open>Literals\<close>

definition ascii :: "string \<Rightarrow> bool" where
  "ascii s \<longleftrightarrow> list_all (\<lambda>c. code c < 128) s"

lemma js_unit: "unat (of_nat (of_char c) :: 16 word) = code c"
proof -
  have "(of_char c :: nat) < 256" by simp
  then have "(of_char c :: nat) < 65536" by linarith
  then show ?thesis by (simp add: code_def unat_unit)
qed

lemma code_bound: "code c < 256"
  by (simp add: code_def)

lemma js_no_surrogate: "\<not> lead_surrogate (of_nat (of_char c))" "\<not> trail_surrogate (of_nat (of_char c))"
  using code_bound [of c] by (simp_all add: lead_surrogate_def trail_surrogate_def js_unit)

lemma js_Cons: "js (c # s) = of_nat (of_char c) # js s"
  by (simp add: js_def)

lemma js_empty [simp]: "js [] = []" "js s = [] \<longleftrightarrow> s = []"
  by (simp_all add: js_def)

lemma scalars_js: "scalars (js s) = map code s"
proof (induction s rule: induct_list012)
  case (3 c d s)
  then show ?case by (simp add: js_Cons js_no_surrogate js_unit)
qed (simp_all add: js_Cons js_no_surrogate js_unit)

lemma well_formed_js: "well_formed_text (js s)"
  by (induction s rule: induct_list012) (simp_all add: js_Cons js_no_surrogate)

lemma plain_js: "plain_text (js s)"
proof (cases s)
  case (Cons c t)
  have "(of_nat (of_char c) :: 16 word) \<noteq> 0xFEFF"
    using js_unit [of c] code_bound [of c] by auto
  then show ?thesis using well_formed_js [of s] by (simp add: plain_text_def Cons js_Cons)
qed (simp add: plain_text_def)

lemma length_encode_js: "ascii s \<Longrightarrow> length (encodeText (js s)) = length s"
  unfolding encodeText_def scalars_js by (induction s) (simp_all add: ascii_def utf8_scalar_def)

lemma literal_sound:
  "ascii s \<Longrightarrow> length s \<le> 65535 \<Longrightarrow> tag \<notin> set (TAG_INTEGER # TAG_ENUM # TAG_BOOLEAN # TAG_RANGE_OF_INTEGER # PLACEHOLDER_TAGS) \<Longrightarrow>
    value_sound tag (IppText (js s))"
  by (simp add: value_sound_def plain_js length_encode_js)

lemmas tag_defs = TAG_INTEGER_def TAG_BOOLEAN_def TAG_ENUM_def TAG_RANGE_OF_INTEGER_def TAG_TEXT_WITHOUT_LANGUAGE_def
  TAG_NAME_WITHOUT_LANGUAGE_def TAG_KEYWORD_def TAG_URI_def TAG_CHARSET_def TAG_NATURAL_LANGUAGE_def
  TAG_MIME_MEDIA_TYPE_def OPERATION_ATTRIBUTES_def JOB_ATTRIBUTES_def PRINTER_ATTRIBUTES_def END_OF_ATTRIBUTES_def

lemmas builder_defs = textAttribute_def nameAttribute_def keywordAttribute_def uriAttribute_def integerAttribute_def
  enumAttribute_def booleanAttribute_def mimeTypeAttribute_def operationPreamble_def

section \<open>What the boundary guarantees\<close>

text \<open>
  C33. A request survives the wire: one whose groups, attributes and values are of the format's kinds and
  within its widths is always written, and read back it gives the same groups in the same order with every
  name, tag and value, texts beyond ASCII included, whatever document follows; the operation and the
  request's number come back modulo the two and four bytes they are given.
\<close>

theorem request_survives_the_wire:
  assumes "request_sound limits q"
  shows "\<exists>bytes. encodeIppRequest q = Inr bytes \<and>
    decodeIppResponse bytes limits =
      Inr \<lparr>ip_statusCode = iq_operation q mod 65536, ip_requestId = iq_requestId q mod 4294967296, ip_groups = iq_groups q\<rparr>"
  by (rule request_read_back [OF assms])

definition sample_ipp_request :: ipp_request where
  "sample_ipp_request =
     \<lparr>iq_operation = 2, iq_requestId = 4294967297,
      iq_groups =
        [\<lparr>ig_tag = OPERATION_ATTRIBUTES, ig_attributes = operationPreamble @ [nameAttribute (js ''job-name'') [0xE9, 0xD83D, 0xDE00]]\<rparr>,
         \<lparr>ig_tag = JOB_ATTRIBUTES, ig_attributes =
           [integerAttribute (js ''copies'') (- 1), keywordAttribute (js ''sides'') [js ''one-sided'', js ''two-sided-long-edge'']]\<rparr>],
      iq_data = [3, 3, 1]\<rparr>"

lemma sample_ipp_request_sound: "request_sound DEFAULT_DECODE_LIMITS sample_ipp_request"
proof -
  have name: "plain_text [0xE9, 0xD83D, 0xDE00]" "length (encodeText [0xE9, 0xD83D, 0xDE00]) \<le> 65535"
    by (simp_all add: plain_text_def lead_surrogate_def trail_surrogate_def encodeText_def utf8_scalar_def)
  show ?thesis
    by (simp add: request_sound_def sample_ipp_request_def DEFAULT_DECODE_LIMITS_def attributes_of_def group_sound_def
        attribute_sound_def builder_defs name literal_sound plain_js length_encode_js ascii_def
        code_def tag_defs PLACEHOLDER_TAGS_def isDelimiterTag_def value_sound_def)
qed

theorem request_survives_the_wire_witness:
  "\<exists>bytes. encodeIppRequest sample_ipp_request = Inr bytes \<and>
    decodeIppResponse bytes DEFAULT_DECODE_LIMITS =
      Inr \<lparr>ip_statusCode = 2, ip_requestId = 1, ip_groups = iq_groups sample_ipp_request\<rparr>"
  using request_survives_the_wire [OF sample_ipp_request_sound] by (simp add: sample_ipp_request_def)

text \<open>
  C34. An answer, whatever bytes a device sends, stays within bounds: what is read out of it costs no more than
  its length, a byte for every group and five for every value; it holds at most the attributes the ceiling
  allows, each in a group and with a value; and bytes that follow a complete answer, or the lack of them,
  change nothing: of two accepted answers one of which is cut from the other, both read the same.
\<close>

theorem answers_stay_within_bounds:
  assumes "decodeIppResponse bytes limits = Inr response"
  shows "groups_cost (ip_groups response) + 9 \<le> length bytes \<and>
    attributes_of (ip_groups response) \<le> max 0 (il_maxAttributes limits) \<and>
    list_all group_complete (ip_groups response) \<and>
    decodeIppResponse (bytes @ later) limits = Inr response \<and>
    (decodeIppResponse (take k bytes) limits = Inr shorter \<longrightarrow> shorter = response)"
proof -
  have long: "9 \<le> length bytes" and "decodeLoop limits 0 [] None (drop 8 bytes) = Inr (ip_groups response)"
    using assms by (auto simp: decodeIppResponse_def split: if_splits)
  from decodeLoop_bounded [OF this(2)]
  have "groups_cost (ip_groups response) + 1 \<le> length bytes - 8 \<and>
      attributes_of (ip_groups response) \<le> max 0 (il_maxAttributes limits) \<and> list_all group_complete (ip_groups response)"
    by (simp add: close_group_def groups_cost_def attributes_of_def)
  moreover have "shorter = response" if "decodeIppResponse (take k bytes) limits = Inr shorter"
    using decodeIppResponse_append [OF that, of "drop k bytes"] assms by simp
  ultimately show ?thesis using long decodeIppResponse_append [OF assms] by auto
qed

theorem answers_stay_within_bounds_witness:
  "decodeIppResponse [1, 1, 0, 0, 0, 0, 0, 7, 3] DEFAULT_DECODE_LIMITS =
     Inr \<lparr>ip_statusCode = 0, ip_requestId = 7, ip_groups = []\<rparr> \<and>
   decodeIppResponse [1, 1, 0, 0, 0, 0, 0, 7, 3, 0x21] DEFAULT_DECODE_LIMITS =
     Inr \<lparr>ip_statusCode = 0, ip_requestId = 7, ip_groups = []\<rparr>"
proof -
  have short: "decodeIppResponse [1, 1, 0, 0, 0, 0, 0, 7, 3] DEFAULT_DECODE_LIMITS =
      Inr \<lparr>ip_statusCode = 0, ip_requestId = 7, ip_groups = []\<rparr>"
    by (simp add: decodeIppResponse_def getUint16_def getUint32_def END_OF_ATTRIBUTES_def close_group_def)
  from answers_stay_within_bounds [OF this, of "[0x21]"] short show ?thesis by simp
qed

end
