(* ===== verification/Ipp_Adapter.thy ===== *)
theory Ipp_Adapter
  imports Ipp_Encoding Operation_Journal Queue_Approval Printer_Adapter "HOL-Library.AList"
begin

text \<open>
  \<^verbatim>\<open>packages/printer-adapters/src/ipp/adapter.ts\<close>: a printer reached over IPP. A call into it threads the number
  of the last request, the journal and the device; the device itself is a parameter, a function from the bytes
  of a request to its answer. What else the host decides, the time, the files it reads, which write fails and
  after how many effects the process dies, is the host of the call. Texts of a device are read as strings of
  units below 256; any other unit becomes a question mark, which no name or reason looked for contains. The
  reasons \<open>constructor\<close> and \<open>__proto__\<close>, which the tables inherit from the plain objects they are, are unknown here.
\<close>

section \<open>Calls in a process that may die\<close>

type_synonym ('e, 'a, 'w) device_io = "'w \<Rightarrow> ('e + 'a) outcome \<times> 'w"

definition return_io :: "'a \<Rightarrow> ('e, 'a, 'w) device_io" where
  "return_io x w = (Done (Inr x), w)"

definition throw_io :: "'e \<Rightarrow> ('e, 'a, 'w) device_io" where
  "throw_io e w = (Done (Inl e), w)"

definition die_io :: "('e, 'a, 'w) device_io" where
  "die_io w = (Killed, w)"

definition bind_io :: "('e, 'a, 'w) device_io \<Rightarrow> ('a \<Rightarrow> ('e, 'b, 'w) device_io) \<Rightarrow> ('e, 'b, 'w) device_io" where
  "bind_io m f w =
     (case m w of (Killed, w') \<Rightarrow> (Killed, w') | (Done (Inl e), w') \<Rightarrow> (Done (Inl e), w') | (Done (Inr x), w') \<Rightarrow> f x w')"

text \<open>\<open>try\<close> and \<open>catch\<close>: the error becomes a value.\<close>

definition attempt :: "('e, 'a, 'w) device_io \<Rightarrow> ('f, 'e + 'a, 'w) device_io" where
  "attempt m w = (case m w of (Killed, w') \<Rightarrow> (Killed, w') | (Done r, w') \<Rightarrow> (Done (Inr r), w'))"

section \<open>The device and the host\<close>

text \<open>What \<open>fetch\<close> answers: it threw, or whether the response is good and has a body, its chunks, and whether reading broke.\<close>

datatype fetched = Fetch_threw | Fetch_response bool "octet list list" bool

type_synonym ('c, 'd) device = "'c \<Rightarrow> octet list \<Rightarrow> 'd \<Rightarrow> fetched \<times> 'd"

datatype ipp_failure = IppStatusError int | IppTransportError | IppEncodingError string

record ipp_options =
  io_printerUri :: js_text
  io_queueName :: string
  io_maxCopies :: int
  io_completionTimeoutMilliseconds :: "int option"

record 'c ipp_host =
  ih_requestId :: int
  ih_life :: nat
  ih_torn :: bool
  ih_chance :: "nat \<Rightarrow> 'c"
  ih_writeMs :: int
  ih_writeError :: "nat \<Rightarrow> string option"
  ih_submittedAt :: string
  ih_files :: "string \<Rightarrow> octet list option"
  ih_clock :: "int list"

record 'd ipp_world =
  iw_requestId :: int
  iw_step :: nat
  iw_life :: nat
  iw_journal :: journal
  iw_device :: 'd

definition begin_call :: "'c ipp_host \<Rightarrow> journal \<times> 'd \<Rightarrow> 'd ipp_world" where
  "begin_call host s =
     \<lparr>iw_requestId = ih_requestId host, iw_step = 0, iw_life = ih_life host, iw_journal = fst s, iw_device = snd s\<rparr>"

definition fetchDevice :: "('c, 'd) device \<Rightarrow> 'c ipp_host \<Rightarrow> octet list \<Rightarrow> ('e, fetched, 'd ipp_world) device_io" where
  "fetchDevice serve host body w =
     (case iw_life w of 0 \<Rightarrow> (Killed, w)
      | Suc n \<Rightarrow>
          (case serve (ih_chance host (iw_step w)) body (iw_device w) of (answer, device) \<Rightarrow>
             (Done (Inr answer), w\<lparr>iw_life := n, iw_step := Suc (iw_step w), iw_device := device\<rparr>)))"

text \<open>A write of the journal; a process that dies in it, or a write that fails, may leave a file that does not parse.\<close>

definition tear_entry :: "int \<Rightarrow> string \<Rightarrow> journal \<Rightarrow> journal" where
  "tear_entry now operationId dir =
     (case lookup_entry (operationId @ RECORD_SUFFIX) dir of
        None \<Rightarrow> dir @ [\<lparr>je_name = operationId @ RECORD_SUFFIX, je_isFile = True, je_mtimeMs = now, je_contents = None\<rparr>]
      | Some e \<Rightarrow>
          updated (\<lambda>e. je_name e = operationId @ RECORD_SUFFIX) (\<lambda>e. e\<lparr>je_mtimeMs := now, je_contents := None\<rparr>) dir)"

fun journal_thrown :: "journal_error \<Rightarrow> thrown" where
  "journal_thrown J_OPERATION_ID_INVALID = Thrown_adapter (adapterError OPERATION_ID_INVALID)"
| "journal_thrown J_IO_ERROR = Thrown_other ''EISDIR''"

definition writeJournal ::
  "'c ipp_host \<Rightarrow> string \<Rightarrow> (journal \<Rightarrow> journal_error + journal) \<Rightarrow> (thrown, unit, 'd ipp_world) device_io" where
  "writeJournal host operationId write w =
     (let torn = (if ih_torn host then w\<lparr>iw_journal := tear_entry (ih_writeMs host) operationId (iw_journal w)\<rparr> else w) in
      case iw_life w of 0 \<Rightarrow> (Killed, torn)
      | Suc n \<Rightarrow>
          (case ih_writeError host (iw_step w) of
             Some message \<Rightarrow> (Done (Inl (Thrown_other message)), torn\<lparr>iw_life := n\<rparr>)
           | None \<Rightarrow>
               (case write (iw_journal w) of
                  Inl e \<Rightarrow> (Done (Inl (journal_thrown e)), w\<lparr>iw_life := n\<rparr>)
                | Inr dir \<Rightarrow> (Done (Inr ()), w\<lparr>iw_life := n, iw_journal := dir\<rparr>))))"

definition readJournal :: "string \<Rightarrow> (thrown, device_operation_record option, 'd ipp_world) device_io" where
  "readJournal operationId w =
     (case journalRead operationId (iw_journal w) of
        Inl e \<Rightarrow> (Done (Inl (journal_thrown e)), w) | Inr r \<Rightarrow> (Done (Inr r), w))"

section \<open>One request\<close>

definition MAX_RESPONSE_BYTES :: int where
  "MAX_RESPONSE_BYTES = 1024 * 1024"

definition IPP_STATUS_CLIENT_ERROR :: int where
  "IPP_STATUS_CLIENT_ERROR = 0x0400"

definition PRINT_JOB :: int where "PRINT_JOB = 0x0002"
definition CANCEL_JOB :: int where "CANCEL_JOB = 0x0008"
definition GET_JOBS :: int where "GET_JOBS = 0x000a"
definition GET_PRINTER_ATTRIBUTES :: int where "GET_PRINTER_ATTRIBUTES = 0x000b"

text \<open>The chunks of a body up to the ceiling; \<open>None\<close> where reading throws.\<close>

fun readBounded :: "octet list list \<Rightarrow> bool \<Rightarrow> int \<Rightarrow> int \<Rightarrow> octet list option" where
  "readBounded [] broken received maximumBytes = (if broken then None else Some [])"
| "readBounded (chunk # chunks) broken received maximumBytes =
     (if maximumBytes < received + int (length chunk) then None
      else map_option ((@) chunk) (readBounded chunks broken (received + int (length chunk)) maximumBytes))"

definition readAnswer :: "fetched \<Rightarrow> ipp_response option" where
  "readAnswer answer =
     (case answer of
        Fetch_threw \<Rightarrow> None
      | Fetch_response good chunks broken \<Rightarrow>
          if \<not> good then None
          else (case readBounded chunks broken 0 MAX_RESPONSE_BYTES of
             None \<Rightarrow> None
           | Some bytes \<Rightarrow>
               (case decodeIppResponse bytes DEFAULT_DECODE_LIMITS of Inl e \<Rightarrow> None | Inr decoded \<Rightarrow> Some decoded)))"

definition ippCall ::
  "('c, 'd) device \<Rightarrow> 'c ipp_host \<Rightarrow> int \<Rightarrow> ipp_group list \<Rightarrow> octet list \<Rightarrow> (ipp_failure, ipp_response, 'd ipp_world) device_io"
where
  "ippCall serve host operation groups data w =
     (let requestId = iw_requestId w mod 0x7fffffff + 1;
          w1 = w\<lparr>iw_requestId := requestId\<rparr> in
      case encodeIppRequest \<lparr>iq_operation = operation, iq_requestId = requestId, iq_groups = groups, iq_data = data\<rparr> of
        Inl (IppProtocolError reason) \<Rightarrow> (Done (Inl (IppEncodingError reason)), w1)
      | Inr body \<Rightarrow>
          bind_io (fetchDevice serve host body) (\<lambda>answer.
            case readAnswer answer of
              None \<Rightarrow> throw_io IppTransportError
            | Some decoded \<Rightarrow>
                if ip_requestId decoded \<noteq> requestId then throw_io IppTransportError
                else if IPP_STATUS_CLIENT_ERROR \<le> ip_statusCode decoded then throw_io (IppStatusError (ip_statusCode decoded))
                else return_io decoded) w1)"

definition REQUESTING_USER_NAME :: js_text where
  "REQUESTING_USER_NAME = js ''printing-kiosk-agent''"

definition getPrinterAttributes ::
  "ipp_options \<Rightarrow> ('c, 'd) device \<Rightarrow> 'c ipp_host \<Rightarrow> string list \<Rightarrow> (ipp_failure, ipp_response, 'd ipp_world) device_io" where
  "getPrinterAttributes opt serve host requested =
     ippCall serve host GET_PRINTER_ATTRIBUTES
       [\<lparr>ig_tag = OPERATION_ATTRIBUTES,
         ig_attributes = operationPreamble @
           [uriAttribute (js ''printer-uri'') (io_printerUri opt),
            nameAttribute (js ''requesting-user-name'') REQUESTING_USER_NAME,
            keywordAttribute (js ''requested-attributes'') (map js requested)]\<rparr>] []"

text \<open>A text of the device as a string.\<close>

definition chars :: "js_text \<Rightarrow> string" where
  "chars t = map (\<lambda>u. if unat u < 256 then char_of (unat u) else CHR ''?'') t"

section \<open>Health and capabilities\<close>

definition OFFLINE_PRINTER_REASONS :: "string list" where
  "OFFLINE_PRINTER_REASONS =
     [''media-jam'', ''jam'', ''media-empty'', ''media-needed'', ''input-media-supply-empty'', ''door-open'',
      ''cover-open'', ''shutdown'', ''paused'', ''moving-to-paused'', ''offline'', ''spool-area-full'',
      ''output-area-full'', ''toner-empty'', ''marker-supply-empty'']"

definition WARNING_PRINTER_REASONS :: "(string \<times> string) list" where
  "WARNING_PRINTER_REASONS =
     [(''toner-low'', ''TONER_LOW''), (''marker-supply-low'', ''TONER_LOW''), (''media-low'', ''PAPER_LOW''),
      (''input-media-supply-low'', ''PAPER_LOW''), (''output-area-almost-full'', ''OUTPUT_TRAY_FULL'')]"

datatype health_state = H_READY | H_WARNING | H_OFFLINE

record printer_health =
  ph_state :: health_state
  ph_warningCode :: "string option"

definition OFFLINE_HEALTH :: printer_health where
  "OFFLINE_HEALTH = \<lparr>ph_state = H_OFFLINE, ph_warningCode = None\<rparr>"

text \<open>The pattern \<open>-(report|warning|error)$\<close>: a reason may carry the device's opinion of how bad it is.\<close>

definition dropSeverity :: "string \<Rightarrow> string" where
  "dropSeverity s =
     (if ends_with ''-report'' s then take (length s - 7) s
      else if ends_with ''-warning'' s then take (length s - 8) s
      else if ends_with ''-error'' s then take (length s - 6) s
      else s)"

definition printerReasons :: "ipp_response \<Rightarrow> string list" where
  "printerReasons response =
     map (\<lambda>reason. dropSeverity (js_lower (js_trim (chars reason))))
       (readStringListAttribute response PRINTER_ATTRIBUTES (js ''printer-state-reasons''))"

text \<open>\<open>None\<close> as soon as one reason takes the device offline, else the first warning.\<close>

fun scanReasons :: "string list \<Rightarrow> string option \<Rightarrow> string option option" where
  "scanReasons [] warningCode = Some warningCode"
| "scanReasons (reason # reasons) warningCode =
     (if reason \<in> set OFFLINE_PRINTER_REASONS then None
      else scanReasons reasons
        (case warningCode of Some c \<Rightarrow> Some c | None \<Rightarrow> map_of WARNING_PRINTER_REASONS reason))"

definition readHealth :: "ipp_response \<Rightarrow> printer_health" where
  "readHealth response =
     (case scanReasons (printerReasons response) None of
        None \<Rightarrow> OFFLINE_HEALTH
      | Some warningCode \<Rightarrow>
          (case readIntegerAttribute response PRINTER_ATTRIBUTES (js ''printer-state'') of
             None \<Rightarrow> OFFLINE_HEALTH
           | Some state \<Rightarrow>
               if state = 5 then OFFLINE_HEALTH
               else (case warningCode of
                  Some c \<Rightarrow> \<lparr>ph_state = H_WARNING, ph_warningCode = Some c\<rparr>
                | None \<Rightarrow> \<lparr>ph_state = H_READY, ph_warningCode = None\<rparr>)))"

definition getHealth :: "ipp_options \<Rightarrow> ('c, 'd) device \<Rightarrow> 'c ipp_host \<Rightarrow> (thrown, printer_health, 'd ipp_world) device_io" where
  "getHealth opt serve host =
     bind_io (attempt (getPrinterAttributes opt serve host [''printer-state'', ''printer-state-reasons''])) (\<lambda>r.
       return_io (case r of Inl e \<Rightarrow> OFFLINE_HEALTH | Inr response \<Rightarrow> readHealth response))"

text \<open>What the trays hold beats what the model could take.\<close>

definition capabilitiesOf :: "ipp_response \<Rightarrow> int \<Rightarrow> capabilities_snapshot" where
  "capabilitiesOf response maxCopies =
     (let strings = (\<lambda>name. map chars (readStringListAttribute response PRINTER_ATTRIBUTES (js name)));
          ready = strings ''media-ready'' in
      mapDeviceCapabilities
        \<lparr>cd_mediaSizes = Some (if 0 < length ready then ready else strings ''media-supported''),
         cd_sides = Some (strings ''sides-supported''),
         cd_colorModes = Some (strings ''print-color-mode-supported''),
         cd_maxCopies = readIntegerAttribute response PRINTER_ATTRIBUTES (js ''copies-supported''),
         cd_duplexSupported = False\<rparr> maxCopies)"

definition ippGetCapabilities ::
  "ipp_options \<Rightarrow> ('c, 'd) device \<Rightarrow> 'c ipp_host \<Rightarrow> (ipp_failure, capabilities_snapshot, 'd ipp_world) device_io" where
  "ippGetCapabilities opt serve host =
     bind_io (getPrinterAttributes opt serve host
       [''media-ready'', ''media-supported'', ''sides-supported'', ''print-color-mode-supported'', ''copies-supported''])
       (\<lambda>response. return_io (capabilitiesOf response (io_maxCopies opt)))"

text \<open>\<^verbatim>\<open>capabilities.ts\<close>: the digest the agent compares, whatever order the device answered in.\<close>

definition capabilitySnapshotHash :: "(string \<Rightarrow> string) \<Rightarrow> capabilities_snapshot \<Rightarrow> string" where
  "capabilitySnapshotHash sha256 snapshot =
     (let sorted_strings = (\<lambda>names. JArr (map JStr (sort names))) in
      sha256 (canonicalJson (JArr
        [JNum (cs_version snapshot), sorted_strings (cs_paperSizes snapshot), sorted_strings (cs_duplexModes snapshot),
         sorted_strings (cs_colorModes snapshot), sorted_strings (cs_orientations snapshot),
         sorted_strings (cs_scalingModes snapshot), JNum (cs_maxCopies snapshot)])))"

lemma capabilitySnapshotHash_order:
  assumes "mset (cs_paperSizes a) = mset (cs_paperSizes b)" and "mset (cs_duplexModes a) = mset (cs_duplexModes b)"
    and "mset (cs_colorModes a) = mset (cs_colorModes b)" and "mset (cs_orientations a) = mset (cs_orientations b)"
    and "mset (cs_scalingModes a) = mset (cs_scalingModes b)" and "cs_version a = cs_version b" and "cs_maxCopies a = cs_maxCopies b"
  shows "capabilitySnapshotHash sha256 a = capabilitySnapshotHash sha256 b"
proof -
  have order: "sort xs = sort ys" if "mset xs = mset ys" for xs ys :: "string list"
    using that by (intro properties_for_sort) simp_all
  show ?thesis
    unfolding capabilitySnapshotHash_def Let_def assms(6,7) order [OF assms(1)] order [OF assms(2)]
      order [OF assms(3)] order [OF assms(4)] order [OF assms(5)] by (rule refl)
qed

record printer_binding =
  bn_adapter :: string
  bn_queueName :: string
  bn_deviceId :: "string option"
  bn_makeAndModel :: "string option"
  bn_driverName :: "string option"
  bn_driverVersion :: "string option"
  bn_firmware :: "string option"

definition bindingOf :: "ipp_options \<Rightarrow> ipp_response \<Rightarrow> printer_binding" where
  "bindingOf opt response =
     (let text_of = (\<lambda>name. map_option chars (readStringAttribute response PRINTER_ATTRIBUTES (js name))) in
      \<lparr>bn_adapter = ''IPP'', bn_queueName = io_queueName opt,
       bn_deviceId = (case text_of ''printer-uuid'' of Some u \<Rightarrow> Some u | None \<Rightarrow> text_of ''printer-device-id''),
       bn_makeAndModel = text_of ''printer-make-and-model'', bn_driverName = None, bn_driverVersion = None,
       bn_firmware = text_of ''printer-firmware-string-version''\<rparr>)"

definition describe ::
  "ipp_options \<Rightarrow> ('c, 'd) device \<Rightarrow> 'c ipp_host \<Rightarrow> (ipp_failure, printer_binding, 'd ipp_world) device_io" where
  "describe opt serve host =
     bind_io (getPrinterAttributes opt serve host
       [''printer-make-and-model'', ''printer-uuid'', ''printer-firmware-string-version'', ''printer-device-id'', ''printer-name''])
       (\<lambda>response. return_io (bindingOf opt response))"

text \<open>Whether the device is accepting work at all, and whether it takes PDF.\<close>

definition readyForPdf :: "ipp_response \<Rightarrow> thrown + unit" where
  "readyForPdf response =
     (let accepting = Option.bind (findAttribute (ip_groups response) PRINTER_ATTRIBUTES (js ''printer-is-accepting-jobs''))
            (\<lambda>a. case ia_values a of [] \<Rightarrow> None | v # vs \<Rightarrow> Some v);
          formats = map (\<lambda>f. js_lower (chars f))
            (readStringListAttribute response PRINTER_ATTRIBUTES (js ''document-format-supported'')) in
      if ph_state (readHealth response) = H_OFFLINE \<or> accepting = Some (IppBoolean False)
      then Inl (Thrown_adapter (adapterError PRINTER_OFFLINE))
      else if 0 < length formats \<and> ''application/pdf'' \<notin> set formats then Inl (Thrown_adapter (adapterError DEVICE_ERROR))
      else Inr ())"

definition assertReadyForPdf :: "ipp_options \<Rightarrow> ('c, 'd) device \<Rightarrow> 'c ipp_host \<Rightarrow> (thrown, unit, 'd ipp_world) device_io" where
  "assertReadyForPdf opt serve host =
     bind_io (attempt (getPrinterAttributes opt serve host
       [''printer-state'', ''printer-state-reasons'', ''printer-is-accepting-jobs'', ''document-format-supported'']))
       (\<lambda>r. case r of
          Inl (IppStatusError n) \<Rightarrow> throw_io (Thrown_adapter (adapterError DEVICE_ERROR))
        | Inl _ \<Rightarrow> throw_io (Thrown_adapter (adapterError DEVICE_UNREACHABLE))
        | Inr response \<Rightarrow> (case readyForPdf response of Inl e \<Rightarrow> throw_io e | Inr _ \<Rightarrow> return_io ()))"

section \<open>The jobs of an operation\<close>

record device_job =
  dj_jobId :: string
  dj_operationId :: string
  dj_position :: int
  dj_documentCount :: int
  dj_state :: int
  dj_reasons :: "string list"
  dj_sheetsCompleted :: "int option"

text \<open>The \<open>Map\<close> of attributes by name: the last attribute of a name wins.\<close>

definition attributeValues :: "ipp_attribute list \<Rightarrow> string \<Rightarrow> ipp_value list" where
  "attributeValues attributes name =
     (case map_of (rev (map (\<lambda>a. (ia_name a, ia_values a)) attributes)) (js name) of None \<Rightarrow> [] | Some vs \<Rightarrow> vs)"

definition stringValues :: "ipp_value list \<Rightarrow> string list" where
  "stringValues vs = concat (map (\<lambda>v. case v of IppText t \<Rightarrow> [chars t] | _ \<Rightarrow> []) vs)"

definition readDeviceJob :: "ipp_attribute list \<Rightarrow> device_job option" where
  "readDeviceJob attributes =
     (case (attributeValues attributes ''job-id'', attributeValues attributes ''job-name'', attributeValues attributes ''job-state'') of
        (IppNumber jobId # _, IppText jobName # _, IppNumber state # _) \<Rightarrow>
          (case parseDeviceJobName (chars jobName) of
             None \<Rightarrow> None
           | Some parsed \<Rightarrow>
               Some \<lparr>dj_jobId = show_int jobId, dj_operationId = pj_operationId parsed, dj_position = pj_position parsed,
                 dj_documentCount = pj_documentCount parsed, dj_state = state,
                 dj_reasons = stringValues (attributeValues attributes ''job-state-reasons''),
                 dj_sheetsCompleted =
                   (case attributeValues attributes ''job-media-sheets-completed'' of
                      IppNumber sheets # _ \<Rightarrow> if is_safe_integer sheets \<and> 0 \<le> sheets then Some sheets else None
                    | _ \<Rightarrow> None)\<rparr>)
      | _ \<Rightarrow> None)"

definition JOB_CANCELED :: int where "JOB_CANCELED = 7"
definition JOB_ABORTED :: int where "JOB_ABORTED = 8"
definition JOB_COMPLETED :: int where "JOB_COMPLETED = 9"

definition isTerminalJobState :: "int \<Rightarrow> bool" where
  "isTerminalJobState state \<longleftrightarrow> state = JOB_CANCELED \<or> state = JOB_ABORTED \<or> state = JOB_COMPLETED"

definition rankJobState :: "int \<Rightarrow> int" where
  "rankJobState state = (if isTerminalJobState state then 2 else 1)"

text \<open>One position, one job: the later word on it, in the place of the first.\<close>

definition setPosition :: "device_job \<Rightarrow> (int \<times> device_job) list \<Rightarrow> (int \<times> device_job) list" where
  "setPosition job byPosition =
     (case map_of byPosition (dj_position job) of
        None \<Rightarrow> AList.update (dj_position job) job byPosition
      | Some existing \<Rightarrow>
          if rankJobState (dj_state existing) < rankJobState (dj_state job)
          then AList.update (dj_position job) job byPosition else byPosition)"

definition operationJobs :: "string \<Rightarrow> ipp_response \<Rightarrow> device_job list" where
  "operationJobs operationId response =
     (let jobs = filter (\<lambda>job. dj_operationId job = js_lower operationId)
            (List.map_filter (\<lambda>g. if ig_tag g \<noteq> JOB_ATTRIBUTES then None else readDeviceJob (ig_attributes g)) (ip_groups response)) in
      sort_key dj_position (map snd (fold setPosition jobs [])))"

definition GET_JOBS_LIMIT :: int where
  "GET_JOBS_LIMIT = 500"

definition listOperationJobs ::
  "ipp_options \<Rightarrow> ('c, 'd) device \<Rightarrow> 'c ipp_host \<Rightarrow> string \<Rightarrow> (ipp_failure, device_job list, 'd ipp_world) device_io" where
  "listOperationJobs opt serve host operationId =
     bind_io (ippCall serve host GET_JOBS
       [\<lparr>ig_tag = OPERATION_ATTRIBUTES,
         ig_attributes = operationPreamble @
           [uriAttribute (js ''printer-uri'') (io_printerUri opt),
            nameAttribute (js ''requesting-user-name'') REQUESTING_USER_NAME,
            keywordAttribute (js ''which-jobs'') [js ''all''],
            integerAttribute (js ''limit'') GET_JOBS_LIMIT,
            keywordAttribute (js ''requested-attributes'')
              (map js [''job-id'', ''job-name'', ''job-state'', ''job-state-reasons'', ''job-media-sheets-completed''])]\<rparr>] [])
       (\<lambda>response. return_io (operationJobs operationId response))"

section \<open>One answer for the operation\<close>

definition JOB_FAILURE_REASONS :: "(string \<times> string) list" where
  "JOB_FAILURE_REASONS =
     [(''job-canceled-by-user'', ''CANCELED_AT_DEVICE''), (''job-canceled-by-operator'', ''CANCELED_AT_DEVICE''),
      (''job-canceled-at-device'', ''CANCELED_AT_DEVICE''), (''media-jam'', ''PAPER_JAM''), (''jam'', ''PAPER_JAM''),
      (''media-empty'', ''OUT_OF_PAPER''), (''media-needed'', ''OUT_OF_PAPER''),
      (''input-media-supply-empty'', ''OUT_OF_PAPER''), (''door-open'', ''COVER_OPEN''), (''cover-open'', ''COVER_OPEN''),
      (''printer-stopped'', ''PRINTER_OFFLINE''), (''printer-stopped-partly'', ''PRINTER_OFFLINE''),
      (''job-restartable'', ''DEVICE_ERROR''), (''aborted-by-system'', ''DEVICE_ERROR''),
      (''unsupported-document-format'', ''DEVICE_ERROR''), (''document-format-error'', ''DEVICE_ERROR'')]"

fun failureFromReasons :: "string list \<Rightarrow> string option" where
  "failureFromReasons [] = None"
| "failureFromReasons (reason # reasons) =
     (case map_of JOB_FAILURE_REASONS (js_lower (js_trim reason)) of
        Some known \<Rightarrow> Some known | None \<Rightarrow> failureFromReasons reasons)"

definition failureOfJobs :: "device_job list \<Rightarrow> string option" where
  "failureOfJobs jobs =
     (case List.map_filter (\<lambda>job. failureFromReasons (dj_reasons job)) jobs of [] \<Rightarrow> None | known # _ \<Rightarrow> Some known)"

definition sheetsOfJobs :: "device_job list \<Rightarrow> int option" where
  "sheetsOfJobs jobs =
     (if list_all (\<lambda>job. dj_sheetsCompleted job \<noteq> None) jobs
      then Some (sum_list (map (\<lambda>job. case dj_sheetsCompleted job of None \<Rightarrow> 0 | Some n \<Rightarrow> n) jobs)) else None)"

definition aggregateJobs :: "string \<Rightarrow> int \<Rightarrow> device_job list \<Rightarrow> string option \<Rightarrow> print_operation_status" where
  "aggregateJobs operationId expected jobs warningCode =
     (let sheets = sheetsOfJobs jobs;
          proved = (if sheets = Some 0 then CONFIRMED else UNCONFIRMED);
          known = (\<lambda>default. case failureOfJobs jobs of None \<Rightarrow> Some default | Some c \<Rightarrow> Some c) in
      if int (length jobs) < expected
      then operationStatus operationId D_UNKNOWN UNCONFIRMED (Some ''SUBMISSION_UNCONFIRMED'') warningCode None None
      else if list_ex (\<lambda>job. \<not> isTerminalJobState (dj_state job)) jobs
      then operationStatus operationId D_PRINTING UNCONFIRMED None warningCode None None
      else if list_ex (\<lambda>job. dj_state job = JOB_ABORTED) jobs
      then operationStatus operationId D_FAILED proved (known ''DEVICE_ERROR'') warningCode sheets None
      else if list_ex (\<lambda>job. dj_state job = JOB_CANCELED) jobs
      then operationStatus operationId D_CANCELED proved (known ''CANCELED_AT_DEVICE'') warningCode sheets None
      else (case sheets of
          Some n \<Rightarrow> operationStatus operationId D_COMPLETED (if 0 < n then CONFIRMED else UNCONFIRMED) None warningCode sheets None
        | None \<Rightarrow> operationStatus operationId D_COMPLETED UNCONFIRMED None warningCode sheets None))"

definition readWarning :: "ipp_options \<Rightarrow> ('c, 'd) device \<Rightarrow> 'c ipp_host \<Rightarrow> (thrown, string option, 'd ipp_world) device_io" where
  "readWarning opt serve host =
     bind_io (attempt (getPrinterAttributes opt serve host [''printer-state'', ''printer-state-reasons''])) (\<lambda>r.
       return_io (case r of Inl e \<Rightarrow> None | Inr response \<Rightarrow> ph_warningCode (readHealth response)))"

section \<open>Waiting\<close>

text \<open>One turn of the loop; \<open>later\<close> is what it does when the operation has not settled.\<close>

definition pollOnce ::
  "ipp_options \<Rightarrow> ('c, 'd) device \<Rightarrow> 'c ipp_host \<Rightarrow> string \<Rightarrow> int \<Rightarrow> (thrown, print_operation_status, 'd ipp_world) device_io
   \<Rightarrow> (thrown, print_operation_status, 'd ipp_world) device_io" where
  "pollOnce opt serve host operationId documentCount later =
     bind_io (attempt (listOperationJobs opt serve host operationId)) (\<lambda>r.
       case r of
         Inl e \<Rightarrow> return_io (unknownStatus operationId)
       | Inr jobs \<Rightarrow>
           if documentCount \<le> int (length jobs) \<and> list_all (\<lambda>job. isTerminalJobState (dj_state job)) jobs
           then bind_io (readWarning opt serve host) (\<lambda>warning. return_io (aggregateJobs operationId documentCount jobs warning))
           else later)"

text \<open>The clock readings of the loop; when they are used up the process has not come back from its sleep.\<close>

fun pollUntil ::
  "ipp_options \<Rightarrow> ('c, 'd) device \<Rightarrow> 'c ipp_host \<Rightarrow> string \<Rightarrow> int \<Rightarrow> int \<Rightarrow> int list
   \<Rightarrow> (thrown, print_operation_status, 'd ipp_world) device_io" where
  "pollUntil opt serve host operationId documentCount deadline [] =
     pollOnce opt serve host operationId documentCount die_io"
| "pollUntil opt serve host operationId documentCount deadline (now # clock) =
     pollOnce opt serve host operationId documentCount
       (if deadline \<le> now
        then return_io (operationStatus operationId D_UNKNOWN UNCONFIRMED (Some ''DEVICE_TIMEOUT'') None None None)
        else pollUntil opt serve host operationId documentCount deadline clock)"

definition awaitCompletion ::
  "ipp_options \<Rightarrow> ('c, 'd) device \<Rightarrow> 'c ipp_host \<Rightarrow> string \<Rightarrow> int \<Rightarrow> (thrown, print_operation_status, 'd ipp_world) device_io" where
  "awaitCompletion opt serve host operationId documentCount =
     (case ih_clock host of
        [] \<Rightarrow> die_io
      | now # clock \<Rightarrow>
          pollUntil opt serve host operationId documentCount
            (now + (case io_completionTimeoutMilliseconds opt of None \<Rightarrow> 240000 | Some ms \<Rightarrow> ms)) clock)"

section \<open>Submitting\<close>

definition IPP_SIDES_BY_DUPLEX_MODE :: "(string \<times> string) list" where
  "IPP_SIDES_BY_DUPLEX_MODE =
     [(''SIMPLEX'', ''one-sided''), (''LONG_EDGE'', ''two-sided-long-edge''), (''SHORT_EDGE'', ''two-sided-short-edge'')]"

definition IPP_MEDIA_BY_PAPER_SIZE :: "(string \<times> string) list" where
  "IPP_MEDIA_BY_PAPER_SIZE = [(''A4'', ''iso_a4_210x297mm'')]"

definition IPP_COLOR_MODE_BY_COLOR_MODE :: "(string \<times> string) list" where
  "IPP_COLOR_MODE_BY_COLOR_MODE = [(''MONOCHROME'', ''monochrome'')]"

fun submissionFailureCode :: "ipp_failure \<Rightarrow> adapter_error_code" where
  "submissionFailureCode IppTransportError = DEVICE_UNREACHABLE"
| "submissionFailureCode (IppStatusError n) = (if n = 0x0501 \<or> n = 0x0507 then PRINTER_OFFLINE else DEVICE_ERROR)"
| "submissionFailureCode (IppEncodingError reason) = DEVICE_ERROR"

fun failureAnswered :: "ipp_failure \<Rightarrow> bool" where
  "failureAnswered (IppStatusError n) \<longleftrightarrow> True"
| "failureAnswered _ \<longleftrightarrow> False"

definition printJobGroups ::
  "ipp_options \<Rightarrow> string \<Rightarrow> string \<Rightarrow> int \<Rightarrow> string \<Rightarrow> string \<Rightarrow> ipp_group list" where
  "printJobGroups opt media colorMode copies sides jobName =
     [\<lparr>ig_tag = OPERATION_ATTRIBUTES,
       ig_attributes = operationPreamble @
         [uriAttribute (js ''printer-uri'') (io_printerUri opt),
          nameAttribute (js ''requesting-user-name'') REQUESTING_USER_NAME,
          nameAttribute (js ''job-name'') (js jobName),
          mimeTypeAttribute (js ''document-format'') (js ''application/pdf'')]\<rparr>,
      \<lparr>ig_tag = JOB_ATTRIBUTES,
       ig_attributes =
         [integerAttribute (js ''copies'') copies, keywordAttribute (js ''sides'') [js sides],
          keywordAttribute (js ''media'') [js media], keywordAttribute (js ''print-color-mode'') [js colorMode],
          keywordAttribute (js ''print-scaling'') [js ''none''], enumAttribute (js ''orientation-requested'') 3]\<rparr>]"

definition submissionError :: "adapter_error_code \<Rightarrow> bool \<Rightarrow> thrown" where
  "submissionError c ambiguous = Thrown_adapter (if ambiguous then ambiguousAdapterError c else adapterError c)"

text \<open>The first document is the only one whose refusal is unambiguous, and only when the device answered.\<close>

definition submitDocument ::
  "ipp_options \<Rightarrow> ('c, 'd) device \<Rightarrow> 'c ipp_host \<Rightarrow> print_submission \<Rightarrow> string \<Rightarrow> string \<Rightarrow> int \<Rightarrow> nat
   \<Rightarrow> print_operation_artifact \<Rightarrow> (thrown, unit, 'd ipp_world) device_io" where
  "submitDocument opt serve host submission media colorMode documentCount submitted artifact =
     (let operationId = ps_operationId submission in
      case List.find (\<lambda>d. pd_documentId d = pa_documentId artifact) (pm_documents (ps_manifest submission)) of
        None \<Rightarrow> throw_io (Thrown_adapter (adapterError MANIFEST_INVALID))
      | Some settings \<Rightarrow>
          (case ih_files host (pa_path artifact) of
             None \<Rightarrow> throw_io (submissionError ARTIFACT_UNAVAILABLE (0 < submitted))
           | Some bytes \<Rightarrow>
               if int (length bytes) \<noteq> pa_sizeBytes artifact
               then throw_io (submissionError ARTIFACT_UNAVAILABLE (0 < submitted))
               else (case map_of IPP_SIDES_BY_DUPLEX_MODE (pd_duplex settings) of
                  None \<Rightarrow> throw_io (Thrown_adapter (adapterError MANIFEST_INVALID))
                | Some sides \<Rightarrow>
                    bind_io (attempt (ippCall serve host PRINT_JOB
                        (printJobGroups opt media colorMode (pd_copies settings) sides
                          (deviceJobName operationId (pa_position artifact) documentCount)) bytes)) (\<lambda>r.
                    case r of
                      Inl e \<Rightarrow> throw_io (submissionError (submissionFailureCode e) (0 < submitted \<or> \<not> failureAnswered e))
                    | Inr response \<Rightarrow>
                        (case readIntegerAttribute response JOB_ATTRIBUTES (js ''job-id'') of
                           None \<Rightarrow> return_io ()
                         | Some jobId \<Rightarrow>
                             writeJournal host operationId
                               (journalRecordJobId (ih_writeMs host) operationId (pa_position artifact) (show_int jobId)))))))"

fun submitDocuments ::
  "ipp_options \<Rightarrow> ('c, 'd) device \<Rightarrow> 'c ipp_host \<Rightarrow> print_submission \<Rightarrow> string \<Rightarrow> string \<Rightarrow> int \<Rightarrow> nat
   \<Rightarrow> print_operation_artifact list \<Rightarrow> (thrown, unit, 'd ipp_world) device_io" where
  "submitDocuments opt serve host submission media colorMode documentCount submitted [] = return_io ()"
| "submitDocuments opt serve host submission media colorMode documentCount submitted (artifact # artifacts) =
     bind_io (submitDocument opt serve host submission media colorMode documentCount submitted artifact) (\<lambda>_.
       submitDocuments opt serve host submission media colorMode documentCount (Suc submitted) artifacts)"

definition intentRecord :: "ipp_options \<Rightarrow> 'c ipp_host \<Rightarrow> string \<Rightarrow> print_operation_artifact list \<Rightarrow> device_operation_record" where
  "intentRecord opt host operationId documents =
     \<lparr>do_operationId = operationId, do_queueName = io_queueName opt, do_submittedAt = ih_submittedAt host,
      do_documentCount = int (length documents),
      do_documents = map (\<lambda>artifact. \<lparr>dd_position = pa_position artifact, dd_jobId = None,
        dd_jobName = deviceJobName operationId (pa_position artifact) (int (length documents))\<rparr>) documents\<rparr>"

definition ippSubmit ::
  "platform \<Rightarrow> ipp_options \<Rightarrow> ('c, 'd) device \<Rightarrow> 'c ipp_host \<Rightarrow> print_submission
   \<Rightarrow> (thrown, print_operation_status, 'd ipp_world) device_io" where
  "ippSubmit plat opt serve host submission =
     (case assertSubmittable plat submission of
        Inl e \<Rightarrow> throw_io (Thrown_adapter e)
      | Inr _ \<Rightarrow>
          (case (map_of IPP_MEDIA_BY_PAPER_SIZE (pm_paperSize (ps_manifest submission)),
                 map_of IPP_COLOR_MODE_BY_COLOR_MODE (pm_colorMode (ps_manifest submission))) of
             (Some media, Some colorMode) \<Rightarrow>
               (let operationId = ps_operationId submission;
                    documents = sort_key pa_position (ps_artifacts submission) in
                bind_io (assertReadyForPdf opt serve host) (\<lambda>_.
                bind_io (writeJournal host operationId
                  (journalOpen (ih_writeMs host) (intentRecord opt host operationId documents))) (\<lambda>_.
                bind_io (submitDocuments opt serve host submission media colorMode (int (length documents)) 0 documents) (\<lambda>_.
                awaitCompletion opt serve host operationId (int (length documents))))))
           | _ \<Rightarrow> throw_io (Thrown_adapter (adapterError MANIFEST_INVALID))))"

section \<open>Asking and cancelling\<close>

definition NOTHING_SUBMITTED :: "string \<Rightarrow> print_operation_status" where
  "NOTHING_SUBMITTED operationId = operationStatus operationId D_NOT_SUBMITTED CONFIRMED None None (Some 0) None"

definition expectedDocuments :: "device_operation_record option \<Rightarrow> device_job list \<Rightarrow> int" where
  "expectedDocuments r jobs =
     max (case r of None \<Rightarrow> 0 | Some d \<Rightarrow> do_documentCount d) (case jobs of [] \<Rightarrow> 0 | job # _ \<Rightarrow> dj_documentCount job)"

definition getOperationStatus ::
  "ipp_options \<Rightarrow> ('c, 'd) device \<Rightarrow> 'c ipp_host \<Rightarrow> string \<Rightarrow> (thrown, print_operation_status, 'd ipp_world) device_io" where
  "getOperationStatus opt serve host operationId =
     bind_io (readJournal operationId) (\<lambda>r.
     bind_io (attempt (listOperationJobs opt serve host operationId)) (\<lambda>listed.
       return_io (case listed of
          Inl e \<Rightarrow> if r \<noteq> None then unknownStatus operationId else NOTHING_SUBMITTED operationId
        | Inr [] \<Rightarrow> if r = None then NOTHING_SUBMITTED operationId else unknownStatus operationId
        | Inr jobs \<Rightarrow> aggregateJobs operationId (expectedDocuments r jobs) jobs None)))"

definition cancelJob ::
  "ipp_options \<Rightarrow> ('c, 'd) device \<Rightarrow> 'c ipp_host \<Rightarrow> int \<Rightarrow> (ipp_failure, unit, 'd ipp_world) device_io" where
  "cancelJob opt serve host jobId =
     bind_io (ippCall serve host CANCEL_JOB
       [\<lparr>ig_tag = OPERATION_ATTRIBUTES,
         ig_attributes = operationPreamble @
           [uriAttribute (js ''printer-uri'') (io_printerUri opt), integerAttribute (js ''job-id'') jobId,
            nameAttribute (js ''requesting-user-name'') REQUESTING_USER_NAME]\<rparr>] []) (\<lambda>_. return_io ())"

text \<open>\<open>Number\<close> on a job identifier, which is a printed number.\<close>

definition jobNumber :: "string \<Rightarrow> int" where
  "jobNumber s = (case s of c # t \<Rightarrow> if c = CHR ''-'' then - int (read_digits t) else int (read_digits s) | [] \<Rightarrow> 0)"

fun cancelJobs :: "ipp_options \<Rightarrow> ('c, 'd) device \<Rightarrow> 'c ipp_host \<Rightarrow> device_job list \<Rightarrow> (thrown, unit, 'd ipp_world) device_io" where
  "cancelJobs opt serve host [] = return_io ()"
| "cancelJobs opt serve host (job # jobs) =
     (if isTerminalJobState (dj_state job) then cancelJobs opt serve host jobs
      else bind_io (attempt (cancelJob opt serve host (jobNumber (dj_jobId job)))) (\<lambda>_. cancelJobs opt serve host jobs))"

definition ippCancel ::
  "ipp_options \<Rightarrow> ('c, 'd) device \<Rightarrow> 'c ipp_host \<Rightarrow> string \<Rightarrow> (thrown, print_operation_status, 'd ipp_world) device_io" where
  "ippCancel opt serve host operationId =
     bind_io (readJournal operationId) (\<lambda>r.
     bind_io (attempt (listOperationJobs opt serve host operationId)) (\<lambda>listed.
     (let jobs = (case listed of Inl e \<Rightarrow> [] | Inr jobs \<Rightarrow> jobs) in
      if r = None \<and> jobs = []
      then return_io (operationStatus operationId D_CANCELED CONFIRMED (Some ''CANCELED_BEFORE_SUBMIT'') None (Some 0) None)
      else
        bind_io (cancelJobs opt serve host jobs) (\<lambda>_.
        bind_io (attempt (listOperationJobs opt serve host operationId)) (\<lambda>relisted.
        (let after = (case relisted of Inl e \<Rightarrow> jobs | Inr after \<Rightarrow> after) in
         return_io
           (if after = [] then unknownStatus operationId
            else
              let aggregated = aggregateJobs operationId (expectedDocuments r after) after None in
              if os_state aggregated = D_COMPLETED \<or> os_state aggregated = D_CANCELED then aggregated
              else operationStatus operationId D_CANCELED UNCONFIRMED (Some ''CANCELED_AT_DEVICE'') None
                (os_sheetsProduced aggregated) None)))))))"

definition discardOutputsBefore :: "int \<Rightarrow> journal \<Rightarrow> nat \<times> journal" where
  "discardOutputsBefore cutoff dir = journalDiscardBefore cutoff dir"

text \<open>The adapter a caller sees; what its host does, a submission brings along and a numbered question finds.\<close>

definition ipp_adapter ::
  "platform \<Rightarrow> ipp_options \<Rightarrow> ('c, 'd) device \<Rightarrow> (nat \<Rightarrow> 'c ipp_host) \<Rightarrow> ('c ipp_host, journal \<times> 'd) adapter" where
  "ipp_adapter plat opt serve asking =
     \<lparr>ad_submit = (\<lambda>host submission s.
        (case ippSubmit plat opt serve host submission (begin_call host s) of
           (r, w) \<Rightarrow> (r, (iw_journal w, iw_device w)))),
      ad_status = (\<lambda>n operationId s.
        (case fst (getOperationStatus opt serve (asking n) operationId (begin_call (asking n) s)) of
           Done r \<Rightarrow> r | Killed \<Rightarrow> Inl (Thrown_other ''killed'')))\<rparr>"

end
