(* ===== verification/Ipp_Contract.thy ===== *)
theory Ipp_Contract
  imports Ipp_Adapter Print_Contracts Print_Runner
begin

text \<open>
  What the printer reached over IPP promises its caller. The device is not this program's; what is relied on
  of it is stated first, of two things only it knows: the names of the jobs it accepted, and those a sheet came
  or will come out for. From there every call keeps the contract of Printer_Adapter: a submission leaves
  evidence behind before a byte can reach the queue, an unambiguous error means that no paper moved, and so
  does every confirmed answer of nothing printed, whatever the queue forgets and wherever the process dies.
\<close>

section \<open>What is relied on of a device\<close>

definition job_name_of :: "ipp_request \<Rightarrow> js_text option" where
  "job_name_of q =
     (case findAttribute (iq_groups q) OPERATION_ATTRIBUTES (js ''job-name'') of
        Some a \<Rightarrow> (case ia_values a of IppText t # _ \<Rightarrow> Some t | _ \<Rightarrow> None) | None \<Rightarrow> None)"

definition refuses :: "fetched \<Rightarrow> bool" where
  "refuses answer \<longleftrightarrow> (\<exists>r. readAnswer answer = Some r \<and> IPP_STATUS_CLIENT_ERROR \<le> ip_statusCode r)"

text \<open>The job a listing shows is the one accepted under the name.\<close>

definition describes :: "js_text \<Rightarrow> device_job \<Rightarrow> bool" where
  "describes v job \<longleftrightarrow>
     parseDeviceJobName (chars v) =
       Some \<lparr>pj_operationId = dj_operationId job, pj_position = dj_position job, pj_documentCount = dj_documentCount job\<rparr>"

definition empty_handed :: "device_job \<Rightarrow> bool" where
  "empty_handed job \<longleftrightarrow> isTerminalJobState (dj_state job) \<and> dj_sheetsCompleted job = Some 0"

text \<open>The operations the adapter asks for.\<close>

definition OPERATIONS :: "int set" where
  "OPERATIONS = {PRINT_JOB, CANCEL_JOB, GET_JOBS, GET_PRINTER_ATTRIBUTES}"

text \<open>
  Only a print job it does not refuse adds to what a device accepted, one job under the name it carries; no
  request makes paper come out for a job accepted before that would otherwise have none.
\<close>

definition accepts_honestly ::
  "('c, 'd) device \<Rightarrow> ('d \<Rightarrow> js_text list) \<Rightarrow> ('d \<Rightarrow> js_text \<Rightarrow> bool) \<Rightarrow> bool" where
  "accepts_honestly serve accepted produced \<longleftrightarrow>
     (\<forall>d v. produced d v \<longrightarrow> v \<in> set (accepted d)) \<and>
     (\<forall>c q bytes d answer d'. request_sound DEFAULT_DECODE_LIMITS q \<longrightarrow> encodeIppRequest q = Inr bytes \<longrightarrow>
        serve c bytes d = (answer, d') \<longrightarrow> iq_operation q \<in> OPERATIONS \<longrightarrow>
        (accepted d' = accepted d \<or>
           iq_operation q = PRINT_JOB \<and> \<not> refuses answer \<and>
           (\<exists>v. job_name_of q = Some v \<and> accepted d' = v # accepted d)) \<and>
        (\<forall>v \<in> set (accepted d). produced d' v \<longrightarrow> produced d v))"

text \<open>
  A job listed under one of the kiosk's names is one the device accepted under that name, and when it is listed
  as over without a sheet, no sheet came or will come out. A listing may leave out any job it likes.
\<close>

definition lists_honestly ::
  "('c, 'd) device \<Rightarrow> ('d \<Rightarrow> js_text list) \<Rightarrow> ('d \<Rightarrow> js_text \<Rightarrow> bool) \<Rightarrow> bool" where
  "lists_honestly serve accepted produced \<longleftrightarrow>
     (\<forall>c q bytes d answer d' response. request_sound DEFAULT_DECODE_LIMITS q \<longrightarrow> encodeIppRequest q = Inr bytes \<longrightarrow>
        serve c bytes d = (answer, d') \<longrightarrow> iq_operation q = GET_JOBS \<longrightarrow> readAnswer answer = Some response \<longrightarrow>
        ip_statusCode response < IPP_STATUS_CLIENT_ERROR \<longrightarrow>
        (\<forall>g \<in> set (ip_groups response). \<forall>job. ig_tag g = JOB_ATTRIBUTES \<longrightarrow> readDeviceJob (ig_attributes g) = Some job \<longrightarrow>
           (\<exists>v \<in> set (accepted d). describes v job \<and> (empty_handed job \<longrightarrow> \<not> produced d v))))"

definition honest_device ::
  "('c, 'd) device \<Rightarrow> ('d \<Rightarrow> js_text list) \<Rightarrow> ('d \<Rightarrow> js_text \<Rightarrow> bool) \<Rightarrow> bool" where
  "honest_device serve accepted produced \<longleftrightarrow>
     accepts_honestly serve accepted produced \<and> lists_honestly serve accepted produced"

section \<open>Names\<close>

lemma chars_js: "chars (js s) = s"
  by (induction s) (simp_all add: chars_def js_Cons js_unit code_bound, simp_all add: code_def)

definition kiosk_name :: "string \<Rightarrow> int \<Rightarrow> int \<Rightarrow> js_text \<Rightarrow> bool" where
  "kiosk_name op p n v \<longleftrightarrow>
     v = js (deviceJobName op p n) \<and> is_uuid op \<and> js_lower op = op \<and> 0 \<le> p \<and> p \<le> 999 \<and> 1 \<le> n \<and> n \<le> 999"

lemma kiosk_name_unique:
  assumes "kiosk_name op p n v" and "kiosk_name op' p' n' v"
  shows "op' = op \<and> p' = p \<and> n' = n"
proof -
  have same: "deviceJobName op' p' n' = deviceJobName op p n"
    using assms unfolding kiosk_name_def by (metis chars_js)
  have "matchJobName (deviceJobName op p n) = Some (op, pad3 p, pad3 n)"
    and "matchJobName (deviceJobName op' p' n') = Some (op', pad3 p', pad3 n')"
    using assms by (simp_all add: kiosk_name_def matchJobName_deviceJobName)
  with same have eq: "op' = op" "pad3 p' = pad3 p" "pad3 n' = pad3 n" by simp_all
  have "nat p' = nat p" "nat n' = nat n"
    using eq pad3_digits(3) [of p] pad3_digits(3) [of p'] pad3_digits(3) [of n] pad3_digits(3) [of n'] assms
    by (simp_all add: kiosk_name_def)
  then show ?thesis using eq assms by (auto simp: kiosk_name_def)
qed

lemma describes_kiosk_name:
  assumes "kiosk_name op p n v" and "describes v job"
  shows "dj_operationId job = op \<and> dj_position job = p \<and> dj_documentCount job = n"
proof -
  have b: "is_uuid op" "0 \<le> p" "p \<le> 999" "0 \<le> n" "n \<le> 999" using assms(1) by (simp_all add: kiosk_name_def)
  have "chars v = deviceJobName op p n" using assms(1) chars_js [of "deviceJobName op p n"] by (simp add: kiosk_name_def)
  then show ?thesis
    using assms trim_deviceJobName [OF b] matchJobName_deviceJobName [OF b] pad3_digits(3) [OF b(2,3)] pad3_digits(3) [OF b(4,5)]
    by (simp add: describes_def parseDeviceJobName_def Let_def kiosk_name_def split: if_splits)
qed

section \<open>Calls and what holds after them\<close>

text \<open>From a state with \<open>P\<close>: a value with \<open>Q\<close>, an error with \<open>E\<close>, or the end of the process with \<open>I\<close>.\<close>

definition io_triple ::
  "('w \<Rightarrow> bool) \<Rightarrow> ('e, 'a, 'w) device_io \<Rightarrow> ('a \<Rightarrow> 'w \<Rightarrow> bool) \<Rightarrow> ('e \<Rightarrow> 'w \<Rightarrow> bool) \<Rightarrow> ('w \<Rightarrow> bool) \<Rightarrow> bool" where
  "io_triple P m Q E I \<longleftrightarrow>
     (\<forall>w. P w \<longrightarrow> (case m w of (Killed, w') \<Rightarrow> I w' | (Done (Inl e), w') \<Rightarrow> E e w' | (Done (Inr x), w') \<Rightarrow> Q x w'))"

lemma io_weaken:
  "io_triple P m Q E I \<Longrightarrow> (\<And>w. P' w \<Longrightarrow> P w) \<Longrightarrow> (\<And>x w. Q x w \<Longrightarrow> Q' x w) \<Longrightarrow> (\<And>e w. E e w \<Longrightarrow> E' e w) \<Longrightarrow>
    (\<And>w. I w \<Longrightarrow> I' w) \<Longrightarrow> io_triple P' m Q' E' I'"
  unfolding io_triple_def by (fastforce split: prod.splits outcome.splits sum.splits)

lemma io_tripleD:
  "io_triple P m Q E I \<Longrightarrow> P w \<Longrightarrow> m w = (r, w') \<Longrightarrow>
    (case r of Killed \<Rightarrow> I w' | Done (Inl e) \<Rightarrow> E e w' | Done (Inr x) \<Rightarrow> Q x w')"
  unfolding io_triple_def by (drule spec [of _ w]) (cases r; auto split: sum.splits)

lemma io_same: "io_triple P m (\<lambda>_. Q) (\<lambda>_. Q) Q \<Longrightarrow> P w \<Longrightarrow> m w = (r, w') \<Longrightarrow> Q w'"
  unfolding io_triple_def by (cases r) (force split: sum.splits)+

lemma io_bind: "io_triple P m R E I \<Longrightarrow> (\<And>x. io_triple (R x) (f x) Q E I) \<Longrightarrow> io_triple P (bind_io m f) Q E I"
  unfolding io_triple_def bind_io_def by (fastforce split: prod.splits outcome.splits sum.splits)

lemma io_return: "(\<And>w. P w \<Longrightarrow> Q x w) \<Longrightarrow> io_triple P (return_io x) Q E I"
  by (simp add: io_triple_def return_io_def)

lemma io_throw: "(\<And>w. P w \<Longrightarrow> E e w) \<Longrightarrow> io_triple P (throw_io e) Q E I"
  by (simp add: io_triple_def throw_io_def)

lemma io_die: "(\<And>w. P w \<Longrightarrow> I w) \<Longrightarrow> io_triple P die_io Q E I"
  by (simp add: io_triple_def die_io_def)

lemma io_attempt:
  "io_triple P m Q E I \<Longrightarrow> io_triple P (attempt m) (\<lambda>r w. case r of Inl e \<Rightarrow> E e w | Inr x \<Rightarrow> Q x w) F I"
  unfolding io_triple_def attempt_def by (fastforce split: prod.splits outcome.splits sum.splits)

section \<open>One request and the device\<close>

definition groups_ready :: "ipp_group list \<Rightarrow> bool" where
  "groups_ready groups \<longleftrightarrow> attributes_of groups \<le> 4096 \<and> list_all group_sound groups"

lemma groups_ready_request:
  "groups_ready groups \<longleftrightarrow>
    request_sound DEFAULT_DECODE_LIMITS \<lparr>iq_operation = operation, iq_requestId = n, iq_groups = groups, iq_data = data\<rparr>"
  by (simp add: groups_ready_def request_sound_def DEFAULT_DECODE_LIMITS_def)

lemma ippCall_cases:
  assumes "groups_ready groups" and "ippCall serve host operation groups data w = (r, w')"
  shows "iw_journal w' = iw_journal w \<and>
    (r = Killed \<and> iw_device w' = iw_device w \<or>
     (\<exists>c q bytes answer. request_sound DEFAULT_DECODE_LIMITS q \<and> iq_operation q = operation \<and> iq_groups q = groups \<and>
        encodeIppRequest q = Inr bytes \<and> serve c bytes (iw_device w) = (answer, iw_device w') \<and>
        (\<forall>response. r = Done (Inr response) \<longrightarrow>
           readAnswer answer = Some response \<and> ip_statusCode response < IPP_STATUS_CLIENT_ERROR) \<and>
        (\<forall>e. r = Done (Inl e) \<longrightarrow> failureAnswered e \<longrightarrow> refuses answer)))"
proof -
  define q where "q = \<lparr>iq_operation = operation, iq_requestId = iw_requestId w mod 0x7fffffff + 1, iq_groups = groups, iq_data = data\<rparr>"
  have q: "request_sound DEFAULT_DECODE_LIMITS q" unfolding q_def by (rule groups_ready_request [THEN iffD1, OF assms(1)])
  from request_read_back [OF q] obtain bytes where bytes: "encodeIppRequest q = Inr bytes" by blast
  show ?thesis
  proof (cases "iw_life w")
    case 0
    then show ?thesis using assms(2) bytes by (auto simp: ippCall_def Let_def q_def fetchDevice_def bind_io_def)
  next
    case (Suc n)
    obtain answer device where served: "serve (ih_chance host (iw_step w)) bytes (iw_device w) = (answer, device)" by force
    have ran: "iw_journal w' = iw_journal w" "iw_device w' = device"
        "(\<forall>response. r = Done (Inr response) \<longrightarrow>
           readAnswer answer = Some response \<and> ip_statusCode response < IPP_STATUS_CLIENT_ERROR)"
        "(\<forall>e. r = Done (Inl e) \<longrightarrow> failureAnswered e \<longrightarrow> refuses answer)"
      using assms(2) bytes Suc served
      by (auto simp: ippCall_def Let_def q_def fetchDevice_def bind_io_def throw_io_def return_io_def refuses_def
          split: option.splits if_splits)
    have "iq_operation q = operation" "iq_groups q = groups" by (simp_all add: q_def)
    with ran q bytes served show ?thesis by blast
  qed
qed

definition calm :: "('d \<Rightarrow> js_text list) \<Rightarrow> ('d \<Rightarrow> js_text \<Rightarrow> bool) \<Rightarrow> 'd \<Rightarrow> 'd \<Rightarrow> bool" where
  "calm accepted produced d d' \<longleftrightarrow> accepted d' = accepted d \<and> (\<forall>v. produced d' v \<longrightarrow> produced d v)"

lemma calm_refl: "calm accepted produced d d"
  by (simp add: calm_def)

lemma calm_trans: "calm accepted produced a b \<Longrightarrow> calm accepted produced b c \<Longrightarrow> calm accepted produced a c"
  by (simp add: calm_def)

text \<open>What a caller knows survives whatever leaves the journal and the device's acceptances alone.\<close>

definition stable ::
  "('d \<Rightarrow> js_text list) \<Rightarrow> ('d \<Rightarrow> js_text \<Rightarrow> bool) \<Rightarrow> ('d ipp_world \<Rightarrow> bool) \<Rightarrow> bool" where
  "stable accepted produced P \<longleftrightarrow>
     (\<forall>w w'. P w \<longrightarrow> iw_journal w' = iw_journal w \<longrightarrow> calm accepted produced (iw_device w) (iw_device w') \<longrightarrow> P w')"

lemma stableD:
  "stable accepted produced P \<Longrightarrow> P w \<Longrightarrow> iw_journal w' = iw_journal w \<Longrightarrow>
    calm accepted produced (iw_device w) (iw_device w') \<Longrightarrow> P w'"
  unfolding stable_def by blast

lemma accepted_or_calm:
  assumes "accepts_honestly serve accepted produced" and "request_sound DEFAULT_DECODE_LIMITS q"
    and "encodeIppRequest q = Inr bytes" and "serve c bytes d = (answer, d')" and "iq_operation q \<in> OPERATIONS"
    and "iq_operation q \<noteq> PRINT_JOB \<or> refuses answer"
  shows "calm accepted produced d d'"
proof -
  have law: "accepted d' = accepted d \<or>
      iq_operation q = PRINT_JOB \<and> \<not> refuses answer \<and> (\<exists>v. job_name_of q = Some v \<and> accepted d' = v # accepted d)"
    "\<forall>v \<in> set (accepted d). produced d' v \<longrightarrow> produced d v" "\<forall>d v. produced d v \<longrightarrow> v \<in> set (accepted d)"
    using assms(1-5) unfolding accepts_honestly_def by blast+
  then have same: "accepted d' = accepted d" using assms(6) by blast
  have "produced d v" if "produced d' v" for v
  proof -
    have "v \<in> set (accepted d')" using law(3) that by blast
    then show ?thesis using law(2) same that by simp
  qed
  with same show ?thesis by (simp add: calm_def)
qed

lemma call_calm:
  assumes honest: "honest_device serve accepted produced" and "groups_ready groups" and operation: "operation \<in> OPERATIONS" "operation \<noteq> PRINT_JOB"
    and stable: "stable accepted produced P"
  shows "io_triple P (ippCall serve host operation groups data) (\<lambda>_. P) (\<lambda>_. P) P"
  unfolding io_triple_def
proof (intro allI impI)
  fix w assume P: "P w"
  obtain r w' where call: "ippCall serve host operation groups data w = (r, w')" by force
  have "calm accepted produced (iw_device w) (iw_device w')"
    using ippCall_cases [OF assms(2) call] accepted_or_calm honest operation calm_refl
    unfolding honest_device_def by metis
  then have "P w'" using stableD [OF stable P] ippCall_cases [OF assms(2) call] by blast
  then show "case ippCall serve host operation groups data w of
      (Killed, w') \<Rightarrow> P w' | (Done (Inl e), w') \<Rightarrow> P w' | (Done (Inr x), w') \<Rightarrow> P w'"
    by (auto simp: call split: outcome.split sum.split)
qed

section \<open>The requests the adapter makes\<close>

definition uri_ready :: "ipp_options \<Rightarrow> bool" where
  "uri_ready opt \<longleftrightarrow> plain_text (io_printerUri opt) \<and> length (encodeText (io_printerUri opt)) \<le> 65535"

lemma ready_attributes:
  assumes "uri_ready opt"
  shows "list_all attribute_sound operationPreamble" "attribute_sound (uriAttribute (js ''printer-uri'') (io_printerUri opt))"
    "attribute_sound (nameAttribute (js ''requesting-user-name'') REQUESTING_USER_NAME)"
  using assms
  by (simp_all add: uri_ready_def attribute_sound_def builder_defs literal_sound plain_js length_encode_js ascii_def
      code_def tag_defs PLACEHOLDER_TAGS_def isDelimiterTag_def value_sound_def REQUESTING_USER_NAME_def)

lemma literal_attribute:
  "ascii name \<Longrightarrow> name \<noteq> [] \<Longrightarrow> length name \<le> 65535 \<Longrightarrow> ascii v \<Longrightarrow> length v \<le> 65535 \<Longrightarrow>
    attribute_sound (nameAttribute (js name) (js v)) \<and> attribute_sound (mimeTypeAttribute (js name) (js v)) \<and>
    attribute_sound (keywordAttribute (js name) [js v])"
  by (simp add: attribute_sound_def builder_defs literal_sound plain_js length_encode_js tag_defs PLACEHOLDER_TAGS_def
      isDelimiterTag_def value_sound_def)

lemma keywords_attribute:
  "ascii name \<Longrightarrow> name \<noteq> [] \<Longrightarrow> length name \<le> 65535 \<Longrightarrow> vs \<noteq> [] \<Longrightarrow> list_all (\<lambda>v. ascii v \<and> length v \<le> 65535) vs \<Longrightarrow>
    attribute_sound (keywordAttribute (js name) (map js vs))"
  by (auto simp: attribute_sound_def builder_defs plain_js length_encode_js tag_defs PLACEHOLDER_TAGS_def
      isDelimiterTag_def value_sound_def list_all_iff)

lemma number_attribute:
  "ascii name \<Longrightarrow> name \<noteq> [] \<Longrightarrow> length name \<le> 65535 \<Longrightarrow> - 2147483648 \<le> n \<Longrightarrow> n \<le> 2147483647 \<Longrightarrow>
    attribute_sound (integerAttribute (js name) n) \<and> attribute_sound (enumAttribute (js name) n)"
  by (simp add: attribute_sound_def builder_defs plain_js length_encode_js tag_defs isDelimiterTag_def value_sound_def)

lemmas literal_simps = ascii_def code_def

lemma operation_group:
  "group_sound \<lparr>ig_tag = OPERATION_ATTRIBUTES, ig_attributes = as\<rparr> \<longleftrightarrow> list_all attribute_sound as"
  "group_sound \<lparr>ig_tag = JOB_ATTRIBUTES, ig_attributes = as\<rparr> \<longleftrightarrow> list_all attribute_sound as"
  by (simp_all add: group_sound_def isDelimiterTag_def tag_defs)

lemma one_group_ready:
  "groups_ready [\<lparr>ig_tag = OPERATION_ATTRIBUTES, ig_attributes = as\<rparr>] \<longleftrightarrow>
    length as \<le> 4096 \<and> list_all attribute_sound as"
  by (auto simp: groups_ready_def attributes_of_def operation_group)

lemma preamble_length [simp]: "length operationPreamble = 2"
  by (simp add: operationPreamble_def)

lemma attributes_request_ready:
  assumes "uri_ready opt" and "requested \<noteq> []" and "list_all (\<lambda>v. ascii v \<and> length v \<le> 65535) requested"
  shows "groups_ready [\<lparr>ig_tag = OPERATION_ATTRIBUTES,
         ig_attributes = operationPreamble @
           [uriAttribute (js ''printer-uri'') (io_printerUri opt),
            nameAttribute (js ''requesting-user-name'') REQUESTING_USER_NAME,
            keywordAttribute (js ''requested-attributes'') (map js requested)]\<rparr>]"
proof -
  have "attribute_sound (keywordAttribute (js ''requested-attributes'') (map js requested))"
    using assms(2,3) by (intro keywords_attribute) (simp_all add: literal_simps)
  then show ?thesis unfolding one_group_ready using ready_attributes [OF assms(1)] by simp
qed

lemma ask_printer:
  assumes "honest_device serve accepted produced" and "uri_ready opt" and "stable accepted produced P"
    and "requested \<noteq> []" and "list_all (\<lambda>v. ascii v \<and> length v \<le> 65535) requested"
  shows "io_triple P (getPrinterAttributes opt serve host requested) (\<lambda>_. P) (\<lambda>_. P) P"
  unfolding getPrinterAttributes_def
  by (rule call_calm [OF assms(1) attributes_request_ready [OF assms(2,4,5)] _ _ assms(3)])
    (simp_all add: OPERATIONS_def GET_PRINTER_ATTRIBUTES_def PRINT_JOB_def)

lemma listing_ready:
  assumes "uri_ready opt"
  shows "groups_ready [\<lparr>ig_tag = OPERATION_ATTRIBUTES,
         ig_attributes = operationPreamble @
           [uriAttribute (js ''printer-uri'') (io_printerUri opt),
            nameAttribute (js ''requesting-user-name'') REQUESTING_USER_NAME,
            keywordAttribute (js ''which-jobs'') [js ''all''],
            integerAttribute (js ''limit'') GET_JOBS_LIMIT,
            keywordAttribute (js ''requested-attributes'')
              (map js [''job-id'', ''job-name'', ''job-state'', ''job-state-reasons'', ''job-media-sheets-completed''])]\<rparr>]"
proof -
  have "attribute_sound (keywordAttribute (js ''requested-attributes'')
      (map js [''job-id'', ''job-name'', ''job-state'', ''job-state-reasons'', ''job-media-sheets-completed'']))"
    by (intro keywords_attribute) (simp_all add: literal_simps)
  moreover have "attribute_sound (keywordAttribute (js ''which-jobs'') [js ''all''])"
    using literal_attribute [of "''which-jobs''" "''all''"] by (simp add: literal_simps)
  moreover have "attribute_sound (integerAttribute (js ''limit'') GET_JOBS_LIMIT)"
    using number_attribute [of "''limit''" GET_JOBS_LIMIT] by (simp add: literal_simps GET_JOBS_LIMIT_def)
  ultimately show ?thesis
    unfolding one_group_ready using ready_attributes [OF assms(1)] by (simp del: list.map)
qed

section \<open>What a listing proves\<close>

text \<open>At most one job of a position, each the operation's own and listed by the device.\<close>

lemma setPosition_keys:
  assumes "distinct (map fst m)" and "\<forall>x \<in> set m. fst x = dj_position (snd x)" and "snd ` set m \<subseteq> S" and "job \<in> S"
  shows "distinct (map fst (setPosition job m)) \<and> (\<forall>x \<in> set (setPosition job m). fst x = dj_position (snd x)) \<and>
    snd ` set (setPosition job m) \<subseteq> S"
proof -
  have upd: "set (AList.update k v m) \<subseteq> insert (k, v) (set m)" for k v
    by (induction m) auto
  have "distinct (map fst (AList.update k v m))" for k v using assms(1) by (rule distinct_update)
  then have distinct: "distinct (map fst (setPosition job m))" using assms(1) by (simp add: setPosition_def split: option.split)
  have sub: "set (setPosition job m) \<subseteq> insert (dj_position job, job) (set m)"
    using upd [of "dj_position job" job] by (auto simp: setPosition_def split: option.split)
  have "fst x = dj_position (snd x) \<and> snd x \<in> S" if "x \<in> set (setPosition job m)" for x
    using subsetD [OF sub that] assms(2-4) by (cases "x = (dj_position job, job)") auto
  with distinct show ?thesis by blast
qed

lemma fold_setPosition_keys:
  "set jobs \<subseteq> S \<Longrightarrow> distinct (map fst m) \<Longrightarrow> \<forall>x \<in> set m. fst x = dj_position (snd x) \<Longrightarrow> snd ` set m \<subseteq> S \<Longrightarrow>
    distinct (map fst (fold setPosition jobs m)) \<and> (\<forall>x \<in> set (fold setPosition jobs m). fst x = dj_position (snd x)) \<and>
    snd ` set (fold setPosition jobs m) \<subseteq> S"
proof (induction jobs arbitrary: m)
  case (Cons job jobs)
  have job: "job \<in> S" and jobs: "set jobs \<subseteq> S" using Cons.prems(1) by simp_all
  note m = setPosition_keys [OF Cons.prems(2-4) job]
  show ?case unfolding fold.simps comp_apply
    by (rule Cons.IH [OF jobs m [THEN conjunct1] m [THEN conjunct2, THEN conjunct1] m [THEN conjunct2, THEN conjunct2]])
qed simp

lemma mset_sorted_map: "mset (map f (sort_key f xs)) = mset (map f xs)"
  by simp

lemma operationJobs_listed:
  shows "distinct (map dj_position (operationJobs operationId response))"
    and "job \<in> set (operationJobs operationId response) \<Longrightarrow> dj_operationId job = js_lower operationId \<and>
      (\<exists>g \<in> set (ip_groups response). ig_tag g = JOB_ATTRIBUTES \<and> readDeviceJob (ig_attributes g) = Some job)"
proof -
  define jobs where "jobs = filter (\<lambda>job. dj_operationId job = js_lower operationId)
      (List.map_filter (\<lambda>g. if ig_tag g \<noteq> JOB_ATTRIBUTES then None else readDeviceJob (ig_attributes g)) (ip_groups response))"
  have code: "operationJobs operationId response = sort_key dj_position (map snd (fold setPosition jobs []))"
    by (simp add: operationJobs_def jobs_def)
  from fold_setPosition_keys [of jobs "set jobs" "[]"]
  have m: "distinct (map fst (fold setPosition jobs []))" "\<forall>x \<in> set (fold setPosition jobs []). fst x = dj_position (snd x)"
    "snd ` set (fold setPosition jobs []) \<subseteq> set jobs" by simp_all
  have same: "map dj_position (map snd (fold setPosition jobs [])) = map fst (fold setPosition jobs [])" using m(2) by simp
  have "distinct (map dj_position (map snd (fold setPosition jobs [])))" unfolding same by (rule m(1))
  then show "distinct (map dj_position (operationJobs operationId response))"
    unfolding code using mset_eq_imp_distinct_iff [OF mset_sorted_map] by blast
  assume "job \<in> set (operationJobs operationId response)"
  then have "job \<in> set jobs" using m(3) by (auto simp: code)
  then show "dj_operationId job = js_lower operationId \<and>
      (\<exists>g \<in> set (ip_groups response). ig_tag g = JOB_ATTRIBUTES \<and> readDeviceJob (ig_attributes g) = Some job)"
    by (auto simp: jobs_def map_filter_def split: if_splits)
qed

lemma readDeviceJob_sheets: "readDeviceJob as = Some job \<Longrightarrow> dj_sheetsCompleted job = Some n \<Longrightarrow> 0 \<le> n"
  by (auto simp: readDeviceJob_def split: list.splits ipp_value.splits option.splits if_splits)

definition listing :: "('d \<Rightarrow> js_text list) \<Rightarrow> ('d \<Rightarrow> js_text \<Rightarrow> bool) \<Rightarrow> string \<Rightarrow> 'd \<Rightarrow> device_job list \<Rightarrow> bool" where
  "listing accepted produced operationId d jobs \<longleftrightarrow>
     distinct (map dj_position jobs) \<and>
     (\<forall>job \<in> set jobs. dj_operationId job = js_lower operationId \<and> (\<forall>n. dj_sheetsCompleted job = Some n \<longrightarrow> 0 \<le> n) \<and>
        (\<exists>v \<in> set (accepted d). describes v job \<and> (empty_handed job \<longrightarrow> \<not> produced d v)))"

lemma listing_calm: "listing accepted produced op d jobs \<Longrightarrow> calm accepted produced d d' \<Longrightarrow> listing accepted produced op d' jobs"
  unfolding listing_def calm_def by metis

lemma listed_jobs:
  assumes honest: "honest_device serve accepted produced" and uri: "uri_ready opt"
    and call: "listOperationJobs opt serve host operationId w = (r, w')"
  shows "iw_journal w' = iw_journal w \<and> calm accepted produced (iw_device w) (iw_device w') \<and>
    (\<forall>jobs. r = Done (Inr jobs) \<longrightarrow> listing accepted produced operationId (iw_device w) jobs)"
proof -
  obtain groups where ready: "groups_ready groups"
    and code: "listOperationJobs opt serve host operationId =
      bind_io (ippCall serve host GET_JOBS groups []) (\<lambda>response. return_io (operationJobs operationId response))"
    using listing_ready [OF uri] listOperationJobs_def by blast
  obtain r1 w1 where asked: "ippCall serve host GET_JOBS groups [] w = (r1, w1)" by force
  have w1: "w' = w1" and r1: "\<And>jobs. r = Done (Inr jobs) \<Longrightarrow> \<exists>response. r1 = Done (Inr response) \<and> jobs = operationJobs operationId response"
    using call unfolding code bind_io_def asked by (auto simp: return_io_def split: outcome.splits sum.splits)
  have other: "GET_JOBS \<in> OPERATIONS" "GET_JOBS \<noteq> PRINT_JOB" by (simp_all add: OPERATIONS_def GET_JOBS_def PRINT_JOB_def)
  have "stable accepted produced (\<lambda>x. iw_journal x = iw_journal w \<and> calm accepted produced (iw_device w) (iw_device x))"
    unfolding stable_def using calm_trans by metis
  from io_same [OF call_calm [OF honest ready other this] _ asked] have kept:
    "iw_journal w' = iw_journal w \<and> calm accepted produced (iw_device w) (iw_device w')"
    unfolding w1 by (simp add: calm_refl)
  have "listing accepted produced operationId (iw_device w) jobs" if "r = Done (Inr jobs)" for jobs
  proof -
    from r1 [OF that] obtain response where returned: "r1 = Done (Inr response)" and jobs: "jobs = operationJobs operationId response"
      by blast
    obtain c q bytes answer where q: "request_sound DEFAULT_DECODE_LIMITS q" "iq_operation q = GET_JOBS"
      "encodeIppRequest q = Inr bytes" "serve c bytes (iw_device w) = (answer, iw_device w1)"
      "readAnswer answer = Some response" "ip_statusCode response < IPP_STATUS_CLIENT_ERROR"
      using ippCall_cases [OF ready asked] unfolding returned by (elim conjE disjE exE; simp)
    then have law: "\<And>g job. g \<in> set (ip_groups response) \<Longrightarrow> ig_tag g = JOB_ATTRIBUTES \<Longrightarrow>
        readDeviceJob (ig_attributes g) = Some job \<Longrightarrow>
        \<exists>v \<in> set (accepted (iw_device w)). describes v job \<and> (empty_handed job \<longrightarrow> \<not> produced (iw_device w) v)"
      using honest unfolding honest_device_def lists_honestly_def by blast
    show ?thesis
      unfolding listing_def jobs
    proof (intro conjI ballI allI impI operationJobs_listed(1))
      fix job assume "job \<in> set (operationJobs operationId response)"
      from operationJobs_listed(2) [OF this] obtain g where g: "dj_operationId job = js_lower operationId"
        "g \<in> set (ip_groups response)" "ig_tag g = JOB_ATTRIBUTES" "readDeviceJob (ig_attributes g) = Some job" by blast
      show "dj_operationId job = js_lower operationId" by (fact g(1))
      show "0 \<le> n" if "dj_sheetsCompleted job = Some n" for n by (rule readDeviceJob_sheets [OF g(4) that])
      show "\<exists>v \<in> set (accepted (iw_device w)). describes v job \<and> (empty_handed job \<longrightarrow> \<not> produced (iw_device w) v)"
        by (rule law [OF g(2-4)])
    qed
  qed
  with kept show ?thesis by blast
qed

lemma list_jobs:
  assumes honest: "honest_device serve accepted produced" and uri: "uri_ready opt" and stable: "stable accepted produced P"
  shows "io_triple P (listOperationJobs opt serve host operationId)
    (\<lambda>jobs w. P w \<and> listing accepted produced operationId (iw_device w) jobs) (\<lambda>_. P) P"
  unfolding io_triple_def
proof (intro allI impI)
  fix w assume P: "P w"
  obtain r w' where call: "listOperationJobs opt serve host operationId w = (r, w')" by force
  note listed = listed_jobs [OF honest uri call]
  have "P w'" using stableD [OF stable P] listed by blast
  moreover have "listing accepted produced operationId (iw_device w') jobs" if "r = Done (Inr jobs)" for jobs
  proof (rule listing_calm)
    show "listing accepted produced operationId (iw_device w) jobs" using listed that by simp
    show "calm accepted produced (iw_device w) (iw_device w')" using listed by blast
  qed
  ultimately show "case listOperationJobs opt serve host operationId w of
      (Killed, w') \<Rightarrow> P w' | (Done (Inl e), w') \<Rightarrow> P w'
    | (Done (Inr jobs), w') \<Rightarrow> P w' \<and> listing accepted produced operationId (iw_device w') jobs"
    by (auto simp: call split: outcome.split sum.split)
qed

section \<open>Evidence and paper\<close>

definition recorded :: "journal \<Rightarrow> string \<Rightarrow> bool" where
  "recorded dir op \<longleftrightarrow> (\<exists>e. lookup_entry (op @ RECORD_SUFFIX) dir = Some e \<and> je_isFile e)"

definition ipp_evidence :: "journal \<times> 'd \<Rightarrow> string \<Rightarrow> bool" where
  "ipp_evidence s op \<longleftrightarrow> recorded (fst s) op"

definition ipp_output :: "('d \<Rightarrow> js_text \<Rightarrow> bool) \<Rightarrow> journal \<times> 'd \<Rightarrow> string \<Rightarrow> bool" where
  "ipp_output produced s op \<longleftrightarrow> (\<exists>p n v. kiosk_name op p n v \<and> produced (snd s) v)"

text \<open>
  Every job the device accepted carries a name of the kiosk, each once; its operation is in the journal, all
  names of an operation announce the same number of documents, and there are no more of them than that.
\<close>

definition sized :: "(string \<Rightarrow> int) \<Rightarrow> js_text set \<Rightarrow> bool" where
  "sized extent A \<longleftrightarrow>
     (\<forall>v \<in> A. \<exists>op p. kiosk_name op p (extent op) v) \<and> (\<forall>op. int (card {v \<in> A. \<exists>p n. kiosk_name op p n v}) \<le> max 0 (extent op))"

definition ipp_well :: "('d \<Rightarrow> js_text list) \<Rightarrow> journal \<times> 'd \<Rightarrow> bool" where
  "ipp_well accepted s \<longleftrightarrow>
     distinct (accepted (snd s)) \<and>
     (\<forall>v \<in> set (accepted (snd s)). \<forall>op p n. kiosk_name op p n v \<longrightarrow> recorded (fst s) op) \<and>
     (\<exists>extent. sized extent (set (accepted (snd s))))"

lemma sized_name: "sized extent A \<Longrightarrow> v \<in> A \<Longrightarrow> kiosk_name op p n v \<Longrightarrow> n = extent op"
  unfolding sized_def using kiosk_name_unique by metis

text \<open>A listing with every job the operation can have, each over and without a sheet, is proof of no paper.\<close>

lemma nothing_listed:
  assumes sized: "sized extent (set (accepted d))" and listing: "listing accepted produced op d jobs"
    and empty: "list_all empty_handed jobs" and all: "extent op \<le> int (length jobs)"
    and name: "kiosk_name op p n v" and "v \<in> set (accepted d)"
  shows "\<not> produced d v"
proof -
  let ?B = "{v \<in> set (accepted d). \<exists>p n. kiosk_name op p n v}"
  define f :: "device_job \<Rightarrow> js_text" where "f job = js (deviceJobName op (dj_position job) (extent op))" for job
  have n: "n = extent op" by (rule sized_name [OF sized assms(6) name])
  have lower: "js_lower op = op" using name by (simp add: kiosk_name_def)
  have job: "f job \<in> ?B \<and> kiosk_name op (dj_position job) (extent op) (f job) \<and> \<not> produced d (f job)" if j: "job \<in> set jobs" for job
  proof -
    obtain u where u: "u \<in> set (accepted d)" "describes u job" "\<not> produced d u"
      using listing j empty by (auto simp: listing_def list_all_iff)
    obtain op' p' where name': "kiosk_name op' p' (extent op') u" using sized u(1) unfolding sized_def by blast
    have "dj_operationId job = op'" "dj_position job = p'" using describes_kiosk_name [OF name' u(2)] by simp_all
    moreover have "dj_operationId job = op" using listing j lower by (simp add: listing_def)
    ultimately have "kiosk_name op (dj_position job) (extent op) u" using name' by simp
    moreover from this have "u = f job" by (simp add: kiosk_name_def f_def)
    ultimately show ?thesis using u by blast
  qed
  have "inj_on f (set jobs)"
  proof (rule inj_onI)
    fix a b assume ab: "a \<in> set jobs" "b \<in> set jobs" "f a = f b"
    then have "kiosk_name op (dj_position a) (extent op) (f a)" "kiosk_name op (dj_position b) (extent op) (f a)"
      using job [of a] job [of b] by metis+
    then have "dj_position a = dj_position b" using kiosk_name_unique by blast
    then show "a = b" using key_unique [of dj_position jobs a b] listing ab by (simp add: listing_def)
  qed
  then have "card (f ` set jobs) = length jobs"
    using listing by (simp add: card_image listing_def distinct_map distinct_card)
  moreover have "int (card ?B) \<le> extent op"
  proof -
    have "1 \<le> extent op" using name n by (simp add: kiosk_name_def)
    moreover have "int (card ?B) \<le> max 0 (extent op)" using sized unfolding sized_def by blast
    ultimately show ?thesis by simp
  qed
  ultimately have "card ?B \<le> card (f ` set jobs)" using all by simp
  moreover have "f ` set jobs \<subseteq> ?B" using job by blast
  ultimately have "f ` set jobs = ?B" by (intro card_seteq) auto
  moreover have "v \<in> ?B" using name assms(6) by blast
  ultimately obtain j where "j \<in> set jobs" "v = f j" by blast
  then show ?thesis using job by blast
qed

lemma aggregate_nothing:
  assumes "nothing_printed (aggregateJobs op expected jobs warning)" and "listing accepted produced op' d jobs"
  shows "expected \<le> int (length jobs) \<and> list_all empty_handed jobs"
proof -
  have facts: "\<not> int (length jobs) < expected" "\<not> list_ex (\<lambda>job. \<not> isTerminalJobState (dj_state job)) jobs" "sheetsOfJobs jobs = Some 0"
    using assms(1)
    by (auto simp: aggregateJobs_def Let_def nothing_printed_def proved_nothing_printed_def device_result_of_def
        operationStatus_def split: if_splits option.splits)
  define n :: "device_job \<Rightarrow> int" where "n job = (case dj_sheetsCompleted job of None \<Rightarrow> 0 | Some k \<Rightarrow> k)" for job
  have some: "dj_sheetsCompleted job \<noteq> None" if "job \<in> set jobs" for job
    using facts(3) that by (auto simp: sheetsOfJobs_def list_all_iff split: if_splits)
  have zero: "sum_list (map n jobs) = 0" using facts(3) by (auto simp: sheetsOfJobs_def n_def [abs_def] split: if_splits)
  have pos: "0 \<le> k" if "k \<in> set (map n jobs)" for k
    using that assms(2) by (auto simp: n_def listing_def split: option.splits)
  have "k = 0" if "k \<in> set (map n jobs)" for k using sum_list_nonneg_eq_0_iff [of "map n jobs"] pos zero that by blast
  then have "dj_sheetsCompleted job = Some 0" if "job \<in> set jobs" for job
    using that some [OF that] by (force simp: n_def split: option.splits)
  then show ?thesis using facts(1,2) by (auto simp: empty_handed_def list_all_iff list_ex_iff)
qed

section \<open>The journal around a submission\<close>

definition others_kept :: "string \<Rightarrow> journal \<Rightarrow> journal \<Rightarrow> bool" where
  "others_kept op dir dir' \<longleftrightarrow> (\<forall>op'. op' \<noteq> op \<longrightarrow> recorded dir' op' = recorded dir op')"

lemma others_kept_refl: "others_kept op dir dir"
  by (simp add: others_kept_def)

lemma others_kept_trans: "others_kept op a b \<Longrightarrow> others_kept op b c \<Longrightarrow> others_kept op a c"
  by (simp add: others_kept_def)

lemma journalWrite_records:
  assumes "journalWrite now r dir = Inr dir'"
  shows "recorded dir' (do_operationId r) \<and> others_kept (do_operationId r) dir dir'"
proof -
  from assms have w: "write_file now (do_operationId r @ RECORD_SUFFIX) (recordJson r) dir = Inr dir'"
    by (auto simp: journalWrite_def recordName_def split: if_splits)
  from write_file_lookup(1) [OF w] have "recorded dir' (do_operationId r)" by (auto simp: recorded_def)
  moreover have "others_kept (do_operationId r) dir dir'"
    using write_file_lookup(2) [OF w] by (simp add: others_kept_def recorded_def)
  ultimately show ?thesis by blast
qed

lemma asRecord_operation: "do_operationId (asRecord op v) = op"
  by (simp add: asRecord_def Let_def)

lemma journalRead_operation:
  assumes "journalRead op dir = Inr (Some r)"
  shows "do_operationId r = op"
proof -
  obtain name e where "lookup_entry name dir = Some e" "je_isFile e"
    "(case je_contents e of None \<Rightarrow> Inr (Some \<lparr>do_operationId = op, do_queueName = [], do_submittedAt = [],
        do_documentCount = 0, do_documents = []\<rparr>) | Some v \<Rightarrow> Inr (Some (asRecord op v))) = (Inr (Some r) :: journal_error + _)"
    using assms unfolding journalRead_def bind_result_Inr by (elim exE conjE) (auto split: option.split_asm if_split_asm)
  then show ?thesis by (cases "je_contents e") (auto simp: asRecord_operation)
qed

lemma journalRecordJobId_records:
  assumes "journalRecordJobId now op position jobId dir = Inr dir'" and "recorded dir op"
  shows "recorded dir' op \<and> others_kept op dir dir'"
proof -
  from assms(1) consider "dir' = dir"
    | r ds where "journalRead op dir = Inr (Some r)" "journalWrite now (r\<lparr>do_documents := ds\<rparr>) dir = Inr dir'"
  proof -
    obtain r where r: "journalRead op dir = Inr r" "(case r of None \<Rightarrow> Inr dir
        | Some r \<Rightarrow> (case setJobId position jobId (do_documents r) of None \<Rightarrow> Inr dir
            | Some ds \<Rightarrow> journalWrite now (r\<lparr>do_documents := ds\<rparr>) dir)) = Inr dir'"
      using assms(1) unfolding journalRecordJobId_def bind_result_Inr by blast
    then show thesis using that
      by (cases r; cases "setJobId position jobId (do_documents (the r))") auto
  qed
  then show ?thesis
  proof cases
    case 1
    then show ?thesis using assms(2) by (simp add: others_kept_refl)
  next
    case 2
    then show ?thesis using journalWrite_records [OF 2(2)] journalRead_operation [OF 2(1)] by simp
  qed
qed

lemma tear_records: "(recorded dir op \<longrightarrow> recorded (tear_entry now op dir) op) \<and> others_kept op dir (tear_entry now op dir)"
proof (cases "lookup_entry (op @ RECORD_SUFFIX) dir")
  case None
  then show ?thesis by (auto simp: tear_entry_def others_kept_def recorded_def lookup_append split: option.split)
next
  case (Some e)
  have "lookup_entry n (tear_entry now op dir) =
      (if n = op @ RECORD_SUFFIX then map_option (\<lambda>e. e\<lparr>je_mtimeMs := now, je_contents := None\<rparr>) (lookup_entry n dir)
       else lookup_entry n dir)" for n
    by (simp add: tear_entry_def Some lookup_updated)
  then show ?thesis by (auto simp: others_kept_def recorded_def)
qed

lemma recorded_read: "is_uuid op \<Longrightarrow> journalRead op dir = Inr r \<Longrightarrow> recorded dir op \<longleftrightarrow> r \<noteq> None"
  by (auto simp: journalRead_def recordName_def recorded_def split: option.splits if_splits)

section \<open>Where a submission stands\<close>

definition before ::
  "('d \<Rightarrow> js_text list) \<Rightarrow> ('d \<Rightarrow> js_text \<Rightarrow> bool) \<Rightarrow> journal \<times> 'd \<Rightarrow> string \<Rightarrow> 'd ipp_world \<Rightarrow> bool" where
  "before accepted produced s op w \<longleftrightarrow>
     others_kept op (fst s) (iw_journal w) \<and> calm accepted produced (snd s) (iw_device w)"

definition during ::
  "('d \<Rightarrow> js_text list) \<Rightarrow> ('d \<Rightarrow> js_text \<Rightarrow> bool) \<Rightarrow> journal \<times> 'd \<Rightarrow> string \<Rightarrow> js_text list \<Rightarrow> 'd ipp_world \<Rightarrow> bool" where
  "during accepted produced s op names w \<longleftrightarrow>
     recorded (iw_journal w) op \<and> others_kept op (fst s) (iw_journal w) \<and>
     (\<exists>vs. accepted (iw_device w) = vs @ accepted (snd s) \<and> distinct vs \<and> set vs \<subseteq> set names) \<and>
     (\<forall>u \<in> set (accepted (snd s)). produced (iw_device w) u \<longrightarrow> produced (snd s) u)"

lemma before_stable: "stable accepted produced (before accepted produced s op)"
  unfolding stable_def before_def using calm_trans by metis

lemma during_stable: "stable accepted produced (during accepted produced s op names)"
  unfolding stable_def during_def calm_def by metis

lemma during_more: "during accepted produced s op names w \<Longrightarrow> set names \<subseteq> set names' \<Longrightarrow> during accepted produced s op names' w"
  unfolding during_def by blast

lemma write_intent:
  assumes "do_operationId r = op" and "is_uuid op"
  shows "io_triple (before accepted produced s op) (writeJournal host op (journalOpen now r))
    (\<lambda>_. during accepted produced s op []) (\<lambda>e w. before accepted produced s op w) (before accepted produced s op)"
proof -
  have torn: "before accepted produced s op (w\<lparr>iw_life := n, iw_journal := tear_entry t op (iw_journal w)\<rparr>)"
    "before accepted produced s op (w\<lparr>iw_journal := tear_entry t op (iw_journal w)\<rparr>)"
    if "before accepted produced s op w" for w n t
    using that tear_records [of "iw_journal w" op t] others_kept_trans by (auto simp: before_def)
  have written: "during accepted produced s op [] (w\<lparr>iw_life := n, iw_journal := dir\<rparr>)"
    if "before accepted produced s op w" "journalOpen now r (iw_journal w) = Inr dir" for w n dir
  proof -
    have "recorded dir op \<and> others_kept op (iw_journal w) dir"
      using journalWrite_records [of now r "iw_journal w" dir] that(2) assms(1) by (simp add: journalOpen_def)
    then show ?thesis using that(1) others_kept_trans by (fastforce simp: before_def during_def calm_def)
  qed
  have life: "before accepted produced s op (w\<lparr>iw_life := n\<rparr>) = before accepted produced s op w" for w n
    by (simp add: before_def)
  show ?thesis
    unfolding io_triple_def writeJournal_def Let_def
    using torn written by (auto simp: life split: nat.split option.split sum.split)
qed

lemma write_job_id:
  shows "io_triple (during accepted produced s op names) (writeJournal host op (journalRecordJobId now op position jobId))
    (\<lambda>_. during accepted produced s op names)
    (\<lambda>e w. during accepted produced s op names w \<and> (is_uuid op \<longrightarrow> \<not> unambiguous e)) (during accepted produced s op names)"
proof -
  have torn: "during accepted produced s op names (w\<lparr>iw_life := n, iw_journal := tear_entry t op (iw_journal w)\<rparr>)"
    "during accepted produced s op names (w\<lparr>iw_journal := tear_entry t op (iw_journal w)\<rparr>)"
    if "during accepted produced s op names w" for w n t
    using that tear_records [of "iw_journal w" op t] others_kept_trans by (auto simp: during_def)
  have written: "during accepted produced s op names (w\<lparr>iw_life := n, iw_journal := dir\<rparr>)"
    if "during accepted produced s op names w" "journalRecordJobId now op position jobId (iw_journal w) = Inr dir" for w n dir
    using that journalRecordJobId_records [OF that(2)] others_kept_trans by (fastforce simp: during_def)
  have life: "during accepted produced s op names (w\<lparr>iw_life := n\<rparr>) = during accepted produced s op names w" for w n
    by (simp add: during_def)
  have failed: "\<not> unambiguous (journal_thrown e)"
    if "is_uuid op" "journalRecordJobId now op position jobId dir = Inl e" for e dir
  proof -
    note run = that
    have "e = J_IO_ERROR"
    proof (cases "journalRead op dir")
      case (Inl e')
      then show ?thesis using that by (auto simp: journalRecordJobId_def journalRead_def recordName_def split: option.split_asm if_split_asm)
    next
      case (Inr r)
      then obtain r' ds where r: "r = Some r'" "journalWrite now (r'\<lparr>do_documents := ds\<rparr>) dir = Inl e"
        using run(2) by (auto simp: journalRecordJobId_def split: option.split_asm)
      have "do_operationId r' = op" using journalRead_operation Inr r(1) by blast
      then show ?thesis using r(2) run(1)
        by (auto simp: journalWrite_def recordName_def write_file_def split: option.split_asm if_split_asm)
    qed
    then show ?thesis by (simp add: unambiguous_def)
  qed
  show ?thesis
    unfolding io_triple_def writeJournal_def Let_def
    using torn written failed by (auto simp: life unambiguous_def split: nat.split option.split sum.split)
qed

section \<open>One document\<close>

lemma js_eq [simp]: "js a = js b \<longleftrightarrow> a = b"
  using chars_js by metis

lemma ascii_job_name:
  assumes "is_uuid op" and "0 \<le> p" "p \<le> 999" and "0 \<le> n" "n \<le> 999"
  shows "ascii (deviceJobName op p n)" and "length (deviceJobName op p n) = 45"
proof -
  note p = pad3_digits [OF assms(2,3)] and n = pad3_digits [OF assms(4,5)]
  have hex: "code c < 128" if "is_uuid_char c" for c
    using that by (auto simp: is_uuid_char_def is_hex_def is_hex_lower_def is_digit_def code_def)
  have digit: "code c < 128" if "is_digit c" for c using that by (simp add: is_digit_def)
  have "ascii op" "ascii (pad3 p)" "ascii (pad3 n)"
    using uuid_chars [OF assms(1)] p(2) n(2) hex digit by (simp_all add: ascii_def list_all_iff)
  then show "ascii (deviceJobName op p n)" by (simp add: ascii_def deviceJobName_def code_def)
  show "length (deviceJobName op p n) = 45" using length_uuid(1) [OF assms(1)] p n by (simp add: deviceJobName_def)
qed

lemma print_request_ready:
  assumes "uri_ready opt" and "ascii v" "length v \<le> 65535" and "1 \<le> copies" "copies \<le> 100"
    and "sides \<in> snd ` set IPP_SIDES_BY_DUPLEX_MODE" and "media \<in> snd ` set IPP_MEDIA_BY_PAPER_SIZE"
    and "colorMode \<in> snd ` set IPP_COLOR_MODE_BY_COLOR_MODE"
  shows "groups_ready (printJobGroups opt media colorMode copies sides v)"
proof -
  have short: "ascii media" "length media \<le> 65535" "ascii colorMode" "length colorMode \<le> 65535" "ascii sides" "length sides \<le> 65535"
    using assms(6-8)
    by (auto simp: IPP_SIDES_BY_DUPLEX_MODE_def IPP_MEDIA_BY_PAPER_SIZE_def IPP_COLOR_MODE_BY_COLOR_MODE_def literal_simps)
  have names: "ascii ''job-name''" "ascii ''document-format''" "ascii ''application/pdf''" "ascii ''copies''" "ascii ''sides''"
    "ascii ''media''" "ascii ''print-color-mode''" "ascii ''print-scaling''" "ascii ''none''" "ascii ''orientation-requested''"
    by (simp_all add: literal_simps)
  have "list_all attribute_sound
      [integerAttribute (js ''copies'') copies, keywordAttribute (js ''sides'') [js sides],
       keywordAttribute (js ''media'') [js media], keywordAttribute (js ''print-color-mode'') [js colorMode],
       keywordAttribute (js ''print-scaling'') [js ''none''], enumAttribute (js ''orientation-requested'') 3]"
    using names short assms(4,5) by (simp add: literal_attribute number_attribute)
  moreover have "list_all attribute_sound (operationPreamble @
      [uriAttribute (js ''printer-uri'') (io_printerUri opt), nameAttribute (js ''requesting-user-name'') REQUESTING_USER_NAME,
       nameAttribute (js ''job-name'') (js v), mimeTypeAttribute (js ''document-format'') (js ''application/pdf'')])"
    using ready_attributes [OF assms(1)] names assms(2,3) by (simp add: literal_attribute)
  ultimately show ?thesis
    unfolding printJobGroups_def groups_ready_def attributes_of_def list.pred_inject operation_group by simp
qed

lemma print_request_name:
  "iq_groups q = printJobGroups opt media colorMode copies sides v \<Longrightarrow> job_name_of q = Some (js v)"
  by (simp add: job_name_of_def printJobGroups_def operationPreamble_def uriAttribute_def nameAttribute_def)

lemma print_call:
  assumes honest: "honest_device serve accepted produced"
    and ready: "groups_ready (printJobGroups opt media colorMode copies sides v)" and new: "js v \<notin> set sent"
  shows "io_triple (during accepted produced s op sent)
      (ippCall serve host PRINT_JOB (printJobGroups opt media colorMode copies sides v) bytes)
    (\<lambda>_. during accepted produced s op (js v # sent))
    (\<lambda>e w. during accepted produced s op (js v # sent) w \<and> (failureAnswered e \<longrightarrow> during accepted produced s op sent w))
    (during accepted produced s op (js v # sent))"
  unfolding io_triple_def
proof (intro allI impI)
  fix w assume now: "during accepted produced s op sent w"
  let ?groups = "printJobGroups opt media colorMode copies sides v"
  obtain r w' where call: "ippCall serve host PRINT_JOB ?groups bytes w = (r, w')" by force
  note ran = ippCall_cases [OF ready call]
  have law: "accepts_honestly serve accepted produced" using honest by (simp add: honest_device_def)
  have more: "during accepted produced s op (js v # sent) x" if "during accepted produced s op sent x" for x
    by (rule during_more [OF that]) auto
  have "during accepted produced s op (js v # sent) w' \<and> (\<forall>e. r = Done (Inl e) \<longrightarrow> failureAnswered e \<longrightarrow> during accepted produced s op sent w')"
  proof (cases "r = Killed \<and> iw_device w' = iw_device w")
    case True
    then show ?thesis using stableD [OF during_stable now, of w'] ran more calm_refl by metis
  next
    case False
    then obtain c q body answer where q: "request_sound DEFAULT_DECODE_LIMITS q" "iq_groups q = ?groups"
      "encodeIppRequest q = Inr body" "serve c body (iw_device w) = (answer, iw_device w')" "iq_operation q = PRINT_JOB"
      "\<forall>e. r = Done (Inl e) \<longrightarrow> failureAnswered e \<longrightarrow> refuses answer"
      using ran by blast
    have PRINT_asked: "PRINT_JOB \<in> OPERATIONS" by (simp add: OPERATIONS_def)
    have job: "job_name_of q = Some (js v)" by (rule print_request_name [OF q(2)])
    have step: "accepted (iw_device w') = accepted (iw_device w) \<or>
        \<not> refuses answer \<and> accepted (iw_device w') = js v # accepted (iw_device w)"
      and paper: "\<forall>u \<in> set (accepted (iw_device w)). produced (iw_device w') u \<longrightarrow> produced (iw_device w) u"
      and only: "\<forall>d u. produced d u \<longrightarrow> u \<in> set (accepted d)"
      using law q(1,3-5) job PRINT_asked unfolding accepts_honestly_def by (metis option.inject)+
    have J: "iw_journal w' = iw_journal w" using ran by blast
    show ?thesis
    proof (cases "accepted (iw_device w') = accepted (iw_device w)")
      case True
      then have "calm accepted produced (iw_device w) (iw_device w')"
        unfolding calm_def using paper only by metis
      then show ?thesis using stableD [OF during_stable now J] more by blast
    next
      case False
      then have added: "\<not> refuses answer" "accepted (iw_device w') = js v # accepted (iw_device w)" using step by blast+
      obtain vs where vs: "accepted (iw_device w) = vs @ accepted (snd s)" "distinct vs" "set vs \<subseteq> set sent"
        using now unfolding during_def by blast
      have "accepted (iw_device w') = (js v # vs) @ accepted (snd s)" "distinct (js v # vs)" "set (js v # vs) \<subseteq> set (js v # sent)"
        using added(2) vs new by auto
      moreover have "\<forall>u \<in> set (accepted (snd s)). produced (iw_device w') u \<longrightarrow> produced (snd s) u"
        using now paper vs(1) by (auto simp: during_def)
      ultimately have "during accepted produced s op (js v # sent) w'"
        using now J unfolding during_def by metis
      then show ?thesis using q(6) added(1) by blast
    qed
  qed
  then show "case ippCall serve host PRINT_JOB ?groups bytes w of
      (Killed, w') \<Rightarrow> during accepted produced s op (js v # sent) w'
    | (Done (Inl e), w') \<Rightarrow> during accepted produced s op (js v # sent) w' \<and> (failureAnswered e \<longrightarrow> during accepted produced s op sent w')
    | (Done (Inr x), w') \<Rightarrow> during accepted produced s op (js v # sent) w'"
    by (auto simp: call split: outcome.split sum.split)
qed

text \<open>What the last check and the manifest's schema say of a document that is submitted.\<close>

definition document_ready :: "print_submission \<Rightarrow> print_operation_artifact \<Rightarrow> bool" where
  "document_ready sub a \<longleftrightarrow> 0 \<le> pa_position a \<and> pa_position a \<le> 999 \<and>
     (\<exists>d. List.find (\<lambda>d. pd_documentId d = pa_documentId a) (pm_documents (ps_manifest sub)) = Some d \<and>
        1 \<le> pd_copies d \<and> pd_copies d \<le> 100 \<and> map_of IPP_SIDES_BY_DUPLEX_MODE (pd_duplex d) \<noteq> None)"

lemma not_unambiguous [simp]: "unambiguous (submissionError c b) \<longleftrightarrow> \<not> b"
  by (simp add: submissionError_def unambiguous_def ambiguousAdapterError_def adapterError_def)

lemma submit_one:
  assumes honest: "honest_device serve accepted produced" and uri: "uri_ready opt" and op: "is_uuid (ps_operationId sub)"
    and n: "0 \<le> n" "n \<le> 999" and a: "document_ready sub a"
    and tables: "media \<in> snd ` set IPP_MEDIA_BY_PAPER_SIZE" "colorMode \<in> snd ` set IPP_COLOR_MODE_BY_COLOR_MODE"
    and v: "v = js (deviceJobName (ps_operationId sub) (pa_position a) n)" "v \<notin> set sent"
  shows "io_triple (during accepted produced s (ps_operationId sub) sent)
      (submitDocument opt serve host sub media colorMode n k a)
    (\<lambda>_. during accepted produced s (ps_operationId sub) (v # sent))
    (\<lambda>e w. during accepted produced s (ps_operationId sub) (v # sent) w \<and>
       (unambiguous e \<longrightarrow> k = 0 \<and> during accepted produced s (ps_operationId sub) sent w))
    (during accepted produced s (ps_operationId sub) (v # sent))"
    (is "io_triple ?P ?m ?Q ?E ?I")
proof -
  let ?op = "ps_operationId sub" and ?name = "deviceJobName (ps_operationId sub) (pa_position a) n"
  obtain d sides where d: "List.find (\<lambda>d. pd_documentId d = pa_documentId a) (pm_documents (ps_manifest sub)) = Some d"
    "1 \<le> pd_copies d" "pd_copies d \<le> 100" "map_of IPP_SIDES_BY_DUPLEX_MODE (pd_duplex d) = Some sides"
    and p: "0 \<le> pa_position a" "pa_position a \<le> 999"
    using a by (auto simp: document_ready_def)
  have sides: "sides \<in> snd ` set IPP_SIDES_BY_DUPLEX_MODE" using map_of_SomeD [OF d(4)] by force
  have ready: "groups_ready (printJobGroups opt media colorMode (pd_copies d) sides ?name)"
    by (rule print_request_ready [OF uri _ _ d(2,3) sides tables]) (use ascii_job_name [OF op p n] in simp_all)
  have kept: "during accepted produced s ?op (v # sent) w" if "during accepted produced s ?op sent w" for w
    by (rule during_more [OF that]) auto
  have stop: "io_triple ?P (throw_io (submissionError ARTIFACT_UNAVAILABLE (0 < k))) ?Q ?E ?I"
    by (rule io_throw) (use kept in auto)
  have call: "io_triple ?P (ippCall serve host PRINT_JOB (printJobGroups opt media colorMode (pd_copies d) sides ?name) bytes)
      (\<lambda>_. during accepted produced s ?op (v # sent)) (\<lambda>e w. during accepted produced s ?op (v # sent) w \<and> (failureAnswered e \<longrightarrow> during accepted produced s ?op sent w)) ?I" for bytes
    using print_call [OF honest ready, of sent] v by simp
  have note_id: "io_triple (during accepted produced s ?op (v # sent)) (writeJournal host ?op (journalRecordJobId now ?op position jobId)) ?Q ?E ?I"
    for now position jobId
    by (rule io_weaken [OF write_job_id]) (use op in auto)
  have after: "io_triple (\<lambda>w. case r of
        Inl e \<Rightarrow> during accepted produced s ?op (v # sent) w \<and> (failureAnswered e \<longrightarrow> during accepted produced s ?op sent w)
      | Inr x \<Rightarrow> during accepted produced s ?op (v # sent) w)
    (case r of Inl e \<Rightarrow> throw_io (submissionError (submissionFailureCode e) (0 < k \<or> \<not> failureAnswered e))
     | Inr response \<Rightarrow> (case readIntegerAttribute response JOB_ATTRIBUTES (js ''job-id'') of None \<Rightarrow> return_io ()
         | Some jobId \<Rightarrow> writeJournal host ?op (journalRecordJobId (ih_writeMs host) ?op (pa_position a) (show_int jobId))))
    ?Q ?E ?I" for r
  proof (cases r)
    case (Inl e)
    show ?thesis unfolding Inl sum.case by (rule io_throw) auto
  next
    case (Inr response)
    show ?thesis unfolding Inr sum.case
      by (cases "readIntegerAttribute response JOB_ATTRIBUTES (js ''job-id'')") (use note_id in \<open>auto intro: io_return\<close>)
  qed
  show ?thesis
  proof (cases "ih_files host (pa_path a)")
    case None
    then show ?thesis using stop by (simp add: submitDocument_def d Let_def)
  next
    case (Some bytes)
    then show ?thesis
      using stop io_bind [OF io_attempt [OF call] after] by (simp add: submitDocument_def d Let_def)
  qed
qed

section \<open>All documents, and the wait\<close>

definition names_of :: "string \<Rightarrow> int \<Rightarrow> print_operation_artifact list \<Rightarrow> js_text list" where
  "names_of op n artifacts = map (\<lambda>a. js (deviceJobName op (pa_position a) n)) artifacts"

lemma submit_all:
  assumes honest: "honest_device serve accepted produced" and uri: "uri_ready opt" and op: "is_uuid (ps_operationId sub)"
    and n: "0 \<le> n" "n \<le> 999"
    and tables: "media \<in> snd ` set IPP_MEDIA_BY_PAPER_SIZE" "colorMode \<in> snd ` set IPP_COLOR_MODE_BY_COLOR_MODE"
  shows "list_all (document_ready sub) as \<Longrightarrow> distinct (names_of (ps_operationId sub) n as) \<Longrightarrow>
      set sent \<inter> set (names_of (ps_operationId sub) n as) = {} \<Longrightarrow> (k = 0 \<longrightarrow> sent = []) \<Longrightarrow>
      set names = set sent \<union> set (names_of (ps_operationId sub) n as) \<Longrightarrow>
    io_triple (during accepted produced s (ps_operationId sub) sent)
      (submitDocuments opt serve host sub media colorMode n k as)
      (\<lambda>_. during accepted produced s (ps_operationId sub) names)
      (\<lambda>e w. during accepted produced s (ps_operationId sub) names w \<and>
         (unambiguous e \<longrightarrow> during accepted produced s (ps_operationId sub) [] w))
      (during accepted produced s (ps_operationId sub) names)"
proof (induction as arbitrary: sent k)
  case Nil
  then show ?case by (auto simp: names_of_def intro!: io_return elim: during_more)
next
  case (Cons a as)
  let ?op = "ps_operationId sub"
  let ?v = "js (deviceJobName ?op (pa_position a) n)"
  have a: "document_ready sub a" and rest: "list_all (document_ready sub) as" and new: "?v \<notin> set sent"
    and fresh: "distinct (names_of ?op n as)" "set (?v # sent) \<inter> set (names_of ?op n as) = {}"
    and names: "set names = set (?v # sent) \<union> set (names_of ?op n as)"
    using Cons.prems by (auto simp: names_of_def)
  have within_names: "during accepted produced s ?op names w" if "during accepted produced s ?op (?v # sent) w" for w
    by (rule during_more [OF that]) (use names in auto)
  have "io_triple (during accepted produced s ?op sent) (submitDocument opt serve host sub media colorMode n k a)
      (\<lambda>_. during accepted produced s ?op (?v # sent))
      (\<lambda>e w. during accepted produced s ?op names w \<and> (unambiguous e \<longrightarrow> during accepted produced s ?op [] w))
      (during accepted produced s ?op names)"
    by (rule io_weaken [OF submit_one [OF honest uri op n a tables refl new]]) (use within_names Cons.prems(4) in auto)
  moreover have "Suc k = 0 \<longrightarrow> ?v # sent = []" by simp
  note Cons.IH [OF rest fresh this names]
  ultimately show ?case unfolding submitDocuments.simps by (rule io_bind)
qed

lemma await_settled:
  assumes honest: "honest_device serve accepted produced" and uri: "uri_ready opt" and stable: "stable accepted produced P"
  shows "io_triple P (awaitCompletion opt serve host op n)
    (\<lambda>st w. P w \<and> (nothing_printed st \<longrightarrow> (\<exists>jobs. listing accepted produced op (iw_device w) jobs \<and>
       n \<le> int (length jobs) \<and> list_all empty_handed jobs))) (\<lambda>_ _. False) P"
    (is "io_triple P _ ?Q _ _")
proof -
  have quiet: "\<not> nothing_printed (unknownStatus op)" by (simp add: unknownStatus_def)
  have aggregated: "io_triple (\<lambda>w. P w \<and> listing accepted produced op (iw_device w) jobs)
      (bind_io (readWarning opt serve host) (\<lambda>warning. return_io (aggregateJobs op n jobs warning))) ?Q (\<lambda>_ _. False) P" for jobs
  proof -
    let ?K = "\<lambda>w. P w \<and> listing accepted produced op (iw_device w) jobs"
    have "stable accepted produced ?K" using stable listing_calm unfolding stable_def by metis
    then have ask: "io_triple ?K (getPrinterAttributes opt serve host [''printer-state'', ''printer-state-reasons'']) (\<lambda>_. ?K) (\<lambda>_. ?K) ?K"
      by (intro ask_printer [OF honest uri]) (simp_all add: literal_simps)
    have "io_triple ?K (readWarning opt serve host) (\<lambda>_. ?K) (\<lambda>_ _. False) P"
      unfolding readWarning_def
      by (rule io_bind [OF io_weaken [OF io_attempt [OF ask, where F = "\<lambda>_ _. False"], where Q' = "\<lambda>_. ?K"]])
        (auto split: sum.splits intro!: io_return)
    then show ?thesis
    proof (rule io_bind)
      fix warning
      show "io_triple ?K (return_io (aggregateJobs op n jobs warning)) ?Q (\<lambda>_ _. False) P"
      proof (rule io_return)
        fix w assume w: "?K w"
        show "?Q (aggregateJobs op n jobs warning) w"
          using w aggregate_nothing [of op n jobs warning accepted produced op "iw_device w"] by blast
      qed
    qed
  qed
  have once: "io_triple P (pollOnce opt serve host op n later) ?Q (\<lambda>_ _. False) P"
    if "io_triple P later ?Q (\<lambda>_ _. False) P" for later
    unfolding pollOnce_def
  proof (rule io_bind [OF io_attempt [OF list_jobs [OF honest uri stable]]])
    fix r :: "ipp_failure + device_job list"
    have later: "io_triple (\<lambda>w. P w \<and> listing accepted produced op (iw_device w) jobs) later ?Q (\<lambda>_ _. False) P" for jobs
      by (rule io_weaken [OF that]) auto
    show "io_triple (\<lambda>w. case r of Inl e \<Rightarrow> P w | Inr jobs \<Rightarrow> P w \<and> listing accepted produced op (iw_device w) jobs)
        (case r of Inl e \<Rightarrow> return_io (unknownStatus op)
         | Inr jobs \<Rightarrow> if n \<le> int (length jobs) \<and> list_all (\<lambda>job. isTerminalJobState (dj_state job)) jobs
             then bind_io (readWarning opt serve host) (\<lambda>warning. return_io (aggregateJobs op n jobs warning)) else later)
        ?Q (\<lambda>_ _. False) P"
      by (cases r) (auto simp: quiet intro!: io_return aggregated later)
  qed
  have die: "io_triple P die_io ?Q (\<lambda>_ _. False) P" by (rule io_die)
  have "io_triple P (pollUntil opt serve host op n deadline clock) ?Q (\<lambda>_ _. False) P" for deadline clock
    by (induction clock) (auto intro!: once die io_return)
  then show ?thesis unfolding awaitCompletion_def using die by (cases "ih_clock host") auto
qed

section \<open>A submission from beginning to end\<close>

lemma evidence_of_accepted:
  assumes "ipp_well accepted s" and "v \<in> set (accepted (snd s))" and "kiosk_name op p n v"
  shows "ipp_evidence s op"
  using assms unfolding ipp_well_def ipp_evidence_def by blast

lemma well_before: "ipp_well accepted s \<Longrightarrow> \<not> ipp_evidence s op \<Longrightarrow> before accepted produced s op w \<Longrightarrow>
    ipp_well accepted (iw_journal w, iw_device w)"
  unfolding before_def calm_def ipp_well_def ipp_evidence_def others_kept_def
  by (metis fst_conv snd_conv)

lemma well_during:
  assumes well: "ipp_well accepted s" and fresh: "\<not> ipp_evidence s op" and now: "during accepted produced s op (names_of op n as) w"
    and names: "\<forall>a \<in> set as. kiosk_name op (pa_position a) n (js (deviceJobName op (pa_position a) n))" and few: "int (length as) \<le> n"
  shows "ipp_well accepted (iw_journal w, iw_device w)"
proof -
  let ?A = "set (accepted (snd s))" and ?B = "set (accepted (iw_device w))"
  obtain vs where vs: "accepted (iw_device w) = vs @ accepted (snd s)" "distinct vs" "set vs \<subseteq> set (names_of op n as)"
    using now unfolding during_def by blast
  obtain extent where extent: "sized extent ?A" using well unfolding ipp_well_def by blast
  have own: "kiosk_name op (SOME p. kiosk_name op p n v) n v" if "v \<in> set vs" for v
  proof -
    have "\<exists>p. kiosk_name op p n v" using that vs(3) names by (auto simp: names_of_def)
    then show ?thesis by (rule someI_ex)
  qed
  have mine: "op' = op" if "v \<in> set vs" "kiosk_name op' p' n' v" for v op' p' n'
    using own [OF that(1)] kiosk_name_unique that(2) by blast
  have old: "op' \<noteq> op" if "v \<in> ?A" "kiosk_name op' p n' v" for v op' p n'
    using evidence_of_accepted [OF well that] fresh by blast
  have apart: "set vs \<inter> ?A = {}" using own old by blast
  have "distinct (accepted (iw_device w))" using vs(1,2) apart well unfolding ipp_well_def by simp
  moreover have "recorded (iw_journal w) op'" if v: "v \<in> ?B" "kiosk_name op' p n' v" for v op' p n'
  proof (cases "v \<in> set vs")
    case True
    then have "op' = op" using own kiosk_name_unique v(2) by blast
    then show ?thesis using now by (simp add: during_def)
  next
    case False
    then have A: "v \<in> ?A" using v(1) vs(1) by auto
    then have "recorded (fst s) op'" using well v(2) unfolding ipp_well_def by blast
    then show ?thesis using now old [OF A v(2)] by (simp add: during_def others_kept_def)
  qed
  moreover have "sized (extent(op := n)) ?B"
    unfolding sized_def
  proof (intro conjI ballI allI)
    fix v assume v: "v \<in> ?B"
    show "\<exists>op' p. kiosk_name op' p ((extent(op := n)) op') v"
    proof (cases "v \<in> set vs")
      case True
      then show ?thesis using own by (intro exI [where x = op]) auto
    next
      case False
      then have A: "v \<in> ?A" using v vs(1) by auto
      then obtain op' p where "kiosk_name op' p (extent op') v" using extent unfolding sized_def by blast
      then show ?thesis using old [OF A] by (intro exI [where x = op']) auto
    qed
  next
    fix op'
    show "int (card {v \<in> ?B. \<exists>p n. kiosk_name op' p n v}) \<le> max 0 ((extent(op := n)) op')"
    proof (cases "op' = op")
      case True
      have "{v \<in> ?B. \<exists>p n. kiosk_name op p n v} \<subseteq> set (names_of op n as)" using vs(1,3) old by fastforce
      then have "card {v \<in> ?B. \<exists>p n. kiosk_name op p n v} \<le> card (set (names_of op n as))" by (intro card_mono) auto
      also have "\<dots> \<le> length as" using card_length [of "names_of op n as"] by (simp add: names_of_def)
      finally show ?thesis using few True by simp
    next
      case False
      have "{v \<in> ?B. \<exists>p n. kiosk_name op' p n v} = {v \<in> ?A. \<exists>p n. kiosk_name op' p n v}"
        using vs(1) mine False by auto
      moreover have "int (card {v \<in> ?A. \<exists>p n. kiosk_name op' p n v}) \<le> max 0 (extent op')" using extent unfolding sized_def by blast
      ultimately show ?thesis using False by simp
    qed
  qed
  ultimately show ?thesis unfolding ipp_well_def by auto
qed

text \<open>The caller hands over what the control plane issues: a lower-case operation and a manifest of the schema.\<close>

definition ipp_takes :: "(string \<Rightarrow> bool) \<Rightarrow> print_submission \<Rightarrow> bool" where
  "ipp_takes uuid sub \<longleftrightarrow>
     js_lower (ps_operationId sub) = ps_operationId sub \<and> printJobManifestSchema uuid (ps_manifest sub)"

lemma taken_submission:
  assumes ok: "assertSubmittable plat sub = Inr ()" and takes: "ipp_takes uuid sub"
  shows "is_uuid (ps_operationId sub)" "1 \<le> length (ps_artifacts sub)" "length (ps_artifacts sub) \<le> 10"
    "distinct (map pa_position (ps_artifacts sub))" "list_all (document_ready sub) (ps_artifacts sub)"
proof -
  let ?m = "ps_manifest sub" and ?as = "ps_artifacts sub"
  have len: "length (pm_documents ?m) = length ?as" "?as \<noteq> []" "is_uuid (ps_operationId sub)"
    and chk: "checkArtifacts plat ?m [] [] ?as = Inr ()"
    using ok by (auto simp: assertSubmittable_def Let_def list_ex_iff not_less)
  have docs: "length (pm_documents ?m) \<le> 10" "list_all (printJobDocumentSchema uuid) (pm_documents ?m)"
    using takes by (simp_all add: ipp_takes_def printJobManifestSchema_def)
  show "is_uuid (ps_operationId sub)" by (fact len(3))
  show "1 \<le> length ?as" using len(2) by (cases ?as) auto
  show "length ?as \<le> 10" using len(1) docs(1) by simp
  note arts = chk [unfolded checkArtifacts_Inr]
  show "distinct (map pa_position ?as)" using arts by blast
  have "document_ready sub a" if a: "a \<in> set ?as" for a
  proof -
    obtain e where e: "expectedByDocument ?m (pa_documentId a) = Some e" "artifactMatches plat e a" using arts a by blast
    have "\<exists>d. List.find (\<lambda>d. pd_documentId d = pa_documentId a) (pm_documents ?m) = Some d"
      using expectedByDocument_Some [OF e(1)] by (auto simp: find_None_iff simp flip: not_None_eq)
    then obtain d where d: "List.find (\<lambda>d. pd_documentId d = pa_documentId a) (pm_documents ?m) = Some d" by blast
    then have "printJobDocumentSchema uuid d" using docs(2) find_Some_set [OF d] by (auto simp: list_all_iff)
    then have "1 \<le> pd_copies d" "pd_copies d \<le> 100" "map_of IPP_SIDES_BY_DUPLEX_MODE (pd_duplex d) \<noteq> None"
      by (auto simp: printJobDocumentSchema_def positive_int_def IPP_SIDES_BY_DUPLEX_MODE_def)
    with d e(2) show ?thesis by (simp add: document_ready_def artifactMatches_def)
  qed
  then show "list_all (document_ready sub) ?as" by (simp add: list_all_iff)
qed

text \<open>What a submission leaves, however it ends.\<close>

lemma submit_outcome:
  assumes honest: "honest_device serve accepted produced" and uri: "uri_ready opt" and takes: "ipp_takes uuid sub"
    and well: "ipp_well accepted s" and fresh: "\<not> ipp_evidence s (ps_operationId sub)"
    and run: "ippSubmit plat opt serve host sub (begin_call host s) = (r, w)"
  shows "ipp_well accepted (iw_journal w, iw_device w) \<and> others_kept (ps_operationId sub) (fst s) (iw_journal w) \<and>
    (\<forall>e. r = Done (Inl e) \<longrightarrow> unambiguous e \<longrightarrow> \<not> ipp_output produced (iw_journal w, iw_device w) (ps_operationId sub)) \<and>
    (\<forall>st. r = Done (Inr st) \<longrightarrow> ipp_evidence (iw_journal w, iw_device w) (ps_operationId sub) \<and>
       (nothing_printed st \<longrightarrow> \<not> ipp_output produced (iw_journal w, iw_device w) (ps_operationId sub)))"
proof -
  let ?op = "ps_operationId sub" and ?docs = "sort_key pa_position (ps_artifacts sub)"
  let ?n = "int (length ?docs)"
  have only: "produced d v \<Longrightarrow> v \<in> set (accepted d)" for d v
    using honest by (auto simp: honest_device_def accepts_honestly_def)
  have unprinted: "\<not> ipp_output produced (J, d) ?op" if "accepted d = accepted (snd s)" for J d
  proof
    assume "ipp_output produced (J, d) ?op"
    then obtain p n v where v: "kiosk_name ?op p n v" "produced d v" by (auto simp: ipp_output_def)
    then have "v \<in> set (accepted (snd s))" using only [OF v(2)] that by simp
    with v(1) show False using evidence_of_accepted [OF well] fresh by blast
  qed
  have start: "before accepted produced s ?op (begin_call host s)"
    by (simp add: before_def begin_call_def others_kept_refl calm_refl)
  have rest: "io_triple (before accepted produced s ?op) (ippSubmit plat opt serve host sub)
    (\<lambda>st w. during accepted produced s ?op (names_of ?op ?n ?docs) w \<and> (nothing_printed st \<longrightarrow>
       (\<exists>jobs. listing accepted produced ?op (iw_device w) jobs \<and> ?n \<le> int (length jobs) \<and> list_all empty_handed jobs)))
    (\<lambda>e w. before accepted produced s ?op w \<or> during accepted produced s ?op (names_of ?op ?n ?docs) w \<and>
       (unambiguous e \<longrightarrow> during accepted produced s ?op [] w))
    (\<lambda>w. before accepted produced s ?op w \<or> during accepted produced s ?op (names_of ?op ?n ?docs) w)"
    (is "io_triple _ _ ?Q ?E ?I")
  proof (cases "assertSubmittable plat sub")
    case (Inl e)
    then show ?thesis unfolding ippSubmit_def by (auto intro: io_throw)
  next
    case (Inr u)
    then have ok: "assertSubmittable plat sub = Inr ()" by simp
    note taken = taken_submission [OF ok takes]
    have n: "0 \<le> ?n" "?n \<le> 999" using taken(3) by simp_all
    have media: "map_of IPP_MEDIA_BY_PAPER_SIZE (pm_paperSize (ps_manifest sub)) = Some ''iso_a4_210x297mm''"
      and color: "map_of IPP_COLOR_MODE_BY_COLOR_MODE (pm_colorMode (ps_manifest sub)) = Some ''monochrome''"
      using takes by (simp_all add: ipp_takes_def printJobManifestSchema_def IPP_MEDIA_BY_PAPER_SIZE_def
          IPP_COLOR_MODE_BY_COLOR_MODE_def)
    have tables: "''iso_a4_210x297mm'' \<in> snd ` set IPP_MEDIA_BY_PAPER_SIZE" "''monochrome'' \<in> snd ` set IPP_COLOR_MODE_BY_COLOR_MODE"
      by (simp_all add: IPP_MEDIA_BY_PAPER_SIZE_def IPP_COLOR_MODE_BY_COLOR_MODE_def)
    have docs: "list_all (document_ready sub) ?docs" using taken(5) by (simp add: list_all_iff)
    have "inj_on (\<lambda>a. js (deviceJobName ?op (pa_position a) ?n)) (set ?docs)"
    proof (rule inj_onI)
      fix a b assume ab: "a \<in> set ?docs" "b \<in> set ?docs" "js (deviceJobName ?op (pa_position a) ?n) = js (deviceJobName ?op (pa_position b) ?n)"
      have p: "0 \<le> pa_position a" "pa_position a \<le> 999" "0 \<le> pa_position b" "pa_position b \<le> 999"
        using ab(1,2) taken(5) by (auto simp: list_all_iff document_ready_def)
      have "matchJobName (deviceJobName ?op (pa_position a) ?n) = Some (?op, pad3 (pa_position a), pad3 ?n)"
        "matchJobName (deviceJobName ?op (pa_position b) ?n) = Some (?op, pad3 (pa_position b), pad3 ?n)"
        using taken(1) p n by (simp_all only: matchJobName_deviceJobName)
      then have "nat (pa_position a) = nat (pa_position b)"
        using ab(3) pad3_digits(3) [OF p(1,2)] pad3_digits(3) [OF p(3,4)] by simp
      then have "pa_position a = pa_position b" using p by simp
      then show "a = b" using key_unique [OF taken(4)] ab(1,2) by simp
    qed
    moreover have "distinct ?docs" using taken(4) by (simp add: distinct_map)
    ultimately have distinct: "distinct (names_of ?op ?n ?docs)" by (simp add: names_of_def distinct_map)
    let ?B = "before accepted produced s ?op" and ?D = "during accepted produced s ?op"
    have ask: "io_triple ?B (assertReadyForPdf opt serve host) (\<lambda>_. ?B) (\<lambda>_. ?B) ?B"
      unfolding assertReadyForPdf_def
      by (rule io_bind [OF io_attempt [OF ask_printer [OF honest uri before_stable]]])
        (auto simp: literal_simps intro!: io_throw io_return split: sum.split ipp_failure.split)
    have "io_triple ?B (writeJournal host ?op (journalOpen (ih_writeMs host) (intentRecord opt host ?op ?docs)))
        (\<lambda>_. ?D []) (\<lambda>_. ?B) ?B"
      by (rule write_intent) (simp_all add: intentRecord_def taken(1))
    then have intent: "io_triple ?B (writeJournal host ?op (journalOpen (ih_writeMs host) (intentRecord opt host ?op ?docs)))
        (\<lambda>_. ?D []) ?E ?I"
      by (rule io_weaken) auto
    have all: "io_triple (?D []) (submitDocuments opt serve host sub ''iso_a4_210x297mm'' ''monochrome'' ?n 0 ?docs)
        (\<lambda>_. ?D (names_of ?op ?n ?docs)) ?E ?I"
      by (rule io_weaken [OF submit_all [OF honest uri taken(1) n tables docs distinct]]) auto
    have wait: "io_triple (?D (names_of ?op ?n ?docs)) (awaitCompletion opt serve host ?op ?n) ?Q ?E ?I"
      by (rule io_weaken [OF await_settled [OF honest uri during_stable]]) auto
    have "io_triple ?B (assertReadyForPdf opt serve host) (\<lambda>_. ?B) ?E ?I" by (rule io_weaken [OF ask]) auto
    from io_bind [OF this io_bind [OF intent io_bind [OF all wait]]] show ?thesis
      unfolding ippSubmit_def ok media color by (simp add: Let_def)
  qed
  have ended: "case r of Killed \<Rightarrow> ?I w | Done (Inl e) \<Rightarrow> ?E e w | Done (Inr st) \<Rightarrow> ?Q st w"
    by (rule io_tripleD [OF rest start run])
  have quit: "ipp_well accepted (iw_journal w, iw_device w) \<and> others_kept ?op (fst s) (iw_journal w) \<and>
      \<not> ipp_output produced (iw_journal w, iw_device w) ?op"
    if "before accepted produced s ?op w"
    using that well_before [OF well fresh that] unprinted [of "iw_device w" "iw_journal w"] by (auto simp: before_def calm_def)
  show ?thesis
  proof (cases "assertSubmittable plat sub")
    case (Inl e)
    then have "r = Done (Inl (Thrown_adapter e))" "w = begin_call host s" using run by (simp_all add: ippSubmit_def throw_io_def)
    then show ?thesis using quit start by simp
  next
    case (Inr u)
    then have "assertSubmittable plat sub = Inr ()" by simp
    note taken = taken_submission [OF this takes]
    have named: "\<forall>a \<in> set ?docs. kiosk_name ?op (pa_position a) ?n (js (deviceJobName ?op (pa_position a) ?n))"
      using taken takes by (auto simp: kiosk_name_def ipp_takes_def list_all_iff document_ready_def)
    have on: "ipp_well accepted (iw_journal w, iw_device w) \<and> others_kept ?op (fst s) (iw_journal w) \<and>
        ipp_evidence (iw_journal w, iw_device w) ?op"
      if d: "during accepted produced s ?op (names_of ?op ?n ?docs) w"
      using well_during [OF well fresh d named] d by (simp add: during_def ipp_evidence_def)
    have off: "\<not> ipp_output produced (iw_journal w, iw_device w) ?op" if "during accepted produced s ?op [] w"
      using that by (intro unprinted) (auto simp: during_def)
    have settled: "\<not> ipp_output produced (iw_journal w, iw_device w) ?op"
      if d: "during accepted produced s ?op (names_of ?op ?n ?docs) w"
        and jobs: "listing accepted produced ?op (iw_device w) jobs" "?n \<le> int (length jobs)" "list_all empty_handed jobs" for jobs
    proof
      assume "ipp_output produced (iw_journal w, iw_device w) ?op"
      then obtain p m v where v: "kiosk_name ?op p m v" "produced (iw_device w) v" by (auto simp: ipp_output_def)
      have A: "v \<in> set (accepted (iw_device w))" by (rule only [OF v(2)])
      obtain vs where vs: "accepted (iw_device w) = vs @ accepted (snd s)" "set vs \<subseteq> set (names_of ?op ?n ?docs)"
        using d unfolding during_def by blast
      have "v \<notin> set (accepted (snd s))" using evidence_of_accepted [OF well _ v(1)] fresh by blast
      then have "v \<in> set (names_of ?op ?n ?docs)" using A vs by auto
      then obtain a where "a \<in> set ?docs" "v = js (deviceJobName ?op (pa_position a) ?n)" by (auto simp: names_of_def)
      then have m: "m = ?n" using kiosk_name_unique [OF v(1)] named by blast
      obtain extent where extent: "sized extent (set (accepted (iw_device w)))" using on [OF d] unfolding ipp_well_def by auto
      have "extent ?op = ?n" using sized_name [OF extent A v(1)] m by simp
      then show False using nothing_listed [OF extent jobs(1,3) _ v(1) A] jobs(2) v(2) by simp
    qed
    show ?thesis
    proof (cases r)
      case Killed
      then show ?thesis using ended quit on by auto
    next
      case (Done a)
      show ?thesis
      proof (cases a)
        case (Inl e)
        then have "?E e w" using ended Done by simp
        then show ?thesis using quit on off Done Inl by auto
      next
        case (Inr st)
        then have "?Q st w" using ended Done by simp
        then show ?thesis using on settled Done Inr by blast
      qed
    qed
  qed
qed

section \<open>Asking\<close>

lemma aggregate_submitted: "os_state (aggregateJobs op n jobs warning) \<noteq> D_NOT_SUBMITTED"
  by (auto simp: aggregateJobs_def Let_def operationStatus_def split: option.split)

lemma unknown_quiet: "os_state (unknownStatus op) \<noteq> D_NOT_SUBMITTED" "\<not> nothing_printed (unknownStatus op)"
  by (simp_all add: unknownStatus_def operationStatus_def nothing_printed_def proved_nothing_printed_def device_result_of_def)

text \<open>What an answer to a status question was made of.\<close>

lemma status_cases:
  assumes honest: "honest_device serve accepted produced" and uri: "uri_ready opt"
    and run: "getOperationStatus opt serve host op w = (Done (Inr st), w')"
  obtains r where "journalRead op (iw_journal w) = Inr r"
    and "st = unknownStatus op \<or> r = None \<and> st = NOTHING_SUBMITTED op \<or>
      (\<exists>jobs. jobs \<noteq> [] \<and> listing accepted produced op (iw_device w) jobs \<and>
         st = aggregateJobs op (expectedDocuments r jobs) jobs None)"
proof -
  obtain r where r: "journalRead op (iw_journal w) = Inr r"
    using run by (cases "journalRead op (iw_journal w)") (auto simp: getOperationStatus_def bind_io_def readJournal_def)
  obtain listed w1 where call: "listOperationJobs opt serve host op w = (listed, w1)" by force
  have st: "listed \<noteq> Killed" "\<And>a. listed = Done a \<Longrightarrow> st = (case a of
      Inl e \<Rightarrow> if r \<noteq> None then unknownStatus op else NOTHING_SUBMITTED op
    | Inr [] \<Rightarrow> if r = None then NOTHING_SUBMITTED op else unknownStatus op
    | Inr jobs \<Rightarrow> aggregateJobs op (expectedDocuments r jobs) jobs None)"
    using run unfolding getOperationStatus_def bind_io_def readJournal_def r attempt_def return_io_def
    by (auto simp: call split: outcome.splits)
  show thesis
  proof (rule that [OF r])
    obtain a where a: "listed = Done a" using st(1) by (cases listed) auto
    show "st = unknownStatus op \<or> r = None \<and> st = NOTHING_SUBMITTED op \<or>
        (\<exists>jobs. jobs \<noteq> [] \<and> listing accepted produced op (iw_device w) jobs \<and>
           st = aggregateJobs op (expectedDocuments r jobs) jobs None)"
    proof (cases a)
      case (Inl e)
      then show ?thesis using st(2) [OF a] by auto
    next
      case (Inr jobs)
      have "listing accepted produced op (iw_device w) jobs" using listed_jobs [OF honest uri call] a Inr by blast
      then show ?thesis using st(2) [OF a] Inr by (cases jobs) auto
    qed
  qed
qed

lemma output_has_evidence:
  assumes "honest_device serve accepted produced" and "ipp_well accepted s" and "ipp_output produced s op"
  shows "ipp_evidence s op"
proof -
  obtain p n v where v: "kiosk_name op p n v" "produced (snd s) v" using assms(3) by (auto simp: ipp_output_def)
  then have "v \<in> set (accepted (snd s))" using assms(1) by (auto simp: honest_device_def accepts_honestly_def)
  then show ?thesis using evidence_of_accepted [OF assms(2) _ v(1)] by blast
qed

lemma status_contract:
  assumes honest: "honest_device serve accepted produced" and uri: "uri_ready opt" and well: "ipp_well accepted s"
    and run: "getOperationStatus opt serve host op (begin_call host s) = (Done (Inr st), w')"
  shows "(os_state st = D_NOT_SUBMITTED \<longrightarrow> \<not> ipp_evidence s op) \<and> (nothing_printed st \<longrightarrow> \<not> ipp_output produced s op)"
proof -
  have world: "iw_journal (begin_call host s) = fst s" "iw_device (begin_call host s) = snd s" by (simp_all add: begin_call_def)
  obtain r where r: "journalRead op (fst s) = Inr r"
    and st: "st = unknownStatus op \<or> r = None \<and> st = NOTHING_SUBMITTED op \<or>
      (\<exists>jobs. jobs \<noteq> [] \<and> listing accepted produced op (snd s) jobs \<and> st = aggregateJobs op (expectedDocuments r jobs) jobs None)"
    using status_cases [OF honest uri run] unfolding world by blast
  have u: "is_uuid op" using r by (auto simp: journalRead_def recordName_def split: if_splits)
  have none: "\<not> ipp_evidence s op" if "r = None" using recorded_read [OF u r] that by (simp add: ipp_evidence_def)
  have paper: "\<not> ipp_output produced s op"
    if jobs: "jobs \<noteq> []" "listing accepted produced op (snd s) jobs" "nothing_printed (aggregateJobs op (expectedDocuments r jobs) jobs None)"
    for jobs
  proof
    assume "ipp_output produced s op"
    then obtain p n v where v: "kiosk_name op p n v" "produced (snd s) v" by (auto simp: ipp_output_def)
    then have A: "v \<in> set (accepted (snd s))" using honest by (auto simp: honest_device_def accepts_honestly_def)
    note all = aggregate_nothing [OF jobs(3,2)]
    obtain job more where job: "jobs = job # more" using jobs(1) by (cases jobs) auto
    obtain extent where extent: "sized extent (set (accepted (snd s)))" using well unfolding ipp_well_def by blast
    obtain u where u: "u \<in> set (accepted (snd s))" "describes u job" using jobs(2) job by (auto simp: listing_def)
    obtain op' p' where name: "kiosk_name op' p' (extent op') u" using extent u(1) unfolding sized_def by blast
    have "op' = op"
      using describes_kiosk_name [OF name u(2)] jobs(2) job v(1) by (simp add: listing_def kiosk_name_def)
    then have "dj_documentCount job = extent op" using describes_kiosk_name [OF name u(2)] by simp
    then have "extent op \<le> int (length jobs)" using all job by (simp add: expectedDocuments_def)
    then show False using nothing_listed [OF extent jobs(2) _ _ v(1) A] all v(2) by blast
  qed
  show ?thesis
    using st none paper aggregate_submitted unknown_quiet output_has_evidence [OF honest well] by blast
qed

section \<open>The contract\<close>

lemma ipp_contract:
  fixes serve :: "('c, 'd) device"
  assumes honest: "honest_device serve accepted produced" and uri: "uri_ready opt"
  shows "printer_adapter (ipp_adapter plat opt serve asking) (ipp_takes uuid) (ipp_well accepted) ipp_evidence (ipp_output produced)"
proof
  fix s :: "journal \<times> 'd" and s' op st n
  assume well: "ipp_well accepted s"
  show "ipp_output produced s op \<Longrightarrow> ipp_evidence s op" by (rule output_has_evidence [OF honest well])
  assume "ad_status (ipp_adapter plat opt serve asking) n op s = Inr st"
  then have "fst (getOperationStatus opt serve (asking n) op (begin_call (asking n) s)) = Done (Inr st)"
    by (auto simp: ipp_adapter_def split: outcome.splits)
  then obtain w' where "getOperationStatus opt serve (asking n) op (begin_call (asking n) s) = (Done (Inr st), w')"
    by (cases "getOperationStatus opt serve (asking n) op (begin_call (asking n) s)") auto
  from status_contract [OF honest uri well this]
  show "os_state st = D_NOT_SUBMITTED \<Longrightarrow> \<not> ipp_evidence s op" "nothing_printed st \<Longrightarrow> \<not> ipp_output produced s op" by blast+
next
  fix s s' :: "journal \<times> 'd" and sub d r
  assume a: "ipp_well accepted s" "ipp_takes uuid sub" "\<not> ipp_evidence s (ps_operationId sub)"
    "ad_submit (ipp_adapter plat opt serve asking) d sub s = (r, s')"
  then obtain w where "ippSubmit plat opt serve d sub (begin_call d s) = (r, w)" and s': "s' = (iw_journal w, iw_device w)"
    by (auto simp: ipp_adapter_def split: prod.splits)
  from submit_outcome [OF honest uri a(2,1,3) this(1)]
  show "ipp_well accepted s'" "\<And>op. op \<noteq> ps_operationId sub \<Longrightarrow> ipp_evidence s' op = ipp_evidence s op"
    unfolding s' by (auto simp: others_kept_def ipp_evidence_def)
next
  fix s s' :: "journal \<times> 'd" and sub d e
  assume a: "ipp_well accepted s" "ipp_takes uuid sub" "\<not> ipp_evidence s (ps_operationId sub)"
    "ad_submit (ipp_adapter plat opt serve asking) d sub s = (Done (Inl e), s')" "unambiguous e"
  then obtain w where "ippSubmit plat opt serve d sub (begin_call d s) = (Done (Inl e), w)" and s': "s' = (iw_journal w, iw_device w)"
    by (auto simp: ipp_adapter_def split: prod.splits)
  from submit_outcome [OF honest uri a(2,1,3) this(1)] a(5)
  show "\<not> ipp_output produced s' (ps_operationId sub)" unfolding s' by blast
next
  fix s s' :: "journal \<times> 'd" and sub d st
  assume a: "ipp_well accepted s" "ipp_takes uuid sub" "\<not> ipp_evidence s (ps_operationId sub)"
    "ad_submit (ipp_adapter plat opt serve asking) d sub s = (Done (Inr st), s')"
  then obtain w where "ippSubmit plat opt serve d sub (begin_call d s) = (Done (Inr st), w)" and s': "s' = (iw_journal w, iw_device w)"
    by (auto simp: ipp_adapter_def split: prod.splits)
  from submit_outcome [OF honest uri a(2,1,3) this(1)]
  show "ipp_evidence s' (ps_operationId sub)" "nothing_printed st \<Longrightarrow> \<not> ipp_output produced s' (ps_operationId sub)"
    unfolding s' by blast+
qed

end
