(* ===== verification/Ipp_Kiosk.thy ===== *)
theory Ipp_Kiosk
  imports Ipp_Contract
begin

text \<open>
  A kiosk with the printer of Ipp_Adapter: the runs of Print_Runner over every history of commands, crashes,
  lost answers and redeliveries, for every device that keeps the laws of Ipp_Contract. The example is a printer
  with no memory: it takes every job, says it is idle, and lists none.
\<close>

section \<open>A printer that forgets\<close>

definition answer_of :: "ipp_group list \<Rightarrow> int \<Rightarrow> fetched" where
  "answer_of groups requestId =
     (case encodeIppRequest \<lparr>iq_operation = 0, iq_requestId = requestId, iq_groups = groups, iq_data = []\<rparr> of
        Inl e \<Rightarrow> Fetch_threw | Inr bytes \<Rightarrow> Fetch_response True [bytes] False)"

definition forgetful_printer :: "(unit, js_text list) device" where
  "forgetful_printer c bytes names =
     (case decodeIppResponse bytes DEFAULT_DECODE_LIMITS of
        Inl e \<Rightarrow> (Fetch_threw, names)
      | Inr m \<Rightarrow>
          if ip_statusCode m = PRINT_JOB then
            (case job_name_of \<lparr>iq_operation = PRINT_JOB, iq_requestId = 0, iq_groups = ip_groups m, iq_data = []\<rparr> of
               None \<Rightarrow> (Fetch_threw, names)
             | Some v \<Rightarrow> (answer_of [] (ip_requestId m), v # names))
          else if ip_statusCode m = GET_PRINTER_ATTRIBUTES
          then (answer_of [\<lparr>ig_tag = PRINTER_ATTRIBUTES, ig_attributes = [enumAttribute (js ''printer-state'') 3]\<rparr>] (ip_requestId m), names)
          else (answer_of [] (ip_requestId m), names))"

lemma empty_answer:
  assumes "readAnswer (answer_of [] n) = Some r"
  shows "ip_statusCode r = 0 \<and> ip_groups r = []"
proof -
  have "request_sound DEFAULT_DECODE_LIMITS \<lparr>iq_operation = 0, iq_requestId = n, iq_groups = [], iq_data = []\<rparr>"
    by (simp add: request_sound_def DEFAULT_DECODE_LIMITS_def attributes_of_def)
  from request_read_back [OF this] obtain bytes where
    "encodeIppRequest \<lparr>iq_operation = 0, iq_requestId = n, iq_groups = [], iq_data = []\<rparr> = Inr bytes"
    "decodeIppResponse bytes DEFAULT_DECODE_LIMITS = Inr \<lparr>ip_statusCode = 0, ip_requestId = n mod 4294967296, ip_groups = []\<rparr>"
    by auto
  then show ?thesis using assms by (auto simp: readAnswer_def answer_of_def split: option.splits if_splits)
qed

lemma forgetful_reads:
  assumes "request_sound DEFAULT_DECODE_LIMITS q" and "encodeIppRequest q = Inr bytes" and "iq_operation q \<in> OPERATIONS"
  obtains n where "decodeIppResponse bytes DEFAULT_DECODE_LIMITS =
    Inr \<lparr>ip_statusCode = iq_operation q, ip_requestId = n, ip_groups = iq_groups q\<rparr>"
proof -
  have "iq_operation q mod 65536 = iq_operation q"
    using assms(3) by (auto simp: OPERATIONS_def PRINT_JOB_def CANCEL_JOB_def GET_JOBS_def GET_PRINTER_ATTRIBUTES_def)
  then show thesis using request_read_back [OF assms(1)] assms(2) that by auto
qed

lemma forgetful_honest: "honest_device forgetful_printer (\<lambda>names. names) (\<lambda>names v. v \<in> set names)"
  unfolding honest_device_def accepts_honestly_def lists_honestly_def
proof (intro conjI allI impI ballI)
  fix c q bytes names answer names'
  assume q: "request_sound DEFAULT_DECODE_LIMITS q" "encodeIppRequest q = Inr bytes"
    and served: "forgetful_printer c bytes names = (answer, names')" and op: "iq_operation q \<in> OPERATIONS"
  obtain n where m: "decodeIppResponse bytes DEFAULT_DECODE_LIMITS =
      Inr \<lparr>ip_statusCode = iq_operation q, ip_requestId = n, ip_groups = iq_groups q\<rparr>"
    by (rule forgetful_reads [OF q op])
  have taken: "\<not> refuses (answer_of [] n)" using empty_answer by (auto simp: refuses_def IPP_STATUS_CLIENT_ERROR_def)
  have name: "job_name_of \<lparr>iq_operation = PRINT_JOB, iq_requestId = 0, iq_groups = iq_groups q, iq_data = []\<rparr> = job_name_of q"
    by (simp add: job_name_of_def)
  show "names' = names \<or> iq_operation q = PRINT_JOB \<and> \<not> refuses answer \<and> (\<exists>v. job_name_of q = Some v \<and> names' = v # names)"
    using served taken by (auto simp: forgetful_printer_def m name split: option.splits if_splits)
next
  fix c q bytes names answer names' response g job
  assume q: "request_sound DEFAULT_DECODE_LIMITS q" "encodeIppRequest q = Inr bytes"
    and served: "forgetful_printer c bytes names = (answer, names')" and op: "iq_operation q = GET_JOBS"
    and answer: "readAnswer answer = Some response" and g: "g \<in> set (ip_groups response)"
  obtain n where "decodeIppResponse bytes DEFAULT_DECODE_LIMITS =
      Inr \<lparr>ip_statusCode = iq_operation q, ip_requestId = n, ip_groups = iq_groups q\<rparr>"
    using forgetful_reads [OF q] op by (auto simp: OPERATIONS_def)
  then have "answer = answer_of [] n"
    using served op by (simp add: forgetful_printer_def PRINT_JOB_def GET_JOBS_def GET_PRINTER_ATTRIBUTES_def)
  then have False using empty_answer answer g by force
  then show "\<exists>v \<in> set names. describes v job \<and> (empty_handed job \<longrightarrow> \<not> v \<in> set names)" by blast
qed simp_all

section \<open>Histories\<close>

definition ipp_sound ::
  "(string \<Rightarrow> string) \<Rightarrow> (string \<Rightarrow> bool) \<Rightarrow> (string \<Rightarrow> bool) \<Rightarrow> nat \<times> 'o run_env \<times> agent_command \<Rightarrow> bool" where
  "ipp_sound sha256 authentic uuid e \<longleftrightarrow>
     sound_command sha256 authentic e \<and> hands_over (ipp_takes uuid) (fst (snd e)) (snd (snd e))"

lemma ipp_kiosk_inv:
  assumes honest: "honest_device serve accepted produced" and uri: "uri_ready opt"
    and sound: "list_all (ipp_sound sha256 authentic uuid) es"
    and well: "ipp_well accepted s" and fresh: "\<And>op. \<not> ipp_evidence s op"
  shows "kiosk_inv (ipp_well accepted) ipp_evidence (ipp_output produced) authentic
    (fold (kioskRun sha256 cfg (ipp_adapter plat opt serve asking)) es (fresh_kiosk s))"
proof -
  have "list_all (\<lambda>e. sound_command sha256 authentic e \<and> hands_over (ipp_takes uuid) (fst (snd e)) (snd (snd e))) es"
    using sound by (simp add: ipp_sound_def [abs_def])
  from printer_adapter.kiosk_history [OF ipp_contract [OF honest uri] this well fresh] show ?thesis .
qed

text \<open>
  C11. No document is printed twice: on a kiosk with a printer reached over IPP, whatever commands arrive in
  whatever order and however often, wherever the process dies, whichever answers are lost or unreadable and
  however much of its history the queue forgets, the printer accepts each document of each operation at most
  once, and each operation is handed over with effect at most once.
\<close>

theorem no_document_is_printed_twice:
  assumes "honest_device serve accepted produced" and "uri_ready opt" and "list_all (ipp_sound sha256 authentic uuid) es"
    and "ipp_well accepted s" and "\<forall>op. \<not> ipp_evidence s op"
    and "kiosk = fold (kioskRun sha256 cfg (ipp_adapter plat opt serve asking)) es (fresh_kiosk s)"
  shows "distinct (accepted (snd (kw_device kiosk))) \<and> effective ipp_evidence op (kw_submits kiosk) \<le> 1"
proof -
  have "\<And>op. \<not> ipp_evidence s op" using assms(5) by blast
  from ipp_kiosk_inv [OF assms(1-4) this, of cfg plat asking] show ?thesis
    unfolding assms(6) by (simp add: kiosk_inv_def ipp_well_def)
qed

text \<open>
  C16. Money is promised back only for paper that will never come: in every such history, when a result is
  posted whose settlement owes a refund, the printer has put out no sheet of the operation and will put out none.
\<close>

theorem refunds_are_for_paper_that_never_comes:
  assumes "honest_device serve accepted produced" and "uri_ready opt" and "list_all (ipp_sound sha256 authentic uuid) es"
    and "ipp_well accepted s" and "\<forall>op. \<not> ipp_evidence s op"
    and "(op, st, device) \<in> set (kw_reports (fold (kioskRun sha256 cfg (ipp_adapter plat opt serve asking)) es (fresh_kiosk s)))"
    and "st_refundObligation (settlePrintDeviceResult (device_result_of st))"
  shows "\<not> ipp_output produced device op"
proof -
  have "\<And>op. \<not> ipp_evidence s op" using assms(5) by blast
  from ipp_kiosk_inv [OF assms(1-4) this, of cfg plat asking] show ?thesis
    using assms(6,7) by (auto simp: kiosk_inv_def list_all_iff honest_report_def nothing_printed_def)
qed

section \<open>An example\<close>

definition ipp_sample_options :: ipp_options where
  "ipp_sample_options =
     \<lparr>io_printerUri = js ''ipp://printer.local/ipp/print'', io_queueName = ''kiosk'', io_maxCopies = 100,
      io_completionTimeoutMilliseconds = Some 2000\<rparr>"

lemma ipp_sample_uri: "uri_ready ipp_sample_options"
  by (simp add: uri_ready_def ipp_sample_options_def plain_js length_encode_js literal_simps)

text \<open>The host: the spooled file is there; the process has the effects it is given.\<close>

definition ipp_sample_host :: "nat \<Rightarrow> unit ipp_host" where
  "ipp_sample_host life =
     \<lparr>ih_requestId = 0, ih_life = life, ih_torn = True, ih_chance = (\<lambda>_. ()), ih_writeMs = 0, ih_writeError = (\<lambda>_. None),
      ih_submittedAt = ''2026-01-01T00:00:00.000Z'', ih_files = (\<lambda>_. Some (replicate 10 0)), ih_clock = [0, 1000, 3000]\<rparr>"

definition ipp_sample_env :: "nat \<Rightarrow> unit ipp_host run_env" where
  "ipp_sample_env life =
     \<lparr>rn_ledgerError = (\<lambda>_. None), rn_ledgerReadable = True, rn_preparing = None,
      rn_fetch = Inr (ps_artifacts sample_submission), rn_submitted = None, rn_hasTelemetry = False,
      rn_baseline = None, rn_device = ipp_sample_host life, rn_clock = [], rn_watchStart = 0, rn_watch = [],
      rn_report = Acked True\<rparr>"

definition ipp_sample_command :: "bool \<Rightarrow> agent_command" where
  "ipp_sample_command redelivered = (sample_command redelivered)\<lparr>cm_manifest := accepted_manifest\<rparr>"

text \<open>The process dies while it waits for the device; the command comes back and is resolved.\<close>

definition ipp_sample_history :: "(nat \<times> unit ipp_host run_env \<times> agent_command) list" where
  "ipp_sample_history =
     [(20, ipp_sample_env 4, ipp_sample_command False), (20, ipp_sample_env 20, ipp_sample_command True)]"

lemma sample_id_lower: "js_lower sample_operation_id = sample_operation_id"
  by code_simp

lemma ipp_sample_sound: "list_all (ipp_sound (\<lambda>_. ''h'') (\<lambda>_. True) (\<lambda>_. True)) ipp_sample_history"
  by (simp add: ipp_sample_history_def ipp_sound_def sound_command_def hands_over_def ipp_takes_def submissionOf_def
      ipp_sample_command_def sample_command_def ipp_sample_env_def sample_id_lower accepted_manifest_schema)

lemma ipp_sample_empty: "ipp_well (\<lambda>names. names) ([], [])" "\<forall>op. \<not> ipp_evidence ([], d) op"
  by (simp_all add: ipp_well_def ipp_evidence_def recorded_def lookup_entry_def sized_def)

theorem no_document_is_printed_twice_witness:
  "distinct (snd (kw_device (fold (kioskRun (\<lambda>_. ''h'') sample_runner
      (ipp_adapter POSIX ipp_sample_options forgetful_printer (\<lambda>n. ipp_sample_host 20))) ipp_sample_history (fresh_kiosk ([], [])))))"
  using no_document_is_printed_twice [OF forgetful_honest ipp_sample_uri ipp_sample_sound ipp_sample_empty refl] by blast

text \<open>A printer that is switched off.\<close>

definition silent_printer :: "(unit, unit) device" where
  "silent_printer c bytes d = (Fetch_threw, d)"

lemma silent_honest: "honest_device silent_printer (\<lambda>_. []) (\<lambda>_ _. False)"
  by (simp add: honest_device_def accepts_honestly_def lists_honestly_def silent_printer_def readAnswer_def)

definition silent_history :: "(nat \<times> unit ipp_host run_env \<times> agent_command) list" where
  "silent_history = [(20, ipp_sample_env 20, ipp_sample_command False)]"

lemma silent_sound: "list_all (ipp_sound (\<lambda>_. ''h'') (\<lambda>_. True) (\<lambda>_. True)) silent_history"
  by (simp add: silent_history_def ipp_sound_def sound_command_def hands_over_def ipp_takes_def submissionOf_def
      ipp_sample_command_def sample_command_def ipp_sample_env_def sample_id_lower accepted_manifest_schema)

lemma silent_empty: "ipp_well (\<lambda>_. []) ([], ())" 
  by (simp add: ipp_well_def sized_def)

lemma silent_call:
  assumes "0 < iw_life w"
  obtains e w' where "ippCall silent_printer host operation groups data w = (Done (Inl e), w')" and "\<not> failureAnswered e"
    and "iw_journal w' = iw_journal w"
proof -
  let ?q = "\<lparr>iq_operation = operation, iq_requestId = iw_requestId w mod 0x7fffffff + 1, iq_groups = groups, iq_data = data\<rparr>"
  obtain n where n: "iw_life w = Suc n" using assms by (cases "iw_life w") auto
  show thesis
  proof (cases "encodeIppRequest ?q")
    case (Inl e)
    then show thesis using that by (cases e) (simp add: ippCall_def Let_def)
  next
    case (Inr body)
    then show thesis using that n
      by (simp add: ippCall_def Let_def fetchDevice_def bind_io_def silent_printer_def readAnswer_def throw_io_def)
  qed
qed

definition silent_submission :: print_submission where
  "silent_submission = submissionOf (ipp_sample_command False) (ps_artifacts sample_submission)"

lemma silent_submittable: "assertSubmittable POSIX silent_submission = Inr ()"
  by code_simp

lemma silent_refusal:
  "ad_submit (ipp_adapter POSIX ipp_sample_options silent_printer asking) (ipp_sample_host 20) silent_submission ([], ()) =
    (Done (Inl (Thrown_adapter (adapterError DEVICE_UNREACHABLE))), ([], ()))"
proof -
  let ?w = "begin_call (ipp_sample_host 20) (([] :: journal), ())"
  have "0 < iw_life ?w" and empty: "iw_journal ?w = []" by (simp_all add: begin_call_def ipp_sample_host_def)
  then obtain e w' where asked: "getPrinterAttributes ipp_sample_options silent_printer (ipp_sample_host 20)
      [''printer-state'', ''printer-state-reasons'', ''printer-is-accepting-jobs'', ''document-format-supported''] ?w = (Done (Inl e), w')"
    "\<not> failureAnswered e" "iw_journal w' = []"
    unfolding getPrinterAttributes_def using silent_call by metis
  have tables: "map_of IPP_MEDIA_BY_PAPER_SIZE (pm_paperSize (ps_manifest silent_submission)) = Some ''iso_a4_210x297mm''"
    "map_of IPP_COLOR_MODE_BY_COLOR_MODE (pm_colorMode (ps_manifest silent_submission)) = Some ''monochrome''"
    by (simp_all add: silent_submission_def submissionOf_def ipp_sample_command_def accepted_manifest_def sample_manifest_def
        IPP_MEDIA_BY_PAPER_SIZE_def IPP_COLOR_MODE_BY_COLOR_MODE_def)
  have "assertReadyForPdf ipp_sample_options silent_printer (ipp_sample_host 20) ?w =
      (Done (Inl (Thrown_adapter (adapterError DEVICE_UNREACHABLE))), w')"
    using asked by (cases e) (simp_all add: assertReadyForPdf_def bind_io_def attempt_def throw_io_def)
  then show ?thesis
    using asked(3) by (simp add: ipp_adapter_def ippSubmit_def silent_submittable tables Let_def bind_io_def)
qed

lemma refused_run:
  assumes "ad_submit ad (ipp_sample_host 20) silent_submission s = (Done (Inl (Thrown_adapter (adapterError DEVICE_UNREACHABLE))), s)"
  shows "kw_reports (kioskRun (\<lambda>_. ''h'') sample_runner ad (20, ipp_sample_env 20, ipp_sample_command False) (fresh_kiosk s)) =
    [(sample_operation_id, operationStatus sample_operation_id D_NOT_SUBMITTED CONFIRMED (Some ''DEVICE_ERROR'') None (Some 0) None, s)]"
  using assms
  by (simp add: kioskRun_def execute_def runOperation_def Let_def bind_run_def ledgerRecord_def effect_def read_run_def
      prepareAndSubmit_def handOver_def callSubmit_def silent_submission_def return_run_def discardSpool_def reportAndRecord_def
      report_def ipp_sample_env_def ipp_sample_command_def sample_command_def fresh_kiosk_def numeral_eq_Suc hasSubmitted_def
      resolveAdapterFailure_def asPrinterAdapterError_def adapterError_def adapterFailureCode_def confirmAgainstMarker_def
      operationStatus_def applyMarkerEvidence_def NOT_MEASURED_def submissionOf_def)

theorem refunds_are_for_paper_that_never_comes_witness:
  "\<not> ipp_output (\<lambda>_ _. False) ([], ()) sample_operation_id"
proof -
  let ?st = "operationStatus sample_operation_id D_NOT_SUBMITTED CONFIRMED (Some ''DEVICE_ERROR'') None (Some 0) None"
  let ?ad = "ipp_adapter POSIX ipp_sample_options silent_printer (\<lambda>n. ipp_sample_host 20)"
  have "(sample_operation_id, ?st, ([], ())) \<in> set (kw_reports (fold (kioskRun (\<lambda>_. ''h'') sample_runner ?ad) silent_history
      (fresh_kiosk ([], ()))))"
    using refused_run [OF silent_refusal] by (simp add: silent_history_def)
  moreover have "st_refundObligation (settlePrintDeviceResult (device_result_of ?st))"
    by (simp add: proved_nothing_printed_def device_result_of_def operationStatus_def)
  ultimately show ?thesis
    by (rule refunds_are_for_paper_that_never_comes [OF silent_honest ipp_sample_uri silent_sound silent_empty ipp_sample_empty(2)])
qed

end
