(* ===== verification/Spec2Isabelle.thy ===== *)
theory Spec2Isabelle
  imports Session_State Print_Outcome Retention Print_Settings Pricing Json Print_Submission
    Queue_Approval Operation_Journal Printer_Adapter Mock_Printer Telemetry Marker Print_Runner
    Kiosk_Database Print_Contracts Print_Jobs Agent_Commands Print_Job_Service Print_Job_Lifecycle
    Submission_Boundary Command_Channel Command_Leases Overdue_Sweep
    Session_Releases Payments Session_Service Settings_Service Quote_Service
    Control_Frames Money_Ledger Callback_Steps Money_Transactions Pricing_Steps Tariff_Frames
    Money_Lifecycle Money_Properties Pricing_Inv Priced_Material Pricing_Properties
    Ipp_Encoding Ipp_Adapter Ipp_Contract Ipp_Kiosk
begin

text \<open>
  Verification library of the printing kiosk: an unattended machine on which a customer joins
  a session with a phone, uploads documents, chooses settings, pays a quoted price and
  collects paper. A control plane (\<^verbatim>\<open>services/api\<close>, \<^verbatim>\<open>services/worker\<close>) owns the sessions, the
  money and the print jobs; a kiosk agent (\<^verbatim>\<open>services/kiosk-agent\<close>) drives one printer; the
  packages hold the rules they share.

  The theories, with the code each one translates and what its lemmas show:

  \<^item> Prelude: results with errors, conversions of numbers to text, lists and tables, and the
    locales \<open>stepping\<close>, \<open>guarded_stepping\<close> and \<open>monotone_stepping\<close>, the contracts of an operation
    that keeps an invariant (under a condition on the event, or along a measure), folded over
    histories of events. Every state machine below is an instance of one of them.
  \<^item> Session_State, \<^verbatim>\<open>packages/domain/src/session.ts\<close>: the states of a session and the table of
    transitions. A paid session only moves among paid states; printing needs payment.
  \<^item> Print_Outcome, \<^verbatim>\<open>packages/domain/src/print-job.ts\<close> and \<open>withHonestConfidence\<close> of
    \<^verbatim>\<open>packages/printer-adapters/src/submission.ts\<close>: the decision between success, refund and
    review that a device result leads to.
  \<^item> Retention, \<^verbatim>\<open>packages/domain/src/retention.ts\<close>: the order of the cleanup checkpoints, the
    backoff of its retries, and the prefixes of stored objects that belong to a session.
  \<^item> Print_Settings, \<^verbatim>\<open>packages/domain/src/print-settings.ts\<close>: page ranges, their canonical
    form and text, the normalisation of settings, and the manifest of a revision.
  \<^item> Pricing, \<^verbatim>\<open>packages/pricing/src/index.ts\<close>: the choice of a rule and the computation of a
    quote in integer minor units.
  \<^item> Json, \<open>canonicalJson\<close> and \<open>canonicalManifestJson\<close>: the text whose hash binds a payment to
    what is printed; it determines the value up to the order of keys.
  \<^item> Print_Submission, \<^verbatim>\<open>packages/printer-adapters/src/types.ts\<close> and \<open>assertSubmittable\<close>: the
    types at the device boundary and the last check before bytes leave for hardware.
  \<^item> Queue_Approval, \<^verbatim>\<open>queues.ts\<close> and \<^verbatim>\<open>capabilities.ts\<close> of the same package: allowlists for the
    queue used and for the options offered.
  \<^item> Operation_Journal, \<^verbatim>\<open>operation-journal.ts\<close>: the durable record of what a device was given.
  \<^item> Printer_Adapter: the locale \<open>printer_adapter\<close>, the contract a printer offers the agent for the
    submissions it takes and has no evidence of (evidence before output, a definite refusal leaves
    nothing, confirmed answers are true).
  \<^item> Mock_Printer, \<^verbatim>\<open>mock/adapter.ts\<close>: the file-writing printer, an interpretation of that
    contract under every failure of its file operations.
  \<^item> Ipp_Encoding, \<^verbatim>\<open>ipp/encoding.ts\<close>: the binary messages of the printing protocol, down to UTF-8.
    What is written reads back; what a device sends reads back bounded, and only from a complete answer.
  \<^item> Ipp_Adapter, \<^verbatim>\<open>ipp/adapter.ts\<close>: submission document by document, the states of device jobs and
    the answer they add up to, cancelling, health, capabilities and description, in a monad in which
    the process may die at any call. The device and what the host reads from it are arguments.
    Ipp_Contract: the two laws relied on of a device (\<open>accepts_honestly\<close>: it takes nothing but the print
    jobs it does not refuse, each under its name; \<open>lists_honestly\<close>: a job it lists is one it took, and one
    listed as over without a sheet has none; it may leave out any job), under which this printer keeps the
    contract, an interpretation of \<open>printer_adapter\<close>. Ipp_Kiosk: the kiosk with such a printer; no document
    is taken twice, and refunds are for paper that never comes.
  \<^item> Telemetry, \<^verbatim>\<open>packages/printer-telemetry\<close> (\<^verbatim>\<open>oids.ts\<close>, \<^verbatim>\<open>snapshot.ts\<close>): decoding of SNMP
    bindings; nothing in a snapshot is invented and it comes from the pinned printer.
  \<^item> Marker, \<^verbatim>\<open>services/kiosk-agent/src/print/marker.ts\<close>: the page counter as evidence, which
    may take a success away and never grants one.
  \<^item> Print_Runner, \<^verbatim>\<open>runner.ts\<close> and \<^verbatim>\<open>ledger.ts\<close>: one operation from lease to report, in a state
    monad in which the process may die at any effect. Over every history of runs with the simulated printer
    an operation reaches it at most once, and refund results are honest; Ipp_Kiosk has the same for IPP.
  \<^item> Kiosk_Database, \<^verbatim>\<open>packages/database\<close> (\<^verbatim>\<open>prisma/schema.prisma\<close>, \<^verbatim>\<open>kiosk-paper.ts\<close>,
    \<^verbatim>\<open>session-cleanup.ts\<close>): the rows of the tables, the paper estimate, and what the end of a
    session writes to its documents and credentials.
  \<^item> Print_Contracts, \<^verbatim>\<open>packages/contracts/src/print-jobs.ts\<close>: the schemas of manifests and
    results; a manifest they accept is one the agent can submit.
  \<^item> Print_Jobs, \<^verbatim>\<open>packages/database/src/print-jobs.ts\<close>: the operation ledger, the refund a
    failed print owes, and the transaction that settles a job, table by table.
  \<^item> Agent_Commands, \<^verbatim>\<open>print-jobs/agent-service.ts\<close> of the API and \<^verbatim>\<open>jobs/dispatch-print.ts\<close> of
    the worker: issuing, leasing, renewing and reporting a command, and the two sweeps.
  \<^item> Print_Job_Service, \<^verbatim>\<open>print-jobs/service.ts\<close>: creating, reading and cancelling a job, with
    its idempotency records.
  \<^item> Print_Job_Lifecycle: all those transactions as events of one system, and the specification
    \<open>job_step\<close> of what one of them may do to jobs, refunds and paper. Every transaction refines it; the
    invariants of outcomes and refunds are proved over it.
  \<^item> Submission_Boundary, Command_Channel, Command_Leases, Overdue_Sweep: what that system
    guarantees to both sides. Only the agent concludes a submitted print; the ledger is numbered
    without gaps; a kiosk is handed the manifest that was paid for, under a live lease, marked as
    redelivered when it is; a result counts once; no job stays open past its deadline. Command_Leases also
    has the one write of the worker's clean-up to these rows, \<open>scrubCommands\<close> of
    \<^verbatim>\<open>jobs/cleanup-session.ts\<close>, which removes the finished commands of a session.

  \<^item> Session_Releases, \<^verbatim>\<open>session-payments.ts\<close> and \<^verbatim>\<open>session-pricing.ts\<close> of \<^verbatim>\<open>packages/database\<close>: what the end of a
    session does to an open payment and to a live price.
  \<^item> Session_Service, \<^verbatim>\<open>sessions/service.ts\<close> of the API: opening, reading, cancelling and expiring a session.
  \<^item> Payments, \<^verbatim>\<open>payments/service.ts\<close> of the API and \<^verbatim>\<open>jobs/reconcile-payments.ts\<close> of the worker: opening and
    confirming a payment, reducing the provider's callbacks, and timing out what nobody paid.
  \<^item> Settings_Service, \<^verbatim>\<open>settings/service.ts\<close> and \<^verbatim>\<open>settings/capabilities.ts\<close> of the API: what a kiosk may offer,
    saving a revision of the customer's settings and reading it. Quote_Service, \<^verbatim>\<open>quotes/service.ts\<close>: checking
    that the saved material is unchanged, the tariff in force, issuing a price or answering the live one.
  \<^item> Money_Ledger: the specification \<open>ledger_step\<close> of what one transaction may do to payments, sessions,
    quotes and refunds, with the three triggers the migrations put on the table of payments, and the
    invariant \<open>money_inv\<close> it keeps. Control_Frames, Callback_Steps and Money_Transactions show that every
    transaction is such a step: those of the print path, the callbacks, and the rest; Pricing_Steps adds the
    settings and the quotes.
  \<^item> Money_Lifecycle: all of them as events of one system, with the invariants of jobs and money together.
    Money_Properties: captured money is applied or owed back, a session is paid once, nothing is printed
    unpaid, a callback counts once, a payment window is bounded, what the reconciler gives up on ends.
    A callback may report a capture of zero; the code then owes nothing for it, and the ledger's first
    parameter is the set of intents for which a history contains such a callback.
  \<^item> Tariff_Frames, Pricing_Inv: no other transaction writes a saved revision, a tariff or what a quote says of
    its price, and the inbox of callbacks only grows; every revision is a normalised one and every quote is what \<open>calculateQuote\<close> says of it.
    Priced_Material, Pricing_Properties: what is paid is the calculated price of what was saved, an answered
    price is the one in force, and a price is issued exactly while the choice still means what was saved.

  How they interact: the agent (Print_Runner) is a client of the printer contract
  (Printer_Adapter) and of the journal and ledger; it folds Telemetry through Marker into the
  result; the result is settled by Print_Outcome, which moves the session of Session_State.
  The manifest it checks is the one Print_Settings froze and Json renders; the amount
  at stake is the quote of Pricing.

  Conventions. A JavaScript number that the code keeps integral is an exact integer, with the
  test \<open>Number.isSafeInteger\<close> where the code has it; octets are 8-bit words. A missing optional
  value and an explicit null are both \<open>None\<close>. A thrown error is the left side of a sum. Clock
  readings, random values, answers of the network and failures of files are arguments. A loop
  that waits is a recursion on the list of the moments it wakes at and returns nothing while
  the list is too short; Marker proves how many moments suffice, and the other loops are
  structural or have a measure. The budget of effects in Print_Runner is not fuel: it is the
  moment at which the process dies, over which the properties quantify.

  A transaction runs alone. The conflicts that the services of the API answer by running it again are
  modelled as failed attempts; a pass of the worker that meets a conflict is not (Kiosk_Database).

  A text that a printer reports is read by the adapter as characters below 256, the range of the terms it
  is compared with.

  Not modelled: the HTTP routes, the requests behind them and the parsing of their addresses, the user
  interfaces, the configuration and the operators' console, which check what is modelled here only from outside; the
  native document tools, the SNMP transport, the helper process of the Windows spooler and the object
  storage, whose behaviour lies in programs and services outside this repository, and with them the
  intake of files and the worker that processes, publishes and deletes them (the policy they
  follow is in Retention, the rows they share in Kiosk_Database), whose clean-up also replaces a settled
  job's manifest with a count of its documents. The Windows printer, whose helper process is not in this
  repository, is not covered by any theorem on printing. None of them takes a
  decision about money or paper of its own, the refunds an operator orders at the console excepted.
\<close>

end
